(* ===== verification/Prelude.thy ===== *)
theory Prelude
  imports Main "HOL-Library.List_Lexorder" "HOL-Library.Char_ord" "HOL-Library.Multiset"
begin

text \<open>
  What every component of the development shares.

  \<^item> Errors of the Go code as values of \<open>gerr\<close>: the reasons of the API server
    that the code tells apart, the typed and sentinel errors of the program, and
    \<open>fmt.Errorf\<close> with \<open>%w\<close> as \<open>Wrap\<close>. \<open>errText\<close> is what \<open>Error()\<close> returns.
  \<^item> A call that reads or changes the outside world is a function from the state
    to a result and a new state (\<open>call\<close>). \<open>bindM\<close> stops at the first error, as
    \<open>if err != nil { return err }\<close> does, and \<open>attempt\<close> hands the error to the caller.
  \<^item> The functions of Go's \<open>strings\<close>, \<open>slices\<close> and \<open>strconv\<close> packages that the
    code calls, on strings as lists of bytes.
  \<^item> The loop that keeps the first newest of the elements passing a test, which
    the code writes out several times, and the interface \<open>newest_pick\<close> with what
    every such choice promises.
\<close>

named_theorems call_simps \<open>unfolding of the call combinators\<close>
named_theorems err_simps \<open>the tests on errors\<close>
named_theorems gostr_simps \<open>Go's string functions\<close>

section \<open>Errors\<close>

datatype gerr =
    NotFound string          \<comment> \<open>\<open>apierrors.IsNotFound\<close>\<close>
  | AlreadyExists string     \<comment> \<open>\<open>apierrors.IsAlreadyExists\<close>\<close>
  | Conflict string          \<comment> \<open>\<open>apierrors.IsConflict\<close>\<close>
  | NoMatch string           \<comment> \<open>\<open>meta.IsNoMatchError\<close>: the cluster has no such kind\<close>
  | ApiOther string          \<comment> \<open>any other error of a call\<close>
  | Plain string             \<comment> \<open>\<open>errors.New\<close> and \<open>fmt.Errorf\<close> without \<open>%w\<close>\<close>
  | Wrap string gerr         \<comment> \<open>\<open>fmt.Errorf\<close> that ends in \<open>%w\<close>, with the text before it\<close>
  | Join gerr gerr           \<comment> \<open>\<open>errors.Join\<close> of two errors\<close>
  | ErrNoRepository          \<comment> \<open>\<open>restic.ErrNoRepository\<close>\<close>
  | ErrWrongKey              \<comment> \<open>\<open>restic.errWrongKey\<close>\<close>
  | LockedError string int bool string \<comment> \<open>\<open>restic.LockedError\<close>: host, time, exclusive, text\<close>
  | OutOfReach string        \<comment> \<open>\<open>populator.outOfReachError\<close>\<close>
  | NoBackupInReach string   \<comment> \<open>\<open>runs.noBackupError\<close>\<close>
  | InvalidSetting string    \<comment> \<open>\<open>runs.invalidSetting\<close>\<close>
  | PauseSpecError string    \<comment> \<open>\<open>runs.pauseSpecError\<close>\<close>
  | ErrSourceBusy            \<comment> \<open>\<open>runs.errSourceBusy\<close>\<close>
  | MissingVolumeRestore string string \<comment> \<open>\<open>runs.missingVolumeRestoreError\<close>: claim and name\<close>
  | NoQueueError string      \<comment> \<open>\<open>admission.NoQueueError\<close>\<close>
  | ErrPaused                \<comment> \<open>\<open>populator.errPaused\<close>\<close>
  | ErrQueued                \<comment> \<open>\<open>populator.errQueued\<close>\<close>
  | Canceled                 \<comment> \<open>\<open>ctx.Err()\<close> of a context that ended\<close>

fun errText :: "gerr \<Rightarrow> string" where
  "errText (NotFound t) = t"
| "errText (AlreadyExists t) = t"
| "errText (Conflict t) = t"
| "errText (NoMatch t) = t"
| "errText (ApiOther t) = t"
| "errText (Plain t) = t"
| "errText (Wrap t e) = t @ errText e"
| "errText (Join a b) = errText a @ [CHR 0x0A] @ errText b"
| "errText ErrNoRepository = ''no restic repository at this location yet''"
| "errText ErrWrongKey = ''MAC does not verify: wrong password or wrong key''"
| "errText (LockedError h t x m) = m"
| "errText (OutOfReach t) = t"
| "errText (NoBackupInReach t) = t"
| "errText (InvalidSetting t) = t"
| "errText (PauseSpecError t) = t"
| "errText ErrSourceBusy = ''the ReplicationSource is still completing another run's backup''"
| "errText (MissingVolumeRestore c n) = ''claim '' @ c @ '' has no VolumeRestore '' @ n @ '' to name its repository''"
| "errText (NoQueueError t) = t"
| "errText ErrPaused = ''the controller runs with --pause''"
| "errText ErrQueued = ''the restore waits for the backup queue''"
| "errText Canceled = ''context canceled''"

text \<open>The tests of \<open>apierrors\<close> and \<open>errors.Is\<close> look through wrapped and joined errors.\<close>

fun anyErr :: "(gerr \<Rightarrow> bool) \<Rightarrow> gerr \<Rightarrow> bool" where
  "anyErr p (Wrap t e) = anyErr p e"
| "anyErr p (Join a b) = (anyErr p a \<or> anyErr p b)"
| "anyErr p e = p e"

text \<open>The text of the first error of a kind in a chain, as \<open>errors.As\<close> finds it.\<close>

fun asText :: "(gerr \<Rightarrow> bool) \<Rightarrow> gerr \<Rightarrow> string" where
  "asText p (Wrap t e) = asText p e"
| "asText p (Join a b) = (if anyErr p a then asText p a else asText p b)"
| "asText p e = errText e"

fun isNotFound1 :: "gerr \<Rightarrow> bool" where
  "isNotFound1 (NotFound _) = True"
| "isNotFound1 _ = False"

fun isAlreadyExists1 :: "gerr \<Rightarrow> bool" where
  "isAlreadyExists1 (AlreadyExists _) = True"
| "isAlreadyExists1 _ = False"

fun isConflict1 :: "gerr \<Rightarrow> bool" where
  "isConflict1 (Conflict _) = True"
| "isConflict1 _ = False"

fun isNoMatch1 :: "gerr \<Rightarrow> bool" where
  "isNoMatch1 (NoMatch _) = True"
| "isNoMatch1 _ = False"

abbreviation IsNotFound :: "gerr \<Rightarrow> bool" where
  "IsNotFound \<equiv> anyErr isNotFound1"

abbreviation IsAlreadyExists :: "gerr \<Rightarrow> bool" where
  "IsAlreadyExists \<equiv> anyErr isAlreadyExists1"

abbreviation IsConflict :: "gerr \<Rightarrow> bool" where
  "IsConflict \<equiv> anyErr isConflict1"

abbreviation IsNoMatchError :: "gerr \<Rightarrow> bool" where
  "IsNoMatchError \<equiv> anyErr isNoMatch1"

section \<open>Calls\<close>

type_synonym ('s, 'a) call = "'s \<Rightarrow> (gerr + 'a) \<times> 's"

definition ret :: "'a \<Rightarrow> ('s, 'a) call" where
  "ret x = (\<lambda>s. (Inr x, s))"

definition failM :: "gerr \<Rightarrow> ('s, 'a) call" where
  "failM e = (\<lambda>s. (Inl e, s))"

definition bindM :: "('s, 'a) call \<Rightarrow> ('a \<Rightarrow> ('s, 'b) call) \<Rightarrow> ('s, 'b) call" where
  "bindM m f = (\<lambda>s. case m s of (Inl e, s') \<Rightarrow> (Inl e, s') | (Inr x, s') \<Rightarrow> f x s')"

text \<open>\<open>thenM\<close> runs a call for its effect; \<open>attempt\<close> returns the error as a value;
  \<open>wrapM\<close> is \<open>fmt.Errorf("...: %w", err)\<close> on the error of a call.\<close>

definition thenM :: "('s, 'a) call \<Rightarrow> ('s, 'b) call \<Rightarrow> ('s, 'b) call" where
  "thenM m n = bindM m (\<lambda>_. n)"

definition attempt :: "('s, 'a) call \<Rightarrow> ('s, gerr + 'a) call" where
  "attempt m = (\<lambda>s. case m s of (r, s') \<Rightarrow> (Inr r, s'))"

definition wrapM :: "string \<Rightarrow> ('s, 'a) call \<Rightarrow> ('s, 'a) call" where
  "wrapM t m = (\<lambda>s. case m s of (Inl e, s') \<Rightarrow> (Inl (Wrap t e), s') | (Inr x, s') \<Rightarrow> (Inr x, s'))"

definition liftE :: "gerr + 'a \<Rightarrow> ('s, 'a) call" where
  "liftE r = (\<lambda>s. (r, s))"

primrec forM :: "'a list \<Rightarrow> ('a \<Rightarrow> ('s, unit) call) \<Rightarrow> ('s, unit) call" where
  "forM [] f = ret ()"
| "forM (x # xs) f = thenM (f x) (forM xs f)"

lemma bindM_ret [call_simps]: "bindM (ret x) f = f x"
  by (simp add: bindM_def ret_def)

lemma bindM_failM [call_simps]: "bindM (failM e) f = failM e"
  by (simp add: bindM_def failM_def)

lemma bindM_assoc: "bindM (bindM m f) g = bindM m (\<lambda>x. bindM (f x) g)"
  by (rule ext) (simp add: bindM_def split: prod.splits sum.splits)

declare ret_def [call_simps] failM_def [call_simps] bindM_def [call_simps] thenM_def [call_simps]
  attempt_def [call_simps] wrapM_def [call_simps] liftE_def [call_simps]

lemma bindM_Inr_iff:
  "bindM m f s = (Inr y, s2) \<longleftrightarrow> (\<exists>x s1. m s = (Inr x, s1) \<and> f x s1 = (Inr y, s2))"
  by (simp add: bindM_def split: prod.splits sum.splits)

lemma bindM_InrE:
  assumes "bindM m f s = (Inr y, s2)"
  obtains x s1 where "m s = (Inr x, s1)" "f x s1 = (Inr y, s2)"
  using assms by (auto simp: bindM_Inr_iff)

lemma bindM_Inl_iff:
  "bindM m f s = (Inl e, s2) \<longleftrightarrow>
     m s = (Inl e, s2) \<or> (\<exists>x s1. m s = (Inr x, s1) \<and> f x s1 = (Inl e, s2))"
  by (auto simp: bindM_def split: prod.splits sum.splits)

lemma wrapM_Inr_iff [simp]: "wrapM t m s = (Inr x, s') \<longleftrightarrow> m s = (Inr x, s')"
  by (simp add: wrapM_def split: prod.splits sum.splits)

lemma wrapM_Inl_iff [simp]: "wrapM t m s = (Inl e, s') \<longleftrightarrow> (\<exists>e'. e = Wrap t e' \<and> m s = (Inl e', s'))"
  by (auto simp: wrapM_def split: prod.splits sum.splits)

text \<open>The same on results that involve no call.\<close>

definition wrapE :: "string \<Rightarrow> gerr + 'a \<Rightarrow> gerr + 'a" where
  "wrapE t r = (case r of Inl e \<Rightarrow> Inl (Wrap t e) | Inr x \<Rightarrow> Inr x)"

definition bindE :: "gerr + 'a \<Rightarrow> ('a \<Rightarrow> gerr + 'b) \<Rightarrow> gerr + 'b" where
  "bindE r f = (case r of Inl e \<Rightarrow> Inl e | Inr x \<Rightarrow> f x)"

lemma bindE_simps [simp]: "bindE (Inl e) f = Inl e" "bindE (Inr x) f = f x"
  by (simp_all add: bindE_def)

lemma wrapE_simps [simp]: "wrapE t (Inl e) = Inl (Wrap t e)" "wrapE t (Inr x) = Inr x"
  by (simp_all add: wrapE_def)

lemma wrapE_Inr_iff [simp]: "wrapE t r = Inr x \<longleftrightarrow> r = Inr x"
  by (cases r) simp_all

lemma bindE_Inr_iff: "bindE r f = Inr y \<longleftrightarrow> (\<exists>x. r = Inr x \<and> f x = Inr y)"
  by (cases r) simp_all

lemma ret_iff [simp]: "ret x s = (r, s') \<longleftrightarrow> r = Inr x \<and> s' = s"
  by (auto simp: ret_def)

lemma liftE_iff [simp]: "liftE r s = (r', s') \<longleftrightarrow> r = r' \<and> s = s'"
  by (simp add: liftE_def)

text \<open>A call that leaves a view of the state as it was.\<close>

definition keeps :: "('s \<Rightarrow> 'v) \<Rightarrow> ('s, 'a) call \<Rightarrow> bool" where
  "keeps v c = (\<forall>s. v (snd (c s)) = v s)"

named_theorems keeps_intros \<open>composition of calls that leave a view alone\<close>

lemma keepsD: "keeps v c \<Longrightarrow> c s = (r, s') \<Longrightarrow> v s' = v s"
  by (metis keeps_def snd_conv)

lemma keeps_ret [keeps_intros]: "keeps v (ret x)"
  by (simp add: keeps_def ret_def)

lemma keeps_failM [keeps_intros]: "keeps v (failM e)"
  by (simp add: keeps_def failM_def)

lemma keeps_liftE [keeps_intros]: "keeps v (liftE r)"
  by (simp add: keeps_def liftE_def)

lemma keeps_wrapM [keeps_intros]: "keeps v c \<Longrightarrow> keeps v (wrapM t c)"
  by (simp add: keeps_def wrapM_def split: prod.splits sum.splits) (metis snd_conv)

lemma keeps_attempt [keeps_intros]: "keeps v c \<Longrightarrow> keeps v (attempt c)"
  by (simp add: keeps_def attempt_def split: prod.splits) (metis snd_conv)

lemma keeps_bindM [keeps_intros]: "keeps v c \<Longrightarrow> (\<And>x. keeps v (f x)) \<Longrightarrow> keeps v (bindM c f)"
  by (simp add: keeps_def bindM_def split: prod.splits sum.splits) (metis snd_conv)

lemma keeps_thenM [keeps_intros]: "keeps v c \<Longrightarrow> keeps v d \<Longrightarrow> keeps v (thenM c d)"
  by (simp add: thenM_def keeps_bindM)

lemma keeps_forM [keeps_intros]: "(\<And>x. x \<in> set xs \<Longrightarrow> keeps v (f x)) \<Longrightarrow> keeps v (forM xs f)"
  by (induction xs) (auto intro: keeps_intros)

lemma keeps_if [keeps_intros]: "(b \<Longrightarrow> keeps v c) \<Longrightarrow> (\<not> b \<Longrightarrow> keeps v d) \<Longrightarrow> keeps v (if b then c else d)"
  by simp

lemma keeps_sum [keeps_intros]: "(\<And>e. x = Inl e \<Longrightarrow> keeps v (g e)) \<Longrightarrow> (\<And>y. x = Inr y \<Longrightarrow> keeps v (f y)) \<Longrightarrow> keeps v (case x of Inl e \<Rightarrow> g e | Inr y \<Rightarrow> f y)"
  by (cases x) auto

lemma keeps_option [keeps_intros]: "(x = None \<Longrightarrow> keeps v c) \<Longrightarrow> (\<And>y. x = Some y \<Longrightarrow> keeps v (f y)) \<Longrightarrow> keeps v (case x of None \<Rightarrow> c | Some y \<Rightarrow> f y)"
  by (cases x) auto

lemma keeps_prod [keeps_intros]: "(\<And>a b. x = (a, b) \<Longrightarrow> keeps v (f a b)) \<Longrightarrow> keeps v (case x of (a, b) \<Rightarrow> f a b)"
  by (cases x) auto

lemma keeps_list [keeps_intros]: "(x = [] \<Longrightarrow> keeps v c) \<Longrightarrow> (\<And>y ys. x = y # ys \<Longrightarrow> keeps v (f y ys)) \<Longrightarrow> keeps v (case x of [] \<Rightarrow> c | y # ys \<Rightarrow> f y ys)"
  by (cases x) auto

section \<open>Go's string functions\<close>

text \<open>\<open>strings.HasPrefix\<close>, \<open>strings.CutPrefix\<close> and \<open>strings.TrimPrefix\<close>.\<close>

fun cutPrefix :: "string \<Rightarrow> string \<Rightarrow> string option" where
  "cutPrefix s [] = Some s"
| "cutPrefix [] (p # ps) = None"
| "cutPrefix (c # s) (p # ps) = (if c = p then cutPrefix s ps else None)"

definition hasPrefix :: "string \<Rightarrow> string \<Rightarrow> bool" where
  "hasPrefix s p = (cutPrefix s p \<noteq> None)"

definition trimPrefix :: "string \<Rightarrow> string \<Rightarrow> string" where
  "trimPrefix s p = (case cutPrefix s p of Some r \<Rightarrow> r | None \<Rightarrow> s)"

lemma cutPrefix_Some_iff: "cutPrefix s p = Some r \<longleftrightarrow> s = p @ r"
  by (induction s p rule: cutPrefix.induct) auto

lemma cutPrefix_append [simp]: "cutPrefix (p @ r) p = Some r"
  by (simp add: cutPrefix_Some_iff)

lemma hasPrefix_iff [gostr_simps]: "hasPrefix s p \<longleftrightarrow> (\<exists>r. s = p @ r)"
  by (simp add: hasPrefix_def cutPrefix_Some_iff flip: not_None_eq) (metis cutPrefix_Some_iff not_None_eq)

text \<open>\<open>strings.Cut\<close> on one character: the part before it, the part after it, and
  whether it occurs.\<close>

fun cutChar :: "char \<Rightarrow> string \<Rightarrow> string \<times> string \<times> bool" where
  "cutChar c [] = ([], [], False)"
| "cutChar c (x # s) =
     (if x = c then ([], s, True)
      else (case cutChar c s of (a, b, f) \<Rightarrow> (x # a, b, f)))"

text \<open>\<open>strings.SplitN(s, c, n)\<close> for a one-character separator and \<open>n > 0\<close>: at most
  \<open>n\<close> parts, the last one unsplit. \<open>strings.Split\<close> splits at every occurrence.\<close>

fun splitN :: "char \<Rightarrow> nat \<Rightarrow> string \<Rightarrow> string list" where
  "splitN c 0 s = []"
| "splitN c (Suc 0) s = [s]"
| "splitN c (Suc (Suc n)) s =
     (case cutChar c s of (a, b, f) \<Rightarrow> if f then a # splitN c (Suc n) b else [a])"

fun splitAll :: "char \<Rightarrow> string \<Rightarrow> string list" where
  "splitAll c [] = [[]]"
| "splitAll c (x # s) =
     (if x = c then [] # splitAll c s
      else (case splitAll c s of p # ps \<Rightarrow> (x # p) # ps | [] \<Rightarrow> [[x]]))"

text \<open>\<open>strings.Join\<close>.\<close>

fun joinStr :: "string \<Rightarrow> string list \<Rightarrow> string" where
  "joinStr sep [] = []"
| "joinStr sep [s] = s"
| "joinStr sep (s # t # ss) = s @ sep @ joinStr sep (t # ss)"

lemma cutChar_found: "c \<notin> set a \<Longrightarrow> cutChar c (a @ c # b) = (a, b, True)"
  by (induction a) auto

lemma cutChar_absent: "c \<notin> set s \<Longrightarrow> cutChar c s = (s, [], False)"
  by (induction s) auto

lemma cutChar_True: "cutChar c s = (a, b, True) \<Longrightarrow> s = a @ c # b \<and> c \<notin> set a"
  by (induction s arbitrary: a b) (auto split: if_splits prod.splits)

text \<open>\<open>strings.Trim(s, cutset)\<close> with a predicate for the cutset, \<open>strings.TrimSpace\<close>
  on ASCII input, and \<open>strings.ToLower\<close> on ASCII input.\<close>

definition trimSet :: "(char \<Rightarrow> bool) \<Rightarrow> string \<Rightarrow> string" where
  "trimSet p s = rev (dropWhile p (rev (dropWhile p s)))"

definition isSpace :: "char \<Rightarrow> bool" where
  "isSpace c = (c \<in> {CHR 0x09, CHR 0x0A, CHR 0x0B, CHR 0x0C, CHR 0x0D, CHR 0x20})"

definition isDigit :: "char \<Rightarrow> bool" where
  "isDigit c = (48 \<le> (of_char c :: nat) \<and> (of_char c :: nat) \<le> 57)"

definition digitVal :: "char \<Rightarrow> int" where
  "digitVal c = int (of_char c) - 48"

definition digitChar :: "nat \<Rightarrow> char" where
  "digitChar n = char_of (48 + n)"

lemma isDigit_digitChar [simp]: "n < 10 \<Longrightarrow> isDigit (digitChar n)"
  by (simp add: isDigit_def digitChar_def)

lemma digitVal_digitChar [simp]: "n < 10 \<Longrightarrow> digitVal (digitChar n) = int n"
  by (simp add: digitVal_def digitChar_def)

text \<open>\<open>strconv.Itoa\<close> and the decimal value of a digit string.\<close>

fun natStr :: "nat \<Rightarrow> string" where
  "natStr n = (if n < 10 then [digitChar n] else natStr (n div 10) @ [digitChar (n mod 10)])"

declare natStr.simps [simp del]

definition itoa :: "int \<Rightarrow> string" where
  "itoa i = (if i < 0 then CHR ''-'' # natStr (nat (- i)) else natStr (nat i))"

definition decVal :: "string \<Rightarrow> int" where
  "decVal s = foldl (\<lambda>n c. n * 10 + digitVal c) 0 s"

lemma decVal_snoc [simp]: "decVal (s @ [c]) = decVal s * 10 + digitVal c"
  by (simp add: decVal_def)

lemma natStr_digits: "\<forall>c \<in> set (natStr n). isDigit c"
  by (induction n rule: natStr.induct) (subst natStr.simps, auto)

lemma natStr_nonempty [simp]: "natStr n \<noteq> []"
  by (subst natStr.simps) simp

lemma decVal_natStr [simp]: "decVal (natStr n) = int n"
proof (induction n rule: natStr.induct)
  case (1 n)
  show ?case
  proof (cases "n < 10")
    case True
    then show ?thesis by (subst natStr.simps) (simp add: decVal_def)
  next
    case False
    then have "decVal (natStr n) = int (n div 10) * 10 + int (n mod 10)"
      using 1 by (subst natStr.simps) simp
    also have "\<dots> = int n" by presburger
    finally show ?thesis .
  qed
qed

text \<open>\<open>strconv.ParseInt(s, 10, bits)\<close>: an optional sign, at least one digit, a value
  within the width.\<close>

definition parseInt :: "nat \<Rightarrow> string \<Rightarrow> int option" where
  "parseInt bits s =
     (let neg = (case s of c # _ \<Rightarrow> c = CHR ''-'' | [] \<Rightarrow> False);
          ds = (case s of c # r \<Rightarrow> if c = CHR ''-'' \<or> c = CHR ''+'' then r else s | [] \<Rightarrow> []);
          v = (if neg then - decVal ds else decVal ds)
      in if ds \<noteq> [] \<and> list_all isDigit ds \<and> - (2 ^ (bits - 1)) \<le> v \<and> v < 2 ^ (bits - 1)
         then Some v else None)"

lemma natStr_head: "\<exists>c r. natStr n = c # r \<and> isDigit c"
  using natStr_digits[of n] natStr_nonempty[of n] by (cases "natStr n") auto

lemma parseInt_itoa:
  assumes "- (2 ^ (bits - 1)) \<le> i" "i < 2 ^ (bits - 1)"
  shows "parseInt bits (itoa i) = Some i"
proof -
  obtain c r where cr: "natStr (nat \<bar>i\<bar>) = c # r" and c: "isDigit c"
    using natStr_head by blast
  from c have nc: "c \<noteq> CHR ''-''" "c \<noteq> CHR ''+''" by (auto simp: isDigit_def)
  have d: "list_all isDigit (c # r)" "decVal (c # r) = \<bar>i\<bar>"
    using natStr_digits[of "nat \<bar>i\<bar>"] decVal_natStr[of "nat \<bar>i\<bar>"] cr by (auto simp: list_all_iff)
  show ?thesis
    using cr nc d assms by (cases "i < 0") (auto simp: itoa_def parseInt_def Let_def)
qed

text \<open>The \<open>%q\<close> verb on the bytes the program quotes: names and settings. Bytes from
  0x80 on are kept, as Go keeps printable UTF-8.\<close>

definition hexDigit :: "nat \<Rightarrow> char" where
  "hexDigit n = (if n < 10 then char_of (48 + n) else char_of (87 + n))"

definition quoteChar :: "char \<Rightarrow> string" where
  "quoteChar c =
     (let n = (of_char c :: nat) in
      if c = CHR 0x22 then [CHR 0x5C, CHR 0x22]
      else if c = CHR 0x5C then [CHR 0x5C, CHR 0x5C]
      else if n = 7 then [CHR 0x5C, CHR ''a''] else if n = 8 then [CHR 0x5C, CHR ''b'']
      else if n = 12 then [CHR 0x5C, CHR ''f''] else if n = 10 then [CHR 0x5C, CHR ''n'']
      else if n = 13 then [CHR 0x5C, CHR ''r''] else if n = 9 then [CHR 0x5C, CHR ''t'']
      else if n = 11 then [CHR 0x5C, CHR ''v'']
      else if n < 32 \<or> n = 127 then [CHR 0x5C, CHR ''x'', hexDigit (n div 16), hexDigit (n mod 16)]
      else [c])"

definition quote :: "string \<Rightarrow> string" where
  "quote s = [CHR 0x22] @ concat (map quoteChar s) @ [CHR 0x22]"

section \<open>Choosing the newest element\<close>

text \<open>The loop the code writes as \<open>if !ok || s.Time.After(found.Time) { found, ok = s, true }\<close>
  behind a \<open>continue\<close> for the elements that fail a test. The pair \<open>(found, ok)\<close> is an option.\<close>

primrec newestLoop :: "('a \<Rightarrow> bool) \<Rightarrow> ('a \<Rightarrow> int) \<Rightarrow> 'a option \<Rightarrow> 'a list \<Rightarrow> 'a option" where
  "newestLoop ok key found [] = found"
| "newestLoop ok key found (x # xs) =
     newestLoop ok key
       (if \<not> ok x then found
        else (case found of None \<Rightarrow> Some x
              | Some f \<Rightarrow> if key x > key f then Some x else found)) xs"

lemma newestLoop_Some:
  "newestLoop ok key found xs = Some r \<Longrightarrow>
     (found = Some r \<or> r \<in> set xs \<and> ok r) \<and>
     (\<forall>f. found = Some f \<longrightarrow> key f \<le> key r) \<and> (\<forall>y \<in> set xs. ok y \<longrightarrow> key y \<le> key r)"
  by (induction xs arbitrary: found) (fastforce split: if_splits option.splits)+

lemma newestLoop_None:
  "newestLoop ok key found xs = None \<longleftrightarrow> found = None \<and> (\<forall>x \<in> set xs. \<not> ok x)"
  by (induction xs arbitrary: found) (auto split: option.splits)

text \<open>\<open>slices.MaxFunc\<close> and \<open>slices.MinFunc\<close> on a non-empty list keep the first extremal
  element.\<close>

definition maxFunc :: "('a \<Rightarrow> int) \<Rightarrow> 'a list \<Rightarrow> 'a option" where
  "maxFunc key xs = newestLoop (\<lambda>_. True) key None xs"

definition minFunc :: "('a \<Rightarrow> int) \<Rightarrow> 'a list \<Rightarrow> 'a option" where
  "minFunc key xs = newestLoop (\<lambda>_. True) (\<lambda>x. - key x) None xs"

text \<open>What a choice of the newest element promises, and what its clients may conclude.\<close>

locale newest_pick =
  fixes pick :: "'a list \<Rightarrow> 'a option"
    and key :: "'a \<Rightarrow> int"
    and ok :: "'a \<Rightarrow> bool"
  assumes pick_sound: "pick xs = Some x \<Longrightarrow> x \<in> set xs \<and> ok x \<and> (\<forall>y \<in> set xs. ok y \<longrightarrow> key y \<le> key x)"
    and pick_finds: "x \<in> set xs \<Longrightarrow> ok x \<Longrightarrow> pick xs \<noteq> None"
begin

lemma pick_None_iff: "pick xs = None \<longleftrightarrow> (\<forall>x \<in> set xs. \<not> ok x)"
  using pick_finds pick_sound by (metis option.exhaust)

lemma pick_mono:
  assumes "set xs \<subseteq> set ys" "pick xs = Some x"
  shows "\<exists>y. pick ys = Some y \<and> key x \<le> key y"
  using assms pick_sound pick_finds by (metis option.exhaust subsetD)

lemma pick_order_free:
  assumes "set xs = set ys"
  shows "map_option key (pick xs) = map_option key (pick ys)"
proof (cases "pick xs")
  case None
  then have "pick ys = None" using assms by (simp add: pick_None_iff)
  with None show ?thesis by simp
next
  case (Some x)
  then obtain y where y: "pick ys = Some y" "key x \<le> key y"
    using pick_mono[of xs ys x] assms by auto
  moreover have "key y \<le> key x"
    using pick_sound[OF Some] pick_sound[OF y(1)] assms by auto
  ultimately show ?thesis using Some by simp
qed

lemma pick_unique:
  assumes "set xs = set ys" "inj_on key (set xs)"
  shows "pick xs = pick ys"
proof (cases "pick xs")
  case None
  then show ?thesis using pick_order_free[OF assms(1)] by simp
next
  case (Some x)
  then obtain y where y: "pick ys = Some y" "key y = key x"
    using pick_order_free[OF assms(1)] by (cases "pick ys") auto
  then show ?thesis
    using Some assms pick_sound[OF Some] pick_sound[OF y(1)] by (auto dest: inj_onD)
qed

end

lemma newestLoop_pick: "newest_pick (newestLoop ok key None) key ok"
  by unfold_locales (auto dest: newestLoop_Some simp: newestLoop_None)

interpretation maxF: newest_pick "maxFunc key" key "\<lambda>_. True" for key
  unfolding maxFunc_def by (rule newestLoop_pick)

interpretation minF: newest_pick "minFunc key" "\<lambda>x. - key x" "\<lambda>_. True" for key
  unfolding minFunc_def by (rule newestLoop_pick)

section \<open>Reachable states\<close>

text \<open>The states a step relation reaches from its initial states, and what an inductive
  invariant of the relation gives.\<close>

inductive reachable :: "('s \<Rightarrow> bool) \<Rightarrow> ('s \<Rightarrow> 's \<Rightarrow> bool) \<Rightarrow> 's \<Rightarrow> bool" for init step where
  reach_init: "init s \<Longrightarrow> reachable init step s"
| reach_step: "reachable init step s \<Longrightarrow> step s s' \<Longrightarrow> reachable init step s'"

locale inductive_invariant =
  fixes init :: "'s \<Rightarrow> bool" and step :: "'s \<Rightarrow> 's \<Rightarrow> bool" and inv :: "'s \<Rightarrow> bool"
  assumes inv_init: "init s \<Longrightarrow> inv s"
    and inv_step: "inv s \<Longrightarrow> step s s' \<Longrightarrow> inv s'"
begin

lemma reachable_inv: "reachable init step s \<Longrightarrow> inv s"
  by (induction rule: reachable.induct) (auto intro: inv_init inv_step)

end

end
