(* ===== verification/Go_Time.thy ===== *)
theory Go_Time
  imports Prelude
begin

text \<open>
  The parts of Go's \<open>time\<close> package the program uses. A \<open>time.Time\<close> is the number of
  nanoseconds since the Unix epoch, a \<open>time.Duration\<close> a number of nanoseconds, and a
  \<open>*metav1.Time\<close> an option. Dates are read and written in UTC: \<open>formatRFC3339\<close> is
  \<open>t.UTC().Format(time.RFC3339)\<close> and \<open>parseRFC3339\<close> is \<open>time.Parse(time.RFC3339, s)\<close>,
  with the forms Go accepts (fractions of a second, one-digit hours, offsets). The
  two are inverse on whole seconds of the years 0 to 9999.
\<close>

type_synonym gtime = int
type_synonym duration = int

definition nanosecond :: duration where "nanosecond = 1"
definition second :: duration where "second = 1000000000"
definition millisecond :: duration where "millisecond = 1000000"
definition minute :: duration where "minute = 60 * second"
definition hour :: duration where "hour = 60 * minute"

text \<open>The zero \<open>time.Time\<close> is January 1 of year 1, 00:00 UTC.\<close>

definition zeroTime :: gtime where
  "zeroTime = -62135596800000000000"

text \<open>\<open>t.Truncate(time.Second)\<close>, and the rounding that a \<open>metav1.Time\<close> gets when it is
  written to the API server and read back.\<close>

definition truncSecond :: "gtime \<Rightarrow> gtime" where
  "truncSecond t = t - t mod second"

definition unixSeconds :: "gtime \<Rightarrow> int" where
  "unixSeconds t = t div second"

definition rfc3339Copy :: "gtime \<Rightarrow> gtime" where
  "rfc3339Copy t = truncSecond t"

lemma truncSecond_idem [simp]: "truncSecond (truncSecond t) = truncSecond t"
  by (simp add: truncSecond_def second_def mod_diff_left_eq)

lemma truncSecond_le: "truncSecond t \<le> t"
  by (simp add: truncSecond_def second_def)

lemma truncSecond_gt: "t < truncSecond t + second"
  by (simp add: truncSecond_def second_def)

lemma truncSecond_eq: "truncSecond t = second * (t div second)"
  by (simp add: truncSecond_def minus_mod_eq_mult_div)

lemma truncSecond_mono: "s \<le> t \<Longrightarrow> truncSecond s \<le> truncSecond t"
  by (simp add: truncSecond_eq second_def zdiv_mono1)

section \<open>Civil dates\<close>

definition isLeap :: "int \<Rightarrow> bool" where
  "isLeap y = (y mod 4 = 0 \<and> (y mod 100 \<noteq> 0 \<or> y mod 400 = 0))"

definition monthLens :: "int \<Rightarrow> int list" where
  "monthLens y = [31, if isLeap y then 29 else 28, 31, 30, 31, 30, 31, 31, 30, 31, 30, 31]"

definition daysBeforeYear :: "int \<Rightarrow> int" where
  "daysBeforeYear y = (let p = y - 1 in 365 * p + p div 4 - p div 100 + p div 400)"

text \<open>The day number of January 1, 1970 counted from January 1 of year 1.\<close>

definition epochDay :: int where
  "epochDay = 719162"

definition daysFromCivil :: "int \<Rightarrow> int \<Rightarrow> int \<Rightarrow> int" where
  "daysFromCivil y m d = daysBeforeYear y + sum_list (take (nat (m - 1)) (monthLens y)) + (d - 1) - epochDay"

primrec monthOf :: "int list \<Rightarrow> int \<Rightarrow> int \<Rightarrow> int \<times> int" where
  "monthOf [] m d = (m, d + 1)"
| "monthOf (l # ls) m d = (if d < l then (m, d + 1) else monthOf ls (m + 1) (d - l))"

definition civilFromDays :: "int \<Rightarrow> int \<times> int \<times> int" where
  "civilFromDays z =
     (let d0 = z + epochDay;
          n400 = d0 div 146097; d1 = d0 mod 146097;
          n100 = min 3 (d1 div 36524); d2 = d1 - n100 * 36524;
          n4 = d2 div 1461; d3 = d2 mod 1461;
          n1 = min 3 (d3 div 365); d4 = d3 - n1 * 365;
          y = 400 * n400 + 100 * n100 + 4 * n4 + n1 + 1
      in case monthOf (monthLens y) 1 d4 of (m, d) \<Rightarrow> (y, m, d))"

lemma monthOf_sum:
  assumes "0 \<le> d" "d < sum_list ls" "monthOf ls m d = (m', d')"
  shows "m \<le> m' \<and> nat (m' - m) < length ls \<and> 1 \<le> d' \<and> d' \<le> ls ! nat (m' - m) \<and>
         d = sum_list (take (nat (m' - m)) ls) + (d' - 1)"
  using assms
proof (induction ls arbitrary: m d)
  case Nil
  then show ?case by simp
next
  case (Cons l ls)
  show ?case
  proof (cases "d < l")
    case True
    then show ?thesis using Cons.prems by simp
  next
    case False
    then have ih: "m + 1 \<le> m' \<and> nat (m' - (m + 1)) < length ls \<and> 1 \<le> d' \<and>
        d' \<le> ls ! nat (m' - (m + 1)) \<and> d - l = sum_list (take (nat (m' - (m + 1))) ls) + (d' - 1)"
      using Cons.prems by (intro Cons.IH) auto
    then have "nat (m' - m) = Suc (nat (m' - (m + 1)))" by linarith
    with ih show ?thesis by auto
  qed
qed

lemma daysBeforeYear_split:
  fixes a b c e :: int
  assumes "0 \<le> b" "b \<le> 3" "0 \<le> c" "c \<le> 24" "0 \<le> e" "e \<le> 3"
  shows "daysBeforeYear (400 * a + 100 * b + 4 * c + e + 1) = 146097 * a + 36524 * b + 1461 * c + 365 * e"
proof -
  define p where "p = 400 * a + 100 * b + 4 * c + e"
  have "p div 4 = 100 * a + 25 * b + c" "p div 100 = 4 * a + b" "p div 400 = a"
    using assms unfolding p_def by linarith+
  then show ?thesis
    by (simp add: daysBeforeYear_def Let_def flip: p_def) (simp add: p_def)
qed

lemma sum_monthLens: "sum_list (monthLens y) = (if isLeap y then 366 else 365)"
  by (simp add: monthLens_def)

lemma leap_last_year:
  fixes a b c :: int
  assumes "0 \<le> b" "b \<le> 3" "0 \<le> c" "c \<le> 24" "c = 24 \<longrightarrow> b = 3"
  shows "isLeap (400 * a + 100 * b + 4 * c + 3 + 1)"
proof -
  define y where "y = 400 * a + 100 * b + 4 * c + 4"
  have "y mod 4 = 0" unfolding y_def by presburger
  moreover have "y mod 100 \<noteq> 0 \<or> y mod 400 = 0"
  proof (cases "c = 24")
    case True
    then have "y = 400 * (a + 1)" using assms by (simp add: y_def)
    then show ?thesis by simp
  next
    case False
    then have "c < 24" using assms by simp
    moreover have "y = (4 * c + 4) + (4 * a + b) * 100" by (simp add: y_def)
    ultimately have "y mod 100 = 4 * c + 4" using assms by (simp only: mod_mult_self1) simp
    then show ?thesis using assms by simp
  qed
  ultimately have "isLeap y" by (simp add: isLeap_def)
  then show ?thesis by (simp add: y_def ac_simps)
qed

text \<open>Reading a day number as a date and back gives the day number.\<close>

lemma civil_roundtrip:
  assumes "civilFromDays z = (y, m, d)"
  shows "daysFromCivil y m d = z" and "1 \<le> m" and "m \<le> 12" and "1 \<le> d"
    and "d \<le> monthLens y ! nat (m - 1)"
proof -
  define d0 where "d0 = z + epochDay"
  define a where "a = d0 div 146097"
  define d1 where "d1 = d0 mod 146097"
  define b where "b = min 3 (d1 div 36524)"
  define d2 where "d2 = d1 - b * 36524"
  define c where "c = d2 div 1461"
  define d3 where "d3 = d2 mod 1461"
  define e where "e = min 3 (d3 div 365)"
  define d4 where "d4 = d3 - e * 365"
  have d1: "0 \<le> d1" "d1 < 146097" and z: "d0 = 146097 * a + d1"
    by (auto simp: d1_def a_def)
  have b: "0 \<le> b" "b \<le> 3" and d2: "0 \<le> d2" "d2 \<le> 36524" "b \<noteq> 3 \<longrightarrow> d2 < 36524"
    using d1 by (auto simp: d2_def b_def min_def minus_mult_div_eq_mod intro: order_less_imp_le)
  have c: "0 \<le> c" "c \<le> 24" and d3: "0 \<le> d3" "d3 < 1461" and d23: "d2 = 1461 * c + d3"
    using d2 by (auto simp: c_def d3_def)
  have e: "0 \<le> e" "e \<le> 3" and d4: "0 \<le> d4" "d4 \<le> 365" "e \<noteq> 3 \<longrightarrow> d4 < 365"
    using d3 by (auto simp: d4_def e_def min_def minus_mult_div_eq_mod intro: order_less_imp_le)
  have y: "y = 400 * a + 100 * b + 4 * c + e + 1" and md: "monthOf (monthLens y) 1 d4 = (m, d)"
  proof -
    define y' where "y' = 400 * a + 100 * b + 4 * c + e + 1"
    have "civilFromDays z = (case monthOf (monthLens y') 1 d4 of (m, d) \<Rightarrow> (y', m, d))"
      unfolding civilFromDays_def Let_def y'_def d4_def e_def d3_def c_def d2_def b_def d1_def a_def d0_def
      by (rule refl)
    with assms have "y = y'" "monthOf (monthLens y') 1 d4 = (m, d)" by (auto split: prod.splits)
    then show "y = 400 * a + 100 * b + 4 * c + e + 1" "monthOf (monthLens y) 1 d4 = (m, d)"
      by (simp_all only: y'_def)
  qed
  have "d4 < sum_list (monthLens y)"
  proof (cases "d4 < 365")
    case False
    then have "e = 3" "d3 = 1460" using d4 d3 unfolding d4_def by auto
    moreover have "c = 24 \<longrightarrow> b = 3" using d2 d23 \<open>d3 = 1460\<close> by auto
    ultimately have "isLeap y" using leap_last_year[OF b c] y by simp
    then show ?thesis using d4 by (simp add: sum_monthLens)
  qed (simp add: sum_monthLens)
  from monthOf_sum[OF d4(1) this md]
  have mo: "1 \<le> m" "nat (m - 1) < 12" "1 \<le> d" "d \<le> monthLens y ! nat (m - 1)"
      "d4 = sum_list (take (nat (m - 1)) (monthLens y)) + (d - 1)"
    by (auto simp: monthLens_def)
  have "daysBeforeYear y = 146097 * a + 36524 * b + 1461 * c + 365 * e"
    using daysBeforeYear_split[OF b c e] y by simp
  then show "daysFromCivil y m d = z"
    using mo(5) z d23 unfolding daysFromCivil_def d0_def d2_def d4_def by simp
  show "1 \<le> m" "m \<le> 12" "1 \<le> d" "d \<le> monthLens y ! nat (m - 1)" using mo by auto
qed

section \<open>RFC 3339\<close>

text \<open>A number with leading zeros up to a width.\<close>

definition padNum :: "nat \<Rightarrow> int \<Rightarrow> string" where
  "padNum w n =
     (let s = natStr (nat \<bar>n\<bar>); p = replicate (w - length s) (CHR ''0'') @ s
      in if n < 0 then CHR ''-'' # p else p)"

definition formatRFC3339 :: "gtime \<Rightarrow> string" where
  "formatRFC3339 t =
     (let s = unixSeconds t; sod = s mod 86400 in
      case civilFromDays (s div 86400) of (y, m, d) \<Rightarrow>
        padNum 4 y @ ''-'' @ padNum 2 m @ ''-'' @ padNum 2 d @ ''T'' @
        padNum 2 (sod div 3600) @ '':'' @ padNum 2 (sod div 60 mod 60) @ '':'' @ padNum 2 (sod mod 60) @ ''Z'')"

text \<open>The steps of \<open>time.Parse\<close> with the layout \<open>2006-01-02T15:04:05Z07:00\<close>: fixed-width
  numbers, an hour of one or two digits, an optional fraction after a period or a
  comma, and \<open>Z\<close> or an offset.\<close>

fun takeNum :: "nat \<Rightarrow> string \<Rightarrow> (int \<times> string) option" where
  "takeNum w s = (if w \<le> length s \<and> list_all isDigit (take w s) then Some (decVal (take w s), drop w s) else None)"

fun takeChar :: "char \<Rightarrow> string \<Rightarrow> string option" where
  "takeChar c [] = None"
| "takeChar c (x # s) = (if x = c then Some s else None)"

definition takeHour :: "string \<Rightarrow> (int \<times> string) option" where
  "takeHour s = (case takeNum 2 s of Some r \<Rightarrow> Some r | None \<Rightarrow> takeNum 1 s)"

definition takeFraction :: "string \<Rightarrow> int \<times> string" where
  "takeFraction s =
     (case s of
        p # c # r \<Rightarrow>
          if (p = CHR ''.'' \<or> p = CHR '','') \<and> isDigit c
          then (let ds = takeWhile isDigit (c # r); k = take 9 ds
                in (decVal k * 10 ^ (9 - length k), dropWhile isDigit (c # r)))
          else (0, s)
      | _ \<Rightarrow> (0, s))"

definition takeOffset :: "string \<Rightarrow> int option" where
  "takeOffset s =
     (case s of
        sg # r \<Rightarrow>
          (case takeNum 2 r of None \<Rightarrow> None | Some (hh, r1) \<Rightarrow>
           case takeChar (CHR '':'') r1 of None \<Rightarrow> None | Some r2 \<Rightarrow>
           case takeNum 2 r2 of None \<Rightarrow> None | Some (mm, r3) \<Rightarrow>
             if r3 = [] \<and> hh \<le> 24 \<and> mm \<le> 60
             then (if sg = CHR ''+'' then Some (hh * 3600 + mm * 60)
                   else if sg = CHR ''-'' then Some (- (hh * 3600 + mm * 60)) else None)
             else None)
      | [] \<Rightarrow> None)"

definition takeZone :: "string \<Rightarrow> int option" where
  "takeZone s = (if s = ''Z'' then Some 0 else takeOffset s)"

definition validDate :: "int \<Rightarrow> int \<Rightarrow> int \<Rightarrow> bool" where
  "validDate y m d = (1 \<le> m \<and> m \<le> 12 \<and> 1 \<le> d \<and> d \<le> monthLens y ! nat (m - 1))"

definition parseStamp :: "char \<Rightarrow> (string \<Rightarrow> int option) \<Rightarrow> string \<Rightarrow> gtime option" where
  "parseStamp sep zone s =
    Option.bind (takeNum 4 s) (\<lambda>(y, s1).
    Option.bind (takeChar (CHR ''-'') s1) (\<lambda>s2.
    Option.bind (takeNum 2 s2) (\<lambda>(m, s3).
    Option.bind (takeChar (CHR ''-'') s3) (\<lambda>s4.
    Option.bind (takeNum 2 s4) (\<lambda>(d, s5).
    Option.bind (takeChar sep s5) (\<lambda>s6.
    Option.bind (takeHour s6) (\<lambda>(hh, s7).
    Option.bind (takeChar (CHR '':'') s7) (\<lambda>s8.
    Option.bind (takeNum 2 s8) (\<lambda>(mi, s9).
    Option.bind (takeChar (CHR '':'') s9) (\<lambda>s10.
    Option.bind (takeNum 2 s10) (\<lambda>(ss, s11).
    case takeFraction s11 of (ns, s12) \<Rightarrow>
    Option.bind (zone s12) (\<lambda>off.
       if validDate y m d \<and> hh < 24 \<and> mi < 60 \<and> ss < 60
       then Some ((daysFromCivil y m d * 86400 + hh * 3600 + mi * 60 + ss - off) * second + ns)
       else None))))))))))))"

definition parseRFC3339 :: "string \<Rightarrow> gtime option" where
  "parseRFC3339 s = parseStamp (CHR ''T'') takeZone s"

lemma length_natStr: "n < 10 ^ w \<Longrightarrow> 0 < w \<Longrightarrow> length (natStr n) \<le> w"
proof (induction n arbitrary: w rule: natStr.induct)
  case (1 n)
  show ?case
  proof (cases "n < 10")
    case True
    then show ?thesis using 1 by (subst natStr.simps) simp
  next
    case False
    then have "w \<noteq> 1" using "1.prems" by auto
    then obtain v where v: "w = Suc v" "0 < v" using "1.prems" by (cases w) auto
    then have "n div 10 < 10 ^ v" using "1.prems" by (simp add: less_mult_imp_div_less mult.commute)
    then have "length (natStr (n div 10)) \<le> v" using "1.IH" False v by simp
    then show ?thesis using False v by (subst natStr.simps) simp
  qed
qed

lemma decVal_zeros: "decVal (replicate k (CHR ''0'') @ s) = decVal s"
  by (induction k) (simp_all add: decVal_def digitVal_def)

lemma takeNum_padNum:
  assumes "0 \<le> n" "n < 10 ^ w" "0 < w"
  shows "takeNum w (padNum w n @ r) = Some (n, r)"
proof -
  have n: "nat n < 10 ^ w" using assms by (simp add: nat_less_iff)
  let ?p = "replicate (w - length (natStr (nat n))) (CHR ''0'') @ natStr (nat n)"
  have p: "padNum w n = ?p" using assms by (simp add: padNum_def Let_def)
  have len: "length ?p = w" using length_natStr[OF n] assms by simp
  have "isDigit (CHR ''0'')" by (simp add: isDigit_def)
  then have "list_all isDigit ?p"
    using natStr_digits[of "nat n"] by (auto simp: list_all_iff)
  moreover have "decVal ?p = n" using assms by (simp add: decVal_zeros)
  ultimately show ?thesis using len by (simp add: p)
qed

lemma monthLens_le: "i < 12 \<Longrightarrow> monthLens y ! i \<le> 31"
  unfolding monthLens_def by (auto simp: less_Suc_eq numeral_eq_Suc)

definition yearOf :: "gtime \<Rightarrow> int" where
  "yearOf t = fst (civilFromDays (unixSeconds t div 86400))"

text \<open>Reading back what \<open>Format(time.RFC3339)\<close> wrote gives the time in whole seconds.\<close>

lemma parse_format_RFC3339:
  assumes "0 \<le> yearOf t" "yearOf t \<le> 9999"
  shows "parseRFC3339 (formatRFC3339 t) = Some (truncSecond t)"
proof -
  define s where "s = unixSeconds t"
  define sod where "sod = s mod 86400"
  obtain y m d where c: "civilFromDays (s div 86400) = (y, m, d)" by (metis prod_cases3)
  have y: "0 \<le> y" "y < 10 ^ 4" using assms c by (auto simp: yearOf_def s_def)
  note cr = civil_roundtrip[OF c]
  have m: "0 \<le> m" "m < 10 ^ 2" using cr by auto
  have "monthLens y ! nat (m - 1) \<le> 31" using cr by (intro monthLens_le) auto
  then have d: "0 \<le> d" "d < 10 ^ 2" using cr by auto
  have sod: "0 \<le> sod" "sod < 86400" by (auto simp: sod_def)
  have hms: "sod div 3600 < 24" "sod div 60 mod 60 < 60" "sod mod 60 < 60"
    "0 \<le> sod div 3600" "0 \<le> sod div 60 mod 60" "0 \<le> sod mod 60"
    using sod by auto
  have "sod div 60 div 60 = sod div 3600" by (simp flip: zdiv_zmult2_eq)
  then have sum: "sod = sod div 3600 * 3600 + sod div 60 mod 60 * 60 + sod mod 60"
    using div_mult_mod_eq[of sod 60] div_mult_mod_eq[of "sod div 60" 60] by linarith
  have v: "validDate y m d" using cr by (simp add: validDate_def)
  have tot: "(s div 86400) * 86400 + sod div 3600 * 3600 + sod div 60 mod 60 * 60 + sod mod 60 = s"
    using sum div_mult_mod_eq[of s 86400] unfolding sod_def by linarith
  note tn = takeNum_padNum[OF y] takeNum_padNum[OF m] takeNum_padNum[OF d]
    takeNum_padNum[of _ 2]
  have f: "formatRFC3339 t = padNum 4 y @ ''-'' @ padNum 2 m @ ''-'' @ padNum 2 d @ ''T'' @
        padNum 2 (sod div 3600) @ '':'' @ padNum 2 (sod div 60 mod 60) @ '':'' @ padNum 2 (sod mod 60) @ ''Z''"
    using c unfolding formatRFC3339_def Let_def s_def sod_def by simp
  have z: "takeFraction ''Z'' = (0, ''Z'')" "takeZone ''Z'' = Some 0"
    by (simp_all add: takeFraction_def takeZone_def)
  have "parseRFC3339 (formatRFC3339 t) =
      Some ((daysFromCivil y m d * 86400 + sod div 3600 * 3600 + sod div 60 mod 60 * 60 + sod mod 60 - 0) * second + 0)"
    unfolding parseRFC3339_def parseStamp_def f takeHour_def
    using hms v by (simp add: tn z del: takeNum.simps)
  then show ?thesis using tot cr(1) by (simp add: s_def unixSeconds_def truncSecond_eq)
qed

end
