(* ===== verification/Api_Types.thy ===== *)
theory Api_Types
  imports Go_Time
begin

text \<open>
  The API types of \<open>src/internal/api/v1alpha1\<close>: \<open>BackupRun\<close>, \<open>RestoreRun\<close> and
  \<open>VolumeRestore\<close> with their specs, status and items, one record per struct and one
  datatype per enumeration, with the annotation keys and the Ready condition.

  \<open>metav1.ObjectMeta\<close> is the record \<open>objectMeta\<close> of the fields the program reads. A
  nil pointer is \<open>None\<close>; a Go map is a partial function; a label or annotation that is
  absent reads as the empty string, as a lookup in a Go map does.
\<close>

type_synonym smap = "string \<Rightarrow> string option"

definition getOr :: "smap \<Rightarrow> string \<Rightarrow> string" where
  "getOr m k = (case m k of Some v \<Rightarrow> v | None \<Rightarrow> [])"

record objectMeta =
  m_namespace :: string
  m_name :: string
  m_uid :: string
  m_generation :: int
  m_resourceVersion :: string
  m_annotations :: smap
  m_labels :: smap
  m_creation :: gtime
  m_deletion :: "gtime option"
  m_finalizers :: "string list"

definition objectMeta0 :: objectMeta where
  "objectMeta0 = \<lparr>m_namespace = [], m_name = [], m_uid = [], m_generation = 0, m_resourceVersion = [],
     m_annotations = Map.empty, m_labels = Map.empty, m_creation = zeroTime, m_deletion = None,
     m_finalizers = []\<rparr>"

section \<open>Annotations and labels\<close>

definition AnnotationSchedule :: string where "AnnotationSchedule = ''backup.wlz.li/schedule''"
definition AnnotationTimeout :: string where "AnnotationTimeout = ''backup.wlz.li/timeout''"
definition AnnotationPruneIntervalDays :: string where
  "AnnotationPruneIntervalDays = ''backup.wlz.li/prune-interval-days''"
definition AnnotationEnabled :: string where "AnnotationEnabled = ''backup.wlz.li/enabled''"
definition AnnotationRetainLast :: string where "AnnotationRetainLast = ''backup.wlz.li/retain-last''"
definition AnnotationRetainHourly :: string where "AnnotationRetainHourly = ''backup.wlz.li/retain-hourly''"
definition AnnotationRetainDaily :: string where "AnnotationRetainDaily = ''backup.wlz.li/retain-daily''"
definition AnnotationRetainWeekly :: string where "AnnotationRetainWeekly = ''backup.wlz.li/retain-weekly''"
definition AnnotationRetainMonthly :: string where
  "AnnotationRetainMonthly = ''backup.wlz.li/retain-monthly''"
definition AnnotationRetainYearly :: string where "AnnotationRetainYearly = ''backup.wlz.li/retain-yearly''"
definition AnnotationRetainWithin :: string where "AnnotationRetainWithin = ''backup.wlz.li/retain-within''"
definition AnnotationPauseDuringBackup :: string where
  "AnnotationPauseDuringBackup = ''backup.wlz.li/pause-during-backup''"
definition AnnotationRestoreAsOf :: string where "AnnotationRestoreAsOf = ''backup.wlz.li/restore-as-of''"
definition AnnotationRestoreRun :: string where "AnnotationRestoreRun = ''backup.wlz.li/restore-run''"
definition LabelScheduledFor :: string where "LabelScheduledFor = ''backup.wlz.li/scheduled-for''"
definition LabelManagedBy :: string where "LabelManagedBy = ''app.kubernetes.io/managed-by''"
definition ManagedByValue :: string where "ManagedByValue = ''backup-controller''"

definition Enabled :: "smap \<Rightarrow> bool" where
  "Enabled annotations = (getOr annotations AnnotationEnabled = ''true'')"

section \<open>Phases\<close>

datatype itemPhase = ItemPending | ItemRunning | ItemSucceeded | ItemFailed | ItemSkipped
  | ItemDeleted | ItemRecovering

text \<open>\<open>RunPhaseNone\<close> is the empty string of a run no reconcile has written yet.\<close>

datatype runPhase = RunPhaseNone | RunPhaseQueued | RunPhaseRunning | RunPhaseSucceeded | RunPhaseFailed

definition Finished :: "runPhase \<Rightarrow> bool" where
  "Finished p = (p = RunPhaseSucceeded \<or> p = RunPhaseFailed)"

datatype restorePhase = RestorePhaseRestoring | RestorePhaseFailed | RestorePhaseRestored

section \<open>Conditions\<close>

datatype condStatus = CondTrue | CondFalse | CondUnknown

record condition =
  c_type :: string
  c_status :: condStatus
  c_reason :: string
  c_message :: string
  c_observedGeneration :: int

definition ConditionReady :: string where "ConditionReady = ''Ready''"

text \<open>\<open>meta.SetStatusCondition\<close> is a function of the apimachinery library and comes in as
  the parameter \<open>setCond\<close>.\<close>

definition SetReady :: "(condition list \<Rightarrow> condition \<Rightarrow> condition list) \<Rightarrow>
    condition list \<Rightarrow> int \<Rightarrow> condStatus \<Rightarrow> string \<Rightarrow> string \<Rightarrow> condition list" where
  "SetReady setCond conditions generation status reason message =
     setCond conditions \<lparr>c_type = ConditionReady, c_status = status, c_reason = reason,
                         c_message = message, c_observedGeneration = generation\<rparr>"

definition ReasonRestoring :: string where "ReasonRestoring = ''Restoring''"
definition ReasonRestoreFailed :: string where "ReasonRestoreFailed = ''RestoreFailed''"
definition ReasonRestored :: string where "ReasonRestored = ''Restored''"
definition ReasonRunning :: string where "ReasonRunning = ''Running''"
definition ReasonSucceeded :: string where "ReasonSucceeded = ''Succeeded''"
definition ReasonFailed :: string where "ReasonFailed = ''Failed''"
definition ReasonQueued :: string where "ReasonQueued = ''Queued''"
definition ReasonSourceBusy :: string where "ReasonSourceBusy = ''SourceBusy''"
definition ReasonBusy :: string where "ReasonBusy = ''Busy''"
definition ReasonEvicted :: string where "ReasonEvicted = ''Evicted''"
definition ReasonControllerPaused :: string where "ReasonControllerPaused = ''ControllerPaused''"
definition ReasonNoBackupInReach :: string where "ReasonNoBackupInReach = ''NoBackupInReach''"
definition ReasonRecreate :: string where "ReasonRecreate = ''WaitingForRecreate''"
definition ReasonShutdown :: string where "ReasonShutdown = ''WaitingForShutdown''"
definition ReasonClaimInUse :: string where "ReasonClaimInUse = ''ClaimInUse''"
definition ReasonTimedOut :: string where "ReasonTimedOut = ''TimedOut''"
definition ReasonInvalid :: string where "ReasonInvalid = ''Invalid''"

section \<open>BackupRun\<close>

record backupRunSpec =
  bs_Source :: string
  bs_Database :: string
  bs_All :: bool
  bs_Timeout :: "duration option"
  bs_TTLSecondsAfterFinished :: "int option"

record pausedWorkload =
  pw_Kind :: string
  pw_Name :: string
  pw_Replicas :: int
  pw_Resumed :: bool

record backupItem =
  bi_Kind :: string
  bi_Name :: string
  bi_Phase :: itemPhase
  bi_Message :: string
  bi_Trigger :: string
  bi_Snapshot :: string
  bi_SnapshotID :: string
  bi_SnapshotTime :: "gtime option"
  bi_Empty :: bool
  bi_Backup :: string
  bi_BaseBackup :: string
  bi_BaseBackupWhilePaused :: bool

definition backupItem0 :: backupItem where
  "backupItem0 = \<lparr>bi_Kind = [], bi_Name = [], bi_Phase = ItemPending, bi_Message = [], bi_Trigger = [],
     bi_Snapshot = [], bi_SnapshotID = [], bi_SnapshotTime = None, bi_Empty = False, bi_Backup = [],
     bi_BaseBackup = [], bi_BaseBackupWhilePaused = False\<rparr>"

record backupRunStatus =
  bt_Phase :: runPhase
  bt_Workload :: string
  bt_StartedAt :: "gtime option"
  bt_CompletedAt :: "gtime option"
  bt_PausedAt :: "gtime option"
  bt_ResumedAt :: "gtime option"
  bt_Paused :: "pausedWorkload list"
  bt_SuspendedKustomizations :: "string list"
  bt_Leases :: "string list"
  bt_Items :: "backupItem list"
  bt_Conditions :: "condition list"

definition backupRunStatus0 :: backupRunStatus where
  "backupRunStatus0 = \<lparr>bt_Phase = RunPhaseNone, bt_Workload = [], bt_StartedAt = None, bt_CompletedAt = None,
     bt_PausedAt = None, bt_ResumedAt = None, bt_Paused = [], bt_SuspendedKustomizations = [],
     bt_Leases = [], bt_Items = [], bt_Conditions = []\<rparr>"

record backupRun =
  br_meta :: objectMeta
  br_spec :: backupRunSpec
  br_status :: backupRunStatus

section \<open>RestoreRun\<close>

text \<open>A \<open>resource.Quantity\<close> and a \<open>corev1.PodSecurityContext\<close> are only handed on; they are
  kept as their text.\<close>

type_synonym quantity = string
type_synonym podSecurityContext = string

record workloadRef =
  wr_Kind :: string
  wr_Name :: string

record restoreRunSpec =
  rs_Claim :: string
  rs_Repository :: string
  rs_Into :: string
  rs_IntoSize :: "quantity option"
  rs_Database :: string
  rs_All :: bool
  rs_RestoreAsOf :: "string option"
  rs_Previous :: "int option"
  rs_SyncDatabaseToVolume :: bool
  rs_PauseDuringRestore :: "workloadRef list"
  rs_Timeout :: "duration option"
  rs_MoverSecurityContext :: "podSecurityContext option"
  rs_TTLSecondsAfterFinished :: "int option"

record restoreItem =
  ri_Kind :: string
  ri_Name :: string
  ri_Phase :: itemPhase
  ri_Message :: string
  ri_Job :: string
  ri_Snapshot :: string
  ri_SnapshotID :: string
  ri_SnapshotTime :: "gtime option"
  ri_CreatedClaim :: bool
  ri_BaseBackup :: string
  ri_StopAtBaseBackup :: bool
  ri_ClusterUID :: string

definition restoreItem0 :: restoreItem where
  "restoreItem0 = \<lparr>ri_Kind = [], ri_Name = [], ri_Phase = ItemPending, ri_Message = [], ri_Job = [],
     ri_Snapshot = [], ri_SnapshotID = [], ri_SnapshotTime = None, ri_CreatedClaim = False,
     ri_BaseBackup = [], ri_StopAtBaseBackup = False, ri_ClusterUID = []\<rparr>"

record restoreRunStatus =
  rt_Phase :: runPhase
  rt_SyncedTo :: "gtime option"
  rt_PausedAt :: "gtime option"
  rt_ResumedAt :: "gtime option"
  rt_Paused :: "pausedWorkload list"
  rt_SuspendedKustomizations :: "string list"
  rt_StartedAt :: "gtime option"
  rt_CompletedAt :: "gtime option"
  rt_Workload :: string
  rt_SelectedAt :: "gtime option"
  rt_Leases :: "string list"
  rt_Items :: "restoreItem list"
  rt_Conditions :: "condition list"

record restoreRun =
  rr_meta :: objectMeta
  rr_spec :: restoreRunSpec
  rr_status :: restoreRunStatus

definition restoreRunSpec0 :: restoreRunSpec where
  "restoreRunSpec0 = \<lparr>rs_Claim = [], rs_Repository = [], rs_Into = [], rs_IntoSize = None, rs_Database = [],
     rs_All = False, rs_RestoreAsOf = None, rs_Previous = None, rs_SyncDatabaseToVolume = False,
     rs_PauseDuringRestore = [], rs_Timeout = None, rs_MoverSecurityContext = None,
     rs_TTLSecondsAfterFinished = None\<rparr>"

definition restoreRunStatus0 :: restoreRunStatus where
  "restoreRunStatus0 = \<lparr>rt_Phase = RunPhaseNone, rt_SyncedTo = None, rt_PausedAt = None, rt_ResumedAt = None,
     rt_Paused = [], rt_SuspendedKustomizations = [], rt_StartedAt = None, rt_CompletedAt = None,
     rt_Workload = [], rt_SelectedAt = None, rt_Leases = [], rt_Items = [], rt_Conditions = []\<rparr>"

section \<open>VolumeRestore\<close>

record volumeRestoreSpec =
  vs_Repository :: string
  vs_RestoreAsOf :: "string option"
  vs_CacheStorageClassName :: "string option"
  vs_CacheCapacity :: "quantity option"
  vs_MoverPodLabels :: "(string \<times> string) list option"
  vs_MoverSecurityContext :: "podSecurityContext option"

text \<open>\<open>MoverLabels\<close> copies the map entry by entry; the order of a Go map's entries is open,
  so the result is the lookup of the copy.\<close>

definition MoverLabels :: "volumeRestoreSpec \<Rightarrow> smap option" where
  "MoverLabels s = (case vs_MoverPodLabels s of None \<Rightarrow> None
     | Some l \<Rightarrow> Some (foldl (\<lambda>labels (key, value). labels(key \<mapsto> value)) Map.empty l))"

record claimRestoreStatus =
  cs_Name :: string
  cs_UID :: string
  cs_Phase :: restorePhase
  cs_StartedAt :: "gtime option"
  cs_Snapshot :: string
  cs_SnapshotID :: string
  cs_SnapshotTime :: "gtime option"

record volumeRestoreStatus =
  vt_Conditions :: "condition list"
  vt_Claims :: "claimRestoreStatus list"

record volumeRestore =
  vr_meta :: objectMeta
  vr_spec :: volumeRestoreSpec
  vr_status :: volumeRestoreStatus

end
