(* ===== verification/Snapshots.thy ===== *)
theory Snapshots
  imports Api_Types
begin

text \<open>
  The snapshot list of a restic repository, from \<open>src/internal/restic/repository.go\<close>: the
  \<open>Snapshot\<close> struct, the choices among snapshots (\<open>AtOrBefore\<close>, \<open>ByShortID\<close>,
  \<open>SyncedSnapshot\<close>), the storage IDs and the tags that a paused BackupRun writes.
\<close>

record snapshot =
  sn_ID :: string
  sn_Time :: gtime
  sn_Paths :: "string list"
  sn_Tags :: "string list"
  sn_Original :: string

definition snapshot0 :: snapshot where
  "snapshot0 = \<lparr>sn_ID = [], sn_Time = zeroTime, sn_Paths = [], sn_Tags = [], sn_Original = []\<rparr>"

definition ShortID :: "snapshot \<Rightarrow> string" where
  "ShortID s = (if length (sn_ID s) < 8 then sn_ID s else take 8 (sn_ID s))"

text \<open>\<open>hex.DecodeString\<close> succeeds on an even number of hex digits of either case.\<close>

definition isHexDigit :: "char \<Rightarrow> bool" where
  "isHexDigit c = (let n = (of_char c :: nat) in
     (48 \<le> n \<and> n \<le> 57) \<or> (97 \<le> n \<and> n \<le> 102) \<or> (65 \<le> n \<and> n \<le> 70))"

definition isID :: "string \<Rightarrow> bool" where
  "isID name = (even (length name) \<and> list_all isHexDigit name \<and> length name = 64)"

definition AtOrBefore :: "snapshot list \<Rightarrow> gtime \<Rightarrow> snapshot option" where
  "AtOrBefore snapshots t = newestLoop (\<lambda>s. \<not> sn_Time s > t) sn_Time None snapshots"

fun ByShortID :: "snapshot list \<Rightarrow> string \<Rightarrow> snapshot option" where
  "ByShortID [] short = None"
| "ByShortID (s # ss) short =
     (if short \<noteq> [] \<and> hasPrefix (sn_ID s) short then Some s else ByShortID ss short)"

definition SyncedSnapshot :: "snapshot list \<Rightarrow> gtime \<Rightarrow> duration \<Rightarrow> snapshot option" where
  "SyncedSnapshot snapshots end0 took =
     (let start = end0 - took - second; end1 = end0 + second
      in newestLoop (\<lambda>s. \<not> (sn_Time s < start \<or> sn_Time s > end1)) sn_Time None snapshots)"

definition PausedTag :: string where "PausedTag = ''paused''"

definition baseBackupTagPrefix :: string where "baseBackupTagPrefix = ''base-backup/''"

definition BaseBackupTag :: "string \<Rightarrow> string \<Rightarrow> string" where
  "BaseBackupTag cluster backupID = baseBackupTagPrefix @ cluster @ ''='' @ backupID"

definition HibernatedTag :: "string \<Rightarrow> string" where
  "HibernatedTag cluster = ''hibernated/'' @ cluster"

fun pausedBaseBackupLoop :: "string \<Rightarrow> string list \<Rightarrow> string option" where
  "pausedBaseBackupLoop pre [] = None"
| "pausedBaseBackupLoop pre (tag # tags) =
     (case cutPrefix tag pre of
        Some bid \<Rightarrow> if bid \<noteq> [] then Some bid else pausedBaseBackupLoop pre tags
      | None \<Rightarrow> pausedBaseBackupLoop pre tags)"

definition PausedBaseBackup :: "snapshot \<Rightarrow> string \<Rightarrow> string option" where
  "PausedBaseBackup s cluster = pausedBaseBackupLoop (baseBackupTagPrefix @ cluster @ ''='') (sn_Tags s)"

section \<open>The choices pick the newest\<close>

interpretation atb: newest_pick "\<lambda>snapshots. AtOrBefore snapshots t" sn_Time "\<lambda>s. \<not> sn_Time s > t" for t
  unfolding AtOrBefore_def by (rule newestLoop_pick)

interpretation syn: newest_pick "\<lambda>snapshots. SyncedSnapshot snapshots end0 took" sn_Time
  "\<lambda>s. \<not> (sn_Time s < end0 - took - second \<or> sn_Time s > end0 + second)" for end0 took
  unfolding SyncedSnapshot_def Let_def by (rule newestLoop_pick)

lemma ByShortID_Some: "ByShortID ss short = Some s \<Longrightarrow> s \<in> set ss \<and> short \<noteq> [] \<and> hasPrefix (sn_ID s) short"
  by (induction ss short rule: ByShortID.induct) (auto split: if_splits)

lemma ByShortID_finds:
  "s \<in> set ss \<Longrightarrow> short \<noteq> [] \<Longrightarrow> hasPrefix (sn_ID s) short \<Longrightarrow> ByShortID ss short \<noteq> None"
  by (induction ss short rule: ByShortID.induct) auto

lemma length_ShortID: "length (ShortID s) \<le> 8"
  by (simp add: ShortID_def)

lemma hasPrefix_ShortID: "hasPrefix (sn_ID s) (ShortID s)"
  unfolding hasPrefix_iff ShortID_def by (simp, metis append_take_drop_id)

text \<open>The search for a base backup tag returns the first tag of the Cluster that names an ID.\<close>

lemma pausedBaseBackupLoop_Some:
  "pausedBaseBackupLoop pre tags = Some bid \<Longrightarrow> pre @ bid \<in> set tags \<and> bid \<noteq> []"
  by (induction pre tags rule: pausedBaseBackupLoop.induct)
     (auto split: option.splits if_splits simp: cutPrefix_Some_iff)

lemma pausedBaseBackupLoop_finds:
  "pre @ bid \<in> set tags \<Longrightarrow> bid \<noteq> [] \<Longrightarrow> pausedBaseBackupLoop pre tags \<noteq> None"
  by (induction pre tags rule: pausedBaseBackupLoop.induct)
     (auto split: option.splits simp: cutPrefix_Some_iff)

text \<open>Cluster names hold no \<open>=\<close> (they are DNS labels), so the tag of one Cluster is never
  read as the tag of another.\<close>

lemma BaseBackupTag_inject:
  assumes "CHR ''='' \<notin> set c1" "CHR ''='' \<notin> set c2"
  shows "BaseBackupTag c1 b1 = BaseBackupTag c2 b2 \<longleftrightarrow> c1 = c2 \<and> b1 = b2"
proof -
  have "BaseBackupTag c1 b1 = BaseBackupTag c2 b2 \<longleftrightarrow> c1 @ CHR ''='' # b1 = c2 @ CHR ''='' # b2"
    by (simp add: BaseBackupTag_def)
  also have "\<dots> \<longleftrightarrow> c1 = c2 \<and> b1 = b2"
    using cutChar_found[OF assms(1), of b1] cutChar_found[OF assms(2), of b2] by (metis prod.inject)
  finally show ?thesis .
qed

end
