(* ===== verification/Kube_Objects.thy ===== *)
theory Kube_Objects
  imports Api_Types
begin

text \<open>
  The Kubernetes objects that the program reads, as records of the fields it reads. They
  are declared by the Kubernetes API and not by the program; a component that reads one
  gets it from a parameter that stands for the API server.
\<close>

record secret =
  se_meta :: objectMeta
  se_data :: smap

record objectRef =
  or_kind :: string
  or_name :: string
  or_apiGroup :: "string option"

datatype claimPhase = ClaimPending | ClaimBound | ClaimLost

record claim =
  pc_meta :: objectMeta
  pc_dataSourceRef :: "objectRef option"
  pc_storageClass :: "string option"
  pc_volumeName :: string
  pc_phase :: claimPhase
  pc_request :: "quantity option"

definition claim0 :: claim where
  "claim0 = \<lparr>pc_meta = objectMeta0, pc_dataSourceRef = None, pc_storageClass = None, pc_volumeName = [],
     pc_phase = ClaimPending, pc_request = None\<rparr>"

section \<open>Pods and workloads\<close>

datatype podPhase = PodPending | PodRunning | PodSucceeded | PodFailed | PodUnknown

record pod =
  po_meta :: objectMeta
  po_phase :: podPhase
  po_claims :: "string list"

text \<open>A Deployment or a StatefulSet; a label selector is kept as its text.\<close>

record wobject =
  wo_meta :: objectMeta
  wo_replicas :: "int option"
  wo_selector :: string

record namespaceObj =
  ns_meta :: objectMeta

text \<open>A PersistentVolume with its required node affinity, if it declares one.\<close>

record persistentVolume =
  pv_name :: string
  pv_affinity :: "string option"

section \<open>CloudNativePG objects\<close>

record plugin =
  pl_name :: string
  pl_isWALArchiver :: bool
  pl_barmanObjectName :: string
  pl_serverName :: string

record initdb =
  in_database :: string
  in_owner :: string
  in_secret :: "string option"

record recovery =
  rc_source :: string
  rc_backupID :: "string option"     \<comment> \<open>\<open>recoveryTarget.backupID\<close>, with \<open>targetImmediate\<close>\<close>
  rc_database :: "string option"
  rc_owner :: "string option"
  rc_secret :: "string option"

record externalCluster =
  ex_name :: string
  ex_plugin :: "(string \<times> string \<times> string) option"  \<comment> \<open>plugin name, store and server name\<close>
  ex_rest :: string

record cluster =
  cl_meta :: objectMeta
  cl_plugins :: "plugin option list"
  cl_initdb :: "initdb option"
  cl_recovery :: "recovery option"
  cl_external :: "externalCluster option list"
  cl_phase :: string

record pgBackup =
  bk_meta :: objectMeta
  bk_method :: string
  bk_plugin :: string
  bk_cluster :: string
  bk_target :: string
  bk_phase :: string
  bk_backupId :: string
  bk_error :: string

section \<open>VolSync objects\<close>

record retainPolicy =
  rp_Last :: "string option"
  rp_Hourly :: "int option"
  rp_Daily :: "int option"
  rp_Weekly :: "int option"
  rp_Monthly :: "int option"
  rp_Yearly :: "int option"
  rp_Within :: "string option"

record resticSpec =
  rx_CopyMethod :: string
  rx_StorageClassName :: "string option"
  rx_Repository :: string
  rx_Unlock :: string
  rx_PruneIntervalDays :: int
  rx_Retain :: retainPolicy
  rx_CacheCapacity :: "quantity option"
  rx_CacheStorageClassName :: "string option"
  rx_MoverSecurityContext :: "podSecurityContext option"
  rx_MoverAffinity :: string
  rx_MoverCPU :: quantity

datatype moverResult = MoverSuccessful | MoverFailed

record sourceStatus =
  ss_LastManualSync :: string
  ss_LastSyncTime :: "gtime option"
  ss_LastSyncDuration :: "duration option"
  ss_LatestMover :: "moverResult option"

text \<open>\<open>sc_Trigger\<close> is \<open>spec.trigger.manual\<close>, \<open>None\<close> for a source with no trigger.\<close>

record replicationSource =
  sc_meta :: objectMeta
  sc_owner :: "string option"
  sc_SourcePVC :: string
  sc_Trigger :: "string option"
  sc_Restic :: "resticSpec option"
  sc_Status :: "sourceStatus option"

section \<open>Kueue objects\<close>

record kueueWorkload =
  kw_meta :: objectMeta
  kw_queue :: string
  kw_owner :: string
  kw_conditions :: "condition list"

end
