(* ===== verification/Synced_Moment.thy ===== *)
theory Synced_Moment
  imports Snapshots Kube_Objects
begin

text \<open>
  The paused moment of a namespace, from \<open>src/internal/synced/synced.go\<close>: the newest
  moment at which a BackupRun paused the app and backed up every volume.

  The reads of \<open>Repositories\<close> (the VolumeRestores, the repository Secrets and the
  repositories) are parameters. Its result, a Go map from Secret names to snapshots, is
  an association list; \<open>Moment\<close> ranges over a map in an open order, and \<open>Moment_iff\<close>
  shows that its result does not depend on that order.
\<close>

type_synonym repositories = "(string \<times> snapshot list) list"

primrec repositoriesLoop ::
  "(string \<Rightarrow> string \<Rightarrow> ('w, secret) call) \<Rightarrow> (secret \<Rightarrow> ('w, snapshot list) call) \<Rightarrow>
   string \<Rightarrow> volumeRestore list \<Rightarrow> repositories \<Rightarrow> ('w, repositories) call" where
  "repositoriesLoop getSecret lister namespace [] repositories = ret repositories"
| "repositoriesLoop getSecret lister namespace (vr # vrs) repositories =
     (let name = vs_Repository (vr_spec vr) in
      if map_of repositories name \<noteq> None
      then repositoriesLoop getSecret lister namespace vrs repositories
      else bindM (wrapM (''get repository Secret '' @ namespace @ ''/'' @ name @ '': '') (getSecret namespace name)) (\<lambda>sec.
           bindM (wrapM (''list the snapshots in '' @ namespace @ ''/'' @ name @ '': '') (lister sec)) (\<lambda>snapshots.
             repositoriesLoop getSecret lister namespace vrs (repositories @ [(name, snapshots)]))))"

definition Repositories ::
  "(string \<Rightarrow> ('w, volumeRestore list) call) \<Rightarrow> (string \<Rightarrow> string \<Rightarrow> ('w, secret) call) \<Rightarrow>
   (secret \<Rightarrow> ('w, snapshot list) call) \<Rightarrow> string \<Rightarrow> ('w, repositories) call" where
  "Repositories listVRs getSecret lister namespace =
     bindM (wrapM (''list the VolumeRestores in '' @ namespace @ '': '') (listVRs namespace)) (\<lambda>vrs.
       repositoriesLoop getSecret lister namespace vrs [])"

definition isPaused :: "snapshot \<Rightarrow> bool" where
  "isPaused s = (PausedTag \<in> set (sn_Tags s))"

fun At :: "snapshot list \<Rightarrow> gtime \<Rightarrow> snapshot option" where
  "At [] moment = None"
| "At (s # ss) moment = (if isPaused s \<and> truncSecond (sn_Time s) = moment then Some s else At ss moment)"

definition momentStep :: "gtime \<Rightarrow> snapshot \<Rightarrow> gtime" where
  "momentStep newest s =
     (let t = truncSecond (sn_Time s) in if isPaused s \<and> t > newest then t else newest)"

definition momentNewest :: "repositories \<Rightarrow> gtime" where
  "momentNewest repositories = foldl (\<lambda>n (name, snapshots). foldl momentStep n snapshots) zeroTime repositories"

definition Moment :: "repositories \<Rightarrow> gtime option" where
  "Moment repositories =
     (let newest = momentNewest repositories in
      if newest = zeroTime then None
      else if list_all (\<lambda>(name, snapshots). At snapshots newest \<noteq> None) repositories then Some newest else None)"

section \<open>What the moment is\<close>

lemma At_Some: "At ss m = Some s \<Longrightarrow> s \<in> set ss \<and> isPaused s \<and> truncSecond (sn_Time s) = m"
  by (induction ss m rule: At.induct) (auto split: if_splits)

lemma At_None_iff: "At ss m = None \<longleftrightarrow> (\<forall>s \<in> set ss. \<not> (isPaused s \<and> truncSecond (sn_Time s) = m))"
  by (induction ss m rule: At.induct) auto

text \<open>The paused times of a list of snapshots, and the maximum the loops compute.\<close>

definition pausedTimes :: "snapshot list \<Rightarrow> gtime set" where
  "pausedTimes ss = {truncSecond (sn_Time s) | s. s \<in> set ss \<and> isPaused s}"

lemma pausedTimes_Cons:
  "pausedTimes (s # ss) = (if isPaused s then insert (truncSecond (sn_Time s)) (pausedTimes ss) else pausedTimes ss)"
  by (auto simp: pausedTimes_def)

lemma finite_pausedTimes [simp]: "finite (pausedTimes ss)"
proof -
  have "pausedTimes ss \<subseteq> (\<lambda>s. truncSecond (sn_Time s)) ` set ss" by (auto simp: pausedTimes_def)
  then show ?thesis by (rule finite_subset) simp
qed

lemma foldl_momentStep: "foldl momentStep n ss = Max (insert n (pausedTimes ss))"
proof (induction ss arbitrary: n)
  case Nil
  then show ?case by (simp add: pausedTimes_def)
next
  case (Cons s ss)
  have "Max (insert (momentStep n s) (pausedTimes ss)) = Max (insert n (pausedTimes (s # ss)))"
    by (cases "pausedTimes ss = {}")
       (auto simp: momentStep_def Let_def pausedTimes_Cons max_def)
  then show ?case using Cons.IH by simp
qed

definition allPausedTimes :: "repositories \<Rightarrow> gtime set" where
  "allPausedTimes repos = (\<Union>(name, ss) \<in> set repos. pausedTimes ss)"

lemma momentNewest_Max: "momentNewest repos = Max (insert zeroTime (allPausedTimes repos))"
proof -
  have gen: "foldl (\<lambda>n (name, ss). foldl momentStep n ss) n repos = Max (insert n (allPausedTimes repos))" for n
  proof (induction repos arbitrary: n)
    case Nil
    then show ?case by (simp add: allPausedTimes_def)
  next
    case (Cons r repos)
    obtain nm ss where r: "r = (nm, ss)" by (cases r)
    have fin: "finite (allPausedTimes repos)" by (auto simp: allPausedTimes_def)
    have "Max (insert (Max (insert n (pausedTimes ss))) (allPausedTimes repos))
        = Max (insert n (pausedTimes ss) \<union> allPausedTimes repos)"
    proof (cases "allPausedTimes repos = {}")
      case False
      then have "Max (insert n (pausedTimes ss) \<union> allPausedTimes repos)
          = max (Max (insert n (pausedTimes ss))) (Max (allPausedTimes repos))"
        using fin by (intro Max_Un) auto
      then show ?thesis using fin False by simp
    qed simp
    then show ?case using Cons.IH r by (simp add: foldl_momentStep allPausedTimes_def)
  qed
  show ?thesis unfolding momentNewest_def by (rule gen)
qed

lemma finite_allPausedTimes [simp]: "finite (allPausedTimes repos)"
  by (auto simp: allPausedTimes_def)

lemma momentNewest_eq_iff:
  "m \<noteq> zeroTime \<Longrightarrow> momentNewest repos = m \<longleftrightarrow> zeroTime < m \<and> m \<in> allPausedTimes repos \<and> (\<forall>t \<in> allPausedTimes repos. t \<le> m)"
  unfolding momentNewest_Max by (auto simp: Max_eq_iff)

lemma At_iff_pausedTimes: "(\<exists>s. At ss m = Some s) \<longleftrightarrow> m \<in> pausedTimes ss"
  using At_None_iff[of ss m] by (auto simp: pausedTimes_def)

text \<open>C13. The paused moment of a namespace is the newest time of a paused snapshot in any of
  its repositories, in whole seconds and after the zero time, and it exists exactly when
  every repository holds a paused snapshot of that time. The right-hand side mentions the
  repositories only as a set, so the order in which Go ranges over its map is irrelevant.\<close>

theorem Moment_iff:
  "Moment repos = Some m \<longleftrightarrow>
     repos \<noteq> [] \<and> zeroTime < m \<and>
     (\<forall>name ss. (name, ss) \<in> set repos \<longrightarrow> (\<exists>s \<in> set ss. isPaused s \<and> truncSecond (sn_Time s) = m)) \<and>
     (\<forall>name ss s. (name, ss) \<in> set repos \<and> s \<in> set ss \<and> isPaused s \<longrightarrow> truncSecond (sn_Time s) \<le> m)"
  (is "_ \<longleftrightarrow> ?r")
proof
  assume "Moment repos = Some m"
  then have m: "momentNewest repos = m" "m \<noteq> zeroTime"
    and every: "\<forall>(name, ss) \<in> set repos. m \<in> pausedTimes ss"
    by (auto simp: Moment_def Let_def list_all_iff At_iff_pausedTimes split: if_splits)
  from m have "zeroTime < m" "m \<in> allPausedTimes repos" "\<forall>t \<in> allPausedTimes repos. t \<le> m"
    by (simp_all add: momentNewest_eq_iff)
  with every show ?r by (fastforce simp: allPausedTimes_def pausedTimes_def)
next
  assume r: ?r
  then have every: "\<forall>(name, ss) \<in> set repos. m \<in> pausedTimes ss" by (fastforce simp: pausedTimes_def)
  then have "m \<in> allPausedTimes repos" using r by (cases repos) (auto simp: allPausedTimes_def)
  moreover have "\<forall>t \<in> allPausedTimes repos. t \<le> m" using r by (auto simp: allPausedTimes_def pausedTimes_def)
  ultimately have "momentNewest repos = m" "m \<noteq> zeroTime" using r by (auto simp: momentNewest_eq_iff)
  with every show "Moment repos = Some m"
    by (auto simp: Moment_def Let_def list_all_iff At_iff_pausedTimes)
qed

theorem Moment_iff_witness:
  "Moment [(''a'', [snapshot0\<lparr>sn_Time := 5000000001, sn_Tags := [''paused'']\<rparr>]),
           (''b'', [snapshot0\<lparr>sn_Time := 5000000002, sn_Tags := [''paused'']\<rparr>])] = Some 5000000000"
  by (subst Moment_iff) (auto simp: isPaused_def PausedTag_def snapshot0_def truncSecond_def second_def zeroTime_def)

text \<open>The listing keeps one entry per repository and loses none: when it succeeds, every
  VolumeRestore's repository has exactly one entry.\<close>

lemma repositoriesLoop_keys:
  assumes "repositoriesLoop getSecret lister ns vrs repos w = (Inr result, w')"
    and "distinct (map fst repos)"
  shows "distinct (map fst result) \<and>
         set (map fst result) = set (map fst repos) \<union> (\<lambda>vr. vs_Repository (vr_spec vr)) ` set vrs"
  using assms
proof (induction vrs arbitrary: repos w)
  case Nil
  then show ?case by (simp add: ret_def)
next
  case (Cons vr vrs)
  let ?name = "vs_Repository (vr_spec vr)"
  show ?case
  proof (cases "map_of repos ?name = None")
    case False
    then have "?name \<in> set (map fst repos)" by (metis map_of_eq_None_iff list.set_map)
    with False Cons show ?thesis by (auto simp: Let_def)
  next
    case True
    then have new: "?name \<notin> set (map fst repos)" by (simp add: map_of_eq_None_iff)
    from True Cons.prems(1) obtain ss w1 where
      "repositoriesLoop getSecret lister ns vrs (repos @ [(?name, ss)]) w1 = (Inr result, w')"
      by (auto simp: Let_def bindM_Inr_iff)
    from Cons.IH[OF this] new Cons.prems(2) show ?thesis by auto
  qed
qed

end
