(* ===== verification/Choose.thy ===== *)
theory Choose
  imports Synced_Moment
begin

text \<open>
  The snapshot that fills a new claim, from \<open>src/internal/populator/choose.go\<close>.

  \<open>choose\<close> and \<open>atPin\<close> return a Go triple (snapshot, found, error); here it is an error or
  an optional snapshot.
\<close>

record pin =
  pin_at :: gtime
  pin_value :: string
  pin_source :: string

definition pinOf :: "volumeRestore \<Rightarrow> claim \<Rightarrow> gerr + pin option" where
  "pinOf vr cl =
     (let setting =
        (case m_annotations (pc_meta cl) AnnotationRestoreAsOf of
           Some annotated \<Rightarrow> Some (''the claim's '' @ AnnotationRestoreAsOf, annotated)
         | None \<Rightarrow>
             (case vs_RestoreAsOf (vr_spec vr) of
                Some v \<Rightarrow> Some (''spec.restoreAsOf'', v)
              | None \<Rightarrow> None))
      in case setting of
           None \<Rightarrow> Inr None
         | Some (source, value) \<Rightarrow>
             (case parseRFC3339 value of
                None \<Rightarrow> Inl (OutOfReach (source @ '' is '' @ quote value @ '', which is not an RFC 3339 time''))
              | Some at \<Rightarrow> Inr (Some \<lparr>pin_at = at, pin_value = value, pin_source = source\<rparr>)))"

definition atPin :: "snapshot list \<Rightarrow> pin \<Rightarrow> gerr + snapshot option" where
  "atPin snapshots pinned =
     (case AtOrBefore snapshots (pin_at pinned) of
        Some s \<Rightarrow> Inr (Some s)
      | None \<Rightarrow>
          (case minFunc sn_Time snapshots of
             None \<Rightarrow> Inl (OutOfReach (pin_source pinned @ '' asks for '' @ pin_value pinned @
                       '' and the repository holds no snapshot''))
           | Some oldest \<Rightarrow> Inl (OutOfReach (pin_source pinned @ '' asks for '' @ pin_value pinned @
                       ''; the oldest snapshot, '' @ ShortID oldest @ '', is from '' @
                       formatRFC3339 (sn_Time oldest)))))"

definition chooseSnapshot :: "snapshot list \<Rightarrow> pin option \<Rightarrow> gtime option \<Rightarrow> gerr + snapshot option" where
  "chooseSnapshot snapshots pinned moment =
     (case pinned of
        Some p \<Rightarrow> atPin snapshots p
      | None \<Rightarrow>
          (case Option.bind moment (At snapshots) of
             Some s \<Rightarrow> Inr (Some s)
           | None \<Rightarrow> Inr (maxFunc sn_Time snapshots)))"

section \<open>What the choice is\<close>

text \<open>A pinned claim is filled from the newest snapshot at or before its pin, never from a
  later one, and when there is none the restore is refused with an \<open>outOfReachError\<close>
  rather than filled from another snapshot or left empty.\<close>

theorem choose_pinned:
  "case chooseSnapshot snapshots (Some p) moment of
     Inr (Some s) \<Rightarrow> s \<in> set snapshots \<and> sn_Time s \<le> pin_at p \<and>
        (\<forall>t \<in> set snapshots. sn_Time t \<le> pin_at p \<longrightarrow> sn_Time t \<le> sn_Time s)
   | Inr None \<Rightarrow> False
   | Inl e \<Rightarrow> (\<exists>r. e = OutOfReach r) \<and> (\<forall>s \<in> set snapshots. pin_at p < sn_Time s)"
proof (cases "AtOrBefore snapshots (pin_at p)")
  case None
  then show ?thesis
    using atb.pick_None_iff[of snapshots "pin_at p"]
    by (auto simp: chooseSnapshot_def atPin_def split: option.splits)
next
  case (Some s)
  then show ?thesis
    using atb.pick_sound[OF Some] by (auto simp: chooseSnapshot_def atPin_def not_less)
qed

theorem choose_pinned_witness:
  "\<exists>s. chooseSnapshot [snapshot0\<lparr>sn_Time := 7\<rparr>, snapshot0\<lparr>sn_Time := 3\<rparr>]
         (Some \<lparr>pin_at = 5, pin_value = ''5'', pin_source = ''test''\<rparr>) None = Inr (Some s) \<and> sn_Time s \<le> 5"
  using choose_pinned[of "[snapshot0\<lparr>sn_Time := 7\<rparr>, snapshot0\<lparr>sn_Time := 3\<rparr>]"
      "\<lparr>pin_at = 5, pin_value = ''5'', pin_source = ''test''\<rparr>" None]
  by (simp add: chooseSnapshot_def atPin_def AtOrBefore_def snapshot0_def)

text \<open>When the namespace has a paused moment, every claim without a pin, whichever of the
  namespace's repositories it restores from, is filled from a paused snapshot of exactly
  that moment: all volumes come back from one paused backup.\<close>

theorem choose_at_moment:
  assumes "Moment repos = Some m" and "(name, snapshots) \<in> set repos"
  shows "\<exists>s. chooseSnapshot snapshots None (Moment repos) = Inr (Some s) \<and> s \<in> set snapshots \<and>
             isPaused s \<and> truncSecond (sn_Time s) = m"
proof -
  from assms have "At snapshots m \<noteq> None"
    by (auto simp: Moment_def Let_def list_all_iff split: if_splits)
  then obtain s where s: "At snapshots m = Some s" by blast
  with At_Some[OF s] assms(1) show ?thesis by (auto simp: chooseSnapshot_def)
qed

theorem choose_at_moment_witness:
  "\<exists>s. chooseSnapshot [snapshot0\<lparr>sn_Time := 9000000000\<rparr>, snapshot0\<lparr>sn_Time := 5000000001, sn_Tags := [''paused'']\<rparr>] None
         (Moment [(''a'', [snapshot0\<lparr>sn_Time := 9000000000\<rparr>, snapshot0\<lparr>sn_Time := 5000000001, sn_Tags := [''paused'']\<rparr>])])
       = Inr (Some s) \<and> isPaused s \<and> truncSecond (sn_Time s) = 5000000000"
proof -
  let ?ss = "[snapshot0\<lparr>sn_Time := 9000000000\<rparr>, snapshot0\<lparr>sn_Time := 5000000001, sn_Tags := [''paused'']\<rparr>]"
  have "Moment [(''a'', ?ss)] = Some 5000000000"
    by (simp add: Moment_def momentNewest_def momentStep_def isPaused_def PausedTag_def snapshot0_def
        truncSecond_def second_def zeroTime_def)
  from choose_at_moment[OF this, of "''a''" ?ss] show ?thesis by auto
qed

text \<open>Without a pin and without a paused moment, or when this repository holds no snapshot of
  the moment, the claim is filled from the newest snapshot, and it binds empty exactly when
  the repository holds no snapshot. A claim without a pin is never refused.\<close>

theorem choose_newest:
  assumes "case moment of None \<Rightarrow> True | Some m \<Rightarrow> At snapshots m = None"
  shows "case chooseSnapshot snapshots None moment of
           Inl e \<Rightarrow> False
         | Inr None \<Rightarrow> snapshots = []
         | Inr (Some s) \<Rightarrow> s \<in> set snapshots \<and> (\<forall>t \<in> set snapshots. sn_Time t \<le> sn_Time s)"
proof -
  have c: "chooseSnapshot snapshots None moment = Inr (maxFunc sn_Time snapshots)"
    using assms by (auto simp: chooseSnapshot_def split: option.splits)
  show ?thesis
  proof (cases "maxFunc sn_Time snapshots")
    case None
    with maxF.pick_None_iff[of sn_Time snapshots] have "snapshots = []" by simp
    with None show ?thesis unfolding c by simp
  next
    case (Some s)
    then show ?thesis using maxF.pick_sound[OF Some] by (simp add: c)
  qed
qed

theorem choose_newest_witness:
  "\<exists>s. chooseSnapshot [snapshot0\<lparr>sn_Time := 7\<rparr>, snapshot0\<lparr>sn_Time := 9\<rparr>] None (Some 0) = Inr (Some s) \<and> sn_Time s = 9"
  using choose_newest[of "[snapshot0\<lparr>sn_Time := 7\<rparr>, snapshot0\<lparr>sn_Time := 9\<rparr>]" "Some 0"]
  by (auto simp: chooseSnapshot_def isPaused_def snapshot0_def maxFunc_def)

end
