(* ===== verification/Lease.thy ===== *)
theory Lease
  imports Api_Types
begin

text \<open>
  The Leases that keep two runs from acting on one claim, repository, Cluster or set of
  paused workloads: \<open>src/internal/lease/lease.go\<close> and \<open>src/internal/runs/leases.go\<close>.

  The calls to the API server are the fields of the parameter \<open>leaseApi\<close>. \<open>Take\<close> and
  \<open>Release\<close> are the methods of \<open>Leases\<close>; \<open>Take\<close> returns Go's pair (held, other holder) or
  an error (the identity that Go returns beside an error is read by no caller).
\<close>

definition ClaimPrefix :: string where "ClaimPrefix = ''backup-claim-''"
definition RepositoryPrefix :: string where "RepositoryPrefix = ''backup-repository-''"
definition ClusterPrefix :: string where "ClusterPrefix = ''backup-cluster-''"
definition PauseName :: string where "PauseName = ''backup-pause''"

record holder =
  h_Kind :: string
  h_Name :: string
  h_UID :: string

definition HolderString :: "holder \<Rightarrow> string" where
  "HolderString h = h_Kind h @ ''/'' @ h_Name h @ ''/'' @ h_UID h"

definition ParseHolder :: "string \<Rightarrow> holder option" where
  "ParseHolder identity =
     (case splitN (CHR ''/'') 3 identity of
        [a, b, c] \<Rightarrow> if a = [] \<or> b = [] \<or> c = [] then None
                     else Some \<lparr>h_Kind = a, h_Name = b, h_UID = c\<rparr>
      | _ \<Rightarrow> None)"

record lease =
  l_holder :: "string option"
  l_uid :: string
  l_rv :: string

record 'w leaseApi =
  la_Create :: "string \<Rightarrow> string \<Rightarrow> string \<Rightarrow> ('w, unit) call"
  la_Get :: "string \<Rightarrow> string \<Rightarrow> ('w, lease) call"
  la_Update :: "string \<Rightarrow> string \<Rightarrow> lease \<Rightarrow> ('w, unit) call"
  la_Delete :: "string \<Rightarrow> string \<Rightarrow> string \<Rightarrow> string \<Rightarrow> ('w, unit) call"
  la_Alive :: "string \<Rightarrow> holder \<Rightarrow> ('w, bool) call"

definition Take :: "'w leaseApi \<Rightarrow> string \<Rightarrow> string \<Rightarrow> holder \<Rightarrow> ('w, bool \<times> string) call" where
  "Take l namespace name holder =
    (let identity = HolderString holder; key = namespace @ ''/'' @ name in
     bindM (attempt (la_Create l namespace name identity)) (\<lambda>r.
     case r of
       Inr _ \<Rightarrow> ret (True, [])
     | Inl err \<Rightarrow>
       if \<not> IsAlreadyExists err then failM (Wrap (''create Lease '' @ key @ '': '') err)
       else
       bindM (attempt (la_Get l namespace name)) (\<lambda>r.
       case r of
         Inl err \<Rightarrow> if IsNotFound err then ret (False, [])
                    else failM (Wrap (''get Lease '' @ key @ '': '') err)
       | Inr current \<Rightarrow>
         let other = (case l_holder current of Some i \<Rightarrow> i | None \<Rightarrow> []) in
         if other = identity then ret (True, [])
         else
         (case ParseHolder other of
            None \<Rightarrow> failM (Plain (''the Lease '' @ key @ '' is held by '' @ quote other @
                      '', which is not a run of this controller''))
          | Some owner \<Rightarrow>
            bindM (wrapM (''check the holder '' @ other @ '' of Lease '' @ key @ '': '') (la_Alive l namespace owner)) (\<lambda>alive.
            if alive then ret (False, other)
            else
            bindM (attempt (la_Update l namespace name (current\<lparr>l_holder := Some identity\<rparr>))) (\<lambda>r.
            case r of
              Inl err \<Rightarrow> if IsConflict err \<or> IsNotFound err then ret (False, other)
                         else failM (Wrap (''take over Lease '' @ key @ '' from '' @ other @ '': '') err)
            | Inr _ \<Rightarrow> ret (True, [])))))))"

definition Release :: "'w leaseApi \<Rightarrow> string \<Rightarrow> string \<Rightarrow> holder \<Rightarrow> ('w, unit) call" where
  "Release l namespace name holder =
    (let key = namespace @ ''/'' @ name in
     bindM (attempt (la_Get l namespace name)) (\<lambda>r.
     case r of
       Inl err \<Rightarrow> if IsNotFound err then ret () else failM (Wrap (''get Lease '' @ key @ '': '') err)
     | Inr current \<Rightarrow>
       if l_holder current \<noteq> Some (HolderString holder) then ret ()
       else
       bindM (attempt (la_Delete l namespace name (l_uid current) (l_rv current))) (\<lambda>r.
       case r of
         Inl err \<Rightarrow> if \<not> IsNotFound err \<and> \<not> IsConflict err
                    then failM (Wrap (''delete Lease '' @ key @ '': '') err) else ret ()
       | Inr _ \<Rightarrow> ret ())))"

text \<open>\<open>RunAlive\<close> with the two reads of a run as parameters. \<open>client.IgnoreNotFound\<close> turns a
  missing run into \<open>(false, nil)\<close>.\<close>

definition RunAlive ::
  "(string \<Rightarrow> string \<Rightarrow> ('w, backupRun) call) \<Rightarrow> (string \<Rightarrow> string \<Rightarrow> ('w, restoreRun) call) \<Rightarrow>
   string \<Rightarrow> holder \<Rightarrow> ('w, bool) call" where
  "RunAlive getBackupRun getRestoreRun namespace holder =
     (if h_Kind holder = ''BackupRun'' then
        bindM (attempt (getBackupRun namespace (h_Name holder))) (\<lambda>r. case r of
          Inl err \<Rightarrow> if IsNotFound err then ret False else failM err
        | Inr run \<Rightarrow> ret (m_uid (br_meta run) = h_UID holder \<and> \<not> Finished (bt_Phase (br_status run))))
      else if h_Kind holder = ''RestoreRun'' then
        bindM (attempt (getRestoreRun namespace (h_Name holder))) (\<lambda>r. case r of
          Inl err \<Rightarrow> if IsNotFound err then ret False else failM err
        | Inr run \<Rightarrow> ret (m_uid (rr_meta run) = h_UID holder \<and> \<not> Finished (rt_Phase (rr_status run))))
      else ret False)"

text \<open>\<open>holding\<close>: the names are added to the run's recorded Leases and written before the first
  Lease is taken. The result is the message and the recorded names.\<close>

definition addNames :: "string list \<Rightarrow> string list \<Rightarrow> string list" where
  "addNames names recorded =
     foldl (\<lambda>rec name. if name \<in> set rec then rec else rec @ [name]) recorded names"

primrec takeLoop :: "'w leaseApi \<Rightarrow> string \<Rightarrow> holder \<Rightarrow> string list \<Rightarrow> ('w, string) call" where
  "takeLoop l namespace holder [] = ret []"
| "takeLoop l namespace holder (name # names) =
     bindM (Take l namespace name holder) (\<lambda>(held, other).
       if \<not> held
       then (if other = [] then ret (''waiting to take Lease '' @ name)
             else ret (''Lease '' @ name @ '' is held by '' @ other))
       else takeLoop l namespace holder names)"

definition holding :: "'w leaseApi \<Rightarrow> string \<Rightarrow> holder \<Rightarrow> string list \<Rightarrow> string list \<Rightarrow>
    (string list \<Rightarrow> ('w, unit) call) \<Rightarrow> ('w, string \<times> string list) call" where
  "holding l namespace holder names recorded record1 =
     (let recorded' = addNames names recorded in
      thenM (if recorded' \<noteq> recorded then record1 recorded' else ret ())
        (bindM (takeLoop l namespace holder names) (\<lambda>msg. ret (msg, recorded'))))"

definition releaseAll :: "'w leaseApi \<Rightarrow> string \<Rightarrow> holder \<Rightarrow> string list \<Rightarrow> ('w, unit) call" where
  "releaseAll l namespace holder recorded =
     forM recorded (\<lambda>name.
       bindM (attempt (Release l namespace name holder)) (\<lambda>r. case r of
         Inl err \<Rightarrow> if \<not> IsNotFound err then failM err else ret ()
       | Inr _ \<Rightarrow> ret ()))"

section \<open>Identities\<close>

text \<open>Kinds and object names hold no slash, and none of the parts is empty.\<close>

definition wfHolder :: "holder \<Rightarrow> bool" where
  "wfHolder h = (h_Kind h \<noteq> [] \<and> h_Name h \<noteq> [] \<and> h_UID h \<noteq> [] \<and>
                 CHR ''/'' \<notin> set (h_Kind h) \<and> CHR ''/'' \<notin> set (h_Name h))"

lemma ParseHolder_HolderString: "wfHolder h \<Longrightarrow> ParseHolder (HolderString h) = Some h"
  by (simp add: wfHolder_def ParseHolder_def HolderString_def numeral_3_eq_3 cutChar_found)

lemma HolderString_inject: "wfHolder h \<Longrightarrow> wfHolder k \<Longrightarrow> HolderString h = HolderString k \<longleftrightarrow> h = k"
  using ParseHolder_HolderString by (metis option.inject)

lemma ParseHolder_Some:
  assumes "ParseHolder s = Some h"
  shows "wfHolder h \<and> HolderString h = s"
proof -
  obtain a b f where c: "cutChar (CHR ''/'') s = (a, b, f)" by (metis prod_cases3)
  obtain a' b' f' where c': "cutChar (CHR ''/'') b = (a', b', f')" by (metis prod_cases3)
  from assms c c' have "f" "f'" "a \<noteq> []" "a' \<noteq> []" "b' \<noteq> []" "h = \<lparr>h_Kind = a, h_Name = a', h_UID = b'\<rparr>"
    by (auto simp: ParseHolder_def numeral_3_eq_3 split: if_splits)
  with cutChar_True[of "CHR ''/''" s a b] cutChar_True[of "CHR ''/''" b a' b'] c c'
  show ?thesis by (auto simp: wfHolder_def HolderString_def)
qed

text \<open>The identity written into a Lease and the run it is read back as determine each other:
  an identity parses to a holder exactly when it is the string of that holder and the holder's
  parts are non-empty and free of slashes (the UID may hold any character).\<close>

theorem ParseHolder_iff: "ParseHolder s = Some h \<longleftrightarrow> wfHolder h \<and> HolderString h = s"
  using ParseHolder_Some ParseHolder_HolderString by blast

end
