(* ===== verification/Lease_System.thy ===== *)
theory Lease_System
  imports Lease
begin

text \<open>
  Several runs that take and release one Lease at the same time.

  \<open>takeStep\<close> and \<open>relStep\<close> perform one API call of \<open>Take\<close> and \<open>Release\<close> and the code up to
  the next call; running them to the end gives \<open>Take\<close> and \<open>Release\<close> (\<open>take_run\<close>,
  \<open>rel_run\<close>). \<open>lstep\<close> interleaves the calls of any number of runs with each other, with
  changes of the outside world, and with controller crashes between two calls. What the API
  server promises about one Lease is the predicate \<open>lease_server\<close>: a create fails on an existing
  Lease, an update or delete with an old resourceVersion fails, every write stamps a
  resourceVersion never used before, and a call that reports an error may still have taken effect.
\<close>

datatype takePC = TakeCreate | TakeGet | TakeAlive lease string holder | TakeUpdate lease string holder
  | TakeDone "gerr + bool \<times> string"

fun takeStep :: "'w leaseApi \<Rightarrow> string \<Rightarrow> string \<Rightarrow> holder \<Rightarrow> takePC \<Rightarrow> 'w \<Rightarrow> takePC \<times> 'w" where
  "takeStep l ns name h TakeCreate w =
     (case la_Create l ns name (HolderString h) w of
        (Inr _, w') \<Rightarrow> (TakeDone (Inr (True, [])), w')
      | (Inl err, w') \<Rightarrow>
          (if IsAlreadyExists err then TakeGet
           else TakeDone (Inl (Wrap (''create Lease '' @ ns @ ''/'' @ name @ '': '') err)), w'))"
| "takeStep l ns name h TakeGet w =
     (case la_Get l ns name w of
        (Inl err, w') \<Rightarrow>
          (if IsNotFound err then TakeDone (Inr (False, []))
           else TakeDone (Inl (Wrap (''get Lease '' @ ns @ ''/'' @ name @ '': '') err)), w')
      | (Inr current, w') \<Rightarrow>
          (let other = (case l_holder current of Some i \<Rightarrow> i | None \<Rightarrow> []) in
           if other = HolderString h then TakeDone (Inr (True, []))
           else (case ParseHolder other of
                   None \<Rightarrow> TakeDone (Inl (Plain (''the Lease '' @ ns @ ''/'' @ name @ '' is held by '' @ quote other @
                             '', which is not a run of this controller'')))
                 | Some owner \<Rightarrow> TakeAlive current other owner), w'))"
| "takeStep l ns name h (TakeAlive current other owner) w =
     (case la_Alive l ns owner w of
        (Inl err, w') \<Rightarrow>
          (TakeDone (Inl (Wrap (''check the holder '' @ other @ '' of Lease '' @ ns @ ''/'' @ name @ '': '') err)), w')
      | (Inr alive, w') \<Rightarrow>
          (if alive then TakeDone (Inr (False, other)) else TakeUpdate current other owner, w'))"
| "takeStep l ns name h (TakeUpdate current other owner) w =
     (case la_Update l ns name (current\<lparr>l_holder := Some (HolderString h)\<rparr>) w of
        (Inl err, w') \<Rightarrow>
          (if IsConflict err \<or> IsNotFound err then TakeDone (Inr (False, other))
           else TakeDone (Inl (Wrap (''take over Lease '' @ ns @ ''/'' @ name @ '' from '' @ other @ '': '') err)), w')
      | (Inr _, w') \<Rightarrow> (TakeDone (Inr (True, [])), w'))"
| "takeStep l ns name h (TakeDone r) w = (TakeDone r, w)"

datatype relPC = RelGet | RelDelete lease | RelDone "gerr + unit"

fun relStep :: "'w leaseApi \<Rightarrow> string \<Rightarrow> string \<Rightarrow> holder \<Rightarrow> relPC \<Rightarrow> 'w \<Rightarrow> relPC \<times> 'w" where
  "relStep l ns name h RelGet w =
     (case la_Get l ns name w of
        (Inl err, w') \<Rightarrow>
          (if IsNotFound err then RelDone (Inr ())
           else RelDone (Inl (Wrap (''get Lease '' @ ns @ ''/'' @ name @ '': '') err)), w')
      | (Inr current, w') \<Rightarrow>
          (if l_holder current \<noteq> Some (HolderString h) then RelDone (Inr ()) else RelDelete current, w'))"
| "relStep l ns name h (RelDelete current) w =
     (case la_Delete l ns name (l_uid current) (l_rv current) w of
        (Inl err, w') \<Rightarrow>
          (if \<not> IsNotFound err \<and> \<not> IsConflict err
           then RelDone (Inl (Wrap (''delete Lease '' @ ns @ ''/'' @ name @ '': '') err))
           else RelDone (Inr ()), w')
      | (Inr _, w') \<Rightarrow> (RelDone (Inr ()), w'))"
| "relStep l ns name h (RelDone r) w = (RelDone r, w)"

text \<open>The steps are those of the code: four of them give the result of \<open>Take\<close>, two of them
  the result of \<open>Release\<close>.\<close>

definition pairStep :: "('p \<Rightarrow> 'w \<Rightarrow> 'p \<times> 'w) \<Rightarrow> 'p \<times> 'w \<Rightarrow> 'p \<times> 'w" where
  "pairStep f = (\<lambda>(p, w). f p w)"

lemma take_run:
  "(pairStep (takeStep l ns name h) ^^ 4) (TakeCreate, w) =
     (case Take l ns name h w of (r, w') \<Rightarrow> (TakeDone r, w'))"
  by (simp add: Take_def Let_def call_simps pairStep_def numeral_eq_Suc split: prod.splits sum.splits option.splits)

lemma rel_run:
  "(pairStep (relStep l ns name h) ^^ 2) (RelGet, w) =
     (case Release l ns name h w of (r, w') \<Rightarrow> (RelDone r, w'))"
  by (simp add: Release_def Let_def call_simps pairStep_def numeral_eq_Suc split: prod.splits sum.splits)

section \<open>What the API server promises about one Lease\<close>

record 'w leaseView =
  v_lease :: "'w \<Rightarrow> lease option"       \<comment> \<open>the stored Lease\<close>
  v_used :: "'w \<Rightarrow> string set"           \<comment> \<open>the resourceVersions given out so far\<close>
  v_alive :: "'w \<Rightarrow> holder \<Rightarrow> bool"      \<comment> \<open>the runs that exist and have not finished\<close>

definition sameView :: "'w leaseView \<Rightarrow> 'w \<Rightarrow> 'w \<Rightarrow> bool" where
  "sameView v w w' = (v_lease v w' = v_lease v w \<and> v_used v w' = v_used v w \<and> v_alive v w' = v_alive v w)"

definition storedNew :: "'w leaseView \<Rightarrow> 'w \<Rightarrow> string option \<Rightarrow> 'w \<Rightarrow> bool" where
  "storedNew v w holder w' =
     (v_alive v w' = v_alive v w \<and> v_used v w \<subseteq> v_used v w' \<and>
      (\<exists>l. v_lease v w' = Some l \<and> l_holder l = holder \<and> l_rv l \<notin> v_used v w \<and> l_rv l \<in> v_used v w'))"

definition createEffect :: "'w leaseView \<Rightarrow> 'w \<Rightarrow> string \<Rightarrow> 'w \<Rightarrow> bool" where
  "createEffect v w identity w' = (v_lease v w = None \<and> storedNew v w (Some identity) w')"

definition updateEffect :: "'w leaseView \<Rightarrow> 'w \<Rightarrow> lease \<Rightarrow> 'w \<Rightarrow> bool" where
  "updateEffect v w l w' =
     ((\<exists>cur. v_lease v w = Some cur \<and> l_rv cur = l_rv l) \<and> storedNew v w (l_holder l) w')"

definition deleteEffect :: "'w leaseView \<Rightarrow> 'w \<Rightarrow> string \<Rightarrow> 'w \<Rightarrow> bool" where
  "deleteEffect v w rv w' =
     ((\<exists>cur. v_lease v w = Some cur \<and> l_rv cur = rv) \<and> v_lease v w' = None \<and>
      v_used v w \<subseteq> v_used v w' \<and> v_alive v w' = v_alive v w)"

text \<open>A successful write has its effect; a failed one has it or has none.\<close>

definition writeLaw :: "'w leaseView \<Rightarrow> ('w \<Rightarrow> 'w \<Rightarrow> bool) \<Rightarrow> ('w, unit) call \<Rightarrow> bool" where
  "writeLaw v eff c = (\<forall>w. case c w of (Inr _, w') \<Rightarrow> eff w w' | (Inl _, w') \<Rightarrow> sameView v w w' \<or> eff w w')"

definition readLaw :: "'w leaseView \<Rightarrow> ('w \<Rightarrow> 'a \<Rightarrow> bool) \<Rightarrow> ('w, 'a) call \<Rightarrow> bool" where
  "readLaw v ok c = (\<forall>w. case c w of (Inr x, w') \<Rightarrow> sameView v w w' \<and> ok w x | (Inl _, w') \<Rightarrow> sameView v w w')"

definition lease_server :: "'w leaseApi \<Rightarrow> string \<Rightarrow> string \<Rightarrow> 'w leaseView \<Rightarrow> bool" where
  "lease_server api ns name v =
     ((\<forall>i. writeLaw v (\<lambda>w w'. createEffect v w i w') (la_Create api ns name i)) \<and>
      readLaw v (\<lambda>w l. v_lease v w = Some l) (la_Get api ns name) \<and>
      (\<forall>l. writeLaw v (\<lambda>w w'. updateEffect v w l w') (la_Update api ns name l)) \<and>
      (\<forall>uid rv. writeLaw v (\<lambda>w w'. deleteEffect v w rv w') (la_Delete api ns name uid rv)) \<and>
      (\<forall>h. readLaw v (\<lambda>w b. b = v_alive v w h) (la_Alive api ns h)))"

section \<open>The interleaved system\<close>

datatype threadPC = Idle | Taking takePC | Releasing relPC

text \<open>\<open>th_born\<close>: the run was created; \<open>th_held\<close>: its last \<open>Take\<close> returned true and it has
  not begun a \<open>Release\<close> since, so it may act on the guarded object.\<close>

record thread =
  th_born :: bool
  th_held :: bool
  th_pc :: threadPC

record 'w lsys =
  ls_w :: 'w
  ls_thr :: "holder \<Rightarrow> thread"

definition heldAfter :: "bool \<Rightarrow> gerr + bool \<times> string \<Rightarrow> bool" where
  "heldAfter held r = (case r of Inr (b, _) \<Rightarrow> b | Inl _ \<Rightarrow> held)"

definition setThr :: "'w lsys \<Rightarrow> holder \<Rightarrow> thread \<Rightarrow> 'w \<Rightarrow> 'w lsys" where
  "setThr s h t w = s\<lparr>ls_w := w, ls_thr := (ls_thr s)(h := t)\<rparr>"

definition linit :: "'w leaseView \<Rightarrow> 'w lsys \<Rightarrow> bool" where
  "linit v s =
     ((\<forall>h. \<not> th_held (ls_thr s h) \<and> th_pc (ls_thr s h) = Idle) \<and>
      (\<forall>l. v_lease v (ls_w s) = Some l \<longrightarrow> l_rv l \<in> v_used v (ls_w s) \<and>
         (\<forall>i h. l_holder l = Some i \<and> ParseHolder i = Some h \<longrightarrow> th_born (ls_thr s h))))"

inductive lstep :: "'w leaseApi \<Rightarrow> string \<Rightarrow> string \<Rightarrow> 'w leaseView \<Rightarrow> 'w lsys \<Rightarrow> 'w lsys \<Rightarrow> bool"
  for api ns name v where
  env: "v_lease v w' = v_lease v (ls_w s) \<Longrightarrow> v_used v (ls_w s) \<subseteq> v_used v w' \<Longrightarrow>
        \<forall>h. th_born (ls_thr s h) \<and> \<not> v_alive v (ls_w s) h \<longrightarrow> \<not> v_alive v w' h \<Longrightarrow>
        lstep api ns name v s (s\<lparr>ls_w := w'\<rparr>)"
| birth: "lstep api ns name v s (setThr s h ((ls_thr s h)\<lparr>th_born := True\<rparr>) (ls_w s))"
| take_start: "th_born (ls_thr s h) \<Longrightarrow> wfHolder h \<Longrightarrow> th_pc (ls_thr s h) = Idle \<Longrightarrow>
        lstep api ns name v s (setThr s h ((ls_thr s h)\<lparr>th_pc := Taking TakeCreate\<rparr>) (ls_w s))"
| take_step: "th_pc (ls_thr s h) = Taking p \<Longrightarrow> takeStep api ns name h p (ls_w s) = (p', w') \<Longrightarrow>
        lstep api ns name v s (setThr s h ((ls_thr s h)\<lparr>th_pc := Taking p'\<rparr>) w')"
| take_end: "th_pc (ls_thr s h) = Taking (TakeDone r) \<Longrightarrow>
        lstep api ns name v s
          (setThr s h ((ls_thr s h)\<lparr>th_pc := Idle, th_held := heldAfter (th_held (ls_thr s h)) r\<rparr>) (ls_w s))"
| rel_start: "wfHolder h \<Longrightarrow> th_pc (ls_thr s h) = Idle \<Longrightarrow>
        lstep api ns name v s (setThr s h ((ls_thr s h)\<lparr>th_pc := Releasing RelGet, th_held := False\<rparr>) (ls_w s))"
| rel_step: "th_pc (ls_thr s h) = Releasing p \<Longrightarrow> relStep api ns name h p (ls_w s) = (p', w') \<Longrightarrow>
        lstep api ns name v s (setThr s h ((ls_thr s h)\<lparr>th_pc := Releasing p'\<rparr>) w')"
| rel_end: "th_pc (ls_thr s h) = Releasing (RelDone r) \<Longrightarrow>
        lstep api ns name v s (setThr s h ((ls_thr s h)\<lparr>th_pc := Idle\<rparr>) (ls_w s))"
| crash: "lstep api ns name v s (setThr s h ((ls_thr s h)\<lparr>th_pc := Idle\<rparr>) (ls_w s))"

inductive_cases lstepE: "lstep api ns name v s s'"

section \<open>The invariant\<close>

text \<open>A run counts as holding from the API call that gave it the Lease.\<close>

definition holds :: "thread \<Rightarrow> bool" where
  "holds t = (th_held t \<or> (\<exists>x. th_pc t = Taking (TakeDone (Inr (True, x)))))"

text \<open>A Lease that a run has read is still the stored one, or its resourceVersion is no longer current.\<close>

definition readOk :: "'w leaseView \<Rightarrow> 'w \<Rightarrow> lease \<Rightarrow> bool" where
  "readOk v w l = (l_rv l \<in> v_used v w \<and> (\<forall>cur. v_lease v w = Some cur \<and> l_rv cur = l_rv l \<longrightarrow> cur = l))"

fun pcOk :: "'w leaseView \<Rightarrow> 'w \<Rightarrow> (holder \<Rightarrow> bool) \<Rightarrow> holder \<Rightarrow> bool \<Rightarrow> threadPC \<Rightarrow> bool" where
  "pcOk v w born h held (Taking (TakeAlive l other owner)) =
     (readOk v w l \<and> l_holder l = Some other \<and> ParseHolder other = Some owner \<and> born owner)"
| "pcOk v w born h held (Taking (TakeUpdate l other owner)) =
     (readOk v w l \<and> l_holder l = Some other \<and> ParseHolder other = Some owner \<and> born owner \<and> \<not> v_alive v w owner)"
| "pcOk v w born h held (Releasing p) =
     (\<not> held \<and> (\<forall>l. p = RelDelete l \<longrightarrow> readOk v w l \<and> l_holder l = Some (HolderString h)))"
| "pcOk v w born h held _ = True"

definition leaseOk :: "'w leaseView \<Rightarrow> 'w \<Rightarrow> (holder \<Rightarrow> bool) \<Rightarrow> bool" where
  "leaseOk v w born =
     (\<forall>l. v_lease v w = Some l \<longrightarrow> l_rv l \<in> v_used v w \<and>
        (\<forall>i h. l_holder l = Some i \<and> ParseHolder i = Some h \<longrightarrow> born h))"

definition threadOk :: "'w leaseView \<Rightarrow> 'w \<Rightarrow> (holder \<Rightarrow> bool) \<Rightarrow> holder \<Rightarrow> thread \<Rightarrow> bool" where
  "threadOk v w born h t =
     (pcOk v w born h (th_held t) (th_pc t) \<and>
      (th_held t \<or> th_pc t \<noteq> Idle \<longrightarrow> wfHolder h) \<and>
      (th_held t \<or> (\<exists>p. th_pc t = Taking p) \<longrightarrow> born h) \<and>
      (holds t \<and> v_alive v w h \<longrightarrow> (\<exists>l. v_lease v w = Some l \<and> l_holder l = Some (HolderString h))))"

definition linv :: "'w leaseView \<Rightarrow> 'w lsys \<Rightarrow> bool" where
  "linv v s = (leaseOk v (ls_w s) (\<lambda>h. th_born (ls_thr s h)) \<and>
     (\<forall>h. threadOk v (ls_w s) (\<lambda>h. th_born (ls_thr s h)) h (ls_thr s h)))"

section \<open>The invariant is kept\<close>

abbreviation bornIn :: "'w lsys \<Rightarrow> holder \<Rightarrow> bool" where
  "bornIn s \<equiv> \<lambda>h. th_born (ls_thr s h)"

abbreviation namedBy :: "'w leaseView \<Rightarrow> 'w \<Rightarrow> holder \<Rightarrow> bool" where
  "namedBy v w h \<equiv> (\<exists>l. v_lease v w = Some l \<and> l_holder l = Some (HolderString h))"

lemma linv_thread: "linv v s \<Longrightarrow> threadOk v (ls_w s) (bornIn s) k (ls_thr s k)"
  by (simp add: linv_def)

lemma linvI:
  "leaseOk v w (bornIn s) \<Longrightarrow> (\<And>k. threadOk v w (bornIn s) k (ls_thr s k)) \<Longrightarrow> linv v (s\<lparr>ls_w := w\<rparr>)"
  by (simp add: linv_def)

lemma holder_named:
  assumes "linv v s" "holds (ls_thr s k)" "v_alive v (ls_w s) k"
  shows "namedBy v (ls_w s) k" and "wfHolder k"
proof -
  note t = linv_thread[OF assms(1), of k, unfolded threadOk_def]
  show "namedBy v (ls_w s) k" using t assms(2,3) by blast
  show "wfHolder k" using t assms(2) unfolding holds_def by auto
qed

lemma linv_pc: "linv v s \<Longrightarrow> pcOk v (ls_w s) (bornIn s) k (th_held (ls_thr s k)) (th_pc (ls_thr s k))"
  using linv_thread[of v s k] unfolding threadOk_def by blast

lemma linv_wf: "linv v s \<Longrightarrow> th_pc (ls_thr s k) \<noteq> Idle \<Longrightarrow> wfHolder k"
  using linv_thread[of v s k] unfolding threadOk_def by blast

lemma linv_born: "linv v s \<Longrightarrow> th_pc (ls_thr s k) = Taking p \<Longrightarrow> th_born (ls_thr s k)"
  using linv_thread[of v s k] unfolding threadOk_def by blast

lemma pcOk_mono:
  assumes "pcOk v w born h held p" and "\<And>l. readOk v w l \<Longrightarrow> readOk v w' l"
    and "\<And>k. born k \<Longrightarrow> \<not> v_alive v w k \<Longrightarrow> \<not> v_alive v w' k"
  shows "pcOk v w' born h held p"
  using assms by (cases "(v, w, born, h, held, p)" rule: pcOk.cases) auto

lemma threadOk_world:
  assumes "threadOk v w born h t" and "\<And>l. readOk v w l \<Longrightarrow> readOk v w' l"
    and "\<And>k. born k \<Longrightarrow> \<not> v_alive v w k \<Longrightarrow> \<not> v_alive v w' k"
    and "holds t \<Longrightarrow> v_alive v w' h \<Longrightarrow> namedBy v w' h"
  shows "threadOk v w' born h t"
  using assms pcOk_mono[OF _ assms(2,3)] unfolding threadOk_def by blast

lemma threadOk_pc:
  assumes "threadOk v w born h t" "pcOk v w born h (th_held t) p'" "born h" "wfHolder h"
    and "\<And>x. p' = Taking (TakeDone (Inr (True, x))) \<Longrightarrow> v_alive v w h \<Longrightarrow> namedBy v w h"
  shows "threadOk v w born h (t\<lparr>th_pc := p'\<rparr>)"
  using assms unfolding threadOk_def holds_def by auto

lemma linv_setThr:
  assumes "linv v (s\<lparr>ls_w := w\<rparr>)" "threadOk v w (bornIn s) h t" "th_born t = th_born (ls_thr s h)"
  shows "linv v (setThr s h t w)"
proof -
  have "(\<lambda>k. th_born (((ls_thr s)(h := t)) k)) = bornIn s" using assms(3) by auto
  then show ?thesis using assms(1,2) unfolding linv_def setThr_def by auto
qed

lemma setThr_same: "th_pc (ls_thr s h) = q \<Longrightarrow> setThr s h ((ls_thr s h)\<lparr>th_pc := q\<rparr>) (ls_w s) = s"
  by (cases s; cases "ls_thr s h") (auto simp: setThr_def fun_eq_iff)

lemma readOk_stored: "readOk v w l \<Longrightarrow> storedNew v w i w' \<Longrightarrow> readOk v w' l"
  unfolding readOk_def storedNew_def by auto

lemma readOk_deleted: "readOk v w l \<Longrightarrow> deleteEffect v w rv w' \<Longrightarrow> readOk v w' l"
  unfolding readOk_def deleteEffect_def by auto

lemma linv_same:
  assumes "linv v s" "sameView v (ls_w s) w'"
  shows "linv v (s\<lparr>ls_w := w'\<rparr>)"
proof (rule linvI)
  have eq: "v_lease v w' = v_lease v (ls_w s)" "v_used v w' = v_used v (ls_w s)" "v_alive v w' = v_alive v (ls_w s)"
    using assms(2) by (simp_all add: sameView_def)
  then have r: "readOk v w' l = readOk v (ls_w s) l" for l by (simp add: readOk_def)
  show "leaseOk v w' (bornIn s)" using assms(1) unfolding linv_def leaseOk_def eq by blast
  show "threadOk v w' (bornIn s) k (ls_thr s k)" for k
    by (rule threadOk_world[OF linv_thread[OF assms(1)]]) (simp_all add: r eq holder_named(1)[OF assms(1)])
qed

text \<open>A write that names the run \<open>h\<close> keeps the invariant when no other run holds the Lease and is alive.\<close>

lemma linv_stored:
  assumes "linv v s" "storedNew v (ls_w s) (Some (HolderString h)) w'" "wfHolder h" "th_born (ls_thr s h)"
    and others: "\<And>k. holds (ls_thr s k) \<Longrightarrow> v_alive v (ls_w s) k \<Longrightarrow> k = h"
  shows "linv v (s\<lparr>ls_w := w'\<rparr>)" and "namedBy v w' h"
proof -
  have al: "v_alive v w' = v_alive v (ls_w s)" and nm: "namedBy v w' h"
    using assms(2) by (auto simp: storedNew_def)
  show "namedBy v w' h" by (rule nm)
  show "linv v (s\<lparr>ls_w := w'\<rparr>)"
  proof (rule linvI)
    show "leaseOk v w' (bornIn s)"
      using assms(2-4) by (auto simp: leaseOk_def storedNew_def ParseHolder_HolderString)
    show "threadOk v w' (bornIn s) k (ls_thr s k)" for k
    proof (rule threadOk_world[OF linv_thread[OF assms(1)]])
      show "namedBy v w' k" if "holds (ls_thr s k)" "v_alive v w' k"
        using others[of k] that nm al by simp
    qed (simp_all add: al readOk_stored[OF _ assms(2)])
  qed
qed

lemma linv_create:
  assumes "linv v s" "createEffect v (ls_w s) (HolderString h) w'" "wfHolder h" "th_born (ls_thr s h)"
  shows "linv v (s\<lparr>ls_w := w'\<rparr>)" and "namedBy v w' h"
proof -
  have none: "v_lease v (ls_w s) = None" and st: "storedNew v (ls_w s) (Some (HolderString h)) w'"
    using assms(2) by (simp_all add: createEffect_def)
  have "k = h" if "holds (ls_thr s k)" "v_alive v (ls_w s) k" for k
    using holder_named(1)[OF assms(1) that] none by simp
  from linv_stored[OF assms(1) st assms(3,4) this]
  show "linv v (s\<lparr>ls_w := w'\<rparr>)" "namedBy v w' h" by blast+
qed

text \<open>A takeover overwrites the Lease that was read, and its holder is dead, so no live run loses it.\<close>

lemma linv_takeover:
  assumes "linv v s" "updateEffect v (ls_w s) (l\<lparr>l_holder := Some (HolderString h)\<rparr>) w'"
    and "wfHolder h" "th_born (ls_thr s h)"
    and pc: "th_pc (ls_thr s h) = Taking (TakeUpdate l other owner)"
  shows "linv v (s\<lparr>ls_w := w'\<rparr>)" and "namedBy v w' h"
proof -
  have ok: "readOk v (ls_w s) l" "l_holder l = Some other" "ParseHolder other = Some owner" "\<not> v_alive v (ls_w s) owner"
    using linv_pc[OF assms(1), of h] pc by simp_all
  have cur: "v_lease v (ls_w s) = Some l"
    using assms(2) ok(1) by (auto simp: updateEffect_def readOk_def)
  have st: "storedNew v (ls_w s) (Some (HolderString h)) w'" using assms(2) by (simp add: updateEffect_def)
  have "k = h" if k: "holds (ls_thr s k)" "v_alive v (ls_w s) k" for k
  proof -
    have "HolderString k = other" using holder_named(1)[OF assms(1) k] cur ok(2) by simp
    then have "k = owner" using ok(3) ParseHolder_HolderString[OF holder_named(2)[OF assms(1) k]] by simp
    with k(2) ok(4) show ?thesis by simp
  qed
  from linv_stored[OF assms(1) st assms(3,4) this]
  show "linv v (s\<lparr>ls_w := w'\<rparr>)" "namedBy v w' h" by blast+
qed

text \<open>A release deletes the Lease that was read, which names the releasing run; that run no
  longer counts as holding.\<close>

lemma linv_delete:
  assumes "linv v s" "deleteEffect v (ls_w s) (l_rv l) w'"
    and pc: "th_pc (ls_thr s h) = Releasing (RelDelete l)"
  shows "linv v (s\<lparr>ls_w := w'\<rparr>)"
proof (rule linvI)
  have ok: "readOk v (ls_w s) l" "l_holder l = Some (HolderString h)" and nh: "\<not> th_held (ls_thr s h)"
    using linv_pc[OF assms(1), of h] pc by simp_all
  have wf: "wfHolder h" using linv_wf[OF assms(1), of h] pc by simp
  have al: "v_alive v w' = v_alive v (ls_w s)" using assms(2) by (simp add: deleteEffect_def)
  have cur: "v_lease v (ls_w s) = Some l"
    using assms(2) ok(1) by (auto simp: deleteEffect_def readOk_def)
  have dead: "\<not> v_alive v (ls_w s) k" if k: "holds (ls_thr s k)" for k
  proof
    assume a: "v_alive v (ls_w s) k"
    have "HolderString k = HolderString h" using holder_named(1)[OF assms(1) k a] cur ok(2) by simp
    then have "k = h" using HolderString_inject[OF holder_named(2)[OF assms(1) k a] wf] by simp
    with k nh pc show False by (simp add: holds_def)
  qed
  show "leaseOk v w' (bornIn s)" using assms(2) by (simp add: leaseOk_def deleteEffect_def)
  show "threadOk v w' (bornIn s) k (ls_thr s k)" for k
    by (rule threadOk_world[OF linv_thread[OF assms(1)]]) (simp_all add: al dead readOk_deleted[OF _ assms(2)])
qed

section \<open>Mutual exclusion\<close>

lemma writeLaw_cases:
  assumes "writeLaw v eff c" "c w = (r, w')"
  obtains x where "r = Inr x" "eff w w'" | e where "r = Inl e" "sameView v w w'" | e where "r = Inl e" "eff w w'"
  using assms unfolding writeLaw_def by (cases r) (metis (mono_tags, lifting) case_prod_conv sum.case)+

lemma readLaw_cases:
  assumes "readLaw v ok c" "c w = (r, w')"
  shows "sameView v w w'" and "r = Inr x \<Longrightarrow> ok w x"
proof -
  have "case c w of (Inr x, w') \<Rightarrow> sameView v w w' \<and> ok w x | (Inl _, w') \<Rightarrow> sameView v w w'"
    using assms(1) by (simp add: readLaw_def)
  then show "sameView v w w'" "r = Inr x \<Longrightarrow> ok w x" using assms(2) by (cases r; simp)+
qed

lemma readOk_current:
  "linv v s \<Longrightarrow> v_lease v (ls_w s) = Some l \<Longrightarrow> readOk v (ls_w s) l"
  by (simp add: linv_def leaseOk_def readOk_def)

lemma readOk_same: "sameView v w w' \<Longrightarrow> readOk v w' l = readOk v w l"
  by (simp add: readOk_def sameView_def)

text \<open>One API call of a \<open>Take\<close>: first what every call has in common, then the four calls.\<close>

lemma linv_taken:
  assumes inv: "linv v s" and pc: "th_pc (ls_thr s h) = Taking p"
    and w: "linv v (s\<lparr>ls_w := w'\<rparr>)" and ok: "pcOk v w' (bornIn s) h (th_held (ls_thr s h)) (Taking p')"
    and named: "\<And>x. p' = TakeDone (Inr (True, x)) \<Longrightarrow> namedBy v w' h"
  shows "linv v (setThr s h ((ls_thr s h)\<lparr>th_pc := Taking p'\<rparr>) w')"
proof (rule linv_setThr[OF w])
  have "wfHolder h" using linv_wf[OF inv, of h] pc by simp
  then show "threadOk v w' (bornIn s) h ((ls_thr s h)\<lparr>th_pc := Taking p'\<rparr>)"
    using linv_thread[OF w, of h] ok named linv_born[OF inv pc] by (intro threadOk_pc) auto
qed simp

lemma linv_takeCreate:
  assumes srv: "lease_server api ns name v" and inv: "linv v s"
    and pc: "th_pc (ls_thr s h) = Taking TakeCreate" and st: "takeStep api ns name h TakeCreate (ls_w s) = (p', w')"
  shows "linv v (setThr s h ((ls_thr s h)\<lparr>th_pc := Taking p'\<rparr>) w')"
proof -
  have wfh: "wfHolder h" using linv_wf[OF inv, of h] pc by simp
  note born = linv_born[OF inv pc]
  obtain r where c: "la_Create api ns name (HolderString h) (ls_w s) = (r, w')"
    using st by (auto split: prod.splits sum.splits)
  have law: "writeLaw v (\<lambda>w w'. createEffect v w (HolderString h) w') (la_Create api ns name (HolderString h))"
    using srv by (simp add: lease_server_def)
  from law c show ?thesis
  proof (cases rule: writeLaw_cases)
    case (1 x)
    then show ?thesis using linv_create[OF inv _ wfh born] st c by (intro linv_taken[OF inv pc]) auto
  next
    case (2 e)
    then show ?thesis using linv_same[OF inv] st c by (intro linv_taken[OF inv pc]) (auto split: if_splits)
  next
    case (3 e)
    then show ?thesis using linv_create[OF inv _ wfh born] st c
      by (intro linv_taken[OF inv pc]) (auto split: if_splits)
  qed
qed

lemma linv_takeGet:
  assumes srv: "lease_server api ns name v" and inv: "linv v s"
    and pc: "th_pc (ls_thr s h) = Taking TakeGet" and st: "takeStep api ns name h TakeGet (ls_w s) = (p', w')"
  shows "linv v (setThr s h ((ls_thr s h)\<lparr>th_pc := Taking p'\<rparr>) w')"
proof -
  obtain r where c: "la_Get api ns name (ls_w s) = (r, w')"
    using st by (auto split: prod.splits sum.splits)
  have law: "readLaw v (\<lambda>w l. v_lease v w = Some l) (la_Get api ns name)"
    using srv by (simp add: lease_server_def)
  note same = readLaw_cases(1)[OF law c]
  have w': "v_lease v w' = v_lease v (ls_w s)" using same by (simp add: sameView_def)
  note inv' = linv_same[OF inv same]
  show ?thesis
  proof (cases r)
    case (Inl e)
    then show ?thesis using st c by (intro linv_taken[OF inv pc inv']) (auto split: if_splits)
  next
    case (Inr cur)
    have lc: "v_lease v (ls_w s) = Some cur" using readLaw_cases(2)[OF law c Inr] .
    have ro: "readOk v w' cur" using readOk_current[OF inv lc] readOk_same[OF same] by simp
    have bo: "bornIn s k" if "l_holder cur = Some i" "ParseHolder i = Some k" for i k
      using inv lc that by (auto simp: linv_def leaseOk_def)
    have pe: "ParseHolder [] = None" by (simp add: ParseHolder_def numeral_3_eq_3)
    show ?thesis
      using st c Inr ro bo lc w' pe
      by (intro linv_taken[OF inv pc inv']) (auto simp: Let_def HolderString_def split: if_splits option.splits)
  qed
qed

lemma linv_takeAlive:
  assumes srv: "lease_server api ns name v" and inv: "linv v s"
    and pc: "th_pc (ls_thr s h) = Taking (TakeAlive l other owner)"
    and st: "takeStep api ns name h (TakeAlive l other owner) (ls_w s) = (p', w')"
  shows "linv v (setThr s h ((ls_thr s h)\<lparr>th_pc := Taking p'\<rparr>) w')"
proof -
  obtain r where c: "la_Alive api ns owner (ls_w s) = (r, w')"
    using st by (auto split: prod.splits sum.splits)
  have law: "readLaw v (\<lambda>w b. b = v_alive v w owner) (la_Alive api ns owner)"
    using srv by (simp add: lease_server_def)
  note same = readLaw_cases(1)[OF law c]
  have ok: "readOk v w' l" "l_holder l = Some other" "ParseHolder other = Some owner" "bornIn s owner"
    using linv_pc[OF inv, of h] pc readOk_same[OF same] by simp_all
  have al: "v_alive v w' = v_alive v (ls_w s)" using same by (simp add: sameView_def)
  show ?thesis
    using st c ok al readLaw_cases(2)[OF law c]
    by (intro linv_taken[OF inv pc linv_same[OF inv same]]) (auto split: sum.splits if_splits)
qed

lemma linv_takeUpdate:
  assumes srv: "lease_server api ns name v" and inv: "linv v s"
    and pc: "th_pc (ls_thr s h) = Taking (TakeUpdate l other owner)"
    and st: "takeStep api ns name h (TakeUpdate l other owner) (ls_w s) = (p', w')"
  shows "linv v (setThr s h ((ls_thr s h)\<lparr>th_pc := Taking p'\<rparr>) w')"
proof -
  have wfh: "wfHolder h" using linv_wf[OF inv, of h] pc by simp
  note born = linv_born[OF inv pc]
  let ?l = "l\<lparr>l_holder := Some (HolderString h)\<rparr>"
  obtain r where c: "la_Update api ns name ?l (ls_w s) = (r, w')"
    using st by (auto split: prod.splits sum.splits)
  have law: "writeLaw v (\<lambda>w w'. updateEffect v w ?l w') (la_Update api ns name ?l)"
    using srv by (simp add: lease_server_def)
  from law c show ?thesis
  proof (cases rule: writeLaw_cases)
    case (1 x)
    then show ?thesis using linv_takeover[OF inv _ wfh born pc] st c by (intro linv_taken[OF inv pc]) auto
  next
    case (2 e)
    then show ?thesis using linv_same[OF inv] st c by (intro linv_taken[OF inv pc]) (auto split: if_splits)
  next
    case (3 e)
    then show ?thesis using linv_takeover[OF inv _ wfh born pc] st c
      by (intro linv_taken[OF inv pc]) (auto split: if_splits)
  qed
qed

lemma linv_takeStep:
  assumes "lease_server api ns name v" "linv v s"
    and pc: "th_pc (ls_thr s h) = Taking p" and st: "takeStep api ns name h p (ls_w s) = (p', w')"
  shows "linv v (setThr s h ((ls_thr s h)\<lparr>th_pc := Taking p'\<rparr>) w')"
proof (cases p)
  case (TakeDone r)
  then show ?thesis using st pc assms(2) by (auto simp: setThr_same)
next
  case TakeCreate
  show ?thesis using linv_takeCreate[OF assms(1,2)] pc st unfolding TakeCreate by blast
next
  case TakeGet
  show ?thesis using linv_takeGet[OF assms(1,2)] pc st unfolding TakeGet by blast
next
  case (TakeAlive l other owner)
  show ?thesis using linv_takeAlive[OF assms(1,2)] pc st unfolding TakeAlive by blast
next
  case (TakeUpdate l other owner)
  show ?thesis using linv_takeUpdate[OF assms(1,2)] pc st unfolding TakeUpdate by blast
qed

text \<open>One API call of a \<open>Release\<close>.\<close>

lemma linv_released:
  assumes inv: "linv v s" and pc: "th_pc (ls_thr s h) = Releasing p"
    and w: "linv v (s\<lparr>ls_w := w'\<rparr>)"
    and ok: "\<And>l. p' = RelDelete l \<Longrightarrow> readOk v w' l \<and> l_holder l = Some (HolderString h)"
  shows "linv v (setThr s h ((ls_thr s h)\<lparr>th_pc := Releasing p'\<rparr>) w')"
proof (rule linv_setThr[OF w])
  have "wfHolder h" "\<not> th_held (ls_thr s h)" using linv_wf[OF inv, of h] linv_pc[OF inv, of h] pc by simp_all
  then show "threadOk v w' (bornIn s) h ((ls_thr s h)\<lparr>th_pc := Releasing p'\<rparr>)"
    using ok by (simp add: threadOk_def holds_def)
qed simp

lemma linv_relStep:
  assumes srv: "lease_server api ns name v" and inv: "linv v s"
    and pc: "th_pc (ls_thr s h) = Releasing p" and st: "relStep api ns name h p (ls_w s) = (p', w')"
  shows "linv v (setThr s h ((ls_thr s h)\<lparr>th_pc := Releasing p'\<rparr>) w')"
proof (cases p)
  case RelGet
  obtain r where c: "la_Get api ns name (ls_w s) = (r, w')"
    using st RelGet by (auto split: prod.splits sum.splits)
  have law: "readLaw v (\<lambda>w l. v_lease v w = Some l) (la_Get api ns name)"
    using srv by (simp add: lease_server_def)
  note same = readLaw_cases(1)[OF law c]
  have "readOk v w' l \<and> l_holder l = Some (HolderString h)" if "p' = RelDelete l" for l
  proof -
    from that st RelGet c have "r = Inr l" "l_holder l = Some (HolderString h)"
      by (auto split: sum.splits if_splits)
    then show ?thesis using readOk_current[OF inv readLaw_cases(2)[OF law c]] readOk_same[OF same] by simp
  qed
  then show ?thesis by (rule linv_released[OF inv pc linv_same[OF inv same]])
next
  case (RelDelete l)
  obtain r where c: "la_Delete api ns name (l_uid l) (l_rv l) (ls_w s) = (r, w')"
    using st RelDelete by (auto split: prod.splits sum.splits)
  have law: "writeLaw v (\<lambda>w w'. deleteEffect v w (l_rv l) w') (la_Delete api ns name (l_uid l) (l_rv l))"
    using srv by (simp add: lease_server_def)
  have nd: "p' \<noteq> RelDelete k" for k using st RelDelete c by (auto split: sum.splits if_splits)
  from law c have "linv v (s\<lparr>ls_w := w'\<rparr>)"
    by (cases rule: writeLaw_cases)
       (simp_all add: linv_delete[OF inv _ pc[unfolded RelDelete]] linv_same[OF inv])
  from linv_released[OF inv pc this] nd show ?thesis by blast
next
  case (RelDone r)
  then show ?thesis using st pc inv by (auto simp: setThr_same)
qed

text \<open>Every step of the interleaved system keeps the invariant.\<close>

lemma linv_env:
  assumes "linv v s" "v_lease v w' = v_lease v (ls_w s)" "v_used v (ls_w s) \<subseteq> v_used v w'"
    and alive: "\<forall>h. th_born (ls_thr s h) \<and> \<not> v_alive v (ls_w s) h \<longrightarrow> \<not> v_alive v w' h"
  shows "linv v (s\<lparr>ls_w := w'\<rparr>)"
proof (rule linvI)
  have b: "th_born (ls_thr s k)" if "holds (ls_thr s k)" for k
    using linv_thread[OF assms(1), of k] that unfolding threadOk_def holds_def by blast
  show "leaseOk v w' (bornIn s)" using assms(1-3) unfolding linv_def leaseOk_def by auto
  show "threadOk v w' (bornIn s) k (ls_thr s k)" for k
  proof (rule threadOk_world[OF linv_thread[OF assms(1)]])
    show "readOk v w' l" if "readOk v (ls_w s) l" for l using that assms(2,3) by (auto simp: readOk_def)
    show "namedBy v w' k" if "holds (ls_thr s k)" "v_alive v w' k"
      using holder_named(1)[OF assms(1) that(1)] alive b[OF that(1)] that assms(2) by auto
  qed (use alive in auto)
qed

lemma linv_birth:
  assumes "linv v s"
  shows "linv v (setThr s h ((ls_thr s h)\<lparr>th_born := True\<rparr>) (ls_w s))"
proof -
  have mono: "pcOk v w b k held p \<Longrightarrow> (\<And>x. b x \<Longrightarrow> b' x) \<Longrightarrow> pcOk v w b' k held p"
    for w b b' k held p by (cases "(v, w, b, k, held, p)" rule: pcOk.cases) auto
  let ?s = "setThr s h ((ls_thr s h)\<lparr>th_born := True\<rparr>) (ls_w s)"
  have b: "bornIn s x \<Longrightarrow> bornIn ?s x" for x by (simp add: setThr_def)
  have "leaseOk v (ls_w s) (bornIn ?s)" using assms b unfolding linv_def leaseOk_def by blast
  moreover have "threadOk v (ls_w s) (bornIn ?s) k (ls_thr s k)" for k
  proof -
    have "pcOk v (ls_w s) (bornIn ?s) k (th_held (ls_thr s k)) (th_pc (ls_thr s k))"
      by (rule mono[OF linv_pc[OF assms]]) (rule b)
    then show ?thesis using linv_thread[OF assms, of k] b[of k] unfolding threadOk_def by blast
  qed
  moreover from this[of h] have "threadOk v (ls_w s) (bornIn ?s) h ((ls_thr s h)\<lparr>th_born := True\<rparr>)"
    by (simp add: threadOk_def holds_def)
  ultimately show ?thesis by (simp add: linv_def setThr_def)
qed

lemma linv_self: "linv v s \<Longrightarrow> linv v (s\<lparr>ls_w := ls_w s\<rparr>)"
  by simp

lemma linv_step:
  assumes srv: "lease_server api ns name v" and inv: "linv v s" and st: "lstep api ns name v s s'"
  shows "linv v s'"
  using st
proof (cases rule: lstep.cases)
  case (env w')
  then show ?thesis using linv_env[OF inv] by blast
next
  case (birth h)
  then show ?thesis using linv_birth[OF inv] by blast
next
  case (take_start h)
  then show ?thesis using linv_thread[OF inv, of h]
    by (auto intro!: linv_setThr[OF linv_self[OF inv]] threadOk_pc)
next
  case (take_step h p p' w')
  then show ?thesis using linv_takeStep[OF srv inv] by blast
next
  case (take_end h r)
  have "threadOk v (ls_w s) (bornIn s) h
      ((ls_thr s h)\<lparr>th_pc := Idle, th_held := heldAfter (th_held (ls_thr s h)) r\<rparr>)"
    using linv_thread[OF inv, of h] take_end(2)
    by (auto simp: threadOk_def holds_def heldAfter_def split: sum.splits)
  then show ?thesis using take_end(1) by (auto intro!: linv_setThr[OF linv_self[OF inv]])
next
  case (rel_start h)
  then show ?thesis using linv_thread[OF inv, of h]
    by (auto intro!: linv_setThr[OF linv_self[OF inv]] simp: threadOk_def holds_def)
next
  case (rel_step h p p' w')
  then show ?thesis using linv_relStep[OF srv inv] by blast
next
  case (rel_end h r)
  then show ?thesis using linv_thread[OF inv, of h]
    by (auto intro!: linv_setThr[OF linv_self[OF inv]] simp: threadOk_def holds_def)
next
  case (crash h)
  then show ?thesis using linv_thread[OF inv, of h]
    by (auto intro!: linv_setThr[OF linv_self[OF inv]] simp: threadOk_def holds_def)
qed

lemma lease_invariant:
  assumes "lease_server api ns name v"
  shows "inductive_invariant (linit v) (lstep api ns name v) (linv v)"
proof
  show "linv v s" if "linit v s" for s
    using that by (auto simp: linit_def linv_def leaseOk_def threadOk_def holds_def)
  show "linv v s'" if "linv v s" "lstep api ns name v s s'" for s s'
    using linv_step[OF assms that] .
qed

text \<open>C1. Mutual exclusion. Whatever the interleaving of the API calls of any number of runs that
  take and release one Lease, of run deletions and completions, of lost replies and of controller
  crashes: two runs that both hold the Lease and are both alive are the same run.\<close>

theorem lease_mutual_exclusion:
  assumes "lease_server api ns name v"
    and "reachable (linit v) (lstep api ns name v) s"
    and "th_held (ls_thr s h)" "v_alive v (ls_w s) h"
    and "th_held (ls_thr s k)" "v_alive v (ls_w s) k"
  shows "h = k"
proof -
  from inductive_invariant.reachable_inv[OF lease_invariant[OF assms(1)] assms(2)]
  have inv: "linv v s" .
  have hold: "holds (ls_thr s h)" "holds (ls_thr s k)" using assms by (simp_all add: holds_def)
  note nh = holder_named[OF inv hold(1) assms(4)] and nk = holder_named[OF inv hold(2) assms(6)]
  from nh(1) nk(1) have "HolderString h = HolderString k" by auto
  then show ?thesis using HolderString_inject nh(2) nk(2) by simp
qed

section \<open>One call\<close>

lemma writeLawD: "writeLaw v eff c \<Longrightarrow> c w = (r, w') \<Longrightarrow> eff w w' \<or> (\<exists>e. r = Inl e) \<and> sameView v w w'"
  by (erule (1) writeLaw_cases) auto

lemma readLawD: "readLaw v ok c \<Longrightarrow> c w = (r, w') \<Longrightarrow> sameView v w w' \<and> (\<forall>x. r = Inr x \<longrightarrow> ok w x)"
  using readLaw_cases(1)[of v ok c w r w'] readLaw_cases(2)[of v ok c w r w'] by simp

lemma server_laws:
  assumes "lease_server api ns name v"
  shows "la_Create api ns name i w = (r, w') \<Longrightarrow>
           createEffect v w i w' \<or> (\<exists>e. r = Inl e) \<and> sameView v w w'"
    and "la_Get api ns name w = (r', w') \<Longrightarrow> sameView v w w' \<and> (\<forall>l. r' = Inr l \<longrightarrow> v_lease v w = Some l)"
    and "la_Update api ns name l w = (r, w') \<Longrightarrow>
           updateEffect v w l w' \<or> (\<exists>e. r = Inl e) \<and> sameView v w w'"
    and "la_Delete api ns name uid rv w = (r, w') \<Longrightarrow>
           deleteEffect v w rv w' \<or> (\<exists>e. r = Inl e) \<and> sameView v w w'"
    and "la_Alive api ns h w = (r'', w') \<Longrightarrow> sameView v w w' \<and> (\<forall>b. r'' = Inr b \<longrightarrow> b = v_alive v w h)"
proof -
  note laws = assms[unfolded lease_server_def]
  have cr: "writeLaw v (\<lambda>w w'. createEffect v w i w') (la_Create api ns name i)"
    and gt: "readLaw v (\<lambda>w l. v_lease v w = Some l) (la_Get api ns name)"
    and up: "writeLaw v (\<lambda>w w'. updateEffect v w l w') (la_Update api ns name l)"
    and de: "writeLaw v (\<lambda>w w'. deleteEffect v w rv w') (la_Delete api ns name uid rv)"
    and al: "readLaw v (\<lambda>w b. b = v_alive v w h) (la_Alive api ns h)"
    using laws by auto
  show "la_Create api ns name i w = (r, w') \<Longrightarrow> createEffect v w i w' \<or> (\<exists>e. r = Inl e) \<and> sameView v w w'"
    by (rule writeLawD[OF cr])
  show "la_Get api ns name w = (r', w') \<Longrightarrow> sameView v w w' \<and> (\<forall>l. r' = Inr l \<longrightarrow> v_lease v w = Some l)"
    by (rule readLawD[OF gt])
  show "la_Update api ns name l w = (r, w') \<Longrightarrow> updateEffect v w l w' \<or> (\<exists>e. r = Inl e) \<and> sameView v w w'"
    by (rule writeLawD[OF up])
  show "la_Delete api ns name uid rv w = (r, w') \<Longrightarrow> deleteEffect v w rv w' \<or> (\<exists>e. r = Inl e) \<and> sameView v w w'"
    by (rule writeLawD[OF de])
  show "la_Alive api ns h w = (r'', w') \<Longrightarrow> sameView v w w' \<and> (\<forall>b. r'' = Inr b \<longrightarrow> b = v_alive v w h)"
    by (rule readLawD[OF al])
qed

text \<open>A \<open>Take\<close> that returns true leaves the Lease naming the caller, and it got there from no
  Lease, from the caller's own Lease, or from the Lease of a run that no longer needs it; a Lease
  held by a live run or by something that is not a run of this controller is never taken.\<close>

theorem Take_true:
  assumes srv: "lease_server api ns name v" and take: "Take api ns name h w = (Inr (True, x), w')"
  shows "namedBy v w' h \<and>
    (v_lease v w = None \<or> namedBy v w h \<or>
     (\<exists>l i owner. v_lease v w = Some l \<and> l_holder l = Some i \<and> ParseHolder i = Some owner \<and> \<not> v_alive v w owner))"
proof -
  obtain r1 w1 where c: "la_Create api ns name (HolderString h) w = (r1, w1)" by fastforce
  note c' = server_laws(1)[OF srv c]
  show ?thesis
  proof (cases r1)
    case (Inr u)
    then have "w' = w1" using take c by (simp add: Take_def Let_def call_simps)
    then show ?thesis using c' Inr by (auto simp: createEffect_def storedNew_def)
  next
    case (Inl e)
    obtain r2 w2 where g: "la_Get api ns name w1 = (r2, w2)" by fastforce
    note g' = server_laws(2)[OF srv g]
    from take c Inl g obtain cur where cur: "r2 = Inr cur"
      by (cases r2) (auto simp: Take_def Let_def call_simps split: if_splits)
    then have lc: "v_lease v w1 = Some cur" "sameView v w1 w2" using g' by auto
    show ?thesis
    proof (cases "l_holder cur = Some (HolderString h)")
      case True
      then have "w' = w2" using take c Inl g cur by (simp add: Take_def Let_def call_simps split: if_splits)
      then show ?thesis using c' lc True by (auto simp: createEffect_def sameView_def)
    next
      case False
      then have same1: "sameView v w w1" using c' lc by (auto simp: createEffect_def storedNew_def)
      from take c Inl g cur False obtain i owner w3 u where
        i: "l_holder cur = Some i" "ParseHolder i = Some owner" and
        al: "la_Alive api ns owner w2 = (Inr False, w3)" and
        up: "la_Update api ns name (cur\<lparr>l_holder := Some (HolderString h)\<rparr>) w3 = (Inr u, w')"
        by (auto simp: Take_def Let_def call_simps HolderString_def ParseHolder_def numeral_3_eq_3
            split: if_splits option.splits prod.splits sum.splits)
      from server_laws(5)[OF srv al] server_laws(3)[OF srv up] lc same1 i
      show ?thesis by (auto simp: sameView_def updateEffect_def storedNew_def)
    qed
  qed
qed

text \<open>\<open>Release\<close> never takes a Lease from another run: afterwards the Lease is as it was, or it
  was the caller's own and is gone.\<close>

theorem Release_own_only:
  assumes srv: "lease_server api ns name v" and rel: "Release api ns name h w = (r, w')"
  shows "v_lease v w' = v_lease v w \<or> namedBy v w h \<and> v_lease v w' = None"
proof -
  obtain r1 w1 where g: "la_Get api ns name w = (r1, w1)" by fastforce
  note g' = server_laws(2)[OF srv g]
  show ?thesis
  proof (cases "\<exists>cur. r1 = Inr cur \<and> l_holder cur = Some (HolderString h)")
    case True
    then obtain cur where cur: "r1 = Inr cur" "l_holder cur = Some (HolderString h)" by blast
    obtain r2 w2 where d: "la_Delete api ns name (l_uid cur) (l_rv cur) w1 = (r2, w2)" by fastforce
    have "w' = w2" using rel g cur d
      by (auto simp: Release_def Let_def call_simps split: sum.splits if_splits)
    then show ?thesis using server_laws(4)[OF srv d] g' cur by (auto simp: deleteEffect_def sameView_def)
  next
    case False
    then have "w' = w1" using rel g by (auto simp: Release_def Let_def call_simps split: sum.splits if_splits)
    then show ?thesis using g' by (auto simp: sameView_def)
  qed
qed

text \<open>A server in memory that keeps the promises, and a run of it.\<close>

record memW =
  mw_lease :: "lease option"
  mw_next :: nat
  mw_alive :: "holder list"

definition memStore :: "string option \<Rightarrow> memW \<Rightarrow> memW" where
  "memStore i w = w\<lparr>mw_lease := Some \<lparr>l_holder = i, l_uid = ''u'', l_rv = natStr (mw_next w)\<rparr>, mw_next := Suc (mw_next w)\<rparr>"

definition memCurrent :: "string \<Rightarrow> memW \<Rightarrow> bool" where
  "memCurrent rv w = (case mw_lease w of Some l \<Rightarrow> l_rv l = rv | None \<Rightarrow> False)"

definition memApi :: "memW leaseApi" where
  "memApi = \<lparr>
     la_Create = (\<lambda>ns name i w. if mw_lease w = None then (Inr (), memStore (Some i) w) else (Inl (AlreadyExists ''exists''), w)),
     la_Get = (\<lambda>ns name w. case mw_lease w of Some l \<Rightarrow> (Inr l, w) | None \<Rightarrow> (Inl (NotFound ''gone''), w)),
     la_Update = (\<lambda>ns name l w. if memCurrent (l_rv l) w then (Inr (), memStore (l_holder l) w) else (Inl (Conflict ''old''), w)),
     la_Delete = (\<lambda>ns name uid rv w. if memCurrent rv w then (Inr (), w\<lparr>mw_lease := None\<rparr>) else (Inl (Conflict ''old''), w)),
     la_Alive = (\<lambda>ns h w. (Inr (h \<in> set (mw_alive w)), w))\<rparr>"

definition memView :: "memW leaseView" where
  "memView = \<lparr>v_lease = mw_lease, v_used = (\<lambda>w. natStr ` {..<mw_next w}), v_alive = (\<lambda>w h. h \<in> set (mw_alive w))\<rparr>"

lemma natStr_inject [simp]: "natStr a = natStr b \<longleftrightarrow> a = b"
  by (metis decVal_natStr of_nat_eq_iff)

lemma storedNew_mem: "storedNew memView w i (memStore i w)"
  by (auto simp: storedNew_def memView_def memStore_def)

lemma sameView_refl: "sameView v w w"
  by (simp add: sameView_def)

lemma memApi_server: "lease_server memApi ns name memView"
proof -
  have "writeLaw memView (\<lambda>w w'. createEffect memView w i w') (la_Create memApi ns name i)" for i
    using storedNew_mem by (simp add: writeLaw_def memApi_def sameView_refl createEffect_def) (simp add: memView_def)
  moreover have "writeLaw memView (\<lambda>w w'. updateEffect memView w l w') (la_Update memApi ns name l)" for l
    using storedNew_mem by (simp add: writeLaw_def memApi_def sameView_refl updateEffect_def memCurrent_def)
      (simp add: memView_def split: option.splits)
  moreover have "writeLaw memView (\<lambda>w w'. deleteEffect memView w rv w') (la_Delete memApi ns name uid rv)" for uid rv
    by (simp add: writeLaw_def memApi_def sameView_refl deleteEffect_def memCurrent_def memView_def split: option.splits)
  moreover have "readLaw memView (\<lambda>w l. v_lease memView w = Some l) (la_Get memApi ns name)"
    by (simp add: readLaw_def memApi_def sameView_refl memView_def split: option.splits)
  moreover have "readLaw memView (\<lambda>w b. b = v_alive memView w h) (la_Alive memApi ns h)" for h
    by (simp add: readLaw_def memApi_def sameView_refl memView_def)
  ultimately show ?thesis by (simp add: lease_server_def)
qed

definition runA :: holder where
  "runA = \<lparr>h_Kind = ''BackupRun'', h_Name = ''nightly'', h_UID = ''1''\<rparr>"

definition mem0 :: "memW lsys" where
  "mem0 = \<lparr>ls_w = \<lparr>mw_lease = None, mw_next = 0, mw_alive = [runA]\<rparr>,
           ls_thr = (\<lambda>h. \<lparr>th_born = (h = runA), th_held = False, th_pc = Idle\<rparr>)\<rparr>"

definition mem1 :: "memW lsys" where
  "mem1 = setThr mem0 runA \<lparr>th_born = True, th_held = False, th_pc = Taking TakeCreate\<rparr> (ls_w mem0)"

definition mem2 :: "memW lsys" where
  "mem2 = setThr mem1 runA \<lparr>th_born = True, th_held = False, th_pc = Taking (TakeDone (Inr (True, [])))\<rparr>
            (memStore (Some (HolderString runA)) (ls_w mem0))"

definition mem3 :: "memW lsys" where
  "mem3 = setThr mem2 runA \<lparr>th_born = True, th_held = True, th_pc = Idle\<rparr> (ls_w mem2)"

lemma mem3_reachable: "reachable (linit memView) (lstep memApi ns name memView) mem3"
proof -
  have "reachable (linit memView) (lstep memApi ns name memView) mem0"
    by (rule reach_init) (simp add: linit_def mem0_def memView_def)
  moreover have "lstep memApi ns name memView mem0 mem1"
    using lstep.take_start[of mem0 runA memApi ns name memView] by (simp add: mem1_def mem0_def wfHolder_def runA_def)
  moreover have "lstep memApi ns name memView mem1 mem2"
    using lstep.take_step[of mem1 runA TakeCreate memApi ns name _ _ memView]
    by (simp add: mem2_def mem1_def setThr_def memApi_def mem0_def)
  moreover have "lstep memApi ns name memView mem2 mem3"
    using lstep.take_end[of mem2 runA "Inr (True, [])" memApi ns name memView]
    by (simp add: mem3_def mem2_def setThr_def heldAfter_def)
  ultimately show ?thesis by (blast intro: reach_step)
qed

theorem lease_mutual_exclusion_witness:
  "lease_server memApi ''app'' ''backup-pause'' memView \<and>
   reachable (linit memView) (lstep memApi ''app'' ''backup-pause'' memView) mem3 \<and>
   {k. th_held (ls_thr mem3 k) \<and> v_alive memView (ls_w mem3) k} = {runA}"
proof -
  have a: "th_held (ls_thr mem3 runA)" "v_alive memView (ls_w mem3) runA"
    by (simp_all add: mem3_def mem2_def mem1_def mem0_def setThr_def memView_def memStore_def)
  have "k = runA" if "th_held (ls_thr mem3 k)" "v_alive memView (ls_w mem3) k" for k
    using lease_mutual_exclusion[OF memApi_server mem3_reachable that a] .
  with a show ?thesis by (auto simp: memApi_server mem3_reachable)
qed

text \<open>A Lease left behind by a run that is gone.\<close>

definition memStale :: memW where
  "memStale = \<lparr>mw_lease = Some \<lparr>l_holder = Some ''BackupRun/old/0'', l_uid = ''u'', l_rv = ''0''\<rparr>, mw_next = 1,
               mw_alive = [runA]\<rparr>"

lemma take_stale: "\<exists>w'. Take memApi ns name runA memStale = (Inr (True, []), w')"
  by (simp add: Take_def Let_def call_simps memApi_def memStale_def HolderString_def runA_def memCurrent_def
      ParseHolder_def numeral_3_eq_3)

theorem Take_true_witness:
  "\<exists>w'. Take memApi ''app'' ''backup-pause'' runA memStale = (Inr (True, []), w') \<and> namedBy memView w' runA"
  using take_stale[of "''app''" "''backup-pause''"] Take_true[OF memApi_server] by blast

theorem Release_own_only_witness:
  "\<exists>w'. Release memApi ''app'' ''backup-pause'' runA memStale = (Inr (), w') \<and> v_lease memView w' = v_lease memView memStale"
proof -
  have r: "Release memApi ''app'' ''backup-pause'' runA memStale = (Inr (), memStale)"
    by (simp add: Release_def Let_def call_simps memApi_def memStale_def HolderString_def runA_def)
  have "\<not> namedBy memView memStale runA" by (simp add: memView_def memStale_def HolderString_def runA_def)
  with Release_own_only[OF memApi_server r] r show ?thesis by blast
qed

end
