(* ===== verification/Crypto.thy ===== *)
theory Crypto
  imports Snapshots
begin

text \<open>
  The encryption of a restic repository's files and the reading of its keys, from
  \<open>src/internal/restic/crypto.go\<close>. A byte string is a list of characters.

  AES, CTR mode, Poly1305, scrypt, zstd, SHA-256, the random source and the JSON codec are
  fields of the parameter \<open>resticEnv\<close>, as are the files of the repository (the \<open>Store\<close>
  interface of \<open>repository.go\<close>), the clock and the process's host name and ID. What a
  property needs of them is stated with it.
\<close>

definition ivSize :: nat where "ivSize = 16"
definition macSize :: nat where "macSize = 16"

record key =
  k_encrypt :: string
  k_macK :: string
  k_macR :: string

record masterKeyJSON =
  mk_K :: string
  mk_R :: string
  mk_Encrypt :: string

record keyFile =
  kf_KDF :: string
  kf_N :: int
  kf_R :: int
  kf_P :: int
  kf_Salt :: string
  kf_Data :: string

record snapshotJSON =
  sj_Time :: gtime
  sj_Paths :: "string list"
  sj_Tags :: "string list"
  sj_Original :: string

record lockJSON =
  lj_Time :: gtime
  lj_Exclusive :: bool
  lj_Hostname :: string
  lj_Username :: string
  lj_PID :: int

record snapshotFile =
  sf_snapshot :: snapshot
  sf_fields :: smap

record 'w resticEnv =
  re_List :: "string \<Rightarrow> ('w, string list) call"
  re_Get :: "string \<Rightarrow> ('w, string) call"
  re_Put :: "string \<Rightarrow> string \<Rightarrow> ('w, unit) call"
  re_Remove :: "string \<Rightarrow> ('w, unit) call"
  re_rand :: "nat \<Rightarrow> ('w, string) call"
  re_aes :: "string \<Rightarrow> string \<Rightarrow> string"
  re_ctr :: "string \<Rightarrow> string \<Rightarrow> string \<Rightarrow> string"
  re_poly1305 :: "string \<Rightarrow> string \<Rightarrow> string"
  re_scrypt :: "string \<Rightarrow> string \<Rightarrow> int \<Rightarrow> int \<Rightarrow> int \<Rightarrow> nat \<Rightarrow> gerr + string"
  re_zstdReader :: "gerr + (string \<Rightarrow> gerr + string)"
  re_sha256 :: "string \<Rightarrow> string"
  re_decKeyFile :: "string \<Rightarrow> gerr + keyFile"
  re_decMaster :: "string \<Rightarrow> gerr + masterKeyJSON"
  re_decSnapshot :: "string \<Rightarrow> gerr + snapshotJSON"
  re_decFields :: "string \<Rightarrow> gerr + smap"
  re_encTime :: "gtime \<Rightarrow> gerr + string"
  re_encStrings :: "string list \<Rightarrow> gerr + string"
  re_encString :: "string \<Rightarrow> gerr + string"
  re_encFields :: "smap \<Rightarrow> gerr + string"
  re_decLock :: "string \<Rightarrow> gerr + lockJSON"
  re_encLock :: "lockJSON \<Rightarrow> gerr + string"
  re_sortFiles :: "snapshotFile list \<Rightarrow> snapshotFile list"
  re_now :: "('w, gtime) call"
  re_wait :: "('w, unit) call"
  re_hostname :: string
  re_pid :: int

text \<open>\<open>aes.NewCipher\<close> accepts keys of 16, 24 and 32 bytes.\<close>

definition newCipher :: "string \<Rightarrow> gerr + unit" where
  "newCipher k = (if length k \<in> {16, 24, 32} then Inr ()
     else Inl (Plain (''crypto/aes: invalid key size '' @ natStr (length k))))"

definition keyMac :: "'w resticEnv \<Rightarrow> key \<Rightarrow> string \<Rightarrow> string \<Rightarrow> gerr + string" where
  "keyMac env k iv message =
     bindE (wrapE ''build the MAC cipher: '' (newCipher (k_macK k))) (\<lambda>_.
       Inr (re_poly1305 env message (k_macR k @ re_aes env (k_macK k) iv)))"

definition keyDecrypt :: "'w resticEnv \<Rightarrow> key \<Rightarrow> string \<Rightarrow> gerr + string" where
  "keyDecrypt env k sealed =
     (if length sealed < ivSize + macSize
      then Inl (Plain (''an encrypted file of '' @ natStr (length sealed) @ '' bytes is shorter than its overhead''))
      else
        let iv = take ivSize sealed;
            ciphertext = take (length sealed - macSize - ivSize) (drop ivSize sealed);
            mac = drop (length sealed - macSize) sealed
        in bindE (keyMac env k iv ciphertext) (\<lambda>want.
           if want \<noteq> mac then Inl ErrWrongKey
           else bindE (wrapE ''build the AES cipher: '' (newCipher (k_encrypt k))) (\<lambda>_.
                Inr (re_ctr env (k_encrypt k) iv ciphertext))))"

definition keySeal :: "'w resticEnv \<Rightarrow> key \<Rightarrow> string \<Rightarrow> ('w, string) call" where
  "keySeal env k plain =
     bindM (wrapM ''draw an IV: '' (re_rand env ivSize)) (\<lambda>iv.
     bindM (liftE (wrapE ''build the AES cipher: '' (newCipher (k_encrypt k)))) (\<lambda>_.
     let ciphertext = re_ctr env (k_encrypt k) iv plain in
     bindM (liftE (keyMac env k iv ciphertext)) (\<lambda>mac.
     ret (iv @ ciphertext @ mac))))"

definition deriveKey :: "'w resticEnv \<Rightarrow> string \<Rightarrow> keyFile \<Rightarrow> gerr + key" where
  "deriveKey env password file =
     (if kf_KDF file \<noteq> ''scrypt''
      then Inl (Plain (''key file uses kdf '' @ quote (kf_KDF file) @ '', and only scrypt is supported''))
      else bindE (wrapE ''derive the key: '' (re_scrypt env password (kf_Salt file) (kf_N file) (kf_R file) (kf_P file) 64)) (\<lambda>raw.
        Inr \<lparr>k_encrypt = take 32 raw, k_macK = take 16 (drop 32 raw), k_macR = take 16 (drop 48 raw)\<rparr>))"

definition masterKey :: "'w resticEnv \<Rightarrow> string \<Rightarrow> string \<Rightarrow> gerr + key" where
  "masterKey env password raw =
     bindE (wrapE ''decode the key file: '' (re_decKeyFile env raw)) (\<lambda>file.
     bindE (deriveKey env password file) (\<lambda>derived.
     bindE (keyDecrypt env derived (kf_Data file)) (\<lambda>plain.
     bindE (wrapE ''decode the master key: '' (re_decMaster env plain)) (\<lambda>doc.
     if length (mk_Encrypt doc) \<noteq> 32 \<or> length (mk_K doc) \<noteq> 16 \<or> length (mk_R doc) \<noteq> 16
     then Inl (Plain ''the master key has the wrong length'')
     else Inr \<lparr>k_encrypt = mk_Encrypt doc, k_macK = mk_K doc, k_macR = mk_R doc\<rparr>))))"

definition unpack :: "'w resticEnv \<Rightarrow> string \<Rightarrow> gerr + string" where
  "unpack env plain =
     (case plain of
        [] \<Rightarrow> Inl (Plain ''the file is empty'')
      | c # rest \<Rightarrow>
          if c = CHR ''{'' \<or> c = CHR ''['' then Inr plain
          else if c = CHR 0x02 then
            bindE (wrapE ''build the zstd decoder: '' (re_zstdReader env)) (\<lambda>decodeAll.
              wrapE ''decompress: '' (decodeAll rest))
          else Inl (Plain (''unknown encoding version '' @ natStr (of_char c))))"

section \<open>Keys and files\<close>

definition wfKey :: "key \<Rightarrow> bool" where
  "wfKey k = (length (k_encrypt k) = 32 \<and> length (k_macK k) = 16 \<and> length (k_macR k) = 16)"

text \<open>What \<open>seal\<close> relies on: the random source fills the IV, CTR mode keeps the length and is
  its own inverse, and a Poly1305 tag has 16 bytes.\<close>

definition cipher_laws :: "'w resticEnv \<Rightarrow> bool" where
  "cipher_laws env =
     ((\<forall>k iv d. re_ctr env k iv (re_ctr env k iv d) = d \<and> length (re_ctr env k iv d) = length d) \<and>
      (\<forall>m k. length (re_poly1305 env m k) = macSize) \<and>
      (\<forall>n w. case re_rand env n w of (Inr iv, _) \<Rightarrow> length iv = n | (Inl _, _) \<Rightarrow> True))"

lemma newCipher_wfKey: "wfKey k \<Longrightarrow> newCipher (k_encrypt k) = Inr () \<and> newCipher (k_macK k) = Inr ()"
  by (simp add: wfKey_def newCipher_def)

lemma masterKey_wf:
  assumes "masterKey env password raw = Inr k"
  shows "wfKey k"
  using assms by (auto simp: masterKey_def bindE_def wrapE_def wfKey_def split: sum.splits if_splits)

lemma keySeal_Inr:
  assumes "wfKey k" "keySeal env k plain w = (Inr sealed, w')"
  obtains iv mac where "re_rand env ivSize w = (Inr iv, w')"
    and "keyMac env k iv (re_ctr env (k_encrypt k) iv plain) = Inr mac"
    and "sealed = iv @ re_ctr env (k_encrypt k) iv plain @ mac"
  using assms newCipher_wfKey[OF assms(1)]
  by (auto simp: keySeal_def Let_def bindM_Inr_iff liftE_def ret_def)

text \<open>Whatever IV is drawn, a file that \<open>seal\<close> wrote under a key of the right lengths is
  longer than its overhead and \<open>decrypt\<close> under the same key gives the plaintext back.\<close>

theorem decrypt_seal:
  assumes "cipher_laws env" "wfKey k" "keySeal env k plain w = (Inr sealed, w')"
  shows "keyDecrypt env k sealed = Inr plain \<and> length sealed = length plain + ivSize + macSize"
proof -
  from keySeal_Inr[OF assms(2,3)] obtain iv mac where
    iv: "re_rand env ivSize w = (Inr iv, w')" and
    mac: "keyMac env k iv (re_ctr env (k_encrypt k) iv plain) = Inr mac" and
    sealed: "sealed = iv @ re_ctr env (k_encrypt k) iv plain @ mac" by blast
  have "case re_rand env ivSize w of (Inr iv, _) \<Rightarrow> length iv = ivSize | (Inl _, _) \<Rightarrow> True"
    using assms(1) unfolding cipher_laws_def by (elim conjE allE)
  then have ivl: "length iv = ivSize" using iv by simp
  have len: "length mac = macSize"
      "length (re_ctr env (k_encrypt k) iv plain) = length plain"
      and inv: "re_ctr env (k_encrypt k) iv (re_ctr env (k_encrypt k) iv plain) = plain"
    using assms(1) iv mac newCipher_wfKey[OF assms(2)] by (auto simp: cipher_laws_def keyMac_def)
  then show ?thesis using newCipher_wfKey[OF assms(2)] mac ivl
    by (simp add: keyDecrypt_def sealed Let_def)
qed

text \<open>A file whose MAC does not verify is refused as a wrong key before anything is decrypted,
  and a file shorter than its overhead is refused as well: \<open>decrypt\<close> never returns bytes that the
  key's MAC does not cover.\<close>

theorem decrypt_authentic:
  assumes "wfKey k" "keyDecrypt env k sealed = Inr plain"
  shows "ivSize + macSize \<le> length sealed \<and>
    (let iv = take ivSize sealed; body = take (length sealed - macSize - ivSize) (drop ivSize sealed)
     in keyMac env k iv body = Inr (drop (length sealed - macSize) sealed) \<and> plain = re_ctr env (k_encrypt k) iv body)"
  using assms newCipher_wfKey[OF assms(1)]
  by (auto simp: keyDecrypt_def Let_def keyMac_def split: if_splits)

text \<open>An environment in which every call fails, to build concrete ones from.\<close>

definition env0 :: "'w resticEnv" where
  "env0 = \<lparr>re_List = (\<lambda>_. failM (ApiOther [])), re_Get = (\<lambda>_. failM (ApiOther [])),
     re_Put = (\<lambda>_ _. failM (ApiOther [])), re_Remove = (\<lambda>_. failM (ApiOther [])),
     re_rand = (\<lambda>n. ret (replicate n (CHR ''r''))), re_aes = (\<lambda>k b. b), re_ctr = (\<lambda>k iv d. d),
     re_poly1305 = (\<lambda>m k. replicate 16 (CHR ''m'')), re_scrypt = (\<lambda>_ _ _ _ _ _. Inl (Plain [])),
     re_zstdReader = Inl (Plain []), re_sha256 = (\<lambda>d. replicate 32 (CHR ''a'')),
     re_decKeyFile = (\<lambda>_. Inl (Plain [])), re_decMaster = (\<lambda>_. Inl (Plain [])),
     re_decSnapshot = (\<lambda>_. Inl (Plain [])), re_decFields = (\<lambda>_. Inl (Plain [])),
     re_encTime = (\<lambda>_. Inl (Plain [])), re_encStrings = (\<lambda>_. Inl (Plain [])),
     re_encString = (\<lambda>_. Inl (Plain [])), re_encFields = (\<lambda>_. Inl (Plain [])),
     re_decLock = (\<lambda>_. Inl (Plain [])), re_encLock = (\<lambda>_. Inl (Plain [])),
     re_sortFiles = (\<lambda>fs. fs), re_now = ret 0, re_wait = ret (), re_hostname = ''host'', re_pid = 1\<rparr>"

definition key0 :: key where
  "key0 = \<lparr>k_encrypt = replicate 32 (CHR ''k''), k_macK = replicate 16 (CHR ''k''), k_macR = replicate 16 (CHR ''k'')\<rparr>"

lemma cipher_laws_env0: "cipher_laws env0"
  by (simp add: cipher_laws_def env0_def macSize_def ret_def)

lemma wfKey_key0: "wfKey key0"
  by (simp add: wfKey_def key0_def)

lemma keySeal_env0: "\<exists>sealed. keySeal env0 key0 d w = (Inr sealed, w)"
  by (simp add: keySeal_def keyMac_def env0_def key0_def newCipher_def call_simps)

theorem decrypt_seal_witness:
  "\<exists>sealed. keySeal env0 key0 ''abc'' (0::nat) = (Inr sealed, 0) \<and> keyDecrypt (env0 :: nat resticEnv) key0 sealed = Inr ''abc''"
proof -
  obtain sealed where s: "keySeal env0 key0 ''abc'' (0::nat) = (Inr sealed, 0)"
    using keySeal_env0[of "''abc''" "0::nat"] by blast
  from decrypt_seal[OF cipher_laws_env0 wfKey_key0 s] s show ?thesis by blast
qed

theorem decrypt_authentic_witness:
  "\<exists>plain. keyDecrypt (env0 :: nat resticEnv) key0 (replicate 16 (CHR ''r'') @ ''x'' @ replicate 16 (CHR ''m'')) = Inr plain \<and>
     keyMac (env0 :: nat resticEnv) key0 (replicate 16 (CHR ''r'')) ''x'' = Inr (replicate 16 (CHR ''m''))"
proof -
  let ?s = "replicate 16 (CHR ''r'') @ ''x'' @ replicate 16 (CHR ''m'')"
  have "keyDecrypt (env0 :: nat resticEnv) key0 ?s = Inr ''x''"
    by (simp add: keyDecrypt_def keyMac_def env0_def key0_def newCipher_def ivSize_def macSize_def Let_def)
  with decrypt_authentic[OF wfKey_key0 this] show ?thesis by (simp add: ivSize_def macSize_def Let_def)
qed

end
