(* ===== verification/Repository.thy ===== *)
theory Repository
  imports Crypto
begin

text \<open>
  Reading and writing the documents of a repository, from \<open>src/internal/restic/repository.go\<close>,
  and opening it with and without the key cache of \<open>keycache.go\<close>.

  A \<open>Repository\<close> is its store and its master key; the store is part of the environment
  \<open>resticEnv\<close>, so a repository is represented by its master key. \<open>snapshotFiles\<close> reads its
  documents one after the other, where the code reads up to eight at once; the reads change
  nothing, and the code returns one of the errors when several reads fail.
\<close>

definition pathJoin :: "string \<Rightarrow> string \<Rightarrow> string" where
  "pathJoin dir name = dir @ ''/'' @ name"

definition hexEncode :: "string \<Rightarrow> string" where
  "hexEncode bs = concat (map (\<lambda>b. [hexDigit (of_char b div 16), hexDigit (of_char b mod 16)]) bs)"

definition parseSnapshot :: "'w resticEnv \<Rightarrow> string \<Rightarrow> string \<Rightarrow> gerr + snapshotFile" where
  "parseSnapshot env sid document =
     bindE (re_decSnapshot env document) (\<lambda>doc.
     bindE (re_decFields env document) (\<lambda>fields.
     Inr \<lparr>sf_snapshot = \<lparr>sn_ID = sid, sn_Time = sj_Time doc, sn_Paths = sj_Paths doc, sn_Tags = sj_Tags doc,
                          sn_Original = sj_Original doc\<rparr>,
          sf_fields = fields\<rparr>))"

definition load :: "'w resticEnv \<Rightarrow> key \<Rightarrow> string \<Rightarrow> ('w, string) call" where
  "load env master name =
     bindM (re_Get env name) (\<lambda>sealed.
     bindM (liftE (wrapE ''decrypt: '' (keyDecrypt env master sealed))) (\<lambda>plain.
     liftE (unpack env plain)))"

definition save :: "'w resticEnv \<Rightarrow> key \<Rightarrow> string \<Rightarrow> string \<Rightarrow> ('w, string) call" where
  "save env master dir document =
     bindM (keySeal env master document) (\<lambda>sealed.
     let sid = hexEncode (re_sha256 env sealed) in
     thenM (wrapM (''write '' @ dir @ ''/'' @ sid @ '': '') (re_Put env (pathJoin dir sid) sealed)) (ret sid))"

definition readSnapshot :: "'w resticEnv \<Rightarrow> key \<Rightarrow> string \<Rightarrow> ('w, snapshotFile) call" where
  "readSnapshot env master name =
     bindM (wrapM (''snapshot '' @ name @ '': '') (load env master (pathJoin ''snapshots'' name))) (\<lambda>document.
     liftE (wrapE (''decode snapshot '' @ name @ '': '') (parseSnapshot env name document)))"

primrec readSnapshots :: "'w resticEnv \<Rightarrow> key \<Rightarrow> string list \<Rightarrow> ('w, snapshotFile list) call" where
  "readSnapshots env master [] = ret []"
| "readSnapshots env master (name # names) =
     bindM (readSnapshot env master name) (\<lambda>f.
     bindM (readSnapshots env master names) (\<lambda>fs. ret (f # fs)))"

definition snapshotFiles :: "'w resticEnv \<Rightarrow> key \<Rightarrow> ('w, snapshotFile list) call" where
  "snapshotFiles env master =
     bindM (wrapM ''list the snapshots: '' (re_List env ''snapshots'')) (\<lambda>names.
     bindM (readSnapshots env master (filter isID names)) (\<lambda>files.
     ret (re_sortFiles env files)))"

definition SnapshotsOf :: "'w resticEnv \<Rightarrow> key \<Rightarrow> ('w, snapshot list) call" where
  "SnapshotsOf env master = bindM (snapshotFiles env master) (\<lambda>files. ret (map sf_snapshot files))"

section \<open>Opening a repository\<close>

fun isWrongKey1 :: "gerr \<Rightarrow> bool" where
  "isWrongKey1 ErrWrongKey = True"
| "isWrongKey1 _ = False"

primrec openKeys :: "'w resticEnv \<Rightarrow> string \<Rightarrow> string list \<Rightarrow> ('w, key) call" where
  "openKeys env password [] = failM (Plain ''no key file opens with this password'')"
| "openKeys env password (name # names) =
     bindM (wrapM (''read key file '' @ name @ '': '') (re_Get env (pathJoin ''keys'' name))) (\<lambda>raw.
     case masterKey env password raw of
       Inl err \<Rightarrow> if anyErr isWrongKey1 err then openKeys env password names
                  else failM (Wrap (''key file '' @ name @ '': '') err)
     | Inr master \<Rightarrow> ret master)"

definition Open :: "'w resticEnv \<Rightarrow> string \<Rightarrow> ('w, key) call" where
  "Open env password =
     bindM (wrapM ''list the key files: '' (re_List env ''keys'')) (\<lambda>names.
     if names = [] then failM ErrNoRepository else openKeys env password names)"

text \<open>The key cache is a map of the process, next to the world of the store. \<open>takeSlot\<close> waits for
  the scrypt slot and fails with the context's error. While it waits, other calls may fill the
  cache; \<open>takeSlot\<close> stands for them too, so it may change the cache.\<close>

type_synonym keyCache = "string \<Rightarrow> key option"

definition cacheText :: "string \<Rightarrow> string \<Rightarrow> string list \<Rightarrow> string" where
  "cacheText location password names = location @ [CHR 0x00] @ password @ [CHR 0x00] @ joinStr '','' names"

definition cacheEntry :: "'w resticEnv \<Rightarrow> string \<Rightarrow> string \<Rightarrow> string list \<Rightarrow> string" where
  "cacheEntry env location password names = hexEncode (re_sha256 env (cacheText location password names))"

definition onStore :: "('w, 'a) call \<Rightarrow> ('w \<times> keyCache, 'a) call" where
  "onStore c = (\<lambda>(w, cache). case c w of (r, w') \<Rightarrow> (r, (w', cache)))"

definition cacheGet :: "string \<Rightarrow> ('w \<times> keyCache, key option) call" where
  "cacheGet entry = (\<lambda>(w, cache). (Inr (cache entry), (w, cache)))"

definition cachePut :: "string \<Rightarrow> key \<Rightarrow> ('w \<times> keyCache, unit) call" where
  "cachePut entry master = (\<lambda>(w, cache). (Inr (), (w, cache(entry \<mapsto> master))))"

definition OpenCached :: "'w resticEnv \<Rightarrow> ('w \<times> keyCache, unit) call \<Rightarrow> string \<Rightarrow> string \<Rightarrow> ('w \<times> keyCache, key) call" where
  "OpenCached env takeSlot location password =
     bindM (onStore (wrapM ''list the key files: '' (re_List env ''keys''))) (\<lambda>names.
     if names = [] then failM ErrNoRepository
     else
     let entry = cacheEntry env location password names in
     bindM (cacheGet entry) (\<lambda>hit. case hit of
       Some master \<Rightarrow> ret master
     | None \<Rightarrow>
         thenM takeSlot (
         bindM (cacheGet entry) (\<lambda>hit. case hit of
           Some master \<Rightarrow> ret master
         | None \<Rightarrow>
             bindM (onStore (openKeys env password names)) (\<lambda>master.
             thenM (cachePut entry master) (ret master))))))"

section \<open>Storage IDs and cache entries\<close>

lemma length_hexEncode [simp]: "length (hexEncode bs) = 2 * length bs"
  by (induction bs) (simp_all add: hexEncode_def)

lemma isHexDigit_hexDigit: "n < 16 \<Longrightarrow> isHexDigit (hexDigit n)"
  by (auto simp: isHexDigit_def hexDigit_def Let_def)

lemma of_char_nibble: "(of_char b :: nat) div 16 < 16"
  by (rule less_mult_imp_div_less) simp

lemma isID_hexEncode: "length d = 32 \<Longrightarrow> isID (hexEncode d)"
  using of_char_nibble by (auto simp: hexEncode_def list_all_iff isID_def isHexDigit_hexDigit length_concat comp_def sum_list_triv)

lemma hexDigit_inject: "m < 16 \<Longrightarrow> n < 16 \<Longrightarrow> hexDigit m = hexDigit n \<longleftrightarrow> m = n"
  by (auto simp: hexDigit_def split: if_splits)

lemma hexEncode_inject: "hexEncode a = hexEncode b \<longleftrightarrow> a = b"
proof
  show "hexEncode a = hexEncode b \<Longrightarrow> a = b"
  proof (induction a arbitrary: b)
    case Nil
    then show ?case by (cases b) (simp_all add: hexEncode_def)
  next
    case (Cons x a)
    then obtain y b' where b: "b = y # b'" by (cases b) (simp_all add: hexEncode_def)
    have "hexDigit (of_char x div 16) = hexDigit (of_char y div 16)"
      "hexDigit (of_char x mod 16) = hexDigit (of_char y mod 16)" "hexEncode a = hexEncode b'"
      using Cons.prems by (simp_all add: b hexEncode_def)
    then have "(of_char x :: nat) div 16 = of_char y div 16" "(of_char x :: nat) mod 16 = of_char y mod 16" "a = b'"
      using hexDigit_inject of_char_nibble Cons.IH by auto
    then have "(of_char x :: nat) = of_char y" by (metis div_mult_mod_eq)
    then show ?case using \<open>a = b'\<close> b by simp
  qed
qed simp

lemma splitAll_nonempty [simp]: "splitAll c s \<noteq> []"
  by (induction c s rule: splitAll.induct) (auto split: list.splits)

lemma splitAll_append: "c \<notin> set a \<Longrightarrow> splitAll c (a @ c # b) = a # splitAll c b"
  by (induction a) auto

lemma splitAll_absent: "c \<notin> set a \<Longrightarrow> splitAll c a = [a]"
  by (induction a) auto

lemma splitAll_joinStr: "names \<noteq> [] \<Longrightarrow> \<forall>n \<in> set names. c \<notin> set n \<Longrightarrow> splitAll c (joinStr [c] names) = names"
  by (induction "[c]" names rule: joinStr.induct) (auto simp: splitAll_append splitAll_absent)

lemma cacheText_inject:
  assumes "CHR 0x00 \<notin> set l1" "CHR 0x00 \<notin> set p1" "CHR 0x00 \<notin> set l2" "CHR 0x00 \<notin> set p2"
    and n: "n1 \<noteq> []" "n2 \<noteq> []" "\<forall>n \<in> set n1 \<union> set n2. CHR '','' \<notin> set n"
    and eq: "cacheText l1 p1 n1 = cacheText l2 p2 n2"
  shows "l1 = l2 \<and> p1 = p2 \<and> n1 = n2"
proof -
  have e: "l1 @ CHR 0x00 # (p1 @ CHR 0x00 # joinStr '','' n1) = l2 @ CHR 0x00 # (p2 @ CHR 0x00 # joinStr '','' n2)"
    using eq by (simp add: cacheText_def)
  note cut = cutChar_found[OF assms(1)] cutChar_found[OF assms(2)] cutChar_found[OF assms(3)] cutChar_found[OF assms(4)]
  have "(l1, p1 @ CHR 0x00 # joinStr '','' n1, True) = (l2, p2 @ CHR 0x00 # joinStr '','' n2, True)"
    using arg_cong[OF e, of "cutChar (CHR 0x00)"] unfolding cut .
  then have "l1 = l2" and e2: "p1 @ CHR 0x00 # joinStr '','' n1 = p2 @ CHR 0x00 # joinStr '','' n2" by blast+
  have "(p1, joinStr '','' n1, True) = (p2, joinStr '','' n2, True)"
    using arg_cong[OF e2, of "cutChar (CHR 0x00)"] unfolding cut .
  then have "p1 = p2" and e3: "joinStr '','' n1 = joinStr '','' n2" by blast+
  have "splitAll (CHR '','') (joinStr '','' n1) = n1" "splitAll (CHR '','') (joinStr '','' n2) = n2"
    by (rule splitAll_joinStr; use n in blast)+
  then have "n1 = n2" using e3 by metis
  with \<open>l1 = l2\<close> \<open>p1 = p2\<close> show ?thesis by simp
qed

text \<open>Two repositories share an entry of the key cache only when their location, password and
  key files agree, as long as SHA-256 does not collide, no location or password holds a NUL byte
  and no key file name holds a comma: a changed password, or a repository created again at the same
  location, never finds an old master key.\<close>

theorem cacheEntry_inject:
  assumes "CHR 0x00 \<notin> set l1" "CHR 0x00 \<notin> set p1" "CHR 0x00 \<notin> set l2" "CHR 0x00 \<notin> set p2"
    and "n1 \<noteq> []" "n2 \<noteq> []" "\<forall>n \<in> set n1 \<union> set n2. CHR '','' \<notin> set n"
    and "inj_on (re_sha256 env) {cacheText l1 p1 n1, cacheText l2 p2 n2}"
  shows "cacheEntry env l1 p1 n1 = cacheEntry env l2 p2 n2 \<longleftrightarrow> l1 = l2 \<and> p1 = p2 \<and> n1 = n2"
proof -
  have "cacheEntry env l1 p1 n1 = cacheEntry env l2 p2 n2 \<longleftrightarrow> cacheText l1 p1 n1 = cacheText l2 p2 n2"
    using assms(8) by (auto simp: cacheEntry_def hexEncode_inject dest: inj_onD)
  then show ?thesis using cacheText_inject[OF assms(1-7)] by blast
qed

theorem cacheEntry_inject_witness:
  "cacheEntry (env0\<lparr>re_sha256 := \<lambda>d. d\<rparr> :: nat resticEnv) ''bucket/a'' ''old'' [''k1''] \<noteq>
   cacheEntry (env0\<lparr>re_sha256 := \<lambda>d. d\<rparr> :: nat resticEnv) ''bucket/a'' ''new'' [''k1'']"
  by (subst cacheEntry_inject) (simp_all add: inj_on_def env0_def)

section \<open>Which key opens a repository\<close>

text \<open>\<open>Open\<close> returns a master key only from a key file that the password opens, and only after
  every key file listed before it was refused with a MAC that does not verify; that key has the
  lengths the cipher needs. (Reads answered by \<open>files\<close> change nothing.)\<close>

theorem Open_first_key:
  assumes "\<And>name w. re_Get env (pathJoin ''keys'' name) w = (case files name of Some d \<Rightarrow> (Inr d, w) | None \<Rightarrow> (Inl (NotFound (pathJoin ''keys'' name)), w))"
    and "re_List env ''keys'' w = (Inr names, w)" and "Open env password w = (Inr k, w')"
  shows "wfKey k \<and> w' = w \<and>
    (\<exists>skipped name rest raw. names = skipped @ name # rest \<and> files name = Some raw \<and> masterKey env password raw = Inr k \<and>
      (\<forall>n \<in> set skipped. \<exists>r e. files n = Some r \<and> masterKey env password r = Inl e \<and> anyErr isWrongKey1 e))"
proof -
  have loop: "w' = w \<and> (\<exists>skipped name rest raw. ns = skipped @ name # rest \<and> files name = Some raw \<and> masterKey env password raw = Inr k \<and>
      (\<forall>n \<in> set skipped. \<exists>r e. files n = Some r \<and> masterKey env password r = Inl e \<and> anyErr isWrongKey1 e))"
    if "openKeys env password ns w = (Inr k, w')" for ns
    using that
  proof (induction ns)
    case Nil
    then show ?case by (simp add: failM_def)
  next
    case (Cons n ns)
    from Cons.prems obtain raw where raw: "files n = Some raw"
      by (auto simp: bindM_Inr_iff assms(1) split: option.splits)
    show ?case
    proof (cases "masterKey env password raw")
      case (Inr m)
      then have "k = m \<and> w' = w" using Cons.prems raw by (auto simp: bindM_Inr_iff assms(1) ret_def)
      then show ?thesis using Inr raw by (metis append_Nil empty_iff list.set(1))
    next
      case (Inl e)
      then have e: "anyErr isWrongKey1 e" and t: "openKeys env password ns w = (Inr k, w')"
        using Cons.prems raw by (auto simp: bindM_Inr_iff assms(1) failM_def split: if_splits)
      from Cons.IH[OF t] obtain sk nm rest r where "w' = w" "ns = sk @ nm # rest" "files nm = Some r"
        "masterKey env password r = Inr k"
        "\<forall>n \<in> set sk. \<exists>r e. files n = Some r \<and> masterKey env password r = Inl e \<and> anyErr isWrongKey1 e" by blast
      with raw Inl e show ?thesis by (intro conjI exI[of _ "n # sk"]) auto
    qed
  qed
  from assms(2,3) have "openKeys env password names w = (Inr k, w')"
    by (auto simp: Open_def bindM_Inr_iff failM_def split: if_splits)
  from loop[OF this] masterKey_wf show ?thesis by blast
qed

definition openEnv :: "nat resticEnv" where
  "openEnv = env0\<lparr>re_List := \<lambda>dir. ret [''k1''], re_Get := \<lambda>n w. if n = pathJoin ''keys'' ''k1'' then (Inr (replicate 16 (CHR ''r'') @ ''x'' @ replicate 16 (CHR ''m'')), w) else (Inl (NotFound n), w),
     re_decKeyFile := \<lambda>raw. Inr \<lparr>kf_KDF = ''scrypt'', kf_N = 1, kf_R = 1, kf_P = 1, kf_Salt = [], kf_Data = raw\<rparr>,
     re_scrypt := \<lambda>_ _ _ _ _ n. Inr (replicate n (CHR ''k'')),
     re_decMaster := \<lambda>_. Inr \<lparr>mk_K = replicate 16 (CHR ''a''), mk_R = replicate 16 (CHR ''b''), mk_Encrypt = replicate 32 (CHR ''c'')\<rparr>\<rparr>"

theorem Open_first_key_witness:
  "\<exists>k. Open openEnv ''secret'' 0 = (Inr k, 0) \<and> wfKey k"
proof -
  let ?files = "\<lambda>n. if n = ''k1'' then Some (replicate 16 (CHR ''r'') @ ''x'' @ replicate 16 (CHR ''m'')) else None"
  have g: "re_Get openEnv (pathJoin ''keys'' name) w = (case ?files name of Some d \<Rightarrow> (Inr d, w) | None \<Rightarrow> (Inl (NotFound (pathJoin ''keys'' name)), w))" for name w
    by (simp add: openEnv_def pathJoin_def)
  obtain k where k: "Open openEnv ''secret'' 0 = (Inr k, 0)"
    by (simp add: Open_def openEnv_def env0_def call_simps masterKey_def deriveKey_def keyDecrypt_def keyMac_def
        newCipher_def ivSize_def macSize_def Let_def)
  have l: "re_List openEnv ''keys'' 0 = (Inr [''k1''], 0)" by (simp add: openEnv_def ret_def)
  from Open_first_key[of openEnv ?files 0 "[''k1'']" "''secret''" k 0, OF _ l k] g k show ?thesis by blast
qed

end
