(* ===== verification/Retime.thy ===== *)
theory Retime
  imports Repository
begin

text \<open>
  Moving a snapshot to a new time, from \<open>src/internal/restic/retime.go\<close>: restic's exclusive lock
  (\<open>checkLocks\<close>, \<open>lockExclusive\<close>) and the rewrite itself (\<open>retime\<close>, \<open>RetimeLocked\<close>, which is
  the exported \<open>Retime\<close>).
\<close>

definition staleLockAge :: duration where "staleLockAge = 30 * minute"

definition lockUser :: string where "lockUser = ''backup-controller''"

definition lockedErrorText :: "string \<Rightarrow> gtime \<Rightarrow> bool \<Rightarrow> string" where
  "lockedErrorText host t exclusive =
     host @ '' has held '' @ (if exclusive then ''an exclusive'' else ''a shared'') @
     '' lock on the repository since '' @ formatRFC3339 t"

definition lockedError :: "string \<Rightarrow> gtime \<Rightarrow> bool \<Rightarrow> gerr" where
  "lockedError host t exclusive = LockedError host t exclusive (lockedErrorText host t exclusive)"

primrec checkLocksLoop :: "'w resticEnv \<Rightarrow> key \<Rightarrow> string \<Rightarrow> string \<Rightarrow> int \<Rightarrow> string list \<Rightarrow> ('w, unit) call" where
  "checkLocksLoop env master own host pid [] = ret ()"
| "checkLocksLoop env master own host pid (name # names) =
     (if \<not> isID name \<or> name = own then checkLocksLoop env master own host pid names
      else
      bindM (wrapM (''lock '' @ name @ '': '') (load env master (pathJoin ''locks'' name))) (\<lambda>document.
      bindM (liftE (wrapE (''decode lock '' @ name @ '': '') (re_decLock env document))) (\<lambda>lock.
      if lj_Hostname lock = host \<and> lj_PID lock = pid then
        thenM (wrapM (''remove the controller's earlier lock '' @ name @ '': '') (re_Remove env (pathJoin ''locks'' name)))
          (checkLocksLoop env master own host pid names)
      else
        bindM (re_now env) (\<lambda>now.
        if now - lj_Time lock > staleLockAge then checkLocksLoop env master own host pid names
        else failM (lockedError (lj_Hostname lock) (lj_Time lock) (lj_Exclusive lock))))))"

definition checkLocks :: "'w resticEnv \<Rightarrow> key \<Rightarrow> string \<Rightarrow> string \<Rightarrow> int \<Rightarrow> ('w, unit) call" where
  "checkLocks env master own host pid =
     bindM (wrapM ''list the locks: '' (re_List env ''locks'')) (checkLocksLoop env master own host pid)"

text \<open>\<open>errors.Join(err, unlock())\<close>.\<close>

definition failAfter :: "gerr \<Rightarrow> ('w, unit) call \<Rightarrow> ('w, 'a) call" where
  "failAfter err unlock =
     bindM (attempt unlock) (\<lambda>r. case r of Inl e \<Rightarrow> failM (Join err e) | Inr _ \<Rightarrow> failM err)"

text \<open>The lock is the name of its file; the function \<open>lockExclusive\<close> returns removes that file.\<close>

definition unlock :: "'w resticEnv \<Rightarrow> string \<Rightarrow> ('w, unit) call" where
  "unlock env lid = re_Remove env (pathJoin ''locks'' lid)"

definition lockExclusive :: "'w resticEnv \<Rightarrow> key \<Rightarrow> ('w, string) call" where
  "lockExclusive env master =
     (let host = re_hostname env; pid = re_pid env in
      thenM (checkLocks env master [] host pid) (
      bindM (re_now env) (\<lambda>now.
      bindM (liftE (re_encLock env \<lparr>lj_Time = now, lj_Exclusive = True, lj_Hostname = host, lj_Username = lockUser, lj_PID = pid\<rparr>)) (\<lambda>document.
      bindM (save env master ''locks'' document) (\<lambda>lid.
      bindM (attempt (re_wait env)) (\<lambda>waited. case waited of
        Inl err \<Rightarrow> failAfter err (unlock env lid)
      | Inr _ \<Rightarrow>
        bindM (attempt (checkLocks env master lid host pid)) (\<lambda>r. case r of
          Inl err \<Rightarrow> failAfter err (unlock env lid)
        | Inr _ \<Rightarrow> ret lid)))))))"

definition addTags :: "string list \<Rightarrow> string list \<Rightarrow> string list" where
  "addTags old tags = foldl (\<lambda>written t. if t \<in> set written then written else written @ [t]) old tags"

definition originOf :: "snapshot \<Rightarrow> string" where
  "originOf s = (if sn_Original s = [] then sn_ID s else sn_Original s)"

text \<open>The copy of a snapshot document: every field, with the new time, tags and original.\<close>

definition copyFields :: "'w resticEnv \<Rightarrow> snapshotFile \<Rightarrow> gtime \<Rightarrow> string list \<Rightarrow> gerr + smap" where
  "copyFields env old at tags =
     bindE (re_encTime env at) (\<lambda>timeJ.
     bindE (re_encStrings env (addTags (sn_Tags (sf_snapshot old)) tags)) (\<lambda>tagsJ.
     let fields = (sf_fields old)(''time'' \<mapsto> timeJ, ''tags'' \<mapsto> tagsJ) in
     if sn_Original (sf_snapshot old) = [] then
       bindE (re_encString env (sn_ID (sf_snapshot old))) (\<lambda>oj. Inr (fields(''original'' \<mapsto> oj)))
     else Inr fields))"

definition writeCopy :: "'w resticEnv \<Rightarrow> key \<Rightarrow> snapshotFile \<Rightarrow> gtime \<Rightarrow> string list \<Rightarrow> ('w, snapshot) call" where
  "writeCopy env master old at tags =
     bindM (liftE (copyFields env old at tags)) (\<lambda>fields.
     bindM (liftE (re_encFields env fields)) (\<lambda>document.
     bindM (save env master ''snapshots'' document) (\<lambda>newID.
     thenM (wrapM (''remove snapshot '' @ sn_ID (sf_snapshot old) @ '' after writing '' @ newID @ '': '')
              (re_Remove env (pathJoin ''snapshots'' (sn_ID (sf_snapshot old))))) (
     bindM (liftE (parseSnapshot env newID document)) (\<lambda>copied.
     ret (sf_snapshot copied))))))"

definition retime :: "'w resticEnv \<Rightarrow> key \<Rightarrow> string \<Rightarrow> gtime \<Rightarrow> string list \<Rightarrow> ('w, snapshot) call" where
  "retime env master sid at tags =
     (let tag = hd tags in
      bindM (snapshotFiles env master) (\<lambda>files.
      case find (\<lambda>f. hasPrefix (sn_ID (sf_snapshot f)) sid) files of
        None \<Rightarrow>
          (case find (\<lambda>f. hasPrefix (sn_Original (sf_snapshot f)) sid \<and> tag \<in> set (sn_Tags (sf_snapshot f))) files of
             Some f \<Rightarrow> ret (sf_snapshot f)
           | None \<Rightarrow> failM (Plain (''the repository holds no snapshot '' @ sid)))
      | Some old \<Rightarrow>
          let origin = originOf (sf_snapshot old); oldID = sn_ID (sf_snapshot old) in
          (case find (\<lambda>f. let s = sf_snapshot f in sn_ID s \<noteq> oldID \<and> sn_Original s = origin \<and>
                        sn_Time s = at \<and> tag \<in> set (sn_Tags s)) files of
             Some f \<Rightarrow>
               thenM (wrapM (''remove snapshot '' @ oldID @ '', already written as '' @ sn_ID (sf_snapshot f) @ '': '')
                        (re_Remove env (pathJoin ''snapshots'' oldID)))
                 (ret (sf_snapshot f))
           | None \<Rightarrow> writeCopy env master old at tags)))"

definition RetimeLocked :: "'w resticEnv \<Rightarrow> key \<Rightarrow> string \<Rightarrow> gtime \<Rightarrow> string \<Rightarrow> string list \<Rightarrow> ('w, snapshot) call" where
  "RetimeLocked env master sid at tag extra =
     (if sid = [] then failM (Plain ''no snapshot named'')
      else
      bindM (lockExclusive env master) (\<lambda>lid.
      bindM (attempt (retime env master sid at (tag # extra))) (\<lambda>written.
      bindM (attempt (unlock env lid)) (\<lambda>u. case u of
        Inl unlockErr \<Rightarrow>
          (case written of
             Inl err \<Rightarrow> failM (Join err (Wrap ''remove the controller's lock: '' unlockErr))
           | Inr _ \<Rightarrow> failM (Wrap ''remove the controller's lock: '' unlockErr))
      | Inr _ \<Rightarrow> liftE written))))"

section \<open>What the store and the codec promise\<close>

text \<open>One process writes at a time (it holds the exclusive lock), so a call changes a file only when
  it is a \<open>Put\<close> or a \<open>Remove\<close>; one that reports an error may still have taken effect.\<close>

text \<open>The directories of a repository that hold its documents, and the paths of the documents.\<close>

definition repoDirs :: "string set" where
  "repoDirs = {''keys'', ''snapshots'', ''locks''}"

definition repoFile :: "string \<Rightarrow> bool" where
  "repoFile n = (\<exists>d \<in> repoDirs. \<exists>i. n = pathJoin d i \<and> isID i)"

text \<open>A write that reports an error may have been carried out.\<close>

definition changesTo :: "('w \<Rightarrow> 'v) \<Rightarrow> 'w \<Rightarrow> 'v \<Rightarrow> (gerr + unit) \<times> 'w \<Rightarrow> bool" where
  "changesTo view w new res = (view (snd res) = new \<or> (\<exists>e. fst res = Inl e) \<and> view (snd res) = view w)"

definition listLaw :: "(string \<Rightarrow> ('w, string list) call) \<Rightarrow> ('w \<Rightarrow> smap) \<Rightarrow> bool" where
  "listLaw lst files = (\<forall>d w names w'. d \<in> repoDirs \<longrightarrow> lst d w = (Inr names, w') \<longrightarrow>
     set names = {n. n \<noteq> [] \<and> files w (pathJoin d n) \<noteq> None \<and> CHR ''/'' \<notin> set n})"

definition getLaw :: "(string \<Rightarrow> ('w, string) call) \<Rightarrow> ('w \<Rightarrow> smap) \<Rightarrow> bool" where
  "getLaw get files = (\<forall>n w x w'. repoFile n \<longrightarrow> get n w = (Inr x, w') \<longrightarrow> files w n = Some x)"

definition store_laws :: "'w resticEnv \<Rightarrow> ('w \<Rightarrow> smap) \<Rightarrow> bool" where
  "store_laws env files =
     ((\<forall>d. keeps files (re_List env d)) \<and> (\<forall>n. keeps files (re_Get env n)) \<and>
      (\<forall>n. keeps files (re_rand env n)) \<and> keeps files (re_now env) \<and> keeps files (re_wait env) \<and>
      listLaw (re_List env) files \<and> getLaw (re_Get env) files \<and>
      (\<forall>n x w. repoFile n \<longrightarrow> changesTo files w ((files w)(n \<mapsto> x)) (re_Put env n x w)) \<and>
      (\<forall>n w. repoFile n \<longrightarrow> changesTo files w ((files w)(n := None)) (re_Remove env n w)))"

text \<open>The JSON codec: what \<open>json.Unmarshal\<close> reads from the fields of a document, and that it reads
  back what \<open>json.Marshal\<close> wrote.\<close>

record codec =
  cd_time :: "string option \<Rightarrow> gtime option"
  cd_paths :: "string option \<Rightarrow> (string list) option"
  cd_tags :: "string option \<Rightarrow> (string list) option"
  cd_original :: "string option \<Rightarrow> string option"

definition decodeFields :: "codec \<Rightarrow> smap \<Rightarrow> snapshotJSON option" where
  "decodeFields cd f =
     (case (cd_time cd (f ''time''), cd_paths cd (f ''paths''), cd_tags cd (f ''tags''), cd_original cd (f ''original'')) of
        (Some t, Some p, Some g, Some og) \<Rightarrow> Some \<lparr>sj_Time = t, sj_Paths = p, sj_Tags = g, sj_Original = og\<rparr>
      | _ \<Rightarrow> None)"

definition codec_laws :: "'w resticEnv \<Rightarrow> codec \<Rightarrow> bool" where
  "codec_laws env cd =
     ((\<forall>doc f j. re_decFields env doc = Inr f \<and> re_decSnapshot env doc = Inr j \<longrightarrow> decodeFields cd f = Some j) \<and>
      (\<forall>f doc j. re_encFields env f = Inr doc \<and> decodeFields cd f = Some j \<longrightarrow>
         re_decFields env doc = Inr f \<and> re_decSnapshot env doc = Inr j \<and> hd doc = CHR ''{'' \<and> doc \<noteq> []) \<and>
      (\<forall>t j. re_encTime env t = Inr j \<longrightarrow> cd_time cd (Some j) = Some t) \<and>
      (\<forall>g j. re_encStrings env g = Inr j \<longrightarrow> cd_tags cd (Some j) = Some g) \<and>
      (\<forall>i j. re_encString env i = Inr j \<longrightarrow> cd_original cd (Some j) = Some i))"

text \<open>A new file's storage ID is fresh: it is the digest of bytes that start with a random IV.\<close>

definition fresh_ids :: "'w resticEnv \<Rightarrow> key \<Rightarrow> ('w \<Rightarrow> smap) \<Rightarrow> bool" where
  "fresh_ids env master files =
     ((\<forall>x. length (re_sha256 env x) = 32) \<and>
      (\<forall>doc w. case keySeal env master doc w of
         (Inr sealed, _) \<Rightarrow> files w (pathJoin ''snapshots'' (hexEncode (re_sha256 env sealed))) = None | _ \<Rightarrow> True))"

definition retime_env :: "'w resticEnv \<Rightarrow> key \<Rightarrow> ('w \<Rightarrow> smap) \<Rightarrow> codec \<Rightarrow> bool" where
  "retime_env env master files cd =
     (store_laws env files \<and> codec_laws env cd \<and> fresh_ids env master files \<and> cipher_laws env \<and> wfKey master \<and>
      (\<forall>fs. mset (re_sortFiles env fs) = mset fs))"

text \<open>A snapshot document stored under an ID.\<close>

definition stored :: "'w resticEnv \<Rightarrow> key \<Rightarrow> smap \<Rightarrow> snapshotFile \<Rightarrow> bool" where
  "stored env master fm f =
     (isID (sn_ID (sf_snapshot f)) \<and>
      (\<exists>x plain doc. fm (pathJoin ''snapshots'' (sn_ID (sf_snapshot f))) = Some x \<and>
        keyDecrypt env master x = Inr plain \<and> unpack env plain = Inr doc \<and>
        parseSnapshot env (sn_ID (sf_snapshot f)) doc = Inr f))"

text \<open>A copy of a snapshot that carries the new time and the tag and records where it came from.\<close>

definition isCopy :: "snapshot \<Rightarrow> gtime \<Rightarrow> string \<Rightarrow> snapshot \<Rightarrow> bool" where
  "isCopy old at tag s =
     (sn_ID s \<noteq> sn_ID old \<and> sn_Original s = originOf old \<and> sn_Time s = at \<and> tag \<in> set (sn_Tags s))"

text \<open>What a copy shares with the snapshot it was taken from: every field of the document (the tree, the
  paths, the host, the program that wrote it) but the three the rewrite sets.\<close>

definition sameContent :: "snapshotFile \<Rightarrow> snapshotFile \<Rightarrow> bool" where
  "sameContent f g = (\<forall>k. k \<notin> {''time'', ''tags'', ''original''} \<longrightarrow> sf_fields g k = sf_fields f k)"

lemma sameContent_refl [simp]: "sameContent f f"
  by (simp add: sameContent_def)

lemma sameContent_sym: "sameContent f g \<Longrightarrow> sameContent g f"
  unfolding sameContent_def by (metis (no_types))

lemma sameContent_trans: "sameContent f g \<Longrightarrow> sameContent g h \<Longrightarrow> sameContent f h"
  unfolding sameContent_def by (metis (no_types))

text \<open>A repository whose stored snapshots of one origin are copies of each other.\<close>

definition repoCopies :: "'w resticEnv \<Rightarrow> key \<Rightarrow> smap \<Rightarrow> bool" where
  "repoCopies env master fm = (\<forall>f g. stored env master fm f \<longrightarrow> stored env master fm g \<longrightarrow>
     originOf (sf_snapshot f) = originOf (sf_snapshot g) \<longrightarrow> sameContent f g)"

lemma repoCopiesD:
  "repoCopies env master fm \<Longrightarrow> stored env master fm f \<Longrightarrow> stored env master fm g \<Longrightarrow>
    originOf (sf_snapshot f) = originOf (sf_snapshot g) \<Longrightarrow> sameContent f g"
  unfolding repoCopies_def by blast

text \<open>One file holds one snapshot.\<close>

lemma stored_unique:
  assumes "stored env master fm f" "stored env master fm g" "sn_ID (sf_snapshot f) = sn_ID (sf_snapshot g)"
  shows "f = g"
  using assms unfolding stored_def by auto

lemma stored_same_file: "stored env master fm f \<Longrightarrow> fm' (pathJoin ''snapshots'' (sn_ID (sf_snapshot f))) = fm (pathJoin ''snapshots'' (sn_ID (sf_snapshot f))) \<Longrightarrow>
    stored env master fm' f"
  unfolding stored_def by simp

lemma repoCopies_unchanged:
  assumes "repoCopies env master fm" "\<And>n. fm' (pathJoin ''snapshots'' n) = fm (pathJoin ''snapshots'' n)"
  shows "repoCopies env master fm'"
  unfolding repoCopies_def
proof (intro allI impI)
  fix f g assume "stored env master fm' f" "stored env master fm' g" "originOf (sf_snapshot f) = originOf (sf_snapshot g)"
  have st: "stored env master fm h" if "stored env master fm' h" for h
    using that assms(2)[symmetric] by (rule stored_same_file)
  then show "sameContent f g" using repoCopiesD[OF assms(1)] \<open>stored env master fm' f\<close> \<open>stored env master fm' g\<close>
      \<open>originOf (sf_snapshot f) = originOf (sf_snapshot g)\<close> by blast
qed

text \<open>Adding a copy of a stored snapshot keeps it so.\<close>

lemma repoCopies_add:
  assumes inv: "repoCopies env master fm" and old: "stored env master fm old" and f: "stored env master fm' f"
    and c: "sameContent old f" "originOf (sf_snapshot f) = originOf (sf_snapshot old)"
    and st: "\<And>g. stored env master fm' g \<Longrightarrow> stored env master fm g \<or> g = f"
  shows "repoCopies env master fm'"
proof -
  have to_old: "sameContent old g" if "stored env master fm' g" "originOf (sf_snapshot g) = originOf (sf_snapshot old)" for g
    using st[OF that(1)] repoCopiesD[OF inv old _ that(2)[symmetric]] c(1) by blast
  show ?thesis
    unfolding repoCopies_def
  proof (intro allI impI)
    fix g h assume gh: "stored env master fm' g" "stored env master fm' h" "originOf (sf_snapshot g) = originOf (sf_snapshot h)"
    show "sameContent g h"
    proof (cases "originOf (sf_snapshot g) = originOf (sf_snapshot old)")
      case True
      then show ?thesis using to_old[OF gh(1)] to_old[OF gh(2)] gh(3) sameContent_sym sameContent_trans by metis
    next
      case False
      then have "stored env master fm g" "stored env master fm h" using st[OF gh(1)] st[OF gh(2)] c(2) gh(3) by auto
      then show ?thesis using repoCopiesD[OF inv] gh(3) by blast
    qed
  qed
qed

lemma parseSnapshot_ID: "parseSnapshot env sid doc = Inr f \<Longrightarrow> sn_ID (sf_snapshot f) = sid"
  by (auto simp: parseSnapshot_def bindE_def split: sum.splits)

lemma isID_no_slash: "isID n \<Longrightarrow> CHR ''/'' \<notin> set n"
  by (auto simp: isID_def list_all_iff isHexDigit_def Let_def)

lemma pathJoin_inject [simp]: "pathJoin d a = pathJoin d b \<longleftrightarrow> a = b"
  by (simp add: pathJoin_def)

lemma keeps_keySeal: "store_laws env files \<Longrightarrow> keeps files (keySeal env k d)"
  unfolding keySeal_def Let_def store_laws_def by (intro keeps_intros) blast+

lemma keeps_load: "store_laws env files \<Longrightarrow> keeps files (load env k n)"
  unfolding load_def store_laws_def by (intro keeps_intros) blast+

lemma keeps_readSnapshot: "store_laws env files \<Longrightarrow> keeps files (readSnapshot env k n)"
  unfolding readSnapshot_def by (intro keeps_intros keeps_load)

lemma keeps_readSnapshots: "store_laws env files \<Longrightarrow> keeps files (readSnapshots env k names)"
  by (induction names) (auto intro!: keeps_intros keeps_readSnapshot)

lemma keeps_snapshotFiles: "store_laws env files \<Longrightarrow> keeps files (snapshotFiles env k)"
  unfolding snapshotFiles_def by (intro keeps_intros keeps_readSnapshots) (simp_all add: store_laws_def)

lemma repoFile_snapshot [simp]: "repoFile (pathJoin ''snapshots'' i) \<longleftrightarrow> isID i"
  by (auto simp: repoFile_def repoDirs_def pathJoin_def)

lemma storeGet: "store_laws env files \<Longrightarrow> repoFile n \<Longrightarrow> re_Get env n w = (Inr x, w') \<Longrightarrow> files w n = Some x"
  by (simp add: store_laws_def getLaw_def)

lemma storeList:
  assumes "store_laws env files" "d \<in> repoDirs" "re_List env d w = (Inr names, w')"
  shows "set names = {n. n \<noteq> [] \<and> files w (pathJoin d n) \<noteq> None \<and> CHR ''/'' \<notin> set n}"
proof -
  have "listLaw (re_List env) files" using assms(1) by (simp add: store_laws_def)
  then show ?thesis using assms(2,3) unfolding listLaw_def by blast
qed

lemma storePut:
  assumes "store_laws env files" "repoFile n" "re_Put env n x w = (r, w')"
  shows "files w' = (files w)(n \<mapsto> x) \<or> (\<exists>e. r = Inl e) \<and> files w' = files w"
proof -
  have "changesTo files w ((files w)(n \<mapsto> x)) (re_Put env n x w)"
    using assms(1,2) unfolding store_laws_def by (elim conjE) blast
  then show ?thesis using assms(3) by (simp add: changesTo_def)
qed

lemma storeRemove:
  assumes "store_laws env files" "repoFile n" "re_Remove env n w = (r, w')"
  shows "files w' = (files w)(n := None) \<or> (\<exists>e. r = Inl e) \<and> files w' = files w"
proof -
  have "changesTo files w ((files w)(n := None)) (re_Remove env n w)"
    using assms(1,2) unfolding store_laws_def by (elim conjE) blast
  then show ?thesis using assms(3) by (simp add: changesTo_def)
qed

section \<open>Listing\<close>

lemma readSnapshot_Inr:
  assumes "store_laws env files" "isID n" "readSnapshot env k n w = (Inr f, w')"
  shows "stored env k (files w) f \<and> sn_ID (sf_snapshot f) = n"
proof -
  from assms(3) obtain x plain doc where
    x: "re_Get env (pathJoin ''snapshots'' n) w = (Inr x, w')" and
    d: "keyDecrypt env k x = Inr plain" "unpack env plain = Inr doc" "parseSnapshot env n doc = Inr f"
    by (auto simp: readSnapshot_def load_def bindM_Inr_iff)
  then show ?thesis using storeGet[OF assms(1) _ x] parseSnapshot_ID[OF d(3)] assms(2)
    unfolding stored_def by auto
qed

lemma readSnapshots_Inr:
  assumes "store_laws env files" "list_all isID names" "readSnapshots env k names w = (Inr fs, w')"
  shows "map (\<lambda>f. sn_ID (sf_snapshot f)) fs = names \<and> list_all (stored env k (files w)) fs"
  using assms(2,3)
proof (induction names arbitrary: w fs)
  case Nil
  then show ?case by (simp add: ret_def)
next
  case (Cons n names)
  then obtain f w1 fs' where f: "readSnapshot env k n w = (Inr f, w1)" and
    fs': "readSnapshots env k names w1 = (Inr fs', w')" and fs: "fs = f # fs'"
    by (auto simp: bindM_Inr_iff ret_def)
  have "files w1 = files w" using keepsD[OF keeps_readSnapshot[OF assms(1)] f] .
  with Cons.IH[OF _ fs'] Cons.prems(1) readSnapshot_Inr[OF assms(1) _ f] fs show ?case by auto
qed

lemma snapshotFiles_Inr:
  assumes "store_laws env files" "\<And>fs. mset (re_sortFiles env fs) = mset fs"
    and "snapshotFiles env k w = (Inr fs, w')"
  shows "files w' = files w" and "\<And>f. f \<in> set fs \<Longrightarrow> stored env k (files w) f"
    and "\<And>n. isID n \<Longrightarrow> files w (pathJoin ''snapshots'' n) \<noteq> None \<Longrightarrow> \<exists>f \<in> set fs. sn_ID (sf_snapshot f) = n"
proof -
  show w': "files w' = files w" using keepsD[OF keeps_snapshotFiles[OF assms(1)] assms(3)] .
  from assms(3) obtain names w1 fs0 where
    l: "re_List env ''snapshots'' w = (Inr names, w1)" and
    r: "readSnapshots env k (filter isID names) w1 = (Inr fs0, w')" and fs: "fs = re_sortFiles env fs0"
    by (auto simp: snapshotFiles_def bindM_Inr_iff ret_def)
  have "keeps files (re_List env ''snapshots'')" using assms(1) by (simp add: store_laws_def)
  from keepsD[OF this l] have w1: "files w1 = files w" .
  have set: "set fs = set fs0" using assms(2) fs mset_eq_setD by blast
  have "list_all isID (filter isID names)" by (simp add: list_all_iff)
  from readSnapshots_Inr[OF assms(1) this r] w1
  have ids: "map (\<lambda>f. sn_ID (sf_snapshot f)) fs0 = filter isID names" and st: "list_all (stored env k (files w)) fs0" by auto
  show "stored env k (files w) f" if "f \<in> set fs" for f using st that set by (simp add: list_all_iff)
  show "\<exists>f \<in> set fs. sn_ID (sf_snapshot f) = n"
    if "isID n" "files w (pathJoin ''snapshots'' n) \<noteq> None" for n
  proof -
    have "n \<in> set (filter isID names)" using storeList[OF assms(1) _ l] that isID_no_slash by (auto simp: repoDirs_def isID_def)
    then have "n \<in> set (map (\<lambda>f. sn_ID (sf_snapshot f)) fs0)" using ids by simp
    then show ?thesis using set by auto
  qed
qed

section \<open>The copy\<close>

lemma set_addTags: "set (addTags old tags) = set old \<union> set tags"
  unfolding addTags_def by (induction tags arbitrary: old) auto

lemma copyFields_decode:
  assumes "codec_laws env cd" "parseSnapshot env sid doc = Inr old" "copyFields env old at tags = Inr flds"
  shows "decodeFields cd flds = Some \<lparr>sj_Time = at, sj_Paths = sn_Paths (sf_snapshot old),
           sj_Tags = addTags (sn_Tags (sf_snapshot old)) tags, sj_Original = originOf (sf_snapshot old)\<rparr>"
proof -
  note cl = assms(1)[unfolded codec_laws_def]
  from assms(2) obtain j where j: "re_decSnapshot env doc = Inr j" "re_decFields env doc = Inr (sf_fields old)"
    and sn: "sn_Paths (sf_snapshot old) = sj_Paths j" "sn_Tags (sf_snapshot old) = sj_Tags j"
      "sn_Original (sf_snapshot old) = sj_Original j"
    by (auto simp: parseSnapshot_def bindE_Inr_iff)
  then have dec: "decodeFields cd (sf_fields old) = Some j" using cl by blast
  then have old: "cd_paths cd (sf_fields old ''paths'') = Some (sj_Paths j)"
      "cd_original cd (sf_fields old ''original'') = Some (sj_Original j)"
    by (auto simp: decodeFields_def split: option.splits)
  from assms(3) obtain tj gj where tg: "re_encTime env at = Inr tj"
      "re_encStrings env (addTags (sn_Tags (sf_snapshot old)) tags) = Inr gj"
    and f: "(if sn_Original (sf_snapshot old) = []
       then bindE (re_encString env (sn_ID (sf_snapshot old))) (\<lambda>oj. Inr ((sf_fields old)(''time'' \<mapsto> tj, ''tags'' \<mapsto> gj, ''original'' \<mapsto> oj)))
       else Inr ((sf_fields old)(''time'' \<mapsto> tj, ''tags'' \<mapsto> gj))) = Inr flds"
    by (auto simp: copyFields_def bindE_Inr_iff Let_def)
  have "cd_time cd (Some tj) = Some at" "cd_tags cd (Some gj) = Some (addTags (sn_Tags (sf_snapshot old)) tags)"
    using cl tg by blast+
  note tgd = this
  have ol: "re_encString env i = Inr j \<Longrightarrow> cd_original cd (Some j) = Some i" for i j using cl by blast
  have "cd_original cd (flds ''original'') = Some (originOf (sf_snapshot old))"
    using f old(2) sn(3) by (auto simp: originOf_def bindE_Inr_iff ol split: if_splits)
  moreover have "flds ''time'' = Some tj" "flds ''tags'' = Some gj" "flds ''paths'' = sf_fields old ''paths''"
    using f by (auto simp: bindE_Inr_iff split: if_splits)
  ultimately show ?thesis using old sn tgd by (simp add: decodeFields_def)
qed

text \<open>The copy carries every other field of the document on, as it is.\<close>

lemma copyFields_rest:
  assumes "copyFields env old at tags = Inr flds" "k \<notin> {''time'', ''tags'', ''original''}"
  shows "flds k = sf_fields old k"
  using assms by (auto simp: copyFields_def bindE_Inr_iff Let_def split: if_splits)

text \<open>The new file holds the copy: it decrypts and parses to a snapshot with the new time.\<close>

lemma save_effect:
  assumes env: "retime_env env master files cd" and sv: "save env master ''snapshots'' document w = (r, w')"
  shows "(\<exists>e. r = Inl e) \<and> files w' = files w \<or>
    (\<exists>sealed sid. keyDecrypt env master sealed = Inr document \<and> isID sid \<and> (\<forall>i. r = Inr i \<longrightarrow> i = sid) \<and>
      files w (pathJoin ''snapshots'' sid) = None \<and> files w' = (files w)(pathJoin ''snapshots'' sid \<mapsto> sealed))"
proof -
  have laws: "store_laws env files" "fresh_ids env master files" "cipher_laws env" "wfKey master"
    using env by (simp_all add: retime_env_def)
  obtain r1 w1 where k: "keySeal env master document w = (r1, w1)" by fastforce
  have w1: "files w1 = files w" using keepsD[OF keeps_keySeal[OF laws(1)] k] .
  show ?thesis
  proof (cases r1)
    case (Inl e)
    then show ?thesis using sv k w1 by (auto simp: save_def bindM_def)
  next
    case (Inr sealed)
    let ?id = "hexEncode (re_sha256 env sealed)"
    have "case keySeal env master document w of (Inr sealed, _) \<Rightarrow> files w (pathJoin ''snapshots'' (hexEncode (re_sha256 env sealed))) = None | _ \<Rightarrow> True"
      using laws(2) unfolding fresh_ids_def by (elim conjE allE)
    then have fresh: "files w (pathJoin ''snapshots'' ?id) = None" and isid: "isID ?id"
      using k Inr laws(2) by (simp_all add: fresh_ids_def isID_hexEncode)
    have dec: "keyDecrypt env master sealed = Inr document"
      using decrypt_seal[OF laws(3,4) k[unfolded Inr]] by simp
    obtain r2 w2 where p: "re_Put env (pathJoin ''snapshots'' ?id) sealed w1 = (r2, w2)" by fastforce
    have res: "w' = w2" "r = (case r2 of Inr _ \<Rightarrow> Inr ?id | Inl e \<Rightarrow> Inl (Wrap (''write '' @ ''snapshots'' @ ''/'' @ ?id @ '': '') e))"
      using sv k p Inr by (auto simp: save_def Let_def call_simps split: sum.splits)
    from storePut[OF laws(1) _ p] w1 fresh isid dec res show ?thesis by (auto split: sum.splits)
  qed
qed

lemma stored_copy:
  assumes env: "retime_env env master files cd" and old: "stored env master fm old"
    and cf: "copyFields env old at tags = Inr flds" and ef: "re_encFields env flds = Inr document"
    and x: "keyDecrypt env master x = Inr document" "isID sid" "fm' (pathJoin ''snapshots'' sid) = Some x"
  shows "\<exists>f. parseSnapshot env sid document = Inr f \<and> stored env master fm' f \<and> sn_ID (sf_snapshot f) = sid \<and>
    sn_Time (sf_snapshot f) = at \<and> sn_Original (sf_snapshot f) = originOf (sf_snapshot old) \<and>
    sn_Tags (sf_snapshot f) = addTags (sn_Tags (sf_snapshot old)) tags \<and> sf_fields f = flds"
proof -
  have cl: "codec_laws env cd" using env by (simp add: retime_env_def)
  from old obtain sid0 doc0 where p0: "parseSnapshot env sid0 doc0 = Inr old" unfolding stored_def by blast
  note dec = copyFields_decode[OF cl p0 cf]
  then have d: "re_decFields env document = Inr flds" "hd document = CHR ''{''" "document \<noteq> []"
    and dj: "re_decSnapshot env document = Inr \<lparr>sj_Time = at, sj_Paths = sn_Paths (sf_snapshot old),
           sj_Tags = addTags (sn_Tags (sf_snapshot old)) tags, sj_Original = originOf (sf_snapshot old)\<rparr>"
    using cl ef unfolding codec_laws_def by blast+
  have u: "unpack env document = Inr document" using d by (cases document) (auto simp: unpack_def)
  show ?thesis using x u d(1) dj by (auto simp: parseSnapshot_def stored_def)
qed

lemma stored_upd: "stored env master fm f \<Longrightarrow> sn_ID (sf_snapshot f) \<noteq> i \<Longrightarrow> stored env master (fm(pathJoin ''snapshots'' i := v)) f"
  by (simp add: stored_def)

lemma writeCopy_effect:
  assumes env: "retime_env env master files cd" and old: "stored env master (files w) old"
    and wc: "writeCopy env master old at tags w = (r, w')"
  shows "(\<exists>e. r = Inl e) \<and> files w' = files w \<or>
    (\<exists>f. stored env master (files w') f \<and> files w (pathJoin ''snapshots'' (sn_ID (sf_snapshot f))) = None \<and>
      sn_Time (sf_snapshot f) = at \<and> sn_Original (sf_snapshot f) = originOf (sf_snapshot old) \<and>
      sn_Tags (sf_snapshot f) = addTags (sn_Tags (sf_snapshot old)) tags \<and> sameContent old f \<and>
      (\<forall>p. p \<noteq> pathJoin ''snapshots'' (sn_ID (sf_snapshot f)) \<longrightarrow> p \<noteq> pathJoin ''snapshots'' (sn_ID (sf_snapshot old)) \<longrightarrow> files w' p = files w p) \<and>
      (files w' (pathJoin ''snapshots'' (sn_ID (sf_snapshot old))) = None \<or>
       files w' (pathJoin ''snapshots'' (sn_ID (sf_snapshot old))) = files w (pathJoin ''snapshots'' (sn_ID (sf_snapshot old)))) \<and>
      (\<forall>s. r = Inr s \<longrightarrow> s = sf_snapshot f \<and> files w' (pathJoin ''snapshots'' (sn_ID (sf_snapshot old))) = None))"
    (is "_ \<or> ?copy")
proof (cases "\<exists>flds document. copyFields env old at tags = Inr flds \<and> re_encFields env flds = Inr document")
  case False
  then have "(\<exists>e. r = Inl e) \<and> w' = w" using wc
    by (auto simp: writeCopy_def bindM_def liftE_def split: sum.splits)
  then show ?thesis by blast
next
  case True
  then obtain flds document where fd: "copyFields env old at tags = Inr flds" "re_encFields env flds = Inr document" by blast
  have laws: "store_laws env files" using env by (simp add: retime_env_def)
  let ?op = "pathJoin ''snapshots'' (sn_ID (sf_snapshot old))"
  have oldin: "files w ?op \<noteq> None" using old by (auto simp: stored_def)
  obtain r1 w1 where sv: "save env master ''snapshots'' document w = (r1, w1)" by fastforce
  from save_effect[OF env sv] show ?thesis
  proof (elim disjE exE conjE)
    fix e assume "r1 = Inl e" "files w1 = files w"
    then show ?thesis using wc fd sv by (auto simp: writeCopy_def bindM_def liftE_def)
  next
    fix sealed sid
    assume x: "keyDecrypt env master sealed = Inr document" "isID sid" "\<forall>i. r1 = Inr i \<longrightarrow> i = sid"
      "files w (pathJoin ''snapshots'' sid) = None" "files w1 = (files w)(pathJoin ''snapshots'' sid \<mapsto> sealed)"
    from stored_copy[OF env old fd x(1,2), of "files w1"] x(5) obtain f where
      f: "parseSnapshot env sid document = Inr f" "stored env master (files w1) f" "sn_ID (sf_snapshot f) = sid"
        "sn_Time (sf_snapshot f) = at" "sn_Original (sf_snapshot f) = originOf (sf_snapshot old)"
        "sn_Tags (sf_snapshot f) = addTags (sn_Tags (sf_snapshot old)) tags" "sf_fields f = flds" by auto
    have same: "sameContent old f" unfolding sameContent_def f(7) using copyFields_rest[OF fd(1)] by blast
    have ne: "sid \<noteq> sn_ID (sf_snapshot old)" using x(4) oldin by auto
    show ?thesis
    proof (cases r1)
      case (Inl e)
      then have "r = Inl e \<and> w' = w1" using wc fd sv by (auto simp: writeCopy_def bindM_def liftE_def)
      then have ?copy using f(2-6) same x ne by (intro exI[of _ f]) auto
      then show ?thesis ..
    next
      case (Inr i)
      obtain r2 w2 where rm: "re_Remove env ?op w1 = (r2, w2)" by fastforce
      have res: "w' = w2 \<and> (\<forall>s. r = Inr s \<longrightarrow> s = sf_snapshot f \<and> (\<exists>u. r2 = Inr u))"
        using wc fd sv Inr x(3) rm f(1) by (auto simp: writeCopy_def call_simps split: sum.splits)
      have "isID (sn_ID (sf_snapshot old))" using old by (simp add: stored_def)
      then have fw: "files w2 = (files w1)(?op := None) \<or> (\<exists>e. r2 = Inl e) \<and> files w2 = files w1"
        using storeRemove[OF laws _ rm] by simp
      then have st: "stored env master (files w2) f" using f(2,3) ne by (auto intro: stored_upd)
      have ?copy using f(3-6) same x ne fw st res by (intro exI[of _ f]) auto
      then show ?thesis ..
    qed
  qed
qed

text \<open>What a call of \<open>retime\<close> did when it moved \<open>old\<close> to the copy \<open>f\<close>.\<close>

definition moved :: "'w resticEnv \<Rightarrow> key \<Rightarrow> smap \<Rightarrow> smap \<Rightarrow> snapshotFile \<Rightarrow> gtime \<Rightarrow> string list \<Rightarrow> snapshotFile \<Rightarrow> gerr + snapshot \<Rightarrow> bool" where
  "moved env master fm fm' old at tags f r =
     (stored env master fm old \<and> stored env master fm' f \<and> isCopy (sf_snapshot old) at (hd tags) (sf_snapshot f) \<and>
      (stored env master fm f \<or> sameContent old f \<and> set tags \<union> set (sn_Tags (sf_snapshot old)) = set (sn_Tags (sf_snapshot f))) \<and>
      (\<forall>p. p \<noteq> pathJoin ''snapshots'' (sn_ID (sf_snapshot old)) \<longrightarrow> fm p = None \<or> fm' p = fm p) \<and>
      (\<forall>p. p \<noteq> pathJoin ''snapshots'' (sn_ID (sf_snapshot f)) \<longrightarrow> fm' p = None \<or> fm' p = fm p) \<and>
      (\<forall>s. r = Inr s \<longrightarrow> s = sf_snapshot f \<and> fm' (pathJoin ''snapshots'' (sn_ID (sf_snapshot old))) = None))"

lemma writeCopy_moved:
  assumes env: "retime_env env master files cd" and old: "stored env master (files w) old"
    and wc: "writeCopy env master old at (tag # extra) w = (r, w')"
  shows "(\<exists>e. r = Inl e) \<and> files w' = files w \<or> (\<exists>f. moved env master (files w) (files w') old at (tag # extra) f r)"
proof (cases "(\<exists>e. r = Inl e) \<and> files w' = files w")
  case False
  let ?fp = "\<lambda>f :: snapshotFile. pathJoin ''snapshots'' (sn_ID (sf_snapshot f))"
  from writeCopy_effect[OF env old wc] False obtain f where
    f: "stored env master (files w') f" "files w (?fp f) = None" "sn_Time (sf_snapshot f) = at"
      "sn_Original (sf_snapshot f) = originOf (sf_snapshot old)"
      "sn_Tags (sf_snapshot f) = addTags (sn_Tags (sf_snapshot old)) (tag # extra)" "sameContent old f"
    and fr: "\<forall>p. p \<noteq> ?fp f \<longrightarrow> p \<noteq> ?fp old \<longrightarrow> files w' p = files w p"
    and op: "files w' (?fp old) = None \<or> files w' (?fp old) = files w (?fp old)"
    and r: "\<forall>s. r = Inr s \<longrightarrow> s = sf_snapshot f \<and> files w' (?fp old) = None"
    by blast
  have "files w (?fp old) \<noteq> None" using old by (auto simp: stored_def)
  then have "sn_ID (sf_snapshot f) \<noteq> sn_ID (sf_snapshot old)" using f(2) by auto
  moreover have "set (sn_Tags (sf_snapshot f)) = set (sn_Tags (sf_snapshot old)) \<union> set (tag # extra)"
    by (simp only: f(5) set_addTags)
  moreover have "\<forall>p. p \<noteq> ?fp old \<longrightarrow> files w p = None \<or> files w' p = files w p"
  proof (intro allI impI)
    fix p assume "p \<noteq> ?fp old"
    then show "files w p = None \<or> files w' p = files w p" using fr f(2) by (cases "p = ?fp f") auto
  qed
  moreover have "\<forall>p. p \<noteq> ?fp f \<longrightarrow> files w' p = None \<or> files w' p = files w p"
  proof (intro allI impI)
    fix p assume "p \<noteq> ?fp f"
    then show "files w' p = None \<or> files w' p = files w p" using fr op by (cases "p = ?fp old") auto
  qed
  ultimately have "moved env master (files w) (files w') old at (tag # extra) f r"
    unfolding moved_def isCopy_def using f(1,3,4,6) old r by (simp add: Un_commute)
  then show ?thesis by blast
qed blast

lemma retime_moved:
  assumes env: "retime_env env master files cd" and sf: "snapshotFiles env master w = (Inr fs, w1)"
    and old: "find (\<lambda>f. hasPrefix (sn_ID (sf_snapshot f)) sid) fs = Some old"
    and rt: "retime env master sid at (tag # extra) w = (r, w')"
  shows "(\<exists>e. r = Inl e) \<and> files w' = files w \<or> (\<exists>f. moved env master (files w) (files w') old at (tag # extra) f r)"
proof -
  have laws: "store_laws env files" "\<And>fs. mset (re_sortFiles env fs) = mset fs"
    using env by (simp_all add: retime_env_def)
  note st = snapshotFiles_Inr[OF laws sf]
  have o: "stored env master (files w) old" using old by (intro st(2)) (auto simp: find_Some_iff)
  let ?op = "pathJoin ''snapshots'' (sn_ID (sf_snapshot old))"
  let ?q = "\<lambda>f. let s = sf_snapshot f in sn_ID s \<noteq> sn_ID (sf_snapshot old) \<and>
      sn_Original s = originOf (sf_snapshot old) \<and> sn_Time s = at \<and> tag \<in> set (sn_Tags s)"
  show ?thesis
  proof (cases "find ?q fs")
    case None
    then have "writeCopy env master old at (tag # extra) w1 = (r, w')"
      using rt sf old by (simp add: retime_def bindM_def Let_def)
    from writeCopy_moved[OF env _ this] o st(1) show ?thesis by simp
  next
    case (Some c)
    then have c: "stored env master (files w) c" "isCopy (sf_snapshot old) at tag (sf_snapshot c)"
      by (auto simp: find_Some_iff isCopy_def Let_def intro: st(2))
    obtain r2 w2 where rm: "re_Remove env ?op w1 = (r2, w2)" by fastforce
    have "isID (sn_ID (sf_snapshot old))" using o by (simp add: stored_def)
    note rmv = storeRemove[OF laws(1) _ rm]
    have res: "w' = w2" "\<forall>s. r = Inr s \<longrightarrow> s = sf_snapshot c \<and> (\<exists>u. r2 = Inr u)"
      using rt sf old Some rm by (auto simp: retime_def call_simps Let_def split: sum.splits)
    have fw: "files w2 = (files w)(?op := None) \<or> (\<exists>e. r2 = Inl e) \<and> files w2 = files w"
      using rmv st(1) \<open>isID (sn_ID (sf_snapshot old))\<close> by simp
    have "stored env master (files w2) c" using fw c by (auto intro: stored_upd simp: isCopy_def)
    then have "moved env master (files w) (files w') old at (tag # extra) c r"
      unfolding moved_def using c o fw res by auto
    then show ?thesis by blast
  qed
qed

text \<open>The three outcomes of a call: nothing changed and an error; the copy of an earlier call found
  and nothing changed; a snapshot moved.\<close>

lemma retime_outcome:
  assumes env: "retime_env env master files cd" and rt: "retime env master sid at (tag # extra) w = (r, w')"
  obtains e where "r = Inl e" "files w' = files w"
  | f where "r = Inr (sf_snapshot f)" "files w' = files w" "stored env master (files w) f"
      "hasPrefix (sn_Original (sf_snapshot f)) sid" "tag \<in> set (sn_Tags (sf_snapshot f))"
      "\<And>n. isID n \<Longrightarrow> files w (pathJoin ''snapshots'' n) \<noteq> None \<Longrightarrow> \<not> hasPrefix n sid"
  | old f where "moved env master (files w) (files w') old at (tag # extra) f r" "hasPrefix (sn_ID (sf_snapshot old)) sid"
proof -
  have laws: "store_laws env files" "\<And>fs. mset (re_sortFiles env fs) = mset fs"
    using env by (simp_all add: retime_env_def)
  obtain r1 w1 where sf: "snapshotFiles env master w = (r1, w1)" by fastforce
  have w1: "files w1 = files w" using keepsD[OF keeps_snapshotFiles[OF laws(1)] sf] .
  show thesis
  proof (cases r1)
    case (Inl e)
    then show thesis using rt sf w1 that(1) by (auto simp: retime_def bindM_def)
  next
    case (Inr fs)
    note sf' = sf[unfolded Inr] and st = snapshotFiles_Inr[OF laws sf[unfolded Inr]]
    show thesis
    proof (cases "find (\<lambda>f. hasPrefix (sn_ID (sf_snapshot f)) sid) fs")
      case None
      then have none: "\<not> hasPrefix n sid" if "isID n" "files w (pathJoin ''snapshots'' n) \<noteq> None" for n
        using st(3)[OF that] by (auto simp: find_None_iff)
      from rt sf' None have "(\<exists>e. r = Inl e) \<and> w' = w1 \<or>
          (\<exists>f \<in> set fs. r = Inr (sf_snapshot f) \<and> w' = w1 \<and> hasPrefix (sn_Original (sf_snapshot f)) sid \<and> tag \<in> set (sn_Tags (sf_snapshot f)))"
        by (auto simp: retime_def call_simps find_Some_iff split: option.splits)
      then show thesis using that(1,2) st(2) w1 none by blast
    next
      case (Some old)
      then have "hasPrefix (sn_ID (sf_snapshot old)) sid" by (auto simp: find_Some_iff)
      with retime_moved[OF env sf' Some rt] that(1,3) show thesis by blast
    qed
  qed
qed

text \<open>The content of a snapshot survives its move: the copy has it, and the snapshots of one origin are
  still copies of each other.\<close>

lemma moved_stored:
  assumes m: "moved env master fm fm' old at tags f r" and g: "stored env master fm' g"
  shows "stored env master fm g \<or> g = f"
proof (cases "sn_ID (sf_snapshot g) = sn_ID (sf_snapshot f)")
  case True
  have "stored env master fm' f" using m unfolding moved_def by (elim conjE)
  from stored_unique[OF g this True] show ?thesis ..
next
  case False
  then have ne: "pathJoin ''snapshots'' (sn_ID (sf_snapshot g)) \<noteq> pathJoin ''snapshots'' (sn_ID (sf_snapshot f))" by simp
  have "\<forall>p. p \<noteq> pathJoin ''snapshots'' (sn_ID (sf_snapshot f)) \<longrightarrow> fm' p = None \<or> fm' p = fm p"
    using m unfolding moved_def by (elim conjE)
  with ne have "fm' (pathJoin ''snapshots'' (sn_ID (sf_snapshot g))) = None \<or>
      fm' (pathJoin ''snapshots'' (sn_ID (sf_snapshot g))) = fm (pathJoin ''snapshots'' (sn_ID (sf_snapshot g)))" by (elim allE impE)
  moreover have "fm' (pathJoin ''snapshots'' (sn_ID (sf_snapshot g))) \<noteq> None" using g unfolding stored_def by (elim conjE exE) simp
  ultimately have "fm (pathJoin ''snapshots'' (sn_ID (sf_snapshot g))) = fm' (pathJoin ''snapshots'' (sn_ID (sf_snapshot g)))" by simp
  with g have "stored env master fm g" by (rule stored_same_file)
  then show ?thesis ..
qed

lemma moved_copies:
  assumes m: "moved env master fm fm' old at tags f r" and inv: "repoCopies env master fm"
  shows "sameContent old f" and "repoCopies env master fm'"
proof -
  have old: "stored env master fm old" and f: "stored env master fm' f"
    and so: "sn_Original (sf_snapshot f) = originOf (sf_snapshot old)"
    and c: "stored env master fm f \<or> sameContent old f"
    using m unfolding moved_def isCopy_def by (elim conjE; (assumption | blast))+
  have "originOf (sf_snapshot old) \<noteq> []" using old by (auto simp: stored_def originOf_def isID_def)
  then have o: "originOf (sf_snapshot f) = originOf (sf_snapshot old)" using so by (simp add: originOf_def)
  show same: "sameContent old f" using c repoCopiesD[OF inv old _ o[symmetric]] by blast
  show "repoCopies env master fm'" by (rule repoCopies_add[OF inv old f same o moved_stored[OF m]])
qed

text \<open>C5. Crash safety of the rewrite. Whatever happens during \<open>retime\<close> (an error in any call, also
  one whose effect took place), every file of the repository is still there unchanged, except that
  the one snapshot being moved may be gone, and then a copy of it with the new time, the tag and its
  origin is stored under another ID. The copy that the call wrote has every other field of the
  snapshot's document as it was, the tree among them, and every tag asked for beside the snapshot's own;
  one that an earlier call wrote has those fields too when the repository's snapshots of one origin are
  copies of each other, which is kept.\<close>

theorem retime_keeps_data:
  assumes env: "retime_env env master files cd" and rt: "retime env master sid at (tag # extra) w = (r, w')"
    and x: "files w p = Some x"
  shows "(files w' p = Some x \<or>
    (\<exists>(old :: snapshotFile) copy. p = pathJoin ''snapshots'' (sn_ID (sf_snapshot old)) \<and> hasPrefix (sn_ID (sf_snapshot old)) sid \<and>
      stored env master (files w) old \<and> stored env master (files w') copy \<and>
      isCopy (sf_snapshot old) at tag (sf_snapshot copy) \<and>
      (stored env master (files w) copy \<or>
       sameContent old copy \<and> set (tag # extra) \<union> set (sn_Tags (sf_snapshot old)) = set (sn_Tags (sf_snapshot copy))) \<and>
      (repoCopies env master (files w) \<longrightarrow> sameContent old copy))) \<and>
    (repoCopies env master (files w) \<longrightarrow> repoCopies env master (files w'))"
  using env rt
proof (cases rule: retime_outcome)
  case (3 old f)
  note m = 3(1)
  have k: "repoCopies env master (files w) \<longrightarrow> repoCopies env master (files w')" using moved_copies(2)[OF m] by blast
  show ?thesis
  proof (cases "p = pathJoin ''snapshots'' (sn_ID (sf_snapshot old))")
    case True
    have "repoCopies env master (files w) \<longrightarrow> sameContent old f" using moved_copies(1)[OF m] by blast
    then show ?thesis using True k 3 unfolding moved_def list.sel by blast
  next
    case False
    then have "files w p = None \<or> files w' p = files w p" using m unfolding moved_def by blast
    then show ?thesis using x k by simp
  qed
qed (use x in simp_all)

text \<open>When \<open>retime\<close> succeeds, the snapshot it returns is stored and tagged, and either it was
  moved by an earlier call and nothing changed, or it is a copy of the snapshot asked for with
  exactly the new time and the old snapshot's file is gone.\<close>

theorem retime_success:
  assumes env: "retime_env env master files cd" and rt: "retime env master sid at (tag # extra) w = (Inr s, w')"
  shows "\<exists>f. sf_snapshot f = s \<and> stored env master (files w') f \<and> tag \<in> set (sn_Tags s) \<and>
    ((files w' = files w \<and> hasPrefix (sn_Original s) sid) \<or>
     (\<exists>old. stored env master (files w) old \<and> hasPrefix (sn_ID (sf_snapshot old)) sid \<and>
        isCopy (sf_snapshot old) at tag s \<and> files w' (pathJoin ''snapshots'' (sn_ID (sf_snapshot old))) = None))"
  using env rt
proof (cases rule: retime_outcome)
  case (2 f)
  then show ?thesis by (intro exI[of _ f]) auto
next
  case (3 old f)
  then have "s = sf_snapshot f" "stored env master (files w') f" "stored env master (files w) old"
      "isCopy (sf_snapshot old) at tag (sf_snapshot f)"
      "files w' (pathJoin ''snapshots'' (sn_ID (sf_snapshot old))) = None"
    unfolding moved_def list.sel by blast+
  then show ?thesis using 3(2) by (intro exI[of _ f]) (auto simp: isCopy_def)
qed simp

text \<open>C28. A controller that restarts before it recorded the new ID gets the same snapshot back. Once a
  snapshot that a backup wrote (its original field is empty) was moved, a second call with its ID
  changes no file and returns the very snapshot of the first call, unless the listing of the repository
  fails, and then with the listing's error, provided no other snapshot of the repository has that ID as a
  prefix of its ID or original.\<close>

theorem retime_idempotent:
  assumes env: "retime_env env master files cd"
    and rt: "retime env master sid at (tag # extra) w = (Inr s, w')"
    and again: "retime env master sid at (tag # extra) w' = (r, w'')"
    and one: "\<And>f. stored env master (files w) f \<Longrightarrow> hasPrefix (sn_ID (sf_snapshot f)) sid \<Longrightarrow> sn_ID (sf_snapshot f) = sid \<and> sn_Original (sf_snapshot f) = []"
    and new: "\<And>f. stored env master (files w) f \<Longrightarrow> \<not> hasPrefix (sn_Original (sf_snapshot f)) sid"
    and fresh: "\<not> hasPrefix (sn_ID s) sid"
  shows "files w'' = files w' \<and> (r = Inr s \<or> (\<exists>e. snapshotFiles env master w' = (Inl e, w'') \<and> r = Inl e))"
proof -
  from env rt obtain old f where m: "moved env master (files w) (files w') old at (tag # extra) f (Inr s)"
    and p: "hasPrefix (sn_ID (sf_snapshot old)) sid"
    by (cases rule: retime_outcome) (use new in blast)+
  then have o: "stored env master (files w) old" and s: "s = sf_snapshot f"
      and gone: "files w' (pathJoin ''snapshots'' (sn_ID (sf_snapshot old))) = None"
      and f: "stored env master (files w') f" "isCopy (sf_snapshot old) at tag (sf_snapshot f)"
    unfolding moved_def list.sel by blast+
  from one[OF o p] f(2) have oid: "sn_ID (sf_snapshot old) = sid"
      and ftag: "tag \<in> set (sn_Tags (sf_snapshot f))" and forig: "sn_Original (sf_snapshot f) = sid"
    by (simp_all add: isCopy_def originOf_def)
  have nopre: "\<not> hasPrefix (sn_ID (sf_snapshot g)) sid" if g: "stored env master (files w') g" for g
  proof
    assume h: "hasPrefix (sn_ID (sf_snapshot g)) sid"
    then have "g \<noteq> f" using fresh s by auto
    with moved_stored[OF m g] one h have "sn_ID (sf_snapshot g) = sid" by blast
    then show False using g gone oid by (auto simp: stored_def)
  qed
  have laws: "store_laws env files" "\<And>fs. mset (re_sortFiles env fs) = mset fs"
    using env by (simp_all add: retime_env_def)
  obtain r1 w1 where sf: "snapshotFiles env master w' = (r1, w1)" by fastforce
  have w1: "files w1 = files w'" using keepsD[OF keeps_snapshotFiles[OF laws(1)] sf] .
  show ?thesis
  proof (cases r1)
    case (Inl e)
    then show ?thesis using again sf w1 by (auto simp: retime_def bindM_def)
  next
    case (Inr fs)
    note st = snapshotFiles_Inr[OF laws sf[unfolded Inr]]
    let ?q = "\<lambda>g. hasPrefix (sn_Original (sf_snapshot g)) sid \<and> tag \<in> set (sn_Tags (sf_snapshot g))"
    have none: "find (\<lambda>g. hasPrefix (sn_ID (sf_snapshot g)) sid) fs = None"
      using nopre st(2) by (auto simp: find_None_iff)
    have "isID (sn_ID (sf_snapshot f))" "files w' (pathJoin ''snapshots'' (sn_ID (sf_snapshot f))) \<noteq> None"
      using f(1) by (auto simp: stored_def)
    from st(3)[OF this] obtain g where g: "g \<in> set fs" "sn_ID (sf_snapshot g) = sn_ID (sf_snapshot f)" by blast
    from stored_unique[OF st(2)[OF g(1)] f(1) g(2)] g(1) have "f \<in> set fs" by simp
    moreover have "?q f" using ftag forig by (simp add: hasPrefix_iff)
    ultimately obtain h where h: "find ?q fs = Some h" by (cases "find ?q fs") (auto simp: find_None_iff)
    then have "stored env master (files w') h" "?q h" by (auto simp: find_Some_iff intro: st(2))
    with moved_stored[OF m] new have "h = f" by blast
    then show ?thesis using again sf Inr none h s w1 by (auto simp: retime_def call_simps)
  qed
qed

end
