(* ===== verification/Retime_Example.thy ===== *)
theory Retime_Example
  imports Retime
begin

text \<open>
  A repository in memory that keeps the promises of \<open>retime_env\<close>, with one snapshot, and the
  theorems on \<open>retime\<close> applied to it. A document is an open brace and four fields separated by
  semicolons; the cipher is the identity, so only the layout of a sealed file matters here.
\<close>

type_synonym memFiles = "(string \<times> string) list"

definition memKeys :: "string list" where
  "memKeys = [''time'', ''paths'', ''tags'', ''original'']"

definition memField :: "string option \<Rightarrow> string" where
  "memField v = (case v of None \<Rightarrow> ''N'' | Some x \<Rightarrow> CHR ''S'' # x)"

definition memUnfield :: "string \<Rightarrow> string option" where
  "memUnfield s = (case s of c # x \<Rightarrow> if c = CHR ''S'' then Some x else None | [] \<Rightarrow> None)"

definition memMap :: "string \<Rightarrow> string \<Rightarrow> string \<Rightarrow> string \<Rightarrow> smap" where
  "memMap a b c d = (\<lambda>k. if k = ''time'' then memUnfield a else if k = ''paths'' then memUnfield b
     else if k = ''tags'' then memUnfield c else if k = ''original'' then memUnfield d else None)"

definition memEncFields :: "smap \<Rightarrow> gerr + string" where
  "memEncFields f =
     (if (\<forall>k. k \<notin> set memKeys \<longrightarrow> f k = None) \<and> (\<forall>k \<in> set memKeys. CHR '';'' \<notin> set (memField (f k)))
      then Inr (CHR ''{'' # joinStr '';'' (map (\<lambda>k. memField (f k)) memKeys)) else Inl (Plain []))"

definition memDecFields :: "string \<Rightarrow> gerr + smap" where
  "memDecFields doc =
     (case doc of c # s \<Rightarrow> (case splitAll (CHR '';'') s of [a, b, c, d] \<Rightarrow> Inr (memMap a b c d) | _ \<Rightarrow> Inl (Plain [])) | [] \<Rightarrow> Inl (Plain []))"

definition memCodec :: codec where
  "memCodec = \<lparr>cd_time = (\<lambda>v. Some (case v of Some x \<Rightarrow> decVal x | None \<Rightarrow> 0)), cd_paths = (\<lambda>v. Some []),
     cd_tags = (\<lambda>v. Some (case v of Some x \<Rightarrow> splitAll (CHR '','') x | None \<Rightarrow> [])),
     cd_original = (\<lambda>v. Some (case v of Some x \<Rightarrow> x | None \<Rightarrow> []))\<rparr>"

definition memSha :: "string \<Rightarrow> string" where
  "memSha x = take 16 (x @ replicate 16 (CHR 0x00)) @ replicate 16 (CHR 0x00)"

definition memIV :: "memFiles \<Rightarrow> string option" where
  "memIV w = find (\<lambda>iv. map_of w (pathJoin ''snapshots'' (hexEncode (memSha iv))) = None)
     [replicate 16 (CHR 0xAA), replicate 16 (CHR 0xBB)]"

fun memList :: "string \<Rightarrow> memFiles \<Rightarrow> string list" where
  "memList d [] = []"
| "memList d ((p, x) # w) =
     (case cutPrefix p (pathJoin d []) of
        Some n \<Rightarrow> if n \<noteq> [] \<and> CHR ''/'' \<notin> set n then n # memList d w else memList d w
      | None \<Rightarrow> memList d w)"

definition memEnv :: "memFiles resticEnv" where
  "memEnv = env0\<lparr>
     re_List := \<lambda>d w. (Inr (memList d w), w),
     re_Get := \<lambda>n w. (case map_of w n of Some x \<Rightarrow> Inr x | None \<Rightarrow> Inl (NotFound n), w),
     re_Put := \<lambda>n x w. (Inr (), (n, x) # w),
     re_Remove := \<lambda>n w. (Inr (), filter (\<lambda>(p, _). p \<noteq> n) w),
     re_rand := \<lambda>n w. (case memIV w of Some iv \<Rightarrow> if n = 16 then Inr iv else Inl (Plain []) | None \<Rightarrow> Inl (Plain []), w),
     re_sha256 := memSha,
     re_decFields := memDecFields,
     re_decSnapshot := \<lambda>doc. (case memDecFields doc of Inl e \<Rightarrow> Inl e | Inr f \<Rightarrow>
        (case decodeFields memCodec f of Some j \<Rightarrow> Inr j | None \<Rightarrow> Inl (Plain []))),
     re_encFields := memEncFields,
     re_encTime := \<lambda>t. if t \<ge> 0 then Inr (natStr (nat t)) else Inl (Plain []),
     re_encStrings := \<lambda>g. if g \<noteq> [] \<and> (\<forall>t \<in> set g. CHR '','' \<notin> set t) then Inr (joinStr '','' g) else Inl (Plain []),
     re_encString := Inr\<rparr>"

lemma memUnfield_memField [simp]: "memUnfield (memField v) = v"
  by (cases v) (simp_all add: memUnfield_def memField_def)

lemma memDec_memEnc:
  assumes "memEncFields f = Inr doc"
  shows "memDecFields doc = Inr f \<and> hd doc = CHR ''{'' \<and> doc \<noteq> []"
proof -
  from assms have k: "\<forall>k. k \<notin> set memKeys \<longrightarrow> f k = None" "\<forall>k \<in> set memKeys. CHR '';'' \<notin> set (memField (f k))"
    and d: "doc = CHR ''{'' # joinStr '';'' (map (\<lambda>k. memField (f k)) memKeys)"
    by (auto simp: memEncFields_def split: if_splits)
  have "splitAll (CHR '';'') (joinStr '';'' (map (\<lambda>k. memField (f k)) memKeys)) = map (\<lambda>k. memField (f k)) memKeys"
    using k(2) by (intro splitAll_joinStr) (auto simp: memKeys_def)
  moreover have "memMap (memField (f ''time'')) (memField (f ''paths'')) (memField (f ''tags'')) (memField (f ''original'')) = f"
  proof (rule ext)
    show "memMap (memField (f ''time'')) (memField (f ''paths'')) (memField (f ''tags'')) (memField (f ''original'')) x = f x" for x
      using k(1)[rule_format, of x] by (simp add: memMap_def memKeys_def)
  qed
  ultimately show ?thesis by (simp add: d memDecFields_def memKeys_def)
qed

lemma memDecSnapshot: "re_decSnapshot memEnv doc = Inr j \<longleftrightarrow> (\<exists>f. memDecFields doc = Inr f \<and> decodeFields memCodec f = Some j)"
  by (simp add: memEnv_def split: sum.splits option.splits)

lemma memSplitTags: "g \<noteq> [] \<Longrightarrow> \<forall>t \<in> set g. CHR '','' \<notin> set t \<Longrightarrow> splitAll (CHR '','') (joinStr '','' g) = g"
  by (rule splitAll_joinStr)

lemma memEnv_fields:
  "re_decFields memEnv = memDecFields" "re_encFields memEnv = memEncFields" "re_encString memEnv = Inr"
  by (simp_all add: memEnv_def)

lemma memEncTime: "re_encTime memEnv t = Inr j \<longleftrightarrow> 0 \<le> t \<and> j = natStr (nat t)"
  by (auto simp: memEnv_def)

lemma memEncStrings: "re_encStrings memEnv g = Inr j \<longleftrightarrow> g \<noteq> [] \<and> (\<forall>t \<in> set g. CHR '','' \<notin> set t) \<and> j = joinStr '','' g"
  by (auto simp: memEnv_def)

lemma memEnv_codec: "codec_laws memEnv memCodec"
  unfolding codec_laws_def memDecSnapshot memEnv_fields memEncTime memEncStrings
  using memDec_memEnc memSplitTags by (auto simp: memCodec_def)

lemma map_of_filter_key: "map_of (filter (\<lambda>(p, _). p \<noteq> n) w) = (map_of w)(n := None)"
  by (induction w) (auto simp: fun_eq_iff)

lemma memList_set: "set (memList d w) = {n. n \<noteq> [] \<and> map_of w (pathJoin d n) \<noteq> None \<and> CHR ''/'' \<notin> set n}"
proof (induction w)
  case (Cons px w)
  obtain p x where px: "px = (p, x)" by (cases px)
  have c: "cutPrefix p (pathJoin d []) = Some n \<longleftrightarrow> p = pathJoin d n" for n
    by (simp add: cutPrefix_Some_iff pathJoin_def)
  show ?case
  proof (cases "cutPrefix p (pathJoin d [])")
    case None
    then have "p \<noteq> pathJoin d n" for n using c[of n] by simp
    then show ?thesis using Cons None px by auto
  next
    case (Some n)
    then have "p = pathJoin d n" using c by simp
    then show ?thesis using Cons Some px by auto
  qed
qed simp

lemma memEnv_store: "store_laws memEnv map_of"
  unfolding store_laws_def
  by (auto simp: memEnv_def env0_def keeps_def ret_def map_of_filter_key memList_set changesTo_def listLaw_def getLaw_def split: option.splits)

lemma memIV_Some: "memIV w = Some iv \<Longrightarrow> length iv = 16 \<and> map_of w (pathJoin ''snapshots'' (hexEncode (memSha iv))) = None"
  unfolding memIV_def by (auto split: if_splits)

lemma memSha_append: "length iv = 16 \<Longrightarrow> memSha (iv @ r) = memSha iv"
  by (simp add: memSha_def)

lemma memEnv_seal_fresh:
  assumes "keySeal memEnv key0 doc w = (Inr sealed, w')"
  shows "map_of w (pathJoin ''snapshots'' (hexEncode (memSha sealed))) = None"
proof -
  from keySeal_Inr[OF wfKey_key0 assms] obtain iv mac where
    iv: "re_rand memEnv ivSize w = (Inr iv, w')" and s: "sealed = iv @ re_ctr memEnv (k_encrypt key0) iv doc @ mac" by blast
  have "re_rand memEnv ivSize w = (case memIV w of Some iv \<Rightarrow> Inr iv | None \<Rightarrow> Inl (Plain []), w)"
    by (simp add: memEnv_def ivSize_def split: option.splits)
  then have m: "memIV w = Some iv" using iv by (simp split: option.splits)
  show ?thesis using memIV_Some[OF m] memSha_append unfolding s by simp
qed

lemma memEnv_fresh: "fresh_ids memEnv key0 map_of"
proof -
  have sha: "re_sha256 memEnv = memSha" by (simp add: memEnv_def)
  have len: "length (memSha x) = 32" for x by (simp add: memSha_def)
  show ?thesis unfolding fresh_ids_def sha using len by (auto dest: memEnv_seal_fresh split: prod.splits sum.splits)
qed

lemma memEnv_cipher: "cipher_laws memEnv"
  by (auto simp: cipher_laws_def memEnv_def env0_def macSize_def memIV_Some split: option.splits)

lemma memEnv_ok: "retime_env memEnv key0 map_of memCodec"
  unfolding retime_env_def using memEnv_codec memEnv_store memEnv_fresh memEnv_cipher wfKey_key0
  by (simp add: memEnv_def env0_def)

section \<open>One snapshot moved\<close>

definition memID :: string where "memID = replicate 64 (CHR ''a'')"

definition memDoc :: string where "memDoc = ''{S5;S/data;N;N''"

definition memStart :: memFiles where
  "memStart = [(pathJoin ''snapshots'' memID, replicate 16 (CHR ''r'') @ memDoc @ replicate 16 (CHR ''m''))]"

definition memOld :: snapshotFile where
  "memOld = \<lparr>sf_snapshot = \<lparr>sn_ID = memID, sn_Time = 5, sn_Paths = [], sn_Tags = [], sn_Original = []\<rparr>,
             sf_fields = [''time'' \<mapsto> ''5'', ''paths'' \<mapsto> ''/data'']\<rparr>"

lemma memID_isID: "isID memID"
  by (simp add: isID_def memID_def isHexDigit_def list_all_iff)

lemma memParse: "parseSnapshot memEnv memID memDoc = Inr memOld"
proof -
  have "memDecFields memDoc = Inr [''time'' \<mapsto> ''5'', ''paths'' \<mapsto> ''/data'']"
    by (auto simp: memDecFields_def memDoc_def memMap_def memUnfield_def fun_eq_iff)
  moreover have "decodeFields memCodec [''time'' \<mapsto> ''5'', ''paths'' \<mapsto> ''/data''] = Some \<lparr>sj_Time = 5, sj_Paths = [], sj_Tags = [], sj_Original = []\<rparr>"
    by (simp add: decodeFields_def memCodec_def decVal_def digitVal_def)
  ultimately have "re_decSnapshot memEnv memDoc = Inr \<lparr>sj_Time = 5, sj_Paths = [], sj_Tags = [], sj_Original = []\<rparr>"
      "re_decFields memEnv memDoc = Inr [''time'' \<mapsto> ''5'', ''paths'' \<mapsto> ''/data'']"
    by (simp_all add: memDecSnapshot memEnv_fields)
  then show ?thesis by (simp add: parseSnapshot_def memOld_def)
qed

lemma memRead: "readSnapshot memEnv key0 memID memStart = (Inr memOld, memStart)"
proof -
  have "re_Get memEnv (pathJoin ''snapshots'' memID) memStart = (Inr (replicate 16 (CHR ''r'') @ memDoc @ replicate 16 (CHR ''m'')), memStart)"
    by (simp add: memEnv_def memStart_def)
  moreover have "keyDecrypt memEnv key0 (replicate 16 (CHR ''r'') @ memDoc @ replicate 16 (CHR ''m'')) = Inr memDoc"
    by (simp add: keyDecrypt_def keyMac_def memEnv_def env0_def key0_def newCipher_def ivSize_def macSize_def Let_def)
  moreover have "unpack memEnv memDoc = Inr memDoc" by (simp add: unpack_def memDoc_def)
  ultimately show ?thesis by (simp add: readSnapshot_def load_def call_simps memParse)
qed

lemma memListing: "snapshotFiles memEnv key0 memStart = (Inr [memOld], memStart)"
proof -
  have "cutPrefix (pathJoin ''snapshots'' memID) (pathJoin ''snapshots'' []) = Some memID"
    by (simp add: cutPrefix_Some_iff pathJoin_def)
  then have "re_List memEnv ''snapshots'' memStart = (Inr [memID], memStart)"
    using isID_no_slash[OF memID_isID] memID_isID by (auto simp: memEnv_def memStart_def isID_def)
  moreover have "re_sortFiles memEnv fs = fs" for fs by (simp add: memEnv_def env0_def)
  ultimately show ?thesis by (simp add: snapshotFiles_def call_simps memID_isID memRead)
qed

lemma memRetime: "\<exists>s w'. retime memEnv key0 memID 7 [''paused'', ''base-backup/db=1''] memStart = (Inr s, w')"
proof -
  define doc where "doc = CHR ''{'' # joinStr '';'' [CHR ''S'' # natStr 7, ''S/data'', ''Spaused,base-backup/db=1'', CHR ''S'' # memID]"
  let ?f = "[''paths'' \<mapsto> ''/data'', ''time'' \<mapsto> natStr 7, ''tags'' \<mapsto> ''paused,base-backup/db=1'', ''original'' \<mapsto> memID]"
  have c: "copyFields memEnv memOld 7 [''paused'', ''base-backup/db=1''] = Inr ?f"
    by (simp add: copyFields_def memOld_def memEnv_def addTags_def)
  have n7: "natStr 7 = ''7''" by code_simp
  have e: "re_encFields memEnv ?f = Inr doc"
    by (simp add: memEnv_fields memEncFields_def memKeys_def memField_def doc_def n7 memID_def)
  have "hexEncode (memSha (replicate 16 (CHR 0xAA))) \<noteq> memID" by code_simp
  then have "memIV memStart = Some (replicate 16 (CHR 0xAA))"
    by (simp add: memIV_def memStart_def)
  then have "\<exists>w'. re_rand memEnv ivSize memStart = (Inr (replicate 16 (CHR 0xAA)), memStart)" by (simp add: memEnv_def ivSize_def)
  then have "\<exists>sealed. keySeal memEnv key0 doc memStart = (Inr sealed, memStart)"
    by (simp add: keySeal_def keyMac_def call_simps newCipher_def key0_def Let_def)
  then obtain sealed where s: "keySeal memEnv key0 doc memStart = (Inr sealed, memStart)" by blast
  then have sv: "\<exists>i w. save memEnv key0 ''snapshots'' doc memStart = (Inr i, w)"
    by (simp add: save_def call_simps memEnv_def Let_def)
  have p: "\<exists>g. parseSnapshot memEnv i doc = Inr g" for i
  proof -
    have cl: "codec_laws memEnv memCodec" by (rule memEnv_codec)
    from copyFields_decode[OF cl memParse c] obtain j where "decodeFields memCodec ?f = Some j" by blast
    with cl e have "re_decFields memEnv doc = Inr ?f" "re_decSnapshot memEnv doc = Inr j" unfolding codec_laws_def by blast+
    then show ?thesis by (simp add: parseSnapshot_def)
  qed
  have rm: "\<exists>w'. re_Remove memEnv n w = (Inr (), w')" for n w by (simp add: memEnv_def)
  from sv obtain i w1 where sv': "save memEnv key0 ''snapshots'' doc memStart = (Inr i, w1)" by blast
  from p[of i] obtain g where p': "parseSnapshot memEnv i doc = Inr g" by blast
  from rm[of "pathJoin ''snapshots'' memID" w1] obtain w2 where rm': "re_Remove memEnv (pathJoin ''snapshots'' memID) w1 = (Inr (), w2)" by blast
  have "sn_ID (sf_snapshot memOld) = memID" by (simp add: memOld_def)
  then have "\<exists>s w'. writeCopy memEnv key0 memOld 7 [''paused'', ''base-backup/db=1''] memStart = (Inr s, w')"
    by (simp add: writeCopy_def call_simps c e sv' rm' p')
  moreover have "hasPrefix memID memID" by (simp add: hasPrefix_iff)
  ultimately show ?thesis by (simp add: retime_def bindM_def memListing memOld_def Let_def)
qed

lemma memStored: "stored memEnv key0 (map_of memStart) f \<longleftrightarrow> f = memOld"
proof
  assume "stored memEnv key0 (map_of memStart) f"
  then have "isID (sn_ID (sf_snapshot f))" "map_of memStart (pathJoin ''snapshots'' (sn_ID (sf_snapshot f))) \<noteq> None"
    unfolding stored_def by auto
  moreover from this have "sn_ID (sf_snapshot f) = memID" by (simp add: memStart_def split: if_splits)
  moreover have "stored memEnv key0 (map_of memStart) memOld"
    using snapshotFiles_Inr(2)[OF memEnv_store _ memListing] by (simp add: memEnv_def env0_def)
  ultimately show "f = memOld" using \<open>stored memEnv key0 (map_of memStart) f\<close> by (auto simp: stored_def memOld_def)
next
  show "f = memOld \<Longrightarrow> stored memEnv key0 (map_of memStart) f"
    using snapshotFiles_Inr(2)[OF memEnv_store _ memListing] by (simp add: memEnv_def env0_def)
qed

lemma memCopies: "repoCopies memEnv key0 (map_of memStart)"
  by (simp add: repoCopies_def memStored)

text \<open>A listing of files that all hold a snapshot succeeds.\<close>

lemma memReadStored:
  assumes "stored memEnv key0 (map_of w) f"
  shows "readSnapshot memEnv key0 (sn_ID (sf_snapshot f)) w = (Inr f, w)"
  using assms by (auto simp: stored_def readSnapshot_def load_def call_simps memEnv_def)

lemma memReadsStored:
  assumes "\<And>n. n \<in> set names \<Longrightarrow> \<exists>f. stored memEnv key0 (map_of w) f \<and> sn_ID (sf_snapshot f) = n"
  shows "\<exists>fs. readSnapshots memEnv key0 names w = (Inr fs, w)"
  using assms
proof (induction names)
  case (Cons n names)
  then obtain f where "stored memEnv key0 (map_of w) f" "sn_ID (sf_snapshot f) = n" by auto
  then have "readSnapshot memEnv key0 n w = (Inr f, w)" using memReadStored by blast
  moreover obtain fs where "readSnapshots memEnv key0 names w = (Inr fs, w)" using Cons by auto
  ultimately show ?case by (simp add: call_simps)
qed (simp add: call_simps)

lemma memListStored:
  assumes "\<And>n. isID n \<Longrightarrow> map_of w (pathJoin ''snapshots'' n) \<noteq> None \<Longrightarrow> \<exists>f. stored memEnv key0 (map_of w) f \<and> sn_ID (sf_snapshot f) = n"
  shows "\<exists>fs. snapshotFiles memEnv key0 w = (Inr fs, w)"
proof -
  have "\<exists>f. stored memEnv key0 (map_of w) f \<and> sn_ID (sf_snapshot f) = n" if "n \<in> set (filter isID (memList ''snapshots'' w))" for n
    using that by (intro assms) (simp_all add: memList_set)
  from memReadsStored[OF this] obtain fs where "readSnapshots memEnv key0 (filter isID (memList ''snapshots'' w)) w = (Inr fs, w)" by blast
  moreover have "re_List memEnv ''snapshots'' w = (Inr (memList ''snapshots'' w), w)" by (simp add: memEnv_def)
  ultimately show ?thesis by (simp add: snapshotFiles_def call_simps)
qed

theorem retime_keeps_data_witness:
  "\<exists>s w'. retime memEnv key0 memID 7 [''paused'', ''base-backup/db=1''] memStart = (Inr s, w') \<and>
     (map_of w' (pathJoin ''snapshots'' memID) = map_of memStart (pathJoin ''snapshots'' memID) \<or>
      (\<exists>copy. stored memEnv key0 (map_of w') copy \<and> sf_fields copy ''paths'' = Some ''/data'')) \<and>
     repoCopies memEnv key0 (map_of w')"
proof -
  obtain s w' where r: "retime memEnv key0 memID 7 [''paused'', ''base-backup/db=1''] memStart = (Inr s, w')"
    using memRetime by blast
  obtain x where x: "map_of memStart (pathJoin ''snapshots'' memID) = Some x" by (simp add: memStart_def)
  note k = retime_keeps_data[where files = map_of and p = "pathJoin ''snapshots'' memID" and w = memStart and x = x, OF memEnv_ok r x]
  have c: "sf_fields copy ''paths'' = Some ''/data''" if "sameContent memOld copy" for copy
  proof -
    have "sf_fields copy ''paths'' = sf_fields memOld ''paths''" using that unfolding sameContent_def by simp
    then show ?thesis by (simp add: memOld_def)
  qed
  have "map_of w' (pathJoin ''snapshots'' memID) = Some x \<or>
      (\<exists>(old :: snapshotFile) copy. stored memEnv key0 (map_of memStart) old \<and> stored memEnv key0 (map_of w') copy \<and> sameContent old copy)"
    using conjunct1[OF k] memCopies by blast
  then have "map_of w' (pathJoin ''snapshots'' memID) = Some x \<or>
      (\<exists>copy. stored memEnv key0 (map_of w') copy \<and> sf_fields copy ''paths'' = Some ''/data'')"
    unfolding memStored using c by blast
  moreover have "repoCopies memEnv key0 (map_of w')" using conjunct2[OF k] memCopies by blast
  ultimately show ?thesis using r x by auto
qed

theorem retime_success_witness:
  "\<exists>s w'. retime memEnv key0 memID 7 [''paused'', ''base-backup/db=1''] memStart = (Inr s, w') \<and>
     isCopy (sf_snapshot memOld) 7 ''paused'' s \<and> map_of w' (pathJoin ''snapshots'' memID) = None"
proof -
  obtain s w' where r: "retime memEnv key0 memID 7 [''paused'', ''base-backup/db=1''] memStart = (Inr s, w')"
    using memRetime by blast
  have "\<not> (map_of w' = map_of memStart \<and> hasPrefix (sn_Original s) memID)" if "stored memEnv key0 (map_of w') f" "sf_snapshot f = s" for f
  proof
    assume a: "map_of w' = map_of memStart \<and> hasPrefix (sn_Original s) memID"
    then have "f = memOld" using that memStored by simp
    then have "sn_Original s = []" using that(2) by (auto simp: memOld_def)
    then show False using a by (simp add: hasPrefix_iff memID_def)
  qed
  with retime_success[OF memEnv_ok r] obtain old where "stored memEnv key0 (map_of memStart) old"
      "isCopy (sf_snapshot old) 7 ''paused'' s" "map_of w' (pathJoin ''snapshots'' (sn_ID (sf_snapshot old))) = None" by blast
  moreover from this(1) have "old = memOld" by (simp add: memStored)
  moreover have "sn_ID (sf_snapshot memOld) = memID" by (simp add: memOld_def)
  ultimately show ?thesis using r by auto
qed

text \<open>After the first call the repository holds the copy alone, so the second one can list it.\<close>

lemma memMoved:
  assumes r: "retime memEnv key0 memID 7 [''paused'', ''base-backup/db=1''] memStart = (Inr s, w')"
  obtains f where "moved memEnv key0 (map_of memStart) (map_of w') memOld 7 [''paused'', ''base-backup/db=1''] f (Inr s)" "sn_ID s \<noteq> memID"
    "\<exists>fs. snapshotFiles memEnv key0 w' = (Inr fs, w')"
  using memEnv_ok r
proof (cases rule: retime_outcome)
  case (2 f)
  then have "f = memOld" by (simp add: memStored)
  then show thesis using 2(4) by (simp add: memOld_def hasPrefix_iff memID_def)
next
  case (3 old f)
  then have "stored memEnv key0 (map_of memStart) old" unfolding moved_def by (elim conjE)
  then have "old = memOld" by (simp add: memStored)
  with 3 have m: "moved memEnv key0 (map_of memStart) (map_of w') memOld 7 [''paused'', ''base-backup/db=1''] f (Inr s)" by simp
  have id: "sn_ID (sf_snapshot memOld) = memID" by (simp add: memOld_def)
  have f: "stored memEnv key0 (map_of w') f" "s = sf_snapshot f" "sn_ID s \<noteq> memID" "map_of w' (pathJoin ''snapshots'' memID) = None"
    using m unfolding moved_def isCopy_def id by simp_all
  have fr: "\<forall>p. p \<noteq> pathJoin ''snapshots'' (sn_ID (sf_snapshot f)) \<longrightarrow> map_of w' p = None \<or> map_of w' p = map_of memStart p"
    using m unfolding moved_def by (elim conjE)
  have "sn_ID (sf_snapshot f) = n" if n: "map_of w' (pathJoin ''snapshots'' n) \<noteq> None" for n
  proof (rule ccontr)
    assume "sn_ID (sf_snapshot f) \<noteq> n"
    then have "map_of w' (pathJoin ''snapshots'' n) = map_of memStart (pathJoin ''snapshots'' n)" using fr[rule_format, of "pathJoin ''snapshots'' n"] n by simp
    moreover from this n have "n = memID" by (simp add: memStart_def split: if_splits)
    ultimately show False using f(4) n by simp
  qed
  then have "\<exists>fs. snapshotFiles memEnv key0 w' = (Inr fs, w')" using f(1) by (intro memListStored) blast
  from that[OF m f(3) this] show thesis .
qed simp

theorem retime_idempotent_witness:
  "\<exists>s w' w''. retime memEnv key0 memID 7 [''paused'', ''base-backup/db=1''] memStart = (Inr s, w') \<and>
     retime memEnv key0 memID 7 [''paused'', ''base-backup/db=1''] w' = (Inr s, w'') \<and> map_of w'' = map_of w'"
proof -
  obtain s w' where r: "retime memEnv key0 memID 7 [''paused'', ''base-backup/db=1''] memStart = (Inr s, w')"
    using memRetime by blast
  obtain r2 w2 where again: "retime memEnv key0 memID 7 [''paused'', ''base-backup/db=1''] w' = (r2, w2)" by fastforce
  from memMoved[OF r] obtain f where f: "moved memEnv key0 (map_of memStart) (map_of w') memOld 7 [''paused'', ''base-backup/db=1''] f (Inr s)"
    "sn_ID s \<noteq> memID" "\<exists>fs. snapshotFiles memEnv key0 w' = (Inr fs, w')" .
  have new: "\<not> hasPrefix (sn_Original (sf_snapshot g)) memID" if "stored memEnv key0 (map_of memStart) g" for g
    using that by (simp add: memStored memOld_def hasPrefix_iff memID_def)
  have "stored memEnv key0 (map_of w') f" "s = sf_snapshot f" using f(1) unfolding moved_def by simp_all
  then have "length (sn_ID s) = length memID" by (auto simp: stored_def isID_def memID_def)
  then have "\<not> hasPrefix (sn_ID s) memID" using f(2) by (auto simp: hasPrefix_iff)
  with retime_idempotent[OF memEnv_ok r again] new memStored
  have "map_of w2 = map_of w' \<and> (r2 = Inr s \<or> (\<exists>e. snapshotFiles memEnv key0 w' = (Inl e, w2) \<and> r2 = Inl e))"
    by (auto simp: memOld_def)
  with r again f(3) show ?thesis by auto
qed

end
