(* ===== verification/Base_Backups.thy ===== *)
theory Base_Backups
  imports Go_Time
begin

text \<open>
  The base backups barman wrote for a database, from \<open>src/internal/bootstrap/basebackups.go\<close>. The
  object store's listing and downloads are parameters; \<open>sort.Slice\<close>, which leaves the order of equal
  elements open, is the parameter \<open>sortByEnd\<close>.
\<close>

record baseBackup =
  bb_ID :: string
  bb_End :: gtime

text \<open>Barman writes \<open>2026-09-15 07:32:19.219011+00:00\<close>, with or without a fraction. \<open>time.Parse\<close>
  reads a fraction of any length under either of the two layouts, and takes no \<open>Z\<close> for the offset.\<close>

definition parseBarmanTime :: "string \<Rightarrow> gerr + gtime" where
  "parseBarmanTime value =
     (case parseStamp (CHR '' '') takeOffset value of
        Some t \<Rightarrow> Inr t
      | None \<Rightarrow> Inl (Plain (''unparsable time '' @ quote value)))"

text \<open>\<open>bufio.Scanner\<close> on lines: split at newlines, a trailing carriage return dropped, no last
  empty line, and an error on a line of 64 KiB or more.\<close>

definition dropCR :: "string \<Rightarrow> string" where
  "dropCR l = (if l \<noteq> [] \<and> last l = CHR 0x0D then butlast l else l)"

definition scanLines :: "string \<Rightarrow> gerr + string list" where
  "scanLines raw =
     (let ls = splitAll (CHR 0x0A) raw;
          kept = (if last ls = [] then butlast ls else ls)
      in if list_ex (\<lambda>l. int (length l) \<ge> 65536) kept then Inl (Plain ''bufio.Scanner: token too long'')
         else Inr (map dropCR kept))"

definition trimSpace :: "string \<Rightarrow> string" where
  "trimSpace s = trimSet isSpace s"

definition infoFields :: "string list \<Rightarrow> string \<Rightarrow> string" where
  "infoFields ls =
     foldl (\<lambda>fields l. case cutChar (CHR ''='') l of (key, value, ok) \<Rightarrow>
              if ok then fields(trimSpace key := trimSpace value) else fields)
       (\<lambda>_. []) ls"

definition ParseBackupInfo :: "string \<Rightarrow> gerr + baseBackup \<times> bool" where
  "ParseBackupInfo raw =
     (case scanLines raw of
        Inl e \<Rightarrow> Inl e
      | Inr ls \<Rightarrow>
          let fields = infoFields ls in
          if fields ''status'' \<noteq> ''DONE''
          then Inr (\<lparr>bb_ID = fields ''backup_id'', bb_End = zeroTime\<rparr>, False)
          else (case parseBarmanTime (fields ''end_time'') of
                  Inl e \<Rightarrow> Inl (Wrap ''end_time: '' e)
                | Inr t \<Rightarrow> Inr (\<lparr>bb_ID = fields ''backup_id'', bb_End = t\<rparr>, True)))"

text \<open>\<open>path.Base(path.Dir(key))\<close>: the last element of the cleaned directory.\<close>

fun cleanParts :: "bool \<Rightarrow> string list \<Rightarrow> string list \<Rightarrow> string list" where
  "cleanParts rooted acc [] = rev acc"
| "cleanParts rooted acc (p # ps) =
     (if p = [] \<or> p = ''.'' then cleanParts rooted acc ps
      else if p = ''..'' then
        (case acc of a # as \<Rightarrow> if a = ''..'' then cleanParts rooted (p # acc) ps else cleanParts rooted as ps
         | [] \<Rightarrow> if rooted then cleanParts rooted [] ps else cleanParts rooted [p] ps)
      else cleanParts rooted (p # acc) ps)"

definition pathBaseDir :: "string \<Rightarrow> string" where
  "pathBaseDir key =
     (let rooted = (key \<noteq> [] \<and> hd key = CHR ''/''); parts = cleanParts rooted [] (butlast (splitAll (CHR ''/'') key))
      in if parts = [] then (if rooted then ''/'' else ''.'') else last parts)"

definition baseBackupAt :: "string \<Rightarrow> string \<Rightarrow> gerr + baseBackup \<times> bool" where
  "baseBackupAt key raw =
     (case ParseBackupInfo raw of
        Inl e \<Rightarrow> Inl e
      | Inr (backup, done) \<Rightarrow>
          Inr (if bb_ID backup = [] then backup\<lparr>bb_ID := pathBaseDir key\<rparr> else backup, done))"

definition hasSuffix :: "string \<Rightarrow> string \<Rightarrow> bool" where
  "hasSuffix s suf = hasPrefix (rev s) (rev suf)"

text \<open>The listing yields keys or errors, in order; a download is a read. \<open>place\<close> is
  \<open>bucket/prefix\<close> and \<open>obj key\<close> is \<open>bucket/key\<close>, for the messages.\<close>

primrec baseBackupsLoop :: "(string \<Rightarrow> ('w, unit) call) \<Rightarrow> (string \<Rightarrow> ('w, string) call) \<Rightarrow> string \<Rightarrow> (string \<Rightarrow> string) \<Rightarrow>
    (gerr + string) list \<Rightarrow> baseBackup list \<Rightarrow> ('w, baseBackup list) call" where
  "baseBackupsLoop getObject readAll place obj [] backups = ret backups"
| "baseBackupsLoop getObject readAll place obj (object # objects) backups =
     (case object of
        Inl err \<Rightarrow> failM (Wrap (''list '' @ place @ '': '') err)
      | Inr key \<Rightarrow>
          if \<not> hasSuffix key ''/backup.info'' then baseBackupsLoop getObject readAll place obj objects backups
          else
          thenM (wrapM (''get '' @ obj key @ '': '') (getObject key)) (
          bindM (wrapM (''read '' @ obj key @ '': '') (readAll key)) (\<lambda>raw.
          bindM (liftE (wrapE (obj key @ '': '') (baseBackupAt key raw))) (\<lambda>(backup, done).
          baseBackupsLoop getObject readAll place obj objects (if done then backups @ [backup] else backups)))))"

definition BaseBackups :: "('w, unit) call \<Rightarrow> ('w, (gerr + string) list) call \<Rightarrow> (string \<Rightarrow> ('w, unit) call) \<Rightarrow> (string \<Rightarrow> ('w, string) call) \<Rightarrow>
    (baseBackup list \<Rightarrow> baseBackup list) \<Rightarrow> string \<Rightarrow> (string \<Rightarrow> string) \<Rightarrow> ('w, baseBackup list) call" where
  "BaseBackups client listObjects getObject readAll sortByEnd place obj =
     thenM client (bindM listObjects (\<lambda>objects.
       bindM (baseBackupsLoop getObject readAll place obj objects []) (\<lambda>backups. ret (sortByEnd backups))))"

definition bbAtOrBefore :: "baseBackup list \<Rightarrow> gtime \<Rightarrow> baseBackup option" where
  "bbAtOrBefore backups t = newestLoop (\<lambda>b. \<not> bb_End b > t) bb_End None backups"

interpretation bba: newest_pick "\<lambda>backups. bbAtOrBefore backups t" bb_End "\<lambda>b. \<not> bb_End b > t" for t
  unfolding bbAtOrBefore_def by (rule newestLoop_pick)

text \<open>The newest of the completed base backups that finished by a moment.\<close>

definition newestBy :: "baseBackup list \<Rightarrow> gtime \<Rightarrow> baseBackup \<Rightarrow> bool" where
  "newestBy backups t b = (b \<in> set backups \<and> bb_End b \<le> t \<and> (\<forall>c \<in> set backups. bb_End c \<le> t \<longrightarrow> bb_End c \<le> bb_End b))"

lemma bbAtOrBefore_newest: "bbAtOrBefore backups t = Some b \<Longrightarrow> newestBy backups t b"
  using bba.pick_sound[of backups t b] by (simp add: newestBy_def not_less)

lemma bbAtOrBefore_none: "bbAtOrBefore backups t = None \<longleftrightarrow> \<not> (\<exists>b \<in> set backups. bb_End b \<le> t)"
  using bba.pick_finds[of _ backups t] bba.pick_sound[of backups t] by (cases "bbAtOrBefore backups t") (auto simp: not_less)

section \<open>Which backups are listed\<close>

text \<open>Only completed backups are listed: each comes from a \<open>backup.info\<close> whose status is DONE, and
  its end is the parsed \<open>end_time\<close>.\<close>

lemma ParseBackupInfo_done:
  assumes "ParseBackupInfo raw = Inr (b, True)"
  shows "\<exists>ls. scanLines raw = Inr ls \<and> infoFields ls ''status'' = ''DONE'' \<and>
           parseBarmanTime (infoFields ls ''end_time'') = Inr (bb_End b) \<and> bb_ID b = infoFields ls ''backup_id''"
  using assms by (auto simp: ParseBackupInfo_def Let_def split: sum.splits if_splits)

lemma baseBackupsLoop_exact:
  assumes "baseBackupsLoop getObject readAll place obj objects backups w = (Inr result, w')"
    and "\<And>key. getObject key w = (Inr (), w)" "\<And>key. readAll key w = (Inr (content key), w)"
  shows "set result = set backups \<union>
    {b. \<exists>key. Inr key \<in> set objects \<and> hasSuffix key ''/backup.info'' \<and> baseBackupAt key (content key) = Inr (b, True)}"
  using assms(1)
proof (induction objects arbitrary: backups)
  case Nil
  then show ?case by (simp add: ret_def)
next
  case (Cons object objects)
  show ?case
  proof (cases object)
    case (Inl e)
    then show ?thesis using Cons.prems by (simp add: failM_def)
  next
    case (Inr key)
    show ?thesis
    proof (cases "hasSuffix key ''/backup.info''")
      case False
      with Cons.prems Inr have "baseBackupsLoop getObject readAll place obj objects backups w = (Inr result, w')" by simp
      from Cons.IH[OF this] False Inr show ?thesis by auto
    next
      case True
      with Cons.prems Inr assms(2,3) obtain b dn where
        b: "baseBackupAt key (content key) = Inr (b, dn)" and
        rest: "baseBackupsLoop getObject readAll place obj objects (if dn then backups @ [b] else backups) w = (Inr result, w')"
        by (auto simp: bindM_Inr_iff thenM_def)
      from Cons.IH[OF rest] b Inr True show ?thesis by (cases dn) auto
    qed
  qed
qed

text \<open>The prober lists exactly the completed base backups: while the store does not change
  between the reads, a backup is in the list exactly when a listed \<open>backup.info\<close> object holds its
  record with status DONE and an end time that parses. A file that names no ID gives the backup the
  name of its directory.\<close>

theorem BaseBackups_exact:
  assumes "BaseBackups client listObjects getObject readAll sortByEnd place obj w = (Inr result, w')"
    and "client w = (Inr (), w)" "listObjects w = (Inr objects, w)"
    and "\<And>key. getObject key w = (Inr (), w)" "\<And>key. readAll key w = (Inr (content key), w)"
    and "\<And>bs. set (sortByEnd bs) = set bs"
  shows "b \<in> set result \<longleftrightarrow>
    (\<exists>key. Inr key \<in> set objects \<and> hasSuffix key ''/backup.info'' \<and> baseBackupAt key (content key) = Inr (b, True))"
proof -
  from assms(1-3) obtain bs where
    l: "baseBackupsLoop getObject readAll place obj objects [] w = (Inr bs, w')" and r: "result = sortByEnd bs"
    by (auto simp: BaseBackups_def thenM_def bindM_Inr_iff ret_def)
  show ?thesis using baseBackupsLoop_exact[OF l assms(4,5)] r assms(6) by auto
qed

definition infoExample :: string where
  "infoExample = ''status=DONE'' @ [CHR 0x0A] @ ''end_time=2026-09-15 07:32:19+00:00'' @ [CHR 0x0A]"

lemma infoExample_parses:
  "baseBackupAt ''db/base/20260915T073203/backup.info'' infoExample =
     Inr (\<lparr>bb_ID = ''20260915T073203'', bb_End = 1789457539000000000\<rparr>, True)"
  by code_simp

theorem BaseBackups_exact_witness:
  "\<exists>key. Inr key \<in> set [Inr ''db/base/20260915T073203/backup.info'' :: gerr + string] \<and> hasSuffix key ''/backup.info'' \<and>
     baseBackupAt key infoExample = Inr (\<lparr>bb_ID = ''20260915T073203'', bb_End = 1789457539000000000\<rparr>, True)"
proof -
  let ?key = "''db/base/20260915T073203/backup.info''"
  have "hasSuffix ?key ''/backup.info''" by code_simp
  then have "BaseBackups (ret ()) (ret [Inr ?key]) (\<lambda>k. ret ()) (\<lambda>k. ret infoExample) (\<lambda>bs. bs) [] (\<lambda>k. k) (0::nat) =
      (Inr [\<lparr>bb_ID = ''20260915T073203'', bb_End = 1789457539000000000\<rparr>], 0)"
    by (simp add: BaseBackups_def call_simps infoExample_parses)
  from BaseBackups_exact[OF this, where objects = "[Inr ?key]" and content = "\<lambda>k. infoExample"
      and b = "\<lparr>bb_ID = ''20260915T073203'', bb_End = 1789457539000000000\<rparr>"]
  show ?thesis by (simp add: ret_def)
qed

end
