(* ===== verification/Archive.thy ===== *)
theory Archive
  imports Base_Backups Kube_Objects
begin

text \<open>
  Where a database archives, from \<open>src/internal/bootstrap/archive.go\<close> and \<open>instance.go\<close>.

  An ObjectStore is the record of the fields the code reads from it; a field that is missing or of
  another type reads as the empty string, as the code treats it. \<open>url.Parse\<close> is the parameter
  \<open>urlParse\<close>, with the scheme, host and path of its result. The reads of the API server are
  parameters.
\<close>

record secretRef =
  sr_name :: string
  sr_key :: string

record objectStore =
  os_name :: string
  os_destinationPath :: string
  os_endpointURL :: string
  os_accessKeyId :: secretRef
  os_secretAccessKey :: secretRef
  os_endpointCA :: secretRef

record location =
  lo_Endpoint :: string
  lo_Bucket :: string
  lo_Prefix :: string
  lo_AccessKey :: string
  lo_SecretKey :: string
  lo_CABundle :: string

definition BasePrefix :: "location \<Rightarrow> string" where
  "BasePrefix l = trimPrefix (lo_Prefix l @ ''/base/'') ''/''"

definition ArchivePrefix :: "location \<Rightarrow> string" where
  "ArchivePrefix l = trimPrefix (lo_Prefix l @ ''/'') ''/''"

definition WALPrefix :: "location \<Rightarrow> string" where
  "WALPrefix l = ArchivePrefix l @ ''wals/''"

definition trimSlashes :: "string \<Rightarrow> string" where
  "trimSlashes s = trimSet (\<lambda>c. c = CHR ''/'') s"

record url =
  u_Scheme :: string
  u_Host :: string
  u_Path :: string

definition splitDestination :: "(string \<Rightarrow> gerr + url) \<Rightarrow> string \<Rightarrow> gerr + string \<times> string" where
  "splitDestination urlParse destination =
     bindE (wrapE (''parse destinationPath '' @ quote destination @ '': '') (urlParse destination)) (\<lambda>parsed.
     if u_Scheme parsed \<noteq> ''s3'' then Inl (Plain (''destinationPath '' @ quote destination @ '' is not an s3:// URL''))
     else if u_Host parsed = [] then Inl (Plain (''destinationPath '' @ quote destination @ '' names no bucket''))
     else Inr (u_Host parsed, trimSlashes (u_Path parsed)))"

definition archivePath :: "(string \<Rightarrow> gerr + url) \<Rightarrow> (string \<Rightarrow> string \<Rightarrow> ('w, objectStore) call) \<Rightarrow>
    string \<Rightarrow> string \<Rightarrow> string \<Rightarrow> ('w, objectStore \<times> string \<times> string) call" where
  "archivePath urlParse getStore namespace store serverName =
     bindM (wrapM (''read ObjectStore '' @ namespace @ ''/'' @ store @ '': '') (getStore namespace store)) (\<lambda>os.
     if os_destinationPath os = []
     then failM (Plain (''ObjectStore '' @ namespace @ ''/'' @ store @ '' has no spec.configuration.destinationPath''))
     else bindM (liftE (splitDestination urlParse (os_destinationPath os))) (\<lambda>(bucket, pre).
       ret (os, bucket, trimSlashes (pre @ ''/'' @ serverName))))"

definition endpointCA :: "(string \<Rightarrow> string \<Rightarrow> ('w, secret) call) \<Rightarrow> string \<Rightarrow> objectStore \<Rightarrow> ('w, string) call" where
  "endpointCA getSecret namespace os =
     (let name = sr_name (os_endpointCA os); key = sr_key (os_endpointCA os) in
      if name = [] then ret []
      else if key = [] then failM (Plain (''ObjectStore '' @ namespace @ ''/'' @ os_name os @ '' names an endpointCA Secret with no key''))
      else bindM (wrapM (''read endpointCA Secret '' @ namespace @ ''/'' @ name @ '': '') (getSecret namespace name)) (\<lambda>sec.
        case se_data sec key of
          None \<Rightarrow> failM (Plain (''endpointCA Secret '' @ namespace @ ''/'' @ name @ '' has no key '' @ quote key))
        | Some bundle \<Rightarrow> ret bundle))"

definition credential :: "(string \<Rightarrow> string \<Rightarrow> ('w, secret) call) \<Rightarrow> string \<Rightarrow> objectStore \<Rightarrow> string \<Rightarrow> secretRef \<Rightarrow> ('w, string) call" where
  "credential getSecret namespace os field ref =
     (if sr_name ref = [] then failM (Plain (''ObjectStore '' @ namespace @ ''/'' @ os_name os @ '' has no s3Credentials.'' @ field @ ''.name''))
      else if sr_key ref = [] then failM (Plain (''ObjectStore '' @ namespace @ ''/'' @ os_name os @ '' has no s3Credentials.'' @ field @ ''.key''))
      else bindM (wrapM (''read Secret '' @ namespace @ ''/'' @ sr_name ref @ '': '') (getSecret namespace (sr_name ref))) (\<lambda>sec.
        case se_data sec (sr_key ref) of
          None \<Rightarrow> failM (Plain (''secret '' @ namespace @ ''/'' @ sr_name ref @ '' has no key '' @ quote (sr_key ref)))
        | Some value \<Rightarrow> ret value))"

definition ResolveLocation :: "(string \<Rightarrow> gerr + url) \<Rightarrow> (string \<Rightarrow> string \<Rightarrow> ('w, objectStore) call) \<Rightarrow>
    (string \<Rightarrow> string \<Rightarrow> ('w, secret) call) \<Rightarrow> string \<Rightarrow> string \<Rightarrow> string \<Rightarrow> ('w, location) call" where
  "ResolveLocation urlParse getStore getSecret namespace store serverName =
     bindM (archivePath urlParse getStore namespace store serverName) (\<lambda>(os, bucket, pre).
     bindM (credential getSecret namespace os ''accessKeyId'' (os_accessKeyId os)) (\<lambda>accessKey.
     bindM (credential getSecret namespace os ''secretAccessKey'' (os_secretAccessKey os)) (\<lambda>secretKey.
     bindM (endpointCA getSecret namespace os) (\<lambda>bundle.
     ret \<lparr>lo_Endpoint = os_endpointURL os, lo_Bucket = bucket, lo_Prefix = pre, lo_AccessKey = accessKey,
          lo_SecretKey = secretKey, lo_CABundle = bundle\<rparr>))))"

section \<open>Instances of a deleted Cluster\<close>

definition InstanceLeft :: "(string \<Rightarrow> string \<Rightarrow> ('w, pod list) call) \<Rightarrow> (string \<Rightarrow> string \<Rightarrow> ('w, claim list) call) \<Rightarrow>
    string \<Rightarrow> string \<Rightarrow> ('w, string) call" where
  "InstanceLeft listPods listClaims namespace name =
     bindM (wrapM (''list the pods of Cluster '' @ namespace @ ''/'' @ name @ '': '') (listPods namespace name)) (\<lambda>pods.
     case find (\<lambda>p. po_phase p \<noteq> PodSucceeded \<and> po_phase p \<noteq> PodFailed) pods of
       Some p \<Rightarrow> ret (''pod '' @ m_name (po_meta p))
     | None \<Rightarrow>
       bindM (wrapM (''list the PVCs of Cluster '' @ namespace @ ''/'' @ name @ '': '') (listClaims namespace name)) (\<lambda>claims.
       case claims of c # _ \<Rightarrow> ret (''PVC '' @ m_name (pc_meta c)) | [] \<Rightarrow> ret []))"

section \<open>Prefixes\<close>

text \<open>The archive of one database never matches another's prefix: the key prefix of everything one
  database writes ends in a slash, so it starts a key of a database with another prefix only when
  that prefix continues it after a slash.\<close>

lemma ArchivePrefix_exact:
  assumes "lo_Prefix l \<noteq> []" "hd (lo_Prefix l) \<noteq> CHR ''/''" "CHR ''/'' \<notin> set name"
    and "lo_Prefix k = lo_Prefix l @ name" "name \<noteq> []"
  shows "\<not> hasPrefix (ArchivePrefix k) (ArchivePrefix l)"
proof -
  have c: "cutPrefix (lo_Prefix l @ x) ''/'' = None" for x using assms(1,2) by (cases "lo_Prefix l") auto
  have a: "ArchivePrefix l = lo_Prefix l @ ''/''" "ArchivePrefix k = lo_Prefix l @ name @ ''/''"
    using assms(4) by (simp_all add: ArchivePrefix_def trimPrefix_def c)
  show ?thesis
  proof
    assume "hasPrefix (ArchivePrefix k) (ArchivePrefix l)"
    then have "\<exists>r. name @ ''/'' = ''/'' @ r" by (auto simp: a hasPrefix_iff)
    then show False using assms(3,5) by (cases name) auto
  qed
qed

end
