(* ===== verification/Webhook.thy ===== *)
theory Webhook
  imports Archive Synced_Moment
begin

text \<open>
  The admission webhook that chooses how a new CloudNativePG Cluster starts, from
  \<open>src/internal/bootstrap/webhook.go\<close>.

  A Cluster is the record of the parts of the unstructured object that the code reads and writes:
  its annotations, \<open>spec.plugins\<close>, \<open>spec.bootstrap.initdb\<close>, \<open>spec.bootstrap.recovery\<close> and
  \<open>spec.externalClusters\<close>; objects whose \<open>spec\<close> or \<open>bootstrap\<close> is not a map are outside the model, so
  the error branches of \<open>SetNestedMap\<close> and \<open>NestedSlice\<close> do not appear. An entry that is not a map is
  \<open>None\<close>, a missing string is empty. The admission request carries the result of decoding its two
  objects. The reads of the API server, of the object store and of the repositories are the fields
  of the parameter \<open>webhookApi\<close>; the repositories' lister may be absent, as \<open>Decider.Snapshots\<close> may
  be nil. Log lines are left out.
\<close>

definition PluginName :: string where "PluginName = ''barman-cloud.cloudnative-pg.io''"
definition SkipCheckAnnotation :: string where "SkipCheckAnnotation = ''cnpg.io/skipEmptyWalArchiveCheck''"
definition OptOutAnnotation :: string where "OptOutAnnotation = ''backup.wlz.li/bootstrap''"
definition OptOutValue :: string where "OptOutValue = ''initdb''"
definition RecoverySource :: string where "RecoverySource = ''backup-controller''"
definition APIGroup :: string where "APIGroup = ''backup.wlz.li''"

datatype operation = OpCreate | OpUpdate | OpDelete | OpConnect

record admissionRequest =
  rq_Operation :: operation
  rq_Namespace :: string
  rq_Name :: string
  rq_DryRun :: "bool option"
  rq_Object :: "gerr + cluster"
  rq_OldObject :: "gerr + cluster"

datatype response = Allowed string | Denied string | Errored int gerr | Patched cluster

record 'w webhookApi =
  wa_listPods :: "string \<Rightarrow> string \<Rightarrow> ('w, pod list) call"
  wa_listInstanceClaims :: "string \<Rightarrow> string \<Rightarrow> ('w, claim list) call"
  wa_getStore :: "string \<Rightarrow> string \<Rightarrow> ('w, objectStore) call"
  wa_getSecret :: "string \<Rightarrow> string \<Rightarrow> ('w, secret) call"
  wa_listClusters :: "('w, cluster list) call"
  wa_listRestoreRuns :: "string \<Rightarrow> ('w, restoreRun list) call"
  wa_listVRs :: "string \<Rightarrow> ('w, volumeRestore list) call"
  wa_getVR :: "string \<Rightarrow> string \<Rightarrow> ('w, volumeRestore) call"
  wa_listClaims :: "string \<Rightarrow> ('w, claim list) call"
  wa_snapshots :: "(secret \<Rightarrow> ('w, snapshot list) call) option"
  wa_BaseBackups :: "location \<Rightarrow> ('w, baseBackup list) call"
  wa_ArchiveEmpty :: "location \<Rightarrow> ('w, bool) call"
  wa_WALSince :: "location \<Rightarrow> gtime \<Rightarrow> ('w, bool) call"
  wa_urlParse :: "string \<Rightarrow> gerr + url"
  wa_mapOrder :: "repositories \<Rightarrow> repositories"

section \<open>Where a Cluster archives\<close>

fun archiverLoop :: "string \<Rightarrow> plugin option list \<Rightarrow> (string \<times> string) option" where
  "archiverLoop clusterName [] = None"
| "archiverLoop clusterName (None # ps) = archiverLoop clusterName ps"
| "archiverLoop clusterName (Some p # ps) =
     (if pl_name p \<noteq> PluginName then archiverLoop clusterName ps
      else if \<not> pl_isWALArchiver p then archiverLoop clusterName ps
      else if pl_barmanObjectName p = [] then archiverLoop clusterName ps
      else Some (pl_barmanObjectName p, if pl_serverName p = [] then clusterName else pl_serverName p))"

definition Archiver :: "cluster \<Rightarrow> (string \<times> string) option" where
  "Archiver c = archiverLoop (m_name (cl_meta c)) (cl_plugins c)"

definition archivePathW :: "'w webhookApi \<Rightarrow> string \<Rightarrow> string \<Rightarrow> string \<Rightarrow> ('w, objectStore \<times> string \<times> string) call" where
  "archivePathW d = archivePath (wa_urlParse d) (wa_getStore d)"

primrec archiveHolderLoop :: "'w webhookApi \<Rightarrow> string \<Rightarrow> string \<Rightarrow> location \<Rightarrow> cluster list \<Rightarrow> ('w, string) call" where
  "archiveHolderLoop d namespace name at [] = ret []"
| "archiveHolderLoop d namespace name at (other # others) =
     (let ons = m_namespace (cl_meta other); on = m_name (cl_meta other) in
      if ons = namespace \<and> on = name then archiveHolderLoop d namespace name at others
      else
      (case Archiver other of
         None \<Rightarrow> archiveHolderLoop d namespace name at others
       | Some (store, serverName) \<Rightarrow>
           bindM (attempt (archivePathW d ons store serverName)) (\<lambda>r. case r of
             Inl err \<Rightarrow> if IsNotFound err then archiveHolderLoop d namespace name at others
                        else failM (Wrap (''read the archive of Cluster '' @ ons @ ''/'' @ on @ '': '') err)
           | Inr (_, bucket, pre) \<Rightarrow>
               if bucket = lo_Bucket at \<and> pre = lo_Prefix at then ret (ons @ ''/'' @ on)
               else archiveHolderLoop d namespace name at others)))"

definition archiveHolder :: "'w webhookApi \<Rightarrow> string \<Rightarrow> string \<Rightarrow> location \<Rightarrow> ('w, string) call" where
  "archiveHolder d namespace name at =
     bindM (wrapM ''list the Clusters: '' (wa_listClusters d)) (archiveHolderLoop d namespace name at)"

section \<open>The run that waits for a Cluster\<close>

definition waitsFor :: "string \<Rightarrow> restoreRun \<Rightarrow> bool" where
  "waitsFor name run =
     (\<not> Finished (rt_Phase (rr_status run)) \<and> m_deletion (rr_meta run) = None \<and>
      list_ex (\<lambda>i. ri_Kind i = ''Cluster'' \<and> ri_Name i = name \<and> ri_Phase i = ItemDeleted) (rt_Items (rr_status run)))"

definition waitingRun :: "'w webhookApi \<Rightarrow> string \<Rightarrow> string \<Rightarrow> ('w, restoreRun option) call" where
  "waitingRun d namespace name =
     bindM (wrapM (''list RestoreRuns in '' @ namespace @ '': '') (wa_listRestoreRuns d namespace)) (\<lambda>runs.
       ret (find (waitsFor name) runs))"

section \<open>Where a recovery stops\<close>

text \<open>A \<open>recoveryTarget\<close> is its \<open>backupID\<close>; the empty string stands for the whole archive.\<close>

fun recoveryForLoop :: "string \<Rightarrow> string \<Rightarrow> baseBackup list \<Rightarrow> restoreItem list \<Rightarrow> gerr + string" where
  "recoveryForLoop name runName backups [] = Inr []"
| "recoveryForLoop name runName backups (item # items) =
     (if ri_Kind item \<noteq> ''Cluster'' \<or> ri_Name item \<noteq> name \<or> \<not> ri_StopAtBaseBackup item
      then recoveryForLoop name runName backups items
      else if list_ex (\<lambda>b. bb_ID b = ri_BaseBackup item) backups then Inr (ri_BaseBackup item)
      else Inl (Plain (''RestoreRun '' @ runName @ '' recovers to the end of base backup '' @ ri_BaseBackup item @
        '', which the store no longer holds as a completed base backup. Delete the RestoreRun and create a new one'')))"

definition recoveryFor :: "string \<Rightarrow> restoreRun option \<Rightarrow> baseBackup list \<Rightarrow> gerr + string" where
  "recoveryFor name run backups =
     (case run of None \<Rightarrow> Inr []
      | Some r \<Rightarrow> recoveryForLoop name (m_name (rr_meta r)) backups (rt_Items (rr_status r)))"

text \<open>The result of \<open>claimsFromMoment\<close>: \<open>None\<close> for false, otherwise the earliest start of a bound
  claim's restore.\<close>

primrec claimsFromMomentLoop :: "'w webhookApi \<Rightarrow> string \<Rightarrow> gtime \<Rightarrow> claim list \<Rightarrow> gtime option \<Rightarrow> ('w, gtime option option) call" where
  "claimsFromMomentLoop d namespace moment [] filled = ret (Some filled)"
| "claimsFromMomentLoop d namespace moment (cl # cls) filled =
     (if \<not> Enabled (m_annotations (pc_meta cl)) then claimsFromMomentLoop d namespace moment cls filled
      else
      (case pc_dataSourceRef cl of
         None \<Rightarrow> ret None
       | Some ref \<Rightarrow>
         if or_kind ref \<noteq> ''VolumeRestore'' \<or> or_apiGroup ref \<noteq> Some APIGroup then ret None
         else if m_annotations (pc_meta cl) AnnotationRestoreAsOf \<noteq> None then ret None
         else
         bindM (attempt (wa_getVR d namespace (or_name ref))) (\<lambda>r. case r of
           Inl err \<Rightarrow> if IsNotFound err then ret None else failM err
         | Inr vr \<Rightarrow>
           if vs_RestoreAsOf (vr_spec vr) \<noteq> None then ret None
           else if pc_phase cl \<noteq> ClaimBound then claimsFromMomentLoop d namespace moment cls filled
           else
           (case find (\<lambda>e. cs_UID e = m_uid (pc_meta cl) \<and>
                        (case cs_SnapshotTime e of Some t \<Rightarrow> truncSecond t = moment | None \<Rightarrow> False) \<and>
                        cs_StartedAt e \<noteq> None) (vt_Claims (vr_status vr)) of
              None \<Rightarrow> ret None
            | Some e \<Rightarrow>
              let started = the (cs_StartedAt e) in
              claimsFromMomentLoop d namespace moment cls
                (case filled of None \<Rightarrow> Some started
                 | Some f \<Rightarrow> if started < f then Some started else filled)))))"

definition claimsFromMoment :: "'w webhookApi \<Rightarrow> string \<Rightarrow> gtime \<Rightarrow> ('w, gtime option option) call" where
  "claimsFromMoment d namespace moment =
     bindM (wrapM (''list the claims in '' @ namespace @ '': '') (wa_listClaims d namespace)) (\<lambda>claims.
       claimsFromMomentLoop d namespace moment claims None)"

text \<open>The snapshot of the moment that the loop over the repositories looks at: the first one found,
  in the order Go ranges over the map.\<close>

fun firstAt :: "repositories \<Rightarrow> gtime \<Rightarrow> snapshot option" where
  "firstAt [] moment = None"
| "firstAt ((name, ss) # repos) moment =
     (case At ss moment of Some s \<Rightarrow> Some s | None \<Rightarrow> firstAt repos moment)"

definition momentTarget :: "'w webhookApi \<Rightarrow> location \<Rightarrow> string \<Rightarrow> baseBackup list \<Rightarrow> gtime \<Rightarrow> snapshot option \<Rightarrow> ('w, string) call" where
  "momentTarget d at name backups moment found =
     (let fallback = ret (case bbAtOrBefore backups moment of Some b \<Rightarrow> bb_ID b | None \<Rightarrow> []) in
      case found of
        None \<Rightarrow> fallback
      | Some s \<Rightarrow>
          (case PausedBaseBackup s name of
             Some bid \<Rightarrow>
               if list_ex (\<lambda>b. bb_ID b = bid) backups then ret bid
               else if HibernatedTag name \<in> set (sn_Tags s)
               then bindM (wa_WALSince d at moment) (\<lambda>woken. if \<not> woken then ret [] else fallback)
               else fallback
           | None \<Rightarrow>
               if HibernatedTag name \<in> set (sn_Tags s)
               then bindM (wa_WALSince d at moment) (\<lambda>woken. if \<not> woken then ret [] else fallback)
               else fallback))"

definition automaticRecovery :: "'w webhookApi \<Rightarrow> location \<Rightarrow> string \<Rightarrow> string \<Rightarrow> baseBackup list \<Rightarrow> ('w, string) call" where
  "automaticRecovery d at namespace name backups =
     (case wa_snapshots d of
        None \<Rightarrow> ret []
      | Some lister \<Rightarrow>
        bindM (Repositories (wa_listVRs d) (wa_getSecret d) lister namespace) (\<lambda>repositories.
        case Moment repositories of
          None \<Rightarrow> ret []
        | Some moment \<Rightarrow>
          bindM (claimsFromMoment d namespace moment) (\<lambda>fromMoment. case fromMoment of
            None \<Rightarrow> ret []
          | Some filled \<Rightarrow>
            bindM (case filled of Some f \<Rightarrow> wa_WALSince d at f | None \<Rightarrow> ret False) (\<lambda>written.
            if written then ret []
            else momentTarget d at name backups moment (firstAt (wa_mapOrder d repositories) moment)))))"

section \<open>Rewriting a Cluster\<close>

fun replaceEntry :: "externalCluster \<Rightarrow> externalCluster option list \<Rightarrow> externalCluster option list \<times> bool" where
  "replaceEntry entry [] = ([], False)"
| "replaceEntry entry (e # es) =
     (case e of
        Some x \<Rightarrow> if ex_name x = RecoverySource then (Some entry # es, True)
                   else (case replaceEntry entry es of (r, b) \<Rightarrow> (e # r, b))
      | None \<Rightarrow> (case replaceEntry entry es of (r, b) \<Rightarrow> (e # r, b)))"

definition nonEmpty :: "string \<Rightarrow> string option" where
  "nonEmpty s = (if s = [] then None else Some s)"

definition setRecovery :: "cluster \<Rightarrow> string \<Rightarrow> string \<Rightarrow> string \<Rightarrow> cluster" where
  "setRecovery c store serverName target =
     (let rec = \<lparr>rc_source = RecoverySource, rc_backupID = nonEmpty target,
            rc_database = Option.bind (cl_initdb c) (\<lambda>i. nonEmpty (in_database i)),
            rc_owner = Option.bind (cl_initdb c) (\<lambda>i. nonEmpty (in_owner i)),
            rc_secret = Option.bind (cl_initdb c) in_secret\<rparr>;
          entry = \<lparr>ex_name = RecoverySource, ex_plugin = Some (PluginName, store, serverName), ex_rest = []\<rparr>;
          external = (case replaceEntry entry (cl_external c) of (es, replaced) \<Rightarrow> if replaced then es else es @ [Some entry])
      in c\<lparr>cl_initdb := None, cl_recovery := Some rec, cl_external := external,
           cl_meta := (cl_meta c)\<lparr>m_annotations := (m_annotations (cl_meta c))(SkipCheckAnnotation \<mapsto> ''enabled'')\<rparr>\<rparr>)"

definition keepRecovery :: "admissionRequest \<Rightarrow> response" where
  "keepRecovery req =
     (case rq_OldObject req of
        Inl err \<Rightarrow> Errored 400 err
      | Inr old \<Rightarrow>
        if map_option rc_source (cl_recovery old) \<noteq> Some RecoverySource then Allowed ''not recovered by this webhook''
        else
        (case rq_Object req of
           Inl err \<Rightarrow> Errored 400 err
         | Inr c \<Rightarrow> if cl_initdb c = None then Allowed ''no initdb to drop''
                    else Patched (c\<lparr>cl_initdb := None\<rparr>)))"

section \<open>Deciding a create\<close>

definition orErrored :: "('w, 'a) call \<Rightarrow> ('a \<Rightarrow> ('w, response) call) \<Rightarrow> ('w, response) call" where
  "orErrored c f = bindM (attempt c) (\<lambda>r. case r of Inl e \<Rightarrow> ret (Errored 500 e) | Inr x \<Rightarrow> f x)"

definition optedOut :: "'w webhookApi \<Rightarrow> location \<Rightarrow> ('w, response) call" where
  "optedOut d at =
     orErrored (wa_ArchiveEmpty d at) (\<lambda>empty.
     if \<not> empty then
       ret (Denied (''The Cluster asks for an empty database ('' @ OptOutAnnotation @ '': '' @ OptOutValue @ ''), and '' @
         lo_Bucket at @ ''/'' @ ArchivePrefix at @ '' holds the archive of an earlier one. The new database could not archive there. Delete everything under '' @
         lo_Bucket at @ ''/'' @ ArchivePrefix at @ '' first, or give this Cluster another serverName.''))
     else ret (Allowed ''opted out''))"

definition withoutBaseBackup :: "'w webhookApi \<Rightarrow> location \<Rightarrow> restoreRun option \<Rightarrow> ('w, response) call" where
  "withoutBaseBackup d at run =
     (case run of
        Some r \<Rightarrow> ret (Denied (''RestoreRun '' @ m_name (rr_meta r) @ '' asks for a recovery, and '' @ lo_Bucket at @ ''/'' @
                    BasePrefix at @ '' holds no completed base backup to recover from.''))
      | None \<Rightarrow>
        orErrored (wa_ArchiveEmpty d at) (\<lambda>empty.
        if \<not> empty then
          ret (Denied (lo_Bucket at @ ''/'' @ ArchivePrefix at @ '' holds WAL of an earlier database and no completed base backup. There is nothing to recover from, and a new empty database could never archive into that prefix. Delete everything under '' @
            lo_Bucket at @ ''/'' @ ArchivePrefix at @ '' and create the Cluster again, or give this Cluster another serverName.''))
        else ret (Allowed ''nothing archived yet'')))"

definition restoreRunAnnotation :: "restoreRun option \<Rightarrow> cluster \<Rightarrow> cluster" where
  "restoreRunAnnotation run c =
     (case run of None \<Rightarrow> c
      | Some r \<Rightarrow> c\<lparr>cl_meta := (cl_meta c)\<lparr>m_annotations := (m_annotations (cl_meta c))(AnnotationRestoreRun \<mapsto> m_name (rr_meta r))\<rparr>\<rparr>)"

definition recoverCluster :: "'w webhookApi \<Rightarrow> admissionRequest \<Rightarrow> cluster \<Rightarrow> location \<Rightarrow> string \<Rightarrow> string \<Rightarrow>
    restoreRun option \<Rightarrow> ('w, response) call" where
  "recoverCluster d req c at store serverName run =
     orErrored (wa_BaseBackups d at) (\<lambda>backups.
     if backups = [] then withoutBaseBackup d at run
     else
     (case recoveryFor (rq_Name req) run backups of
        Inl err \<Rightarrow> ret (Denied (errText err))
      | Inr target0 \<Rightarrow>
        orErrored (if run = None then automaticRecovery d at (rq_Namespace req) (rq_Name req) backups else ret target0) (\<lambda>target.
        ret (Patched (restoreRunAnnotation run (setRecovery c store serverName target))))))"

definition decideCreate :: "'w webhookApi \<Rightarrow> admissionRequest \<Rightarrow> cluster \<Rightarrow> ('w, response) call" where
  "decideCreate d req c =
     orErrored (InstanceLeft (wa_listPods d) (wa_listInstanceClaims d) (rq_Namespace req) (rq_Name req)) (\<lambda>left.
     if left \<noteq> [] then
       ret (Denied (left @ '' of an earlier Cluster '' @ rq_Namespace req @ ''/'' @ rq_Name req @
         '' still exists. The create is refused until it is gone; Flux applies the Cluster again on its next reconcile.''))
     else
     (case Archiver c of
        None \<Rightarrow> ret (Allowed ''no archiving plugin'')
      | Some (store, serverName) \<Rightarrow>
        orErrored (ResolveLocation (wa_urlParse d) (wa_getStore d) (wa_getSecret d) (rq_Namespace req) store serverName) (\<lambda>at.
        orErrored (archiveHolder d (rq_Namespace req) (rq_Name req) at) (\<lambda>holder.
        if holder \<noteq> [] then
          ret (Denied (holder @ '' already archives to '' @ lo_Bucket at @ ''/'' @ lo_Prefix at @
            ''. Two databases writing one archive interleave their WAL and leave it unrestorable. Give this Cluster an archive of its own, or a serverName that is not '' @ quote serverName @ ''.''))
        else if getOr (m_annotations (cl_meta c)) OptOutAnnotation = OptOutValue then optedOut d at
        else
        orErrored (waitingRun d (rq_Namespace req) (rq_Name req)) (\<lambda>run.
        if cl_recovery c \<noteq> None then
          (case run of
             Some r \<Rightarrow> ret (Denied (''RestoreRun '' @ m_name (rr_meta r) @ '' is waiting to recover '' @ rq_Namespace req @ ''/'' @ rq_Name req @
               '', and the Cluster declares its own spec.bootstrap.recovery. Remove the declared recovery (the terragrunt restore input or the postgres-recovery component), or delete the RestoreRun.''))
           | None \<Rightarrow> ret (Allowed ''already recovering''))
        else recoverCluster d req c at store serverName run)))))"

definition Handle :: "'w webhookApi \<Rightarrow> admissionRequest \<Rightarrow> ('w, response) call" where
  "Handle d req =
     (if rq_Operation req = OpUpdate then ret (keepRecovery req)
      else if rq_Operation req \<noteq> OpCreate then ret (Allowed ''not a creation or an update'')
      else if rq_DryRun req = Some True then ret (Allowed ''dry run'')
      else
      (case rq_Object req of
         Inl err \<Rightarrow> ret (Errored 400 err)
       | Inr c \<Rightarrow> decideCreate d req c))"

section \<open>What a create is answered\<close>

lemma orErrored_iff:
  "orErrored c f w = (Inr resp, w') \<longleftrightarrow>
     (\<exists>e. c w = (Inl e, w') \<and> resp = Errored 500 e) \<or> (\<exists>x w1. c w = (Inr x, w1) \<and> f x w1 = (Inr resp, w'))"
  by (auto simp: orErrored_def bindM_def attempt_def ret_def split: prod.splits sum.splits)

text \<open>The calls before the decision: what is left of an earlier Cluster, the location, the other
  Clusters and the waiting run.\<close>

definition locate :: "'w webhookApi \<Rightarrow> admissionRequest \<Rightarrow> string \<Rightarrow> string \<Rightarrow> ('w, location) call" where
  "locate d req store serverName =
     ResolveLocation (wa_urlParse d) (wa_getStore d) (wa_getSecret d) (rq_Namespace req) store serverName"

lemma decideCreate_archived:
  assumes "decideCreate d req c w = (Inr resp, w')" "Archiver c = Some (store, serverName)"
    and "\<And>m. resp \<noteq> Denied m" "\<And>n e. resp \<noteq> Errored n e"
  obtains at w1 w2 w3 where
    "InstanceLeft (wa_listPods d) (wa_listInstanceClaims d) (rq_Namespace req) (rq_Name req) w = (Inr [], w1)"
    "locate d req store serverName w1 = (Inr at, w2)"
    "archiveHolder d (rq_Namespace req) (rq_Name req) at w2 = (Inr [], w3)"
    "getOr (m_annotations (cl_meta c)) OptOutAnnotation = OptOutValue \<and> optedOut d at w3 = (Inr resp, w') \<or>
     (\<exists>run w4. waitingRun d (rq_Namespace req) (rq_Name req) w3 = (Inr run, w4) \<and>
        (cl_recovery c \<noteq> None \<and> run = None \<and> resp = Allowed ''already recovering'' \<or>
         cl_recovery c = None \<and> recoverCluster d req c at store serverName run w4 = (Inr resp, w')))"
proof -
  let ?rest = "\<lambda>at run. if cl_recovery c \<noteq> None then
          (case run of
             Some r \<Rightarrow> ret (Denied (''RestoreRun '' @ m_name (rr_meta r) @ '' is waiting to recover '' @ rq_Namespace req @ ''/'' @ rq_Name req @
               '', and the Cluster declares its own spec.bootstrap.recovery. Remove the declared recovery (the terragrunt restore input or the postgres-recovery component), or delete the RestoreRun.''))
           | None \<Rightarrow> ret (Allowed ''already recovering''))
        else recoverCluster d req c at store serverName run"
  obtain w1 at w2 w3 where
    i: "InstanceLeft (wa_listPods d) (wa_listInstanceClaims d) (rq_Namespace req) (rq_Name req) w = (Inr [], w1)" and
    l: "locate d req store serverName w1 = (Inr at, w2)" and
    h: "archiveHolder d (rq_Namespace req) (rq_Name req) at w2 = (Inr [], w3)" and
    r: "(if getOr (m_annotations (cl_meta c)) OptOutAnnotation = OptOutValue then optedOut d at
         else orErrored (waitingRun d (rq_Namespace req) (rq_Name req)) (?rest at)) w3 = (Inr resp, w')"
    using assms unfolding decideCreate_def locate_def by (auto simp: orErrored_iff[of "InstanceLeft _ _ _ _"]
        orErrored_iff[of "ResolveLocation _ _ _ _ _ _"] orErrored_iff[of "archiveHolder _ _ _ _"] split: if_splits)
  show thesis
  proof (cases "getOr (m_annotations (cl_meta c)) OptOutAnnotation = OptOutValue")
    case True
    then show thesis using that[OF i l h] r by auto
  next
    case False
    with r assms(4) obtain run w4 where rn: "waitingRun d (rq_Namespace req) (rq_Name req) w3 = (Inr run, w4)" and
      rest: "?rest at run w4 = (Inr resp, w')" by (auto simp: orErrored_iff)
    from rest assms(3) have "cl_recovery c \<noteq> None \<and> run = None \<and> resp = Allowed ''already recovering'' \<or>
         cl_recovery c = None \<and> recoverCluster d req c at store serverName run w4 = (Inr resp, w')"
      by (cases run) (simp_all split: if_splits)
    with rn show thesis by (intro that[OF i l h]) blast
  qed
qed

lemma Handle_create:
  assumes "rq_Operation req = OpCreate" "rq_DryRun req \<noteq> Some True" "rq_Object req = Inr c"
  shows "Handle d req = decideCreate d req c"
  using assms by (simp add: Handle_def)

lemma recoverCluster_Allowed:
  assumes "recoverCluster d req c at store serverName run w = (Inr (Allowed m), w')"
  shows "\<exists>w1. run = None \<and> wa_BaseBackups d at w = (Inr [], w1) \<and> wa_ArchiveEmpty d at w1 = (Inr True, w')"
proof -
  from assms obtain w1 where b: "wa_BaseBackups d at w = (Inr [], w1)" and
    r: "withoutBaseBackup d at run w1 = (Inr (Allowed m), w')"
    by (auto simp: recoverCluster_def orErrored_iff split: if_splits sum.splits)
  from r have "run = None \<and> wa_ArchiveEmpty d at w1 = (Inr True, w')"
    by (auto simp: withoutBaseBackup_def orErrored_iff split: if_splits option.splits)
  with b show ?thesis by blast
qed

text \<open>C12. No empty database beside an archive. When the webhook lets a new Cluster that archives
  somewhere and declares no recovery of its own through unchanged, so that it starts as an empty
  database, then nothing of an earlier Cluster was left, no other Cluster archives to its location,
  and the last thing the webhook learned is that the object store holds nothing at all at that
  location. Without the opt-out annotation, no RestoreRun waits for the Cluster and the store listed
  no base backup.\<close>

theorem Handle_no_empty_beside_archive:
  assumes "rq_Operation req = OpCreate" "rq_DryRun req \<noteq> Some True" "rq_Object req = Inr c"
    and "Archiver c = Some (store, serverName)" "cl_recovery c = None"
    and "Handle d req w = (Inr (Allowed m), w')"
  shows "\<exists>at w1 w2 w3 w5.
     InstanceLeft (wa_listPods d) (wa_listInstanceClaims d) (rq_Namespace req) (rq_Name req) w = (Inr [], w1) \<and>
     ResolveLocation (wa_urlParse d) (wa_getStore d) (wa_getSecret d) (rq_Namespace req) store serverName w1 = (Inr at, w2) \<and>
     archiveHolder d (rq_Namespace req) (rq_Name req) at w2 = (Inr [], w3) \<and>
     wa_ArchiveEmpty d at w5 = (Inr True, w') \<and>
     (getOr (m_annotations (cl_meta c)) OptOutAnnotation = OptOutValue \<and> w5 = w3 \<or>
      (\<exists>w4. waitingRun d (rq_Namespace req) (rq_Name req) w3 = (Inr None, w4) \<and> wa_BaseBackups d at w4 = (Inr [], w5)))"
proof -
  have "decideCreate d req c w = (Inr (Allowed m), w')" using assms by (simp add: Handle_create)
  from decideCreate_archived[OF this assms(4)] obtain at w1 w2 w3 where
    l: "InstanceLeft (wa_listPods d) (wa_listInstanceClaims d) (rq_Namespace req) (rq_Name req) w = (Inr [], w1)"
       "locate d req store serverName w1 = (Inr at, w2)" "archiveHolder d (rq_Namespace req) (rq_Name req) at w2 = (Inr [], w3)" and
    r: "getOr (m_annotations (cl_meta c)) OptOutAnnotation = OptOutValue \<and> optedOut d at w3 = (Inr (Allowed m), w') \<or>
      (\<exists>run w4. waitingRun d (rq_Namespace req) (rq_Name req) w3 = (Inr run, w4) \<and>
        recoverCluster d req c at store serverName run w4 = (Inr (Allowed m), w'))"
    using assms(5) by (metis (no_types, lifting) response.distinct(1) response.distinct(3))
  from r show ?thesis
  proof (elim disjE exE conjE)
    assume "optedOut d at w3 = (Inr (Allowed m), w')" "getOr (m_annotations (cl_meta c)) OptOutAnnotation = OptOutValue"
    then have "wa_ArchiveEmpty d at w3 = (Inr True, w')" by (auto simp: optedOut_def orErrored_iff split: if_splits)
    then show ?thesis using l \<open>getOr _ _ = _\<close> unfolding locate_def by (intro exI[of _ at] exI[of _ w1] exI[of _ w2] exI[of _ w3]) simp
  next
    fix run w4 assume rn: "waitingRun d (rq_Namespace req) (rq_Name req) w3 = (Inr run, w4)"
      and "recoverCluster d req c at store serverName run w4 = (Inr (Allowed m), w')"
    from recoverCluster_Allowed[OF this(2)] rn obtain w5 where "waitingRun d (rq_Namespace req) (rq_Name req) w3 = (Inr None, w4)"
      "wa_BaseBackups d at w4 = (Inr [], w5)" "wa_ArchiveEmpty d at w5 = (Inr True, w')" by blast
    with l show ?thesis unfolding locate_def by blast
  qed
qed

text \<open>Another Cluster archives elsewhere: nowhere, to an ObjectStore that does not exist, or to
  another bucket or prefix.\<close>

definition archivesElsewhere :: "'w webhookApi \<Rightarrow> location \<Rightarrow> 'w \<Rightarrow> cluster \<Rightarrow> bool" where
  "archivesElsewhere d at w other =
     (case Archiver other of
        None \<Rightarrow> True
      | Some (store, serverName) \<Rightarrow>
          (case fst (archivePathW d (m_namespace (cl_meta other)) store serverName w) of
             Inl e \<Rightarrow> IsNotFound e
           | Inr (os, bucket, pre) \<Rightarrow> bucket \<noteq> lo_Bucket at \<or> pre \<noteq> lo_Prefix at))"

lemma archivePathW_keeps:
  assumes "\<And>ns n. keeps (\<lambda>x. x) (wa_getStore d ns n)"
  shows "snd (archivePathW d ns store serverName w) = w"
proof -
  have "keeps (\<lambda>x. x) (archivePathW d ns store serverName)"
    unfolding archivePathW_def archivePath_def by (auto intro!: keeps_intros assms split: if_splits)
  then show ?thesis by (simp add: keeps_def)
qed

lemma archiveHolderLoop_elsewhere:
  assumes "archiveHolderLoop d ns nm at others w = (Inr [], w')" "\<And>ns n. keeps (\<lambda>x. x) (wa_getStore d ns n)"
  shows "\<forall>other \<in> set others. (m_namespace (cl_meta other) = ns \<and> m_name (cl_meta other) = nm) \<or> archivesElsewhere d at w other"
  using assms(1)
proof (induction others)
  case (Cons other others)
  show ?case
  proof (cases "(m_namespace (cl_meta other) = ns \<and> m_name (cl_meta other) = nm) \<or> Archiver other = None")
    case True
    then have "archiveHolderLoop d ns nm at others w = (Inr [], w')" using Cons.prems
      by (auto simp: Let_def split: if_splits option.splits)
    with Cons.IH True show ?thesis by (auto simp: archivesElsewhere_def)
  next
    case False
    then obtain st sv where a: "Archiver other = Some (st, sv)" by auto
    obtain r where p: "archivePathW d (m_namespace (cl_meta other)) st sv w = (r, w)"
      using archivePathW_keeps[OF assms(2)] by (metis prod.collapse)
    have "archiveHolderLoop d ns nm at others w = (Inr [], w') \<and>
        (case r of Inl e \<Rightarrow> IsNotFound e | Inr (os, b, p) \<Rightarrow> b \<noteq> lo_Bucket at \<or> p \<noteq> lo_Prefix at)"
      using Cons.prems False a p by (auto simp: Let_def call_simps split: sum.splits prod.splits if_splits)
    with Cons.IH a p show ?thesis by (auto simp: archivesElsewhere_def)
  qed
qed simp

text \<open>C16. No two databases share an archive. While the reads of ObjectStores do not change what they
  read, a new Cluster that archives somewhere is let through or rewritten only when every other
  Cluster of the whole cluster archives nowhere, to an ObjectStore that does not exist, or to another
  bucket or prefix than the location resolved for it.\<close>

theorem Handle_no_shared_archive:
  assumes "rq_Operation req = OpCreate" "rq_DryRun req \<noteq> Some True" "rq_Object req = Inr c"
    and "Archiver c = Some (store, serverName)" and "Handle d req w = (Inr resp, w')"
    and "\<forall>m. resp \<noteq> Denied m" "\<forall>n e. resp \<noteq> Errored n e"
    and "\<And>ns n. keeps (\<lambda>x. x) (wa_getStore d ns n)"
  shows "\<exists>at clusters w1 w2 w3.
    InstanceLeft (wa_listPods d) (wa_listInstanceClaims d) (rq_Namespace req) (rq_Name req) w = (Inr [], w1) \<and>
    ResolveLocation (wa_urlParse d) (wa_getStore d) (wa_getSecret d) (rq_Namespace req) store serverName w1 = (Inr at, w2) \<and>
    wa_listClusters d w2 = (Inr clusters, w3) \<and>
    (\<forall>other \<in> set clusters. (m_namespace (cl_meta other) = rq_Namespace req \<and> m_name (cl_meta other) = rq_Name req) \<or>
       archivesElsewhere d at w3 other)"
proof -
  have "decideCreate d req c w = (Inr resp, w')" using assms by (simp add: Handle_create)
  then obtain at w1 w2 w3 where
    i: "InstanceLeft (wa_listPods d) (wa_listInstanceClaims d) (rq_Namespace req) (rq_Name req) w = (Inr [], w1)" and
    l: "locate d req store serverName w1 = (Inr at, w2)" and
    h: "archiveHolder d (rq_Namespace req) (rq_Name req) at w2 = (Inr [], w3)"
    by (rule decideCreate_archived[OF _ assms(4)]) (use assms(6,7) in simp_all)
  from h obtain clusters w4 where c: "wa_listClusters d w2 = (Inr clusters, w4)" and
    o: "archiveHolderLoop d (rq_Namespace req) (rq_Name req) at clusters w4 = (Inr [], w3)"
    by (auto simp: archiveHolder_def bindM_Inr_iff)
  from archiveHolderLoop_elsewhere[OF o assms(8)] i l c show ?thesis unfolding locate_def by blast
qed

section \<open>Where a recovery stops\<close>

lemma recoveryForLoop_Inr:
  assumes "recoveryForLoop name runName backups items = Inr t"
  shows "(t = [] \<and> (\<forall>i \<in> set items. \<not> (ri_Kind i = ''Cluster'' \<and> ri_Name i = name \<and> ri_StopAtBaseBackup i))) \<or>
    (\<exists>i \<in> set items. ri_Kind i = ''Cluster'' \<and> ri_Name i = name \<and> ri_StopAtBaseBackup i \<and> t = ri_BaseBackup i \<and> list_ex (\<lambda>b. bb_ID b = t) backups)"
  using assms by (induction name runName backups items rule: recoveryForLoop.induct) (auto split: if_splits)

lemma firstAt_Some:
  "firstAt repos moment = Some s \<Longrightarrow> isPaused s \<and> truncSecond (sn_Time s) = moment \<and> (\<exists>name ss. (name, ss) \<in> set repos \<and> s \<in> set ss)"
  by (induction repos moment rule: firstAt.induct) (auto split: option.splits dest: At_Some)

text \<open>A target within the moment: the whole archive, a base backup that ended by the moment, or one
  that the moment's own snapshot names as taken during its pause.\<close>

definition withinMoment :: "string \<Rightarrow> baseBackup list \<Rightarrow> gtime \<Rightarrow> snapshot option \<Rightarrow> string \<Rightarrow> bool" where
  "withinMoment name backups moment found t =
     list_ex (\<lambda>b. bb_ID b = t \<and> (bb_End b \<le> moment \<or>
        (case found of Some s \<Rightarrow> PausedBaseBackup s name = Some t | None \<Rightarrow> False))) backups"

lemma fallback_within:
  assumes "t = (case bbAtOrBefore backups moment of Some b \<Rightarrow> bb_ID b | None \<Rightarrow> [])" "t \<noteq> []"
  shows "withinMoment name backups moment found t"
  using assms bba.pick_sound[of backups moment] by (cases "bbAtOrBefore backups moment")
    (auto simp: not_less withinMoment_def list_ex_iff)

lemma momentTarget_within:
  assumes "momentTarget d at name backups moment found w = (Inr t, w')" "t \<noteq> []"
  shows "withinMoment name backups moment found t"
proof (cases "\<exists>s bid. found = Some s \<and> PausedBaseBackup s name = Some bid \<and> list_ex (\<lambda>b. bb_ID b = bid) backups")
  case True
  then obtain s bid where f: "found = Some s" "PausedBaseBackup s name = Some bid" "list_ex (\<lambda>b. bb_ID b = bid) backups" by blast
  then have "t = bid" using assms by (simp add: momentTarget_def)
  with f show ?thesis by (auto simp: withinMoment_def list_ex_iff)
next
  case False
  let ?fb = "case bbAtOrBefore backups moment of Some b \<Rightarrow> bb_ID b | None \<Rightarrow> []"
  have h: "t = ?fb" if "bindM (wa_WALSince d at moment) (\<lambda>woken. if \<not> woken then ret [] else ret ?fb) w = (Inr t, w')"
    using that assms(2) by (auto simp: bindM_Inr_iff split: if_splits)
  have "t = ?fb"
  proof (cases found)
    case None
    then show ?thesis using assms(1) by (simp add: momentTarget_def)
  next
    case (Some s)
    show ?thesis
    proof (cases "HibernatedTag name \<in> set (sn_Tags s)")
      case True
      then have "bindM (wa_WALSince d at moment) (\<lambda>woken. if \<not> woken then ret [] else ret ?fb) w = (Inr t, w')"
        using assms(1) Some False by (cases "PausedBaseBackup s name") (simp_all add: momentTarget_def Let_def)
      then show ?thesis by (rule h)
    next
      case nt: False
      then show ?thesis using assms(1) Some False by (cases "PausedBaseBackup s name") (simp_all add: momentTarget_def Let_def)
    qed
  qed
  then show ?thesis using assms(2) by (rule fallback_within)
qed

end
