(* ===== verification/Webhook_Recovery.thy ===== *)
theory Webhook_Recovery
  imports Webhook
begin

text \<open>
  What the admission webhook makes of a Cluster it rewrites: where the recovery stops, what the
  rewritten Cluster holds, and what later updates leave of it.
\<close>

section \<open>The claims beside the database\<close>

text \<open>A claim that comes back from the moment: it is filled through a VolumeRestore with no pin
  anywhere, and when it is bound already its VolumeRestore records a fill from that moment.\<close>

definition recordedFill :: "gtime \<Rightarrow> claim \<Rightarrow> claimRestoreStatus \<Rightarrow> bool" where
  "recordedFill moment cl e = (cs_UID e = m_uid (pc_meta cl) \<and> map_option truncSecond (cs_SnapshotTime e) = Some moment \<and>
     cs_StartedAt e \<noteq> None)"

definition comesFrom :: "'w webhookApi \<Rightarrow> string \<Rightarrow> gtime \<Rightarrow> 'w \<Rightarrow> claim \<Rightarrow> bool" where
  "comesFrom d namespace moment w cl =
     (m_annotations (pc_meta cl) AnnotationRestoreAsOf = None \<and>
      (case pc_dataSourceRef cl of
         None \<Rightarrow> False
       | Some ref \<Rightarrow> or_kind ref = ''VolumeRestore'' \<and> or_apiGroup ref = Some APIGroup \<and>
           (case fst (wa_getVR d namespace (or_name ref) w) of
              Inl e \<Rightarrow> False
            | Inr vr \<Rightarrow> vs_RestoreAsOf (vr_spec vr) = None \<and>
                (pc_phase cl = ClaimBound \<longrightarrow> list_ex (recordedFill moment cl) (vt_Claims (vr_status vr))))))"

lemma recordedFill_find:
  "(\<lambda>e. cs_UID e = m_uid (pc_meta cl) \<and> (case cs_SnapshotTime e of Some t \<Rightarrow> truncSecond t = moment | None \<Rightarrow> False) \<and>
     cs_StartedAt e \<noteq> None) = recordedFill moment cl"
  by (rule ext) (auto simp: recordedFill_def split: option.splits)

lemmas claimsFromMomentLoop_Cons = claimsFromMomentLoop.simps(2)[unfolded recordedFill_find]

declare claimsFromMomentLoop.simps(2) [simp del]

text \<open>What a loop over the claims answers: true exactly when every claim marked for backup comes back
  from the moment, and then the earliest start of a bound claim's fill.\<close>

text \<open>When the restores of the bound claims started, by the first fill each has recorded.\<close>

definition fillStart :: "'w webhookApi \<Rightarrow> string \<Rightarrow> gtime \<Rightarrow> 'w \<Rightarrow> claim \<Rightarrow> gtime option" where
  "fillStart d namespace moment w cl =
     (if \<not> Enabled (m_annotations (pc_meta cl)) \<or> pc_phase cl \<noteq> ClaimBound then None
      else
      (case pc_dataSourceRef cl of
         None \<Rightarrow> None
       | Some ref \<Rightarrow>
           (case fst (wa_getVR d namespace (or_name ref) w) of
              Inl e \<Rightarrow> None
            | Inr vr \<Rightarrow> Option.bind (find (recordedFill moment cl) (vt_Claims (vr_status vr))) cs_StartedAt)))"

definition fillStarts :: "'w webhookApi \<Rightarrow> string \<Rightarrow> gtime \<Rightarrow> 'w \<Rightarrow> claim list \<Rightarrow> gtime set" where
  "fillStarts d namespace moment w claims = {t. \<exists>cl \<in> set claims. fillStart d namespace moment w cl = Some t}"

lemma fillStarts_Cons:
  "fillStarts d namespace moment w (cl # cls) =
     (case fillStart d namespace moment w cl of None \<Rightarrow> fillStarts d namespace moment w cls
      | Some t \<Rightarrow> insert t (fillStarts d namespace moment w cls))"
  by (auto simp: fillStarts_def split: option.splits)

lemma fillStarts_Nil [simp]: "fillStarts d namespace moment w [] = {}"
  by (simp add: fillStarts_def)

lemma finite_fillStarts [simp]: "finite (fillStarts d namespace moment w claims)"
  by (induction claims) (auto simp: fillStarts_Cons split: option.splits)

text \<open>The earlier of two optional times, and the earliest of a set.\<close>

definition earliest :: "gtime option \<Rightarrow> gtime set \<Rightarrow> gtime option" where
  "earliest filled T = (let S = set_option filled \<union> T in if S = {} then None else Some (Min S))"

lemma earliest_empty [simp]: "earliest filled {} = filled"
  by (cases filled) (simp_all add: earliest_def)

lemma earliest_insert:
  assumes "finite T"
  shows "earliest filled (insert t T) = earliest (case filled of None \<Rightarrow> Some t | Some f \<Rightarrow> if t < f then Some t else filled) T"
proof (cases filled)
  case (Some f)
  have m: "Min (insert f (insert t T)) = Min (insert (min f t) T)"
  proof (cases "T = {}")
    case False
    then show ?thesis using assms by (simp add: min.assoc)
  qed (simp add: min_def)
  show ?thesis
  proof (cases "t < f")
    case True
    then have "min f t = t" by simp
    with m True Some show ?thesis by (simp add: earliest_def insert_commute)
  next
    case False
    then have "min f t = f" by simp
    with m False Some show ?thesis by (simp add: earliest_def insert_commute)
  qed
qed (simp add: earliest_def)

lemma claimsFromMomentLoop_exact:
  assumes keep: "\<And>n. keeps (\<lambda>x. x) (wa_getVR d namespace n)"
    and "claimsFromMomentLoop d namespace moment cls filled w = (Inr fm, w')"
  shows "w' = w \<and> fm = (if \<forall>cl \<in> set cls. Enabled (m_annotations (pc_meta cl)) \<longrightarrow> comesFrom d namespace moment w cl
      then Some (earliest filled (fillStarts d namespace moment w cls)) else None)"
  using assms(2)
proof (induction cls arbitrary: filled)
  case Nil
  then show ?case by (simp add: call_simps)
next
  case (Cons cl cls)
  show ?case
  proof (cases "Enabled (m_annotations (pc_meta cl))")
    case False
    then have "fillStart d namespace moment w cl = None" by (simp add: fillStart_def)
    moreover have "claimsFromMomentLoop d namespace moment cls filled w = (Inr fm, w')"
      using Cons.prems False by (simp add: claimsFromMomentLoop_Cons)
    ultimately show ?thesis using Cons.IH[of filled] False by (simp add: fillStarts_Cons)
  next
    case en: True
    note step = Cons.prems[unfolded claimsFromMomentLoop_Cons] en
    show ?thesis
    proof (cases "\<exists>ref. pc_dataSourceRef cl = Some ref \<and> or_kind ref = ''VolumeRestore'' \<and> or_apiGroup ref = Some APIGroup \<and>
        m_annotations (pc_meta cl) AnnotationRestoreAsOf = None")
      case False
      then have "\<not> comesFrom d namespace moment w cl" by (auto simp: comesFrom_def split: option.splits)
      moreover have "w' = w \<and> fm = None" using step False by (auto simp: call_simps split: option.splits if_splits)
      ultimately show ?thesis using en by auto
    next
      case True
      then obtain ref where ref: "pc_dataSourceRef cl = Some ref" "or_kind ref = ''VolumeRestore''" "or_apiGroup ref = Some APIGroup"
        "m_annotations (pc_meta cl) AnnotationRestoreAsOf = None" by blast
      obtain v where v: "wa_getVR d namespace (or_name ref) w = (v, w)"
        using keep[of "or_name ref"] by (simp add: keeps_def) (metis prod.collapse)
      show ?thesis
      proof (cases v)
        case (Inl err)
        then have "w' = w \<and> fm = None" using step ref v by (auto simp: call_simps split: if_splits)
        moreover have "\<not> comesFrom d namespace moment w cl" using ref v Inl by (simp add: comesFrom_def)
        ultimately show ?thesis using en by auto
      next
        case (Inr vr)
        show ?thesis
        proof (cases "vs_RestoreAsOf (vr_spec vr) = None")
          case False
          then have "w' = w \<and> fm = None" using step ref v Inr by (simp add: call_simps)
          moreover have "\<not> comesFrom d namespace moment w cl" using ref v Inr False by (simp add: comesFrom_def)
          ultimately show ?thesis using en by auto
        next
          case unpinned: True
          show ?thesis
          proof (cases "pc_phase cl = ClaimBound")
            case False
            then have "comesFrom d namespace moment w cl" "fillStart d namespace moment w cl = None"
              using ref v Inr unpinned by (simp_all add: comesFrom_def fillStart_def)
            moreover have "claimsFromMomentLoop d namespace moment cls filled w = (Inr fm, w')"
              using step ref v Inr unpinned False by (simp add: call_simps)
            ultimately show ?thesis using Cons.IH[of filled] en by (simp add: fillStarts_Cons)
          next
            case bound: True
            show ?thesis
            proof (cases "find (recordedFill moment cl) (vt_Claims (vr_status vr))")
              case None
              then have "w' = w \<and> fm = None" using step ref v Inr unpinned bound by (simp add: call_simps)
              moreover have "\<not> comesFrom d namespace moment w cl"
                using ref v Inr bound None by (auto simp: comesFrom_def find_None_iff list_ex_iff)
              ultimately show ?thesis using en by auto
            next
              case (Some e)
              then have "recordedFill moment cl e" "e \<in> set (vt_Claims (vr_status vr))" by (auto simp: find_Some_iff)
              then obtain t where t: "cs_StartedAt e = Some t" and
                c: "list_ex (recordedFill moment cl) (vt_Claims (vr_status vr))"
                by (auto simp: recordedFill_def list_ex_iff)
              have cf: "comesFrom d namespace moment w cl" "fillStart d namespace moment w cl = Some t"
                using ref v Inr unpinned bound c Some t en by (simp_all add: comesFrom_def fillStart_def)
              have "claimsFromMomentLoop d namespace moment cls (case filled of None \<Rightarrow> Some t | Some f \<Rightarrow> if t < f then Some t else filled) w = (Inr fm, w')"
                using step ref v Inr unpinned bound Some t by (simp add: call_simps Let_def)
              from Cons.IH[OF this] cf en show ?thesis by (simp add: fillStarts_Cons earliest_insert)
            qed
          qed
        qed
      qed
    qed
  qed
qed

text \<open>The stop that the moment asks for: the base backup its snapshot names, when the store lists it; the
  whole archive for a database that was hibernated then and sleeps still; and otherwise the newest base
  backup that finished by the moment, or the whole archive when there is none.\<close>

definition momentStop :: "string \<Rightarrow> baseBackup list \<Rightarrow> gtime \<Rightarrow> snapshot option \<Rightarrow> bool \<Rightarrow> string \<Rightarrow> bool" where
  "momentStop name backups moment found asleep t =
     (if \<exists>s b. found = Some s \<and> b \<in> set backups \<and> PausedBaseBackup s name = Some (bb_ID b)
      then \<exists>s. found = Some s \<and> PausedBaseBackup s name = Some t
      else if (\<exists>s. found = Some s \<and> HibernatedTag name \<in> set (sn_Tags s)) \<and> asleep then t = []
      else if \<exists>b \<in> set backups. bb_End b \<le> moment then \<exists>b. newestBy backups moment b \<and> t = bb_ID b
      else t = [])"

lemma momentTarget_stop:
  assumes "momentTarget d at name backups moment found w = (Inr t, w')"
  shows "momentStop name backups moment found (\<exists>w4. wa_WALSince d at moment w = (Inr False, w4)) t"
proof (cases "\<exists>s b. found = Some s \<and> b \<in> set backups \<and> PausedBaseBackup s name = Some (bb_ID b)")
  case True
  then obtain s b where s: "found = Some s" "b \<in> set backups" "PausedBaseBackup s name = Some (bb_ID b)" by blast
  then have "list_ex (\<lambda>c. bb_ID c = bb_ID b) backups" by (auto simp: list_ex_iff)
  then have "t = bb_ID b" using assms s by (simp add: momentTarget_def call_simps)
  then show ?thesis unfolding momentStop_def if_P[OF True] using s by blast
next
  case False
  let ?fb = "case bbAtOrBefore backups moment of Some b \<Rightarrow> bb_ID b | None \<Rightarrow> []"
  let ?hib = "\<exists>s. found = Some s \<and> HibernatedTag name \<in> set (sn_Tags s)"
  let ?asleep = "\<exists>w4. wa_WALSince d at moment w = (Inr False, w4)"
  have un: "\<not> list_ex (\<lambda>b. bb_ID b = bid) backups" if "found = Some s" "PausedBaseBackup s name = Some bid" for s bid
    using False that by (auto simp: list_ex_iff)
  have "(if ?hib then bindM (wa_WALSince d at moment) (\<lambda>woken. if \<not> woken then ret [] else ret ?fb) else ret ?fb) w = (Inr t, w')"
    using assms un by (auto simp: momentTarget_def Let_def split: option.splits)
  note h = this
  have t: "if ?hib \<and> ?asleep then t = [] else t = ?fb"
  proof (cases ?hib)
    case True
    from h[unfolded if_P[OF True]] obtain woken w1 where "wa_WALSince d at moment w = (Inr woken, w1)"
      "(if \<not> woken then ret [] else ret ?fb) w1 = (Inr t, w')" by (rule bindM_InrE)
    then show ?thesis using True by (cases woken) (simp_all add: ret_def)
  next
    case no: False
    have "t = ?fb" using h[unfolded if_not_P[OF no]] by (simp add: ret_def)
    then show ?thesis using no by (simp only: simp_thms if_False)
  qed
  show ?thesis
  proof (cases "?hib \<and> ?asleep")
    case True
    with t show ?thesis unfolding momentStop_def if_not_P[OF False] by simp
  next
    case awake: False
    with t have fb: "t = ?fb" by (simp only: if_False)
    have "if \<exists>b \<in> set backups. bb_End b \<le> moment then \<exists>b. newestBy backups moment b \<and> t = bb_ID b else t = []"
    proof (cases "bbAtOrBefore backups moment")
      case None
      have "\<not> (\<exists>b \<in> set backups. bb_End b \<le> moment)" by (rule iffD1[OF bbAtOrBefore_none None])
      moreover have "t = []" using fb None by simp
      ultimately show ?thesis by simp
    next
      case (Some b)
      then have "\<exists>b \<in> set backups. bb_End b \<le> moment" using bbAtOrBefore_none[of backups moment] by auto
      with Some fb bbAtOrBefore_newest[OF Some] show ?thesis by auto
    qed
    then show ?thesis unfolding momentStop_def if_not_P[OF False] if_not_P[OF awake] .
  qed
qed

lemma automaticRecovery_choice:
  assumes "automaticRecovery d at namespace name backups w = (Inr t, w')" "t \<noteq> []"
  shows "\<exists>lister repos w1 moment filled w2 w3. wa_snapshots d = Some lister \<and>
    Repositories (wa_listVRs d) (wa_getSecret d) lister namespace w = (Inr repos, w1) \<and> Moment repos = Some moment \<and>
    claimsFromMoment d namespace moment w1 = (Inr (Some filled), w2) \<and>
    (case filled of Some f \<Rightarrow> wa_WALSince d at f w2 = (Inr False, w3) | None \<Rightarrow> w3 = w2) \<and>
    withinMoment name backups moment (firstAt (wa_mapOrder d repos) moment) t"
proof -
  from assms obtain lister where li: "wa_snapshots d = Some lister"
    by (auto simp: automaticRecovery_def split: option.splits)
  from assms li obtain repos w1 moment where r: "Repositories (wa_listVRs d) (wa_getSecret d) lister namespace w = (Inr repos, w1)"
    and m: "Moment repos = Some moment"
    by (auto simp: automaticRecovery_def bindM_Inr_iff split: option.splits)
  let ?rest = "\<lambda>filled. bindM (case filled of Some f \<Rightarrow> wa_WALSince d at f | None \<Rightarrow> ret False) (\<lambda>written.
            if written then ret [] else momentTarget d at name backups moment (firstAt (wa_mapOrder d repos) moment))"
  from assms li r m obtain fm w2 where c0: "claimsFromMoment d namespace moment w1 = (Inr fm, w2)"
    and rest: "(case fm of None \<Rightarrow> ret [] | Some filled \<Rightarrow> ?rest filled) w2 = (Inr t, w')"
    by (simp add: automaticRecovery_def bindM_Inr_iff[of "Repositories _ _ _ _"] bindM_Inr_iff[of "claimsFromMoment _ _ _"])
      blast
  from rest assms(2) obtain filled where fm: "fm = Some filled" by (cases fm) auto
  note c = c0[unfolded fm]
  from rest fm have "?rest filled w2 = (Inr t, w')" by simp
  then obtain written w3 where
    f0: "(case filled of Some f \<Rightarrow> wa_WALSince d at f | None \<Rightarrow> ret False) w2 = (Inr written, w3)" and
    t0: "(if written then ret [] else momentTarget d at name backups moment (firstAt (wa_mapOrder d repos) moment)) w3 = (Inr t, w')"
    by (simp only: bindM_Inr_iff) blast
  from t0 assms(2) have "\<not> written" by (cases written) simp_all
  with f0 t0 have f: "(case filled of Some f \<Rightarrow> wa_WALSince d at f | None \<Rightarrow> ret False) w2 = (Inr False, w3)" and
    t: "momentTarget d at name backups moment (firstAt (wa_mapOrder d repos) moment) w3 = (Inr t, w')" by simp_all
  have f': "case filled of Some f \<Rightarrow> wa_WALSince d at f w2 = (Inr False, w3) | None \<Rightarrow> w3 = w2"
    using f by (cases filled) simp_all
  have "withinMoment name backups moment (firstAt (wa_mapOrder d repos) moment) t"
    using t assms(2) by (rule momentTarget_within)
  with li r m c f' show ?thesis by blast
qed

text \<open>C18. Where an automatic recovery stops, exactly. When the namespace has a paused moment, every claim
  of it marked for backup comes back from that moment (it is filled through a VolumeRestore, is pinned
  nowhere, and if it is bound its VolumeRestore records a fill with a snapshot of that moment), and no WAL
  was archived since the first of those fills started, the database stops where the moment asks for: at
  the base backup the moment's snapshot names, when it is listed; nowhere, when the snapshot marks the
  database as hibernated and no WAL came after the moment; and else at the newest base backup that finished
  by the moment. In every other case it replays the whole archive. The reads of VolumeRestores are assumed
  to change nothing.\<close>

theorem automaticRecovery_within:
  assumes "automaticRecovery d at namespace name backups w = (Inr t, w')"
    and "\<And>n. keeps (\<lambda>x. x) (wa_getVR d namespace n)"
  shows "(\<exists>lister repos w1 moment claims w2 w3. wa_snapshots d = Some lister \<and>
      Repositories (wa_listVRs d) (wa_getSecret d) lister namespace w = (Inr repos, w1) \<and> Moment repos = Some moment \<and>
      wa_listClaims d namespace w1 = (Inr claims, w2) \<and>
      (\<forall>cl \<in> set claims. Enabled (m_annotations (pc_meta cl)) \<longrightarrow> comesFrom d namespace moment w2 cl) \<and>
      (if fillStarts d namespace moment w2 claims = {} then w3 = w2
       else wa_WALSince d at (Min (fillStarts d namespace moment w2 claims)) w2 = (Inr False, w3)) \<and>
      momentStop name backups moment (firstAt (wa_mapOrder d repos) moment) (\<exists>w4. wa_WALSince d at moment w3 = (Inr False, w4)) t) \<or>
    t = [] \<and> (wa_snapshots d = None \<or>
      (\<exists>lister repos w1. wa_snapshots d = Some lister \<and> Repositories (wa_listVRs d) (wa_getSecret d) lister namespace w = (Inr repos, w1) \<and>
        (Moment repos = None \<or>
         (\<exists>moment claims w2. Moment repos = Some moment \<and> wa_listClaims d namespace w1 = (Inr claims, w2) \<and>
           ((\<exists>cl \<in> set claims. Enabled (m_annotations (pc_meta cl)) \<and> \<not> comesFrom d namespace moment w2 cl) \<or>
            (fillStarts d namespace moment w2 claims \<noteq> {} \<and>
             (\<exists>w3. wa_WALSince d at (Min (fillStarts d namespace moment w2 claims)) w2 = (Inr True, w3))))))))"
    (is "?moment \<or> ?whole")
proof (cases "wa_snapshots d")
  case None
  then have ?whole using assms(1) by (simp add: automaticRecovery_def call_simps)
  then show ?thesis ..
next
  case (Some lister)
  note rec = assms(1)[unfolded automaticRecovery_def Some option.case]
  from rec obtain repos w1 where r: "Repositories (wa_listVRs d) (wa_getSecret d) lister namespace w = (Inr repos, w1)" and
    a: "(case Moment repos of None \<Rightarrow> ret [] | Some moment \<Rightarrow>
          bindM (claimsFromMoment d namespace moment) (\<lambda>fromMoment. case fromMoment of
            None \<Rightarrow> ret []
          | Some filled \<Rightarrow>
            bindM (case filled of Some f \<Rightarrow> wa_WALSince d at f | None \<Rightarrow> ret False) (\<lambda>written.
            if written then ret []
            else momentTarget d at name backups moment (firstAt (wa_mapOrder d repos) moment)))) w1 = (Inr t, w')"
    by (rule bindM_InrE)
  show ?thesis
  proof (cases "Moment repos")
    case None
    then have "t = []" using a by (simp add: call_simps)
    then have ?whole using Some r None by blast
    then show ?thesis ..
  next
    case m: (Some moment)
    from a[unfolded m option.case] obtain fm w3 where c: "claimsFromMoment d namespace moment w1 = (Inr fm, w3)" and
      b: "(case fm of None \<Rightarrow> ret [] | Some filled \<Rightarrow>
            bindM (case filled of Some f \<Rightarrow> wa_WALSince d at f | None \<Rightarrow> ret False) (\<lambda>written.
            if written then ret [] else momentTarget d at name backups moment (firstAt (wa_mapOrder d repos) moment))) w3 = (Inr t, w')"
      by (rule bindM_InrE)
    from c obtain claims w2 where cl: "wa_listClaims d namespace w1 = (Inr claims, w2)" and
      l: "claimsFromMomentLoop d namespace moment claims None w2 = (Inr fm, w3)"
      by (auto simp: claimsFromMoment_def bindM_Inr_iff)
    let ?T = "fillStarts d namespace moment w2 claims"
    let ?all = "\<forall>cl \<in> set claims. Enabled (m_annotations (pc_meta cl)) \<longrightarrow> comesFrom d namespace moment w2 cl"
    from claimsFromMomentLoop_exact[OF assms(2) l] have x: "w3 = w2" "fm = (if ?all then Some (earliest None ?T) else None)" by blast+
    show ?thesis
    proof (cases ?all)
      case False
      then have "t = []" using b x(2) by (simp only: if_False option.case ret_def prod.inject sum.inject)
      then have ?whole using Some r m cl False by blast
      then show ?thesis ..
    next
      case True
      have e: "earliest None ?T = (if ?T = {} then None else Some (Min ?T))" by (simp add: earliest_def)
      from b obtain written w4 where
        wr: "(case earliest None ?T of Some f \<Rightarrow> wa_WALSince d at f | None \<Rightarrow> ret False) w2 = (Inr written, w4)" and
        t: "(if written then ret [] else momentTarget d at name backups moment (firstAt (wa_mapOrder d repos) moment)) w4 = (Inr t, w')"
        unfolding x if_P[OF True] option.case by (rule bindM_InrE)
      show ?thesis
      proof (cases written)
        case True
        then have "t = []" using t by (simp add: call_simps)
        moreover have "?T \<noteq> {}" "wa_WALSince d at (Min ?T) w2 = (Inr True, w4)"
          using wr True unfolding e by (auto simp: call_simps split: if_splits)
        ultimately have ?whole using Some r m cl by blast
        then show ?thesis ..
      next
        case False
        then have "if ?T = {} then w4 = w2 else wa_WALSince d at (Min ?T) w2 = (Inr False, w4)"
          using wr unfolding e by (auto simp: call_simps split: if_splits)
        moreover have "momentStop name backups moment (firstAt (wa_mapOrder d repos) moment) (\<exists>w5. wa_WALSince d at moment w4 = (Inr False, w5)) t"
          using t False by (intro momentTarget_stop) simp
        ultimately have ?moment using Some r m cl True by blast
        then show ?thesis ..
      qed
    qed
  qed
qed

section \<open>The rewritten Cluster\<close>

definition named :: "string \<Rightarrow> externalCluster option \<Rightarrow> bool" where
  "named n e = (case e of Some x \<Rightarrow> ex_name x = n | None \<Rightarrow> False)"

lemma find_append: "find P (xs @ ys) = (case find P xs of Some x \<Rightarrow> Some x | None \<Rightarrow> find P ys)"
  by (induction xs) auto

lemma replaceEntry_spec:
  assumes "replaceEntry entry es = (es', replaced)" "ex_name entry = RecoverySource"
  shows "filter (\<lambda>e. \<not> named RecoverySource e) es' = filter (\<lambda>e. \<not> named RecoverySource e) es \<and>
    find (named RecoverySource) es' = (if replaced then Some (Some entry) else None) \<and>
    length (filter (named RecoverySource) es') = length (filter (named RecoverySource) es)"
  using assms by (induction entry es arbitrary: es' rule: replaceEntry.induct)
    (auto simp: named_def split: option.splits if_splits prod.splits)

text \<open>What a rewritten Cluster holds. It starts by a recovery from the archive it was resolved
  to: \<open>initdb\<close> is gone and its database, owner and secret moved to the recovery, the recovery reads
  from the external cluster named \<open>backup-controller\<close>, the first entry of that name is the plugin
  with this store and server name, every other external cluster is kept in order, the plugins (and so
  where it archives) are untouched, and the check for an empty archive is switched off. An empty
  target leaves the recovery to replay the whole archive.\<close>

theorem setRecovery_spec:
  "let c' = setRecovery c store serverName target in
    cl_initdb c' = None \<and>
    (\<exists>r. cl_recovery c' = Some r \<and> rc_source r = RecoverySource \<and>
       rc_backupID r = (if target = [] then None else Some target) \<and>
       (case cl_initdb c of
          None \<Rightarrow> rc_database r = None \<and> rc_owner r = None \<and> rc_secret r = None
        | Some i \<Rightarrow> rc_database r = (if in_database i = [] then None else Some (in_database i)) \<and>
            rc_owner r = (if in_owner i = [] then None else Some (in_owner i)) \<and> rc_secret r = in_secret i)) \<and>
    find (named RecoverySource) (cl_external c') =
      Some (Some \<lparr>ex_name = RecoverySource, ex_plugin = Some (PluginName, store, serverName), ex_rest = []\<rparr>) \<and>
    filter (\<lambda>e. \<not> named RecoverySource e) (cl_external c') = filter (\<lambda>e. \<not> named RecoverySource e) (cl_external c) \<and>
    cl_plugins c' = cl_plugins c \<and> Archiver c' = Archiver c \<and>
    m_annotations (cl_meta c') = (m_annotations (cl_meta c))(SkipCheckAnnotation \<mapsto> ''enabled'')"
proof -
  let ?e = "\<lparr>ex_name = RecoverySource, ex_plugin = Some (PluginName, store, serverName), ex_rest = []\<rparr>"
  let ?c = "setRecovery c store serverName target"
  obtain es b where r: "replaceEntry ?e (cl_external c) = (es, b)" by fastforce
  have ext: "cl_external ?c = (if b then es else es @ [Some ?e])" by (simp add: setRecovery_def Let_def r)
  note sp = replaceEntry_spec[OF r]
  have "find (named RecoverySource) (cl_external ?c) = Some (Some ?e)"
    using sp by (auto simp: ext find_append named_def split: option.splits)
  moreover have "filter (\<lambda>e. \<not> named RecoverySource e) (cl_external ?c) = filter (\<lambda>e. \<not> named RecoverySource e) (cl_external c)"
    using sp by (simp add: ext named_def)
  moreover have "Archiver ?c = Archiver c" by (simp add: setRecovery_def Let_def Archiver_def)
  moreover have "cl_initdb ?c = None \<and> (\<exists>r. cl_recovery ?c = Some r \<and> rc_source r = RecoverySource \<and>
       rc_backupID r = (if target = [] then None else Some target) \<and>
       (case cl_initdb c of
          None \<Rightarrow> rc_database r = None \<and> rc_owner r = None \<and> rc_secret r = None
        | Some i \<Rightarrow> rc_database r = (if in_database i = [] then None else Some (in_database i)) \<and>
            rc_owner r = (if in_owner i = [] then None else Some (in_owner i)) \<and> rc_secret r = in_secret i))"
    by (cases "cl_initdb c") (simp_all add: setRecovery_def nonEmpty_def Let_def)
  moreover have "cl_plugins ?c = cl_plugins c \<and> m_annotations (cl_meta ?c) = (m_annotations (cl_meta c))(SkipCheckAnnotation \<mapsto> ''enabled'')"
    by (simp add: setRecovery_def Let_def)
  ultimately show ?thesis unfolding Let_def by blast
qed

section \<open>Which Clusters are rewritten\<close>

definition stopsAt :: "string \<Rightarrow> restoreItem \<Rightarrow> bool" where
  "stopsAt name i = (ri_Kind i = ''Cluster'' \<and> ri_Name i = name \<and> ri_StopAtBaseBackup i)"

lemma recoverCluster_Patched:
  assumes "recoverCluster d req c at store serverName run w = (Inr (Patched c'), w')"
  shows "\<exists>backups w1 target. wa_BaseBackups d at w = (Inr backups, w1) \<and> backups \<noteq> [] \<and>
     c' = restoreRunAnnotation run (setRecovery c store serverName target) \<and>
     (target = [] \<or> list_ex (\<lambda>b. bb_ID b = target) backups) \<and>
     (case run of
        None \<Rightarrow> automaticRecovery d at (rq_Namespace req) (rq_Name req) backups w1 = (Inr target, w')
      | Some r \<Rightarrow> (if list_ex (stopsAt (rq_Name req)) (rt_Items (rr_status r))
                   then \<exists>i \<in> set (rt_Items (rr_status r)). stopsAt (rq_Name req) i \<and> target = ri_BaseBackup i else target = []))"
proof -
  from assms obtain backups w1 target0 where b: "wa_BaseBackups d at w = (Inr backups, w1)" "backups \<noteq> []"
    and r: "recoveryFor (rq_Name req) run backups = Inr target0"
    and o: "orErrored (if run = None then automaticRecovery d at (rq_Namespace req) (rq_Name req) backups else ret target0)
       (\<lambda>target. ret (Patched (restoreRunAnnotation run (setRecovery c store serverName target)))) w1 = (Inr (Patched c'), w')"
    by (auto simp: recoverCluster_def orErrored_iff[of "wa_BaseBackups _ _"] withoutBaseBackup_def orErrored_iff[of "wa_ArchiveEmpty _ _"]
        split: if_splits sum.splits option.splits)
  from o obtain target where t: "(if run = None then automaticRecovery d at (rq_Namespace req) (rq_Name req) backups else ret target0) w1 = (Inr target, w')"
    and c: "c' = restoreRunAnnotation run (setRecovery c store serverName target)" by (auto simp: orErrored_iff)
  show ?thesis
  proof (cases run)
    case None
    then have a: "automaticRecovery d at (rq_Namespace req) (rq_Name req) backups w1 = (Inr target, w')" using t by simp
    have "target = [] \<or> list_ex (\<lambda>b. bb_ID b = target) backups"
      using automaticRecovery_choice[OF a] by (auto simp: withinMoment_def list_ex_iff)
    with a b c None show ?thesis by auto
  next
    case (Some run')
    then have "target = target0" using t by simp
    with recoveryForLoop_Inr[of "rq_Name req" "m_name (rr_meta run')" backups "rt_Items (rr_status run')" target] r Some
    have "(target = [] \<and> \<not> list_ex (stopsAt (rq_Name req)) (rt_Items (rr_status run'))) \<or>
      (\<exists>i \<in> set (rt_Items (rr_status run')). stopsAt (rq_Name req) i \<and> target = ri_BaseBackup i \<and> list_ex (\<lambda>b. bb_ID b = target) backups)"
      by (simp add: recoveryFor_def stopsAt_def list_ex_iff)
    with b c Some show ?thesis by (auto simp: list_ex_iff)
  qed
qed

text \<open>C27. A recovery is only ever built on base backups the store holds. When the webhook rewrites a
  new Cluster, it archives somewhere, declared no recovery itself, and the store listed at least one
  completed base backup at its location; the recovery stops at the end of one of those or replays the
  whole archive. With a waiting RestoreRun the stop is exactly the one its item for this Cluster
  asks for, and the Cluster is marked with the run; otherwise it is the automatic choice.\<close>

theorem Handle_recovers:
  assumes "rq_Operation req = OpCreate" "rq_DryRun req \<noteq> Some True" "rq_Object req = Inr c"
    and "Handle d req w = (Inr (Patched c'), w')"
  shows "\<exists>store serverName at run backups target w1 w2 w3 w4 w5.
     Archiver c = Some (store, serverName) \<and> cl_recovery c = None \<and>
     ResolveLocation (wa_urlParse d) (wa_getStore d) (wa_getSecret d) (rq_Namespace req) store serverName w1 = (Inr at, w2) \<and>
     waitingRun d (rq_Namespace req) (rq_Name req) w3 = (Inr run, w4) \<and>
     wa_BaseBackups d at w4 = (Inr backups, w5) \<and> backups \<noteq> [] \<and>
     c' = restoreRunAnnotation run (setRecovery c store serverName target) \<and>
     (target = [] \<or> list_ex (\<lambda>b. bb_ID b = target) backups) \<and>
     (case run of
        None \<Rightarrow> automaticRecovery d at (rq_Namespace req) (rq_Name req) backups w5 = (Inr target, w')
      | Some r \<Rightarrow> (if list_ex (stopsAt (rq_Name req)) (rt_Items (rr_status r))
                   then \<exists>i \<in> set (rt_Items (rr_status r)). stopsAt (rq_Name req) i \<and> target = ri_BaseBackup i else target = []))"
proof -
  have dc: "decideCreate d req c w = (Inr (Patched c'), w')" using assms by (simp add: Handle_create)
  then obtain store sv where a: "Archiver c = Some (store, sv)"
    by (cases "Archiver c") (auto simp: decideCreate_def orErrored_iff split: if_splits)
  obtain at w1 w2 w3 run w4 where l: "locate d req store sv w1 = (Inr at, w2)"
    and wr: "waitingRun d (rq_Namespace req) (rq_Name req) w3 = (Inr run, w4)" "cl_recovery c = None"
    and rc: "recoverCluster d req c at store sv run w4 = (Inr (Patched c'), w')"
    by (rule decideCreate_archived[OF dc a]) (auto simp: optedOut_def orErrored_iff split: if_splits)
  from recoverCluster_Patched[OF rc] a l wr show ?thesis unfolding locate_def by blast
qed

text \<open>The object that is stored after a response.\<close>

definition admitted :: "cluster \<Rightarrow> response \<Rightarrow> cluster option" where
  "admitted c resp = (case resp of Allowed m \<Rightarrow> Some c | Patched c' \<Rightarrow> Some c' | _ \<Rightarrow> None)"

text \<open>A Cluster this webhook recovered never gets an \<open>initdb\<close> back. Once the stored Cluster
  recovers from the webhook's own source, whatever update is let through carries no
  \<open>spec.bootstrap.initdb\<close> and is otherwise what was submitted, so a re-apply of the manifest does not
  leave a Cluster with both.\<close>

theorem Handle_update_no_initdb:
  assumes "rq_Operation req = OpUpdate" "rq_OldObject req = Inr old" "rq_Object req = Inr c"
    and "cl_recovery old = Some r" "rc_source r = RecoverySource"
  shows "\<exists>resp. Handle d req w = (Inr resp, w) \<and> admitted c resp = Some (c\<lparr>cl_initdb := None\<rparr>)"
  using assms by (cases "cl_initdb c") (auto simp: Handle_def keepRecovery_def admitted_def ret_def)

end
