(* ===== verification/Webhook_Example.thy ===== *)
theory Webhook_Example
  imports Webhook_Recovery
begin

text \<open>
  The witnesses of the webhook's theorems, on an example namespace.
\<close>

section \<open>A namespace with one Cluster\<close>

text \<open>The example: the Cluster \<open>app/db\<close> archives to the bucket \<open>b\<close> under \<open>p/db\<close>, and the Cluster \<open>app/o\<close> under \<open>p/o\<close>. \<open>apiEx backups vrs snaps claims\<close>
  is an API server and an object store with the given base backups, VolumeRestores, snapshots of
  every repository and claims; nothing else exists.\<close>

definition clusterEx :: cluster where
  "clusterEx = \<lparr>cl_meta = objectMeta0\<lparr>m_namespace := ''app'', m_name := ''db''\<rparr>,
     cl_plugins = [Some \<lparr>pl_name = PluginName, pl_isWALArchiver = True, pl_barmanObjectName = ''store'', pl_serverName = []\<rparr>],
     cl_initdb = Some \<lparr>in_database = ''app'', in_owner = [], in_secret = None\<rparr>, cl_recovery = None, cl_external = [], cl_phase = []\<rparr>"

definition otherEx :: cluster where
  "otherEx = clusterEx\<lparr>cl_meta := objectMeta0\<lparr>m_namespace := ''app'', m_name := ''o''\<rparr>\<rparr>"

definition createEx :: admissionRequest where
  "createEx = \<lparr>rq_Operation = OpCreate, rq_Namespace = ''app'', rq_Name = ''db'', rq_DryRun = None,
     rq_Object = Inr clusterEx, rq_OldObject = Inl (Plain ''no object'')\<rparr>"

definition vrEx :: "claimRestoreStatus list \<Rightarrow> volumeRestore" where
  "vrEx cs = \<lparr>vr_meta = objectMeta0\<lparr>m_namespace := ''app'', m_name := ''data''\<rparr>,
     vr_spec = \<lparr>vs_Repository = ''repo'', vs_RestoreAsOf = None, vs_CacheStorageClassName = None, vs_CacheCapacity = None,
       vs_MoverPodLabels = None, vs_MoverSecurityContext = None\<rparr>,
     vr_status = \<lparr>vt_Conditions = [], vt_Claims = cs\<rparr>\<rparr>"

definition apiEx :: "baseBackup list \<Rightarrow> volumeRestore list \<Rightarrow> snapshot list \<Rightarrow> claim list \<Rightarrow> nat webhookApi" where
  "apiEx backups vrs snaps claims = \<lparr>wa_listPods = \<lambda>_ _. ret [], wa_listInstanceClaims = \<lambda>_ _. ret [],
     wa_getStore = \<lambda>_ _. ret \<lparr>os_name = ''store'', os_destinationPath = ''s3://b/p'', os_endpointURL = [],
       os_accessKeyId = \<lparr>sr_name = ''s'', sr_key = ''a''\<rparr>, os_secretAccessKey = \<lparr>sr_name = ''s'', sr_key = ''k''\<rparr>,
       os_endpointCA = \<lparr>sr_name = [], sr_key = []\<rparr>\<rparr>,
     wa_getSecret = \<lambda>_ _. ret \<lparr>se_meta = objectMeta0, se_data = (\<lambda>_. Some ''x'')\<rparr>,
     wa_listClusters = ret [clusterEx, otherEx], wa_listRestoreRuns = \<lambda>_. ret [], wa_listVRs = \<lambda>_. ret vrs,
     wa_getVR = \<lambda>_ n. (case vrs of vr # _ \<Rightarrow> ret vr | [] \<Rightarrow> failM (NotFound n)), wa_listClaims = \<lambda>_. ret claims,
     wa_snapshots = Some (\<lambda>_. ret snaps), wa_BaseBackups = \<lambda>_. ret backups, wa_ArchiveEmpty = \<lambda>_. ret True,
     wa_WALSince = \<lambda>_ _. ret False, wa_urlParse = \<lambda>_. Inr \<lparr>u_Scheme = ''s3'', u_Host = ''b'', u_Path = ''/p''\<rparr>, wa_mapOrder = \<lambda>r. r\<rparr>"

lemmas exDefs = apiEx_def createEx_def clusterEx_def vrEx_def objectMeta0_def

lemma Archiver_ex [simp]: "Archiver clusterEx = Some (''store'', ''db'')"
  by (simp add: Archiver_def clusterEx_def objectMeta0_def)

definition locationEx :: location where
  "locationEx = \<lparr>lo_Endpoint = [], lo_Bucket = ''b'', lo_Prefix = ''p/db'', lo_AccessKey = ''x'', lo_SecretKey = ''x'', lo_CABundle = []\<rparr>"

lemma locate_ex: "ResolveLocation (wa_urlParse (apiEx bs vrs ss cs)) (wa_getStore (apiEx bs vrs ss cs)) (wa_getSecret (apiEx bs vrs ss cs)) ''app'' ''store'' ''db''
    = ret locationEx"
  by (rule ext) (simp add: ResolveLocation_def archivePath_def credential_def endpointCA_def splitDestination_def call_simps apiEx_def
      Let_def locationEx_def trimSlashes_def trimSet_def)

lemma holder_ex: "archiveHolder (apiEx bs vrs ss cs) ''app'' ''db'' locationEx = ret []"
  by (rule ext) (simp add: archiveHolder_def call_simps apiEx_def otherEx_def clusterEx_def objectMeta0_def Let_def Archiver_def
      archivePathW_def archivePath_def splitDestination_def trimSlashes_def trimSet_def locationEx_def)

lemma decide_ex:
  "Handle (apiEx bs vrs ss cs) createEx = recoverCluster (apiEx bs vrs ss cs) createEx clusterEx locationEx ''store'' ''db'' None"
proof -
  have "InstanceLeft (wa_listPods (apiEx bs vrs ss cs)) (wa_listInstanceClaims (apiEx bs vrs ss cs)) ''app'' ''db'' = ret []"
    by (rule ext) (simp add: InstanceLeft_def call_simps apiEx_def)
  moreover have "waitingRun (apiEx bs vrs ss cs) ''app'' ''db'' = ret None"
    by (rule ext) (simp add: waitingRun_def call_simps apiEx_def)
  moreover have "rq_Namespace createEx = ''app''" "rq_Name createEx = ''db''" "rq_Object createEx = Inr clusterEx"
    "rq_Operation createEx = OpCreate" "rq_DryRun createEx = None" by (simp_all add: createEx_def)
  moreover have "cl_recovery clusterEx = None" "m_annotations (cl_meta clusterEx) = Map.empty"
    by (simp_all add: clusterEx_def objectMeta0_def)
  ultimately show ?thesis
    by (intro ext) (simp add: Handle_def decideCreate_def orErrored_def call_simps locate_ex holder_ex getOr_def OptOutValue_def)
qed

lemma Handle_empty_ex: "Handle (apiEx [] [] [] []) createEx 0 = (Inr (Allowed ''nothing archived yet''), 0)"
  unfolding decide_ex by (simp add: recoverCluster_def withoutBaseBackup_def orErrored_def call_simps apiEx_def)

theorem Handle_no_empty_beside_archive_witness:
  "\<exists>at w1 w2 w3 w5.
     InstanceLeft (wa_listPods (apiEx [] [] [] [])) (wa_listInstanceClaims (apiEx [] [] [] [])) ''app'' ''db'' 0 = (Inr [], w1) \<and>
     ResolveLocation (wa_urlParse (apiEx [] [] [] [])) (wa_getStore (apiEx [] [] [] [])) (wa_getSecret (apiEx [] [] [] [])) ''app'' ''store'' ''db'' w1 = (Inr at, w2) \<and>
     archiveHolder (apiEx [] [] [] []) ''app'' ''db'' at w2 = (Inr [], w3) \<and>
     wa_ArchiveEmpty (apiEx [] [] [] []) at w5 = (Inr True, 0)"
proof -
  have "rq_Namespace createEx = ''app''" "rq_Name createEx = ''db''" "rq_DryRun createEx \<noteq> Some True" by (simp_all add: createEx_def)
  with Handle_no_empty_beside_archive[of createEx clusterEx "''store''" "''db''", OF _ _ _ _ _ Handle_empty_ex]
  show ?thesis by (auto simp: createEx_def clusterEx_def Archiver_def objectMeta0_def)
qed

theorem Handle_no_shared_archive_witness:
  "archivesElsewhere (apiEx [] [] [] []) locationEx 0 otherEx"
proof -
  let ?d = "apiEx [] [] [] []"
  have r: "rq_Namespace createEx = ''app''" "rq_Name createEx = ''db''" "rq_DryRun createEx \<noteq> Some True"
    "rq_Operation createEx = OpCreate" "rq_Object createEx = Inr clusterEx" by (simp_all add: createEx_def)
  have l: "wa_listClusters ?d w = (Inr [clusterEx, otherEx], w)" "m_name (cl_meta otherEx) = ''o''" for w
    by (simp_all add: apiEx_def otherEx_def)
  have i: "InstanceLeft (wa_listPods ?d) (wa_listInstanceClaims ?d) ''app'' ''db'' = ret []"
    by (rule ext) (simp add: InstanceLeft_def call_simps apiEx_def)
  have "keeps (\<lambda>x. x) (wa_getStore ?d ns n)" for ns n by (simp add: apiEx_def keeps_ret)
  from Handle_no_shared_archive[OF r(4) r(3) r(5) Archiver_ex Handle_empty_ex _ _ this] r(1,2)
  show ?thesis by (auto simp: locate_ex l i)
qed

section \<open>A recovery to a paused moment\<close>

text \<open>A snapshot taken while the app was paused, in second 1000; a base backup that ended before it
  and one that ended after; a claim filled from that snapshot.\<close>

definition backupsEx :: "baseBackup list" where
  "backupsEx = [\<lparr>bb_ID = ''b1'', bb_End = 900000000000\<rparr>, \<lparr>bb_ID = ''b2'', bb_End = 2000000000000\<rparr>]"

definition snapEx :: snapshot where
  "snapEx = snapshot0\<lparr>sn_Time := 1000000000005, sn_Tags := [''paused'']\<rparr>"

definition fillEx :: claimRestoreStatus where
  "fillEx = \<lparr>cs_Name = ''data'', cs_UID = ''u'', cs_Phase = RestorePhaseRestored, cs_StartedAt = Some 3000000000000,
     cs_Snapshot = [], cs_SnapshotID = [], cs_SnapshotTime = Some 1000000000005\<rparr>"

definition claimEx :: claim where
  "claimEx = claim0\<lparr>pc_meta := objectMeta0\<lparr>m_uid := ''u'', m_annotations := [AnnotationEnabled \<mapsto> ''true'']\<rparr>,
     pc_dataSourceRef := Some \<lparr>or_kind = ''VolumeRestore'', or_name = ''data'', or_apiGroup = Some APIGroup\<rparr>, pc_phase := ClaimBound\<rparr>"

definition apiPaused :: "nat webhookApi" where
  "apiPaused = apiEx backupsEx [vrEx [fillEx]] [snapEx] [claimEx]"

lemma Enabled_ex: "Enabled (m_annotations (pc_meta claimEx))"
  by (simp add: Enabled_def claimEx_def objectMeta0_def getOr_def)

lemma claims_ex: "claimsFromMoment apiPaused ''app'' 1000000000000 0 = (Inr (Some (Some 3000000000000)), 0)"
  by (simp add: claimsFromMoment_def apiPaused_def apiEx_def call_simps claimsFromMomentLoop_Cons recordedFill_def fillEx_def vrEx_def
      Enabled_def getOr_def claimEx_def objectMeta0_def AnnotationEnabled_def AnnotationRestoreAsOf_def truncSecond_def second_def Let_def)

lemma Repositories_ex:
  "Repositories (wa_listVRs apiPaused) (wa_getSecret apiPaused) (\<lambda>_. ret [snapEx]) ''app'' = ret [(''repo'', [snapEx])]"
  by (rule ext) (simp add: Repositories_def apiPaused_def apiEx_def call_simps vrEx_def Let_def)

lemma Moment_ex: "Moment [(''repo'', [snapEx])] = Some 1000000000000"
  by code_simp

lemma target_ex:
  "firstAt [(''repo'', [snapEx])] 1000000000000 = Some snapEx" "PausedBaseBackup snapEx ''db'' = None"
  "HibernatedTag ''db'' \<notin> set (sn_Tags snapEx)" "bbAtOrBefore backupsEx 1000000000000 = Some \<lparr>bb_ID = ''b1'', bb_End = 900000000000\<rparr>"
  by code_simp+

lemma automaticRecovery_ex: "automaticRecovery apiPaused locationEx ''app'' ''db'' backupsEx 0 = (Inr ''b1'', 0)"
proof -
  have "wa_snapshots apiPaused = Some (\<lambda>_. ret [snapEx])" "wa_WALSince apiPaused = (\<lambda>_ _. ret False)" "wa_mapOrder apiPaused = (\<lambda>r. r)"
    by (simp_all add: apiPaused_def apiEx_def)
  then show ?thesis
    by (simp add: automaticRecovery_def call_simps Repositories_ex[unfolded ret_def] Moment_ex claims_ex momentTarget_def target_ex Let_def)
qed

theorem automaticRecovery_within_witness:
  "comesFrom apiPaused ''app'' 1000000000000 0 claimEx \<and> (\<exists>asleep. momentStop ''db'' backupsEx 1000000000000 (Some snapEx) asleep ''b1'')"
proof -
  have f: "wa_snapshots apiPaused = Some (\<lambda>_. ret [snapEx])" "wa_mapOrder apiPaused = (\<lambda>r. r)"
    "wa_listClaims apiPaused ''app'' 0 = (Inr [claimEx], 0)"
    by (simp_all add: apiPaused_def apiEx_def ret_def)
  have r: "Repositories (wa_listVRs apiPaused) (wa_getSecret apiPaused) (\<lambda>_. ret [snapEx]) ''app'' 0 = (Inr [(''repo'', [snapEx])], 0)"
    unfolding Repositories_ex by (simp add: ret_def)
  have "keeps (\<lambda>x. x) (wa_getVR apiPaused ''app'' n)" for n by (simp add: apiPaused_def apiEx_def keeps_ret)
  note choice = automaticRecovery_within[OF automaticRecovery_ex this]
  from choice obtain lister repos w1 moment claims w2 w3 where c: "wa_snapshots apiPaused = Some lister"
    "Repositories (wa_listVRs apiPaused) (wa_getSecret apiPaused) lister ''app'' 0 = (Inr repos, w1)" "Moment repos = Some moment"
    "wa_listClaims apiPaused ''app'' w1 = (Inr claims, w2)"
    "\<forall>cl \<in> set claims. Enabled (m_annotations (pc_meta cl)) \<longrightarrow> comesFrom apiPaused ''app'' moment w2 cl"
    "momentStop ''db'' backupsEx moment (firstAt (wa_mapOrder apiPaused repos) moment) (\<exists>w4. wa_WALSince apiPaused locationEx moment w3 = (Inr False, w4)) ''b1''"
    by auto
  have l: "lister = (\<lambda>_. ret [snapEx])" using c(1) f(1) by simp
  have w: "repos = [(''repo'', [snapEx])]" "w1 = 0" using c(2) r unfolding l by simp_all
  have m: "moment = 1000000000000" using c(3) Moment_ex unfolding w by simp
  have "claims = [claimEx]" "w2 = 0" using c(4) f(3) unfolding w by simp_all
  with c(5) Enabled_ex m have "comesFrom apiPaused ''app'' 1000000000000 0 claimEx" by simp
  moreover have "\<exists>asleep. momentStop ''db'' backupsEx 1000000000000 (Some snapEx) asleep ''b1''"
    using c(6) unfolding w m f(2) target_ex(1) by blast
  ultimately show ?thesis ..
qed

lemma Handle_recovers_ex:
  "Handle apiPaused createEx 0 = (Inr (Patched (setRecovery clusterEx ''store'' ''db'' ''b1'')), 0)"
proof -
  have "wa_BaseBackups apiPaused locationEx = ret backupsEx" "backupsEx \<noteq> []" by (simp_all add: apiPaused_def apiEx_def backupsEx_def)
  moreover have "rq_Namespace createEx = ''app''" "rq_Name createEx = ''db''" by (simp_all add: createEx_def)
  ultimately show ?thesis 
    by (simp add: recoverCluster_def orErrored_def call_simps recoveryFor_def automaticRecovery_ex restoreRunAnnotation_def
        decide_ex[of backupsEx "[vrEx [fillEx]]" "[snapEx]" "[claimEx]", folded apiPaused_def])
qed

theorem Handle_recovers_witness:
  "\<exists>target. setRecovery clusterEx ''store'' ''db'' ''b1'' = setRecovery clusterEx ''store'' ''db'' target \<and>
     (target = [] \<or> list_ex (\<lambda>b. bb_ID b = target) backupsEx)"
proof -
  have r: "rq_Namespace createEx = ''app''" "rq_Name createEx = ''db''" "rq_DryRun createEx \<noteq> Some True"
    "rq_Operation createEx = OpCreate" "rq_Object createEx = Inr clusterEx" by (simp_all add: createEx_def)
  have w: "waitingRun apiPaused ''app'' ''db'' = ret None" "\<And>at. wa_BaseBackups apiPaused at = ret backupsEx"
    by (simp_all add: fun_eq_iff waitingRun_def call_simps apiPaused_def apiEx_def)
  from Handle_recovers[OF r(4,3,5) Handle_recovers_ex] show ?thesis
    by (auto simp: r w restoreRunAnnotation_def)
qed

definition updateEx :: admissionRequest where
  "updateEx = createEx\<lparr>rq_Operation := OpUpdate, rq_OldObject := Inr (setRecovery clusterEx ''store'' ''db'' ''b1'')\<rparr>"

theorem Handle_update_no_initdb_witness:
  "\<exists>resp. Handle apiPaused updateEx 0 = (Inr resp, 0) \<and> admitted clusterEx resp = Some (clusterEx\<lparr>cl_initdb := None\<rparr>)"
  by (rule Handle_update_no_initdb[where old = "setRecovery clusterEx ''store'' ''db'' ''b1''"
      and r = "the (cl_recovery (setRecovery clusterEx ''store'' ''db'' ''b1''))"])
     (simp_all add: updateEx_def createEx_def setRecovery_def Let_def)

end
