(* ===== verification/Hoare_Calls.thy ===== *)
theory Hoare_Calls
  imports Prelude
begin

text \<open>
  Hoare triples for calls: a precondition, a postcondition for a call that returns and one for a
  call that fails. Go code keeps what it changed when it returns an error, so both outcomes carry a
  state. \<open>preserves\<close> is the triple of an invariant. The composition rules are collected in
  \<open>hoare_intros\<close> and \<open>pres_intros\<close>, to be applied as introduction rules.
\<close>

definition hoare :: "('s \<Rightarrow> bool) \<Rightarrow> ('s, 'a) call \<Rightarrow> ('a \<Rightarrow> 's \<Rightarrow> bool) \<Rightarrow> ('s \<Rightarrow> bool) \<Rightarrow> bool" where
  "hoare P c Q E = (\<forall>s. P s \<longrightarrow> (case c s of (Inl e, s') \<Rightarrow> E s' | (Inr x, s') \<Rightarrow> Q x s'))"

definition preserves :: "('s \<Rightarrow> bool) \<Rightarrow> ('s, 'a) call \<Rightarrow> bool" where
  "preserves I c = hoare I c (\<lambda>_. I) I"

named_theorems hoare_intros \<open>rules of the triples\<close>
named_theorems pres_intros \<open>preservation of an invariant by composed calls\<close>

lemma hoareI:
  "(\<And>s x s'. P s \<Longrightarrow> c s = (Inr x, s') \<Longrightarrow> Q x s') \<Longrightarrow> (\<And>s e s'. P s \<Longrightarrow> c s = (Inl e, s') \<Longrightarrow> E s') \<Longrightarrow> hoare P c Q E"
  by (auto simp: hoare_def split: prod.splits sum.splits)

lemma hoareD_Inr: "hoare P c Q E \<Longrightarrow> P s \<Longrightarrow> c s = (Inr x, s') \<Longrightarrow> Q x s'"
  by (auto simp: hoare_def)

lemma hoareD_Inl: "hoare P c Q E \<Longrightarrow> P s \<Longrightarrow> c s = (Inl e, s') \<Longrightarrow> E s'"
  by (auto simp: hoare_def)

lemma hoare_conseq:
  "hoare P' c Q' E' \<Longrightarrow> (\<And>s. P s \<Longrightarrow> P' s) \<Longrightarrow> (\<And>x s. Q' x s \<Longrightarrow> Q x s) \<Longrightarrow> (\<And>s. E' s \<Longrightarrow> E s) \<Longrightarrow> hoare P c Q E"
  by (fastforce simp: hoare_def split: prod.splits sum.splits)

lemma hoare_pre: "hoare P' c Q E \<Longrightarrow> (\<And>s. P s \<Longrightarrow> P' s) \<Longrightarrow> hoare P c Q E"
  by (rule hoare_conseq)

lemma hoare_ret [hoare_intros]: "(\<And>s. P s \<Longrightarrow> Q x s) \<Longrightarrow> hoare P (ret x) Q E"
  by (simp add: hoare_def ret_def)

lemma hoare_failM [hoare_intros]: "(\<And>s. P s \<Longrightarrow> E s) \<Longrightarrow> hoare P (failM e) Q E"
  by (simp add: hoare_def failM_def)

lemma hoare_liftE [hoare_intros]: "(\<And>s x. P s \<Longrightarrow> r = Inr x \<Longrightarrow> Q x s) \<Longrightarrow> (\<And>s. P s \<Longrightarrow> E s) \<Longrightarrow> hoare P (liftE r) Q E"
  by (cases r) (auto simp: hoare_def liftE_def)

lemma hoare_bindM: "hoare P c R E \<Longrightarrow> (\<And>x. hoare (R x) (f x) Q E) \<Longrightarrow> hoare P (bindM c f) Q E"
  by (fastforce simp: hoare_def bindM_def split: prod.splits sum.splits)

lemma hoare_thenM: "hoare P c (\<lambda>_. R) E \<Longrightarrow> hoare R d Q E \<Longrightarrow> hoare P (thenM c d) Q E"
  unfolding thenM_def by (rule hoare_bindM)

lemma hoare_wrapM [hoare_intros]: "hoare P c Q E \<Longrightarrow> hoare P (wrapM t c) Q E"
  by (fastforce simp: hoare_def wrapM_def split: prod.splits sum.splits)

lemma hoare_attempt:
  assumes "hoare P c (\<lambda>x. Q (Inr x)) (\<lambda>s. \<forall>e. Q (Inl e) s)"
  shows "hoare P (attempt c) Q E"
proof (rule hoareI)
  fix s x s' assume "P s" "attempt c s = (Inr x, s')"
  then have "c s = (x, s')" by (simp add: attempt_def split: prod.splits)
  then show "Q x s'" using hoareD_Inr[OF assms \<open>P s\<close>] hoareD_Inl[OF assms \<open>P s\<close>] by (cases x) auto
qed (simp add: attempt_def split: prod.splits)

lemma hoare_if [hoare_intros]: "(b \<Longrightarrow> hoare P c Q E) \<Longrightarrow> (\<not> b \<Longrightarrow> hoare P d Q E) \<Longrightarrow> hoare P (if b then c else d) Q E"
  by simp

section \<open>Invariants of calls\<close>

lemma preservesI: "(\<And>s r s'. I s \<Longrightarrow> c s = (r, s') \<Longrightarrow> I s') \<Longrightarrow> preserves I c"
  by (auto simp: preserves_def hoare_def split: prod.splits sum.splits)

lemma preservesD: "preserves I c \<Longrightarrow> I s \<Longrightarrow> c s = (r, s') \<Longrightarrow> I s'"
  by (cases r) (auto simp: preserves_def hoare_def)

lemma keeps_preserves: "keeps v c \<Longrightarrow> preserves (\<lambda>s. I (v s)) c"
  by (rule preservesI) (metis keepsD)

lemma preserves_ret [pres_intros]: "preserves I (ret x)"
  by (rule preservesI) (simp add: ret_def)

lemma preserves_failM [pres_intros]: "preserves I (failM e)"
  by (rule preservesI) (simp add: failM_def)

lemma preserves_liftE [pres_intros]: "preserves I (liftE r)"
  by (rule preservesI) simp

lemma preserves_wrapM [pres_intros]: "preserves I c \<Longrightarrow> preserves I (wrapM t c)"
  unfolding preserves_def by (rule hoare_wrapM)

lemma preserves_attempt [pres_intros]: "preserves I c \<Longrightarrow> preserves I (attempt c)"
  unfolding preserves_def by (rule hoare_attempt) simp

lemma preserves_bindM [pres_intros]: "preserves I c \<Longrightarrow> (\<And>x. preserves I (f x)) \<Longrightarrow> preserves I (bindM c f)"
  unfolding preserves_def by (rule hoare_bindM)

lemma preserves_thenM [pres_intros]: "preserves I c \<Longrightarrow> preserves I d \<Longrightarrow> preserves I (thenM c d)"
  unfolding thenM_def by (rule preserves_bindM)

lemma preserves_if [pres_intros]: "(b \<Longrightarrow> preserves I c) \<Longrightarrow> (\<not> b \<Longrightarrow> preserves I d) \<Longrightarrow> preserves I (if b then c else d)"
  by simp

lemma preserves_forM [pres_intros]: "(\<And>x. x \<in> set xs \<Longrightarrow> preserves I (f x)) \<Longrightarrow> preserves I (forM xs f)"
  by (induction xs) (auto intro: pres_intros)

lemma preserves_option [pres_intros]: "(x = None \<Longrightarrow> preserves I c) \<Longrightarrow> (\<And>y. x = Some y \<Longrightarrow> preserves I (f y)) \<Longrightarrow> preserves I (case x of None \<Rightarrow> c | Some y \<Rightarrow> f y)"
  by (cases x) auto

lemma preserves_sum [pres_intros]: "(\<And>e. x = Inl e \<Longrightarrow> preserves I (g e)) \<Longrightarrow> (\<And>y. x = Inr y \<Longrightarrow> preserves I (f y)) \<Longrightarrow> preserves I (case x of Inl e \<Rightarrow> g e | Inr y \<Rightarrow> f y)"
  by (cases x) auto

lemma preserves_prod [pres_intros]: "(\<And>a b. x = (a, b) \<Longrightarrow> preserves I (f a b)) \<Longrightarrow> preserves I (case x of (a, b) \<Rightarrow> f a b)"
  by (cases x) auto

lemma hoare_option [hoare_intros]: "(x = None \<Longrightarrow> hoare P c Q E) \<Longrightarrow> (\<And>y. x = Some y \<Longrightarrow> hoare P (f y) Q E) \<Longrightarrow> hoare P (case x of None \<Rightarrow> c | Some y \<Rightarrow> f y) Q E"
  by (cases x) auto

lemma hoare_sum [hoare_intros]: "(\<And>e. x = Inl e \<Longrightarrow> hoare P (g e) Q E) \<Longrightarrow> (\<And>y. x = Inr y \<Longrightarrow> hoare P (f y) Q E) \<Longrightarrow> hoare P (case x of Inl e \<Rightarrow> g e | Inr y \<Rightarrow> f y) Q E"
  by (cases x) auto

lemma hoare_prod [hoare_intros]: "(\<And>a b. x = (a, b) \<Longrightarrow> hoare P (f a b) Q E) \<Longrightarrow> hoare P (case x of (a, b) \<Rightarrow> f a b) Q E"
  by (cases x) auto

section \<open>Calls that always return\<close>

text \<open>\<open>returns c P\<close>: the call never fails, whatever its callees answer, and its result satisfies \<open>P\<close>.\<close>

definition returns :: "('s, 'a) call \<Rightarrow> ('a \<Rightarrow> bool) \<Rightarrow> bool" where
  "returns c P = hoare (\<lambda>_. True) c (\<lambda>x _. P x) (\<lambda>_. False)"

named_theorems returns_intros \<open>calls that always return\<close>

lemma returnsI: "(\<And>s. \<exists>x s'. c s = (Inr x, s') \<and> P x) \<Longrightarrow> returns c P"
  unfolding returns_def hoare_def by (metis (mono_tags, lifting) case_prod_conv sum.simps(6))

lemma returnsD: "returns c P \<Longrightarrow> \<exists>x s'. c s = (Inr x, s') \<and> P x"
  unfolding returns_def by (cases "c s"; cases "fst (c s)") (auto dest: hoareD_Inr hoareD_Inl)

lemma returns_Inr: "returns c P \<Longrightarrow> c s = (Inr x, s') \<Longrightarrow> P x"
  using returnsD[of c P s] by simp

lemma returns_ret [returns_intros]: "P x \<Longrightarrow> returns (ret x) P"
  unfolding returns_def by (rule hoare_ret)

lemma returns_bindM: "returns c R \<Longrightarrow> (\<And>x. R x \<Longrightarrow> returns (f x) P) \<Longrightarrow> returns (bindM c f) P"
  unfolding returns_def by (rule hoare_bindM[where R = "\<lambda>x _. R x"], assumption) (rule hoareI; blast dest: hoareD_Inr hoareD_Inl)

lemma returns_attempt [returns_intros]: "(\<And>x. returns (f x) P) \<Longrightarrow> returns (bindM (attempt c) f) P"
  by (rule returns_bindM[where R = "\<lambda>_. True"]) (rule returnsI, auto simp: attempt_def split: prod.splits)

lemma returns_if [returns_intros]: "(b \<Longrightarrow> returns c P) \<Longrightarrow> (\<not> b \<Longrightarrow> returns d P) \<Longrightarrow> returns (if b then c else d) P"
  by simp

lemma returns_option [returns_intros]: "(x = None \<Longrightarrow> returns c P) \<Longrightarrow> (\<And>y. x = Some y \<Longrightarrow> returns (f y) P) \<Longrightarrow> returns (case x of None \<Rightarrow> c | Some y \<Rightarrow> f y) P"
  by (cases x) auto

lemma returns_sum [returns_intros]: "(\<And>e. x = Inl e \<Longrightarrow> returns (g e) P) \<Longrightarrow> (\<And>y. x = Inr y \<Longrightarrow> returns (f y) P) \<Longrightarrow> returns (case x of Inl e \<Rightarrow> g e | Inr y \<Rightarrow> f y) P"
  by (cases x) auto

lemma returns_prod [returns_intros]: "(\<And>a b. x = (a, b) \<Longrightarrow> returns (f a b) P) \<Longrightarrow> returns (case x of (a, b) \<Rightarrow> f a b) P"
  by (cases x) auto

end
