(* ===== verification/Pause.thy ===== *)
theory Pause
  imports Kube_Objects Hoare_Calls "HOL-Library.List_Lexorder" "HOL-Library.Char_ord"
begin

text \<open>
  Stopping an app while a run works on its volumes, from \<open>src/internal/runs/pause.go\<close>.

  The reads and patches of the API server are the fields of the parameter \<open>pauseApi\<close>. A
  Kustomization is read as its \<open>spec.suspend\<close>, where a missing field is false. A label selector is
  its text, and \<open>pa_selector\<close> is \<open>metav1.LabelSelectorAsSelector\<close>. The targets' names are distinct
  within a kind, so \<open>sort.Slice\<close> is the stable sort. \<open>resumeWorkloads\<close> marks the entries of the
  caller's slice also when it fails: it returns the marked list and the error, if there was one.
\<close>

definition fluxNameLabel :: string where "fluxNameLabel = ''kustomize.toolkit.fluxcd.io/name''"
definition fluxNamespaceLabel :: string where "fluxNamespaceLabel = ''kustomize.toolkit.fluxcd.io/namespace''"

record workload =
  wk_kind :: string
  wk_object :: wobject
  wk_replicas :: int
  wk_selector :: string

record 'w pauseApi =
  pa_listDeployments :: "string \<Rightarrow> ('w, wobject list) call"
  pa_listStatefulSets :: "string \<Rightarrow> ('w, wobject list) call"
  pa_getWorkload :: "string \<Rightarrow> string \<Rightarrow> string \<Rightarrow> ('w, wobject) call"
  pa_getSuspend :: "string \<Rightarrow> string \<Rightarrow> ('w, bool) call"
  pa_patchReplicas :: "string \<Rightarrow> string \<Rightarrow> string \<Rightarrow> int \<Rightarrow> ('w, unit) call"
  pa_patchSuspend :: "string \<Rightarrow> string \<Rightarrow> bool \<Rightarrow> ('w, unit) call"
  pa_selector :: "string \<Rightarrow> gerr + string"
  pa_listPods :: "string \<Rightarrow> string \<Rightarrow> ('w, pod list) call"

definition replicasOf :: "int option \<Rightarrow> int" where
  "replicasOf r = (case r of None \<Rightarrow> 1 | Some n \<Rightarrow> n)"

definition markedPause :: "wobject \<Rightarrow> bool" where
  "markedPause o1 = (getOr (m_annotations (wo_meta o1)) AnnotationPauseDuringBackup = ''true'')"

definition workloadOf :: "string \<Rightarrow> wobject \<Rightarrow> workload" where
  "workloadOf kind o1 = \<lparr>wk_kind = kind, wk_object = o1, wk_replicas = replicasOf (wo_replicas o1), wk_selector = wo_selector o1\<rparr>"

definition workloadKey :: "workload \<Rightarrow> string" where
  "workloadKey t = wk_kind t @ ''/'' @ m_name (wo_meta (wk_object t))"

definition pauseTargets :: "'w pauseApi \<Rightarrow> string \<Rightarrow> ('w, workload list) call" where
  "pauseTargets c namespace =
     bindM (wrapM (''list the Deployments in '' @ namespace @ '': '') (pa_listDeployments c namespace)) (\<lambda>deployments.
     bindM (wrapM (''list the StatefulSets in '' @ namespace @ '': '') (pa_listStatefulSets c namespace)) (\<lambda>statefulSets.
     ret (sort_key workloadKey (map (workloadOf ''Deployment'') (filter markedPause deployments) @
                                map (workloadOf ''StatefulSet'') (filter markedPause statefulSets)))))"

definition missingWorkload :: "workloadRef \<Rightarrow> gerr \<Rightarrow> gerr" where
  "missingWorkload ref err =
     (if IsNotFound err
      then PauseSpecError (''spec.pauseDuringRestore lists '' @ wr_Kind ref @ '' '' @ wr_Name ref @ '', which this namespace does not hold'')
      else Wrap (''get '' @ wr_Kind ref @ '' '' @ wr_Name ref @ '': '') err)"

fun isPauseSpecError1 :: "gerr \<Rightarrow> bool" where
  "isPauseSpecError1 (PauseSpecError _) = True"
| "isPauseSpecError1 _ = False"

definition isPauseSpecError :: "gerr \<Rightarrow> bool" where
  "isPauseSpecError err = anyErr isPauseSpecError1 err"

primrec namedTargets :: "'w pauseApi \<Rightarrow> string \<Rightarrow> workloadRef list \<Rightarrow> ('w, workload list) call" where
  "namedTargets c namespace [] = ret []"
| "namedTargets c namespace (ref # refs) =
     (if wr_Kind ref = ''Deployment'' \<or> wr_Kind ref = ''StatefulSet'' then
        bindM (attempt (pa_getWorkload c (wr_Kind ref) namespace (wr_Name ref))) (\<lambda>r. case r of
          Inl err \<Rightarrow> failM (missingWorkload ref err)
        | Inr o1 \<Rightarrow> bindM (namedTargets c namespace refs) (\<lambda>ts. ret (workloadOf (wr_Kind ref) o1 # ts)))
      else failM (PauseSpecError (''spec.pauseDuringRestore lists '' @ wr_Kind ref @ '' '' @ wr_Name ref @
                    ''; only a Deployment or a StatefulSet can be stopped'')))"

text \<open>\<open>pausePlan\<close>: the first loop collects the Kustomizations to suspend, each once.\<close>

primrec suspendLoop :: "'w pauseApi \<Rightarrow> workload list \<Rightarrow> string list \<Rightarrow> string list \<Rightarrow> ('w, string list) call" where
  "suspendLoop reader [] seen suspend = ret suspend"
| "suspendLoop reader (t # ts) seen suspend =
     (let labels = m_labels (wo_meta (wk_object t)); name = getOr labels fluxNameLabel; namespace = getOr labels fluxNamespaceLabel;
          key = namespace @ ''/'' @ name in
      if name = [] \<or> namespace = [] then suspendLoop reader ts seen suspend
      else if key \<in> set seen then suspendLoop reader ts seen suspend
      else
      bindM (attempt (pa_getSuspend reader namespace name)) (\<lambda>r. case r of
        Inl err \<Rightarrow> if IsNotFound err then suspendLoop reader ts (key # seen) suspend
                   else failM (Wrap (''get Kustomization '' @ key @ '': '') err)
      | Inr already \<Rightarrow> if already then suspendLoop reader ts (key # seen) suspend
                       else suspendLoop reader ts (key # seen) (suspend @ [key])))"

definition pausedOf :: "workload \<Rightarrow> pausedWorkload" where
  "pausedOf t = \<lparr>pw_Kind = wk_kind t, pw_Name = m_name (wo_meta (wk_object t)), pw_Replicas = wk_replicas t, pw_Resumed = False\<rparr>"

definition pausePlan :: "'w pauseApi \<Rightarrow> workload list \<Rightarrow> ('w, pausedWorkload list \<times> string list) call" where
  "pausePlan reader targets = bindM (suspendLoop reader targets [] []) (\<lambda>suspend. ret (map pausedOf targets, suspend))"

definition workloadObject :: "pausedWorkload \<Rightarrow> bool" where
  "workloadObject w = (pw_Kind w = ''Deployment'' \<or> pw_Kind w = ''StatefulSet'')"

definition scale :: "'w pauseApi \<Rightarrow> string \<Rightarrow> string \<Rightarrow> string \<Rightarrow> int \<Rightarrow> ('w, unit) call" where
  "scale c kind namespace name replicas =
     wrapM (''scale '' @ name @ '' to '' @ itoa replicas @ '': '') (pa_patchReplicas c kind namespace name replicas)"

definition setSuspend :: "'w pauseApi \<Rightarrow> string \<Rightarrow> string \<Rightarrow> bool \<Rightarrow> ('w, unit) call" where
  "setSuspend c namespace name suspend =
     wrapM (''set suspend '' @ (if suspend then ''true'' else ''false'') @ '' on Kustomization '' @ namespace @ ''/'' @ name @ '': '')
       (pa_patchSuspend c namespace name suspend)"

text \<open>\<open>if err := ...; err != nil && !apierrors.IsNotFound(err) { return err }\<close>\<close>

definition unlessGone :: "('w, unit) call \<Rightarrow> ('w, unit) call" where
  "unlessGone m = bindM (attempt m) (\<lambda>r. case r of Inl err \<Rightarrow> if IsNotFound err then ret () else failM err | Inr _ \<Rightarrow> ret ())"

definition suspendKey :: "'w pauseApi \<Rightarrow> bool \<Rightarrow> string \<Rightarrow> ('w, unit) call" where
  "suspendKey c b key = (case cutChar (CHR ''/'') key of (ns, name, _) \<Rightarrow> unlessGone (setSuspend c ns name b))"

definition applyPause :: "'w pauseApi \<Rightarrow> string \<Rightarrow> pausedWorkload list \<Rightarrow> string list \<Rightarrow> ('w, unit) call" where
  "applyPause c namespace paused suspend =
     thenM (forM suspend (suspendKey c True))
           (forM paused (\<lambda>w. if \<not> workloadObject w then ret ()
                              else unlessGone (scale c (pw_Kind w) namespace (pw_Name w) 0)))"

primrec podsGone :: "'w pauseApi \<Rightarrow> string \<Rightarrow> workload list \<Rightarrow> ('w, bool \<times> string) call" where
  "podsGone c namespace [] = ret (True, [])"
| "podsGone c namespace (t # ts) =
     (let what = wk_kind t @ '' '' @ m_name (wo_meta (wk_object t)) in
      bindM (liftE (wrapE (what @ '' has an invalid selector: '') (pa_selector c (wk_selector t)))) (\<lambda>selector.
      bindM (wrapM (''list the pods of '' @ what @ '': '') (pa_listPods c namespace selector)) (\<lambda>pods.
      case pods of p # _ \<Rightarrow> ret (False, m_name (po_meta p)) | [] \<Rightarrow> podsGone c namespace ts)))"

primrec scaleBack :: "'w pauseApi \<Rightarrow> string \<Rightarrow> pausedWorkload list \<Rightarrow> ('w, pausedWorkload list \<times> gerr option) call" where
  "scaleBack c namespace [] = ret ([], None)"
| "scaleBack c namespace (w # ws) =
     (let rest = bindM (scaleBack c namespace ws) (\<lambda>(ws', e). ret (w\<lparr>pw_Resumed := True\<rparr> # ws', e)) in
      if pw_Resumed w then bindM (scaleBack c namespace ws) (\<lambda>(ws', e). ret (w # ws', e))
      else if \<not> workloadObject w then rest
      else bindM (attempt (unlessGone (scale c (pw_Kind w) namespace (pw_Name w) (pw_Replicas w)))) (\<lambda>r. case r of
             Inl err \<Rightarrow> ret (w # ws, Some err)
           | Inr _ \<Rightarrow> rest))"

definition resumeWorkloads :: "'w pauseApi \<Rightarrow> string \<Rightarrow> pausedWorkload list \<Rightarrow> string list \<Rightarrow> ('w, pausedWorkload list \<times> gerr option) call" where
  "resumeWorkloads c namespace paused suspended =
     bindM (scaleBack c namespace paused) (\<lambda>(paused', e). case e of
       Some err \<Rightarrow> ret (paused', Some err)
     | None \<Rightarrow> bindM (attempt (forM suspended (suspendKey c False))) (\<lambda>r. case r of
         Inl err \<Rightarrow> ret (paused', Some err)
       | Inr _ \<Rightarrow> ret (paused', None)))"

primrec pausedTargets :: "'w pauseApi \<Rightarrow> string \<Rightarrow> pausedWorkload list \<Rightarrow> ('w, workload list) call" where
  "pausedTargets c namespace [] = ret []"
| "pausedTargets c namespace (w # ws) =
     bindM (attempt (namedTargets c namespace [\<lparr>wr_Kind = pw_Kind w, wr_Name = pw_Name w\<rparr>])) (\<lambda>r. case r of
       Inl err \<Rightarrow> if isPauseSpecError err then pausedTargets c namespace ws else failM err
     | Inr found \<Rightarrow> bindM (pausedTargets c namespace ws) (\<lambda>ts. ret (found @ ts)))"

definition pausedPodsGone :: "'w pauseApi \<Rightarrow> string \<Rightarrow> pausedWorkload list \<Rightarrow> ('w, bool \<times> string) call" where
  "pausedPodsGone c namespace paused = bindM (pausedTargets c namespace paused) (podsGone c namespace)"

section \<open>The workloads and Kustomizations of the cluster\<close>

text \<open>What the proofs use of the API server: \<open>reps\<close> is the replica count of every existing workload,
  by kind, namespace and name, and \<open>susp\<close> whether every existing Kustomization is suspended. A patch
  that returns sets one of them. A patch that fails with NotFound found no object and changed nothing;
  one that fails otherwise changed nothing or was applied with its reply lost. Reads change nothing
  and return what is there.\<close>

type_synonym 'w repsView = "'w \<Rightarrow> string \<times> string \<times> string \<Rightarrow> int option"
type_synonym 'w suspView = "'w \<Rightarrow> string \<times> string \<Rightarrow> bool option"

definition patched :: "('k \<Rightarrow> 'v option) \<Rightarrow> ('k \<Rightarrow> 'v option) \<Rightarrow> 'k \<Rightarrow> 'v \<Rightarrow> gerr + unit \<Rightarrow> bool" where
  "patched m m' k v r =
     (case r of
        Inr _ \<Rightarrow> m k \<noteq> None \<and> m' = m(k \<mapsto> v)
      | Inl e \<Rightarrow> if IsNotFound e then m k = None \<and> m' = m else m' = m \<or> (m k \<noteq> None \<and> m' = m(k \<mapsto> v)))"

definition patch_laws :: "'w pauseApi \<Rightarrow> 'w repsView \<Rightarrow> 'w suspView \<Rightarrow> bool" where
  "patch_laws c reps susp =
     ((\<forall>kind ns name v w. patched (reps w) (reps (snd (pa_patchReplicas c kind ns name v w))) (kind, ns, name) v
         (fst (pa_patchReplicas c kind ns name v w)) \<and> susp (snd (pa_patchReplicas c kind ns name v w)) = susp w) \<and>
      (\<forall>ns name b w. patched (susp w) (susp (snd (pa_patchSuspend c ns name b w))) (ns, name) b
         (fst (pa_patchSuspend c ns name b w)) \<and> reps (snd (pa_patchSuspend c ns name b w)) = reps w))"

definition lists_reps :: "(string \<Rightarrow> ('w, wobject list) call) \<Rightarrow> string \<Rightarrow> 'w repsView \<Rightarrow> bool" where
  "lists_reps lister kind reps = (\<forall>ns w os w'. lister ns w = (Inr os, w') \<longrightarrow>
     (\<forall>o1 \<in> set os. reps w (kind, ns, m_name (wo_meta o1)) = Some (replicasOf (wo_replicas o1))))"

definition reads_susp :: "(string \<Rightarrow> string \<Rightarrow> ('w, bool) call) \<Rightarrow> 'w suspView \<Rightarrow> bool" where
  "reads_susp get susp = (\<forall>ns name w b w'. get ns name w = (Inr b, w') \<longrightarrow> susp w (ns, name) = Some b)"

definition read_laws :: "'w pauseApi \<Rightarrow> 'w repsView \<Rightarrow> 'w suspView \<Rightarrow> bool" where
  "read_laws c reps susp =
     ((\<forall>ns. keeps (\<lambda>w. (reps w, susp w)) (pa_listDeployments c ns)) \<and>
      (\<forall>ns. keeps (\<lambda>w. (reps w, susp w)) (pa_listStatefulSets c ns)) \<and>
      (\<forall>ns name. keeps (\<lambda>w. (reps w, susp w)) (pa_getSuspend c ns name)) \<and>
      lists_reps (pa_listDeployments c) ''Deployment'' reps \<and> lists_reps (pa_listStatefulSets c) ''StatefulSet'' reps \<and>
      reads_susp (pa_getSuspend c) susp)"

lemma patchReplicas_law:
  "patch_laws c reps susp \<Longrightarrow> pa_patchReplicas c kind ns name v w = (r, w') \<Longrightarrow>
     patched (reps w) (reps w') (kind, ns, name) v r \<and> susp w' = susp w"
  unfolding patch_laws_def by (metis fst_conv snd_conv)

lemma patchSuspend_law:
  "patch_laws c reps susp \<Longrightarrow> pa_patchSuspend c ns name b w = (r, w') \<Longrightarrow>
     patched (susp w) (susp w') (ns, name) b r \<and> reps w' = reps w"
  unfolding patch_laws_def by (metis fst_conv snd_conv)

text \<open>The keys a pause touches.\<close>

abbreviation wkey :: "string \<Rightarrow> pausedWorkload \<Rightarrow> string \<times> string \<times> string" where
  "wkey ns p \<equiv> (pw_Kind p, ns, pw_Name p)"

definition skey :: "string \<Rightarrow> string \<times> string" where
  "skey key = (case cutChar (CHR ''/'') key of (ns, name, _) \<Rightarrow> (ns, name))"

text \<open>The state between a pause and its resume, relative to the state before: every workload and
  Kustomization is as before, or it is one the run recorded and is stopped.\<close>

definition paused_from :: "string \<Rightarrow> (string \<times> string \<times> string \<Rightarrow> int option) \<Rightarrow> (string \<times> string \<Rightarrow> bool option) \<Rightarrow>
    pausedWorkload list \<Rightarrow> string list \<Rightarrow> 'w repsView \<Rightarrow> 'w suspView \<Rightarrow> 'w \<Rightarrow> bool" where
  "paused_from ns R S paused suspend reps susp w =
     ((\<forall>k. reps w k = R k \<or> (k \<in> wkey ns ` set paused \<and> R k \<noteq> None \<and> reps w k = Some 0)) \<and>
      (\<forall>k. susp w k = S k \<or> (k \<in> skey ` set suspend \<and> S k \<noteq> None \<and> susp w k = Some True)))"

text \<open>The plan is what was there: each recorded count is the workload's, and each recorded
  Kustomization was not suspended.\<close>

definition plan_of :: "string \<Rightarrow> (string \<times> string \<times> string \<Rightarrow> int option) \<Rightarrow> (string \<times> string \<Rightarrow> bool option) \<Rightarrow>
    pausedWorkload list \<Rightarrow> string list \<Rightarrow> bool" where
  "plan_of ns R S paused suspend =
     ((\<forall>p \<in> set paused. workloadObject p \<and> R (wkey ns p) = Some (pw_Replicas p)) \<and>
      (\<forall>key \<in> set suspend. S (skey key) = Some False))"

lemma preserves_unlessGone: "preserves I m \<Longrightarrow> preserves I (unlessGone m)"
  unfolding unlessGone_def by (intro pres_intros)

lemma paused_from_scale:
  assumes "patch_laws c reps susp" "plan_of ns R S paused suspend" "p \<in> set paused" "v = 0 \<or> v = pw_Replicas p"
  shows "preserves (paused_from ns R S paused suspend reps susp) (unlessGone (scale c (pw_Kind p) ns (pw_Name p) v))"
proof (unfold scale_def, intro preserves_unlessGone preserves_wrapM preservesI)
  fix w r w' assume I: "paused_from ns R S paused suspend reps susp w" and a: "pa_patchReplicas c (pw_Kind p) ns (pw_Name p) v w = (r, w')"
  from patchReplicas_law[OF assms(1) a] have s: "susp w' = susp w" and
    m: "reps w' = reps w \<or> reps w' = (reps w)(wkey ns p \<mapsto> v)" by (auto simp: patched_def split: sum.splits if_splits)
  have R: "R (wkey ns p) = Some (pw_Replicas p)" using assms(2,3) by (simp add: plan_of_def)
  show "paused_from ns R S paused suspend reps susp w'"
    using I m R assms(3,4) unfolding paused_from_def s by (elim disjE) auto
qed

lemma paused_from_suspend:
  assumes "patch_laws c reps susp" "plan_of ns R S paused suspend" "key \<in> set suspend"
  shows "preserves (paused_from ns R S paused suspend reps susp) (suspendKey c b key)"
proof -
  obtain n nm f where k: "cutChar (CHR ''/'') key = (n, nm, f)" by (metis prod_cases3)
  then have sk: "skey key = (n, nm)" by (simp add: skey_def)
  have S: "S (n, nm) = Some False" using assms(2,3) sk by (auto simp: plan_of_def)
  have mem: "(n, nm) \<in> skey ` set suspend" using assms(3) sk by force
  have "preserves (paused_from ns R S paused suspend reps susp) (pa_patchSuspend c n nm b)"
  proof (rule preservesI)
    fix w r w' assume I: "paused_from ns R S paused suspend reps susp w" and a: "pa_patchSuspend c n nm b w = (r, w')"
    from patchSuspend_law[OF assms(1) a] have s: "reps w' = reps w" and
      m: "susp w' = susp w \<or> susp w' = (susp w)((n, nm) \<mapsto> b)" by (auto simp: patched_def split: sum.splits if_splits)
    show "paused_from ns R S paused suspend reps susp w'"
      using I m S mem unfolding paused_from_def s by (cases b) (elim disjE; auto)+
  qed
  then show ?thesis unfolding suspendKey_def k setSuspend_def by (auto intro!: pres_intros preserves_unlessGone)
qed

text \<open>Whatever fails, and however often it is repeated, applying a pause only stops what the plan
  names.\<close>

lemma applyPause_paused_from:
  assumes "patch_laws c reps susp" "plan_of ns R S paused suspend"
  shows "preserves (paused_from ns R S paused suspend reps susp) (applyPause c ns paused suspend)"
  unfolding applyPause_def by (intro pres_intros paused_from_suspend[OF assms] paused_from_scale[OF assms]) simp_all

section \<open>Resuming\<close>

lemma unlessGone_scale_restores:
  assumes "patch_laws c reps susp" "unlessGone (scale c kind ns name v) w = (Inr (), w')" "reps w (kind, ns, name) \<noteq> None"
  shows "reps w' (kind, ns, name) = Some v"
  using assms patchReplicas_law[OF assms(1), of kind ns name v w]
  by (auto simp: unlessGone_def scale_def call_simps patched_def split: sum.splits prod.splits if_splits)

lemma scale_keeps_restored:
  assumes "patch_laws c reps susp" "R (kind, ns, name) = Some v"
  shows "preserves (\<lambda>w. reps w k = R k) (unlessGone (scale c kind ns name v))"
proof (unfold scale_def, intro preserves_unlessGone preserves_wrapM preservesI)
  fix w r w' assume I: "reps w k = R k" and a: "pa_patchReplicas c kind ns name v w = (r, w')"
  from patchReplicas_law[OF assms(1) a] have "reps w' = reps w \<or> reps w' = (reps w)((kind, ns, name) \<mapsto> v)"
    by (auto simp: patched_def split: sum.splits if_splits)
  then show "reps w' k = R k" using I assms(2) by auto
qed

lemma scaleBack_paused_from:
  assumes "patch_laws c reps susp" "plan_of ns R S paused suspend" "set ws \<subseteq> set paused"
  shows "preserves (paused_from ns R S paused suspend reps susp) (scaleBack c ns ws)"
  using assms(3)
proof (induction ws)
  case (Cons w ws)
  then have "preserves (paused_from ns R S paused suspend reps susp) (unlessGone (scale c (pw_Kind w) ns (pw_Name w) (pw_Replicas w)))"
    using paused_from_scale[OF assms(1,2), of w] by simp
  with Cons show ?case by (simp add: Let_def) (auto intro!: pres_intros)
qed (simp add: pres_intros)

lemma scaleBack_keeps_restored:
  assumes "patch_laws c reps susp" "\<forall>p \<in> set ws. R (wkey ns p) = Some (pw_Replicas p)"
  shows "preserves (\<lambda>w. reps w k = R k) (scaleBack c ns ws)"
  using assms(2)
proof (induction ws)
  case (Cons w ws)
  then have "preserves (\<lambda>x. reps x k = R k) (unlessGone (scale c (pw_Kind w) ns (pw_Name w) (pw_Replicas w)))"
    by (intro scale_keeps_restored[OF assms(1)]) simp
  with Cons show ?case by (simp add: Let_def) (auto intro!: pres_intros)
qed (simp add: pres_intros)

text \<open>A call that returned no error scaled every unmarked workload back and marked it.\<close>

lemma scaleBack_restores:
  assumes "patch_laws c reps susp" "scaleBack c ns ws w = (Inr (ws', None), w')"
    and "\<forall>p \<in> set ws. workloadObject p \<and> R (wkey ns p) = Some (pw_Replicas p) \<and> reps w (wkey ns p) \<noteq> None \<and> (pw_Resumed p \<longrightarrow> reps w (wkey ns p) = R (wkey ns p))"
  shows "ws' = map (\<lambda>p. p\<lparr>pw_Resumed := True\<rparr>) ws \<and> (\<forall>p \<in> set ws. reps w' (wkey ns p) = R (wkey ns p))"
  using assms(2,3)
proof (induction ws arbitrary: w ws')
  case (Cons p ws)
  have P: "\<forall>p \<in> set ws. R (wkey ns p) = Some (pw_Replicas p)" using Cons.prems(2) by simp
  show ?case
  proof (cases "pw_Resumed p")
    case True
    then have p: "p\<lparr>pw_Resumed := True\<rparr> = p" by simp
    from True Cons.prems(1) obtain ws1 where s: "scaleBack c ns ws w = (Inr (ws1, None), w')" "ws' = p # ws1"
      by (auto simp: Let_def bindM_Inr_iff ret_def split: prod.splits)
    have "reps w' (wkey ns p) = R (wkey ns p)"
      using preservesD[OF scaleBack_keeps_restored[OF assms(1) P] _ s(1)] Cons.prems(2) True by simp
    with Cons.IH[OF s(1)] Cons.prems(2) s(2) p show ?thesis by simp
  next
    case False
    with Cons.prems obtain w1 ws1 where sc: "unlessGone (scale c (pw_Kind p) ns (pw_Name p) (pw_Replicas p)) w = (Inr (), w1)"
      and s: "scaleBack c ns ws w1 = (Inr (ws1, None), w')" "ws' = p\<lparr>pw_Resumed := True\<rparr> # ws1"
      by (auto simp: Let_def bindM_Inr_iff attempt_def ret_def split: prod.splits sum.splits)
    have Rp: "R (wkey ns p) = Some (pw_Replicas p)" using Cons.prems(2) by simp
    have r1: "reps w1 (wkey ns p) = R (wkey ns p)"
      using unlessGone_scale_restores[OF assms(1) sc] Cons.prems(2) by simp
    have "reps w' (wkey ns p) = R (wkey ns p)" by (rule preservesD[OF scaleBack_keeps_restored[OF assms(1) P] r1 s(1)])
    moreover have "\<forall>q \<in> set ws. workloadObject q \<and> R (wkey ns q) = Some (pw_Replicas q) \<and> reps w1 (wkey ns q) \<noteq> None \<and> (pw_Resumed q \<longrightarrow> reps w1 (wkey ns q) = R (wkey ns q))"
    proof
      fix q assume q: "q \<in> set ws"
      have "preserves (\<lambda>x. reps x (wkey ns q) \<noteq> None) (unlessGone (scale c (pw_Kind p) ns (pw_Name p) (pw_Replicas p)))"
      proof (unfold scale_def, intro preserves_unlessGone preserves_wrapM preservesI)
        fix w r w' assume I: "reps w (wkey ns q) \<noteq> None" and a: "pa_patchReplicas c (pw_Kind p) ns (pw_Name p) (pw_Replicas p) w = (r, w')"
        from patchReplicas_law[OF assms(1) a] I show "reps w' (wkey ns q) \<noteq> None"
          by (auto simp: patched_def split: sum.splits if_splits)
      qed
      from preservesD[OF this _ sc] preservesD[OF scale_keeps_restored[where R = R and k = "wkey ns q", OF assms(1) Rp] _ sc] Cons.prems(2) q
      show "workloadObject q \<and> R (wkey ns q) = Some (pw_Replicas q) \<and> reps w1 (wkey ns q) \<noteq> None \<and> (pw_Resumed q \<longrightarrow> reps w1 (wkey ns q) = R (wkey ns q))"
        by simp
    qed
    ultimately show ?thesis using Cons.IH[OF s(1)] s(2) by simp
  qed
qed (simp add: ret_def)

lemma read_keeps:
  assumes "read_laws c reps susp"
  shows "pa_listDeployments c ns w = (d, w') \<Longrightarrow> reps w' = reps w \<and> susp w' = susp w"
    and "pa_listStatefulSets c ns w = (d, w') \<Longrightarrow> reps w' = reps w \<and> susp w' = susp w"
    and "pa_getSuspend c ns n w = (b, w') \<Longrightarrow> reps w' = reps w \<and> susp w' = susp w"
  using assms unfolding read_laws_def by (metis (mono_tags, lifting) keepsD prod.inject)+

lemma read_values:
  assumes "read_laws c reps susp"
  shows "pa_listDeployments c ns w = (Inr os, w') \<Longrightarrow> \<forall>o1 \<in> set os. reps w (''Deployment'', ns, m_name (wo_meta o1)) = Some (replicasOf (wo_replicas o1))"
    and "pa_listStatefulSets c ns w = (Inr os, w') \<Longrightarrow> \<forall>o1 \<in> set os. reps w (''StatefulSet'', ns, m_name (wo_meta o1)) = Some (replicasOf (wo_replicas o1))"
    and "pa_getSuspend c ns n w = (Inr b, w') \<Longrightarrow> susp w (ns, n) = Some b"
  using assms unfolding read_laws_def lists_reps_def reads_susp_def by blast+

lemma suspendKey_law:
  assumes "patch_laws c reps susp" "suspendKey c b key w = (r, w')"
  shows "reps w' = reps w \<and> (susp w' = susp w \<or> susp w' = (susp w)(skey key \<mapsto> b)) \<and>
    (r = Inr () \<longrightarrow> susp w (skey key) \<noteq> None \<longrightarrow> susp w' (skey key) = Some b)"
proof -
  obtain n nm f where k: "cutChar (CHR ''/'') key = (n, nm, f)" by (metis prod_cases3)
  obtain p w1 where p: "pa_patchSuspend c n nm b w = (p, w1)" by fastforce
  from patchSuspend_law[OF assms(1) p] assms(2) k p show ?thesis
    by (auto simp: suspendKey_def setSuspend_def unlessGone_def call_simps patched_def skey_def split: sum.splits if_splits)
qed

lemma forM_suspendKey:
  assumes "patch_laws c reps susp" "forM keys (suspendKey c False) w = (Inr (), w')"
    and "\<forall>key \<in> set keys. susp w (skey key) \<noteq> None"
  shows "reps w' = reps w \<and> (\<forall>key \<in> set keys. susp w' (skey key) = Some False) \<and> (\<forall>k. susp w k = Some False \<longrightarrow> susp w' k = Some False)"
  using assms(2,3)
proof (induction keys arbitrary: w)
  case (Cons key keys)
  from Cons.prems(1) obtain w1 where a: "suspendKey c False key w = (Inr (), w1)" and b: "forM keys (suspendKey c False) w1 = (Inr (), w')"
    by (auto simp: thenM_def bindM_Inr_iff)
  note l = suspendKey_law[OF assms(1) a]
  have "\<forall>key \<in> set keys. susp w1 (skey key) \<noteq> None" using l Cons.prems(2) by auto
  from Cons.IH[OF b this] have ih: "reps w' = reps w1" "\<forall>key \<in> set keys. susp w' (skey key) = Some False"
    "\<And>k. susp w1 k = Some False \<Longrightarrow> susp w' k = Some False" by blast+
  have k: "susp w1 (skey key) = Some False" using l Cons.prems(2) by simp
  have "susp w1 k = Some False" if "susp w k = Some False" for k using l that by auto
  with ih k l show ?case by auto
qed simp

lemma scaleBack_susp:
  assumes "patch_laws c reps susp"
  shows "keeps susp (scaleBack c ns ws)"
proof (induction ws)
  case (Cons p ws)
  have "keeps susp (unlessGone (scale c (pw_Kind p) ns (pw_Name p) (pw_Replicas p)))"
    unfolding unlessGone_def scale_def keeps_def
    using patchReplicas_law[OF assms, of "pw_Kind p" ns "pw_Name p" "pw_Replicas p"]
    by (auto simp: call_simps split: sum.splits prod.splits)
  with Cons show ?case by (simp add: Let_def) (auto intro!: keeps_intros split: sum.splits prod.splits)
qed (simp add: keeps_intros)

lemma resumeWorkloads_restores:
  assumes laws: "patch_laws c reps susp" and plan: "plan_of ns R S paused suspend"
    and pf: "paused_from ns R S paused suspend reps susp w"
    and marks: "\<forall>p \<in> set paused. pw_Resumed p \<longrightarrow> reps w (wkey ns p) = R (wkey ns p)"
    and rs: "resumeWorkloads c ns paused suspend w = (Inr (paused', None), w')"
  shows "reps w' = R \<and> susp w' = S \<and> paused' = map (\<lambda>p. p\<lparr>pw_Resumed := True\<rparr>) paused"
proof -
  from rs obtain a e w1 where s0: "scaleBack c ns paused w = (Inr (a, e), w1)"
    and r0: "(case e of Some err \<Rightarrow> ret (a, Some err)
     | None \<Rightarrow> bindM (attempt (forM suspend (suspendKey c False))) (\<lambda>r. case r of
         Inl err \<Rightarrow> ret (a, Some err) | Inr _ \<Rightarrow> ret (a, None))) w1 = (Inr (paused', None), w')"
    by (auto simp: resumeWorkloads_def bindM_Inr_iff[of "scaleBack _ _ _"])
  from r0 have e: "e = None" by (cases e) auto
  from s0 r0[unfolded e] obtain w1 where sb: "scaleBack c ns paused w = (Inr (paused', None), w1)"
    and su: "forM suspend (suspendKey c False) w1 = (Inr (), w')"
    by (auto simp: e call_simps split: prod.splits sum.splits)
  have ex: "\<forall>p \<in> set paused. workloadObject p \<and> R (wkey ns p) = Some (pw_Replicas p) \<and> reps w (wkey ns p) \<noteq> None \<and> (pw_Resumed p \<longrightarrow> reps w (wkey ns p) = R (wkey ns p))"
  proof
    fix p assume p: "p \<in> set paused"
    with plan have R: "workloadObject p" "R (wkey ns p) = Some (pw_Replicas p)" by (simp_all add: plan_of_def)
    from pf have "reps w (wkey ns p) = R (wkey ns p) \<or> reps w (wkey ns p) = Some 0" unfolding paused_from_def by metis
    with R p marks show "workloadObject p \<and> R (wkey ns p) = Some (pw_Replicas p) \<and> reps w (wkey ns p) \<noteq> None \<and> (pw_Resumed p \<longrightarrow> reps w (wkey ns p) = R (wkey ns p))"
      by (metis option.distinct(1))
  qed
  note restored = scaleBack_restores[OF laws sb ex]
  have pf1: "paused_from ns R S paused suspend reps susp w1"
    by (rule preservesD[OF scaleBack_paused_from[OF laws plan] pf sb]) simp
  have s1: "\<forall>key \<in> set suspend. susp w1 (skey key) \<noteq> None"
    using pf1 plan unfolding paused_from_def plan_of_def by (metis option.distinct(1))
  note k = forM_suspendKey[OF laws su s1]
  have "reps w' key = R key" for key
  proof (cases "key \<in> wkey ns ` set paused")
    case True
    then obtain p where "p \<in> set paused" "key = wkey ns p" by blast
    then show ?thesis using restored k by simp
  next
    case False
    then show ?thesis using pf1 k unfolding paused_from_def by metis
  qed
  moreover have "susp w' key = S key" for key
  proof (cases "key \<in> skey ` set suspend")
    case True
    then show ?thesis using k plan by (auto simp: plan_of_def)
  next
    case False
    have pr: "preserves (\<lambda>x. susp x key = S key) (forM suspend (suspendKey c False))"
    proof (intro pres_intros preservesI)
      fix sk x r x' assume "sk \<in> set suspend" "susp x key = S key" "suspendKey c False sk x = (r, x')"
      with suspendKey_law[OF laws this(3)] False show "susp x' key = S key" by auto
    qed
    have "susp w1 key = S key" using pf1 False unfolding paused_from_def by blast
    from preservesD[OF pr this su] show ?thesis .
  qed
  ultimately show ?thesis using restored by auto
qed

section \<open>A pause from plan to resume\<close>

lemma suspendLoop_plan:
  assumes "read_laws c reps susp" "suspendLoop c ts seen suspend w = (Inr result, w')"
    and "\<forall>t \<in> set ts. CHR ''/'' \<notin> set (getOr (m_labels (wo_meta (wk_object t))) fluxNamespaceLabel)"
    and "\<forall>key \<in> set suspend. susp w (skey key) = Some False"
  shows "reps w' = reps w \<and> susp w' = susp w \<and> (\<forall>key \<in> set result. susp w (skey key) = Some False)"
  using assms(2-4)
proof (induction ts arbitrary: seen suspend w)
  case (Cons t ts)
  let ?n = "getOr (m_labels (wo_meta (wk_object t))) fluxNameLabel" and ?ns = "getOr (m_labels (wo_meta (wk_object t))) fluxNamespaceLabel"
  show ?case
  proof (cases "?n = [] \<or> ?ns = [] \<or> ?ns @ ''/'' @ ?n \<in> set seen")
    case True
    then have "suspendLoop c ts seen suspend w = (Inr result, w')" using Cons.prems(1) by (simp add: Let_def split: if_splits)
    from Cons.IH[OF this] Cons.prems(2,3) show ?thesis by simp
  next
    case False
    obtain r w1 where g: "pa_getSuspend c ?ns ?n w = (r, w1)" by fastforce
    have k: "reps w1 = reps w" "susp w1 = susp w"
      using read_keeps(3)[OF assms(1) g] by auto
    have b: "r = Inr b \<Longrightarrow> susp w (?ns, ?n) = Some b" for b using read_values(3)[OF assms(1)] g by auto
    have sk: "skey (?ns @ ''/'' @ ?n) = (?ns, ?n)" using Cons.prems(2) by (simp add: skey_def cutChar_found)
    let ?suspend1 = "if r = Inr False then suspend @ [?ns @ ''/'' @ ?n] else suspend"
    have s: "suspendLoop c ts ((?ns @ ''/'' @ ?n) # seen) ?suspend1 w1 = (Inr result, w')"
      using False Cons.prems(1) g by (cases r) (simp_all add: Let_def call_simps split: if_splits)
    have "\<forall>key \<in> set ?suspend1. susp w1 (skey key) = Some False" using b sk Cons.prems(3) k by (cases "r = Inr False") auto
    from Cons.IH[OF s _ this] Cons.prems(2) k show ?thesis by simp
  qed
qed simp

lemma pauseTargets_plan:
  assumes "read_laws c reps susp" "pauseTargets c ns w = (Inr targets, w')"
  shows "reps w' = reps w \<and> susp w' = susp w \<and>
    (\<forall>t \<in> set targets. workloadObject (pausedOf t) \<and> reps w (wkey ns (pausedOf t)) = Some (pw_Replicas (pausedOf t)))"
proof -
  from assms(2) obtain ds w1 ss where d: "pa_listDeployments c ns w = (Inr ds, w1)" and s: "pa_listStatefulSets c ns w1 = (Inr ss, w')"
    and t: "set targets = workloadOf ''Deployment'' ` set (filter markedPause ds) \<union> workloadOf ''StatefulSet'' ` set (filter markedPause ss)"
    by (auto simp: pauseTargets_def bindM_Inr_iff)
  have k: "reps w1 = reps w" "susp w1 = susp w" "reps w' = reps w1" "susp w' = susp w1"
    using read_keeps(1)[OF assms(1) d] read_keeps(2)[OF assms(1) s] by auto
  have "\<forall>o1 \<in> set ds. reps w (''Deployment'', ns, m_name (wo_meta o1)) = Some (replicasOf (wo_replicas o1))"
    "\<forall>o1 \<in> set ss. reps w1 (''StatefulSet'', ns, m_name (wo_meta o1)) = Some (replicasOf (wo_replicas o1))"
    using read_values(1)[OF assms(1) d] read_values(2)[OF assms(1) s] .
  then have "workloadObject (pausedOf x) \<and> reps w (wkey ns (pausedOf x)) = Some (pw_Replicas (pausedOf x))" if "x \<in> set targets" for x
    using that k unfolding t by (auto simp: workloadOf_def pausedOf_def workloadObject_def)
  with k show ?thesis by simp
qed

text \<open>C17. A pause is undone exactly. When the marked workloads of a namespace are planned, the pause
  is applied with whatever error or lost reply, and a later resume of the recorded plan returns no
  error, then every workload of the cluster has the replica count it had before and every
  Kustomization is suspended exactly if it was before, also those that something else had suspended.\<close>

theorem pause_roundtrip:
  assumes "patch_laws c reps susp" "read_laws c reps susp"
    and "pauseTargets c ns w0 = (Inr targets, w1)"
    and "\<forall>t \<in> set targets. CHR ''/'' \<notin> set (getOr (m_labels (wo_meta (wk_object t))) fluxNamespaceLabel)"
    and "pausePlan c targets w1 = (Inr (paused, suspend), w2)"
    and "applyPause c ns paused suspend w2 = (r, w3)"
    and "resumeWorkloads c ns paused suspend w3 = (Inr (paused', None), w4)"
  shows "reps w4 = reps w0 \<and> susp w4 = susp w0"
proof -
  note t = pauseTargets_plan[OF assms(2,3)]
  from assms(5) have sl: "suspendLoop c targets [] [] w1 = (Inr suspend, w2)" and pd: "paused = map pausedOf targets"
    by (auto simp: pausePlan_def bindM_Inr_iff)
  note s = suspendLoop_plan[OF assms(2) sl assms(4)]
  have plan: "plan_of ns (reps w0) (susp w0) paused suspend" using t s pd by (auto simp: plan_of_def)
  have "paused_from ns (reps w0) (susp w0) paused suspend reps susp w2" using t s by (simp add: paused_from_def)
  from preservesD[OF applyPause_paused_from[OF assms(1) plan] this assms(6)]
  have pf: "paused_from ns (reps w0) (susp w0) paused suspend reps susp w3" .
  have "\<forall>p \<in> set paused. \<not> pw_Resumed p" by (auto simp: pd pausedOf_def)
  with resumeWorkloads_restores[OF assms(1) plan pf _ assms(7)] show ?thesis by blast
qed

text \<open>C29. A resume that is repeated leaves alone what it already gave back: a workload whose entries are
  all marked resumed keeps whatever count its owner gave it since, whatever the call returns.\<close>

theorem resume_respects_owner:
  assumes "patch_laws c reps susp" "resumeWorkloads c ns paused suspend w = (r, w')"
    and "\<forall>p \<in> set paused. wkey ns p = k \<longrightarrow> pw_Resumed p"
  shows "reps w' k = reps w k"
proof -
  have scl: "preserves (\<lambda>x. reps x k = v) (unlessGone (scale c (pw_Kind p) ns (pw_Name p) n))" if "wkey ns p \<noteq> k" for p n v
  proof (unfold scale_def, intro preserves_unlessGone preserves_wrapM preservesI)
    fix x q x' assume "reps x k = v" "pa_patchReplicas c (pw_Kind p) ns (pw_Name p) n x = (q, x')"
    with patchReplicas_law[OF assms(1) this(2)] that show "reps x' k = v"
      by (auto simp: patched_def split: sum.splits if_splits)
  qed
  have "preserves (\<lambda>x. reps x k = v) (scaleBack c ns ws)" if "set ws \<subseteq> set paused" for ws v
    using that
  proof (induction ws)
    case (Cons p ws)
    show ?case
    proof (cases "pw_Resumed p")
      case True
      then show ?thesis using Cons by (simp add: Let_def) (auto intro!: pres_intros)
    next
      case False
      then have "wkey ns p \<noteq> k" using Cons.prems assms(3) by auto
      from scl[OF this] Cons False show ?thesis by (simp add: Let_def) (auto intro!: pres_intros)
    qed
  qed (simp add: pres_intros)
  moreover have "preserves (\<lambda>x. reps x k = v) (suspendKey c b key)" for b key v
    using suspendKey_law[OF assms(1)] by (intro preservesI) metis
  ultimately have "preserves (\<lambda>x. reps x k = reps w k) (resumeWorkloads c ns paused suspend)"
    unfolding resumeWorkloads_def by (intro pres_intros) auto
  from preservesD[OF this _ assms(2)] show ?thesis by simp
qed

section \<open>An example cluster\<close>

text \<open>A cluster whose state is the two views themselves, with one Deployment and its Kustomization.\<close>

type_synonym pauseWorld = "(string \<times> string \<times> string \<Rightarrow> int option) \<times> (string \<times> string \<Rightarrow> bool option)"

definition deploymentEx :: "int option \<Rightarrow> wobject" where
  "deploymentEx n = \<lparr>wo_meta = objectMeta0\<lparr>m_name := ''app'', m_annotations := [AnnotationPauseDuringBackup \<mapsto> ''true''],
     m_labels := [fluxNameLabel \<mapsto> ''apps'', fluxNamespaceLabel \<mapsto> ''flux'']\<rparr>, wo_replicas = n, wo_selector = ''app''\<rparr>"

definition patchView :: "('k \<Rightarrow> 'v option) \<Rightarrow> 'k \<Rightarrow> 'v \<Rightarrow> (gerr + unit) \<times> ('k \<Rightarrow> 'v option)" where
  "patchView m k v = (if m k = None then (Inl (NotFound []), m) else (Inr (), m(k \<mapsto> v)))"

definition pauseApiEx :: "pauseWorld pauseApi" where
  "pauseApiEx = \<lparr>
     pa_listDeployments = \<lambda>ns w. (Inr (case fst w (''Deployment'', ns, ''app'') of None \<Rightarrow> [] | Some n \<Rightarrow> [deploymentEx (Some n)]), w),
     pa_listStatefulSets = \<lambda>ns. ret [],
     pa_getWorkload = \<lambda>kind ns name w. (case fst w (kind, ns, name) of None \<Rightarrow> (Inl (NotFound name), w) | Some n \<Rightarrow> (Inr (deploymentEx (Some n)), w)),
     pa_getSuspend = \<lambda>ns name w. (case snd w (ns, name) of None \<Rightarrow> (Inl (NotFound name), w) | Some b \<Rightarrow> (Inr b, w)),
     pa_patchReplicas = \<lambda>kind ns name v w. (case patchView (fst w) (kind, ns, name) v of (r, m) \<Rightarrow> (r, (m, snd w))),
     pa_patchSuspend = \<lambda>ns name b w. (case patchView (snd w) (ns, name) b of (r, m) \<Rightarrow> (r, (fst w, m))),
     pa_selector = Inr,
     pa_listPods = \<lambda>ns sel. ret []\<rparr>"

lemma pauseApiEx_laws: "patch_laws pauseApiEx fst snd" "read_laws pauseApiEx fst snd"
  by (auto simp: patch_laws_def read_laws_def lists_reps_def reads_susp_def pauseApiEx_def keeps_def patchView_def patched_def
      ret_def deploymentEx_def replicasOf_def split: option.splits if_splits)

definition pauseW0 :: pauseWorld where
  "pauseW0 = ([(''Deployment'', ''ns'', ''app'') \<mapsto> 3], [(''flux'', ''apps'') \<mapsto> False])"

definition pausedEx :: "bool \<Rightarrow> pausedWorkload" where
  "pausedEx b = \<lparr>pw_Kind = ''Deployment'', pw_Name = ''app'', pw_Replicas = 3, pw_Resumed = b\<rparr>"

lemma pauseEx_runs:
  "pauseTargets pauseApiEx ''ns'' pauseW0 = (Inr [workloadOf ''Deployment'' (deploymentEx (Some 3))], pauseW0)"
  "pausePlan pauseApiEx [workloadOf ''Deployment'' (deploymentEx (Some 3))] pauseW0 = (Inr ([pausedEx False], [''flux/apps'']), pauseW0)"
  "applyPause pauseApiEx ''ns'' [pausedEx False] [''flux/apps''] pauseW0 =
     (Inr (), [(''Deployment'', ''ns'', ''app'') \<mapsto> 0], [(''flux'', ''apps'') \<mapsto> True])"
  "resumeWorkloads pauseApiEx ''ns'' [pausedEx False] [''flux/apps''] ([(''Deployment'', ''ns'', ''app'') \<mapsto> 0], [(''flux'', ''apps'') \<mapsto> True]) =
     (Inr ([pausedEx True], None), pauseW0)"
  by (simp_all add: pauseTargets_def pausePlan_def applyPause_def resumeWorkloads_def call_simps pauseApiEx_def pauseW0_def deploymentEx_def
      markedPause_def getOr_def workloadOf_def pausedEx_def pausedOf_def replicasOf_def objectMeta0_def Let_def suspendKey_def unlessGone_def
      setSuspend_def scale_def patchView_def workloadObject_def fluxNameLabel_def fluxNamespaceLabel_def)

theorem pause_roundtrip_witness:
  "fst (snd (resumeWorkloads pauseApiEx ''ns'' [pausedEx False] [''flux/apps'']
     (snd (applyPause pauseApiEx ''ns'' [pausedEx False] [''flux/apps''] pauseW0)))) = fst pauseW0"
proof -
  have "\<forall>t \<in> set [workloadOf ''Deployment'' (deploymentEx (Some 3))]. CHR ''/'' \<notin> set (getOr (m_labels (wo_meta (wk_object t))) fluxNamespaceLabel)"
    by (simp add: workloadOf_def deploymentEx_def getOr_def fluxNameLabel_def fluxNamespaceLabel_def)
  from pause_roundtrip[OF pauseApiEx_laws pauseEx_runs(1) this pauseEx_runs(2) pauseEx_runs(3) pauseEx_runs(4)]
  show ?thesis by (simp add: pauseEx_runs)
qed

theorem resume_respects_owner_witness:
  "fst (snd (resumeWorkloads pauseApiEx ''ns'' [pausedEx True] [''flux/apps''] pauseW0)) (''Deployment'', ''ns'', ''app'') = Some 3"
proof -
  have "\<forall>p \<in> set [pausedEx True]. wkey ''ns'' p = (''Deployment'', ''ns'', ''app'') \<longrightarrow> pw_Resumed p" by (simp add: pausedEx_def)
  from resume_respects_owner[OF pauseApiEx_laws(1) surjective_pairing this] show ?thesis by (simp add: pauseW0_def)
qed

end
