(* ===== verification/Run_Settings.thy ===== *)
theory Run_Settings
  imports Kube_Objects Hoare_Calls
begin

text \<open>
  The settings of a run, from \<open>src/internal/runs/namespace_settings.go\<close>, \<open>trigger.go\<close> and
  \<open>queued.go\<close>: the timeout and prune interval of a namespace, the manual trigger of a
  ReplicationSource and the Queued condition. \<open>time.ParseDuration\<close> is written out, with exact
  arithmetic for the fraction of a unit where Go rounds through a 64-bit float.
\<close>

section \<open>time.ParseDuration\<close>

definition unitMap :: "string \<Rightarrow> int option" where
  "unitMap = [''ns'' \<mapsto> 1, ''us'' \<mapsto> 1000, [CHR 0xC2, CHR 0xB5, CHR ''s''] \<mapsto> 1000, [CHR 0xCE, CHR 0xBC, CHR ''s''] \<mapsto> 1000,
     ''ms'' \<mapsto> 1000000, ''s'' \<mapsto> 1000000000, ''m'' \<mapsto> 60000000000, ''h'' \<mapsto> 3600000000000]"

text \<open>\<open>leadingFraction\<close>: digits that would overflow are consumed and dropped.\<close>

definition fractionStep :: "int \<times> int \<times> bool \<Rightarrow> char \<Rightarrow> int \<times> int \<times> bool" where
  "fractionStep st c = (case st of (x, scale, overflow) \<Rightarrow>
     if overflow \<or> x > (2 ^ 63 - 1) div 10 then (x, scale, True)
     else let y = x * 10 + digitVal c in if y > 2 ^ 63 then (x, scale, True) else (y, scale * 10, False))"

definition notUnitEnd :: "char \<Rightarrow> bool" where
  "notUnitEnd c = (c \<noteq> CHR ''.'' \<and> \<not> isDigit c)"

text \<open>One number with its unit: its value in nanoseconds and the rest of the string.\<close>

definition durPiece :: "string \<Rightarrow> (int \<times> string) option" where
  "durPiece s =
     (let ds = takeWhile isDigit s; s1 = dropWhile isDigit s; v = decVal ds;
          dotted = (s1 \<noteq> [] \<and> hd s1 = CHR ''.'');
          fs = (if dotted then takeWhile isDigit (tl s1) else []); s2 = (if dotted then dropWhile isDigit (tl s1) else s1);
          u = takeWhile notUnitEnd s2; s3 = dropWhile notUnitEnd s2 in
      if ds = [] \<and> (fs = [] \<or> \<not> dotted) then None
      else if v > 2 ^ 63 then None
      else if u = [] then None
      else
      (case unitMap u of
         None \<Rightarrow> None
       | Some unit \<Rightarrow>
         if v > 2 ^ 63 div unit then None
         else (case foldl fractionStep (0, 1, False) fs of (f, scale, _) \<Rightarrow>
                let total = v * unit + (if f > 0 then f * unit div scale else 0) in
                if total > 2 ^ 63 then None else Some (total, s3))))"

lemma durPiece_shorter: "durPiece s = Some (v, r) \<Longrightarrow> length r < length s"
proof -
  assume a: "durPiece s = Some (v, r)"
  define s1 where "s1 = dropWhile isDigit s"
  define s2 where "s2 = (if s1 \<noteq> [] \<and> hd s1 = CHR ''.'' then dropWhile isDigit (tl s1) else s1)"
  from a have r: "takeWhile notUnitEnd s2 \<noteq> []" "r = dropWhile notUnitEnd s2"
    by (auto simp: durPiece_def Let_def s1_def s2_def split: if_splits option.splits prod.splits)
  have "length r < length s2" using r takeWhile_dropWhile_id[of notUnitEnd s2]
    by (metis add_less_cancel_right add_0 length_append length_greater_0_conv)
  also have "length s2 \<le> length s1" unfolding s2_def
    by (cases s1) (auto intro: le_trans[OF length_dropWhile_le])
  also have "length s1 \<le> length s" unfolding s1_def by (rule length_dropWhile_le)
  finally show ?thesis .
qed

function durLoop :: "string \<Rightarrow> int \<Rightarrow> int option" where
  "durLoop s d =
     (if s = [] then Some d
      else (case durPiece s of
              None \<Rightarrow> None
            | Some (v, r) \<Rightarrow> if d + v > 2 ^ 63 then None else durLoop r (d + v)))"
  by pat_completeness auto
termination by (relation "measure (\<lambda>(s, d). length s)") (auto simp: durPiece_shorter)

declare durLoop.simps [simp del]

definition parseDuration :: "string \<Rightarrow> duration option" where
  "parseDuration value =
     (let signed = (value \<noteq> [] \<and> (hd value = CHR ''-'' \<or> hd value = CHR ''+''));
          neg = (value \<noteq> [] \<and> hd value = CHR ''-''); s = (if signed then tl value else value) in
      if s = ''0'' then Some 0
      else if s = [] then None
      else (case durLoop s 0 of
              None \<Rightarrow> None
            | Some d \<Rightarrow> if neg then Some (- d) else if d > 2 ^ 63 - 1 then None else Some d))"

section \<open>The settings of a namespace\<close>

definition defaultTimeout :: duration where "defaultTimeout = hour"
definition defaultPruneIntervalDays :: int where "defaultPruneIntervalDays = 1"

definition namespaceAnnotations :: "(string \<Rightarrow> ('w, namespaceObj) call) \<Rightarrow> string \<Rightarrow> ('w, smap) call" where
  "namespaceAnnotations getNamespace name =
     bindM (attempt (getNamespace name)) (\<lambda>r. case r of
       Inl err \<Rightarrow> if IsNotFound err then ret Map.empty else failM (Wrap (''get Namespace '' @ name @ '': '') err)
     | Inr n \<Rightarrow> ret (m_annotations (ns_meta n)))"

definition timeoutFor :: "(string \<Rightarrow> ('w, namespaceObj) call) \<Rightarrow> backupRun \<Rightarrow> ('w, duration) call" where
  "timeoutFor getNamespace run =
     (case bs_Timeout (br_spec run) of
        Some d \<Rightarrow> ret d
      | None \<Rightarrow>
        bindM (namespaceAnnotations getNamespace (m_namespace (br_meta run))) (\<lambda>annotations.
        let value = getOr annotations AnnotationTimeout in
        if value = [] then ret defaultTimeout
        else (case parseDuration value of
                Some d \<Rightarrow> if d \<le> 0 then failM (InvalidSetting (''namespace '' @ m_namespace (br_meta run) @ '' has '' @ AnnotationTimeout @ '' '' @
                             quote value @ '', which is not a duration such as 10h'')) else ret d
              | None \<Rightarrow> failM (InvalidSetting (''namespace '' @ m_namespace (br_meta run) @ '' has '' @ AnnotationTimeout @ '' '' @
                             quote value @ '', which is not a duration such as 10h'')))))"

definition pruneIntervalFor :: "(string \<Rightarrow> ('w, namespaceObj) call) \<Rightarrow> string \<Rightarrow> ('w, int) call" where
  "pruneIntervalFor getNamespace namespace =
     bindM (namespaceAnnotations getNamespace namespace) (\<lambda>annotations.
     let value = getOr annotations AnnotationPruneIntervalDays;
         bad = failM (InvalidSetting (''namespace '' @ namespace @ '' has '' @ AnnotationPruneIntervalDays @ '' '' @
                 quote value @ '', which is not a positive count of days'')) in
     if value = [] then ret defaultPruneIntervalDays
     else (case parseInt 32 value of None \<Rightarrow> bad | Some n \<Rightarrow> if n < 1 then bad else ret n))"

section \<open>Triggers\<close>

definition pollInterval :: duration where "pollInterval = 10 * second"

definition Finalizer :: string where "Finalizer = ''backup.wlz.li/run-cleanup''"

text \<open>The result of a reconcile is the time to requeue after, if any.\<close>

definition afterM :: "duration \<Rightarrow> ('s, unit) call \<Rightarrow> ('s, duration option) call" where
  "afterM d m = thenM m (ret (Some d))"

definition TriggerFor :: "string \<Rightarrow> string" where
  "TriggerFor uid = ''backuprun-'' @ uid"

definition manualTag :: "replicationSource \<Rightarrow> string" where
  "manualTag source = (case sc_Trigger source of None \<Rightarrow> [] | Some m \<Rightarrow> m)"

definition lastManual :: "replicationSource \<Rightarrow> string" where
  "lastManual source = (case sc_Status source of None \<Rightarrow> [] | Some s \<Rightarrow> ss_LastManualSync s)"

definition busy :: "replicationSource \<Rightarrow> bool" where
  "busy source = (manualTag source \<noteq> [] \<and> manualTag source \<noteq> lastManual source)"

section \<open>The Queued condition\<close>

definition queuedMessage :: string where "queuedMessage = ''waiting for the backup queue to admit the run''"

text \<open>\<open>setQueued\<close> returns the conditions and whether they changed; \<open>setCond\<close> is
  \<open>meta.SetStatusCondition\<close>, and \<open>meta.FindStatusCondition\<close> finds the first of its type.\<close>

definition setQueued :: "(condition list \<Rightarrow> condition \<Rightarrow> condition list) \<Rightarrow> condition list \<Rightarrow> int \<Rightarrow> string \<Rightarrow> condition list \<times> bool" where
  "setQueued setCond conditions generation message =
     (case find (\<lambda>c. c_type c = ConditionReady) conditions of
        Some current \<Rightarrow> if c_reason current = ReasonQueued \<and> c_message current = message then (conditions, False)
          else (SetReady setCond conditions generation CondFalse ReasonQueued message, True)
      | None \<Rightarrow> (SetReady setCond conditions generation CondFalse ReasonQueued message, True))"

section \<open>Bounds\<close>

lemma parseInt_bounds: "parseInt bits s = Some v \<Longrightarrow> - (2 ^ (bits - 1)) \<le> v \<and> v < 2 ^ (bits - 1)"
  by (auto simp: parseInt_def Let_def split: if_splits)

lemma durLoop_bound: "durLoop s d = Some r \<Longrightarrow> d \<le> 2 ^ 63 \<Longrightarrow> r \<le> 2 ^ 63"
proof (induction s d rule: durLoop.induct)
  case (1 s d)
  show ?case
  proof (cases "s = []")
    case True
    then show ?thesis using 1 by (simp add: durLoop.simps)
  next
    case False
    with 1(2) obtain v q where p: "durPiece s = Some (v, q)" "d + v \<le> 2 ^ 63" "durLoop q (d + v) = Some r"
      by (subst (asm) durLoop.simps) (auto split: option.splits if_splits)
    with 1(1)[OF False p(1) refl] show ?thesis by simp
  qed
qed

lemma decVal_nonneg: "list_all isDigit ds \<Longrightarrow> 0 \<le> decVal ds"
proof -
  have "0 \<le> a \<Longrightarrow> list_all isDigit ds \<Longrightarrow> 0 \<le> foldl (\<lambda>v c. v * 10 + digitVal c) a ds" for a
    by (induction ds arbitrary: a) (auto simp: digitVal_def isDigit_def)
  then show "list_all isDigit ds \<Longrightarrow> ?thesis" by (simp add: decVal_def)
qed

lemma fraction_scale: "foldl fractionStep (x, sc, b) fs = (f, scale, o1) \<Longrightarrow> 0 < sc \<Longrightarrow> 0 < scale"
  by (induction fs arbitrary: x sc b) (auto simp: fractionStep_def Let_def split: if_splits)

lemma unitMap_pos: "unitMap u = Some n \<Longrightarrow> 0 < n"
  by (auto simp: unitMap_def split: if_splits)

lemma durPiece_nonneg: "durPiece s = Some (v, r) \<Longrightarrow> 0 \<le> v"
proof -
  assume a: "durPiece s = Some (v, r)"
  let ?ds = "takeWhile isDigit s"
  define s1 where "s1 = dropWhile isDigit s"
  define dotted where "dotted = (s1 \<noteq> [] \<and> hd s1 = CHR ''.'')"
  define fs where "fs = (if dotted then takeWhile isDigit (tl s1) else [])"
  define u where "u = takeWhile notUnitEnd (if dotted then dropWhile isDigit (tl s1) else s1)"
  obtain f scale o1 where f: "foldl fractionStep (0, 1, False) fs = (f, scale, o1)" by (metis prod_cases3)
  note d = durPiece_def[of s, unfolded Let_def, folded s1_def, folded dotted_def, folded fs_def, folded u_def]
  from a obtain unit where u: "unitMap u = Some unit" unfolding d by (simp split: if_splits option.splits)
  from a have v: "v = decVal ?ds * unit + (if f > 0 then f * unit div scale else 0)"
    unfolding d u f by (simp split: if_splits)
  have "0 \<le> decVal ?ds" by (rule decVal_nonneg) (auto simp: list_all_iff dest: set_takeWhileD)
  moreover have "0 < unit" by (rule unitMap_pos[OF u])
  moreover have "0 < scale" using fraction_scale[OF f] by simp
  ultimately show ?thesis unfolding v by (auto intro!: add_nonneg_nonneg simp: pos_imp_zdiv_nonneg_iff)
qed

lemma durLoop_nonneg: "durLoop s d = Some r \<Longrightarrow> 0 \<le> d \<Longrightarrow> 0 \<le> r"
proof (induction s d rule: durLoop.induct)
  case (1 s d)
  show ?case
  proof (cases "s = []")
    case True
    then show ?thesis using 1 by (simp add: durLoop.simps)
  next
    case False
    with 1(2) obtain v q where p: "durPiece s = Some (v, q)" "\<not> d + v > 2 ^ 63" "durLoop q (d + v) = Some r"
      by (subst (asm) durLoop.simps) (auto split: option.splits if_splits)
    with 1(1)[OF False p(1) refl] durPiece_nonneg[OF p(1)] 1(3) show ?thesis by simp
  qed
qed

text \<open>The settings of a namespace are within their types. A timeout that comes from the namespace is a
  positive duration that fits an \<open>int64\<close> of nanoseconds, and a prune interval is between 1 and the
  largest \<open>int32\<close>. An annotation that does not parse, or is not positive, gives an
  \<open>invalidSetting\<close> error, and an empty or missing one the default.\<close>

theorem settings_bounds:
  "(case timeoutFor getNamespace (run\<lparr>br_spec := (br_spec run)\<lparr>bs_Timeout := None\<rparr>\<rparr>) w of
      (Inr d, w') \<Rightarrow> 0 < d \<and> d < 2 ^ 63
    | (Inl e, w') \<Rightarrow> (\<exists>t. e = InvalidSetting t) \<or> (\<exists>e' w1. e = Wrap (''get Namespace '' @ m_namespace (br_meta run) @ '': '') e' \<and>
         getNamespace (m_namespace (br_meta run)) w = (Inl e', w1))) \<and>
   (case pruneIntervalFor getNamespace ns w of
      (Inr n, w') \<Rightarrow> 1 \<le> n \<and> n < 2 ^ 31
    | (Inl e, w') \<Rightarrow> (\<exists>t. e = InvalidSetting t) \<or> (\<exists>e' w1. e = Wrap (''get Namespace '' @ ns @ '': '') e' \<and> getNamespace ns w = (Inl e', w1)))"
proof -
  have pd: "parseDuration v = Some d \<Longrightarrow> 0 < d \<Longrightarrow> d < 2 ^ 63" for v d
    by (auto simp: parseDuration_def Let_def split: if_splits option.splits dest: durLoop_bound durLoop_nonneg)
  have a: "case namespaceAnnotations getNamespace n w of
      (Inr m, w') \<Rightarrow> True | (Inl e, w') \<Rightarrow> \<exists>e' w1. e = Wrap (''get Namespace '' @ n @ '': '') e' \<and> getNamespace n w = (Inl e', w1)" for n
    by (cases "getNamespace n w") (auto simp: namespaceAnnotations_def call_simps split: sum.splits)
  have "case timeoutFor getNamespace (run\<lparr>br_spec := (br_spec run)\<lparr>bs_Timeout := None\<rparr>\<rparr>) w of
      (Inr d, w') \<Rightarrow> 0 < d \<and> d < 2 ^ 63
    | (Inl e, w') \<Rightarrow> (\<exists>t. e = InvalidSetting t) \<or> (\<exists>e' w1. e = Wrap (''get Namespace '' @ m_namespace (br_meta run) @ '': '') e' \<and>
         getNamespace (m_namespace (br_meta run)) w = (Inl e', w1))"
    using a[of "m_namespace (br_meta run)"] by (cases "namespaceAnnotations getNamespace (m_namespace (br_meta run)) w")
      (auto simp: timeoutFor_def call_simps Let_def defaultTimeout_def hour_def minute_def second_def not_le dest: pd split: sum.splits option.splits)
  moreover have "case pruneIntervalFor getNamespace ns w of
      (Inr n, w') \<Rightarrow> 1 \<le> n \<and> n < 2 ^ 31
    | (Inl e, w') \<Rightarrow> (\<exists>t. e = InvalidSetting t) \<or> (\<exists>e' w1. e = Wrap (''get Namespace '' @ ns @ '': '') e' \<and> getNamespace ns w = (Inl e', w1))"
    using a[of ns] by (cases "namespaceAnnotations getNamespace ns w")
      (auto simp: pruneIntervalFor_def call_simps Let_def defaultPruneIntervalDays_def not_less dest: parseInt_bounds split: sum.splits option.splits)
  ultimately show ?thesis ..
qed

lemma parseDuration_examples:
  "parseDuration ''10h'' = Some 36000000000000" "parseDuration ''1h30m'' = Some 5400000000000"
  "parseDuration ''1.5s'' = Some 1500000000" "parseDuration ''10'' = None" "parseDuration ''-1s'' = Some (- 1000000000)"
  by code_simp+

end
