(* ===== verification/Sources.thy ===== *)
theory Sources
  imports Run_Settings "HOL-Library.List_Lexorder" "HOL-Library.Char_ord"
begin

text \<open>
  The ReplicationSources that back up claims, from \<open>src/internal/runs/sources.go\<close>.

  The reads of the API server, \<open>controllerutil.CreateOrUpdate\<close> and
  \<open>controllerutil.SetControllerReference\<close> are fields of the parameter \<open>sourceApi\<close>. Claim names are
  distinct within a namespace, so \<open>sort.Slice\<close> is the stable sort. The pair of a source and
  \<open>errSourceBusy\<close> that \<open>ensureSource\<close> returns is the value \<open>(True, source)\<close>; a written source is
  \<open>(False, source)\<close>.
\<close>

record 'w sourceApi =
  so_listClaims :: "string \<Rightarrow> ('w, claim list) call"
  so_getVR :: "string \<Rightarrow> string \<Rightarrow> ('w, volumeRestore) call"
  so_getPV :: "string \<Rightarrow> ('w, persistentVolume) call"
  so_getNamespace :: "string \<Rightarrow> ('w, namespaceObj) call"
  so_getSource :: "string \<Rightarrow> string \<Rightarrow> ('w, replicationSource) call"
  so_createOrUpdate :: "string \<Rightarrow> string \<Rightarrow> (replicationSource \<Rightarrow> gerr + replicationSource) \<Rightarrow> ('w, replicationSource) call"
  so_setController :: "claim \<Rightarrow> replicationSource \<Rightarrow> gerr + replicationSource"

definition moverCPU :: quantity where "moverCPU = ''500m''"

definition enabledClaims :: "(string \<Rightarrow> ('w, claim list) call) \<Rightarrow> string \<Rightarrow> ('w, claim list) call" where
  "enabledClaims listClaims namespace =
     bindM (wrapM (''list the claims in '' @ namespace @ '': '') (listClaims namespace)) (\<lambda>claims.
     ret (sort_key (\<lambda>c. m_name (pc_meta c))
       (filter (\<lambda>c. Enabled (m_annotations (pc_meta c)) \<and> m_deletion (pc_meta c) = None) claims)))"

definition volumeRestoreFor :: "(string \<Rightarrow> string \<Rightarrow> ('w, volumeRestore) call) \<Rightarrow> claim \<Rightarrow> ('w, volumeRestore) call" where
  "volumeRestoreFor getVR cl =
     (let name = (case pc_dataSourceRef cl of
                    Some ref \<Rightarrow> if or_kind ref = ''VolumeRestore'' then or_name ref else m_name (pc_meta cl)
                  | None \<Rightarrow> m_name (pc_meta cl)) in
      bindM (attempt (getVR (m_namespace (pc_meta cl)) name)) (\<lambda>r. case r of
        Inl err \<Rightarrow> if IsNotFound err then failM (MissingVolumeRestore (m_name (pc_meta cl)) name)
                   else failM (Wrap (''get VolumeRestore '' @ m_namespace (pc_meta cl) @ ''/'' @ name @ '': '') err)
      | Inr vr \<Rightarrow> ret vr))"

fun isMissingVR1 :: "gerr \<Rightarrow> bool" where
  "isMissingVR1 (MissingVolumeRestore _ _) = True"
| "isMissingVR1 _ = False"

definition volumeAffinity :: "(string \<Rightarrow> ('w, persistentVolume) call) \<Rightarrow> claim \<Rightarrow> ('w, string) call" where
  "volumeAffinity getPV cl =
     (if pc_volumeName cl = [] \<or> pc_phase cl \<noteq> ClaimBound
      then failM (Plain (''claim '' @ m_name (pc_meta cl) @ '' is not bound to a volume yet''))
      else bindM (wrapM (''get PersistentVolume '' @ pc_volumeName cl @ '': '') (getPV (pc_volumeName cl))) (\<lambda>pv.
        case pv_affinity pv of
          None \<Rightarrow> failM (Plain (''the PersistentVolume '' @ pv_name pv @ '' declares no node affinity to place the mover by''))
        | Some a \<Rightarrow> ret a))"

section \<open>Retention\<close>

text \<open>The regular expression \<open>^([0-9]+[ymdh])+$\<close> as its automaton: before the first digit of a count,
  within a count, and after a unit.\<close>

datatype spanState = SpanStart | SpanDigits | SpanUnit

definition spanUnit :: "char \<Rightarrow> bool" where
  "spanUnit c = (c \<in> {CHR ''y'', CHR ''m'', CHR ''d'', CHR ''h''})"

fun spanRun :: "spanState \<Rightarrow> string \<Rightarrow> bool" where
  "spanRun st [] = (st = SpanUnit)"
| "spanRun st (c # s) =
     (if isDigit c then spanRun SpanDigits s
      else if spanUnit c \<and> st = SpanDigits then spanRun SpanUnit s
      else False)"

definition resticSpan :: "string \<Rightarrow> bool" where
  "resticSpan s = spanRun SpanStart s"

definition positiveCount :: "string \<Rightarrow> int option" where
  "positiveCount value = (case parseInt 32 value of None \<Rightarrow> None | Some n \<Rightarrow> if n < 1 then None else Some n)"

definition countOf :: "claim \<Rightarrow> string \<Rightarrow> gerr + int option" where
  "countOf cl annotation =
     (case m_annotations (pc_meta cl) annotation of
        None \<Rightarrow> Inr None
      | Some value \<Rightarrow>
          (case positiveCount value of
             None \<Rightarrow> Inl (Plain (''claim '' @ m_name (pc_meta cl) @ '' has '' @ annotation @ '' '' @ quote value @ '', which is not a positive count''))
           | Some n \<Rightarrow> Inr (Some n)))"

definition spanOf :: "claim \<Rightarrow> gerr + string option" where
  "spanOf cl =
     (case m_annotations (pc_meta cl) AnnotationRetainWithin of
        None \<Rightarrow> Inr None
      | Some value \<Rightarrow>
          if \<not> resticSpan value
          then Inl (Plain (''claim '' @ m_name (pc_meta cl) @ '' has '' @ AnnotationRetainWithin @ '' '' @ quote value @ '', which is not a span such as 30d or 1y6m''))
          else Inr (Some value))"

definition retention :: "claim \<Rightarrow> gerr + retainPolicy" where
  "retention cl =
     bindE (countOf cl AnnotationRetainLast) (\<lambda>last.
     bindE (countOf cl AnnotationRetainHourly) (\<lambda>hourly.
     bindE (countOf cl AnnotationRetainDaily) (\<lambda>daily.
     bindE (countOf cl AnnotationRetainWeekly) (\<lambda>weekly.
     bindE (countOf cl AnnotationRetainMonthly) (\<lambda>monthly.
     bindE (countOf cl AnnotationRetainYearly) (\<lambda>yearly.
     bindE (spanOf cl) (\<lambda>within.
     if last = None \<and> hourly = None \<and> daily = None \<and> weekly = None \<and> monthly = None \<and> yearly = None \<and> within = None
     then Inl (Plain (''claim '' @ m_name (pc_meta cl) @ '' names no retention; set at least one of '' @ AnnotationRetainLast @ '', '' @
            AnnotationRetainHourly @ '', '' @ AnnotationRetainDaily @ '', '' @ AnnotationRetainWeekly @ '', '' @ AnnotationRetainMonthly @ '', '' @
            AnnotationRetainYearly @ '' or '' @ AnnotationRetainWithin))
     else Inr \<lparr>rp_Last = (case last of None \<Rightarrow> None | Some _ \<Rightarrow> m_annotations (pc_meta cl) AnnotationRetainLast),
               rp_Hourly = hourly, rp_Daily = daily, rp_Weekly = weekly, rp_Monthly = monthly, rp_Yearly = yearly, rp_Within = within\<rparr>)))))))"

section \<open>Writing a ReplicationSource\<close>

definition sourceSpecOf :: "claim \<Rightarrow> volumeRestore \<Rightarrow> string \<Rightarrow> retainPolicy \<Rightarrow> int \<Rightarrow> string \<Rightarrow> resticSpec" where
  "sourceSpecOf cl vr affinity retain pruneInterval tag =
     \<lparr>rx_CopyMethod = ''Clone'', rx_StorageClassName = vs_CacheStorageClassName (vr_spec vr), rx_Repository = vs_Repository (vr_spec vr),
      rx_Unlock = tag, rx_PruneIntervalDays = pruneInterval, rx_Retain = retain, rx_CacheCapacity = vs_CacheCapacity (vr_spec vr),
      rx_CacheStorageClassName = vs_CacheStorageClassName (vr_spec vr), rx_MoverSecurityContext = vs_MoverSecurityContext (vr_spec vr),
      rx_MoverAffinity = affinity, rx_MoverCPU = moverCPU\<rparr>"

definition mutateSource :: "'w sourceApi \<Rightarrow> claim \<Rightarrow> resticSpec \<Rightarrow> string \<Rightarrow> replicationSource \<Rightarrow> gerr + replicationSource" where
  "mutateSource c cl spec tag source =
     bindE (so_setController c cl (source\<lparr>sc_meta := (sc_meta source)\<lparr>m_labels := (m_labels (sc_meta source))(LabelManagedBy \<mapsto> ManagedByValue)\<rparr>\<rparr>)) (\<lambda>s.
     Inr (s\<lparr>sc_SourcePVC := m_name (pc_meta cl), sc_Trigger := Some tag, sc_Restic := Some spec\<rparr>))"

definition writeSource :: "'w sourceApi \<Rightarrow> claim \<Rightarrow> resticSpec \<Rightarrow> string \<Rightarrow> ('w, bool \<times> replicationSource) call" where
  "writeSource c cl spec tag =
     (let namespace = m_namespace (pc_meta cl); name = m_name (pc_meta cl) in
      bindM (wrapM (''write ReplicationSource '' @ namespace @ ''/'' @ name @ '': '')
        (so_createOrUpdate c namespace name (mutateSource c cl spec tag))) (\<lambda>source. ret (False, source)))"

definition replaceSource :: "'w sourceApi \<Rightarrow> claim \<Rightarrow> resticSpec \<Rightarrow> string \<Rightarrow> gerr + replicationSource \<Rightarrow> ('w, bool \<times> replicationSource) call" where
  "replaceSource c cl spec tag r =
     (case r of
        Inr existing \<Rightarrow>
          if getOr (m_labels (sc_meta existing)) LabelManagedBy \<noteq> ManagedByValue
          then failM (Plain (''the ReplicationSource '' @ m_name (pc_meta cl) @ '' exists and was not written by backup-controller; remove it so the controller can write its own''))
          else if busy existing \<and> manualTag existing \<noteq> tag then ret (True, existing)
          else writeSource c cl spec tag
      | Inl err \<Rightarrow> if IsNotFound err then writeSource c cl spec tag
                   else failM (Wrap (''get ReplicationSource '' @ m_namespace (pc_meta cl) @ ''/'' @ m_name (pc_meta cl) @ '': '') err))"

definition ensureSource :: "'w sourceApi \<Rightarrow> claim \<Rightarrow> string \<Rightarrow> ('w, bool \<times> replicationSource) call" where
  "ensureSource c cl tag =
     bindM (volumeRestoreFor (so_getVR c) cl) (\<lambda>vr.
     bindM (volumeAffinity (so_getPV c) cl) (\<lambda>affinity.
     bindM (liftE (retention cl)) (\<lambda>retain.
     bindM (pruneIntervalFor (so_getNamespace c) (m_namespace (pc_meta cl))) (\<lambda>pruneInterval.
     bindM (attempt (so_getSource c (m_namespace (pc_meta cl)) (m_name (pc_meta cl))))
       (replaceSource c cl (sourceSpecOf cl vr affinity retain pruneInterval tag) tag)))))"

section \<open>What a retention accepts\<close>

text \<open>A group of the span: a count and its unit.\<close>

definition spanGroup :: "string \<Rightarrow> bool" where
  "spanGroup g = (\<exists>ds u. g = ds @ [u] \<and> ds \<noteq> [] \<and> list_all isDigit ds \<and> spanUnit u)"

lemma spanUnit_not_digit: "spanUnit c \<Longrightarrow> \<not> isDigit c"
  by (auto simp: spanUnit_def isDigit_def)

lemma spanRun_digits: "list_all isDigit ds \<Longrightarrow> ds \<noteq> [] \<Longrightarrow> spanRun st (ds @ s) = spanRun SpanDigits s"
proof (induction ds arbitrary: st)
  case (Cons d ds)
  then show ?case by (cases ds) auto
qed simp

lemma spanRun_groups:
  "\<forall>g \<in> set gs. spanGroup g \<Longrightarrow> st \<noteq> SpanDigits \<Longrightarrow> spanRun st (concat gs) \<longleftrightarrow> gs \<noteq> [] \<or> st = SpanUnit"
proof (induction gs arbitrary: st)
  case (Cons g gs)
  then obtain ds u where g: "g = ds @ [u]" "ds \<noteq> []" "list_all isDigit ds" "spanUnit u" by (auto simp: spanGroup_def)
  have "spanRun st (concat (g # gs)) = spanRun SpanUnit (concat gs)"
    using g spanUnit_not_digit[OF g(4)] by (simp add: spanRun_digits)
  with Cons show ?case by simp
qed simp

lemma spanRun_split:
  "spanRun st s \<Longrightarrow> case st of
     SpanDigits \<Rightarrow> \<exists>ds u gs. s = ds @ [u] @ concat gs \<and> list_all isDigit ds \<and> spanUnit u \<and> (\<forall>g \<in> set gs. spanGroup g)
   | _ \<Rightarrow> \<exists>gs. s = concat gs \<and> (\<forall>g \<in> set gs. spanGroup g) \<and> (st = SpanStart \<longrightarrow> gs \<noteq> [])"
proof (induction st s rule: spanRun.induct)
  case (1 st)
  then show ?case by (auto intro: exI[of _ "[]"])
next
  case (2 st c s)
  show ?case
  proof (cases "isDigit c")
    case True
    from 2(1)[OF True] 2(3) True obtain ds u gs where s: "s = ds @ [u] @ concat gs" "list_all isDigit ds" "spanUnit u" "\<forall>g \<in> set gs. spanGroup g"
      by auto
    have "spanGroup (c # ds @ [u])" unfolding spanGroup_def
      using True s(2,3) by (intro exI[of _ "c # ds"] exI[of _ u]) simp
    then have "\<exists>gs. c # s = concat gs \<and> (\<forall>g \<in> set gs. spanGroup g) \<and> gs \<noteq> []"
      using s by (intro exI[of _ "(c # ds @ [u]) # gs"]) simp
    moreover have "\<exists>ds u gs. c # s = ds @ [u] @ concat gs \<and> list_all isDigit ds \<and> spanUnit u \<and> (\<forall>g \<in> set gs. spanGroup g)"
      using s True by (intro exI[of _ "c # ds"] exI[of _ u] exI[of _ gs]) simp
    ultimately show ?thesis by (cases st) auto
  next
    case False
    with 2(3) have u: "spanUnit c" "st = SpanDigits" "spanRun SpanUnit s" by (auto split: if_splits)
    from 2(2)[OF False] u obtain gs where "s = concat gs" "\<forall>g \<in> set gs. spanGroup g" by auto
    then show ?thesis using u by (auto intro!: exI[of _ "[]"] exI[of _ gs])
  qed
qed

text \<open>Regular expressions of the kind the source uses, as \<open>regexp\<close> documents them: a class of characters,
  one expression after another, and one or more repetitions. An expression between \<open>^\<close> and \<open>$\<close> matches
  the strings of its language.\<close>

datatype spanRegexp = Class string | Then spanRegexp spanRegexp | OneOrMore spanRegexp

primrec lang :: "spanRegexp \<Rightarrow> string set" where
  "lang (Class cs) = {[c] | c. c \<in> set cs}"
| "lang (Then r q) = {u @ v | u v. u \<in> lang r \<and> v \<in> lang q}"
| "lang (OneOrMore r) = {concat us | us. us \<noteq> [] \<and> set us \<subseteq> lang r}"

text \<open>The expression of the source, \<open>([0-9]+[ymdh])+\<close>, between its anchors.\<close>

definition spanExpr :: spanRegexp where
  "spanExpr = OneOrMore (Then (OneOrMore (Class ''0123456789'')) (Class ''ymdh''))"

lemma isDigit_iff: "isDigit c \<longleftrightarrow> c \<in> set ''0123456789''"
proof
  assume "isDigit c"
  then have "(of_char c :: nat) \<in> {48..57}" by (simp add: isDigit_def)
  moreover have "{48..57} = set [48, 49, 50, 51, 52, 53, 54, 55, 56, 57 :: nat]" by code_simp
  ultimately have "(of_char c :: nat) \<in> set [48, 49, 50, 51, 52, 53, 54, 55, 56, 57]" by (simp only:)
  then have "char_of (of_char c :: nat) \<in> set (map char_of [48, 49, 50, 51, 52, 53, 54, 55, 56, 57 :: nat])" by (simp only: set_map image_eqI[OF refl])
  moreover have "map char_of [48, 49, 50, 51, 52, 53, 54, 55, 56, 57 :: nat] = ''0123456789''" by code_simp
  ultimately show "c \<in> set ''0123456789''" by simp
qed (auto simp: isDigit_def)

lemma lang_class: "lang (OneOrMore (Class cs)) = {ds. ds \<noteq> [] \<and> set ds \<subseteq> set cs}"
proof (intro set_eqI iffI)
  fix ds assume "ds \<in> lang (OneOrMore (Class cs))"
  then obtain us where "us \<noteq> []" "set us \<subseteq> {[c] | c. c \<in> set cs}" "ds = concat us" by auto
  then show "ds \<in> {ds. ds \<noteq> [] \<and> set ds \<subseteq> set cs}" by (cases us) auto
next
  fix ds assume "ds \<in> {ds. ds \<noteq> [] \<and> set ds \<subseteq> set cs}"
  then have "map (\<lambda>c. [c]) ds \<noteq> []" "set (map (\<lambda>c. [c]) ds) \<subseteq> lang (Class cs)" "ds = concat (map (\<lambda>c. [c]) ds)"
    by auto
  then show "ds \<in> lang (OneOrMore (Class cs))" unfolding lang.simps(3) by blast
qed

lemma lang_group: "g \<in> lang (Then (OneOrMore (Class ''0123456789'')) (Class ''ymdh'')) \<longleftrightarrow> spanGroup g"
proof -
  have "set ds \<subseteq> set ''0123456789'' \<longleftrightarrow> list_all isDigit ds" for ds unfolding list_all_iff isDigit_iff by blast
  moreover have "u \<in> set ''ymdh'' \<longleftrightarrow> spanUnit u" for u by (simp add: spanUnit_def)
  ultimately show ?thesis unfolding lang.simps(2) lang_class lang.simps(1) spanGroup_def by blast
qed

text \<open>C30. The check of \<open>retain-within\<close> accepts exactly the language of the source's regular expression
  \<open>^([0-9]+[ymdh])+$\<close>: one or more groups of decimal digits and one of the letters y, m, d and h.\<close>

theorem resticSpan_iff: "resticSpan s \<longleftrightarrow> s \<in> lang spanExpr"
proof -
  have l: "s \<in> lang spanExpr \<longleftrightarrow> (\<exists>gs. gs \<noteq> [] \<and> s = concat gs \<and> (\<forall>g \<in> set gs. spanGroup g))"
    unfolding spanExpr_def lang.simps(3)[of "Then _ _"] by (auto simp: subset_iff lang_group simp del: lang.simps)
  show ?thesis
  proof
    assume "resticSpan s"
    then have "\<exists>gs. s = concat gs \<and> (\<forall>g \<in> set gs. spanGroup g) \<and> gs \<noteq> []" using spanRun_split[of SpanStart s] by (simp add: resticSpan_def)
    then show "s \<in> lang spanExpr" unfolding l by blast
  next
    assume "s \<in> lang spanExpr"
    then show "resticSpan s" unfolding l using spanRun_groups[of _ SpanStart] by (auto simp: resticSpan_def)
  qed
qed

lemma positiveCount_bounds: "positiveCount v = Some n \<Longrightarrow> 1 \<le> n \<and> n < 2 ^ 31"
  using parseInt_bounds[of 32 v] by (auto simp: positiveCount_def split: option.splits if_splits)

definition countAnnotations :: "string list" where
  "countAnnotations = [AnnotationRetainLast, AnnotationRetainHourly, AnnotationRetainDaily, AnnotationRetainWeekly, AnnotationRetainMonthly, AnnotationRetainYearly]"

definition goodCount :: "claim \<Rightarrow> string \<Rightarrow> bool" where
  "goodCount cl a = (case m_annotations (pc_meta cl) a of None \<Rightarrow> True | Some v \<Rightarrow> positiveCount v \<noteq> None)"

lemma countOf_cases: "countOf cl a = (if goodCount cl a then Inr (Option.bind (m_annotations (pc_meta cl) a) positiveCount) else countOf cl a)"
  "\<not> goodCount cl a \<Longrightarrow> \<exists>e. countOf cl a = Inl e"
  by (auto simp: countOf_def goodCount_def split: option.splits)

text \<open>C31. A backup never runs with a retention that keeps nothing or everything by mistake. \<open>retention\<close> succeeds
  exactly when every retain annotation present is a positive \<open>int32\<close> count (a span for
  \<open>retain-within\<close>) and at least one is present; each count of the policy is then the
  parsed annotation, and a policy without any rule is never returned.\<close>

theorem retention_exact:
  "case retention cl of
     Inr p \<Rightarrow> list_all (goodCount cl) countAnnotations \<and>
       (\<exists>a \<in> set (AnnotationRetainWithin # countAnnotations). m_annotations (pc_meta cl) a \<noteq> None) \<and>
       (case m_annotations (pc_meta cl) AnnotationRetainWithin of None \<Rightarrow> True | Some v \<Rightarrow> resticSpan v) \<and>
       p = \<lparr>rp_Last = m_annotations (pc_meta cl) AnnotationRetainLast,
            rp_Hourly = Option.bind (m_annotations (pc_meta cl) AnnotationRetainHourly) positiveCount,
            rp_Daily = Option.bind (m_annotations (pc_meta cl) AnnotationRetainDaily) positiveCount,
            rp_Weekly = Option.bind (m_annotations (pc_meta cl) AnnotationRetainWeekly) positiveCount,
            rp_Monthly = Option.bind (m_annotations (pc_meta cl) AnnotationRetainMonthly) positiveCount,
            rp_Yearly = Option.bind (m_annotations (pc_meta cl) AnnotationRetainYearly) positiveCount,
            rp_Within = m_annotations (pc_meta cl) AnnotationRetainWithin\<rparr>
   | Inl e \<Rightarrow> \<not> list_all (goodCount cl) countAnnotations \<or>
       (case m_annotations (pc_meta cl) AnnotationRetainWithin of None \<Rightarrow> False | Some v \<Rightarrow> \<not> resticSpan v) \<or>
       (\<forall>a \<in> set (AnnotationRetainWithin # countAnnotations). m_annotations (pc_meta cl) a = None)"
proof (cases "list_all (goodCount cl) countAnnotations")
  case True
  then have g: "goodCount cl a \<Longrightarrow> countOf cl a = Inr (Option.bind (m_annotations (pc_meta cl) a) positiveCount)" for a
    using countOf_cases(1)[of cl a] by simp
  have b: "goodCount cl a \<Longrightarrow> Option.bind (m_annotations (pc_meta cl) a) positiveCount = None \<longleftrightarrow> m_annotations (pc_meta cl) a = None" for a
    by (auto simp: goodCount_def split: option.splits)
  from True have "goodCount cl AnnotationRetainLast" "goodCount cl AnnotationRetainHourly" "goodCount cl AnnotationRetainDaily"
    "goodCount cl AnnotationRetainWeekly" "goodCount cl AnnotationRetainMonthly" "goodCount cl AnnotationRetainYearly"
    by (simp_all add: countAnnotations_def)
  note gs = this
  show ?thesis
  proof (cases "m_annotations (pc_meta cl) AnnotationRetainWithin")
    case None
    then show ?thesis using True gs[THEN g] gs[THEN b]
      by (auto simp: retention_def spanOf_def countAnnotations_def split: option.splits)
  next
    case (Some v)
    then show ?thesis using True gs[THEN g] gs[THEN b]
      by (cases "resticSpan v") (auto simp: retention_def spanOf_def countAnnotations_def split: option.splits)
  qed
next
  case False
  then obtain a where "a \<in> set countAnnotations" "\<not> goodCount cl a" by (auto simp: list_all_iff)
  then have "\<exists>e. retention cl = Inl e"
    using countOf_cases(2)[of cl a] unfolding retention_def countAnnotations_def
    by (auto simp: bindE_def split: sum.splits)
  then show ?thesis using False by auto
qed

section \<open>What is written\<close>

lemma keeps_volumeRestoreFor: "(\<And>ns n. keeps v (getVR ns n)) \<Longrightarrow> keeps v (volumeRestoreFor getVR cl)"
  unfolding volumeRestoreFor_def Let_def by (auto intro!: keeps_intros split: sum.splits)

lemma keeps_volumeAffinity: "(\<And>n. keeps v (getPV n)) \<Longrightarrow> keeps v (volumeAffinity getPV cl)"
  unfolding volumeAffinity_def by (auto intro!: keeps_intros split: option.splits)

lemma keeps_pruneIntervalFor: "(\<And>n. keeps v (getNamespace n)) \<Longrightarrow> keeps v (pruneIntervalFor getNamespace ns)"
  unfolding pruneIntervalFor_def namespaceAnnotations_def Let_def by (auto intro!: keeps_intros split: sum.splits option.splits)

text \<open>\<open>controllerutil.CreateOrUpdate\<close> returns an object that the given function made of the stored or
  the new one.\<close>

definition createOrUpdate_law :: "'w sourceApi \<Rightarrow> bool" where
  "createOrUpdate_law c = (\<forall>ns n f w s w'. so_createOrUpdate c ns n f w = (Inr s, w') \<longrightarrow> (\<exists>s0. f s0 = Inr s))"

lemma ensureSource_leaves:
  assumes reads: "\<And>ns n. keeps v (so_getVR c ns n)" "\<And>n. keeps v (so_getPV c n)" "\<And>n. keeps v (so_getNamespace c n)"
      "\<And>ns n. keeps v (so_getSource c ns n)"
    and ex: "\<And>y. v y = v w \<Longrightarrow> fst (so_getSource c (m_namespace (pc_meta cl)) (m_name (pc_meta cl)) y) = Inr existing"
    and other: "getOr (m_labels (sc_meta existing)) LabelManagedBy \<noteq> ManagedByValue \<or> busy existing \<and> manualTag existing \<noteq> tag"
    and run: "ensureSource c cl tag w = (r, w')"
  shows "v w' = v w \<and> ((\<exists>e. r = Inl e) \<or> r = Inr (True, existing))"
proof -
  let ?get = "so_getSource c (m_namespace (pc_meta cl)) (m_name (pc_meta cl))" and ?I = "\<lambda>x. v x = v w"
  have pre: "preserves ?I (volumeRestoreFor (so_getVR c) cl)" "preserves ?I (volumeAffinity (so_getPV c) cl)"
    "preserves ?I (pruneIntervalFor (so_getNamespace c) ns)" for ns
    using keeps_preserves[where I = "\<lambda>y. y = v w"] keeps_volumeRestoreFor[of v] keeps_volumeAffinity[of v] keeps_pruneIntervalFor[of v] reads by blast+
  have get: "hoare ?I (attempt ?get) (\<lambda>q x. ?I x \<and> q = Inr existing) ?I"
  proof (rule hoareI)
    fix x q x' assume x: "?I x" "attempt ?get x = (Inr q, x')"
    then have g: "?get x = (q, x')" by (simp add: attempt_def split: prod.splits)
    from keepsD[OF reads(4) g] ex[OF x(1)] x(1) g show "?I x' \<and> q = Inr existing" by simp
  qed (simp add: attempt_def split: prod.splits)
  have h: "hoare ?I (ensureSource c cl tag) (\<lambda>q x. ?I x \<and> q = (True, existing)) ?I"
    unfolding ensureSource_def
    apply (rule hoare_bindM[OF pre(1)[unfolded preserves_def]])
    apply (rule hoare_bindM[OF pre(2)[unfolded preserves_def]])
    apply (rule hoare_bindM[where R = "\<lambda>_. ?I"], rule hoare_liftE, assumption, assumption)
    apply (rule hoare_bindM[OF pre(3)[unfolded preserves_def]])
    apply (rule hoare_bindM[OF get])
    subgoal for vr affinity retain pruneInterval q
      using other by (cases q) (auto simp: replaceSource_def hoare_def ret_def failM_def)
    done
  show ?thesis
  proof (cases r)
    case (Inl e)
    then show ?thesis using hoareD_Inl[OF h refl] run by auto
  next
    case (Inr q)
    then show ?thesis using hoareD_Inr[OF h refl] run by auto
  qed
qed

lemma ensureSource_written:
  assumes law: "createOrUpdate_law c" and ctl: "\<And>s s'. so_setController c cl s = Inr s' \<Longrightarrow> sc_meta s' = sc_meta s"
    and run: "ensureSource c cl tag w = (Inr (False, source), w')"
  shows "sc_SourcePVC source = m_name (pc_meta cl) \<and> sc_Trigger source = Some tag \<and>
    m_labels (sc_meta source) LabelManagedBy = Some ManagedByValue \<and>
    (\<exists>spec vr w1. sc_Restic source = Some spec \<and> volumeRestoreFor (so_getVR c) cl w = (Inr vr, w1) \<and>
       rx_Repository spec = vs_Repository (vr_spec vr) \<and> Inr (rx_Retain spec) = retention cl)"
proof -
  let ?k4 = "\<lambda>vr affinity retain prune. bindM (attempt (so_getSource c (m_namespace (pc_meta cl)) (m_name (pc_meta cl))))
       (replaceSource c cl (sourceSpecOf cl vr affinity retain prune tag) tag)"
  let ?k3 = "\<lambda>vr affinity retain. bindM (pruneIntervalFor (so_getNamespace c) (m_namespace (pc_meta cl))) (?k4 vr affinity retain)"
  from run[unfolded ensureSource_def] obtain vr w1 where vr: "volumeRestoreFor (so_getVR c) cl w = (Inr vr, w1)"
    and 1: "bindM (volumeAffinity (so_getPV c) cl) (\<lambda>affinity. bindM (liftE (retention cl)) (?k3 vr affinity)) w1 = (Inr (False, source), w')"
    by (rule bindM_InrE)
  from 1 obtain affinity w2 where "bindM (liftE (retention cl)) (?k3 vr affinity) w2 = (Inr (False, source), w')" by (rule bindM_InrE)
  then obtain retain w3 where rt: "retention cl = Inr retain" and 3: "?k3 vr affinity retain w3 = (Inr (False, source), w')"
    by (rule bindM_InrE) simp
  from 3 obtain prune w4 where 4: "?k4 vr affinity retain prune w4 = (Inr (False, source), w')" by (rule bindM_InrE)
  from 4 obtain q x where rp: "replaceSource c cl (sourceSpecOf cl vr affinity retain prune tag) tag q x = (Inr (False, source), w')" by (rule bindM_InrE)
  from rp have "writeSource c cl (sourceSpecOf cl vr affinity retain prune tag) tag x = (Inr (False, source), w')"
    by (cases q) (simp_all add: replaceSource_def failM_def split: if_splits)
  then obtain x' where
    cu: "so_createOrUpdate c (m_namespace (pc_meta cl)) (m_name (pc_meta cl)) (mutateSource c cl (sourceSpecOf cl vr affinity retain prune tag) tag) x = (Inr source, x')"
    by (auto simp: writeSource_def Let_def bindM_Inr_iff)
  from law cu have "\<exists>s0. mutateSource c cl (sourceSpecOf cl vr affinity retain prune tag) tag s0 = Inr source"
    unfolding createOrUpdate_law_def by blast
  then obtain s0 s1 where "so_setController c cl (s0\<lparr>sc_meta := (sc_meta s0)\<lparr>m_labels := (m_labels (sc_meta s0))(LabelManagedBy \<mapsto> ManagedByValue)\<rparr>\<rparr>) = Inr s1"
    "source = s1\<lparr>sc_SourcePVC := m_name (pc_meta cl), sc_Trigger := Some tag, sc_Restic := Some (sourceSpecOf cl vr affinity retain prune tag)\<rparr>"
    by (auto simp: mutateSource_def bindE_Inr_iff)
  note so = this ctl[OF this(1)]
  show ?thesis using so vr rt by (auto simp: sourceSpecOf_def)
qed

text \<open>\<open>ensureSource\<close> writes over nobody's source. While the reads change nothing of the cluster, a
  ReplicationSource that the controller did not write, or one that still carries another run's
  unfinished trigger, is left as it is, and the call fails or reports the busy source. When the call
  returns a written source, that source backs up this claim into the repository of the claim's
  VolumeRestore, with the claim's retention and the run's trigger, and is marked as the controller's.\<close>

theorem ensureSource_writes:
  assumes "\<And>ns n. keeps v (so_getVR c ns n)" "\<And>n. keeps v (so_getPV c n)" "\<And>n. keeps v (so_getNamespace c n)"
      "\<And>ns n. keeps v (so_getSource c ns n)"
    and "createOrUpdate_law c"
    and "\<And>s s'. so_setController c cl s = Inr s' \<Longrightarrow> sc_meta s' = sc_meta s"
    and "ensureSource c cl tag w = (r, w')"
  shows "(\<forall>existing. (\<forall>y. v y = v w \<longrightarrow> fst (so_getSource c (m_namespace (pc_meta cl)) (m_name (pc_meta cl)) y) = Inr existing) \<and>
            (getOr (m_labels (sc_meta existing)) LabelManagedBy \<noteq> ManagedByValue \<or> busy existing \<and> manualTag existing \<noteq> tag) \<longrightarrow>
            v w' = v w \<and> ((\<exists>e. r = Inl e) \<or> r = Inr (True, existing))) \<and>
         (\<forall>source. r = Inr (False, source) \<longrightarrow>
            sc_SourcePVC source = m_name (pc_meta cl) \<and> sc_Trigger source = Some tag \<and>
            m_labels (sc_meta source) LabelManagedBy = Some ManagedByValue \<and>
            (\<exists>spec vr w1. sc_Restic source = Some spec \<and> volumeRestoreFor (so_getVR c) cl w = (Inr vr, w1) \<and>
               rx_Repository spec = vs_Repository (vr_spec vr) \<and> Inr (rx_Retain spec) = retention cl))"
proof (rule conjI; intro allI impI)
  fix existing
  assume "(\<forall>y. v y = v w \<longrightarrow> fst (so_getSource c (m_namespace (pc_meta cl)) (m_name (pc_meta cl)) y) = Inr existing) \<and>
            (getOr (m_labels (sc_meta existing)) LabelManagedBy \<noteq> ManagedByValue \<or> busy existing \<and> manualTag existing \<noteq> tag)"
  then show "v w' = v w \<and> ((\<exists>e. r = Inl e) \<or> r = Inr (True, existing))"
    using assms(7) by (intro ensureSource_leaves[OF assms(1-4)]) auto
next
  fix source assume "r = Inr (False, source)"
  with assms(7) have "ensureSource c cl tag w = (Inr (False, source), w')" by simp
  from ensureSource_written[OF assms(5,6) this]
  show "sc_SourcePVC source = m_name (pc_meta cl) \<and> sc_Trigger source = Some tag \<and>
            m_labels (sc_meta source) LabelManagedBy = Some ManagedByValue \<and>
            (\<exists>spec vr w1. sc_Restic source = Some spec \<and> volumeRestoreFor (so_getVR c) cl w = (Inr vr, w1) \<and>
               rx_Repository spec = vs_Repository (vr_spec vr) \<and> Inr (rx_Retain spec) = retention cl)" .
qed

text \<open>An example: a bound claim \<open>data\<close> with a retention, and a cluster without a ReplicationSource.\<close>

definition boundClaimEx :: claim where
  "boundClaimEx = claim0\<lparr>pc_meta := objectMeta0\<lparr>m_namespace := ''app'', m_name := ''data'', m_annotations := [AnnotationRetainDaily \<mapsto> ''7'']\<rparr>,
     pc_volumeName := ''pv'', pc_phase := ClaimBound\<rparr>"

definition sourceVREx :: volumeRestore where
  "sourceVREx = \<lparr>vr_meta = objectMeta0, vr_spec = \<lparr>vs_Repository = ''repo'', vs_RestoreAsOf = None, vs_CacheStorageClassName = None, vs_CacheCapacity = None,
     vs_MoverPodLabels = None, vs_MoverSecurityContext = None\<rparr>, vr_status = \<lparr>vt_Conditions = [], vt_Claims = []\<rparr>\<rparr>"

definition sourceEx :: replicationSource where
  "sourceEx = \<lparr>sc_meta = objectMeta0\<lparr>m_namespace := ''app'', m_name := ''data''\<rparr>, sc_owner = None, sc_SourcePVC = [], sc_Trigger = None, sc_Restic = None, sc_Status = None\<rparr>"

definition sourceApiEx :: "nat sourceApi" where
  "sourceApiEx = \<lparr>so_listClaims = \<lambda>_. ret [boundClaimEx], so_getVR = \<lambda>_ _. ret sourceVREx, so_getPV = \<lambda>_. ret \<lparr>pv_name = ''pv'', pv_affinity = Some ''node1''\<rparr>,
     so_getNamespace = \<lambda>_. ret \<lparr>ns_meta = objectMeta0\<rparr>, so_getSource = \<lambda>_ n. failM (NotFound n),
     so_createOrUpdate = \<lambda>_ _ f w. (case f sourceEx of Inl e \<Rightarrow> (Inl e, w) | Inr s \<Rightarrow> (Inr s, w + 1)),
     so_setController = \<lambda>cl s. Inr (s\<lparr>sc_owner := Some (m_name (pc_meta cl))\<rparr>)\<rparr>"

lemma retention_ex: "retention boundClaimEx =
    Inr \<lparr>rp_Last = None, rp_Hourly = None, rp_Daily = Some 7, rp_Weekly = None, rp_Monthly = None, rp_Yearly = None, rp_Within = None\<rparr>"
  by code_simp

theorem retention_exact_witness:
  "retention boundClaimEx = Inr \<lparr>rp_Last = None, rp_Hourly = None, rp_Daily = Some 7, rp_Weekly = None, rp_Monthly = None, rp_Yearly = None, rp_Within = None\<rparr> \<and>
   list_all (goodCount boundClaimEx) countAnnotations"
  using retention_exact[of boundClaimEx] by (simp only: retention_ex sum.case simp_thms)

lemma ensureSource_ex: "\<exists>source. ensureSource sourceApiEx boundClaimEx ''backuprun-1'' 0 = (Inr (False, source), 1)"
  using retention_ex
  by (simp add: ensureSource_def replaceSource_def writeSource_def volumeRestoreFor_def volumeAffinity_def pruneIntervalFor_def namespaceAnnotations_def
      call_simps Let_def sourceApiEx_def getOr_def boundClaimEx_def claim0_def objectMeta0_def mutateSource_def)

lemma keeps_unit: "keeps (\<lambda>_. ()) m"
  by (simp add: keeps_def)

theorem ensureSource_writes_witness:
  "\<exists>source. ensureSource sourceApiEx boundClaimEx ''backuprun-1'' 0 = (Inr (False, source), 1) \<and> sc_Trigger source = Some ''backuprun-1'' \<and>
     (\<exists>spec. sc_Restic source = Some spec \<and> rx_Repository spec = ''repo'')"
proof -
  obtain source where run: "ensureSource sourceApiEx boundClaimEx ''backuprun-1'' 0 = (Inr (False, source), 1)" using ensureSource_ex by blast
  have vr: "volumeRestoreFor (so_getVR sourceApiEx) boundClaimEx = ret sourceVREx"
    by (rule ext) (simp add: volumeRestoreFor_def sourceApiEx_def call_simps Let_def)
  have law: "createOrUpdate_law sourceApiEx" by (auto simp: createOrUpdate_law_def sourceApiEx_def split: sum.splits)
  have ctl: "so_setController sourceApiEx boundClaimEx s = Inr s' \<Longrightarrow> sc_meta s' = sc_meta s" for s s'
    by (auto simp: sourceApiEx_def)
  have "sc_Trigger source = Some ''backuprun-1'' \<and> (\<exists>spec vr w1. sc_Restic source = Some spec \<and>
      volumeRestoreFor (so_getVR sourceApiEx) boundClaimEx 0 = (Inr vr, w1) \<and> rx_Repository spec = vs_Repository (vr_spec vr))"
    using ensureSource_writes[where v = "\<lambda>_. ()", OF keeps_unit keeps_unit keeps_unit keeps_unit law ctl run] by auto
  then show ?thesis using run by (auto simp: vr sourceVREx_def)
qed

end
