(* ===== verification/Cnpg.thy ===== *)
theory Cnpg
  imports Kube_Objects "HOL-Library.List_Lexorder" "HOL-Library.Char_ord"
begin

text \<open>
  CloudNativePG Clusters and their Backups, from \<open>src/internal/runs/cnpg.go\<close>. The reads and the create
  of the API server are parameters; a missing status field reads as the empty string.
\<close>

definition hibernationAnnotation :: string where "hibernationAnnotation = ''cnpg.io/hibernation''"
definition healthyPhase :: string where "healthyPhase = ''Cluster in healthy state''"

definition getCluster :: "(string \<Rightarrow> string \<Rightarrow> ('w, cluster) call) \<Rightarrow> string \<Rightarrow> string \<Rightarrow> ('w, cluster option) call" where
  "getCluster get namespace name =
     bindM (attempt (get namespace name)) (\<lambda>r. case r of
       Inl err \<Rightarrow> if IsNotFound err then ret None else failM (Wrap (''get Cluster '' @ namespace @ ''/'' @ name @ '': '') err)
     | Inr c \<Rightarrow> ret (Some c))"

definition enabledClusters :: "(string \<Rightarrow> ('w, cluster list) call) \<Rightarrow> string \<Rightarrow> ('w, cluster list) call" where
  "enabledClusters listClusters namespace =
     bindM (wrapM (''list the Clusters in '' @ namespace @ '': '') (listClusters namespace)) (\<lambda>clusters.
     ret (sort_key (\<lambda>c. m_name (cl_meta c))
       (filter (\<lambda>c. Enabled (m_annotations (cl_meta c)) \<and> m_deletion (cl_meta c) = None) clusters)))"

definition hibernated :: "cluster \<Rightarrow> bool" where
  "hibernated c = (getOr (m_annotations (cl_meta c)) hibernationAnnotation = ''on'')"

definition clusterPhase :: "cluster \<Rightarrow> string" where
  "clusterPhase c = cl_phase c"

definition backupName :: "string \<Rightarrow> string \<Rightarrow> string" where
  "backupName c uid = c @ ''-'' @ (if length uid > 8 then take 8 uid else uid)"

definition ensureBackup :: "(pgBackup \<Rightarrow> ('w, unit) call) \<Rightarrow> string \<Rightarrow> string \<Rightarrow> string \<Rightarrow> ('w, string) call" where
  "ensureBackup create namespace c uid =
     (let name = backupName c uid;
          backup = \<lparr>bk_meta = objectMeta0\<lparr>m_namespace := namespace, m_name := name, m_labels := [LabelManagedBy \<mapsto> ManagedByValue]\<rparr>,
             bk_method = ''plugin'', bk_plugin = ''barman-cloud.cloudnative-pg.io'', bk_cluster = c, bk_target = ''primary'',
             bk_phase = [], bk_backupId = [], bk_error = []\<rparr> in
      bindM (attempt (create backup)) (\<lambda>r. case r of
        Inl err \<Rightarrow> if IsAlreadyExists err then ret name else failM (Wrap (''create Backup '' @ namespace @ ''/'' @ name @ '': '') err)
      | Inr _ \<Rightarrow> ret name))"

record backupOutcome =
  bo_Done :: bool
  bo_Completed :: bool
  bo_Message :: string
  bo_BackupID :: string

definition backupResult :: "(string \<Rightarrow> string \<Rightarrow> ('w, pgBackup) call) \<Rightarrow> string \<Rightarrow> string \<Rightarrow> ('w, backupOutcome) call" where
  "backupResult get namespace name =
     bindM (wrapM (''get Backup '' @ namespace @ ''/'' @ name @ '': '') (get namespace name)) (\<lambda>b.
     if bk_phase b = ''completed'' then ret \<lparr>bo_Done = True, bo_Completed = True, bo_Message = [], bo_BackupID = bk_backupId b\<rparr>
     else if bk_phase b = ''failed'' then ret \<lparr>bo_Done = True, bo_Completed = False, bo_Message = bk_error b, bo_BackupID = []\<rparr>
     else ret \<lparr>bo_Done = False, bo_Completed = False, bo_Message = [], bo_BackupID = []\<rparr>)"

end
