(* ===== verification/Kueue.thy ===== *)
theory Kueue
  imports Kube_Objects Hoare_Calls "HOL-Library.List_Lexorder" "HOL-Library.Char_ord"
begin

text \<open>
  Admission of work through Kueue, from \<open>src/internal/admission/admission.go\<close>. The calls of the API
  server are parameters. A Workload is the record of the fields that the code writes and reads; its
  pod template is fixed (one pod that asks for one \<open>RunResource\<close>) and not part of the record.
  \<open>setCond\<close> is \<open>meta.SetStatusCondition\<close>; \<open>isTrue\<close> is \<open>meta.IsStatusConditionTrue\<close>. \<open>toLower\<close> is
  \<open>strings.ToLower\<close> on ASCII, the kinds that the callers pass.
\<close>

fun isNoQueue1 :: "gerr \<Rightarrow> bool" where
  "isNoQueue1 (NoQueueError _) = True"
| "isNoQueue1 _ = False"

definition LocalQueue :: "(string \<Rightarrow> ('w, string list) call) \<Rightarrow> string \<Rightarrow> ('w, string) call" where
  "LocalQueue listQueues namespace =
     bindM (attempt (listQueues namespace)) (\<lambda>r. case r of
       Inl err \<Rightarrow> if IsNoMatchError err \<or> IsNotFound err
                  then failM (NoQueueError ''the cluster serves no kueue.x-k8s.io/v1beta2 LocalQueue; the work waits until Kueue is installed'')
                  else failM (Wrap (''list the LocalQueues in '' @ namespace @ '': '') err)
     | Inr queues \<Rightarrow>
         if ''backups'' \<in> set queues then ret ''backups''
         else (case sort queues of
                 [] \<Rightarrow> failM (NoQueueError (''namespace '' @ namespace @ '' has no Kueue LocalQueue; the work waits until one exists''))
               | q # _ \<Rightarrow> ret q))"

definition toLowerChar :: "char \<Rightarrow> char" where
  "toLowerChar c = (if CHR ''A'' \<le> c \<and> c \<le> CHR ''Z'' then char_of (of_char c + (32::nat)) else c)"

definition workloadName :: "string \<Rightarrow> string \<Rightarrow> string" where
  "workloadName kind uid = map toLowerChar kind @ ''-'' @ uid"

definition EnsureWorkload :: "(string \<Rightarrow> string \<Rightarrow> ('w, kueueWorkload) call) \<Rightarrow> (kueueWorkload \<Rightarrow> ('w, kueueWorkload) call) \<Rightarrow>
    string \<Rightarrow> string \<Rightarrow> string \<Rightarrow> string \<Rightarrow> ('w, kueueWorkload) call" where
  "EnsureWorkload getW createW namespace name queue owner =
     bindM (attempt (getW namespace name)) (\<lambda>r. case r of
       Inr workload \<Rightarrow> ret workload
     | Inl err \<Rightarrow>
         if \<not> IsNotFound err then failM (Wrap (''get Workload '' @ namespace @ ''/'' @ name @ '': '') err)
         else
         let workload = \<lparr>kw_meta = objectMeta0\<lparr>m_namespace := namespace, m_name := name\<rparr>, kw_queue = queue, kw_owner = owner, kw_conditions = []\<rparr> in
         bindM (attempt (createW workload)) (\<lambda>r. case r of
           Inl err \<Rightarrow> if IsAlreadyExists err then ret workload else failM (Wrap (''create Workload '' @ namespace @ ''/'' @ name @ '': '') err)
         | Inr stored \<Rightarrow> ret stored))"

definition isTrue :: "condition list \<Rightarrow> string \<Rightarrow> bool" where
  "isTrue conditions t = (case find (\<lambda>c. c_type c = t) conditions of Some c \<Rightarrow> c_status c = CondTrue | None \<Rightarrow> False)"

definition Admitted :: "kueueWorkload \<Rightarrow> bool" where
  "Admitted workload = isTrue (kw_conditions workload) ''Admitted''"

definition Evicted :: "kueueWorkload \<Rightarrow> bool" where
  "Evicted workload = isTrue (kw_conditions workload) ''Evicted''"

definition MarkPodsReady :: "(condition list \<Rightarrow> condition \<Rightarrow> condition list) \<Rightarrow> (kueueWorkload \<Rightarrow> ('w, unit) call) \<Rightarrow> kueueWorkload \<Rightarrow> ('w, unit) call" where
  "MarkPodsReady setCond updateStatus workload =
     (if isTrue (kw_conditions workload) ''PodsReady'' then ret ()
      else wrapM (''mark Workload '' @ m_name (kw_meta workload) @ '' ready: '')
        (updateStatus (workload\<lparr>kw_conditions := setCond (kw_conditions workload)
           \<lparr>c_type = ''PodsReady'', c_status = CondTrue, c_reason = ''Started'', c_message = ''backup-controller started the work'', c_observedGeneration = 0\<rparr>\<rparr>)))"

definition admissionGet :: "(string \<Rightarrow> string \<Rightarrow> ('w, kueueWorkload) call) \<Rightarrow> string \<Rightarrow> string \<Rightarrow> ('w, kueueWorkload option) call" where
  "admissionGet getW namespace name =
     bindM (attempt (getW namespace name)) (\<lambda>r. case r of
       Inl err \<Rightarrow> if IsNotFound err then ret None else failM (Wrap (''get Workload '' @ name @ '': '') err)
     | Inr w \<Rightarrow> ret (Some w))"

definition admissionDelete :: "(string \<Rightarrow> string \<Rightarrow> ('w, unit) call) \<Rightarrow> string \<Rightarrow> string \<Rightarrow> string \<Rightarrow> ('w, unit) call" where
  "admissionDelete deleteW namespace kind uid =
     bindM (attempt (deleteW namespace (workloadName kind uid))) (\<lambda>r. case r of
       Inl err \<Rightarrow> if IsNotFound err then ret () else failM (Wrap (''delete Workload '' @ workloadName kind uid @ '': '') err)
     | Inr _ \<Rightarrow> ret ())"

lemma keeps_admission:
  "(\<And>ns. keeps v (lq ns)) \<Longrightarrow> keeps v (LocalQueue lq ns)"
  "(\<And>ns n. keeps v (gw ns n)) \<Longrightarrow> (\<And>x. keeps v (cw x)) \<Longrightarrow> keeps v (EnsureWorkload gw cw ns n q ow)"
  "(\<And>ns n. keeps v (gw ns n)) \<Longrightarrow> keeps v (admissionGet gw ns n)"
  "(\<And>ns n. keeps v (dw ns n)) \<Longrightarrow> keeps v (admissionDelete dw ns k u)"
  "(\<And>x. keeps v (uw x)) \<Longrightarrow> keeps v (MarkPodsReady sc uw x)"
  unfolding LocalQueue_def EnsureWorkload_def admissionGet_def admissionDelete_def MarkPodsReady_def Let_def
  by (intro keeps_intros; assumption)+

section \<open>The choice of a queue\<close>

text \<open>The queue a namespace's work goes to does not depend on the order in which the API server lists the
  queues: it is the one named \<open>backups\<close>, or else the first by name, and work waits with a
  \<open>NoQueueError\<close> exactly when there is no queue.\<close>

theorem LocalQueue_exact:
  assumes "listQueues ns w = (Inr queues, w')"
  shows "LocalQueue listQueues ns w =
    (if ''backups'' \<in> set queues then Inr ''backups''
     else if queues = [] then Inl (NoQueueError (''namespace '' @ ns @ '' has no Kueue LocalQueue; the work waits until one exists''))
     else Inr (Min (set queues)), w')"
proof (cases "sort queues")
  case Nil
  then have "queues = []" by (metis length_0_conv length_sort)
  then show ?thesis using assms by (simp add: LocalQueue_def call_simps)
next
  case (Cons q qs)
  have s: "set queues = insert q (set qs)" using Cons by (metis list.simps(15) set_sort)
  have "sorted (q # qs)" using sorted_sort[of queues] Cons by simp
  then have "q = Min (set queues)" unfolding s by (intro Min_eqI[symmetric]) auto
  moreover have "queues \<noteq> []" using Cons by auto
  ultimately show ?thesis using assms Cons by (simp add: LocalQueue_def call_simps)
qed

theorem LocalQueue_exact_witness: "LocalQueue (\<lambda>_. ret [''b'', ''a'']) ''ns'' (0::nat) = (Inr ''a'', 0)"
  using LocalQueue_exact[of "\<lambda>_. ret [''b'', ''a'']" "''ns''" "0::nat" "[''b'', ''a'']" 0]
  by (simp add: min_def less_char_def less_eq_char_def)

end
