(* ===== verification/Run_Monad.thy ===== *)
theory Run_Monad
  imports Hoare_Calls Lease Run_Settings
begin

text \<open>
  Calls of a reconciler. A pass of a reconciler works on a copy of its run in memory, which it changes
  field by field and writes to the API server now and then. The state of such a call is the pair of
  that copy and the world; a call that fails leaves the changed copy, as the Go code does.
\<close>

definition onW :: "('w, 'a) call \<Rightarrow> ('r \<times> 'w, 'a) call" where
  "onW c = (\<lambda>(r, w). case c w of (x, w') \<Rightarrow> (x, (r, w')))"

definition getS :: "('r \<times> 'w, 'r) call" where
  "getS = (\<lambda>(r, w). (Inr r, (r, w)))"

definition modS :: "('r \<Rightarrow> 'r) \<Rightarrow> ('r \<times> 'w, unit) call" where
  "modS f = (\<lambda>(r, w). (Inr (), (f r, w)))"

text \<open>A pass on a run, from the world's side.\<close>

definition runOn :: "'r \<Rightarrow> ('r \<times> 'w, 'a) call \<Rightarrow> ('w, 'a) call" where
  "runOn r c = (\<lambda>w. case c (r, w) of (x, (r', w')) \<Rightarrow> (x, w'))"

lemma getS_iff [simp]: "getS s = (x, s') \<longleftrightarrow> x = Inr (fst s) \<and> s' = s"
  by (cases s) (auto simp: getS_def)

lemma modS_iff [simp]: "modS f s = (x, s') \<longleftrightarrow> x = Inr () \<and> s' = (f (fst s), snd s)"
  by (cases s) (auto simp: modS_def)

lemma onW_iff [simp]: "onW c s = (x, s') \<longleftrightarrow> (\<exists>w'. c (snd s) = (x, w') \<and> s' = (fst s, w'))"
  by (cases s) (auto simp: onW_def split: prod.splits)

text \<open>The Leases' calls on the pair.\<close>

definition liftLease :: "'w leaseApi \<Rightarrow> ('r \<times> 'w) leaseApi" where
  "liftLease l = \<lparr>la_Create = \<lambda>ns n i. onW (la_Create l ns n i), la_Get = \<lambda>ns n. onW (la_Get l ns n),
     la_Update = \<lambda>ns n x. onW (la_Update l ns n x), la_Delete = \<lambda>ns n u v. onW (la_Delete l ns n u v),
     la_Alive = \<lambda>ns h. onW (la_Alive l ns h)\<rparr>"

section \<open>Triples of these calls\<close>

lemma hoare_getS [hoare_intros]: "(\<And>s. P s \<Longrightarrow> Q (fst s) s) \<Longrightarrow> hoare P getS Q E"
  by (rule hoareI) auto

lemma hoare_modS [hoare_intros]: "(\<And>r w. P (r, w) \<Longrightarrow> Q () (f r, w)) \<Longrightarrow> hoare P (modS f) Q E"
  by (rule hoareI) auto

lemma preserves_getS [pres_intros]: "preserves I getS"
  by (rule preservesI) simp

lemma preserves_modS: "(\<And>r w. I (r, w) \<Longrightarrow> I (f r, w)) \<Longrightarrow> preserves I (modS f)"
  by (rule preservesI) auto

lemma preserves_onW: "(\<And>r w x w'. I (r, w) \<Longrightarrow> c w = (x, w') \<Longrightarrow> I (r, w')) \<Longrightarrow> preserves I (onW c)"
  by (rule preservesI) auto

text \<open>An invariant of the run alone is kept by every call on the world.\<close>

lemma preserves_onW_run [pres_intros]: "preserves (\<lambda>s. J (fst s)) (onW c)"
  by (rule preserves_onW) simp

section \<open>Two calls that agree on a run\<close>

text \<open>\<open>agreeAt r c c' Q\<close>: started on the run \<open>r\<close> in any world, \<open>c\<close> and \<open>c'\<close> do the same, and when they
  return, the result and the run in memory satisfy \<open>Q\<close>. With \<open>c\<close> and \<open>c'\<close> the same reconciler over two
  APIs that differ in some calls, this says that it makes none of those calls. The rules execute a
  call symbolically.\<close>

definition agreeAt :: "'r \<Rightarrow> ('r \<times> 'w, 'a) call \<Rightarrow> ('r \<times> 'w, 'a) call \<Rightarrow> ('a \<Rightarrow> 'r \<Rightarrow> bool) \<Rightarrow> bool" where
  "agreeAt r c c' Q = (\<forall>w. c (r, w) = c' (r, w) \<and> (\<forall>x r' w'. c (r, w) = (Inr x, (r', w')) \<longrightarrow> Q x r'))"

named_theorems agree_intros \<open>symbolic execution of two calls\<close>

lemma agreeAtI: "(\<And>w. c (r, w) = c' (r, w)) \<Longrightarrow> (\<And>w x r' w'. c (r, w) = (Inr x, (r', w')) \<Longrightarrow> Q x r') \<Longrightarrow> agreeAt r c c' Q"
  by (simp add: agreeAt_def)

lemma agreeAt_conseq: "agreeAt r c c' R \<Longrightarrow> (\<And>x r'. R x r' \<Longrightarrow> Q x r') \<Longrightarrow> agreeAt r c c' Q"
  by (auto simp: agreeAt_def)

lemma agreeAt_ret [agree_intros]: "Q x r \<Longrightarrow> agreeAt r (ret x) (ret x) Q"
  by (simp add: agreeAt_def)

lemma agreeAt_failM [agree_intros]: "agreeAt r (failM e) (failM e) Q"
  by (simp add: agreeAt_def failM_def)

lemma agreeAt_onW: "(\<And>w x w'. c w = (Inr x, w') \<Longrightarrow> Q x r) \<Longrightarrow> agreeAt r (onW c) (onW c) Q"
  by (auto simp: agreeAt_def)

lemma agreeAt_bindM:
  assumes "agreeAt r c c' R" "\<And>x r'. R x r' \<Longrightarrow> agreeAt r' (f x) (f' x) Q"
  shows "agreeAt r (bindM c f) (bindM c' f') Q"
proof (rule agreeAtI)
  fix w
  show "bindM c f (r, w) = bindM c' f' (r, w)"
  proof -
    obtain q r1 w1 where c: "c (r, w) = (q, (r1, w1))" by (metis surj_pair)
    then have c': "c' (r, w) = (q, (r1, w1))" using assms(1) by (simp add: agreeAt_def)
    have q: "R x r1" if "q = Inr x" for x using assms(1) c that unfolding agreeAt_def by blast
    show ?thesis
    proof (cases q)
      case (Inr x)
      then show ?thesis using assms(2)[OF q[OF Inr]] c c' by (simp add: agreeAt_def bindM_def)
    qed (simp add: c c' bindM_def)
  qed
next
  fix w x r' w' assume "bindM c f (r, w) = (Inr x, (r', w'))"
  then obtain y r1 w1 where "c (r, w) = (Inr y, (r1, w1))" "f y (r1, w1) = (Inr x, (r', w'))" by (rule bindM_InrE) (metis surj_pair)
  then show "Q x r'" using assms unfolding agreeAt_def by blast
qed

lemma agreeAt_thenM: "agreeAt r c c' (\<lambda>_. R) \<Longrightarrow> (\<And>r'. R r' \<Longrightarrow> agreeAt r' d d' Q) \<Longrightarrow> agreeAt r (thenM c d) (thenM c' d') Q"
  unfolding thenM_def by (rule agreeAt_bindM)

lemma agreeAt_bind_getS [agree_intros]: "agreeAt r (f r) (f' r) Q \<Longrightarrow> agreeAt r (bindM getS f) (bindM getS f') Q"
  by (rule agreeAt_bindM[where R = "\<lambda>x r'. x = r \<and> r' = r"]) (auto simp: agreeAt_def)

lemma agreeAt_then_modS [agree_intros]: "agreeAt (g r) d d' Q \<Longrightarrow> agreeAt r (thenM (modS g) d) (thenM (modS g) d') Q"
  by (rule agreeAt_thenM[where R = "\<lambda>r'. r' = g r"]) (auto simp: agreeAt_def)

lemma agreeAt_modS [agree_intros]: "Q () (g r) \<Longrightarrow> agreeAt r (modS g) (modS g) Q"
  by (auto simp: agreeAt_def)

lemma agreeAt_bind_onW: "(\<And>w x w'. c w = (Inr x, w') \<Longrightarrow> agreeAt r (f x) (f' x) Q) \<Longrightarrow> agreeAt r (bindM (onW c) f) (bindM (onW c) f') Q"
proof (rule agreeAt_bindM[where R = "\<lambda>x r'. r' = r \<and> (\<exists>w w'. c w = (Inr x, w'))"])
  show "agreeAt r (onW c) (onW c) (\<lambda>x r'. r' = r \<and> (\<exists>w w'. c w = (Inr x, w')))" by (rule agreeAt_onW) blast
qed blast

lemma agreeAt_then_onW [agree_intros]: "agreeAt r d d' Q \<Longrightarrow> agreeAt r (thenM (onW c) d) (thenM (onW c) d') Q"
  unfolding thenM_def by (rule agreeAt_bind_onW)

lemma attempt_onW: "attempt (onW c) = onW (attempt c)"
  by (rule ext) (auto simp: attempt_def onW_def split: prod.splits)

lemma agreeAt_bind_attempt: "(\<And>x. agreeAt r (f x) (f' x) Q) \<Longrightarrow> agreeAt r (bindM (attempt (onW c)) f) (bindM (attempt (onW c)) f') Q"
  unfolding attempt_onW by (rule agreeAt_bind_onW)

lemma agreeAt_if [agree_intros]: "(b \<Longrightarrow> agreeAt r c c' Q) \<Longrightarrow> (\<not> b \<Longrightarrow> agreeAt r d d' Q) \<Longrightarrow> agreeAt r (if b then c else d) (if b then c' else d') Q"
  by simp

lemma agreeAt_forM:
  assumes "I r" "\<And>x r. x \<in> set xs \<Longrightarrow> I r \<Longrightarrow> agreeAt r (f x) (f' x) (\<lambda>_. I)"
  shows "agreeAt r (forM xs f) (forM xs f') (\<lambda>_. I)"
  using assms by (induction xs arbitrary: r) (auto intro!: agree_intros agreeAt_thenM[where R = I])

section \<open>The Leases on the pair\<close>

lemma onW_ret [simp]: "onW (ret x) = ret x"
  by (rule ext) (auto simp: onW_def ret_def)

lemma onW_failM [simp]: "onW (failM e) = failM e"
  by (rule ext) (auto simp: onW_def failM_def)

lemma onW_bindM: "onW (bindM c f) = bindM (onW c) (\<lambda>x. onW (f x))"
  by (rule ext) (auto simp: onW_def bindM_def split: prod.splits sum.splits)

lemma onW_wrapM: "onW (wrapM t c) = wrapM t (onW c)"
  by (rule ext) (auto simp: onW_def wrapM_def split: prod.splits sum.splits)

lemma onW_if: "onW (if b then c else d) = (if b then onW c else onW d)"
  by simp

lemma onW_sum: "onW (case x of Inl e \<Rightarrow> f e | Inr y \<Rightarrow> g y) = (case x of Inl e \<Rightarrow> onW (f e) | Inr y \<Rightarrow> onW (g y))"
  by (cases x) simp_all

lemma onW_option: "onW (case x of None \<Rightarrow> f | Some y \<Rightarrow> g y) = (case x of None \<Rightarrow> onW f | Some y \<Rightarrow> onW (g y))"
  by (cases x) simp_all

lemma onW_prod: "onW (case x of (a, b) \<Rightarrow> f a b) = (case x of (a, b) \<Rightarrow> onW (f a b))"
  by (cases x) simp

lemma onW_attempt: "onW (attempt c) = attempt (onW c)"
  by (simp add: attempt_onW)

lemmas onW_simps = onW_bindM onW_wrapM onW_if onW_sum onW_option onW_prod onW_attempt onW_ret onW_failM

lemma onW_Take: "onW (Take l ns name h) = Take (liftLease l) ns name h"
  by (simp only: Take_def Let_def liftLease_def leaseApi.simps onW_simps)

lemma onW_takeLoop: "onW (takeLoop l ns h names) = takeLoop (liftLease l) ns h names"
  by (induction names) (simp_all only: takeLoop.simps onW_simps onW_Take)

end
