(* ===== verification/Backup_Run.thy ===== *)
theory Backup_Run
  imports Run_Monad Pause Sources Cnpg Kueue Snapshots
begin

text \<open>
  The BackupRun reconciler, from \<open>src/internal/runs/backuprun.go\<close>: one pass reads the run, moves it one
  step further and says when to look again.

  Every call to the API server, to the repositories and to the clock is a field of the parameter
  \<open>backupApi\<close>. A status write sends the whole run and returns the new resource version; the server's
  answer repeats what was sent (the truncation of \<open>startedAt\<close> and \<open>completedAt\<close> to seconds on the wire is
  left out). A function that records the outcome in an item returns the changed item. Events and log
  lines are left out. The result of a pass is the time after which to requeue, if any.
\<close>

record 'w backupApi =
  ba_get :: "string \<Rightarrow> string \<Rightarrow> ('w, backupRun) call"
  ba_updateStatus :: "backupRun \<Rightarrow> ('w, string) call"
  ba_update :: "backupRun \<Rightarrow> ('w, string) call"
  ba_delete :: "string \<Rightarrow> string \<Rightarrow> ('w, unit) call"
  ba_getClaim :: "string \<Rightarrow> string \<Rightarrow> ('w, claim) call"
  ba_getCluster :: "string \<Rightarrow> string \<Rightarrow> ('w, cluster) call"
  ba_listClusters :: "string \<Rightarrow> ('w, cluster list) call"
  ba_getSecret :: "string \<Rightarrow> string \<Rightarrow> ('w, secret) call"
  ba_getBackup :: "string \<Rightarrow> string \<Rightarrow> ('w, pgBackup) call"
  ba_createBackup :: "pgBackup \<Rightarrow> ('w, unit) call"
  ba_listQueues :: "string \<Rightarrow> ('w, string list) call"
  ba_getWorkload :: "string \<Rightarrow> string \<Rightarrow> ('w, kueueWorkload) call"
  ba_createWorkload :: "kueueWorkload \<Rightarrow> ('w, kueueWorkload) call"
  ba_updateWorkload :: "kueueWorkload \<Rightarrow> ('w, unit) call"
  ba_deleteWorkload :: "string \<Rightarrow> string \<Rightarrow> ('w, unit) call"
  ba_sources :: "'w sourceApi"
  ba_pause :: "'w pauseApi"
  ba_leases :: "'w leaseApi"
  ba_snapshots :: "secret \<Rightarrow> ('w, snapshot list) call"
  ba_retime :: "secret \<Rightarrow> string \<Rightarrow> gtime \<Rightarrow> string list \<Rightarrow> ('w, snapshot) call"
  ba_setCond :: "condition list \<Rightarrow> condition \<Rightarrow> condition list"
  ba_Paused :: bool
  ba_Now :: "'w \<Rightarrow> gtime"

type_synonym ('w, 'a) bcall = "(backupRun \<times> 'w, 'a) call"

definition backupRunKind :: string where "backupRunKind = ''BackupRun''"

definition nowM :: "'w backupApi \<Rightarrow> ('w, gtime) bcall" where
  "nowM api = onW (\<lambda>w. (Inr (ba_Now api w), w))"

definition modStatus :: "(backupRunStatus \<Rightarrow> backupRunStatus) \<Rightarrow> ('w, unit) bcall" where
  "modStatus f = modS (\<lambda>run. run\<lparr>br_status := f (br_status run)\<rparr>)"

definition setReadyB :: "'w backupApi \<Rightarrow> condStatus \<Rightarrow> string \<Rightarrow> string \<Rightarrow> ('w, unit) bcall" where
  "setReadyB api status reason message =
     modS (\<lambda>run. run\<lparr>br_status := (br_status run)\<lparr>bt_Conditions :=
       SetReady (ba_setCond api) (bt_Conditions (br_status run)) (m_generation (br_meta run)) status reason message\<rparr>\<rparr>)"

definition writeStatus :: "'w backupApi \<Rightarrow> ('w, unit) bcall" where
  "writeStatus api =
     bindM getS (\<lambda>run.
     bindM (wrapM (''set BackupRun '' @ m_namespace (br_meta run) @ ''/'' @ m_name (br_meta run) @ '' status: '') (onW (ba_updateStatus api run))) (\<lambda>rv.
     modS (\<lambda>r. r\<lparr>br_meta := (br_meta r)\<lparr>m_resourceVersion := rv\<rparr>\<rparr>)))"

definition holderOf :: "backupRun \<Rightarrow> holder" where
  "holderOf run = \<lparr>h_Kind = backupRunKind, h_Name = m_name (br_meta run), h_UID = m_uid (br_meta run)\<rparr>"

definition waitFor :: "'w backupApi \<Rightarrow> string \<Rightarrow> string \<Rightarrow> ('w, unit) bcall" where
  "waitFor api reason message =
     thenM (modStatus (\<lambda>st. if bt_StartedAt st \<noteq> None then st\<lparr>bt_Phase := RunPhaseRunning\<rparr> else st)) (
     thenM (setReadyB api CondFalse reason message)
       (writeStatus api))"

section \<open>Questions about a run\<close>

definition anyPending :: "backupItem list \<Rightarrow> bool" where
  "anyPending items = list_ex (\<lambda>i. bi_Phase i = ItemPending) items"

definition allDone :: "backupItem list \<Rightarrow> bool" where
  "allDone items = list_all (\<lambda>i. bi_Phase i \<noteq> ItemPending \<and> bi_Phase i \<noteq> ItemRunning) items"

definition failures :: "backupItem list \<Rightarrow> string" where
  "failures items = foldl (\<lambda>message i.
     if bi_Phase i = ItemFailed then (if message \<noteq> [] then message @ ''; '' else message) @ bi_Kind i @ '' '' @ bi_Name i @ '': '' @ bi_Message i
     else message) [] items"

definition summaryOf :: "backupItem \<Rightarrow> string" where
  "summaryOf i = bi_Kind i @ '' '' @ bi_Name i @
     (if bi_Phase i = ItemSkipped then '' skipped: '' @ bi_Message i
      else if bi_Snapshot i \<noteq> [] then '' saved snapshot '' @ bi_Snapshot i
      else if bi_Empty i then '' was empty''
      else if bi_BaseBackup i \<noteq> [] then '' completed base backup '' @ bi_BaseBackup i
      else '' succeeded'')"

definition summary :: "backupItem list \<Rightarrow> string" where
  "summary items = foldl (\<lambda>message i. (if message \<noteq> [] then message @ ''; '' else message) @ summaryOf i) [] items"

definition resumed :: "backupRun \<Rightarrow> bool" where
  "resumed run = (bt_ResumedAt (br_status run) \<noteq> None \<and> list_all pw_Resumed (bt_Paused (br_status run)))"

definition databasesRunning :: "backupRun \<Rightarrow> bool" where
  "databasesRunning run = list_ex (\<lambda>i. bi_Kind i = ''Cluster'' \<and> bi_Phase i = ItemRunning) (bt_Items (br_status run))"

definition databaseFailed :: "backupRun \<Rightarrow> bool" where
  "databaseFailed run = list_ex (\<lambda>i. bi_Kind i = ''Cluster'' \<and> bi_Phase i = ItemFailed) (bt_Items (br_status run))"

definition baseBackupTags :: "backupRun \<Rightarrow> string list" where
  "baseBackupTags run = concat (map (\<lambda>i.
     if bi_Kind i \<noteq> ''Cluster'' then []
     else if bi_Phase i = ItemSucceeded \<and> bi_BaseBackupWhilePaused i then [BaseBackupTag (bi_Name i) (bi_BaseBackup i)]
     else if bi_Phase i = ItemSkipped then [HibernatedTag (bi_Name i)]
     else []) (bt_Items (br_status run)))"

definition moverFailed :: "replicationSource \<Rightarrow> bool" where
  "moverFailed source = (case sc_Status source of Some s \<Rightarrow> ss_LatestMover s = Some MoverFailed | None \<Rightarrow> False)"

definition busySourceMessage :: "replicationSource \<Rightarrow> string" where
  "busySourceMessage source =
     ''ReplicationSource '' @ m_name (sc_meta source) @ '' is still completing the backup of trigger '' @ manualTag source @
     (if moverFailed source
      then ''; its last mover failed and VolSync tries it again. Fix what the mover reports (kubectl describe replicationsource '' @ m_name (sc_meta source) @
           ''), or delete the ReplicationSource while no mover pod of it runs, and the next backup writes it again''
      else [])"

section \<open>Ending a run\<close>

definition dropFinalizer :: "'w backupApi \<Rightarrow> ('w, unit) bcall" where
  "dropFinalizer api =
     bindM getS (\<lambda>run.
     if Finalizer \<notin> set (m_finalizers (br_meta run)) then ret ()
     else
     thenM (modS (\<lambda>r. r\<lparr>br_meta := (br_meta r)\<lparr>m_finalizers := filter (\<lambda>f. f \<noteq> Finalizer) (m_finalizers (br_meta r))\<rparr>\<rparr>)) (
     bindM getS (\<lambda>r.
     bindM (wrapM (''remove the finalizer from '' @ m_name (br_meta r) @ '': '') (onW (ba_update api r))) (\<lambda>rv.
     modS (\<lambda>r. r\<lparr>br_meta := (br_meta r)\<lparr>m_resourceVersion := rv\<rparr>\<rparr>)))))"

definition resumePaused :: "'w backupApi \<Rightarrow> ('w, unit) bcall" where
  "resumePaused api =
     bindM getS (\<lambda>run.
     bindM (onW (resumeWorkloads (ba_pause api) (m_namespace (br_meta run)) (bt_Paused (br_status run)) (bt_SuspendedKustomizations (br_status run)))) (\<lambda>(paused, e).
     thenM (modStatus (\<lambda>st. st\<lparr>bt_Paused := paused\<rparr>))
       (case e of Some err \<Rightarrow> failM err | None \<Rightarrow> ret ())))"

definition markResumed :: "'w backupApi \<Rightarrow> ('w, unit) bcall" where
  "markResumed api =
     bindM (nowM api) (\<lambda>now.
     thenM (modStatus (\<lambda>st. st\<lparr>bt_ResumedAt := Some (rfc3339Copy now)\<rparr>)) (writeStatus api))"

definition release :: "'w backupApi \<Rightarrow> ('w, unit) bcall" where
  "release api =
     bindM getS (\<lambda>run.
     thenM (if bt_PausedAt (br_status run) \<noteq> None \<and> \<not> resumed run
            then thenM (if bt_ResumedAt (br_status run) = None then markResumed api else ret ()) (resumePaused api)
            else ret ()) (
     bindM getS (\<lambda>run.
     thenM (onW (releaseAll (ba_leases api) (m_namespace (br_meta run)) (holderOf run) (bt_Leases (br_status run))))
       (onW (admissionDelete (ba_deleteWorkload api) (m_namespace (br_meta run)) backupRunKind (m_uid (br_meta run)))))))"

definition finish :: "'w backupApi \<Rightarrow> string \<Rightarrow> string \<Rightarrow> ('w, unit) bcall" where
  "finish api reason message =
     thenM (release api) (
     bindM (nowM api) (\<lambda>now.
     thenM (modStatus (\<lambda>st. st\<lparr>bt_Phase := (if reason \<noteq> ReasonSucceeded then RunPhaseFailed else RunPhaseSucceeded),
                              bt_CompletedAt := Some now, bt_Workload := []\<rparr>)) (
     thenM (setReadyB api CondTrue reason message) (
     thenM (writeStatus api)
       (dropFinalizer api)))))"

definition failUnfinished :: "string \<Rightarrow> backupItem \<Rightarrow> backupItem" where
  "failUnfinished message i =
     (if bi_Phase i = ItemPending \<or> bi_Phase i = ItemRunning then i\<lparr>bi_Phase := ItemFailed, bi_Message := message\<rparr> else i)"

definition abort :: "'w backupApi \<Rightarrow> string \<Rightarrow> string \<Rightarrow> ('w, unit) bcall" where
  "abort api reason message =
     thenM (modStatus (\<lambda>st. st\<lparr>bt_Items := map (failUnfinished message) (bt_Items st)\<rparr>)) (finish api reason message)"

definition finalize :: "'w backupApi \<Rightarrow> ('w, unit) bcall" where
  "finalize api =
     bindM getS (\<lambda>run.
     if Finalizer \<notin> set (m_finalizers (br_meta run)) then ret ()
     else
     thenM (release api) (
     bindM getS (\<lambda>run.
     thenM (if bt_PausedAt (br_status run) \<noteq> None then writeStatus api else ret ())
       (dropFinalizer api))))"

definition expire :: "(string \<Rightarrow> string \<Rightarrow> ('w, unit) call) \<Rightarrow> objectMeta \<Rightarrow> int option \<Rightarrow> gtime option \<Rightarrow> gtime \<Rightarrow> ('w, duration option) call" where
  "expire delete meta ttl completed now =
     (case (ttl, completed) of
        (Some t, Some c) \<Rightarrow>
          let remaining = c + t * second - now in
          if remaining > 0 then ret (Some remaining)
          else bindM (attempt (delete (m_namespace meta) (m_name meta))) (\<lambda>r. case r of
                 Inl err \<Rightarrow> if IsNotFound err then ret None else failM (Wrap (''delete the expired '' @ m_name meta @ '': '') err)
               | Inr _ \<Rightarrow> ret None)
      | _ \<Rightarrow> ret None)"

section \<open>Planning\<close>

definition pendingItem :: "string \<Rightarrow> string \<Rightarrow> backupItem" where
  "pendingItem kind name = backupItem0\<lparr>bi_Kind := kind, bi_Name := name, bi_Phase := ItemPending\<rparr>"

definition itemsOf :: "'w backupApi \<Rightarrow> backupRun \<Rightarrow> ('w, backupItem list) call" where
  "itemsOf api run =
     (let namespace = m_namespace (br_meta run); source = bs_Source (br_spec run); database = bs_Database (br_spec run) in
      if source \<noteq> [] then
        bindM (attempt (ba_getClaim api namespace source)) (\<lambda>r. case r of
          Inl err \<Rightarrow> if IsNotFound err then failM (Plain (''no claim '' @ source @ '' in this namespace''))
                     else failM (Wrap (''get claim '' @ source @ '': '') err)
        | Inr cl \<Rightarrow>
            if \<not> Enabled (m_annotations (pc_meta cl))
            then failM (Plain (''claim '' @ m_name (pc_meta cl) @ '' is not marked '' @ AnnotationEnabled @ '': '' @ quote ''true''))
            else ret [pendingItem ''ReplicationSource'' (m_name (pc_meta cl))])
      else if database \<noteq> [] then
        bindM (getCluster (ba_getCluster api) namespace database) (\<lambda>r. case r of
          None \<Rightarrow> failM (Plain (''no Cluster '' @ database @ '' in this namespace''))
        | Some c \<Rightarrow>
            if \<not> Enabled (m_annotations (cl_meta c))
            then failM (Plain (''the Cluster '' @ m_name (cl_meta c) @ '' is not marked '' @ AnnotationEnabled @ '': '' @ quote ''true''))
            else ret [pendingItem ''Cluster'' (m_name (cl_meta c))])
      else
        bindM (enabledClaims (so_listClaims (ba_sources api)) namespace) (\<lambda>claims.
        bindM (enabledClusters (ba_listClusters api) namespace) (\<lambda>clusters.
        let items = map (\<lambda>c. pendingItem ''ReplicationSource'' (m_name (pc_meta c))) claims @
                    map (\<lambda>c. pendingItem ''Cluster'' (m_name (cl_meta c))) clusters in
        if items = [] then failM (Plain (''nothing in this namespace is marked '' @ AnnotationEnabled @ '': '' @ quote ''true''))
        else ret items)))"

definition plan :: "'w backupApi \<Rightarrow> ('w, duration option) bcall" where
  "plan api =
     bindM getS (\<lambda>run.
     bindM (attempt (onW (itemsOf api run))) (\<lambda>r. case r of
       Inl err \<Rightarrow> thenM (finish api ReasonInvalid (errText err)) (ret None)
     | Inr items \<Rightarrow>
         thenM (modStatus (\<lambda>st. st\<lparr>bt_Items := items, bt_Phase := RunPhaseQueued\<rparr>)) (
         thenM (setReadyB api CondFalse ReasonQueued queuedMessage)
           (afterM second (writeStatus api)))))"

section \<open>Admission\<close>

fun isInvalidSetting1 :: "gerr \<Rightarrow> bool" where
  "isInvalidSetting1 (InvalidSetting _) = True"
| "isInvalidSetting1 _ = False"

definition queueM :: "'w backupApi \<Rightarrow> string \<Rightarrow> ('w, bool) bcall" where
  "queueM api message =
     bindM getS (\<lambda>run.
     case setQueued (ba_setCond api) (bt_Conditions (br_status run)) (m_generation (br_meta run)) message of (conds, changed) \<Rightarrow>
       thenM (modStatus (\<lambda>st. st\<lparr>bt_Conditions := conds\<rparr>)) (ret changed))"

definition start :: "'w backupApi \<Rightarrow> ('w, duration option) bcall" where
  "start api =
     bindM (nowM api) (\<lambda>now.
     thenM (modStatus (\<lambda>st. st\<lparr>bt_Phase := RunPhaseRunning, bt_StartedAt := Some now\<rparr>)) (
     thenM (setReadyB api CondFalse ReasonRunning ''backing up'')
       (afterM second (writeStatus api))))"

definition admitted :: "'w backupApi \<Rightarrow> kueueWorkload \<Rightarrow> ('w, duration option) bcall" where
  "admitted api workload =
     (if \<not> Admitted workload then ret (Some pollInterval)
      else
      thenM (onW (MarkPodsReady (ba_setCond api) (ba_updateWorkload api) workload)) (
      bindM getS (\<lambda>run.
      bindM (attempt (onW (timeoutFor (so_getNamespace (ba_sources api)) run))) (\<lambda>r. case r of
        Inl err \<Rightarrow> if anyErr isInvalidSetting1 err then thenM (abort api ReasonInvalid (asText isInvalidSetting1 err)) (ret None) else failM err
      | Inr _ \<Rightarrow> start api))))"

definition admit :: "'w backupApi \<Rightarrow> ('w, duration option) bcall" where
  "admit api =
     bindM getS (\<lambda>run.
     let namespace = m_namespace (br_meta run) in
     bindM (attempt (onW (LocalQueue (ba_listQueues api) namespace))) (\<lambda>r. case r of
       Inl err \<Rightarrow>
         if anyErr isNoQueue1 err then
           bindM (queueM api (asText isNoQueue1 err)) (\<lambda>changed.
             if changed then afterM pollInterval (writeStatus api) else ret (Some pollInterval))
         else failM err
     | Inr queue \<Rightarrow>
         bindM (onW (EnsureWorkload (ba_getWorkload api) (ba_createWorkload api) namespace
                       (workloadName backupRunKind (m_uid (br_meta run))) queue (m_uid (br_meta run)))) (\<lambda>workload.
         bindM (queueM api queuedMessage) (\<lambda>queued.
         thenM (if bt_Workload (br_status run) \<noteq> m_name (kw_meta workload) \<or> queued
                then thenM (modStatus (\<lambda>st. st\<lparr>bt_Workload := m_name (kw_meta workload)\<rparr>)) (writeStatus api) else ret ())
           (admitted api workload)))))"

section \<open>Working\<close>

definition endIfEvicted :: "'w backupApi \<Rightarrow> ('w, bool) bcall" where
  "endIfEvicted api =
     bindM getS (\<lambda>run.
     if bt_Workload (br_status run) = [] then ret False
     else
     bindM (attempt (onW (admissionGet (ba_getWorkload api) (m_namespace (br_meta run)) (bt_Workload (br_status run))))) (\<lambda>r. case r of
       Inr (Some workload) \<Rightarrow>
         if Evicted workload then thenM (abort api ReasonEvicted ''Kueue evicted the run's Workload'') (ret True) else ret False
     | _ \<Rightarrow> ret False))"

definition overdue :: "'w backupApi \<Rightarrow> backupRun \<Rightarrow> ('w, gtime \<times> bool) call" where
  "overdue api run =
     (case bt_StartedAt (br_status run) of
        None \<Rightarrow> ret (zeroTime, False)
      | Some started \<Rightarrow>
          bindM (timeoutFor (so_getNamespace (ba_sources api)) run) (\<lambda>timeout.
          \<lambda>w. (Inr (started + timeout, \<not> ba_Now api w < started + timeout), w)))"

definition repositoryName :: "'w backupApi \<Rightarrow> string \<Rightarrow> string \<Rightarrow> ('w, string) call" where
  "repositoryName api namespace claimName =
     bindM (attempt (ba_getClaim api namespace claimName)) (\<lambda>r. case r of
       Inl err \<Rightarrow> if IsNotFound err then ret [] else failM err
     | Inr cl \<Rightarrow>
         bindM (attempt (volumeRestoreFor (so_getVR (ba_sources api)) cl)) (\<lambda>r. case r of
           Inl err \<Rightarrow> if anyErr isMissingVR1 err then ret [] else failM err
         | Inr vr \<Rightarrow> ret (vs_Repository (vr_spec vr))))"

primrec leaseNamesLoop :: "'w backupApi \<Rightarrow> string \<Rightarrow> backupItem list \<Rightarrow> string list \<Rightarrow> ('w, string list) call" where
  "leaseNamesLoop api namespace [] names = ret names"
| "leaseNamesLoop api namespace (item # items) names =
     (if bi_Kind item = ''ReplicationSource'' then
        bindM (repositoryName api namespace (bi_Name item)) (\<lambda>sec.
        leaseNamesLoop api namespace items
          (names @ [ClaimPrefix @ bi_Name item] @ (if sec \<noteq> [] then [RepositoryPrefix @ sec] else [])))
      else if bi_Kind item = ''Cluster'' then leaseNamesLoop api namespace items (names @ [ClusterPrefix @ bi_Name item])
      else leaseNamesLoop api namespace items names)"

definition leaseNames :: "'w backupApi \<Rightarrow> backupRun \<Rightarrow> ('w, string list) call" where
  "leaseNames api run =
     leaseNamesLoop api (m_namespace (br_meta run)) (bt_Items (br_status run)) (if bs_All (br_spec run) then [PauseName] else [])"

definition takeLeases :: "'w backupApi \<Rightarrow> string list \<Rightarrow> ('w, string) bcall" where
  "takeLeases api names =
     bindM getS (\<lambda>run.
     bindM (holding (liftLease (ba_leases api)) (m_namespace (br_meta run)) (holderOf run) names (bt_Leases (br_status run))
              (\<lambda>recorded. thenM (modStatus (\<lambda>st. st\<lparr>bt_Leases := recorded\<rparr>)) (writeStatus api)))
       (\<lambda>(msg, recorded). ret msg))"

text \<open>\<open>pause\<close>: the first busy source of the run's volumes, if any.\<close>

primrec busySource :: "'w backupApi \<Rightarrow> backupRun \<Rightarrow> backupItem list \<Rightarrow> ('w, replicationSource option) call" where
  "busySource api run [] = ret None"
| "busySource api run (item # items) =
     (if bi_Kind item \<noteq> ''ReplicationSource'' then busySource api run items
      else
      bindM (attempt (so_getSource (ba_sources api) (m_namespace (br_meta run)) (bi_Name item))) (\<lambda>r. case r of
        Inr source \<Rightarrow> if busy source \<and> manualTag source \<noteq> TriggerFor (m_uid (br_meta run)) then ret (Some source) else busySource api run items
      | Inl _ \<Rightarrow> busySource api run items))"

definition pauseRun :: "'w backupApi \<Rightarrow> ('w, duration option) bcall" where
  "pauseRun api =
     bindM getS (\<lambda>run.
     let namespace = m_namespace (br_meta run) in
     bindM (onW (busySource api run (bt_Items (br_status run)))) (\<lambda>b. case b of
       Some source \<Rightarrow> afterM pollInterval (waitFor api ReasonSourceBusy (busySourceMessage source))
     | None \<Rightarrow>
       bindM (onW (pauseTargets (ba_pause api) namespace)) (\<lambda>targets.
       bindM (onW (pausePlan (ba_pause api) targets)) (\<lambda>(paused, suspend).
       bindM (nowM api) (\<lambda>now.
       thenM (modStatus (\<lambda>st. st\<lparr>bt_Paused := paused, bt_SuspendedKustomizations := suspend, bt_PausedAt := Some (rfc3339Copy now),
                bt_ResumedAt := (if paused = [] then Some (rfc3339Copy now) else bt_ResumedAt st)\<rparr>)) (
       thenM (writeStatus api) (
       bindM (attempt (onW (applyPause (ba_pause api) namespace paused suspend))) (\<lambda>r. case r of
         Inl err \<Rightarrow> thenM (abort api ReasonFailed (errText err)) (ret None)
       | Inr _ \<Rightarrow> ret (Some second)))))))))"

definition failItem :: "string \<Rightarrow> backupItem \<Rightarrow> backupItem" where
  "failItem message item = item\<lparr>bi_Phase := ItemFailed, bi_Message := message\<rparr>"

definition startVolume :: "'w backupApi \<Rightarrow> backupRun \<Rightarrow> backupItem \<Rightarrow> ('w, backupItem) call" where
  "startVolume api run item =
     bindM (attempt (ba_getClaim api (m_namespace (br_meta run)) (bi_Name item))) (\<lambda>r. case r of
       Inl err \<Rightarrow> ret (failItem (''get claim '' @ bi_Name item @ '': '' @ errText err) item)
     | Inr cl \<Rightarrow>
         let tag = TriggerFor (m_uid (br_meta run)) in
         bindM (attempt (ensureSource (ba_sources api) cl tag)) (\<lambda>r. case r of
           Inl err \<Rightarrow> ret (failItem (errText err) item)
         | Inr (isBusy, source) \<Rightarrow>
             if isBusy then ret (failItem (busySourceMessage source) item)
             else ret (item\<lparr>bi_Phase := ItemRunning, bi_Trigger := tag\<rparr>)))"

definition startDatabase :: "'w backupApi \<Rightarrow> backupRun \<Rightarrow> backupItem \<Rightarrow> ('w, backupItem) call" where
  "startDatabase api run item =
     bindM (attempt (getCluster (ba_getCluster api) (m_namespace (br_meta run)) (bi_Name item))) (\<lambda>r. case r of
       Inl err \<Rightarrow> ret (failItem (errText err) item)
     | Inr None \<Rightarrow> ret (failItem (''the Cluster '' @ bi_Name item @ '' no longer exists'') item)
     | Inr (Some c) \<Rightarrow>
         if hibernated c
         then ret (item\<lparr>bi_Phase := ItemSkipped, bi_Message := ''the Cluster is hibernated; CloudNativePG fails a Backup of a hibernated Cluster''\<rparr>)
         else
         bindM (attempt (ensureBackup (ba_createBackup api) (m_namespace (br_meta run)) (bi_Name item) (m_uid (br_meta run)))) (\<lambda>r. case r of
           Inl err \<Rightarrow> ret (failItem (errText err) item)
         | Inr name \<Rightarrow> ret (item\<lparr>bi_Phase := ItemRunning, bi_Backup := name\<rparr>)))"

definition startItem :: "'w backupApi \<Rightarrow> backupRun \<Rightarrow> backupItem \<Rightarrow> ('w, backupItem) call" where
  "startItem api run item =
     (if bi_Kind item = ''ReplicationSource'' then startVolume api run item
      else if bi_Kind item = ''Cluster'' then startDatabase api run item
      else ret item)"

primrec clonesCutLoop :: "'w backupApi \<Rightarrow> backupRun \<Rightarrow> backupItem list \<Rightarrow> ('w, bool) call" where
  "clonesCutLoop api run [] = ret True"
| "clonesCutLoop api run (item # items) =
     (let namespace = m_namespace (br_meta run) in
      if bi_Kind item \<noteq> ''ReplicationSource'' then clonesCutLoop api run items
      else if bi_Phase item = ItemPending then ret False
      else if bi_Phase item \<noteq> ItemRunning then clonesCutLoop api run items
      else
      bindM (attempt (so_getSource (ba_sources api) namespace (bi_Name item))) (\<lambda>r.
      if (case r of Inr source \<Rightarrow> lastManual source = bi_Trigger item | Inl _ \<Rightarrow> False) then clonesCutLoop api run items
      else
      bindM (attempt (ba_getClaim api namespace (''volsync-'' @ bi_Name item @ ''-src''))) (\<lambda>r. case r of
        Inl _ \<Rightarrow> ret False
      | Inr clone \<Rightarrow>
          if pc_phase clone \<noteq> ClaimBound then ret False
          else if (case bt_PausedAt (br_status run) of Some p \<Rightarrow> m_creation (pc_meta clone) < p | None \<Rightarrow> False) then ret False
          else clonesCutLoop api run items)))"

definition clonesCut :: "'w backupApi \<Rightarrow> backupRun \<Rightarrow> ('w, bool) call" where
  "clonesCut api run = clonesCutLoop api run (bt_Items (br_status run))"

definition resumeRun :: "'w backupApi \<Rightarrow> ('w, unit) bcall" where
  "resumeRun api =
     bindM getS (\<lambda>run.
     bindM (if bt_ResumedAt (br_status run) = None
            then bindM (onW (clonesCut api run)) (\<lambda>cut. ret (cut \<and> \<not> databasesRunning run)) else ret True) (\<lambda>ready.
     if \<not> ready then ret ()
     else
     thenM (if bt_ResumedAt (br_status run) = None then markResumed api else ret ()) (
     bindM getS (\<lambda>run. if resumed run then ret () else resumePaused api))))"

definition repositorySecret :: "'w backupApi \<Rightarrow> string \<Rightarrow> string \<Rightarrow> ('w, secret) call" where
  "repositorySecret api namespace claimName =
     bindM (wrapM (''get claim '' @ claimName @ '': '') (ba_getClaim api namespace claimName)) (\<lambda>cl.
     bindM (volumeRestoreFor (so_getVR (ba_sources api)) cl) (\<lambda>vr.
     wrapM (''get Secret '' @ vs_Repository (vr_spec vr) @ '': '') (ba_getSecret api namespace (vs_Repository (vr_spec vr)))))"

definition succeedWith :: "snapshot \<Rightarrow> backupItem \<Rightarrow> backupItem" where
  "succeedWith s item = item\<lparr>bi_Phase := ItemSucceeded, bi_Message := [], bi_Snapshot := ShortID s, bi_SnapshotID := sn_ID s, bi_SnapshotTime := Some (sn_Time s)\<rparr>"

text \<open>Following a nil pointer panics; controller-runtime recovers and the pass returns an error.\<close>

definition nilPanic :: gerr where
  "nilPanic = Plain ''runtime error: invalid memory address or nil pointer dereference''"

text \<open>The snapshot that a completed sync wrote, recorded for the move or as the item's result.\<close>

definition collectSnapshot :: "'w backupApi \<Rightarrow> secret \<Rightarrow> bool \<Rightarrow> gtime \<Rightarrow> gtime \<Rightarrow> duration \<Rightarrow> backupItem \<Rightarrow> ('w, backupItem) call" where
  "collectSnapshot api sec move resumedAt syncTime syncDuration item =
     bindM (attempt (ba_snapshots api sec)) (\<lambda>r. case r of
       Inl err \<Rightarrow> ret (item\<lparr>bi_Message := ''list the snapshots: '' @ errText err\<rparr>)
     | Inr snapshots \<Rightarrow>
         (case SyncedSnapshot snapshots syncTime syncDuration of
            None \<Rightarrow> ret (item\<lparr>bi_Phase := ItemSucceeded, bi_Empty := True, bi_Message := ''the volume held no files, so VolSync took no snapshot''\<rparr>)
          | Some s \<Rightarrow>
              if \<not> move then ret (succeedWith s item)
              else ret (item\<lparr>bi_SnapshotID := sn_ID s,
                     bi_Message := ''snapshot '' @ ShortID s @ '' is saved and waits to be moved to '' @ formatRFC3339 resumedAt\<rparr>)))"

definition moveSnapshot :: "'w backupApi \<Rightarrow> secret \<Rightarrow> backupRun \<Rightarrow> gtime \<Rightarrow> backupItem \<Rightarrow> ('w, backupItem) call" where
  "moveSnapshot api sec run resumedAt item =
     bindM (attempt (ba_retime api sec (bi_SnapshotID item) resumedAt (PausedTag # baseBackupTags run))) (\<lambda>r. case r of
       Inl err \<Rightarrow> ret (item\<lparr>bi_Message := ''snapshot '' @ ShortID (snapshot0\<lparr>sn_ID := bi_SnapshotID item\<rparr>) @ '' is saved and waits to be moved to '' @
                     formatRFC3339 resumedAt @ '' and tagged '' @ PausedTag @ '': '' @ errText err\<rparr>)
     | Inr moved \<Rightarrow> ret (succeedWith moved item))"

definition collectSynced :: "'w backupApi \<Rightarrow> backupRun \<Rightarrow> gtime \<Rightarrow> duration \<Rightarrow> backupItem \<Rightarrow> ('w, backupItem) call" where
  "collectSynced api run syncTime syncDuration item =
     (let retimed = bs_All (br_spec run) \<and> bt_Paused (br_status run) \<noteq> [] in
      if retimed \<and> bt_ResumedAt (br_status run) = None
      then ret (item\<lparr>bi_Message := ''the snapshot is saved and waits for the app to be resumed, to be moved to that moment''\<rparr>)
      else
      bindM (attempt (repositorySecret api (m_namespace (br_meta run)) (bi_Name item))) (\<lambda>r. case r of
        Inl err \<Rightarrow> ret (item\<lparr>bi_Message := errText err\<rparr>)
      | Inr sec \<Rightarrow>
          let move = retimed \<and> \<not> databaseFailed run; resumedAt = (case bt_ResumedAt (br_status run) of Some t \<Rightarrow> t | None \<Rightarrow> zeroTime) in
          if bi_SnapshotID item = [] then collectSnapshot api sec move resumedAt syncTime syncDuration item
          else if bt_ResumedAt (br_status run) = None then failM nilPanic
          else moveSnapshot api sec run resumedAt item))"

definition collectVolume :: "'w backupApi \<Rightarrow> backupRun \<Rightarrow> backupItem \<Rightarrow> ('w, backupItem) call" where
  "collectVolume api run item =
     bindM (attempt (so_getSource (ba_sources api) (m_namespace (br_meta run)) (bi_Name item))) (\<lambda>r. case r of
       Inl err \<Rightarrow> ret (item\<lparr>bi_Message := ''read ReplicationSource '' @ bi_Name item @ '': '' @ errText err\<rparr>)
     | Inr source \<Rightarrow>
         if lastManual source \<noteq> bi_Trigger item then
           (if moverFailed source
            then ret (failItem (''VolSync's mover failed to back up the volume, and VolSync tries it again; see kubectl describe replicationsource '' @ bi_Name item) item)
            else ret item)
         else
         (case sc_Status source of
            Some st \<Rightarrow>
              (case (ss_LastSyncTime st, ss_LastSyncDuration st) of
                 (Some syncTime, Some syncDuration) \<Rightarrow> collectSynced api run syncTime syncDuration item
               | _ \<Rightarrow> ret (item\<lparr>bi_Message := ''VolSync completed the sync but recorded no sync time''\<rparr>))
          | None \<Rightarrow> failM nilPanic))"

definition collectDatabase :: "'w backupApi \<Rightarrow> backupRun \<Rightarrow> backupItem \<Rightarrow> ('w, backupItem) call" where
  "collectDatabase api run item =
     bindM (attempt (backupResult (ba_getBackup api) (m_namespace (br_meta run)) (bi_Backup item))) (\<lambda>r. case r of
       Inl _ \<Rightarrow> ret item
     | Inr outcome \<Rightarrow>
         if \<not> bo_Done outcome then ret item
         else if bo_Completed outcome then
           ret (item\<lparr>bi_Phase := ItemSucceeded, bi_BaseBackup := bo_BackupID outcome,
             bi_BaseBackupWhilePaused := (bs_All (br_spec run) \<and> bt_Paused (br_status run) \<noteq> [] \<and> bt_ResumedAt (br_status run) = None \<and> bo_BackupID outcome \<noteq> [])\<rparr>)
         else ret (failItem (bo_Message outcome) item))"

definition collectItem :: "'w backupApi \<Rightarrow> backupRun \<Rightarrow> backupItem \<Rightarrow> ('w, backupItem) call" where
  "collectItem api run item =
     (if bi_Kind item = ''ReplicationSource'' then collectVolume api run item
      else if bi_Kind item = ''Cluster'' then collectDatabase api run item
      else ret item)"

text \<open>A loop over the items of the run in memory: the items in the given phase are handed to the
  function with the run as the earlier iterations left it.\<close>

definition setItem :: "nat \<Rightarrow> backupItem \<Rightarrow> backupRunStatus \<Rightarrow> backupRunStatus" where
  "setItem i item st = st\<lparr>bt_Items := (bt_Items st)[i := item]\<rparr>"

definition eachItem :: "itemPhase \<Rightarrow> (backupRun \<Rightarrow> backupItem \<Rightarrow> ('w, backupItem) call) \<Rightarrow> nat \<Rightarrow> ('w, unit) bcall" where
  "eachItem phase f i =
     bindM getS (\<lambda>run.
     let item = bt_Items (br_status run) ! i in
     if bi_Phase item = phase then bindM (onW (f run item)) (\<lambda>item'. modStatus (setItem i item')) else ret ())"

definition forItems :: "itemPhase \<Rightarrow> (backupRun \<Rightarrow> backupItem \<Rightarrow> ('w, backupItem) call) \<Rightarrow> ('w, unit) bcall" where
  "forItems phase f = bindM getS (\<lambda>run. forM [0..<length (bt_Items (br_status run))] (eachItem phase f))"

definition conclude :: "'w backupApi \<Rightarrow> ('w, duration option) bcall" where
  "conclude api =
     bindM getS (\<lambda>run.
     let items = bt_Items (br_status run) in
     if allDone items \<and> (\<not> bs_All (br_spec run) \<or> resumed run) then
       (if failures items \<noteq> [] then thenM (finish api ReasonFailed (failures items)) (ret None)
        else thenM (finish api ReasonSucceeded (summary items)) (ret None))
     else
     thenM (modStatus (\<lambda>st. st\<lparr>bt_Phase := RunPhaseRunning\<rparr>)) (
     thenM (setReadyB api CondFalse ReasonRunning ''backing up'')
       (afterM (if bs_All (br_spec run) \<and> bt_ResumedAt (br_status run) = None then 2 * second else pollInterval) (writeStatus api))))"

definition workItems :: "'w backupApi \<Rightarrow> ('w, duration option) bcall" where
  "workItems api =
     thenM (forItems ItemPending (startItem api)) (
     bindM getS (\<lambda>run.
     thenM (if bs_All (br_spec run) \<and> bt_PausedAt (br_status run) \<noteq> None then resumeRun api else ret ()) (
     thenM (forItems ItemRunning (collectItem api))
       (conclude api))))"

text \<open>Between the pause and the first item: apply the recorded pause again and wait for the pods.\<close>

definition workPaused :: "'w backupApi \<Rightarrow> ('w, duration option) bcall" where
  "workPaused api =
     bindM getS (\<lambda>run.
     let st = br_status run; namespace = m_namespace (br_meta run) in
     if bs_All (br_spec run) \<and> bt_ResumedAt st = None \<and> anyPending (bt_Items st) then
       bindM (attempt (onW (applyPause (ba_pause api) namespace (bt_Paused st) (bt_SuspendedKustomizations st)))) (\<lambda>r. case r of
         Inl err \<Rightarrow> thenM (abort api ReasonFailed (errText err)) (ret None)
       | Inr _ \<Rightarrow>
           bindM (onW (pausedPodsGone (ba_pause api) namespace (bt_Paused st))) (\<lambda>(gone, pod).
           if \<not> gone
           then afterM (2 * second) (waitFor api ReasonRunning (''waiting for pod '' @ pod @ '' of the paused app to stop before the backup starts''))
           else workItems api))
     else workItems api)"

definition work :: "'w backupApi \<Rightarrow> ('w, duration option) bcall" where
  "work api =
     bindM (endIfEvicted api) (\<lambda>ended.
     if ended then ret None
     else
     bindM getS (\<lambda>run.
     bindM (attempt (onW (overdue api run))) (\<lambda>r. case r of
       Inl err \<Rightarrow> if anyErr isInvalidSetting1 err then thenM (abort api ReasonInvalid (asText isInvalidSetting1 err)) (ret None) else failM err
     | Inr (deadline, over) \<Rightarrow>
       if over then thenM (abort api ReasonTimedOut (''the run had not finished by '' @ formatRFC3339 deadline)) (ret None)
       else
       bindM (onW (leaseNames api run)) (\<lambda>names.
       bindM (takeLeases api names) (\<lambda>busyMsg.
       if busyMsg \<noteq> [] then afterM pollInterval (waitFor api ReasonBusy busyMsg)
       else
       bindM getS (\<lambda>run.
       if bs_All (br_spec run) \<and> bt_PausedAt (br_status run) = None then pauseRun api
       else workPaused api))))))"

section \<open>A pass\<close>

definition addFinalizer :: "'w backupApi \<Rightarrow> ('w, unit) bcall" where
  "addFinalizer api =
     bindM getS (\<lambda>run.
     if Finalizer \<in> set (m_finalizers (br_meta run)) then ret ()
     else
     thenM (modS (\<lambda>r. r\<lparr>br_meta := (br_meta r)\<lparr>m_finalizers := m_finalizers (br_meta r) @ [Finalizer]\<rparr>\<rparr>)) (
     bindM getS (\<lambda>r.
     bindM (wrapM (''add the finalizer to BackupRun '' @ m_namespace (br_meta r) @ ''/'' @ m_name (br_meta r) @ '': '') (onW (ba_update api r))) (\<lambda>rv.
     modS (\<lambda>r. r\<lparr>br_meta := (br_meta r)\<lparr>m_resourceVersion := rv\<rparr>\<rparr>)))))"

definition stage :: "'w backupApi \<Rightarrow> ('w, duration option) bcall" where
  "stage api =
     bindM getS (\<lambda>run.
     if ba_Paused api \<and> bt_StartedAt (br_status run) = None
     then afterM pollInterval (waitFor api ReasonControllerPaused ''the controller runs with --pause; the run starts once the pause ends'')
     else if bt_Phase (br_status run) = RunPhaseNone then plan api
     else if bt_StartedAt (br_status run) = None then admit api
     else work api)"

definition pass :: "'w backupApi \<Rightarrow> ('w, duration option) bcall" where
  "pass api =
     bindM getS (\<lambda>run.
     if m_deletion (br_meta run) \<noteq> None then thenM (finalize api) (ret None)
     else if Finished (bt_Phase (br_status run))
     then bindM (nowM api) (\<lambda>now. onW (expire (ba_delete api) (br_meta run) (bs_TTLSecondsAfterFinished (br_spec run)) (bt_CompletedAt (br_status run)) now))
     else thenM (addFinalizer api) (stage api))"

definition Reconcile :: "'w backupApi \<Rightarrow> string \<Rightarrow> string \<Rightarrow> ('w, duration option) call" where
  "Reconcile api namespace name =
     bindM (attempt (ba_get api namespace name)) (\<lambda>r. case r of
       Inl err \<Rightarrow> if IsNotFound err then ret None else failM err
     | Inr run \<Rightarrow> runOn run (pass api))"

end
