(* ===== verification/Backup_Run_Inv.thy ===== *)
theory Backup_Run_Inv
  imports Backup_Run
begin

text \<open>
  What every pass of the BackupRun reconciler keeps: an invariant of the status it writes
  (\<open>runInv\<close>), that a run only advances (\<open>advance\<close>), that an item is started only once the paused
  app's pods are gone, and that a snapshot is moved only by an ID and to a moment that an earlier pass
  wrote. The theorems compare the reconciler over an API server with the same reconciler over a server
  that answers any call outside these bounds in some other way: the two passes are equal.
\<close>

section \<open>The invariant\<close>

definition timesInv :: "backupRun \<Rightarrow> bool" where
  "timesInv run = (let st = br_status run in
     (bt_Phase st = RunPhaseNone \<longrightarrow> bt_Items st = [] \<and> bt_StartedAt st = None) \<and>
     (bt_StartedAt st = None \<longrightarrow> bt_PausedAt st = None) \<and>
     (bt_PausedAt st \<noteq> None \<longrightarrow> bs_All (br_spec run)) \<and>
     (bt_PausedAt st = None \<longrightarrow> bt_Paused st = [] \<and> bt_SuspendedKustomizations st = [] \<and> bt_ResumedAt st = None) \<and>
     (bt_PausedAt st \<noteq> None \<and> bt_Paused st = [] \<longrightarrow> bt_ResumedAt st \<noteq> None) \<and>
     (bt_ResumedAt st = None \<longrightarrow> (\<forall>p \<in> set (bt_Paused st). \<not> pw_Resumed p)))"

definition endInv :: "backupRun \<Rightarrow> bool" where
  "endInv run = (let st = br_status run in
     (Finished (bt_Phase st) \<longrightarrow> allDone (bt_Items st) \<and> bt_CompletedAt st \<noteq> None \<and> bt_Workload st = [] \<and>
        (bt_PausedAt st = None \<or> resumed run)) \<and>
     (bt_Phase st = RunPhaseSucceeded \<longrightarrow> (\<forall>i \<in> set (bt_Items st). bi_Phase i \<noteq> ItemFailed)))"

definition orderInv :: "backupRun \<Rightarrow> bool" where
  "orderInv run = (let st = br_status run in
     (bs_All (br_spec run) \<and> bt_PausedAt st = None \<longrightarrow> (\<forall>i \<in> set (bt_Items st). bi_Phase i = ItemPending \<or> bi_Phase i = ItemFailed)) \<and>
     (m_deletion (br_meta run) = None \<and> bt_Paused st \<noteq> [] \<and> bt_ResumedAt st \<noteq> None \<longrightarrow>
        (\<forall>i \<in> set (bt_Items st). bi_Phase i \<noteq> ItemPending \<and> (bi_Kind i = ''Cluster'' \<longrightarrow> bi_Phase i \<noteq> ItemRunning))))"

definition itemInv :: "backupRun \<Rightarrow> backupItem \<Rightarrow> bool" where
  "itemInv run i = (let st = br_status run in
     (bi_Kind i = ''ReplicationSource'' \<or> bi_Kind i = ''Cluster'') \<and>
     (bi_Kind i = ''ReplicationSource'' \<and> bi_Phase i = ItemRunning \<longrightarrow> bi_Trigger i = TriggerFor (m_uid (br_meta run))) \<and>
     (bi_Phase i = ItemPending \<longrightarrow> bi_SnapshotID i = []) \<and>
     (bi_Kind i = ''ReplicationSource'' \<and> bi_Phase i = ItemRunning \<and> bi_SnapshotID i \<noteq> [] \<longrightarrow>
        bt_Paused st \<noteq> [] \<and> bt_ResumedAt st \<noteq> None \<and> \<not> databaseFailed run) \<and>
     (bi_BaseBackupWhilePaused i \<longrightarrow> bi_Phase i = ItemSucceeded \<and> bt_Paused st \<noteq> [] \<and> bi_BaseBackup i \<noteq> []))"

definition runInv :: "backupRun \<Rightarrow> bool" where
  "runInv run = (timesInv run \<and> endInv run \<and> orderInv run \<and> (\<forall>i \<in> set (bt_Items (br_status run)). itemInv run i))"

section \<open>What a pass never takes back\<close>

definition itemDone :: "backupItem \<Rightarrow> bool" where
  "itemDone i = (bi_Phase i \<noteq> ItemPending \<and> bi_Phase i \<noteq> ItemRunning)"

definition itemStep :: "backupItem \<Rightarrow> backupItem \<Rightarrow> bool" where
  "itemStep i j = (bi_Kind j = bi_Kind i \<and> bi_Name j = bi_Name i \<and>
     (bi_Phase j = ItemPending \<longrightarrow> bi_Phase i = ItemPending) \<and> (itemDone i \<longrightarrow> j = i))"

definition workloadStep :: "pausedWorkload \<Rightarrow> pausedWorkload \<Rightarrow> bool" where
  "workloadStep p q = (q = p \<or> q = p\<lparr>pw_Resumed := True\<rparr>)"

fun phaseRank :: "runPhase \<Rightarrow> nat" where
  "phaseRank RunPhaseNone = 0"
| "phaseRank RunPhaseQueued = 1"
| "phaseRank RunPhaseRunning = 2"
| "phaseRank _ = 3"

definition keptOnce :: "'a option \<Rightarrow> 'a option \<Rightarrow> bool" where
  "keptOnce a b = (a \<noteq> None \<longrightarrow> b = a)"

definition sameObject :: "objectMeta \<Rightarrow> objectMeta \<Rightarrow> bool" where
  "sameObject m m' = (m_namespace m' = m_namespace m \<and> m_name m' = m_name m \<and> m_uid m' = m_uid m \<and>
     m_generation m' = m_generation m \<and> m_annotations m' = m_annotations m \<and> m_labels m' = m_labels m \<and>
     m_creation m' = m_creation m \<and> m_deletion m' = m_deletion m)"

definition statusAdvance :: "backupRunStatus \<Rightarrow> backupRunStatus \<Rightarrow> bool" where
  "statusAdvance st st' =
     (phaseRank (bt_Phase st) \<le> phaseRank (bt_Phase st') \<and> (Finished (bt_Phase st) \<longrightarrow> bt_Phase st' = bt_Phase st) \<and>
      keptOnce (bt_StartedAt st) (bt_StartedAt st') \<and> keptOnce (bt_PausedAt st) (bt_PausedAt st') \<and>
      keptOnce (bt_ResumedAt st) (bt_ResumedAt st') \<and>
      (bt_PausedAt st \<noteq> None \<longrightarrow> list_all2 workloadStep (bt_Paused st) (bt_Paused st') \<and>
         bt_SuspendedKustomizations st' = bt_SuspendedKustomizations st) \<and>
      (bt_Phase st \<noteq> RunPhaseNone \<longrightarrow> list_all2 itemStep (bt_Items st) (bt_Items st')) \<and>
      set (bt_Leases st) \<subseteq> set (bt_Leases st'))"

definition advance :: "backupRun \<Rightarrow> backupRun \<Rightarrow> bool" where
  "advance r r' = (br_spec r' = br_spec r \<and> sameObject (br_meta r) (br_meta r') \<and> statusAdvance (br_status r) (br_status r'))"

lemma itemStep_refl [simp]: "itemStep i i"
  by (simp add: itemStep_def)

lemma itemStep_trans: "itemStep i j \<Longrightarrow> itemStep j k \<Longrightarrow> itemStep i k"
  by (cases "itemDone i") (simp_all add: itemStep_def)

lemma workloadStep_refl [simp]: "workloadStep p p"
  by (simp add: workloadStep_def)

lemma workloadStep_trans: "workloadStep p q \<Longrightarrow> workloadStep q s \<Longrightarrow> workloadStep p s"
  unfolding workloadStep_def by (elim disjE) simp_all

lemma list_all2_refl1: "(\<And>x. P x x) \<Longrightarrow> list_all2 P xs xs"
  by (rule list.rel_refl)

lemma sameObject_refl [simp]: "sameObject m m"
  by (simp add: sameObject_def)

lemma sameObject_trans: "sameObject a b \<Longrightarrow> sameObject b c \<Longrightarrow> sameObject a c"
  by (simp add: sameObject_def)

lemma statusAdvance_refl [simp]: "statusAdvance st st"
  by (simp add: statusAdvance_def keptOnce_def list_all2_refl1)

lemma phaseRank_0: "phaseRank p = 0 \<longleftrightarrow> p = RunPhaseNone"
  by (cases p) auto

lemma statusAdvance_trans:
  assumes "statusAdvance a b" "statusAdvance b c"
  shows "statusAdvance a c"
proof -
  have b: "bt_Phase a \<noteq> RunPhaseNone \<Longrightarrow> bt_Phase b \<noteq> RunPhaseNone"
    using assms(1) phaseRank_0[of "bt_Phase a"] phaseRank_0[of "bt_Phase b"] by (simp add: statusAdvance_def)
  have i: "list_all2 itemStep xs ys \<Longrightarrow> list_all2 itemStep ys zs \<Longrightarrow> list_all2 itemStep xs zs" for xs ys zs
    by (rule list_all2_trans[OF itemStep_trans])
  have w: "list_all2 workloadStep xs ys \<Longrightarrow> list_all2 workloadStep ys zs \<Longrightarrow> list_all2 workloadStep xs zs" for xs ys zs
    by (rule list_all2_trans[OF workloadStep_trans])
  have k: "keptOnce x y \<Longrightarrow> keptOnce y z \<Longrightarrow> keptOnce x z" for x y z :: "gtime option" by (simp add: keptOnce_def)
  have p: "bt_PausedAt a \<noteq> None \<Longrightarrow> bt_PausedAt b \<noteq> None" using assms(1) by (simp add: statusAdvance_def keptOnce_def)
  show ?thesis unfolding statusAdvance_def
    using assms(1)[unfolded statusAdvance_def] assms(2)[unfolded statusAdvance_def]
    by (intro conjI impI) (use b p in \<open>(simp; fail) | meson i w k le_trans subset_trans\<close>)+
qed

lemma advance_refl [simp]: "advance r r"
  by (simp add: advance_def)

lemma advance_trans: "advance a b \<Longrightarrow> advance b c \<Longrightarrow> advance a c"
  unfolding advance_def using sameObject_trans statusAdvance_trans by (metis (full_types))

section \<open>Changes of a run in memory\<close>

text \<open>\<open>ok r0 r\<close>: the run in memory, which a pass read as \<open>r0\<close>, may be written.\<close>

definition ok :: "backupRun \<Rightarrow> backupRun \<Rightarrow> bool" where
  "ok r0 r = (runInv r \<and> advance r0 r)"

lemma ok_step: "ok r0 r \<Longrightarrow> runInv r' \<Longrightarrow> advance r r' \<Longrightarrow> ok r0 r'"
  unfolding ok_def using advance_trans by blast

lemmas run_defs = timesInv_def endInv_def orderInv_def itemInv_def resumed_def databaseFailed_def Let_def

lemma timesInv_cong:
  assumes "br_spec r' = br_spec r" "bt_Phase (br_status r') = bt_Phase (br_status r)" "bt_Items (br_status r') = bt_Items (br_status r)"
    and "bt_StartedAt (br_status r') = bt_StartedAt (br_status r)" "bt_PausedAt (br_status r') = bt_PausedAt (br_status r)"
    and "bt_Paused (br_status r') = bt_Paused (br_status r)" "bt_ResumedAt (br_status r') = bt_ResumedAt (br_status r)"
    and "bt_SuspendedKustomizations (br_status r') = bt_SuspendedKustomizations (br_status r)"
  shows "timesInv r' = timesInv r"
  by (simp only: timesInv_def assms Let_def)

lemma endInv_cong:
  assumes "bt_Phase (br_status r') = bt_Phase (br_status r)" "bt_Items (br_status r') = bt_Items (br_status r)"
    and "bt_CompletedAt (br_status r') = bt_CompletedAt (br_status r)" "bt_PausedAt (br_status r') = bt_PausedAt (br_status r)"
    and "bt_Paused (br_status r') = bt_Paused (br_status r)" "bt_ResumedAt (br_status r') = bt_ResumedAt (br_status r)"
    and "bt_Workload (br_status r') = bt_Workload (br_status r)"
  shows "endInv r' = endInv r"
  by (simp only: endInv_def resumed_def assms Let_def)

lemma orderInv_cong:
  assumes "br_spec r' = br_spec r" "bt_Items (br_status r') = bt_Items (br_status r)"
    and "bt_PausedAt (br_status r') = bt_PausedAt (br_status r)" "m_deletion (br_meta r') = m_deletion (br_meta r)"
    and "bt_Paused (br_status r') = bt_Paused (br_status r)" "bt_ResumedAt (br_status r') = bt_ResumedAt (br_status r)"
  shows "orderInv r' = orderInv r"
  by (simp only: orderInv_def assms Let_def)

lemma itemInv_cong:
  assumes "bt_Items (br_status r') = bt_Items (br_status r)" "m_uid (br_meta r') = m_uid (br_meta r)"
    and "bt_Paused (br_status r') = bt_Paused (br_status r)" "bt_ResumedAt (br_status r') = bt_ResumedAt (br_status r)"
  shows "itemInv r' = itemInv r"
  by (rule ext) (simp only: itemInv_def databaseFailed_def assms Let_def)

lemmas inv_cong = timesInv_cong endInv_cong orderInv_cong itemInv_cong

lemma runInv_cong:
  assumes "m_uid (br_meta r') = m_uid (br_meta r)" "m_deletion (br_meta r') = m_deletion (br_meta r)" "br_spec r' = br_spec r"
    and "bt_Phase (br_status r') = bt_Phase (br_status r)" "bt_Items (br_status r') = bt_Items (br_status r)"
    and "bt_StartedAt (br_status r') = bt_StartedAt (br_status r)" "bt_PausedAt (br_status r') = bt_PausedAt (br_status r)"
    and "bt_Paused (br_status r') = bt_Paused (br_status r)" "bt_ResumedAt (br_status r') = bt_ResumedAt (br_status r)"
    and "bt_SuspendedKustomizations (br_status r') = bt_SuspendedKustomizations (br_status r)"
    and "bt_CompletedAt (br_status r') = bt_CompletedAt (br_status r)" "bt_Workload (br_status r') = bt_Workload (br_status r)"
  shows "runInv r' = runInv r"
  unfolding runInv_def using assms by (simp add: timesInv_cong[of r' r] endInv_cong[of r' r] orderInv_cong[of r' r] itemInv_cong[of r' r])

lemma runInv_meta:
  assumes "runInv r" "m_uid m = m_uid (br_meta r)" "m_deletion m = m_deletion (br_meta r)"
  shows "runInv (r\<lparr>br_meta := m\<rparr>)"
  by (rule iffD2[OF runInv_cong assms(1)]) (simp_all add: assms)

lemma okD:
  assumes "ok r0 r"
  shows "runInv r" "timesInv r" "endInv r" "orderInv r" "\<And>i. i \<in> set (bt_Items (br_status r)) \<Longrightarrow> itemInv r i"
  using assms by (simp_all add: ok_def runInv_def)

lemma ok_meta:
  assumes "ok r0 r" "sameObject (br_meta r) m"
  shows "ok r0 (r\<lparr>br_meta := m\<rparr>)"
proof (rule ok_step[OF assms(1)])
  show "runInv (r\<lparr>br_meta := m\<rparr>)" using assms by (simp add: ok_def runInv_meta sameObject_def)
  show "advance r (r\<lparr>br_meta := m\<rparr>)" using assms(2) by (simp add: advance_def)
qed

lemma ok_rv: "ok r0 r \<Longrightarrow> ok r0 (r\<lparr>br_meta := (br_meta r)\<lparr>m_resourceVersion := rv\<rparr>\<rparr>)"
  by (rule ok_meta) (simp_all add: sameObject_def)

lemma advance_status: "statusAdvance (br_status r) st \<Longrightarrow> advance r (r\<lparr>br_status := st\<rparr>)"
  by (simp add: advance_def)

lemma ok_conditions:
  assumes "ok r0 r"
  shows "ok r0 (r\<lparr>br_status := (br_status r)\<lparr>bt_Conditions := cs\<rparr>\<rparr>)" (is "ok r0 ?r")
proof (rule ok_step[OF assms])
  show "runInv ?r" by (rule iffD2[OF runInv_cong okD(1)[OF assms]]) simp_all
  show "advance r ?r" by (simp add: advance_def statusAdvance_def keptOnce_def list_all2_refl1)
qed

lemma ok_leases:
  assumes "ok r0 r" "set (bt_Leases (br_status r)) \<subseteq> set ls"
  shows "ok r0 (r\<lparr>br_status := (br_status r)\<lparr>bt_Leases := ls\<rparr>\<rparr>)" (is "ok r0 ?r")
proof (rule ok_step[OF assms(1)])
  show "runInv ?r" by (rule iffD2[OF runInv_cong okD(1)[OF assms(1)]]) simp_all
  show "advance r ?r" using assms(2) by (simp add: advance_def statusAdvance_def keptOnce_def list_all2_refl1)
qed

lemma ok_workload:
  assumes "ok r0 r" "\<not> Finished (bt_Phase (br_status r))"
  shows "ok r0 (r\<lparr>br_status := (br_status r)\<lparr>bt_Workload := n\<rparr>\<rparr>)" (is "ok r0 ?r")
proof (rule ok_step[OF assms(1)])
  have "endInv ?r" using assms(2) by (simp add: endInv_def Finished_def)
  then show "runInv ?r" using okD[OF assms(1)]
    unfolding runInv_def by (simp add: timesInv_cong[of ?r r] orderInv_cong[of ?r r] itemInv_cong[of ?r r])
  show "advance r ?r" by (simp add: advance_def statusAdvance_def keptOnce_def list_all2_refl1)
qed

lemma phaseRank_unfinished: "\<not> Finished p \<Longrightarrow> phaseRank p \<le> 2"
  by (cases p) (auto simp: Finished_def)

lemma ok_running:
  assumes "ok r0 r" "\<not> Finished (bt_Phase (br_status r))" "bt_StartedAt (br_status r) \<noteq> None"
  shows "ok r0 (r\<lparr>br_status := (br_status r)\<lparr>bt_Phase := RunPhaseRunning\<rparr>\<rparr>)" (is "ok r0 ?r")
proof (rule ok_step[OF assms(1)])
  have "endInv ?r" by (simp add: endInv_def Finished_def)
  moreover have "timesInv ?r" using okD(2)[OF assms(1)] assms(3) by (auto simp: timesInv_def Let_def)
  ultimately show "runInv ?r" using okD[OF assms(1)]
    unfolding runInv_def by (simp add: orderInv_cong[of ?r r] itemInv_cong[of ?r r])
  show "advance r ?r"
    using phaseRank_unfinished[OF assms(2)] assms(2) by (simp add: advance_def statusAdvance_def keptOnce_def list_all2_refl1)
qed

lemma ok_started:
  assumes "ok r0 r" "\<not> Finished (bt_Phase (br_status r))" "bt_StartedAt (br_status r) = None"
  shows "ok r0 (r\<lparr>br_status := (br_status r)\<lparr>bt_Phase := RunPhaseRunning, bt_StartedAt := Some t\<rparr>\<rparr>)" (is "ok r0 ?r")
proof (rule ok_step[OF assms(1)])
  have "endInv ?r" by (simp add: endInv_def Finished_def)
  moreover have "timesInv ?r" using okD(2)[OF assms(1)] assms(3) by (simp add: timesInv_def Let_def)
  ultimately show "runInv ?r" using okD[OF assms(1)]
    unfolding runInv_def by (simp add: orderInv_cong[of ?r r] itemInv_cong[of ?r r])
  show "advance r ?r"
    using phaseRank_unfinished[OF assms(2)] assms(2,3) by (simp add: advance_def statusAdvance_def keptOnce_def list_all2_refl1)
qed

lemma ok_planned:
  assumes "ok r0 r" "bt_Phase (br_status r) = RunPhaseNone"
    and "\<And>i. i \<in> set items \<Longrightarrow> \<exists>n. i = pendingItem ''ReplicationSource'' n \<or> i = pendingItem ''Cluster'' n"
  shows "ok r0 (r\<lparr>br_status := (br_status r)\<lparr>bt_Items := items, bt_Phase := RunPhaseQueued\<rparr>\<rparr>)"
proof (rule ok_step[OF assms(1)])
  have i: "bi_Phase i = ItemPending \<and> bi_SnapshotID i = [] \<and> \<not> bi_BaseBackupWhilePaused i \<and> (bi_Kind i = ''ReplicationSource'' \<or> bi_Kind i = ''Cluster'')" if "i \<in> set items" for i
    using assms(3)[OF that] by (auto simp: pendingItem_def backupItem0_def)
  have "bt_PausedAt (br_status r) = None" "bt_Paused (br_status r) = []" "bt_StartedAt (br_status r) = None" "timesInv r"
    using assms(1,2) by (auto simp: ok_def runInv_def timesInv_def Let_def)
  then show "runInv (r\<lparr>br_status := (br_status r)\<lparr>bt_Items := items, bt_Phase := RunPhaseQueued\<rparr>\<rparr>)"
    using i unfolding runInv_def run_defs by (simp add: Finished_def)
  show "advance r (r\<lparr>br_status := (br_status r)\<lparr>bt_Items := items, bt_Phase := RunPhaseQueued\<rparr>\<rparr>)"
    using assms(2) by (simp add: Finished_def advance_def statusAdvance_def keptOnce_def list_all2_refl1)
qed

lemma ok_paused:
  assumes "ok r0 r" "bt_PausedAt (br_status r) = None" "bs_All (br_spec r)" "bt_StartedAt (br_status r) \<noteq> None"
    and "\<not> Finished (bt_Phase (br_status r))" "\<And>p. p \<in> set paused \<Longrightarrow> \<not> pw_Resumed p"
  shows "ok r0 (r\<lparr>br_status := (br_status r)\<lparr>bt_Paused := paused, bt_SuspendedKustomizations := suspend, bt_PausedAt := Some t,
     bt_ResumedAt := (if paused = [] then Some t else bt_ResumedAt (br_status r))\<rparr>\<rparr>)" (is "ok r0 ?r")
proof (rule ok_step[OF assms(1)])
  have r: "timesInv r" "orderInv r" "\<And>i. i \<in> set (bt_Items (br_status r)) \<Longrightarrow> itemInv r i" using assms(1) by (simp_all add: ok_def runInv_def)
  then have none: "bt_ResumedAt (br_status r) = None" "bt_Paused (br_status r) = []" and ph: "bt_Phase (br_status r) \<noteq> RunPhaseNone"
    using assms(2,4) by (auto simp: timesInv_def Let_def)
  have "timesInv ?r" using r(1) assms(3-6) ph none by (simp add: timesInv_def Let_def)
  moreover have "endInv ?r" using assms(5) by (simp add: endInv_def Finished_def)
  moreover have "orderInv ?r" using none by (simp add: orderInv_def Let_def)
  moreover have "itemInv ?r i" if "i \<in> set (bt_Items (br_status r))" for i
    using r(3)[OF that] none unfolding itemInv_def Let_def databaseFailed_def by simp
  ultimately show "runInv ?r" by (simp add: runInv_def)
  show "advance r ?r" using assms(2) none by (simp add: advance_def statusAdvance_def keptOnce_def list_all2_refl1)
qed

text \<open>The moment of the resume. On a run that is not being deleted, every item was started and every
  database backup ended.\<close>

lemma ok_resumedAt:
  assumes "ok r0 r" "bt_PausedAt (br_status r) \<noteq> None" "bt_ResumedAt (br_status r) = None" "\<not> Finished (bt_Phase (br_status r))"
    and "m_deletion (br_meta r) = None \<Longrightarrow>
      (\<forall>i \<in> set (bt_Items (br_status r)). bi_Phase i \<noteq> ItemPending \<and> (bi_Kind i = ''Cluster'' \<longrightarrow> bi_Phase i \<noteq> ItemRunning))"
  shows "ok r0 (r\<lparr>br_status := (br_status r)\<lparr>bt_ResumedAt := Some t\<rparr>\<rparr>)" (is "ok r0 ?r")
proof (rule ok_step[OF assms(1)])
  have "endInv ?r" using assms(4) by (simp add: endInv_def Finished_def)
  moreover have "timesInv ?r" using okD(2)[OF assms(1)] assms(2) by (auto simp: timesInv_def Let_def)
  moreover have "orderInv ?r" using okD(4)[OF assms(1)] assms(2,5) by (auto simp: orderInv_def Let_def)
  moreover have "itemInv ?r i" if "i \<in> set (bt_Items (br_status r))" for i
    using okD(5)[OF assms(1) that] assms(3) unfolding itemInv_def Let_def databaseFailed_def by auto
  ultimately show "runInv ?r" by (simp add: runInv_def)
  show "advance r ?r" using assms(3) by (simp add: advance_def statusAdvance_def keptOnce_def list_all2_refl1)
qed

lemma ok_marks:
  assumes "ok r0 r" "bt_ResumedAt (br_status r) \<noteq> None" "\<not> Finished (bt_Phase (br_status r))"
    and "list_all2 workloadStep (bt_Paused (br_status r)) paused"
  shows "ok r0 (r\<lparr>br_status := (br_status r)\<lparr>bt_Paused := paused\<rparr>\<rparr>)" (is "ok r0 ?r")
proof (rule ok_step[OF assms(1)])
  have len: "paused = [] \<longleftrightarrow> bt_Paused (br_status r) = []" using list_all2_lengthD[OF assms(4)] by auto
  have "endInv ?r" using assms(3) by (simp add: endInv_def Finished_def)
  moreover have "timesInv ?r" using okD(2)[OF assms(1)] assms(2) len by (auto simp: timesInv_def Let_def)
  moreover have "orderInv ?r" using okD(4)[OF assms(1)] len by (simp add: orderInv_def Let_def)
  moreover have "itemInv ?r i" if "i \<in> set (bt_Items (br_status r))" for i
    using okD(5)[OF assms(1) that] len unfolding itemInv_def Let_def databaseFailed_def by simp
  ultimately show "runInv ?r" by (simp add: runInv_def)
  show "advance r ?r" using assms(4) by (simp add: advance_def statusAdvance_def keptOnce_def list_all2_refl1)
qed

lemma ok_finished:
  assumes "ok r0 r" "allDone (bt_Items (br_status r))" "bt_PausedAt (br_status r) = None \<or> resumed r"
    and "Finished p" "\<not> Finished (bt_Phase (br_status r))" "p = RunPhaseSucceeded \<Longrightarrow> (\<forall>i \<in> set (bt_Items (br_status r)). bi_Phase i \<noteq> ItemFailed)"
  shows "ok r0 (r\<lparr>br_status := (br_status r)\<lparr>bt_Phase := p, bt_CompletedAt := Some t, bt_Workload := []\<rparr>\<rparr>)" (is "ok r0 ?r")
proof (rule ok_step[OF assms(1)])
  have "endInv ?r" using assms(2,3,6) by (simp add: endInv_def resumed_def Let_def)
  moreover have "timesInv ?r" using okD(2)[OF assms(1)] assms(4) by (auto simp: timesInv_def Let_def Finished_def)
  ultimately show "runInv ?r" using okD[OF assms(1)]
    unfolding runInv_def by (simp add: orderInv_cong[of ?r r] itemInv_cong[of ?r r])
  have "phaseRank q \<le> phaseRank p" for q using assms(4) by (cases p; cases q) (auto simp: Finished_def)
  then show "advance r ?r" using assms(5) by (simp add: advance_def statusAdvance_def keptOnce_def list_all2_refl1)
qed

lemma itemStep_failUnfinished: "itemStep i (failUnfinished m i)"
  by (simp add: itemStep_def failUnfinished_def itemDone_def)

lemma allDone_failUnfinished: "allDone (map (failUnfinished m) items)"
  by (auto simp: allDone_def list_all_iff failUnfinished_def)

lemma ok_failed:
  assumes "ok r0 r" "\<not> Finished (bt_Phase (br_status r))"
  shows "ok r0 (r\<lparr>br_status := (br_status r)\<lparr>bt_Items := map (failUnfinished m) (bt_Items (br_status r))\<rparr>\<rparr>)" (is "ok r0 ?r")
proof (rule ok_step[OF assms(1)])
  have ph: "bi_Phase (failUnfinished m i) \<noteq> ItemPending \<and> bi_Phase (failUnfinished m i) \<noteq> ItemRunning" for i
    by (simp add: failUnfinished_def)
  have fl: "bi_Phase i = ItemPending \<or> bi_Phase i = ItemFailed \<Longrightarrow> bi_Phase (failUnfinished m i) = ItemFailed" for i
    by (auto simp: failUnfinished_def)
  have "endInv ?r" using assms(2) by (simp add: endInv_def Finished_def)
  moreover have "timesInv ?r" using okD(2)[OF assms(1)] by (simp add: timesInv_def Let_def)
  moreover have "orderInv ?r" using okD(4)[OF assms(1)] ph fl by (simp add: orderInv_def Let_def)
  moreover have "itemInv ?r (failUnfinished m i)" if "i \<in> set (bt_Items (br_status r))" for i
    using okD(5)[OF assms(1) that] ph[of i] unfolding itemInv_def Let_def by (auto simp: failUnfinished_def)
  ultimately show "runInv ?r" by (simp add: runInv_def)
  show "advance r ?r" by (simp add: advance_def statusAdvance_def keptOnce_def list_all2_refl1 list_all2_conv_all_nth itemStep_failUnfinished)
qed

text \<open>One item replaced by the outcome of its start or of its collection. \<open>newItem r j\<close> is what the
  outcome has to fulfil.\<close>

definition newItem :: "backupRun \<Rightarrow> backupItem \<Rightarrow> bool" where
  "newItem r j =
     (itemInv r j \<and> (bs_All (br_spec r) \<and> bt_PausedAt (br_status r) = None \<longrightarrow> bi_Phase j = ItemPending \<or> bi_Phase j = ItemFailed))"

lemma databaseFailed_update:
  assumes "k < length items" "itemStep (items ! k) j" "\<not> (bi_Kind j = ''Cluster'' \<and> bi_Phase j = ItemFailed)"
  shows "list_ex (\<lambda>i. bi_Kind i = ''Cluster'' \<and> bi_Phase i = ItemFailed) (items[k := j]) =
         list_ex (\<lambda>i. bi_Kind i = ''Cluster'' \<and> bi_Phase i = ItemFailed) items"
proof -
  have "\<not> (bi_Kind (items ! k) = ''Cluster'' \<and> bi_Phase (items ! k) = ItemFailed)"
  proof
    assume a: "bi_Kind (items ! k) = ''Cluster'' \<and> bi_Phase (items ! k) = ItemFailed"
    then have "j = items ! k" using assms(2) by (simp add: itemStep_def itemDone_def)
    then show False using a assms(3) by simp
  qed
  then show ?thesis using assms(1,3) unfolding list_ex_length by (auto simp: nth_list_update)
qed

lemma ok_setItem:
  assumes "ok r0 r" "\<not> Finished (bt_Phase (br_status r))" "m_deletion (br_meta r) = None"
    and k: "k < length (bt_Items (br_status r))" and j: "itemStep (bt_Items (br_status r) ! k) j" "newItem r j"
    and run: "bi_Phase (bt_Items (br_status r) ! k) = ItemPending \<or> bi_Phase (bt_Items (br_status r) ! k) = ItemRunning"
  shows "ok r0 (r\<lparr>br_status := setItem k j (br_status r)\<rparr>)" (is "ok r0 ?r")
proof (rule ok_step[OF assms(1)])
  let ?i = "bt_Items (br_status r) ! k"
  have mem: "?i \<in> set (bt_Items (br_status r))" using k by simp
  have upd: "x = j \<or> x \<in> set (bt_Items (br_status r))" if "x \<in> set ((bt_Items (br_status r))[k := j])" for x
    using that set_update_subset_insert by fastforce
  have "endInv ?r" using assms(2) by (simp add: endInv_def setItem_def Finished_def)
  moreover have "timesInv ?r" using okD(2)[OF assms(1)] by (auto simp: timesInv_def Let_def setItem_def)
  moreover have "orderInv ?r"
  proof -
    have "bi_Phase j \<noteq> ItemPending \<and> (bi_Kind j = ''Cluster'' \<longrightarrow> bi_Phase j \<noteq> ItemRunning)"
      if "bt_Paused (br_status r) \<noteq> []" "bt_ResumedAt (br_status r) \<noteq> None"
    proof -
      have "bi_Phase ?i \<noteq> ItemPending" "bi_Kind ?i = ''Cluster'' \<Longrightarrow> bi_Phase ?i \<noteq> ItemRunning"
        using okD(4)[OF assms(1)] that assms(3) mem by (simp_all add: orderInv_def Let_def)
      then show ?thesis using j(1) run by (auto simp: itemStep_def)
    qed
    then show ?thesis using okD(4)[OF assms(1)] j(2) upd by (auto simp: orderInv_def newItem_def setItem_def Let_def)
  qed
  moreover have "itemInv ?r x" if x: "x \<in> set ((bt_Items (br_status r))[k := j])" for x
  proof -
    have x0: "itemInv r x" using upd[OF x] j(2) okD(5)[OF assms(1)] by (auto simp: newItem_def)
    have "\<not> databaseFailed ?r" if h: "bi_Phase x = ItemRunning" "bi_Kind x = ''ReplicationSource''" "bi_SnapshotID x \<noteq> []"
    proof -
      have p: "bt_Paused (br_status r) \<noteq> []" "bt_ResumedAt (br_status r) \<noteq> None" "\<not> databaseFailed r"
        using x0 h unfolding itemInv_def Let_def by auto
      then have "bi_Phase ?i \<noteq> ItemPending" "bi_Kind ?i = ''Cluster'' \<Longrightarrow> bi_Phase ?i \<noteq> ItemRunning"
        using okD(4)[OF assms(1)] assms(3) mem by (simp_all add: orderInv_def Let_def)
      then have "bi_Kind ?i \<noteq> ''Cluster''" using run by auto
      then have "bi_Kind j \<noteq> ''Cluster''" using j(1) by (simp add: itemStep_def)
      then show ?thesis using p(3) databaseFailed_update[OF k j(1)] by (simp add: databaseFailed_def setItem_def)
    qed
    then show ?thesis using x0 unfolding itemInv_def Let_def by (simp add: setItem_def)
  qed
  ultimately show "runInv ?r" by (simp add: runInv_def setItem_def)
  have "list_all2 itemStep (bt_Items (br_status r)) ((bt_Items (br_status r))[k := j])"
    using j(1) k by (auto simp: list_all2_conv_all_nth nth_list_update)
  then show "advance r ?r" by (simp add: advance_def statusAdvance_def keptOnce_def list_all2_refl1 setItem_def)
qed

end
