(* ===== verification/Backup_Run_Pass.thy ===== *)
theory Backup_Run_Pass
  imports Backup_Run_Inv
begin

text \<open>
  The passes of the BackupRun reconciler, step by step: what starting and collecting an item may
  return, that no pass follows a nil pointer, and that a pass makes no call outside the bounds of
  \<open>Backup_Run_Inv\<close>.
\<close>

section \<open>The outcome of an item\<close>

definition started :: "backupRun \<Rightarrow> backupItem \<Rightarrow> backupItem \<Rightarrow> bool" where
  "started run i j = (itemStep i j \<and> itemInv run j \<and> bi_Phase j \<noteq> ItemPending \<and> bi_SnapshotID j = [])"

definition collected :: "backupRun \<Rightarrow> backupItem \<Rightarrow> backupItem \<Rightarrow> bool" where
  "collected run i j = (itemStep i j \<and> itemInv run j \<and> bi_Phase j \<noteq> ItemPending)"

lemma started_failItem: "itemInv run i \<Longrightarrow> bi_Phase i = ItemPending \<Longrightarrow> started run i (failItem m i)"
  unfolding started_def failItem_def itemInv_def itemStep_def itemDone_def Let_def by auto

lemma startItem_returns:
  assumes "itemInv run i" "bi_Phase i = ItemPending"
  shows "returns (startItem api run i) (started run i)"
proof -
  have r: "started run i (i\<lparr>bi_Phase := ItemRunning, bi_Trigger := TriggerFor (m_uid (br_meta run))\<rparr>)"
    and b: "bi_Kind i = ''Cluster'' \<Longrightarrow> started run i (i\<lparr>bi_Phase := ItemRunning, bi_Backup := n\<rparr>)"
    and s: "started run i (i\<lparr>bi_Phase := ItemSkipped, bi_Message := m\<rparr>)" for n m
    using assms unfolding started_def itemInv_def itemStep_def itemDone_def Let_def by auto
  have k: "bi_Kind i = ''ReplicationSource'' \<or> bi_Kind i = ''Cluster''" using assms(1) by (simp add: itemInv_def Let_def)
  show ?thesis
  proof (cases "bi_Kind i = ''ReplicationSource''")
    case True
    then show ?thesis unfolding startItem_def startVolume_def Let_def
      by (simp only: if_True) (intro returns_intros started_failItem assms r, simp_all)
  next
    case False
    with k have c: "bi_Kind i = ''Cluster''" by simp
    show ?thesis unfolding startItem_def startDatabase_def
      by (simp only: False c if_True if_False) (intro returns_intros started_failItem assms s b c, simp_all)
  qed
qed

lemma collected_same: "itemInv run i \<Longrightarrow> bi_Phase i = ItemRunning \<Longrightarrow> collected run i i"
  by (simp add: collected_def)

lemma collected_message: "itemInv run i \<Longrightarrow> bi_Phase i = ItemRunning \<Longrightarrow> collected run i (i\<lparr>bi_Message := m\<rparr>)"
  unfolding collected_def itemInv_def itemStep_def itemDone_def Let_def by simp

lemma collected_failItem: "itemInv run i \<Longrightarrow> bi_Phase i = ItemRunning \<Longrightarrow> collected run i (failItem m i)"
  unfolding collected_def failItem_def itemInv_def itemStep_def itemDone_def Let_def by auto

lemma collected_succeedWith: "itemInv run i \<Longrightarrow> bi_Phase i = ItemRunning \<Longrightarrow> collected run i (succeedWith s i)"
  unfolding collected_def succeedWith_def itemInv_def itemStep_def itemDone_def Let_def by auto

lemma collectSnapshot_returns:
  assumes "itemInv run i" "bi_Phase i = ItemRunning" "move \<Longrightarrow> bt_Paused (br_status run) \<noteq> [] \<and> bt_ResumedAt (br_status run) \<noteq> None \<and> \<not> databaseFailed run"
  shows "returns (collectSnapshot api sec move t e d i) (collected run i)"
proof -
  have e: "collected run i (i\<lparr>bi_Phase := ItemSucceeded, bi_Empty := True, bi_Message := m\<rparr>)" for m
    using assms(1,2) unfolding collected_def itemInv_def itemStep_def itemDone_def Let_def by auto
  have s: "move \<Longrightarrow> collected run i (i\<lparr>bi_SnapshotID := sid, bi_Message := m\<rparr>)" for sid m
    using assms unfolding collected_def itemInv_def itemStep_def itemDone_def Let_def by auto
  show ?thesis unfolding collectSnapshot_def
    by (intro returns_intros collected_message[OF assms(1,2)] collected_succeedWith[OF assms(1,2)] e s) simp
qed

lemma collectSynced_returns:
  assumes "itemInv run i" "bi_Phase i = ItemRunning" "bi_Kind i = ''ReplicationSource''"
  shows "returns (collectSynced api run e d i) (collected run i)"
proof -
  have m: "bi_SnapshotID i \<noteq> [] \<Longrightarrow> bt_ResumedAt (br_status run) \<noteq> None"
    using assms by (simp add: itemInv_def Let_def)
  show ?thesis unfolding collectSynced_def moveSnapshot_def Let_def
    by (intro returns_intros collected_message[OF assms(1,2)] collected_succeedWith[OF assms(1,2)] collectSnapshot_returns[OF assms(1,2)])
       (use m in auto)
qed

lemma collectVolume_returns:
  assumes "itemInv run i" "bi_Phase i = ItemRunning" "bi_Kind i = ''ReplicationSource''"
  shows "returns (collectVolume api run i) (collected run i)"
proof -
  have t: "bi_Trigger i \<noteq> []" using assms by (simp add: itemInv_def Let_def TriggerFor_def)
  have n: "lastManual s = bi_Trigger i \<Longrightarrow> sc_Status s \<noteq> None" for s using t by (cases "sc_Status s") (auto simp: lastManual_def)
  show ?thesis unfolding collectVolume_def
    by (intro returns_intros collected_message[OF assms(1,2)] collected_same[OF assms(1,2)] collected_failItem[OF assms(1,2)] collectSynced_returns[OF assms])
       (use n in auto)
qed

lemma collectDatabase_returns:
  assumes "itemInv run i" "bi_Phase i = ItemRunning" "bi_Kind i = ''Cluster''"
  shows "returns (collectDatabase api run i) (collected run i)"
proof -
  have s: "collected run i (i\<lparr>bi_Phase := ItemSucceeded, bi_BaseBackup := b,
      bi_BaseBackupWhilePaused := (bs_All (br_spec run) \<and> bt_Paused (br_status run) \<noteq> [] \<and> bt_ResumedAt (br_status run) = None \<and> b \<noteq> [])\<rparr>)" for b
    using assms unfolding collected_def itemInv_def itemStep_def itemDone_def Let_def by auto
  show ?thesis unfolding collectDatabase_def
    by (intro returns_intros collected_same[OF assms(1,2)] collected_failItem[OF assms(1,2)] s)
qed

lemma collectItem_returns:
  assumes "itemInv run i" "bi_Phase i = ItemRunning"
  shows "returns (collectItem api run i) (collected run i)"
proof -
  have k: "bi_Kind i = ''ReplicationSource'' \<or> bi_Kind i = ''Cluster''" using assms(1) by (simp add: itemInv_def Let_def)
  show ?thesis unfolding collectItem_def
    by (intro returns_intros collectVolume_returns[OF assms] collectDatabase_returns[OF assms] collected_same[OF assms])
qed

section \<open>The marks of the resumed workloads\<close>

lemma scaleBack_marks:
  "returns (scaleBack c ns ws) (\<lambda>(ws', e). list_all2 workloadStep ws ws' \<and> (e = None \<longrightarrow> list_all pw_Resumed ws'))"
proof (induction ws)
  case (Cons p ws)
  have r: "returns (bindM (scaleBack c ns ws) (\<lambda>(ws', e). ret (q # ws', e)))
      (\<lambda>(ws', e). list_all2 workloadStep (p # ws) ws' \<and> (e = None \<longrightarrow> list_all pw_Resumed ws'))"
    if "workloadStep p q" "pw_Resumed q" for q
    by (rule returns_bindM[OF Cons.IH]) (use that in \<open>auto intro!: returns_intros\<close>)
  show ?case unfolding scaleBack.simps Let_def
    by (intro returns_intros r) (simp_all add: workloadStep_def list_all2_refl1)
qed (auto intro!: returns_intros)

lemma resumeWorkloads_marks:
  "returns (resumeWorkloads c ns ws ks) (\<lambda>(ws', e). list_all2 workloadStep ws ws' \<and> (e = None \<longrightarrow> list_all pw_Resumed ws'))"
  unfolding resumeWorkloads_def by (rule returns_bindM[OF scaleBack_marks]) (auto intro!: returns_intros)

section \<open>A server with bounds\<close>

definition startOk :: "'w backupApi \<Rightarrow> backupRun \<Rightarrow> bool" where
  "startOk api r0 = (let st = br_status r0 in
     bt_StartedAt st \<noteq> None \<and> \<not> Finished (bt_Phase st) \<and> m_deletion (br_meta r0) = None \<and>
     (bs_All (br_spec r0) \<longrightarrow> bt_PausedAt st \<noteq> None \<and>
        (bt_ResumedAt st = None \<longrightarrow> (\<exists>w w' pod. pausedPodsGone (ba_pause api) (m_namespace (br_meta r0)) (bt_Paused st) w = (Inr (True, pod), w')))))"

definition moveOk :: "backupRun \<Rightarrow> string \<Rightarrow> gtime \<Rightarrow> string list \<Rightarrow> bool" where
  "moveOk r0 sid t tags =
     (sid \<noteq> [] \<and> list_ex (\<lambda>i. bi_Kind i = ''ReplicationSource'' \<and> bi_Phase i = ItemRunning \<and> bi_SnapshotID i = sid) (bt_Items (br_status r0)) \<and>
      bt_ResumedAt (br_status r0) = Some t \<and> tags = PausedTag # baseBackupTags r0 \<and> \<not> databaseFailed r0 \<and>
      list_all (\<lambda>i. bi_Kind i = ''Cluster'' \<longrightarrow> itemDone i) (bt_Items (br_status r0)))"

text \<open>The server \<open>api\<close>, except that a status write outside the invariant, a start before the app's pods
  are gone and a move outside \<open>moveOk\<close> go to the server \<open>alt\<close>.\<close>

definition guarded :: "'w backupApi \<Rightarrow> 'w backupApi \<Rightarrow> backupRun \<Rightarrow> 'w backupApi" where
  "guarded alt api r0 = api\<lparr>
     ba_updateStatus := (\<lambda>r. if runInv r \<and> advance r0 r then ba_updateStatus api r else ba_updateStatus alt r),
     ba_retime := (\<lambda>sec sid t tags. if moveOk r0 sid t tags then ba_retime api sec sid t tags else ba_retime alt sec sid t tags),
     ba_createBackup := (\<lambda>b. if startOk api r0 then ba_createBackup api b else ba_createBackup alt b),
     ba_sources := (ba_sources api)\<lparr>so_createOrUpdate :=
       (\<lambda>ns n f. if startOk api r0 then so_createOrUpdate (ba_sources api) ns n f else so_createOrUpdate (ba_sources alt) ns n f)\<rparr>\<rparr>"

text \<open>The calls that make none of these.\<close>

lemma guarded_fields [simp]:
  "ba_getClaim (guarded alt api r0) = ba_getClaim api" "ba_getCluster (guarded alt api r0) = ba_getCluster api"
  "ba_listClusters (guarded alt api r0) = ba_listClusters api" "ba_getSecret (guarded alt api r0) = ba_getSecret api"
  "ba_getBackup (guarded alt api r0) = ba_getBackup api" "ba_listQueues (guarded alt api r0) = ba_listQueues api"
  "ba_getWorkload (guarded alt api r0) = ba_getWorkload api" "ba_createWorkload (guarded alt api r0) = ba_createWorkload api"
  "ba_updateWorkload (guarded alt api r0) = ba_updateWorkload api" "ba_deleteWorkload (guarded alt api r0) = ba_deleteWorkload api"
  "ba_pause (guarded alt api r0) = ba_pause api" "ba_leases (guarded alt api r0) = ba_leases api"
  "ba_snapshots (guarded alt api r0) = ba_snapshots api" "ba_setCond (guarded alt api r0) = ba_setCond api"
  "ba_Paused (guarded alt api r0) = ba_Paused api" "ba_Now (guarded alt api r0) = ba_Now api"
  "ba_update (guarded alt api r0) = ba_update api" "ba_delete (guarded alt api r0) = ba_delete api" "ba_get (guarded alt api r0) = ba_get api"
  "so_listClaims (ba_sources (guarded alt api r0)) = so_listClaims (ba_sources api)"
  "so_getVR (ba_sources (guarded alt api r0)) = so_getVR (ba_sources api)"
  "so_getPV (ba_sources (guarded alt api r0)) = so_getPV (ba_sources api)"
  "so_getNamespace (ba_sources (guarded alt api r0)) = so_getNamespace (ba_sources api)"
  "so_getSource (ba_sources (guarded alt api r0)) = so_getSource (ba_sources api)"
  "so_setController (ba_sources (guarded alt api r0)) = so_setController (ba_sources api)"
  by (simp_all add: guarded_def)

lemma guarded_loops [simp]:
  "leaseNamesLoop (guarded alt api r0) ns items names = leaseNamesLoop api ns items names"
  "busySource (guarded alt api r0) run items = busySource api run items"
  "clonesCutLoop (guarded alt api r0) run items = clonesCutLoop api run items"
proof -
  have "repositoryName (guarded alt api r0) = repositoryName api" by (rule ext)+ (simp only: repositoryName_def guarded_fields)
  then show "leaseNamesLoop (guarded alt api r0) ns items names = leaseNamesLoop api ns items names"
    by (induction items arbitrary: names) (simp_all only: leaseNamesLoop.simps)
  show "busySource (guarded alt api r0) run items = busySource api run items"
    by (induction items) (simp_all only: busySource.simps guarded_fields)
  show "clonesCutLoop (guarded alt api r0) run items = clonesCutLoop api run items"
    by (induction items) (simp_all only: clonesCutLoop.simps guarded_fields)
qed

lemma guarded_reads [simp]:
  "itemsOf (guarded alt api r0) = itemsOf api" "overdue (guarded alt api r0) = overdue api"
  "leaseNames (guarded alt api r0) = leaseNames api" "clonesCut (guarded alt api r0) = clonesCut api"
  "nowM (guarded alt api r0) = nowM api" "setReadyB (guarded alt api r0) = setReadyB api" "queueM (guarded alt api r0) = queueM api"
  "dropFinalizer (guarded alt api r0) = dropFinalizer api" "addFinalizer (guarded alt api r0) = addFinalizer api"
  "resumePaused (guarded alt api r0) = resumePaused api" "collectDatabase (guarded alt api r0) = collectDatabase api"
  by ((rule ext)+; simp only: itemsOf_def overdue_def leaseNames_def clonesCut_def nowM_def setReadyB_def queueM_def dropFinalizer_def
        addFinalizer_def resumePaused_def collectDatabase_def guarded_fields guarded_loops)+

lemma startItem_guarded: "startOk api r0 \<Longrightarrow> startItem (guarded alt api r0) run i = startItem api run i"
proof -
  assume "startOk api r0"
  then have "ba_createBackup (guarded alt api r0) = ba_createBackup api" "ba_sources (guarded alt api r0) = ba_sources api"
    by (simp_all add: guarded_def)
  then show ?thesis by (simp only: startItem_def startVolume_def startDatabase_def guarded_fields)
qed

lemma collectItem_guarded:
  assumes "\<And>t. bi_Kind i = ''ReplicationSource'' \<Longrightarrow> bi_SnapshotID i \<noteq> [] \<Longrightarrow> bt_ResumedAt (br_status run) = Some t \<Longrightarrow>
      moveOk r0 (bi_SnapshotID i) t (PausedTag # baseBackupTags run)"
  shows "collectItem (guarded alt api r0) run i = collectItem api run i"
proof (cases "bi_Kind i = ''ReplicationSource''")
  case True
  have "moveSnapshot (guarded alt api r0) sec run t i = moveSnapshot api sec run t i"
    if "bi_SnapshotID i \<noteq> []" "bt_ResumedAt (br_status run) = Some t" for sec t
    using assms[OF True that] by (simp add: moveSnapshot_def guarded_def)
  then have "collectSynced (guarded alt api r0) run e d i = collectSynced api run e d i" for e d
    unfolding collectSynced_def collectSnapshot_def repositorySecret_def guarded_fields Let_def
    by (cases "bi_SnapshotID i = []"; cases "bt_ResumedAt (br_status run)") simp_all
  then show ?thesis by (simp only: True collectItem_def collectVolume_def guarded_fields simp_thms if_True)
qed (simp only: collectItem_def guarded_reads if_False)

section \<open>Passes over the two servers\<close>

text \<open>\<open>same r r'\<close>: the two copies of the run differ in the record of the resume, the Leases and the
  resource version at most.\<close>

definition same :: "backupRun \<Rightarrow> backupRun \<Rightarrow> bool" where
  "same r r' = (br_spec r' = br_spec r \<and> sameObject (br_meta r) (br_meta r') \<and>
     bt_Phase (br_status r') = bt_Phase (br_status r) \<and> bt_StartedAt (br_status r') = bt_StartedAt (br_status r) \<and>
     bt_PausedAt (br_status r') = bt_PausedAt (br_status r) \<and> bt_Items (br_status r') = bt_Items (br_status r))"

definition samePause :: "backupRun \<Rightarrow> backupRun \<Rightarrow> bool" where
  "samePause r r' = (bt_Paused (br_status r') = bt_Paused (br_status r) \<and> bt_ResumedAt (br_status r') = bt_ResumedAt (br_status r))"

lemma same_refl [simp]: "same r r" "samePause r r"
  by (simp_all add: same_def samePause_def)

lemma same_trans: "same a b \<Longrightarrow> same b c \<Longrightarrow> same a c"
  by (simp add: same_def sameObject_def)

lemma same_rv [simp]: "same r (r\<lparr>br_meta := (br_meta r)\<lparr>m_resourceVersion := rv\<rparr>\<rparr>)"
  by (simp add: same_def sameObject_def)

abbreviation anyQ :: "'a \<Rightarrow> backupRun \<Rightarrow> bool" where "anyQ \<equiv> \<lambda>_ _. True"

lemma agreeAt_same: "agreeAt r c c anyQ"
  by (simp add: agreeAt_def)

lemma agree_after: "agreeAt r c c' anyQ \<Longrightarrow> agreeAt r (afterM d c) (afterM d c') anyQ"
  unfolding afterM_def by (rule agreeAt_thenM[where R = "\<lambda>_. True"]) (auto intro: agreeAt_same)

lemma agree_none: "agreeAt r c c' anyQ \<Longrightarrow> agreeAt r (thenM c (ret x)) (thenM c' (ret x)) anyQ"
  by (rule agreeAt_thenM[where R = "\<lambda>_. True"]) (auto intro: agreeAt_same)

lemma agree_writeStatus:
  assumes "ok r0 r" "\<And>rv. Q () (r\<lparr>br_meta := (br_meta r)\<lparr>m_resourceVersion := rv\<rparr>\<rparr>)"
  shows "agreeAt r (writeStatus (guarded alt api r0)) (writeStatus api) Q"
proof -
  have "ba_updateStatus (guarded alt api r0) r = ba_updateStatus api r" using assms(1) by (simp add: guarded_def ok_def)
  then show ?thesis unfolding writeStatus_def onW_wrapM[symmetric]
    by (intro agreeAt_bind_getS) (simp, intro agreeAt_bind_onW agreeAt_modS assms(2))
qed

lemma agree_waitFor:
  assumes "ok r0 r" "\<not> Finished (bt_Phase (br_status r))"
  shows "agreeAt r (waitFor (guarded alt api r0) reason m) (waitFor api reason m) anyQ"
  unfolding waitFor_def modStatus_def setReadyB_def guarded_fields
  by (intro agreeAt_then_modS agree_writeStatus ok_conditions) (use assms ok_running in auto)

lemma agree_markResumed:
  assumes "ok r0 r" "bt_PausedAt (br_status r) \<noteq> None" "bt_ResumedAt (br_status r) = None" "\<not> Finished (bt_Phase (br_status r))"
    and "m_deletion (br_meta r) = None \<Longrightarrow>
      (\<forall>i \<in> set (bt_Items (br_status r)). bi_Phase i \<noteq> ItemPending \<and> (bi_Kind i = ''Cluster'' \<longrightarrow> bi_Phase i \<noteq> ItemRunning))"
  shows "agreeAt r (markResumed (guarded alt api r0)) (markResumed api) (\<lambda>_ r'. ok r0 r' \<and> same r r' \<and> bt_ResumedAt (br_status r') \<noteq> None)"
proof -
  have k: "ok r0 (r\<lparr>br_status := (br_status r)\<lparr>bt_ResumedAt := Some t\<rparr>\<rparr>)" for t by (rule ok_resumedAt[OF assms])
  show ?thesis unfolding markResumed_def modStatus_def nowM_def guarded_fields
    by (intro agreeAt_bind_onW agreeAt_then_modS agree_writeStatus k conjI ok_rv[OF k]) (simp_all add: same_def sameObject_def)
qed

lemma agree_resumePaused:
  assumes "ok r0 r" "bt_ResumedAt (br_status r) \<noteq> None" "\<not> Finished (bt_Phase (br_status r))"
  shows "agreeAt r (resumePaused api) (resumePaused api) (\<lambda>_ r'. ok r0 r' \<and> same r r' \<and> resumed r')"
proof -
  have "agreeAt r
      (case x of (paused, e) \<Rightarrow> thenM (modStatus (\<lambda>st. st\<lparr>bt_Paused := paused\<rparr>)) (case e of Some err \<Rightarrow> failM err | None \<Rightarrow> ret ()))
      (case x of (paused, e) \<Rightarrow> thenM (modStatus (\<lambda>st. st\<lparr>bt_Paused := paused\<rparr>)) (case e of Some err \<Rightarrow> failM err | None \<Rightarrow> ret ()))
      (\<lambda>_ r'. ok r0 r' \<and> same r r' \<and> resumed r')"
    if w: "resumeWorkloads (ba_pause api) (m_namespace (br_meta r)) (bt_Paused (br_status r)) (bt_SuspendedKustomizations (br_status r)) w = (Inr x, w')" for x w w'
  proof (cases x)
    case (Pair paused e)
    with returns_Inr[OF resumeWorkloads_marks w]
    have m: "list_all2 workloadStep (bt_Paused (br_status r)) paused" "e = None \<Longrightarrow> list_all pw_Resumed paused" by simp_all
    show ?thesis
    proof (cases e)
      case None
      show ?thesis unfolding Pair None modStatus_def prod.case option.case
        by (intro agreeAt_then_modS agreeAt_ret conjI ok_marks assms m(1))
           (use m(2) None assms(2) in \<open>simp_all add: same_def resumed_def\<close>)
    next
      case (Some err)
      then show ?thesis unfolding Pair modStatus_def by (simp, intro agreeAt_then_modS agreeAt_failM)
    qed
  qed
  then show ?thesis unfolding resumePaused_def by (intro agreeAt_bind_getS agreeAt_bind_onW)
qed

lemma agree_release:
  assumes "ok r0 r"
    and "bt_PausedAt (br_status r) \<noteq> None \<Longrightarrow> bt_ResumedAt (br_status r) = None \<Longrightarrow> m_deletion (br_meta r) = None \<Longrightarrow>
      (\<forall>i \<in> set (bt_Items (br_status r)). bi_Phase i \<noteq> ItemPending \<and> (bi_Kind i = ''Cluster'' \<longrightarrow> bi_Phase i \<noteq> ItemRunning))"
  shows "agreeAt r (release (guarded alt api r0)) (release api) (\<lambda>_ r'. ok r0 r' \<and> same r r' \<and> (bt_PausedAt (br_status r') = None \<or> resumed r'))"
proof -
  let ?P = "\<lambda>r'. ok r0 r' \<and> same r r' \<and> (bt_PausedAt (br_status r') = None \<or> resumed r')"
  have resume: "agreeAt r (thenM (if bt_ResumedAt (br_status r) = None then markResumed (guarded alt api r0) else ret ()) (resumePaused api))
      (thenM (if bt_ResumedAt (br_status r) = None then markResumed api else ret ()) (resumePaused api)) (\<lambda>_. ?P)"
    if h: "bt_PausedAt (br_status r) \<noteq> None \<and> \<not> resumed r"
  proof (rule agreeAt_thenM[where R = "\<lambda>r'. ok r0 r' \<and> same r r' \<and> bt_ResumedAt (br_status r') \<noteq> None"])
    have u: "\<not> Finished (bt_Phase (br_status r))" using okD(3)[OF assms(1)] h by (auto simp: endInv_def Let_def)
    then show "agreeAt r (if bt_ResumedAt (br_status r) = None then markResumed (guarded alt api r0) else ret ())
        (if bt_ResumedAt (br_status r) = None then markResumed api else ret ()) (\<lambda>_ r'. ok r0 r' \<and> same r r' \<and> bt_ResumedAt (br_status r') \<noteq> None)"
      by (intro agreeAt_if agree_markResumed agreeAt_ret) (use assms h in auto)
    fix r1 assume r1: "ok r0 r1 \<and> same r r1 \<and> bt_ResumedAt (br_status r1) \<noteq> None"
    then have "\<not> Finished (bt_Phase (br_status r1))" using u by (simp add: same_def)
    then show "agreeAt r1 (resumePaused api) (resumePaused api) (\<lambda>_. ?P)"
      by (intro agreeAt_conseq[OF agree_resumePaused[of r0]]) (use r1 same_trans in blast)+
  qed
  show ?thesis unfolding release_def guarded_reads guarded_fields
    by (intro agreeAt_bind_getS agreeAt_thenM[where R = ?P] agreeAt_if resume agreeAt_ret agreeAt_then_onW agreeAt_onW)
       (use assms in auto)
qed

lemma failures_none: "failures items = [] \<longleftrightarrow> (\<forall>i \<in> set items. bi_Phase i \<noteq> ItemFailed)"
proof -
  let ?f = "\<lambda>message i. if bi_Phase i = ItemFailed then (if message \<noteq> [] then message @ ''; '' else message) @ bi_Kind i @ '' '' @ bi_Name i @ '': '' @ bi_Message i
     else message"
  have "foldl ?f m items = [] \<longleftrightarrow> m = [] \<and> (\<forall>i \<in> set items. bi_Phase i \<noteq> ItemFailed)" for m
    by (induction items arbitrary: m) simp_all
  then show ?thesis by (simp add: failures_def)
qed

lemma agree_finish:
  assumes "ok r0 r" "\<not> Finished (bt_Phase (br_status r))" "allDone (bt_Items (br_status r))"
    and "reason = ReasonSucceeded \<Longrightarrow> (\<forall>i \<in> set (bt_Items (br_status r)). bi_Phase i \<noteq> ItemFailed)"
  shows "agreeAt r (finish (guarded alt api r0) reason m) (finish api reason m) anyQ"
proof -
  have d: "\<forall>i \<in> set (bt_Items (br_status r)). bi_Phase i \<noteq> ItemPending \<and> (bi_Kind i = ''Cluster'' \<longrightarrow> bi_Phase i \<noteq> ItemRunning)"
    using assms(3) by (simp add: allDone_def list_all_iff)
  show ?thesis unfolding finish_def
  proof (rule agreeAt_thenM[OF agree_release])
    fix r1 assume r1: "ok r0 r1 \<and> same r r1 \<and> (bt_PausedAt (br_status r1) = None \<or> resumed r1)"
    have k: "ok r0 (r1\<lparr>br_status := (br_status r1)\<lparr>bt_Phase := (if reason \<noteq> ReasonSucceeded then RunPhaseFailed else RunPhaseSucceeded),
        bt_CompletedAt := Some now, bt_Workload := []\<rparr>\<rparr>)" for now
      by (rule ok_finished) (use r1 assms(2-4) in \<open>auto simp: same_def Finished_def split: if_splits\<close>)
    show "agreeAt r1 (bindM (nowM (guarded alt api r0)) (\<lambda>now.
        thenM (modStatus (\<lambda>st. st\<lparr>bt_Phase := (if reason \<noteq> ReasonSucceeded then RunPhaseFailed else RunPhaseSucceeded), bt_CompletedAt := Some now, bt_Workload := []\<rparr>)) (
        thenM (setReadyB (guarded alt api r0) CondTrue reason m) (
        thenM (writeStatus (guarded alt api r0)) (dropFinalizer (guarded alt api r0))))))
      (bindM (nowM api) (\<lambda>now.
        thenM (modStatus (\<lambda>st. st\<lparr>bt_Phase := (if reason \<noteq> ReasonSucceeded then RunPhaseFailed else RunPhaseSucceeded), bt_CompletedAt := Some now, bt_Workload := []\<rparr>)) (
        thenM (setReadyB api CondTrue reason m) (
        thenM (writeStatus api) (dropFinalizer api))))) anyQ"
      unfolding guarded_reads guarded_fields nowM_def modStatus_def setReadyB_def
      by (intro agreeAt_bind_onW agreeAt_then_modS agreeAt_thenM[OF agree_writeStatus] ok_conditions k TrueI agreeAt_same)
  qed (use assms(1) d in auto)
qed

lemma agree_abort:
  assumes "ok r0 r" "\<not> Finished (bt_Phase (br_status r))" "reason \<noteq> ReasonSucceeded"
  shows "agreeAt r (abort (guarded alt api r0) reason m) (abort api reason m) anyQ"
  unfolding abort_def modStatus_def
  by (intro agreeAt_then_modS agree_finish ok_failed) (use assms in \<open>simp_all add: allDone_failUnfinished\<close>)

lemma itemsOf_pending:
  assumes "itemsOf api run w = (Inr items, w')" "i \<in> set items"
  shows "\<exists>n. i = pendingItem ''ReplicationSource'' n \<or> i = pendingItem ''Cluster'' n"
proof -
  let ?Q = "\<lambda>items (_ :: 'a). \<forall>i \<in> set items. \<exists>n. i = pendingItem ''ReplicationSource'' n \<or> i = pendingItem ''Cluster'' n"
  have h: "hoare (\<lambda>_. True) (itemsOf api run) ?Q (\<lambda>_. True)"
    unfolding itemsOf_def Let_def
    by (intro hoare_intros hoare_bindM[where R = "\<lambda>_ _. True"]) (auto intro: hoareI)
  show ?thesis using hoareD_Inr[OF h TrueI assms(1)] assms(2) by blast
qed

lemma reasons_distinct:
  "ReasonInvalid \<noteq> ReasonSucceeded" "ReasonFailed \<noteq> ReasonSucceeded" "ReasonTimedOut \<noteq> ReasonSucceeded" "ReasonEvicted \<noteq> ReasonSucceeded"
  by (simp_all add: ReasonInvalid_def ReasonFailed_def ReasonTimedOut_def ReasonEvicted_def ReasonSucceeded_def)

lemma agree_plan:
  assumes "ok r0 r" "bt_Phase (br_status r) = RunPhaseNone"
  shows "agreeAt r (plan (guarded alt api r0)) (plan api) anyQ"
proof -
  have i: "bt_Items (br_status r) = []" using okD(2)[OF assms(1)] assms(2) by (simp add: timesInv_def Let_def)
  have u: "\<not> Finished (bt_Phase (br_status r))" using assms(2) by (simp add: Finished_def)
  have "agreeAt r
      (case x of Inl err \<Rightarrow> thenM (finish (guarded alt api r0) ReasonInvalid (errText err)) (ret None)
       | Inr items \<Rightarrow> thenM (modStatus (\<lambda>st. st\<lparr>bt_Items := items, bt_Phase := RunPhaseQueued\<rparr>)) (
           thenM (setReadyB api CondFalse ReasonQueued queuedMessage) (afterM second (writeStatus (guarded alt api r0)))))
      (case x of Inl err \<Rightarrow> thenM (finish api ReasonInvalid (errText err)) (ret None)
       | Inr items \<Rightarrow> thenM (modStatus (\<lambda>st. st\<lparr>bt_Items := items, bt_Phase := RunPhaseQueued\<rparr>)) (
           thenM (setReadyB api CondFalse ReasonQueued queuedMessage) (afterM second (writeStatus api)))) anyQ"
    if w: "attempt (itemsOf api r) w = (Inr x, w')" for x w w'
  proof (cases x)
    case (Inl err)
    then show ?thesis by (simp, intro agree_none agree_finish assms u) (simp_all add: i reasons_distinct allDone_def)
  next
    case (Inr items)
    then have "itemsOf api r w = (Inr items, w')" using w by (simp add: attempt_def split: prod.splits)
    then show ?thesis unfolding Inr sum.case modStatus_def setReadyB_def
      by (intro agreeAt_then_modS agree_after agree_writeStatus ok_conditions ok_planned assms itemsOf_pending) simp_all
  qed
  then show ?thesis unfolding plan_def guarded_reads attempt_onW
    by (intro agreeAt_bind_getS agreeAt_bind_onW)
qed

lemma agreeAt_sum [agree_intros]:
  "(\<And>e. x = Inl e \<Longrightarrow> agreeAt r (g e) (g' e) Q) \<Longrightarrow> (\<And>y. x = Inr y \<Longrightarrow> agreeAt r (f y) (f' y) Q) \<Longrightarrow>
   agreeAt r (case x of Inl e \<Rightarrow> g e | Inr y \<Rightarrow> f y) (case x of Inl e \<Rightarrow> g' e | Inr y \<Rightarrow> f' y) Q"
  by (cases x) auto

lemma agreeAt_option [agree_intros]:
  "(x = None \<Longrightarrow> agreeAt r g g' Q) \<Longrightarrow> (\<And>y. x = Some y \<Longrightarrow> agreeAt r (f y) (f' y) Q) \<Longrightarrow>
   agreeAt r (case x of None \<Rightarrow> g | Some y \<Rightarrow> f y) (case x of None \<Rightarrow> g' | Some y \<Rightarrow> f' y) Q"
  by (cases x) auto

lemma agreeAt_prod [agree_intros]:
  "(\<And>a b. x = (a, b) \<Longrightarrow> agreeAt r (f a b) (f' a b) Q) \<Longrightarrow> agreeAt r (case x of (a, b) \<Rightarrow> f a b) (case x of (a, b) \<Rightarrow> f' a b) Q"
  by (cases x) auto

lemma agree_queueM:
  assumes "ok r0 r"
  shows "agreeAt r (queueM api m) (queueM api m) (\<lambda>_ r'. ok r0 r' \<and> same r r')"
  unfolding queueM_def modStatus_def
  by (intro agreeAt_bind_getS agreeAt_prod agreeAt_then_modS agreeAt_ret conjI ok_conditions assms) (simp add: same_def)

lemma agree_admitted:
  assumes "ok r0 r" "\<not> Finished (bt_Phase (br_status r))" "bt_StartedAt (br_status r) = None"
  shows "agreeAt r (admitted (guarded alt api r0) x) (admitted api x) anyQ"
proof -
  have s: "agreeAt r (start (guarded alt api r0)) (start api) anyQ"
    unfolding start_def guarded_reads guarded_fields nowM_def modStatus_def setReadyB_def
    by (intro agreeAt_bind_onW agreeAt_then_modS agree_after agree_writeStatus ok_conditions ok_started assms TrueI)
  show ?thesis unfolding admitted_def guarded_fields attempt_onW
    by (intro agreeAt_if agreeAt_ret TrueI agreeAt_then_onW agreeAt_bind_getS agreeAt_bind_onW agreeAt_sum agree_none agreeAt_failM
        agree_abort assms reasons_distinct s)
qed

lemma agree_admit:
  assumes "ok r0 r" "\<not> Finished (bt_Phase (br_status r))" "bt_StartedAt (br_status r) = None"
  shows "agreeAt r (admit (guarded alt api r0)) (admit api) anyQ"
proof -
  have q: "agreeAt r (bindM (queueM api m) (\<lambda>changed. if changed then afterM d (writeStatus (guarded alt api r0)) else ret (Some d)))
      (bindM (queueM api m) (\<lambda>changed. if changed then afterM d (writeStatus api) else ret (Some d))) anyQ" for m d
    by (rule agreeAt_bindM[OF agree_queueM[OF assms(1)]]) (intro agreeAt_if agree_after agree_writeStatus agreeAt_ret TrueI; simp)
  have e: "agreeAt r
      (bindM (queueM api m) (\<lambda>queued. thenM (if bt_Workload (br_status r) \<noteq> m_name (kw_meta x) \<or> queued
         then thenM (modStatus (\<lambda>st. st\<lparr>bt_Workload := m_name (kw_meta x)\<rparr>)) (writeStatus (guarded alt api r0)) else ret ()) (admitted (guarded alt api r0) x)))
      (bindM (queueM api m) (\<lambda>queued. thenM (if bt_Workload (br_status r) \<noteq> m_name (kw_meta x) \<or> queued
         then thenM (modStatus (\<lambda>st. st\<lparr>bt_Workload := m_name (kw_meta x)\<rparr>)) (writeStatus api) else ret ()) (admitted api x))) anyQ" for m x
  proof (rule agreeAt_bindM[OF agree_queueM[OF assms(1)]])
    fix q r1 assume r1: "ok r0 r1 \<and> same r r1"
    then have r1': "ok r0 r1" "\<not> Finished (bt_Phase (br_status r1))" "bt_StartedAt (br_status r1) = None" using assms by (simp_all add: same_def)
    show "agreeAt r1 (thenM (if bt_Workload (br_status r) \<noteq> m_name (kw_meta x) \<or> q
         then thenM (modStatus (\<lambda>st. st\<lparr>bt_Workload := m_name (kw_meta x)\<rparr>)) (writeStatus (guarded alt api r0)) else ret ()) (admitted (guarded alt api r0) x))
       (thenM (if bt_Workload (br_status r) \<noteq> m_name (kw_meta x) \<or> q
         then thenM (modStatus (\<lambda>st. st\<lparr>bt_Workload := m_name (kw_meta x)\<rparr>)) (writeStatus api) else ret ()) (admitted api x)) anyQ"
      unfolding modStatus_def
      by (rule agreeAt_thenM[where R = "\<lambda>r'. ok r0 r' \<and> \<not> Finished (bt_Phase (br_status r')) \<and> bt_StartedAt (br_status r') = None"])
         (intro agreeAt_if agreeAt_then_modS agree_writeStatus ok_rv ok_workload agreeAt_ret conjI r1', use r1' in \<open>simp_all add: agree_admitted\<close>)
  qed
  show ?thesis unfolding admit_def guarded_fields guarded_reads attempt_onW Let_def
    by (intro agreeAt_bind_getS agreeAt_bind_onW agreeAt_sum agreeAt_if agreeAt_failM q e)
qed

lemma agree_endIfEvicted:
  assumes "ok r0 r" "\<not> Finished (bt_Phase (br_status r))"
  shows "agreeAt r (endIfEvicted (guarded alt api r0)) (endIfEvicted api) (\<lambda>ended r'. \<not> ended \<longrightarrow> r' = r)"
proof -
  have a: "agreeAt r (thenM (abort (guarded alt api r0) ReasonEvicted m) (ret True)) (thenM (abort api ReasonEvicted m) (ret True)) (\<lambda>ended r'. \<not> ended \<longrightarrow> r' = r)" for m
    by (rule agreeAt_thenM[OF agree_abort[OF assms reasons_distinct(4)]]) (intro agreeAt_ret, simp)
  show ?thesis unfolding endIfEvicted_def guarded_fields attempt_onW
    by (intro agreeAt_bind_getS agreeAt_if agreeAt_ret agreeAt_bind_onW agreeAt_sum agreeAt_option a) simp_all
qed

lemma addNames_grows: "set recorded \<subseteq> set (addNames names recorded)"
  unfolding addNames_def by (induction names arbitrary: recorded) (auto simp: subset_iff)

lemma agree_takeLeases:
  assumes "ok r0 r"
  shows "agreeAt r (takeLeases (guarded alt api r0) names) (takeLeases api names) (\<lambda>_ r'. ok r0 r' \<and> same r r' \<and> samePause r r')"
proof -
  have "agreeAt r (if b then thenM (modStatus (\<lambda>st. st\<lparr>bt_Leases := addNames names (bt_Leases (br_status r))\<rparr>)) (writeStatus (guarded alt api r0)) else ret ())
     (if b then thenM (modStatus (\<lambda>st. st\<lparr>bt_Leases := addNames names (bt_Leases (br_status r))\<rparr>)) (writeStatus api) else ret ())
     (\<lambda>_ r'. ok r0 r' \<and> same r r' \<and> samePause r r')" for b
    unfolding modStatus_def
    by (intro agreeAt_if agreeAt_then_modS agree_writeStatus agreeAt_ret conjI ok_rv ok_leases addNames_grows assms)
       (simp_all add: same_def samePause_def sameObject_def)
  then show ?thesis unfolding takeLeases_def holding_def Let_def onW_takeLoop[symmetric] guarded_fields
    by (intro agreeAt_bind_getS agreeAt_bindM agreeAt_thenM agreeAt_onW agreeAt_prod agreeAt_ret) auto
qed

lemma pausePlan_unmarked:
  assumes "pausePlan c targets w = (Inr (paused, suspend), w')" "p \<in> set paused"
  shows "\<not> pw_Resumed p"
  using assms by (auto simp: pausePlan_def bindM_Inr_iff pausedOf_def)

lemma agree_pauseRun:
  assumes "ok r0 r" "\<not> Finished (bt_Phase (br_status r))" "bt_StartedAt (br_status r) \<noteq> None"
    and "bs_All (br_spec r)" "bt_PausedAt (br_status r) = None"
  shows "agreeAt r (pauseRun (guarded alt api r0)) (pauseRun api) anyQ"
proof -
  have p: "agreeAt r
      (case x of (paused, suspend) \<Rightarrow> bindM (nowM api) (\<lambda>now.
         thenM (modStatus (\<lambda>st. st\<lparr>bt_Paused := paused, bt_SuspendedKustomizations := suspend, bt_PausedAt := Some (rfc3339Copy now),
                bt_ResumedAt := (if paused = [] then Some (rfc3339Copy now) else bt_ResumedAt st)\<rparr>)) (
         thenM (writeStatus (guarded alt api r0)) (
         bindM (onW (attempt (applyPause (ba_pause api) (m_namespace (br_meta r)) paused suspend))) (\<lambda>q. case q of
           Inl err \<Rightarrow> thenM (abort (guarded alt api r0) ReasonFailed (errText err)) (ret None) | Inr _ \<Rightarrow> ret (Some second))))))
      (case x of (paused, suspend) \<Rightarrow> bindM (nowM api) (\<lambda>now.
         thenM (modStatus (\<lambda>st. st\<lparr>bt_Paused := paused, bt_SuspendedKustomizations := suspend, bt_PausedAt := Some (rfc3339Copy now),
                bt_ResumedAt := (if paused = [] then Some (rfc3339Copy now) else bt_ResumedAt st)\<rparr>)) (
         thenM (writeStatus api) (
         bindM (onW (attempt (applyPause (ba_pause api) (m_namespace (br_meta r)) paused suspend))) (\<lambda>q. case q of
           Inl err \<Rightarrow> thenM (abort api ReasonFailed (errText err)) (ret None) | Inr _ \<Rightarrow> ret (Some second)))))) anyQ"
    if w: "pausePlan (ba_pause api) targets w = (Inr x, w')" for x targets w w'
  proof (cases x)
    case (Pair paused suspend)
    have k: "ok r0 (r\<lparr>br_status := (br_status r)\<lparr>bt_Paused := paused, bt_SuspendedKustomizations := suspend, bt_PausedAt := Some t,
        bt_ResumedAt := (if paused = [] then Some t else bt_ResumedAt (br_status r))\<rparr>\<rparr>)" for t
      by (rule ok_paused) (use assms pausePlan_unmarked[OF w[unfolded Pair]] in auto)
    show ?thesis unfolding Pair prod.case nowM_def modStatus_def
      by (intro agreeAt_bind_onW agreeAt_then_modS agreeAt_thenM[where R = "\<lambda>r'. ok r0 r' \<and> \<not> Finished (bt_Phase (br_status r'))", OF agree_writeStatus]
            k agreeAt_sum agree_none agree_abort reasons_distinct agreeAt_ret TrueI conjI ok_rv[OF k]) (use assms(2) in simp_all)
  qed
  show ?thesis unfolding pauseRun_def guarded_reads guarded_fields guarded_loops attempt_onW Let_def
    by (intro agreeAt_bind_getS agreeAt_bind_onW agreeAt_option agree_after agree_waitFor assms p)
qed

section \<open>The loops over the items\<close>

lemma agreeAt_upt:
  assumes "\<And>k r. k < n \<Longrightarrow> I k r \<Longrightarrow> agreeAt r (f k) (f' k) (\<lambda>_. I (Suc k))"
  shows "m \<le> n \<Longrightarrow> I m r \<Longrightarrow> agreeAt r (forM [m..<n] f) (forM [m..<n] f') (\<lambda>_. I n)"
proof (induction "n - m" arbitrary: m r)
  case 0
  then show ?case by (simp add: agreeAt_ret)
next
  case (Suc d)
  then have "[m..<n] = m # [Suc m..<n]" by (simp add: upt_conv_Cons)
  then show ?case using Suc assms[of m r] by (auto intro!: agreeAt_thenM[where R = "I (Suc m)"])
qed

text \<open>The runs between the first and the \<open>k\<close>-th iteration: only earlier items changed.\<close>

definition loopInv :: "backupRun \<Rightarrow> backupRun \<Rightarrow> nat \<Rightarrow> backupRun \<Rightarrow> bool" where
  "loopInv r0 r1 k r = (ok r0 r \<and> samePause r1 r \<and> same (r1\<lparr>br_status := (br_status r1)\<lparr>bt_Items := bt_Items (br_status r)\<rparr>\<rparr>) r \<and>
     length (bt_Items (br_status r)) = length (bt_Items (br_status r1)) \<and>
     (\<forall>j. k \<le> j \<longrightarrow> j < length (bt_Items (br_status r1)) \<longrightarrow> bt_Items (br_status r) ! j = bt_Items (br_status r1) ! j))"

lemma loopInv_init: "ok r0 r \<Longrightarrow> loopInv r0 r 0 r"
  by (simp add: loopInv_def same_def)

lemma loopInv_skip: "loopInv r0 r1 k r \<Longrightarrow> loopInv r0 r1 (Suc k) r"
  by (simp add: loopInv_def)

lemma loopInv_fields:
  assumes "loopInv r0 r1 k r"
  shows "ok r0 r" "bt_Phase (br_status r) = bt_Phase (br_status r1)" "m_deletion (br_meta r) = m_deletion (br_meta r1)"
    "br_spec r = br_spec r1" "bt_PausedAt (br_status r) = bt_PausedAt (br_status r1)" "bt_StartedAt (br_status r) = bt_StartedAt (br_status r1)"
    "length (bt_Items (br_status r)) = length (bt_Items (br_status r1))"
    "bt_Paused (br_status r) = bt_Paused (br_status r1)" "bt_ResumedAt (br_status r) = bt_ResumedAt (br_status r1)"
  using assms by (simp_all add: loopInv_def same_def samePause_def sameObject_def)

lemma loopInv_set:
  assumes "loopInv r0 r1 k r" "\<not> Finished (bt_Phase (br_status r1))" "m_deletion (br_meta r1) = None" "k < length (bt_Items (br_status r1))"
    and "itemStep (bt_Items (br_status r) ! k) j" "newItem r j"
    and "bi_Phase (bt_Items (br_status r) ! k) = ItemPending \<or> bi_Phase (bt_Items (br_status r) ! k) = ItemRunning"
  shows "loopInv r0 r1 (Suc k) (r\<lparr>br_status := setItem k j (br_status r)\<rparr>)"
proof -
  have "ok r0 (r\<lparr>br_status := setItem k j (br_status r)\<rparr>)"
    by (rule ok_setItem) (use assms loopInv_fields[OF assms(1)] in simp_all)
  then show ?thesis using assms(1) by (simp add: loopInv_def same_def samePause_def setItem_def sameObject_def)
qed

definition startedTo :: "backupRun \<Rightarrow> backupRun \<Rightarrow> nat \<Rightarrow> backupRun \<Rightarrow> bool" where
  "startedTo r0 r1 k r = (loopInv r0 r1 k r \<and>
     (\<forall>j < length (bt_Items (br_status r1)). j < k \<longrightarrow> bi_Phase (bt_Items (br_status r) ! j) \<noteq> ItemPending) \<and>
     (\<forall>j < length (bt_Items (br_status r1)). bi_SnapshotID (bt_Items (br_status r) ! j) \<noteq> [] \<longrightarrow>
        bt_Items (br_status r) ! j = bt_Items (br_status r1) ! j))"

lemma agree_startItems:
  assumes "ok r0 r1" "\<not> Finished (bt_Phase (br_status r1))" "m_deletion (br_meta r1) = None"
    and pause: "bs_All (br_spec r1) \<Longrightarrow> bt_PausedAt (br_status r1) \<noteq> None"
    and start: "anyPending (bt_Items (br_status r1)) \<Longrightarrow> startOk api r0"
  shows "agreeAt r1 (forItems ItemPending (startItem (guarded alt api r0))) (forItems ItemPending (startItem api))
    (\<lambda>_. startedTo r0 r1 (length (bt_Items (br_status r1))))"
  unfolding forItems_def
proof (intro agreeAt_bind_getS agreeAt_upt[where I = "startedTo r0 r1"])
  show "startedTo r0 r1 0 r1" using loopInv_init[OF assms(1)] by (simp add: startedTo_def)
  fix k r assume k: "k < length (bt_Items (br_status r1))" and r: "startedTo r0 r1 k r"
  let ?i = "bt_Items (br_status r) ! k"
  have l: "loopInv r0 r1 k r" using r by (simp add: startedTo_def)
  note f = loopInv_fields[OF l]
  have i: "itemInv r ?i" using okD(5)[OF f(1)] k f(7) by simp
  show "agreeAt r (eachItem ItemPending (startItem (guarded alt api r0)) k) (eachItem ItemPending (startItem api) k) (\<lambda>_. startedTo r0 r1 (Suc k))"
    unfolding eachItem_def Let_def modStatus_def
  proof (intro agreeAt_bind_getS agreeAt_if agreeAt_ret)
    assume n: "bi_Phase ?i \<noteq> ItemPending"
    then show "startedTo r0 r1 (Suc k) r" using r loopInv_skip[OF l] less_Suc_eq by (auto simp: startedTo_def)
  next
    assume p: "bi_Phase ?i = ItemPending"
    have "?i = bt_Items (br_status r1) ! k" using l k by (simp add: loopInv_def)
    then have "anyPending (bt_Items (br_status r1))" using p k by (auto simp: anyPending_def list_ex_length)
    then have e: "startItem (guarded alt api r0) r ?i = startItem api r ?i" by (intro startItem_guarded start)
    have st: "startedTo r0 r1 (Suc k) (r\<lparr>br_status := setItem k j (br_status r)\<rparr>)" if j: "started r ?i j" for j
    proof -
      have j': "itemStep ?i j" "newItem r j" "bi_Phase j \<noteq> ItemPending" "bi_SnapshotID j = []"
        using j pause f(4,5) by (auto simp: started_def newItem_def)
      have "loopInv r0 r1 (Suc k) (r\<lparr>br_status := setItem k j (br_status r)\<rparr>)"
        by (rule loopInv_set) (use l k p j' assms in simp_all)
      then show ?thesis using r j'(3,4) k f(7) by (auto simp: startedTo_def setItem_def nth_list_update less_Suc_eq)
    qed
    show "agreeAt r (bindM (onW (startItem (guarded alt api r0) r ?i)) (\<lambda>item'. modS (\<lambda>run. run\<lparr>br_status := setItem k item' (br_status run)\<rparr>)))
        (bindM (onW (startItem api r ?i)) (\<lambda>item'. modS (\<lambda>run. run\<lparr>br_status := setItem k item' (br_status run)\<rparr>))) (\<lambda>_. startedTo r0 r1 (Suc k))"
      unfolding e by (intro agreeAt_bind_onW agreeAt_modS) (rule st, erule returns_Inr[OF startItem_returns[OF i p]])
  qed
qed simp

lemma tags_kept:
  assumes "list_all2 itemStep xs ys" "\<forall>i \<in> set xs. bi_Kind i = ''Cluster'' \<longrightarrow> itemDone i"
  shows "map (\<lambda>i. if bi_Kind i \<noteq> ''Cluster'' then [] else f i) ys = map (\<lambda>i. if bi_Kind i \<noteq> ''Cluster'' then [] else f i) xs"
  using assms
proof (induction rule: list_all2_induct)
  case (Cons x xs y ys)
  have "(if bi_Kind y \<noteq> ''Cluster'' then [] else f y) = (if bi_Kind x \<noteq> ''Cluster'' then [] else f x)"
    using Cons(1) Cons.prems unfolding itemStep_def by (metis list.set_intros(1))
  then show ?case using Cons by simp
qed simp

text \<open>A Running item with a snapshot ID that the pass read with the run may be moved.\<close>

lemma moveOkI:
  assumes r0: "runInv r0" "m_deletion (br_meta r0) = None" "bt_Phase (br_status r0) \<noteq> RunPhaseNone" and r: "advance r0 r"
    and i: "i \<in> set (bt_Items (br_status r0))" "bi_Kind i = ''ReplicationSource''" "bi_Phase i = ItemRunning" "bi_SnapshotID i \<noteq> []"
    and t: "bt_ResumedAt (br_status r) = Some t"
  shows "moveOk r0 (bi_SnapshotID i) t (PausedTag # baseBackupTags r)"
proof -
  have "itemInv r0 i" "orderInv r0" using r0(1) i(1) by (simp_all add: runInv_def)
  then have p: "bt_Paused (br_status r0) \<noteq> []" "bt_ResumedAt (br_status r0) \<noteq> None" "\<not> databaseFailed r0"
    using i(2-4) by (simp_all add: itemInv_def Let_def)
  have d: "\<forall>i \<in> set (bt_Items (br_status r0)). bi_Kind i = ''Cluster'' \<longrightarrow> itemDone i"
    using \<open>orderInv r0\<close> p r0(2) by (simp add: orderInv_def itemDone_def Let_def)
  have l: "list_all2 itemStep (bt_Items (br_status r0)) (bt_Items (br_status r))" "bt_ResumedAt (br_status r0) = Some t"
    using r r0(3) p(2) t by (simp_all add: advance_def statusAdvance_def keptOnce_def)
  have "baseBackupTags r = baseBackupTags r0"
    unfolding baseBackupTags_def by (rule arg_cong[where f = concat]) (rule tags_kept[OF l(1) d])
  then show ?thesis using i p(3) d l(2) unfolding moveOk_def by (auto simp: list_ex_iff list_all_iff)
qed

lemma agree_collectItems:
  assumes r1: "ok r0 r1" "\<not> Finished (bt_Phase (br_status r1))" "m_deletion (br_meta r1) = None" "bt_StartedAt (br_status r1) \<noteq> None"
    and pause: "bs_All (br_spec r1) \<Longrightarrow> bt_PausedAt (br_status r1) \<noteq> None"
    and r0: "runInv r0" "m_deletion (br_meta r0) = None" "bt_Phase (br_status r0) \<noteq> RunPhaseNone"
    and old: "\<And>j. j < length (bt_Items (br_status r1)) \<Longrightarrow> bi_SnapshotID (bt_Items (br_status r1) ! j) \<noteq> [] \<Longrightarrow>
      bt_Items (br_status r1) ! j \<in> set (bt_Items (br_status r0))"
  shows "agreeAt r1 (forItems ItemRunning (collectItem (guarded alt api r0))) (forItems ItemRunning (collectItem api))
    (\<lambda>_. loopInv r0 r1 (length (bt_Items (br_status r1))))"
  unfolding forItems_def
proof (intro agreeAt_bind_getS agreeAt_upt[where I = "loopInv r0 r1"])
  show "loopInv r0 r1 0 r1" by (rule loopInv_init[OF r1(1)])
  fix k r assume k: "k < length (bt_Items (br_status r1))" and l: "loopInv r0 r1 k r"
  let ?i = "bt_Items (br_status r) ! k"
  note f = loopInv_fields[OF l]
  have i: "itemInv r ?i" using okD(5)[OF f(1)] k f(7) by simp
  have i1: "?i = bt_Items (br_status r1) ! k" using l k by (simp add: loopInv_def)
  show "agreeAt r (eachItem ItemRunning (collectItem (guarded alt api r0)) k) (eachItem ItemRunning (collectItem api) k) (\<lambda>_. loopInv r0 r1 (Suc k))"
    unfolding eachItem_def Let_def modStatus_def
  proof (intro agreeAt_bind_getS agreeAt_if agreeAt_ret loopInv_skip[OF l])
    assume p: "bi_Phase ?i = ItemRunning"
    have e: "collectItem (guarded alt api r0) r ?i = collectItem api r ?i"
    proof (rule collectItem_guarded)
      fix t assume h: "bi_Kind ?i = ''ReplicationSource''" "bi_SnapshotID ?i \<noteq> []" "bt_ResumedAt (br_status r) = Some t"
      show "moveOk r0 (bi_SnapshotID ?i) t (PausedTag # baseBackupTags r)"
        by (rule moveOkI[OF r0]) (use f(1) old[OF k] h p i1 in \<open>auto simp: ok_def\<close>)
    qed
    have st: "loopInv r0 r1 (Suc k) (r\<lparr>br_status := setItem k j (br_status r)\<rparr>)" if j: "collected r ?i j" for j
    proof -
      have "itemStep ?i j" "newItem r j" using j pause f(4,5) by (auto simp: collected_def newItem_def)
      then show ?thesis by (intro loopInv_set l r1(2,3) k) (use p in simp_all)
    qed
    show "agreeAt r (bindM (onW (collectItem (guarded alt api r0) r ?i)) (\<lambda>item'. modS (\<lambda>run. run\<lparr>br_status := setItem k item' (br_status run)\<rparr>)))
        (bindM (onW (collectItem api r ?i)) (\<lambda>item'. modS (\<lambda>run. run\<lparr>br_status := setItem k item' (br_status run)\<rparr>))) (\<lambda>_. loopInv r0 r1 (Suc k))"
      unfolding e by (intro agreeAt_bind_onW agreeAt_modS) (rule st, erule returns_Inr[OF collectItem_returns[OF i p]])
  qed
qed simp

section \<open>Whole passes\<close>

lemma agree_resumeRun:
  assumes "ok r0 r" "\<not> Finished (bt_Phase (br_status r))" "bt_PausedAt (br_status r) \<noteq> None"
    and p: "\<And>i. i \<in> set (bt_Items (br_status r)) \<Longrightarrow> bi_Phase i \<noteq> ItemPending"
  shows "agreeAt r (resumeRun (guarded alt api r0)) (resumeRun api) (\<lambda>_ r'. ok r0 r' \<and> same r r')"
proof -
  have m: "agreeAt r (if bt_ResumedAt (br_status r) = None then markResumed (guarded alt api r0) else ret ())
      (if bt_ResumedAt (br_status r) = None then markResumed api else ret ())
      (\<lambda>_ r'. ok r0 r' \<and> same r r' \<and> bt_ResumedAt (br_status r') \<noteq> None)"
    if "bt_ResumedAt (br_status r) = None \<Longrightarrow> \<not> databasesRunning r"
    by (intro agreeAt_if agree_markResumed agreeAt_ret) (use assms that in \<open>auto simp: databasesRunning_def list_ex_iff\<close>)
  have a: "agreeAt r'
      (bindM getS (\<lambda>run. if resumed run then ret () else resumePaused api)) (bindM getS (\<lambda>run. if resumed run then ret () else resumePaused api))
      (\<lambda>_ r'. ok r0 r' \<and> same r r')" if r': "ok r0 r' \<and> same r r' \<and> bt_ResumedAt (br_status r') \<noteq> None" for r'
  proof -
    have "\<not> Finished (bt_Phase (br_status r'))" using r' assms(2) by (simp add: same_def)
    then show ?thesis using r'
      by (intro agreeAt_bind_getS agreeAt_if agreeAt_ret agreeAt_conseq[OF agree_resumePaused[of r0]]) (auto intro: same_trans)
  qed
  have c: "agreeAt r
      (if \<not> ready then ret () else thenM (if bt_ResumedAt (br_status r) = None then markResumed (guarded alt api r0) else ret ())
         (bindM getS (\<lambda>run. if resumed run then ret () else resumePaused api)))
      (if \<not> ready then ret () else thenM (if bt_ResumedAt (br_status r) = None then markResumed api else ret ())
         (bindM getS (\<lambda>run. if resumed run then ret () else resumePaused api))) (\<lambda>_ r'. ok r0 r' \<and> same r r')"
    if "ready \<Longrightarrow> bt_ResumedAt (br_status r) = None \<Longrightarrow> \<not> databasesRunning r" for ready
    by (intro agreeAt_if agreeAt_ret agreeAt_thenM[OF m] a) (use that assms(1) in auto)
  show ?thesis unfolding resumeRun_def guarded_reads
  proof (intro agreeAt_bind_getS agreeAt_bindM[where R = "\<lambda>ready r'. r' = r \<and> (ready \<longrightarrow> bt_ResumedAt (br_status r) = None \<longrightarrow> \<not> databasesRunning r)"])
    show "agreeAt r
      (if bt_ResumedAt (br_status r) = None then bindM (onW (clonesCut api r)) (\<lambda>cut. ret (cut \<and> \<not> databasesRunning r)) else ret True)
      (if bt_ResumedAt (br_status r) = None then bindM (onW (clonesCut api r)) (\<lambda>cut. ret (cut \<and> \<not> databasesRunning r)) else ret True)
      (\<lambda>ready r'. r' = r \<and> (ready \<longrightarrow> bt_ResumedAt (br_status r) = None \<longrightarrow> \<not> databasesRunning r))"
      by (intro agreeAt_if agreeAt_bind_onW agreeAt_ret) auto
  qed (elim conjE, hypsubst, rule c, simp)
qed

lemma agree_conclude:
  assumes "ok r0 r" "\<not> Finished (bt_Phase (br_status r))" "bt_StartedAt (br_status r) \<noteq> None"
  shows "agreeAt r (conclude (guarded alt api r0)) (conclude api) anyQ"
  unfolding conclude_def modStatus_def setReadyB_def guarded_fields Let_def
  by (intro agreeAt_bind_getS agreeAt_if agree_none agree_finish agreeAt_then_modS agree_after agree_writeStatus ok_conditions ok_running assms TrueI)
     (auto simp: failures_none reasons_distinct)

lemma agree_workItems:
  assumes r: "ok r0 r" "\<not> Finished (bt_Phase (br_status r))" "m_deletion (br_meta r) = None" "bt_StartedAt (br_status r) \<noteq> None"
    and pause: "bs_All (br_spec r) \<Longrightarrow> bt_PausedAt (br_status r) \<noteq> None"
    and start: "anyPending (bt_Items (br_status r)) \<Longrightarrow> startOk api r0"
    and r0: "runInv r0" "bt_Items (br_status r) = bt_Items (br_status r0)" "m_deletion (br_meta r0) = None" "bt_Phase (br_status r0) \<noteq> RunPhaseNone"
  shows "agreeAt r (workItems (guarded alt api r0)) (workItems api) anyQ"
proof -
  let ?J = "\<lambda>r1. ok r0 r1 \<and> \<not> Finished (bt_Phase (br_status r1)) \<and> m_deletion (br_meta r1) = None \<and> bt_StartedAt (br_status r1) \<noteq> None \<and>
     (bs_All (br_spec r1) \<longrightarrow> bt_PausedAt (br_status r1) \<noteq> None) \<and>
     (\<forall>j < length (bt_Items (br_status r1)). bi_SnapshotID (bt_Items (br_status r1) ! j) \<noteq> [] \<longrightarrow> bt_Items (br_status r1) ! j \<in> set (bt_Items (br_status r0)))"
  have s: "agreeAt r (forItems ItemPending (startItem (guarded alt api r0))) (forItems ItemPending (startItem api))
      (\<lambda>_ r1. ?J r1 \<and> (\<forall>i \<in> set (bt_Items (br_status r1)). bi_Phase i \<noteq> ItemPending))"
  proof (rule agreeAt_conseq[OF agree_startItems[OF r(1-3) pause start]])
    fix r1 assume a: "startedTo r0 r (length (bt_Items (br_status r))) r1"
    then have l: "loopInv r0 r (length (bt_Items (br_status r))) r1" by (simp add: startedTo_def)
    note f = loopInv_fields[OF l]
    have "bt_Items (br_status r1) ! j \<in> set (bt_Items (br_status r0))"
      if "j < length (bt_Items (br_status r1))" "bi_SnapshotID (bt_Items (br_status r1) ! j) \<noteq> []" for j
      using a that f(7) unfolding startedTo_def r0(2)[symmetric] by auto
    moreover have "\<forall>i \<in> set (bt_Items (br_status r1)). bi_Phase i \<noteq> ItemPending"
      using a f(7) by (auto simp: startedTo_def in_set_conv_nth)
    ultimately show "?J r1 \<and> (\<forall>i \<in> set (bt_Items (br_status r1)). bi_Phase i \<noteq> ItemPending)" using r f pause by simp
  qed
  have m: "agreeAt r1 (if bs_All (br_spec r1) \<and> bt_PausedAt (br_status r1) \<noteq> None then resumeRun (guarded alt api r0) else ret ())
      (if bs_All (br_spec r1) \<and> bt_PausedAt (br_status r1) \<noteq> None then resumeRun api else ret ()) (\<lambda>_. ?J)"
    if "?J r1 \<and> (\<forall>i \<in> set (bt_Items (br_status r1)). bi_Phase i \<noteq> ItemPending)" for r1
    by (intro agreeAt_if agreeAt_ret agreeAt_conseq[OF agree_resumeRun[of r0]]) (use that in \<open>auto simp: same_def sameObject_def\<close>)
  have c: "agreeAt r1 (forItems ItemRunning (collectItem (guarded alt api r0))) (forItems ItemRunning (collectItem api))
      (\<lambda>_ r2. ok r0 r2 \<and> \<not> Finished (bt_Phase (br_status r2)) \<and> bt_StartedAt (br_status r2) \<noteq> None)" if "?J r1" for r1
    by (rule agreeAt_conseq[OF agree_collectItems]) (use that r0 loopInv_fields in auto)
  show ?thesis unfolding workItems_def
    by (intro agreeAt_thenM[OF s] agreeAt_bind_getS agreeAt_thenM[OF m] agreeAt_thenM[OF c] agree_conclude) auto
qed

lemma agree_workPaused:
  assumes r: "ok r0 r" "same r0 r" "samePause r0 r" "\<not> Finished (bt_Phase (br_status r0))" "m_deletion (br_meta r0) = None"
    and r0: "runInv r0" "bt_StartedAt (br_status r0) \<noteq> None"
    and pause: "bs_All (br_spec r) \<Longrightarrow> bt_PausedAt (br_status r) \<noteq> None"
  shows "agreeAt r (workPaused (guarded alt api r0)) (workPaused api) anyQ"
proof -
  have f: "\<not> Finished (bt_Phase (br_status r))" "m_deletion (br_meta r) = None" "bt_StartedAt (br_status r) \<noteq> None" "bt_Items (br_status r) = bt_Items (br_status r0)"
    using r r0(2) by (simp_all add: same_def sameObject_def)
  have n: "bt_Phase (br_status r0) \<noteq> RunPhaseNone" using r0 by (auto simp: runInv_def timesInv_def Let_def)
  have w: "agreeAt r (workItems (guarded alt api r0)) (workItems api) anyQ" if "anyPending (bt_Items (br_status r)) \<Longrightarrow> startOk api r0"
    by (rule agree_workItems) (use r r0 f n pause that in auto)
  have d: "startOk api r0" if "\<not> (bs_All (br_spec r) \<and> bt_ResumedAt (br_status r) = None \<and> anyPending (bt_Items (br_status r)))" "anyPending (bt_Items (br_status r))"
    using that r r0 pause by (auto simp: startOk_def Let_def same_def samePause_def)
  have g: "startOk api r0" if "pausedPodsGone (ba_pause api) (m_namespace (br_meta r)) (bt_Paused (br_status r)) v = (Inr (True, pod), v')" for v v' pod
  proof -
    have "pausedPodsGone (ba_pause api) (m_namespace (br_meta r0)) (bt_Paused (br_status r0)) v = (Inr (True, pod), v')"
      using that r by (simp add: same_def samePause_def sameObject_def)
    then show ?thesis using r r0(2) pause by (auto simp: startOk_def Let_def same_def)
  qed
  show ?thesis unfolding workPaused_def guarded_fields attempt_onW Let_def
    by (intro agreeAt_bind_getS agreeAt_if agreeAt_bind_onW agreeAt_sum agree_none agree_abort agreeAt_prod agree_after agree_waitFor r(1) f reasons_distinct w)
       (use d g in auto)
qed

lemma agree_work:
  assumes r: "ok r0 r" "same r0 r" "samePause r0 r" "\<not> Finished (bt_Phase (br_status r0))" "m_deletion (br_meta r0) = None"
    and r0: "runInv r0" "bt_StartedAt (br_status r0) \<noteq> None"
  shows "agreeAt r (work (guarded alt api r0)) (work api) anyQ"
proof -
  have u: "\<not> Finished (bt_Phase (br_status r))" using r by (simp add: same_def)
  let ?J = "\<lambda>r'. ok r0 r' \<and> same r r' \<and> samePause r r'"
  have l: "agreeAt r'
      (if m \<noteq> [] then afterM pollInterval (waitFor (guarded alt api r0) ReasonBusy m)
       else bindM getS (\<lambda>run. if bs_All (br_spec run) \<and> bt_PausedAt (br_status run) = None then pauseRun (guarded alt api r0) else workPaused (guarded alt api r0)))
      (if m \<noteq> [] then afterM pollInterval (waitFor api ReasonBusy m)
       else bindM getS (\<lambda>run. if bs_All (br_spec run) \<and> bt_PausedAt (br_status run) = None then pauseRun api else workPaused api)) anyQ"
    if r': "?J r'" for r' m
  proof -
    have s: "same r0 r'" "samePause r0 r'" using r' r same_trans by (auto simp: samePause_def)
    then have f: "\<not> Finished (bt_Phase (br_status r'))" "bt_StartedAt (br_status r') \<noteq> None" using r r0 by (simp_all add: same_def)
    show ?thesis
      by (intro agreeAt_if agree_after agree_waitFor agreeAt_bind_getS agree_pauseRun agree_workPaused f s r(4,5) r0) (use r' in auto)
  qed
  show ?thesis unfolding work_def guarded_reads attempt_onW
    by (rule agreeAt_bindM[OF agree_endIfEvicted[OF r(1) u]], rule agreeAt_if, rule agreeAt_same, drule (1) mp, hypsubst,
        intro agreeAt_bind_getS agreeAt_bind_onW agreeAt_sum agreeAt_if agree_none agree_abort reasons_distinct agreeAt_failM agreeAt_prod r(1) u
          agreeAt_bindM[OF agree_takeLeases[OF r(1)]] l)
qed

lemma agree_finalize:
  assumes "runInv r0" "m_deletion (br_meta r0) \<noteq> None"
  shows "agreeAt r0 (finalize (guarded alt api r0)) (finalize api) anyQ"
proof -
  have k: "ok r0 r0" using assms by (simp add: ok_def)
  show ?thesis unfolding finalize_def guarded_reads
    by (intro agreeAt_bind_getS agreeAt_if agreeAt_same agreeAt_thenM[OF agree_release[OF k]] agreeAt_thenM[where R = "\<lambda>_. True"]
        agree_writeStatus agreeAt_ret) (use assms(2) in simp_all)
qed

lemma agree_addFinalizer:
  assumes "ok r0 r"
  shows "agreeAt r (addFinalizer api) (addFinalizer api) (\<lambda>_ r'. ok r0 r' \<and> same r r' \<and> samePause r r')"
  unfolding addFinalizer_def onW_wrapM[symmetric]
  by (intro agreeAt_bind_getS agreeAt_if agreeAt_ret agreeAt_then_modS agreeAt_bind_onW agreeAt_modS conjI)
     (use assms in \<open>auto simp: same_def samePause_def sameObject_def intro!: ok_meta\<close>)

lemma agree_stage:
  assumes r: "ok r0 r" "same r0 r" "samePause r0 r" "\<not> Finished (bt_Phase (br_status r0))" "m_deletion (br_meta r0) = None" "runInv r0"
  shows "agreeAt r (stage (guarded alt api r0)) (stage api) anyQ"
proof -
  have u: "\<not> Finished (bt_Phase (br_status r))" "bt_StartedAt (br_status r) = bt_StartedAt (br_status r0)" using r by (simp_all add: same_def)
  show ?thesis unfolding stage_def guarded_fields
    by (intro agreeAt_bind_getS agreeAt_if agree_after agree_waitFor agree_plan agree_admit agree_work r u(1)) (use u in simp_all)
qed

lemma agree_pass:
  assumes "runInv r0"
  shows "agreeAt r0 (pass (guarded alt api r0)) (pass api) anyQ"
proof -
  have k: "ok r0 r0" using assms by (simp add: ok_def)
  show ?thesis unfolding pass_def guarded_fields guarded_reads nowM_def
    by (intro agreeAt_bind_getS agreeAt_if agree_none agree_finalize assms agreeAt_same agreeAt_thenM[OF agree_addFinalizer[OF k]] agree_stage)
       (use assms in auto)
qed

end
