(* ===== verification/Backup_Run_Safe.thy ===== *)
theory Backup_Run_Safe
  imports Backup_Run_Pass
begin

text \<open>
  The guarantees of the BackupRun reconciler: the invariant of the stored runs over every sequence of
  passes, the order of pause, start, resume and move, and that a run past its deadline ends.
\<close>

section \<open>The stored run\<close>

text \<open>\<open>mayWrite api r0 r\<close>: a pass on the stored run \<open>r0\<close> may send the status of \<open>r\<close>: the pass can tell
  a server apart that answers exactly this write in another way. Besides a status write, a stored run
  changes in its metadata: finalizers, labels, the deletion timestamp, which once set stays.\<close>

definition rewired :: "'w backupApi \<Rightarrow> backupRun \<Rightarrow> ('w, string) call \<Rightarrow> 'w backupApi" where
  "rewired api r f = api\<lparr>ba_updateStatus := (\<lambda>r'. if r' = r then f else ba_updateStatus api r')\<rparr>"

definition mayWrite :: "'w backupApi \<Rightarrow> backupRun \<Rightarrow> backupRun \<Rightarrow> bool" where
  "mayWrite api r0 r = (\<exists>f w. runOn r0 (pass (rewired api r f)) w \<noteq> runOn r0 (pass api) w)"

definition metaChange :: "backupRun \<Rightarrow> backupRun \<Rightarrow> bool" where
  "metaChange r r' = (\<exists>m. r' = r\<lparr>br_meta := m\<rparr> \<and> m_uid m = m_uid (br_meta r) \<and> keptOnce (m_deletion (br_meta r)) (m_deletion m))"

definition storedStep :: "'w backupApi \<Rightarrow> backupRun \<Rightarrow> backupRun \<Rightarrow> bool" where
  "storedStep api r r' = (mayWrite api r r' \<or> metaChange r r')"

definition isNewRun :: "backupRun \<Rightarrow> bool" where
  "isNewRun r = (br_status r = backupRunStatus0)"

lemma runOn_agree: "agreeAt r c c' Q \<Longrightarrow> runOn r c w = runOn r c' w"
  by (simp add: agreeAt_def runOn_def)

lemma pass_guarded: "runInv r0 \<Longrightarrow> runOn r0 (pass (guarded alt api r0)) w = runOn r0 (pass api) w"
  by (rule runOn_agree[OF agree_pass])

lemma mayWrite_ok:
  assumes "runInv r0" "mayWrite api r0 r"
  shows "runInv r \<and> advance r0 r"
proof (rule ccontr)
  assume n: "\<not> (runInv r \<and> advance r0 r)"
  have "guarded (rewired api r f) api r0 = rewired api r f" for f
  proof -
    have "(\<lambda>r'. if runInv r' \<and> advance r0 r' then ba_updateStatus api r' else ba_updateStatus (rewired api r f) r') = ba_updateStatus (rewired api r f)"
      using n by (auto simp: rewired_def fun_eq_iff)
    then show ?thesis by (simp add: guarded_def rewired_def cong: if_cong)
  qed
  then have "runOn r0 (pass (rewired api r f)) w = runOn r0 (pass api) w" for f w
    using pass_guarded[OF assms(1), of "rewired api r f" api w] by simp
  with assms(2) show False by (simp add: mayWrite_def)
qed

lemma runInv_metaChange:
  assumes "runInv r" "metaChange r r'"
  shows "runInv r' \<and> statusAdvance (br_status r) (br_status r')"
proof -
  obtain m where m: "r' = r\<lparr>br_meta := m\<rparr>" "m_uid m = m_uid (br_meta r)" "keptOnce (m_deletion (br_meta r)) (m_deletion m)"
    using assms(2) by (auto simp: metaChange_def)
  have "timesInv r' = timesInv r" by (rule timesInv_cong) (simp_all add: m)
  moreover have "endInv r' = endInv r" by (rule endInv_cong) (simp_all add: m)
  moreover have "itemInv r' = itemInv r" by (rule itemInv_cong) (simp_all add: m)
  moreover have "orderInv r'" using assms(1) m unfolding runInv_def orderInv_def keptOnce_def Let_def by auto
  ultimately show ?thesis using assms(1) m(1) by (simp add: runInv_def)
qed

lemma storedStep_ok: "runInv r \<Longrightarrow> storedStep api r r' \<Longrightarrow> runInv r' \<and> statusAdvance (br_status r) (br_status r')"
  using mayWrite_ok[of r api r'] runInv_metaChange[of r r'] by (auto simp: storedStep_def advance_def)

lemma runInv_new: "isNewRun r \<Longrightarrow> runInv r"
  by (simp add: isNewRun_def runInv_def timesInv_def endInv_def orderInv_def backupRunStatus0_def Finished_def allDone_def)

interpretation backups: inductive_invariant isNewRun "storedStep api" runInv for api
  by unfold_locales (auto intro: runInv_new dest: storedStep_ok)

lemma stored_status:
  assumes "reachable isNewRun (storedStep api) run"
  shows "let st = br_status run in
    (bt_Paused st \<noteq> [] \<longrightarrow> bs_All (br_spec run) \<and> bt_PausedAt st \<noteq> None) \<and>
    (Finished (bt_Phase st) \<longrightarrow> allDone (bt_Items st) \<and> list_all pw_Resumed (bt_Paused st)) \<and>
    (bt_Phase st = RunPhaseSucceeded \<longrightarrow> (\<forall>i \<in> set (bt_Items st). bi_Phase i \<noteq> ItemFailed)) \<and>
    (bt_ResumedAt st = None \<longrightarrow> (\<forall>p \<in> set (bt_Paused st). \<not> pw_Resumed p)) \<and>
    (m_deletion (br_meta run) = None \<and> bt_Paused st \<noteq> [] \<and> bt_ResumedAt st \<noteq> None \<longrightarrow>
       (\<forall>i \<in> set (bt_Items st). bi_Phase i \<noteq> ItemPending \<and> (bi_Kind i = ''Cluster'' \<longrightarrow> bi_Phase i \<noteq> ItemRunning)))"
proof -
  have r: "timesInv run" "endInv run" "orderInv run" using backups.reachable_inv[OF assms] by (simp_all add: runInv_def)
  have "bt_Paused (br_status run) \<noteq> [] \<Longrightarrow> bs_All (br_spec run) \<and> bt_PausedAt (br_status run) \<noteq> None"
    using r(1) unfolding timesInv_def Let_def by auto
  moreover have "Finished (bt_Phase (br_status run)) \<Longrightarrow> allDone (bt_Items (br_status run)) \<and> list_all pw_Resumed (bt_Paused (br_status run))"
    using r(1,2) unfolding endInv_def timesInv_def resumed_def Let_def by auto
  ultimately show ?thesis using r unfolding timesInv_def endInv_def orderInv_def Let_def by simp
qed

text \<open>C4. Over every sequence of passes and metadata changes, from a run that was just created, the stored
  run satisfies the invariant: only a run of the whole namespace pauses the app; a finished run has no
  unfinished item and has resumed every workload it paused; a succeeded run has no failed item; no
  workload is marked resumed before the resume was recorded; and once it was recorded, every item was
  started and every database backup ended. The next write keeps every recorded moment, every finished
  item and the final phase, and never drops a paused workload or a Lease.\<close>

theorem stored_run_invariant:
  assumes "reachable isNewRun (storedStep api) run" "storedStep api run run'"
  shows "(let st = br_status run' in
    (bt_Paused st \<noteq> [] \<longrightarrow> bs_All (br_spec run') \<and> bt_PausedAt st \<noteq> None) \<and>
    (Finished (bt_Phase st) \<longrightarrow> allDone (bt_Items st) \<and> list_all pw_Resumed (bt_Paused st)) \<and>
    (bt_Phase st = RunPhaseSucceeded \<longrightarrow> (\<forall>i \<in> set (bt_Items st). bi_Phase i \<noteq> ItemFailed)) \<and>
    (bt_ResumedAt st = None \<longrightarrow> (\<forall>p \<in> set (bt_Paused st). \<not> pw_Resumed p)) \<and>
    (m_deletion (br_meta run') = None \<and> bt_Paused st \<noteq> [] \<and> bt_ResumedAt st \<noteq> None \<longrightarrow>
       (\<forall>i \<in> set (bt_Items st). bi_Phase i \<noteq> ItemPending \<and> (bi_Kind i = ''Cluster'' \<longrightarrow> bi_Phase i \<noteq> ItemRunning)))) \<and>
    statusAdvance (br_status run) (br_status run')"
  using stored_status[OF reach_step[OF assms]] storedStep_ok[OF backups.reachable_inv[OF assms(1)] assms(2)] by blast

section \<open>The order of the calls\<close>

text \<open>C7. A pass starts nothing, neither a ReplicationSource nor a database Backup, unless the stored run
  was admitted, is not finished and not being deleted and, on a run of the whole namespace, an earlier
  pass recorded the pause and, while the app is paused, the check that the app's pods are gone has just
  succeeded: a server that answers any other start in any other way is never told apart.\<close>

theorem start_after_pause:
  assumes "runInv run"
  shows "runOn run (pass (api\<lparr>
      ba_createBackup := (\<lambda>b. if startOk api run then ba_createBackup api b else create b),
      ba_sources := (ba_sources api)\<lparr>so_createOrUpdate :=
        (\<lambda>ns n f. if startOk api run then so_createOrUpdate (ba_sources api) ns n f else update ns n f)\<rparr>\<rparr>)) w =
    runOn run (pass api) w"
proof -
  let ?alt = "api\<lparr>ba_createBackup := create, ba_sources := (ba_sources api)\<lparr>so_createOrUpdate := update\<rparr>\<rparr>"
  have "guarded ?alt api run = api\<lparr>
      ba_createBackup := (\<lambda>b. if startOk api run then ba_createBackup api b else create b),
      ba_sources := (ba_sources api)\<lparr>so_createOrUpdate :=
        (\<lambda>ns n f. if startOk api run then so_createOrUpdate (ba_sources api) ns n f else update ns n f)\<rparr>\<rparr>"
    by (simp add: guarded_def cong: if_cong)
  then show ?thesis using pass_guarded[OF assms, of ?alt api w] by simp
qed

text \<open>C6. A pass moves a snapshot only by an ID that an earlier pass stored in a Running volume item, to the
  stored moment of the resume, with the paused tag and the tags of the stored database items, and only
  when every database item is done and none failed. So a crash between the move and the next write
  finds the snapshot again, and all volumes of a run move to one moment.\<close>

theorem move_is_recorded:
  assumes "runInv run"
  shows "runOn run (pass (api\<lparr>ba_retime := (\<lambda>sec sid t tags. if moveOk run sid t tags then ba_retime api sec sid t tags else other sec sid t tags)\<rparr>)) w =
    runOn run (pass api) w"
proof -
  let ?alt = "api\<lparr>ba_retime := other\<rparr>"
  have "guarded ?alt api run = api\<lparr>ba_retime := (\<lambda>sec sid t tags. if moveOk run sid t tags then ba_retime api sec sid t tags else other sec sid t tags)\<rparr>"
    by (simp add: guarded_def cong: if_cong)
  then show ?thesis using pass_guarded[OF assms, of ?alt api w] by simp
qed

text \<open>C32. Starting a Pending item and collecting a Running item of a run that satisfies the invariant
  always return an item, whatever the server answers: no nil pointer is followed, the item keeps its
  kind and name, and it still satisfies the invariant.\<close>

theorem items_never_panic:
  assumes "runInv run" "i \<in> set (bt_Items (br_status run))"
  shows "(bi_Phase i = ItemPending \<longrightarrow> (\<exists>j w'. startItem api run i w = (Inr j, w') \<and> itemStep i j \<and> itemInv run j \<and> bi_Phase j \<noteq> ItemPending)) \<and>
    (bi_Phase i = ItemRunning \<longrightarrow> (\<exists>j w'. collectItem api run i w = (Inr j, w') \<and> itemStep i j \<and> itemInv run j))"
proof -
  have i: "itemInv run i" using assms by (simp add: runInv_def)
  show ?thesis using returnsD[OF startItem_returns[where api = api, OF i], of w] returnsD[OF collectItem_returns[where api = api, OF i], of w]
    unfolding started_def collected_def by blast
qed

section \<open>A run past its deadline\<close>

text \<open>A server that does what ends a run: it accepts the writes of the run, and the other calls return or
  find the object gone.\<close>

definition serves :: "('w, 'a) call \<Rightarrow> bool" where
  "serves c = (\<forall>w. case fst (c w) of Inl e \<Rightarrow> IsNotFound e | Inr _ \<Rightarrow> True)"

definition serving :: "'w backupApi \<Rightarrow> bool" where
  "serving api =
     ((\<forall>r. returns (ba_updateStatus api r) (\<lambda>_. True)) \<and> (\<forall>r. returns (ba_update api r) (\<lambda>_. True)) \<and>
      (\<forall>k ns n v. serves (pa_patchReplicas (ba_pause api) k ns n v)) \<and> (\<forall>ns n b. serves (pa_patchSuspend (ba_pause api) ns n b)) \<and>
      (\<forall>ns n. serves (la_Get (ba_leases api) ns n)) \<and> (\<forall>ns n u v. serves (la_Delete (ba_leases api) ns n u v)) \<and>
      (\<forall>ns n. serves (ba_deleteWorkload api ns n)))"

lemma serves_wrapM:
  assumes "serves c"
  shows "serves (wrapM t c)"
  unfolding serves_def
proof
  fix w show "case fst (wrapM t c w) of Inl e \<Rightarrow> IsNotFound e | Inr _ \<Rightarrow> True"
    using assms[unfolded serves_def, rule_format, of w] by (cases "c w"; cases "fst (c w)") (auto simp: wrapM_def)
qed

lemma returns_served:
  assumes "serves c" "\<And>e. IsNotFound e \<Longrightarrow> returns (f (Inl e)) P" "\<And>x. returns (f (Inr x)) P"
  shows "returns (bindM (attempt c) f) P"
proof (rule returns_bindM[where R = "\<lambda>x. case x of Inl e \<Rightarrow> IsNotFound e | Inr _ \<Rightarrow> True"])
  show "returns (attempt c) (\<lambda>x. case x of Inl e \<Rightarrow> IsNotFound e | Inr _ \<Rightarrow> True)"
  proof (rule returnsI)
    fix s show "\<exists>x s'. attempt c s = (Inr x, s') \<and> (case x of Inl e \<Rightarrow> IsNotFound e | Inr _ \<Rightarrow> True)"
      using assms(1) by (cases "c s") (auto simp: attempt_def serves_def split: sum.splits dest!: spec[of _ s])
  qed
qed (use assms(2,3) in \<open>auto split: sum.splits\<close>)

lemma returns_unlessGone: "serves m \<Longrightarrow> returns (unlessGone m) (\<lambda>_. True)"
  unfolding unlessGone_def by (rule returns_served) (auto intro: returns_intros)

lemma returns_forM: "(\<And>x. x \<in> set xs \<Longrightarrow> returns (f x) (\<lambda>_. True)) \<Longrightarrow> returns (forM xs f) (\<lambda>_. True)"
  by (induction xs) (auto simp: thenM_def intro: returns_intros returns_bindM)

lemma attempt_returns: "returns c (\<lambda>_. True) \<Longrightarrow> returns (attempt c) (\<lambda>x. \<exists>y. x = Inr y)"
proof (rule returnsI)
  fix s assume "returns c (\<lambda>_. True)"
  then obtain x s' where "c s = (Inr x, s')" using returnsD[of c "\<lambda>_. True" s] by auto
  then show "\<exists>x s'. attempt c s = (Inr x, s') \<and> (\<exists>y. x = Inr y)" by (simp add: attempt_def)
qed

lemma returns_attempt_ok: "returns c (\<lambda>_. True) \<Longrightarrow> (\<And>y. returns (f (Inr y)) P) \<Longrightarrow> returns (bindM (attempt c) f) P"
  by (rule returns_bindM[OF attempt_returns]) auto

lemma scaleBack_served:
  assumes "\<forall>k ns n v. serves (pa_patchReplicas c k ns n v)"
  shows "returns (scaleBack c ns ws) (\<lambda>(ws', e). e = None)"
proof (induction ws)
  case (Cons p ws)
  have r: "returns (bindM (scaleBack c ns ws) (\<lambda>(ws', e). ret (q # ws', e))) (\<lambda>(ws', e). e = None)" for q
    by (rule returns_bindM[OF Cons.IH]) (auto intro: returns_intros)
  have u: "returns (unlessGone (scale c (pw_Kind p) ns (pw_Name p) (pw_Replicas p))) (\<lambda>_. True)"
    unfolding scale_def by (intro returns_unlessGone serves_wrapM) (use assms in blast)
  show ?case unfolding scaleBack.simps Let_def
    by (intro returns_if r returns_attempt_ok[OF u]) (simp add: r)
qed (auto intro: returns_intros)

lemma resumeWorkloads_served:
  assumes "serving api"
  shows "returns (resumeWorkloads (ba_pause api) ns ws ks) (\<lambda>(ws', e). e = None)"
proof -
  have "returns (suspendKey (ba_pause api) False key) (\<lambda>_. True)" for key
    unfolding suspendKey_def setSuspend_def
    by (intro returns_prod returns_unlessGone serves_wrapM) (use assms in \<open>simp add: serving_def\<close>)
  then have f: "returns (forM ks (suspendKey (ba_pause api) False)) (\<lambda>_. True)" by (rule returns_forM)
  have s: "returns (scaleBack (ba_pause api) ns ws) (\<lambda>(ws', e). e = None)"
    by (rule scaleBack_served) (use assms in \<open>simp add: serving_def\<close>)
  show ?thesis unfolding resumeWorkloads_def
    by (rule returns_bindM[OF s]) (auto intro!: returns_attempt_ok[OF f] returns_ret)
qed

lemma releaseAll_served:
  assumes "serving api"
  shows "returns (releaseAll (ba_leases api) ns h names) (\<lambda>_. True)"
proof -
  have "returns (Release (ba_leases api) ns n h) (\<lambda>_. True)" for n
    unfolding Release_def Let_def
    by (intro returns_served returns_intros) (use assms in \<open>auto simp: serving_def intro!: returns_served returns_intros\<close>)
  then show ?thesis unfolding releaseAll_def by (intro returns_forM returns_attempt_ok) (auto intro: returns_intros)
qed

lemma hoare_total: "hoare P c Q (\<lambda>_. False) \<Longrightarrow> P s \<Longrightarrow> \<exists>x s'. c s = (Inr x, s') \<and> Q x s'"
  unfolding hoare_def by (cases "c s"; cases "fst (c s)") auto

lemma hoare_onW_served:
  assumes "returns c R" "\<And>x r. J r \<Longrightarrow> R x \<Longrightarrow> Q x r"
  shows "hoare (\<lambda>s. J (fst s)) (onW c) (\<lambda>x s. Q x (fst s)) (\<lambda>_. False)"
  by (rule hoareI) (use assms returnsD[OF assms(1)] returns_Inr[OF assms(1)] in \<open>auto, metis prod.inject sum.distinct(1)\<close>)

lemma writeStatus_served:
  assumes "serving api" "\<And>r rv. J r \<Longrightarrow> K (r\<lparr>br_meta := (br_meta r)\<lparr>m_resourceVersion := rv\<rparr>\<rparr>)"
  shows "hoare (\<lambda>s. J (fst s)) (writeStatus api) (\<lambda>_ s. K (fst s)) (\<lambda>_. False)"
proof -
  have u: "returns (ba_updateStatus api r) (\<lambda>_. True)" for r using assms(1) by (simp add: serving_def)
  show ?thesis unfolding writeStatus_def
  proof (rule hoare_bindM[where R = "\<lambda>_ s. J (fst s)"], rule hoare_getS, simp)
    fix r show "hoare (\<lambda>s. J (fst s)) (bindM (wrapM (''set BackupRun '' @ m_namespace (br_meta r) @ ''/'' @ m_name (br_meta r) @ '' status: '') (onW (ba_updateStatus api r)))
        (\<lambda>rv. modS (\<lambda>r. r\<lparr>br_meta := (br_meta r)\<lparr>m_resourceVersion := rv\<rparr>\<rparr>))) (\<lambda>_ s. K (fst s)) (\<lambda>_. False)"
      by (rule hoare_bindM[where R = "\<lambda>_ s. J (fst s)"], rule hoare_wrapM, rule hoare_onW_served[OF u], assumption, rule hoare_modS)
         (simp add: assms(2))
  qed
qed

definition doneRun :: "backupRun \<Rightarrow> bool" where
  "doneRun r = allDone (bt_Items (br_status r))"

lemma modStatus_served: "(\<And>r. J r \<Longrightarrow> K (r\<lparr>br_status := f (br_status r)\<rparr>)) \<Longrightarrow> hoare (\<lambda>s. J (fst s)) (modStatus f) (\<lambda>_ s. K (fst s)) (\<lambda>_. False)"
  unfolding modStatus_def by (rule hoare_modS) simp

lemma release_served:
  assumes "serving api"
  shows "hoare (\<lambda>s. doneRun (fst s)) (release api) (\<lambda>_ s. doneRun (fst s)) (\<lambda>_. False)"
proof -
  let ?J = "\<lambda>s :: backupRun \<times> 'a. doneRun (fst s)"
  have n: "hoare ?J (nowM api) (\<lambda>_. ?J) (\<lambda>_. False)"
    unfolding nowM_def by (rule hoare_onW_served[where R = "\<lambda>_. True"]) (auto intro!: returnsI)
  have m: "hoare ?J (markResumed api) (\<lambda>_. ?J) (\<lambda>_. False)"
    unfolding markResumed_def
    by (intro hoare_bindM[OF n] hoare_thenM[where R = ?J] modStatus_served writeStatus_served[OF assms]) (simp_all add: doneRun_def)
  have p: "hoare ?J (resumePaused api) (\<lambda>_. ?J) (\<lambda>_. False)"
    unfolding resumePaused_def
  proof (rule hoare_bindM[where R = "\<lambda>_. ?J"], rule hoare_getS, assumption)
    fix r
    show "hoare ?J (bindM (onW (resumeWorkloads (ba_pause api) (m_namespace (br_meta r)) (bt_Paused (br_status r)) (bt_SuspendedKustomizations (br_status r))))
        (\<lambda>(paused, e). thenM (modStatus (\<lambda>st. st\<lparr>bt_Paused := paused\<rparr>)) (case e of Some err \<Rightarrow> failM err | None \<Rightarrow> ret ()))) (\<lambda>_. ?J) (\<lambda>_. False)"
      by (rule hoare_bindM[where R = "\<lambda>x s. doneRun (fst s) \<and> snd x = None"], rule hoare_onW_served[OF resumeWorkloads_served[OF assms]])
         (auto simp: hoare_def modStatus_def call_simps modS_def doneRun_def split: prod.splits option.splits)
  qed
  have d: "returns (admissionDelete (ba_deleteWorkload api) ns k u) (\<lambda>_. True)" for ns k u
    unfolding admissionDelete_def by (rule returns_served) (use assms in \<open>auto simp: serving_def intro: returns_intros\<close>)
  show ?thesis unfolding release_def
    by (intro hoare_bindM[where R = "\<lambda>_. ?J"] hoare_thenM[where R = ?J] hoare_getS hoare_if m p hoare_ret
        hoare_onW_served[OF d] hoare_onW_served[OF releaseAll_served[OF assms]])
qed

definition failedRun :: "backupRun \<Rightarrow> bool" where
  "failedRun r = (bt_Phase (br_status r) = RunPhaseFailed \<and> bt_CompletedAt (br_status r) \<noteq> None \<and> allDone (bt_Items (br_status r)))"

text \<open>What the server stores as the status of the run: a status update that succeeds stores the status it was
  sent, and an update of the object leaves the status alone, since it is a subresource.\<close>

definition storesStatus :: "'w backupApi \<Rightarrow> ('w \<Rightarrow> backupRunStatus) \<Rightarrow> bool" where
  "storesStatus api stored =
     ((\<forall>r w rv w'. ba_updateStatus api r w = (Inr rv, w') \<longrightarrow> stored w' = br_status r) \<and> (\<forall>r. keeps stored (ba_update api r)))"

definition endedIn :: "('w \<Rightarrow> backupRunStatus) \<Rightarrow> backupRun \<times> 'w \<Rightarrow> bool" where
  "endedIn stored s = (failedRun (fst s) \<and> stored (snd s) = br_status (fst s))"

lemma writeStatus_stored:
  assumes "serving api" "storesStatus api stored"
  shows "hoare (\<lambda>s. failedRun (fst s)) (writeStatus api) (\<lambda>_. endedIn stored) (\<lambda>_. False)"
proof -
  have u: "\<exists>rv w'. ba_updateStatus api r w = (Inr rv, w') \<and> stored w' = br_status r" for r w
  proof -
    have "returns (ba_updateStatus api r) (\<lambda>_. True)" using assms(1) by (simp add: serving_def)
    from returnsD[OF this] obtain rv w' where "ba_updateStatus api r w = (Inr rv, w')" by blast
    then show ?thesis using assms(2) unfolding storesStatus_def by blast
  qed
  show ?thesis
  proof (rule hoareI)
    fix s x s' assume f: "failedRun (fst s)" and c: "writeStatus api s = (Inr x, s')"
    obtain rv w' where "ba_updateStatus api (fst s) (snd s) = (Inr rv, w')" "stored w' = br_status (fst s)" using u by blast
    then have "fst s' = (fst s)\<lparr>br_meta := (br_meta (fst s))\<lparr>m_resourceVersion := rv\<rparr>\<rparr> \<and> stored (snd s') = br_status (fst s)"
      using c by (cases s) (auto simp: writeStatus_def bindM_def wrapM_def getS_def modS_def onW_def)
    then show "endedIn stored s'" using f by (simp add: endedIn_def failedRun_def)
  next
    fix s e s' assume c: "writeStatus api s = (Inl e, s')"
    obtain rv w' where "ba_updateStatus api (fst s) (snd s) = (Inr rv, w')" using u by blast
    then show False using c by (cases s) (auto simp: writeStatus_def bindM_def wrapM_def getS_def modS_def onW_def)
  qed
qed

lemma dropFinalizer_stored:
  assumes "serving api" "storesStatus api stored"
  shows "hoare (endedIn stored) (dropFinalizer api) (\<lambda>_. endedIn stored) (\<lambda>_. False)"
proof -
  have u: "hoare (endedIn stored) (onW (ba_update api r)) (\<lambda>_. endedIn stored) (\<lambda>_. False)" for r
  proof (rule hoareI)
    fix s x s' assume "endedIn stored s" "onW (ba_update api r) s = (Inr x, s')"
    moreover have "keeps stored (ba_update api r)" using assms(2) by (simp add: storesStatus_def)
    ultimately show "endedIn stored s'" by (auto simp: endedIn_def dest: keepsD)
  next
    fix s e s' assume "onW (ba_update api r) s = (Inl e, s')"
    moreover have "returns (ba_update api r) (\<lambda>_. True)" using assms(1) by (simp add: serving_def)
    ultimately show False using returnsD[of "ba_update api r" "\<lambda>_. True" "snd s"] by auto
  qed
  have m: "endedIn stored (r\<lparr>br_meta := x\<rparr>, w) = endedIn stored (r, w)" for r x and w by (simp add: endedIn_def failedRun_def)
  show ?thesis unfolding dropFinalizer_def
    by (intro hoare_bindM[where R = "\<lambda>_. endedIn stored"] hoare_thenM[where R = "endedIn stored"] hoare_if hoare_ret hoare_wrapM u;
        (rule hoare_getS | rule hoare_modS)?) (simp_all add: m)
qed

lemma abort_served:
  assumes "serving api" "storesStatus api stored" "reason \<noteq> ReasonSucceeded"
  shows "hoare (\<lambda>_. True) (abort api reason m) (\<lambda>_. endedIn stored) (\<lambda>_. False)"
proof -
  have n: "hoare (\<lambda>s. doneRun (fst s)) (nowM api) (\<lambda>_ s. doneRun (fst s)) (\<lambda>_. False)"
    unfolding nowM_def by (rule hoare_onW_served[where R = "\<lambda>_. True"]) (auto intro!: returnsI)
  have f: "hoare (\<lambda>s. doneRun (fst s)) (finish api reason m) (\<lambda>_. endedIn stored) (\<lambda>_. False)"
    unfolding finish_def setReadyB_def
    by (intro hoare_thenM[OF release_served[OF assms(1)]] hoare_bindM[OF n] hoare_thenM[where R = "\<lambda>s. failedRun (fst s)"]
        hoare_thenM[OF writeStatus_stored[OF assms(1,2)]] modStatus_served dropFinalizer_stored[OF assms(1,2)] hoare_modS)
       (simp_all add: failedRun_def doneRun_def assms(3))
  have i: "hoare (\<lambda>_. True) (modStatus (\<lambda>st. st\<lparr>bt_Items := map (failUnfinished m) (bt_Items st)\<rparr>)) (\<lambda>_ s. doneRun (fst s)) (\<lambda>_. False)"
    unfolding modStatus_def by (rule hoare_modS) (simp add: doneRun_def allDone_failUnfinished)
  show ?thesis unfolding abort_def by (rule hoare_thenM[OF i f])
qed

text \<open>The timeout of a run, as its documentation has it: its own, else the one its namespace is annotated
  with, else one hour. An annotation that is not a positive duration is none.\<close>

definition effectiveTimeout :: "smap \<Rightarrow> backupRun \<Rightarrow> duration option" where
  "effectiveTimeout annotations run =
     (case bs_Timeout (br_spec run) of
        Some d \<Rightarrow> Some d
      | None \<Rightarrow>
          (case annotations AnnotationTimeout of
             None \<Rightarrow> Some hour
           | Some value \<Rightarrow>
               if value = [] then Some hour
               else (case parseDuration value of Some d \<Rightarrow> if 0 < d then Some d else None | None \<Rightarrow> None)))"

lemma timeoutFor_effective:
  assumes "getNamespace (m_namespace (br_meta run)) w = (Inr n, w')"
  shows "\<exists>w1. case effectiveTimeout (m_annotations (ns_meta n)) run of
       Some d \<Rightarrow> timeoutFor getNamespace run w = (Inr d, w1)
     | None \<Rightarrow> \<exists>t. timeoutFor getNamespace run w = (Inl (InvalidSetting t), w1)"
proof (cases "bs_Timeout (br_spec run)")
  case None
  then show ?thesis using assms
    by (auto simp: effectiveTimeout_def timeoutFor_def namespaceAnnotations_def call_simps getOr_def defaultTimeout_def Let_def not_le
        split: option.splits)
qed (simp add: effectiveTimeout_def timeoutFor_def ret_def)

text \<open>A run whose timeout, as the pass reads it, has passed, or cannot be read as a duration, is ended by
  \<open>work\<close>.\<close>

definition expired :: "'w backupApi \<Rightarrow> smap \<Rightarrow> backupRun \<Rightarrow> bool" where
  "expired api annotations run =
     (\<exists>s. bt_StartedAt (br_status run) = Some s \<and>
        (case effectiveTimeout annotations run of Some d \<Rightarrow> \<forall>w. s + d \<le> ba_Now api w | None \<Rightarrow> True))"

definition readsNamespace :: "'w backupApi \<Rightarrow> string \<Rightarrow> smap \<Rightarrow> bool" where
  "readsNamespace api ns annotations = (\<forall>w. \<exists>n w'. so_getNamespace (ba_sources api) ns w = (Inr n, w') \<and> m_annotations (ns_meta n) = annotations)"

lemma overdue_expired:
  assumes "readsNamespace api (m_namespace (br_meta run)) annotations" "expired api annotations run"
  shows "\<exists>w1. (\<exists>deadline. overdue api run w = (Inr (deadline, True), w1)) \<or> (\<exists>t. overdue api run w = (Inl (InvalidSetting t), w1))"
proof -
  obtain n w' where g: "so_getNamespace (ba_sources api) (m_namespace (br_meta run)) w = (Inr n, w')" and n: "m_annotations (ns_meta n) = annotations"
    using assms(1) unfolding readsNamespace_def by blast
  note t = timeoutFor_effective[where getNamespace = "so_getNamespace (ba_sources api)", OF g, unfolded n]
  obtain s where s: "bt_StartedAt (br_status run) = Some s"
    and e: "case effectiveTimeout annotations run of Some d \<Rightarrow> \<forall>w. s + d \<le> ba_Now api w | None \<Rightarrow> True"
    using assms(2) unfolding expired_def by blast
  show ?thesis
  proof (cases "effectiveTimeout annotations run")
    case None
    then show ?thesis using t s by (auto simp: overdue_def bindM_def)
  next
    case (Some d)
    then have "s + d \<le> ba_Now api w1" for w1 using e by simp
    then show ?thesis using t s Some by (auto simp: overdue_def bindM_def not_less)
  qed
qed

lemma work_expired:
  assumes "serving api" "storesStatus api stored" "readsNamespace api (m_namespace (br_meta run)) annotations" "expired api annotations run"
  shows "\<exists>s'. work api (run, w) = (Inr None, s') \<and> endedIn stored s'"
proof -
  let ?Q = "\<lambda>ended s. if ended then endedIn stored s else fst s = run"
  have e: "hoare (\<lambda>s. fst s = run) (endIfEvicted api) ?Q (\<lambda>_. False)"
  proof -
    have a: "hoare (\<lambda>s. fst s = run) (thenM (abort api ReasonEvicted m) (ret True)) ?Q (\<lambda>_. False)" for m
      by (rule hoare_pre, rule hoare_thenM[OF abort_served[OF assms(1,2) reasons_distinct(4)]]) (auto intro: hoare_ret)
    have g: "hoare (\<lambda>s. fst s = run) (attempt (onW c)) (\<lambda>_ s. fst s = run) (\<lambda>_. False)" for c :: "('a, 'b) call"
      by (rule hoare_attempt, rule hoareI) auto
    show ?thesis unfolding endIfEvicted_def
      by (rule hoare_bindM[where R = "\<lambda>_ s. fst s = run"], rule hoare_getS, assumption, intro hoare_if hoare_ret, simp,
          rule hoare_bindM[OF g], intro hoare_sum hoare_option hoare_if a hoare_ret) simp_all
  qed
  obtain ended r1 w1 where ev: "endIfEvicted api (run, w) = (Inr ended, (r1, w1))" and h: "?Q ended (r1, w1)"
    using hoare_total[OF e, of "(run, w)"] by auto
  show ?thesis
  proof (cases ended)
    case True
    then show ?thesis using h ev by (simp add: work_def bindM_def ret_def)
  next
    case False
    then have r1: "r1 = run" using h by simp
    have invalid: "ReasonInvalid \<noteq> ReasonSucceeded" by (simp add: ReasonInvalid_def ReasonSucceeded_def)
    have ab: "\<exists>z s2. abort api reason m (run, w2) = (Inr z, s2) \<and> endedIn stored s2" if "reason \<noteq> ReasonSucceeded" for reason m w2
      using hoare_total[OF abort_served[OF assms(1,2) that] TrueI] by blast
    from overdue_expired[OF assms(3,4), of w1] obtain w2 where
      "(\<exists>deadline. overdue api run w1 = (Inr (deadline, True), w2)) \<or> (\<exists>t. overdue api run w1 = (Inl (InvalidSetting t), w2))" by blast
    then show ?thesis
    proof (elim disjE exE)
      fix deadline assume o: "overdue api run w1 = (Inr (deadline, True), w2)"
      obtain z s2 where "abort api ReasonTimedOut (''the run had not finished by '' @ formatRFC3339 deadline) (run, w2) = (Inr z, s2)" "endedIn stored s2"
        using ab[OF reasons_distinct(3)] by blast
      then show ?thesis using ev False r1 o unfolding work_def by (simp add: bindM_def getS_def attempt_def thenM_def ret_def onW_def)
    next
      fix t assume o: "overdue api run w1 = (Inl (InvalidSetting t), w2)"
      obtain z s2 where "abort api ReasonInvalid (asText isInvalidSetting1 (InvalidSetting t)) (run, w2) = (Inr z, s2)" "endedIn stored s2"
        using ab[OF invalid] by blast
      then show ?thesis using ev False r1 o unfolding work_def by (simp add: bindM_def getS_def attempt_def thenM_def ret_def onW_def)
    qed
  qed
qed

lemma addFinalizer_served:
  assumes "serving api"
  shows "\<exists>m w'. addFinalizer api (run, w) = (Inr (), (run\<lparr>br_meta := m\<rparr>, w')) \<and> m_namespace m = m_namespace (br_meta run)"
proof (cases "Finalizer \<in> set (m_finalizers (br_meta run))")
  case True
  then show ?thesis by (intro exI[of _ "br_meta run"] exI[of _ w]) (simp add: addFinalizer_def bindM_def getS_def ret_def)
next
  case False
  let ?r = "run\<lparr>br_meta := (br_meta run)\<lparr>m_finalizers := m_finalizers (br_meta run) @ [Finalizer]\<rparr>\<rparr>"
  have "returns (ba_update api ?r) (\<lambda>_. True)" using assms by (simp add: serving_def)
  from returnsD[OF this] obtain rv w' where "ba_update api ?r w = (Inr rv, w')" by blast
  then have "addFinalizer api (run, w) = (Inr (), (run\<lparr>br_meta := (br_meta ?r)\<lparr>m_resourceVersion := rv\<rparr>\<rparr>, w'))" using False
    by (simp add: addFinalizer_def bindM_def thenM_def getS_def modS_def wrapM_def onW_def)
  then show ?thesis by (intro exI conjI, assumption) simp
qed

text \<open>C21. A run past its deadline ends. The deadline is \<open>startedAt\<close> plus the run's timeout: the one of its spec,
  else the one its namespace is annotated with, else an hour. When an admitted run that has not ended is
  reconciled with the clock past its deadline, or with an annotation that is no duration, and the server does
  what ends a run (it takes the writes of the run and serves or misses what the release touches), the pass
  returns, asks for no further pass and leaves the run Failed, in the status that the server stores, with a
  completion time and no unfinished item, whatever state the other runs' Leases, the movers and the
  databases are in.\<close>

theorem overdue_run_ends:
  assumes "serving api" "storesStatus api stored" "readsNamespace api (m_namespace (br_meta run)) annotations"
    and "ba_get api namespace name w0 = (Inr run, w)"
    and "m_deletion (br_meta run) = None" "bt_Phase (br_status run) \<noteq> RunPhaseNone" "\<not> Finished (bt_Phase (br_status run))"
    and "expired api annotations run"
  shows "\<exists>run' w'. Reconcile api namespace name w0 = (Inr None, w') \<and> stored w' = br_status run' \<and> failedRun run'"
proof -
  obtain m w1 where a: "addFinalizer api (run, w) = (Inr (), (run\<lparr>br_meta := m\<rparr>, w1))" and m: "m_namespace m = m_namespace (br_meta run)"
    using addFinalizer_served[OF assms(1)] by blast
  have "effectiveTimeout annotations (run\<lparr>br_meta := m\<rparr>) = effectiveTimeout annotations run" by (simp add: effectiveTimeout_def)
  then have "expired api annotations (run\<lparr>br_meta := m\<rparr>)" using assms(8) by (simp add: expired_def)
  moreover have "readsNamespace api (m_namespace (br_meta (run\<lparr>br_meta := m\<rparr>))) annotations" using assms(3) m by simp
  ultimately obtain s' where wk: "work api (run\<lparr>br_meta := m\<rparr>, w1) = (Inr None, s')" and e: "endedIn stored s'"
    using work_expired[OF assms(1,2)] by blast
  have "bt_StartedAt (br_status run) \<noteq> None" using assms(8) by (auto simp: expired_def)
  then have "stage api (run\<lparr>br_meta := m\<rparr>, w1) = (Inr None, s')"
    using assms(6) wk by (auto simp: stage_def bindM_def getS_def)
  then have "pass api (run, w) = (Inr None, s')"
    using assms(5,7) a by (simp add: pass_def bindM_def thenM_def getS_def)
  then have "Reconcile api namespace name w0 = (Inr None, snd s')"
    using assms(4) by (cases s') (simp add: Reconcile_def runOn_def bindM_def attempt_def)
  then show ?thesis using e unfolding endedIn_def by blast
qed

end
