(* ===== verification/Backup_Run_Example.thy ===== *)
theory Backup_Run_Example
  imports Backup_Run_Safe
begin

text \<open>
  A namespace with one claim and one Deployment, for concrete instances of the theorems about
  BackupRuns. The world is the cluster of \<open>Pause\<close>; the server accepts every write.
\<close>

definition claimEx :: claim where
  "claimEx = claim0\<lparr>pc_meta := objectMeta0\<lparr>m_namespace := ''ns'', m_name := ''data'', m_annotations := [AnnotationEnabled \<mapsto> ''true'']\<rparr>\<rparr>"

definition leaseApiEx :: "pauseWorld leaseApi" where
  "leaseApiEx = \<lparr>la_Create = \<lambda>ns n i. ret (), la_Get = \<lambda>ns n. failM (NotFound n), la_Update = \<lambda>ns n l. ret (),
     la_Delete = \<lambda>ns n u v. ret (), la_Alive = \<lambda>ns h. ret True\<rparr>"

definition sourceApiEx :: "pauseWorld sourceApi" where
  "sourceApiEx = \<lparr>so_listClaims = \<lambda>ns. ret [claimEx], so_getVR = \<lambda>ns n. failM (NotFound n), so_getPV = \<lambda>n. failM (NotFound n),
     so_getNamespace = \<lambda>n. ret \<lparr>ns_meta = objectMeta0\<rparr>, so_getSource = \<lambda>ns n. failM (NotFound n),
     so_createOrUpdate = \<lambda>ns n f. failM (NotFound n), so_setController = \<lambda>c s. Inr s\<rparr>"

definition backupApiEx :: "pauseWorld backupApi" where
  "backupApiEx = \<lparr>ba_get = \<lambda>ns n. failM (NotFound n), ba_updateStatus = \<lambda>r. ret ''2'', ba_update = \<lambda>r. ret ''1'',
     ba_delete = \<lambda>ns n. ret (), ba_getClaim = \<lambda>ns n. ret claimEx, ba_getCluster = \<lambda>ns n. failM (NotFound n),
     ba_listClusters = \<lambda>ns. ret [], ba_getSecret = \<lambda>ns n. failM (NotFound n), ba_getBackup = \<lambda>ns n. failM (NotFound n),
     ba_createBackup = \<lambda>b. ret (), ba_listQueues = \<lambda>ns. ret [''backups''], ba_getWorkload = \<lambda>ns n. failM (NotFound n),
     ba_createWorkload = ret, ba_updateWorkload = \<lambda>w. ret (), ba_deleteWorkload = \<lambda>ns n. failM (NotFound n),
     ba_sources = sourceApiEx, ba_pause = pauseApiEx, ba_leases = leaseApiEx,
     ba_snapshots = \<lambda>s. ret [], ba_retime = \<lambda>s i t tags. failM (NotFound i), ba_setCond = \<lambda>cs c. [c], ba_Paused = False,
     ba_Now = \<lambda>_. 100 * second\<rparr>"

definition newRunEx :: backupRun where
  "newRunEx = \<lparr>br_meta = objectMeta0\<lparr>m_namespace := ''ns'', m_name := ''run'', m_uid := ''u'', m_finalizers := [Finalizer]\<rparr>,
     br_spec = \<lparr>bs_Source = ''data'', bs_Database = [], bs_All = False, bs_Timeout = None, bs_TTLSecondsAfterFinished = None\<rparr>,
     br_status = backupRunStatus0\<rparr>"

definition queuedRunEx :: backupRun where
  "queuedRunEx = newRunEx\<lparr>br_status := backupRunStatus0\<lparr>bt_Items := [pendingItem ''ReplicationSource'' ''data''], bt_Phase := RunPhaseQueued,
     bt_Conditions := [\<lparr>c_type = ConditionReady, c_status = CondFalse, c_reason = ReasonQueued, c_message = queuedMessage, c_observedGeneration = 0\<rparr>]\<rparr>\<rparr>"

lemma planEx: "plan (backupApiEx\<lparr>ba_updateStatus := u\<rparr>) (newRunEx, w) = afterM second (writeStatus (backupApiEx\<lparr>ba_updateStatus := u\<rparr>)) (queuedRunEx, w)"
  by (simp add: plan_def itemsOf_def backupApiEx_def newRunEx_def queuedRunEx_def claimEx_def bindM_def thenM_def attempt_def getS_def onW_def
      ret_def modStatus_def modS_def setReadyB_def SetReady_def Enabled_def getOr_def objectMeta0_def claim0_def backupRunStatus0_def Let_def)

lemma passEx: "pass (backupApiEx\<lparr>ba_updateStatus := u\<rparr>) (newRunEx, w) = plan (backupApiEx\<lparr>ba_updateStatus := u\<rparr>) (newRunEx, w)"
  by (simp add: pass_def stage_def addFinalizer_def bindM_def thenM_def getS_def ret_def newRunEx_def backupRunStatus0_def objectMeta0_def
      Finished_def backupApiEx_def)

lemma mayWriteEx: "mayWrite backupApiEx newRunEx queuedRunEx"
proof -
  let ?u = "\<lambda>r'. if r' = queuedRunEx then failM (Plain ''refused'') else ba_updateStatus backupApiEx r'"
  have "runOn newRunEx (pass (rewired backupApiEx queuedRunEx (failM (Plain ''refused'')))) pauseW0 =
      (Inl (Wrap ''set BackupRun ns/run status: '' (Plain ''refused'')), pauseW0)"
    unfolding rewired_def runOn_def passEx planEx
    by (simp add: afterM_def writeStatus_def bindM_def thenM_def getS_def wrapM_def onW_def failM_def queuedRunEx_def newRunEx_def objectMeta0_def)
  moreover have "runOn newRunEx (pass backupApiEx) pauseW0 = (Inr (Some second), pauseW0)"
  proof -
    have e: "backupApiEx = backupApiEx\<lparr>ba_updateStatus := \<lambda>r. ret ''2''\<rparr>" by (simp add: backupApiEx_def)
    have "runOn newRunEx (pass (backupApiEx\<lparr>ba_updateStatus := \<lambda>r. ret ''2''\<rparr>)) pauseW0 = (Inr (Some second), pauseW0)"
      unfolding runOn_def passEx planEx
      by (simp add: afterM_def writeStatus_def bindM_def thenM_def getS_def wrapM_def onW_def modS_def ret_def)
    then show ?thesis using e by simp
  qed
  ultimately show ?thesis unfolding mayWrite_def by (metis Inl_Inr_False prod.inject)
qed

theorem stored_run_invariant_witness:
  "storedStep backupApiEx newRunEx queuedRunEx \<and> statusAdvance (br_status newRunEx) (br_status queuedRunEx)"
proof -
  have s: "storedStep backupApiEx newRunEx queuedRunEx" using mayWriteEx by (simp add: storedStep_def)
  have "reachable isNewRun (storedStep backupApiEx) newRunEx" by (rule reach_init) (simp add: isNewRun_def newRunEx_def)
  from stored_run_invariant[OF this s] s show ?thesis by simp
qed

text \<open>A run of the whole namespace that paused the app, before it starts its volume, and the same run
  once the app was resumed and the volume's snapshot waits for its move.\<close>

definition pausedRunEx :: backupRun where
  "pausedRunEx = newRunEx\<lparr>br_spec := \<lparr>bs_Source = [], bs_Database = [], bs_All = True, bs_Timeout = Some (5 * second), bs_TTLSecondsAfterFinished = None\<rparr>,
     br_status := backupRunStatus0\<lparr>bt_Phase := RunPhaseRunning, bt_StartedAt := Some (10 * second), bt_PausedAt := Some (20 * second),
       bt_Paused := [pausedEx False], bt_Items := [pendingItem ''ReplicationSource'' ''data'']\<rparr>\<rparr>"

definition movingItemEx :: backupItem where
  "movingItemEx = (pendingItem ''ReplicationSource'' ''data'')\<lparr>bi_Phase := ItemRunning, bi_Trigger := TriggerFor ''u'', bi_SnapshotID := ''abc''\<rparr>"

definition movingRunEx :: backupRun where
  "movingRunEx = pausedRunEx\<lparr>br_status := (br_status pausedRunEx)\<lparr>bt_ResumedAt := Some (30 * second), bt_Items := [movingItemEx]\<rparr>\<rparr>"

lemmas runEx_defs = runInv_def timesInv_def endInv_def orderInv_def itemInv_def movingRunEx_def pausedRunEx_def newRunEx_def movingItemEx_def
  pendingItem_def backupItem0_def pausedEx_def backupRunStatus0_def objectMeta0_def Finished_def databaseFailed_def Let_def

lemma runInvEx: "runInv pausedRunEx" "runInv movingRunEx"
  by (simp_all add: runEx_defs)

lemma startOkEx: "startOk backupApiEx pausedRunEx"
proof -
  have "pausedPodsGone pauseApiEx ''ns'' [pausedEx False] pauseW0 = (Inr (True, []), pauseW0)"
    by (simp add: pausedPodsGone_def pausedEx_def namedTargets.simps pauseApiEx_def pauseW0_def call_simps deploymentEx_def workloadOf_def objectMeta0_def wrapE_def)
  moreover have "ba_pause backupApiEx = pauseApiEx" "m_namespace (br_meta pausedRunEx) = ''ns''" "bt_Paused (br_status pausedRunEx) = [pausedEx False]"
    by (simp_all add: backupApiEx_def runEx_defs)
  ultimately have "\<exists>w w' pod. pausedPodsGone (ba_pause backupApiEx) (m_namespace (br_meta pausedRunEx)) (bt_Paused (br_status pausedRunEx)) w = (Inr (True, pod), w')"
    by metis
  moreover have "bt_StartedAt (br_status pausedRunEx) \<noteq> None" "\<not> Finished (bt_Phase (br_status pausedRunEx))"
      "m_deletion (br_meta pausedRunEx) = None" "bt_PausedAt (br_status pausedRunEx) \<noteq> None"
    by (simp_all add: runEx_defs)
  ultimately show ?thesis unfolding startOk_def Let_def by blast
qed

theorem start_after_pause_witness:
  "startOk backupApiEx pausedRunEx \<and>
   runOn pausedRunEx (pass (backupApiEx\<lparr>
      ba_createBackup := (\<lambda>b. if startOk backupApiEx pausedRunEx then ba_createBackup backupApiEx b else failM Canceled),
      ba_sources := (ba_sources backupApiEx)\<lparr>so_createOrUpdate :=
        (\<lambda>ns n f. if startOk backupApiEx pausedRunEx then so_createOrUpdate (ba_sources backupApiEx) ns n f else failM Canceled)\<rparr>\<rparr>)) pauseW0 =
    runOn pausedRunEx (pass backupApiEx) pauseW0"
  by (rule conjI[OF startOkEx start_after_pause[OF runInvEx(1)]])

theorem move_is_recorded_witness:
  "moveOk movingRunEx ''abc'' (30 * second) [PausedTag] \<and> \<not> moveOk movingRunEx ''abc'' (40 * second) [PausedTag] \<and>
   runOn movingRunEx (pass (backupApiEx\<lparr>ba_retime := (\<lambda>sec sid t tags. if moveOk movingRunEx sid t tags then ba_retime backupApiEx sec sid t tags else failM Canceled)\<rparr>)) pauseW0 =
    runOn movingRunEx (pass backupApiEx) pauseW0"
proof -
  have "moveOk movingRunEx ''abc'' (30 * second) [PausedTag]" "\<not> moveOk movingRunEx ''abc'' (40 * second) [PausedTag]"
    by (simp_all add: moveOk_def baseBackupTags_def runEx_defs second_def)
  then show ?thesis by (intro conjI move_is_recorded[OF runInvEx(2)])
qed

theorem items_never_panic_witness:
  "\<exists>j w'. collectItem backupApiEx movingRunEx movingItemEx pauseW0 = (Inr j, w') \<and> itemStep movingItemEx j \<and> itemInv movingRunEx j"
proof -
  have "movingItemEx \<in> set (bt_Items (br_status movingRunEx))" "bi_Phase movingItemEx = ItemRunning" by (simp_all add: runEx_defs)
  with items_never_panic[OF runInvEx(2), of movingItemEx backupApiEx pauseW0] show ?thesis by blast
qed

text \<open>A server that stores the run's status and nothing else, and a namespace without a timeout: the default of
  an hour holds, and the clock stands at two.\<close>

definition endPauseEx :: "backupRunStatus pauseApi" where
  "endPauseEx = \<lparr>
     pa_listDeployments = \<lambda>ns. ret [], pa_listStatefulSets = \<lambda>ns. ret [],
     pa_getWorkload = \<lambda>kind ns name. failM (NotFound name), pa_getSuspend = \<lambda>ns name. ret False,
     pa_patchReplicas = \<lambda>kind ns name n. ret (), pa_patchSuspend = \<lambda>ns name b. ret (),
     pa_selector = Inr, pa_listPods = \<lambda>ns sel. ret []\<rparr>"

definition endApiEx :: "backupRunStatus backupApi" where
  "endApiEx = \<lparr>ba_get = \<lambda>ns n w. (Inr (pausedRunEx\<lparr>br_spec := (br_spec pausedRunEx)\<lparr>bs_Timeout := None\<rparr>, br_status := w\<rparr>), w),
     ba_updateStatus = \<lambda>r w. (Inr ''2'', br_status r), ba_update = \<lambda>r. ret ''1'',
     ba_delete = \<lambda>ns n. ret (), ba_getClaim = \<lambda>ns n. ret claimEx, ba_getCluster = \<lambda>ns n. failM (NotFound n),
     ba_listClusters = \<lambda>ns. ret [], ba_getSecret = \<lambda>ns n. failM (NotFound n), ba_getBackup = \<lambda>ns n. failM (NotFound n),
     ba_createBackup = \<lambda>b. ret (), ba_listQueues = \<lambda>ns. ret [''backups''], ba_getWorkload = \<lambda>ns n. failM (NotFound n),
     ba_createWorkload = ret, ba_updateWorkload = \<lambda>w. ret (), ba_deleteWorkload = \<lambda>ns n. failM (NotFound n),
     ba_sources = \<lparr>so_listClaims = \<lambda>ns. ret [claimEx], so_getVR = \<lambda>ns n. failM (NotFound n), so_getPV = \<lambda>n. failM (NotFound n),
       so_getNamespace = \<lambda>n. ret \<lparr>ns_meta = objectMeta0\<rparr>, so_getSource = \<lambda>ns n. failM (NotFound n),
       so_createOrUpdate = \<lambda>ns n f. failM (NotFound n), so_setController = \<lambda>c s. Inr s\<rparr>,
     ba_pause = endPauseEx,
     ba_leases = \<lparr>la_Create = \<lambda>ns n i. ret (), la_Get = \<lambda>ns n. failM (NotFound n), la_Update = \<lambda>ns n l. ret (),
       la_Delete = \<lambda>ns n u v. ret (), la_Alive = \<lambda>ns h. ret True\<rparr>,
     ba_snapshots = \<lambda>s. ret [], ba_retime = \<lambda>s i t tags. failM (NotFound i), ba_setCond = \<lambda>cs c. [c], ba_Paused = False,
     ba_Now = \<lambda>_. 2 * hour\<rparr>"

theorem overdue_run_ends_witness:
  "\<exists>run' w'. Reconcile endApiEx ''ns'' ''run'' (br_status pausedRunEx) = (Inr None, w') \<and> w' = br_status run' \<and> failedRun run'"
proof -
  let ?run = "pausedRunEx\<lparr>br_spec := (br_spec pausedRunEx)\<lparr>bs_Timeout := None\<rparr>\<rparr>"
  have "serving endApiEx"
    by (auto simp: serving_def serves_def endApiEx_def endPauseEx_def failM_def ret_def intro!: returnsI)
  moreover have "storesStatus endApiEx (\<lambda>w. w)" by (simp add: storesStatus_def endApiEx_def keeps_ret)
  moreover have "readsNamespace endApiEx (m_namespace (br_meta ?run)) Map.empty"
    by (simp add: readsNamespace_def endApiEx_def ret_def objectMeta0_def)
  moreover have "ba_get endApiEx ''ns'' ''run'' (br_status pausedRunEx) = (Inr ?run, br_status pausedRunEx)"
    by (simp add: endApiEx_def)
  moreover have "m_deletion (br_meta ?run) = None" "bt_Phase (br_status ?run) \<noteq> RunPhaseNone" "\<not> Finished (bt_Phase (br_status ?run))"
    by (simp_all add: runEx_defs)
  moreover have "expired endApiEx Map.empty ?run"
    by (simp add: expired_def effectiveTimeout_def endApiEx_def runEx_defs hour_def minute_def second_def)
  ultimately show ?thesis by (rule overdue_run_ends)
qed

end
