(* ===== verification/Schedule.thy ===== *)
theory Schedule
  imports Run_Monad Sources Cnpg
begin

text \<open>
  The Scheduler, from \<open>src/internal/runs/schedule.go\<close>, with the series of \<open>src/internal/runs/metrics.go\<close>
  that it exports.

  A pass works on the pair of the series and the world. The cron library is the parameter \<open>sa_parse\<close>: a
  schedule is its method \<open>Next\<close>. \<open>dueTick\<close> need not return, so its value is \<open>None\<close> then, and so is a
  pass that calls it. The gauges hold whole seconds, the interval nanoseconds (Prometheus stores both
  as float64). Log lines are left out; the Warning event is the call \<open>sa_warn\<close>.
\<close>

type_synonym cronSchedule = "gtime \<Rightarrow> gtime"

record series =
  se_lastSuccess :: "string \<Rightarrow> int option"
  se_interval :: "string \<Rightarrow> duration option"
  se_info :: "(string \<times> string) set"
  se_nextRun :: "string \<Rightarrow> int option"
  se_invalid :: "string \<Rightarrow> int option"
  se_pinned :: "(string \<times> string \<times> string) set"

record 'w scheduleApi =
  sa_getNamespace :: "string \<Rightarrow> ('w, namespaceObj) call"
  sa_listRuns :: "string \<Rightarrow> ('w, backupRun list) call"
  sa_listClaims :: "string \<Rightarrow> ('w, claim list) call"
  sa_listClusters :: "string \<Rightarrow> ('w, cluster list) call"
  sa_create :: "backupRun \<Rightarrow> ('w, unit) call"
  sa_warn :: "string \<Rightarrow> string \<Rightarrow> ('w, unit) call"
  sa_parse :: "string \<Rightarrow> gerr + cronSchedule"
  sa_Paused :: bool
  sa_Now :: "'w \<Rightarrow> gtime"

definition scheduledTTL :: int where "scheduledTTL = 30 * 24 * 60 * 60"
definition refresh :: duration where "refresh = 5 * minute"

section \<open>The series\<close>

definition exportScheduleInfo :: "string \<Rightarrow> string \<Rightarrow> series \<Rightarrow> series" where
  "exportScheduleInfo ns spec m = m\<lparr>se_info := insert (ns, spec) {i \<in> se_info m. fst i \<noteq> ns}\<rparr>"

definition lastSuccessOf :: "gtime \<Rightarrow> backupRun list \<Rightarrow> gtime" where
  "lastSuccessOf created runs = foldl (\<lambda>last run.
     case bt_CompletedAt (br_status run) of
       Some t \<Rightarrow> if bs_All (br_spec run) \<and> bt_Phase (br_status run) = RunPhaseSucceeded \<and> t > last then t else last
     | None \<Rightarrow> last) created runs"

definition exportSchedule :: "namespaceObj \<Rightarrow> cronSchedule \<Rightarrow> backupRun list \<Rightarrow> gtime \<Rightarrow> series \<Rightarrow> series" where
  "exportSchedule namespace schedule runs now m =
     (let name = m_name (ns_meta namespace); first = schedule now in
      m\<lparr>se_lastSuccess := (se_lastSuccess m)(name \<mapsto> unixSeconds (lastSuccessOf (m_creation (ns_meta namespace)) runs)),
        se_nextRun := (se_nextRun m)(name \<mapsto> unixSeconds first),
        se_interval := (se_interval m)(name \<mapsto> schedule first - first)\<rparr>)"

definition dropPinned :: "string \<Rightarrow> series \<Rightarrow> series" where
  "dropPinned ns m = m\<lparr>se_pinned := {p \<in> se_pinned m. fst p \<noteq> ns}\<rparr>"

definition setPinned :: "string \<Rightarrow> claim list \<Rightarrow> series \<Rightarrow> series" where
  "setPinned ns claims m = m\<lparr>se_pinned := se_pinned m \<union>
     set (map (\<lambda>c. (ns, ''PersistentVolumeClaim'', m_name (pc_meta c))) (filter (\<lambda>c. m_annotations (pc_meta c) AnnotationRestoreAsOf \<noteq> None) claims))\<rparr>"

definition exportPinned :: "'w scheduleApi \<Rightarrow> string \<Rightarrow> (series \<times> 'w, unit) call" where
  "exportPinned api ns =
     thenM (modS (dropPinned ns)) (bindM (onW (sa_listClaims api ns)) (\<lambda>claims. modS (setPinned ns claims)))"

definition deleteAll :: "string \<Rightarrow> series \<Rightarrow> series" where
  "deleteAll ns m = m\<lparr>se_lastSuccess := (se_lastSuccess m)(ns := None), se_interval := (se_interval m)(ns := None),
     se_info := {i \<in> se_info m. fst i \<noteq> ns}, se_nextRun := (se_nextRun m)(ns := None), se_invalid := (se_invalid m)(ns := None)\<rparr>"

definition forgetNs :: "string \<Rightarrow> series \<Rightarrow> series" where
  "forgetNs ns m = dropPinned ns (deleteAll ns m)"

section \<open>The due tick\<close>

text \<open>The loop of \<open>dueTick\<close>, which may not end.\<close>

partial_function (option) dueLoop :: "cronSchedule \<Rightarrow> gtime \<Rightarrow> gtime \<Rightarrow> gtime option" where
  "dueLoop schedule now due =
     (let next = schedule due in if next > now then Some due else dueLoop schedule now next)"

definition dueTick :: "cronSchedule \<Rightarrow> gtime \<Rightarrow> gtime \<Rightarrow> gtime option option" where
  "dueTick schedule baseline now =
     (let due = schedule baseline in
      if due > now then Some None else map_option Some (dueLoop schedule now due))"

definition tickOf :: "backupRun \<Rightarrow> gtime option" where
  "tickOf run = map_option (\<lambda>tick. tick * second) (parseInt 64 (getOr (m_labels (br_meta run)) LabelScheduledFor))"

definition baselineOf :: "gtime \<Rightarrow> backupRun list \<Rightarrow> gtime" where
  "baselineOf created runs = foldl (\<lambda>baseline run. case tickOf run of Some t \<Rightarrow> if t > baseline then t else baseline | None \<Rightarrow> baseline) created runs"

definition unfinishedAll :: "backupRun list \<Rightarrow> bool" where
  "unfinishedAll runs = list_ex (\<lambda>run. bs_All (br_spec run) \<and> \<not> Finished (bt_Phase (br_status run))) runs"

section \<open>The run of a tick\<close>

definition anythingEnabled :: "'w scheduleApi \<Rightarrow> string \<Rightarrow> ('w, bool) call" where
  "anythingEnabled api ns =
     bindM (enabledClaims (sa_listClaims api) ns) (\<lambda>claims.
     if claims \<noteq> [] then ret True
     else bindM (enabledClusters (sa_listClusters api) ns) (\<lambda>clusters. ret (clusters \<noteq> [])))"

text \<open>\<open>tick.UTC().Format("20060102-1504")\<close>.\<close>

definition formatTick :: "gtime \<Rightarrow> string" where
  "formatTick t =
     (let s = unixSeconds t; sod = s mod 86400 in
      case civilFromDays (s div 86400) of (y, m, d) \<Rightarrow>
        padNum 4 y @ padNum 2 m @ padNum 2 d @ ''-'' @ padNum 2 (sod div 3600) @ padNum 2 (sod div 60 mod 60))"

definition scheduledRun :: "string \<Rightarrow> gtime \<Rightarrow> backupRun" where
  "scheduledRun ns tick = \<lparr>br_meta = objectMeta0\<lparr>m_name := ''scheduled-'' @ formatTick tick, m_namespace := ns,
       m_labels := [LabelScheduledFor \<mapsto> itoa (unixSeconds tick)]\<rparr>,
     br_spec = \<lparr>bs_Source = [], bs_Database = [], bs_All = True, bs_Timeout = None, bs_TTLSecondsAfterFinished = Some scheduledTTL\<rparr>,
     br_status = backupRunStatus0\<rparr>"

definition createRun :: "'w scheduleApi \<Rightarrow> string \<Rightarrow> gtime \<Rightarrow> ('w, unit) call" where
  "createRun api ns tick =
     bindM (attempt (sa_create api (scheduledRun ns tick))) (\<lambda>r. case r of
       Inl err \<Rightarrow> if IsAlreadyExists err then ret ()
                  else failM (Wrap (''create BackupRun '' @ ns @ ''/'' @ m_name (br_meta (scheduledRun ns tick)) @ '': '') err)
     | Inr _ \<Rightarrow> ret ())"

section \<open>A pass\<close>

text \<open>Up to the due tick: either the time to requeue, or the schedule with what the tick is computed from.\<close>

definition prepare :: "'w scheduleApi \<Rightarrow> string \<Rightarrow> (series \<times> 'w, duration option + cronSchedule \<times> gtime \<times> bool \<times> gtime) call" where
  "prepare api ns =
     bindM (attempt (onW (sa_getNamespace api ns))) (\<lambda>r. case r of
       Inl err \<Rightarrow> if IsNotFound err then thenM (modS (forgetNs ns)) (ret (Inl None)) else failM err
     | Inr namespace \<Rightarrow>
         thenM (attempt (exportPinned api ns)) (
         case m_annotations (ns_meta namespace) AnnotationSchedule of
           None \<Rightarrow> thenM (modS (deleteAll ns)) (ret (Inl (Some refresh)))
         | Some spec \<Rightarrow>
           if m_deletion (ns_meta namespace) \<noteq> None then thenM (modS (deleteAll ns)) (ret (Inl (Some refresh)))
           else
           thenM (modS (exportScheduleInfo ns spec)) (
           case sa_parse api spec of
             Inl _ \<Rightarrow> thenM (modS (\<lambda>m. m\<lparr>se_invalid := (se_invalid m)(ns \<mapsto> 1), se_nextRun := (se_nextRun m)(ns := None)\<rparr>)) (ret (Inl (Some (10 * minute))))
           | Inr schedule \<Rightarrow>
             thenM (modS (\<lambda>m. m\<lparr>se_invalid := (se_invalid m)(ns \<mapsto> 0)\<rparr>)) (
             bindM (wrapM (''list the BackupRuns in '' @ ns @ '': '') (onW (sa_listRuns api ns))) (\<lambda>runs.
             bindM (onW (\<lambda>w. (Inr (sa_Now api w), w))) (\<lambda>now.
             thenM (modS (exportSchedule namespace schedule runs now))
               (ret (Inr (schedule, baselineOf (m_creation (ns_meta namespace)) runs, unfinishedAll runs, now)))))))))"

text \<open>From the due tick on.\<close>

definition runTick :: "'w scheduleApi \<Rightarrow> string \<Rightarrow> cronSchedule \<Rightarrow> bool \<Rightarrow> gtime \<Rightarrow> gtime option \<Rightarrow> (series \<times> 'w, duration option) call" where
  "runTick api ns schedule unfinished now due =
     (let wait = ret (Some (min (max (schedule now - now) second) refresh)) in
      case due of
        None \<Rightarrow> wait
      | Some tick \<Rightarrow>
          if sa_Paused api then ret (Some refresh)
          else if unfinished then ret (Some minute)
          else
          bindM (onW (anythingEnabled api ns)) (\<lambda>marked.
          thenM (if marked then onW (createRun api ns tick) else onW (sa_warn api ns (''the tick at '' @ formatRFC3339 tick @
                   '' is due, but nothing in this namespace is marked '' @ AnnotationEnabled @ '': '' @ quote ''true''))) wait))"

definition ReconcileS :: "'w scheduleApi \<Rightarrow> string \<Rightarrow> series \<times> 'w \<Rightarrow> ((gerr + duration option) \<times> (series \<times> 'w)) option" where
  "ReconcileS api ns s =
     (case prepare api ns s of
        (Inl e, s') \<Rightarrow> Some (Inl e, s')
      | (Inr (Inl result), s') \<Rightarrow> Some (Inr result, s')
      | (Inr (Inr (schedule, baseline, unfinished, now)), s') \<Rightarrow>
          (case dueTick schedule baseline now of
             None \<Rightarrow> None
           | Some due \<Rightarrow> Some (runTick api ns schedule unfinished now due s')))"

section \<open>What a schedule promises\<close>

text \<open>The documented behaviour of a schedule that fires: \<open>Next\<close> returns the first tick after its argument.\<close>

definition ticks_of :: "gtime set \<Rightarrow> cronSchedule \<Rightarrow> bool" where
  "ticks_of T schedule = (\<forall>t. schedule t \<in> T \<and> t < schedule t \<and> (\<forall>u \<in> T. t < u \<longrightarrow> schedule t \<le> u))"

text \<open>Each turn of the loop moves the tick forward, so the distance to the present shrinks.\<close>

lemma dueLoop_ends:
  assumes "ticks_of T schedule" "due \<in> T" "due \<le> now"
  shows "\<exists>d. dueLoop schedule now due = Some d \<and> d \<in> T \<and> due \<le> d \<and> d \<le> now \<and> (\<forall>u \<in> T. u \<le> now \<longrightarrow> u \<le> d)"
  using assms(2,3)
proof (induction "nat (now - due)" arbitrary: due rule: less_induct)
  case less
  have s: "schedule due \<in> T" "due < schedule due" "\<And>u. u \<in> T \<Longrightarrow> due < u \<Longrightarrow> schedule due \<le> u"
    using assms(1) by (auto simp: ticks_of_def)
  show ?case
  proof (cases "schedule due > now")
    case True
    have "u \<le> due" if "u \<in> T" "u \<le> now" for u using s(3)[OF that(1)] that(2) True by (cases "due < u") auto
    then show ?thesis using True less.prems by (subst dueLoop.simps) auto
  next
    case False
    have "dueLoop schedule now due = dueLoop schedule now (schedule due)" using False by (subst dueLoop.simps) simp
    moreover have "\<exists>d. dueLoop schedule now (schedule due) = Some d \<and> d \<in> T \<and> schedule due \<le> d \<and> d \<le> now \<and> (\<forall>u \<in> T. u \<le> now \<longrightarrow> u \<le> d)"
      by (rule less.hyps) (use False s less.prems in auto)
    ultimately show ?thesis using s(2) by force
  qed
qed

lemma dueTick_cases:
  assumes "ticks_of T schedule"
  shows "\<exists>r. dueTick schedule baseline now = Some r \<and>
    (case r of None \<Rightarrow> \<forall>u \<in> T. baseline < u \<longrightarrow> now < u
     | Some d \<Rightarrow> d \<in> T \<and> baseline < d \<and> d \<le> now \<and> (\<forall>u \<in> T. u \<le> now \<longrightarrow> u \<le> d))"
proof -
  have s: "schedule baseline \<in> T" "baseline < schedule baseline" "\<And>u. u \<in> T \<Longrightarrow> baseline < u \<Longrightarrow> schedule baseline \<le> u"
    using assms by (auto simp: ticks_of_def)
  show ?thesis
  proof (cases "schedule baseline > now")
    case True
    then show ?thesis using s(3) by (force simp: dueTick_def)
  next
    case False
    then obtain d where "dueLoop schedule now (schedule baseline) = Some d" "d \<in> T" "schedule baseline \<le> d" "d \<le> now" "\<forall>u \<in> T. u \<le> now \<longrightarrow> u \<le> d"
      using dueLoop_ends[OF assms s(1), of now] by (auto simp: not_less)
    then show ?thesis using False s(2) by (intro exI[of _ "Some d"]) (simp add: dueTick_def)
  qed
qed

lemma dueLoop_Some: "dueLoop schedule now due = Some d \<Longrightarrow> schedule d > now"
  by (rule dueLoop.raw_induct[of "\<lambda>schedule now due d. schedule d > now", rotated]) (auto simp: Let_def split: if_splits)

text \<open>C19. For a schedule that fires, \<open>dueTick\<close> returns, and it returns the newest tick after the baseline that
  is not after now, or that there is none. However many ticks were missed, one is due.\<close>

theorem dueTick_exact:
  assumes "ticks_of T schedule"
  shows "\<exists>r. dueTick schedule baseline now = Some r \<and>
    (case r of None \<Rightarrow> \<forall>u \<in> T. baseline < u \<longrightarrow> now < u
     | Some d \<Rightarrow> d \<in> T \<and> baseline < d \<and> d \<le> now \<and> (\<forall>u \<in> T. u \<le> now \<longrightarrow> u \<le> d))"
  by (rule dueTick_cases[OF assms])

definition everyMinute :: cronSchedule where
  "everyMinute t = (t div minute + 1) * minute"

lemma everyMinute_ticks: "ticks_of (range (\<lambda>k. k * minute)) everyMinute"
proof -
  have m: "minute > 0" by (simp add: minute_def second_def)
  have e: "t = t div minute * minute + t mod minute" "0 \<le> t mod minute" "t mod minute < minute" for t using m by simp_all
  have "t < (t div minute + 1) * minute" for t using e(1)[of t] e(3)[of t] by (metis add_strict_left_mono distrib_right mult_1)
  moreover have "(t div minute + 1) * minute \<le> k * minute" if "t < k * minute" for t k
  proof (rule mult_right_mono)
    show "t div minute + 1 \<le> k"
    proof (rule ccontr)
      assume "\<not> t div minute + 1 \<le> k"
      then have "k * minute \<le> t div minute * minute" using m by (intro mult_right_mono) simp_all
      then show False using that e[of t] by linarith
    qed
  qed (use m in simp)
  ultimately show ?thesis by (auto simp: ticks_of_def everyMinute_def)
qed

theorem dueTick_exact_witness:
  "\<exists>r. dueTick everyMinute 0 (5 * minute) = Some r \<and>
    (case r of None \<Rightarrow> \<forall>u \<in> range (\<lambda>k. k * minute). 0 < u \<longrightarrow> 5 * minute < u
     | Some d \<Rightarrow> d \<in> range (\<lambda>k. k * minute) \<and> 0 < d \<and> d \<le> 5 * minute \<and> (\<forall>u \<in> range (\<lambda>k. k * minute). u \<le> 5 * minute \<longrightarrow> u \<le> d))"
  by (rule dueTick_exact[OF everyMinute_ticks])

text \<open>C33. A schedule that never fires hangs the scheduler. For such a schedule the cron library's \<open>Next\<close> returns
  the zero time, and a pass that read such a schedule does not return: the loop of \<open>dueTick\<close> never ends.\<close>

theorem never_firing_schedule_hangs:
  assumes "prepare api ns s = (Inr (Inr (schedule, baseline, unfinished, now)), s')" "\<forall>t. schedule t = zeroTime" "zeroTime \<le> now"
  shows "ReconcileS api ns s = None"
proof -
  have "dueLoop schedule now due = None" for due
    using dueLoop_Some[of schedule now due] assms(2,3) by (cases "dueLoop schedule now due") force+
  then show ?thesis using assms by (simp add: ReconcileS_def dueTick_def)
qed

section \<open>One run per tick\<close>

lemma baselineOf_ge: "created \<le> baselineOf created runs \<and> (\<forall>run \<in> set runs. \<forall>t. tickOf run = Some t \<longrightarrow> t \<le> baselineOf created runs)"
proof -
  let ?f = "\<lambda>baseline run. case tickOf run of Some t \<Rightarrow> if t > baseline then t else baseline | None \<Rightarrow> baseline"
  have "b \<le> foldl ?f b runs \<and> (\<forall>run \<in> set runs. \<forall>t. tickOf run = Some t \<longrightarrow> t \<le> foldl ?f b runs)" for b
  proof (induction runs arbitrary: b)
    case (Cons r runs)
    have "b \<le> ?f b r" "\<And>t. tickOf r = Some t \<Longrightarrow> t \<le> ?f b r" by (auto split: option.splits)
    moreover have "?f b r \<le> foldl ?f (?f b r) runs" "\<forall>run \<in> set runs. \<forall>t. tickOf run = Some t \<longrightarrow> t \<le> foldl ?f (?f b r) runs"
      using Cons[of "?f b r"] by blast+
    ultimately show ?case unfolding foldl.simps using order_trans by (metis (no_types, lifting) set_ConsD)
  qed simp
  then show ?thesis by (simp add: baselineOf_def)
qed

lemma tickOf_scheduledRun:
  assumes "tick mod second = 0" "\<bar>unixSeconds tick\<bar> < 2 ^ 63" "m_labels (br_meta run) LabelScheduledFor = m_labels (br_meta (scheduledRun ns tick)) LabelScheduledFor"
  shows "tickOf run = Some tick"
proof -
  have "parseInt 64 (itoa (unixSeconds tick)) = Some (unixSeconds tick)" by (rule parseInt_itoa) (use assms(2) in auto)
  moreover have "unixSeconds tick * second = tick" using assms(1) div_mult_mod_eq[of tick second] by (simp add: unixSeconds_def)
  ultimately show ?thesis using assms(3) by (simp add: tickOf_def getOr_def scheduledRun_def)
qed

text \<open>C20. A tick is scheduled at most once. While a run that the scheduler created for a tick is in the list,
  finished or not, whatever else is there and however the clock stands, a tick that is due is a later
  one: the label that \<open>create\<close> wrote reads back as the tick.\<close>

theorem tick_scheduled_once:
  assumes "ticks_of T schedule" "run \<in> set runs" "tick mod second = 0" "\<bar>unixSeconds tick\<bar> < 2 ^ 63"
    and "m_labels (br_meta run) LabelScheduledFor = m_labels (br_meta (scheduledRun ns tick)) LabelScheduledFor"
    and "dueTick schedule (baselineOf created runs) now = Some (Some d)"
  shows "tick < d"
proof -
  have "tick \<le> baselineOf created runs" using baselineOf_ge tickOf_scheduledRun[OF assms(3-5)] assms(2) by blast
  moreover have "baselineOf created runs < d" using dueTick_cases[OF assms(1), of "baselineOf created runs" now] assms(6) by auto
  ultimately show ?thesis by simp
qed

theorem tick_scheduled_once_witness:
  "2 * minute < (5 * minute :: gtime)"
proof (rule tick_scheduled_once[OF everyMinute_ticks, where run = "scheduledRun ''ns'' (2 * minute)" and runs = "[scheduledRun ''ns'' (2 * minute)]" and ns = "''ns''" and created = 0 and now = "5 * minute"])
  have t: "tickOf (scheduledRun ''ns'' (2 * minute)) = Some (2 * minute)"
    by (rule tickOf_scheduledRun[where ns = "''ns''"]) (simp_all add: minute_def second_def unixSeconds_def)
  then have b: "baselineOf 0 [scheduledRun ''ns'' (2 * minute)] = 2 * minute" by (simp add: baselineOf_def minute_def second_def)
  have "dueLoop everyMinute (5 * minute) (3 * minute) = Some (5 * minute)"
    by (subst dueLoop.simps, simp add: everyMinute_def minute_def second_def, subst dueLoop.simps, simp add: everyMinute_def minute_def second_def,
        subst dueLoop.simps, simp add: everyMinute_def minute_def second_def)
  then show "dueTick everyMinute (baselineOf 0 [scheduledRun ''ns'' (2 * minute)]) (5 * minute) = Some (Some (5 * minute))"
    unfolding b by (simp add: dueTick_def everyMinute_def minute_def second_def)
qed (simp_all add: minute_def second_def unixSeconds_def)

section \<open>When no run is created\<close>

definition heldBack :: "'w scheduleApi \<Rightarrow> string \<Rightarrow> bool" where
  "heldBack api ns = (sa_Paused api \<or> (\<forall>w. case sa_listRuns api ns w of (Inr runs, _) \<Rightarrow> unfinishedAll runs | _ \<Rightarrow> True))"

definition prepared :: "'w scheduleApi \<Rightarrow> string \<Rightarrow> duration option + cronSchedule \<times> gtime \<times> bool \<times> gtime \<Rightarrow> bool" where
  "prepared api ns x = (case x of
     Inl r \<Rightarrow> r = None \<or> r = Some refresh \<or> r = Some (10 * minute)
   | Inr (_, _, unfinished, _) \<Rightarrow> heldBack api ns \<longrightarrow> sa_Paused api \<or> unfinished)"

lemma prepare_outcome: "hoare (\<lambda>_. True) (prepare api ns) (\<lambda>x _. prepared api ns x) (\<lambda>_. True)"
proof -
  have t: "hoare (\<lambda>_. True) c (\<lambda>_ _. True) (\<lambda>_. True)" for c :: "(series \<times> 'a, 'b) call" by (rule hoareI) simp_all
  have l: "hoare (\<lambda>_. True) (wrapM e (onW (sa_listRuns api ns))) (\<lambda>runs _. heldBack api ns \<longrightarrow> sa_Paused api \<or> unfinishedAll runs) (\<lambda>_. True)" for e
  proof (rule hoare_wrapM, rule hoareI)
    fix s x s' assume "onW (sa_listRuns api ns) s = (Inr x, s')"
    then obtain w' where "sa_listRuns api ns (snd s) = (Inr x, w')" by auto
    then show "heldBack api ns \<longrightarrow> sa_Paused api \<or> unfinishedAll x" unfolding heldBack_def by (metis (no_types, lifting) case_prod_conv sum.simps(6))
  qed simp
  have l2: "hoare (\<lambda>_. True) (bindM (wrapM e (onW (sa_listRuns api ns))) (\<lambda>runs. bindM (onW (\<lambda>w. (Inr (sa_Now api w), w))) (\<lambda>now.
      thenM (modS (f runs now)) (ret (Inr (schedule, b runs, unfinishedAll runs, now)))))) (\<lambda>x _. prepared api ns x) (\<lambda>_. True)"
    for e schedule b and f :: "backupRun list \<Rightarrow> gtime \<Rightarrow> series \<Rightarrow> series"
  proof (rule hoare_bindM[OF l])
    fix runs
    let ?H = "\<lambda>_ :: series \<times> 'a. heldBack api ns \<longrightarrow> sa_Paused api \<or> unfinishedAll runs"
    show "hoare ?H (bindM (onW (\<lambda>w. (Inr (sa_Now api w), w))) (\<lambda>now. thenM (modS (f runs now)) (ret (Inr (schedule, b runs, unfinishedAll runs, now)))))
        (\<lambda>x _. prepared api ns x) (\<lambda>_. True)"
      by (rule hoare_bindM[where R = "\<lambda>_. ?H"], rule hoareI, simp, simp, rule hoare_thenM[where R = ?H], rule hoare_modS, assumption, rule hoare_ret)
         (simp add: prepared_def)
  qed
  have r: "hoare (\<lambda>_. True) (ret (Inl x)) (\<lambda>x _. prepared api ns x) (\<lambda>_. True)" if "x = None \<or> x = Some refresh \<or> x = Some (10 * minute)" for x
    by (rule hoare_ret) (use that in \<open>auto simp: prepared_def\<close>)
  show ?thesis unfolding prepare_def
    by (intro l2 r hoare_bindM[OF t] hoare_thenM[OF t] hoare_intros) simp_all
qed

text \<open>One namespace backup at a time. While the controller runs with --pause, and while every listing of
  the namespace's runs shows an unfinished run of the whole namespace, a pass creates no run: a server
  that treats the creation in any other way is never told apart.\<close>

theorem schedule_holds_back:
  assumes "heldBack api ns"
  shows "ReconcileS (api\<lparr>sa_create := other\<rparr>) ns s = ReconcileS api ns s"
proof -
  have f: "sa_getNamespace (api\<lparr>sa_create := other\<rparr>) = sa_getNamespace api" "sa_listClaims (api\<lparr>sa_create := other\<rparr>) = sa_listClaims api"
    "sa_parse (api\<lparr>sa_create := other\<rparr>) = sa_parse api" "sa_listRuns (api\<lparr>sa_create := other\<rparr>) = sa_listRuns api"
    "sa_Now (api\<lparr>sa_create := other\<rparr>) = sa_Now api"
    by simp_all
  have p: "prepare (api\<lparr>sa_create := other\<rparr>) ns = prepare api ns" by (simp only: prepare_def exportPinned_def f)
  have t: "runTick (api\<lparr>sa_create := other\<rparr>) ns schedule unfinished now due = runTick api ns schedule unfinished now due"
    if "sa_Paused api \<or> unfinished" for schedule unfinished now due
    using that by (cases due) (auto simp: runTick_def Let_def)
  obtain x s' where x: "prepare api ns s = (x, s')" by (metis surj_pair)
  show ?thesis
  proof (cases x)
    case (Inr y)
    have "prepared api ns y" using hoareD_Inr[OF prepare_outcome TrueI x[unfolded Inr]] .
    then show ?thesis using assms t p x Inr by (cases y) (auto simp: ReconcileS_def prepared_def split: option.splits prod.splits)
  qed (use p x in \<open>simp add: ReconcileS_def\<close>)
qed

text \<open>Whenever a pass asks to be run again, the wait is between one second and ten minutes, whatever the
  schedule's next tick is.\<close>

theorem requeue_bounds:
  "case ReconcileS api ns s of Some (Inr (Some d), _) \<Rightarrow> second \<le> d \<and> d \<le> 10 * minute | _ \<Rightarrow> True"
proof -
  have t: "hoare (\<lambda>_. True) (runTick api ns schedule unfinished now due) (\<lambda>r _. case r of Some d \<Rightarrow> second \<le> d \<and> d \<le> 10 * minute | None \<Rightarrow> True) (\<lambda>_. True)"
    for schedule unfinished now due
    unfolding runTick_def Let_def
    by (intro hoare_intros hoare_bindM[where R = "\<lambda>_ _. True"] hoare_thenM[where R = "\<lambda>_. True"])
       (auto simp: refresh_def minute_def second_def intro: hoareI)
  obtain x s' where x: "prepare api ns s = (x, s')" by (metis surj_pair)
  show ?thesis
  proof (cases x)
    case (Inr y)
    have y: "prepared api ns y" using hoareD_Inr[OF prepare_outcome TrueI x[unfolded Inr]] .
    show ?thesis
    proof (cases y)
      case (Inl r)
      then show ?thesis using y x Inr by (auto simp: ReconcileS_def prepared_def refresh_def minute_def second_def split: option.splits)
    next
      case (Inr z)
      obtain schedule baseline unfinished now where z: "z = (schedule, baseline, unfinished, now)" by (metis prod_cases4)
      show ?thesis
      proof (cases "dueTick schedule baseline now")
        case (Some due)
        obtain q s2 where q: "runTick api ns schedule unfinished now due s' = (q, s2)" by (metis surj_pair)
        then have "ReconcileS api ns s = Some (q, s2)" using x \<open>x = Inr y\<close> Inr z Some by (simp add: ReconcileS_def)
        then show ?thesis using hoareD_Inr[OF t TrueI, of schedule unfinished now due s'] q by (cases q) (auto split: option.splits)
      qed (use x \<open>x = Inr y\<close> Inr z in \<open>simp add: ReconcileS_def\<close>)
    qed
  qed (use x in \<open>simp add: ReconcileS_def\<close>)
qed

section \<open>A namespace with a schedule\<close>

definition namespaceEx :: namespaceObj where
  "namespaceEx = \<lparr>ns_meta = objectMeta0\<lparr>m_name := ''ns'', m_creation := 0, m_annotations := [AnnotationSchedule \<mapsto> ''spec'']\<rparr>\<rparr>"

definition scheduleApiEx :: "cronSchedule \<Rightarrow> unit scheduleApi" where
  "scheduleApiEx schedule = \<lparr>sa_getNamespace = \<lambda>n. ret namespaceEx, sa_listRuns = \<lambda>n. ret [scheduledRun ''ns'' (2 * minute)],
     sa_listClaims = \<lambda>n. ret [], sa_listClusters = \<lambda>n. ret [], sa_create = \<lambda>r. ret (), sa_warn = \<lambda>n t. ret (),
     sa_parse = \<lambda>s. Inr schedule, sa_Paused = False, sa_Now = \<lambda>_. 5 * minute\<rparr>"

definition series0 :: series where
  "series0 = \<lparr>se_lastSuccess = Map.empty, se_interval = Map.empty, se_info = {}, se_nextRun = Map.empty, se_invalid = Map.empty, se_pinned = {}\<rparr>"

lemma prepareEx:
  "\<exists>m b u. prepare (scheduleApiEx schedule) ''ns'' (series0, ()) = (Inr (Inr (schedule, b, u, 5 * minute)), (m, ()))"
  by (simp add: prepare_def exportPinned_def scheduleApiEx_def namespaceEx_def objectMeta0_def bindM_def thenM_def attempt_def wrapM_def onW_def modS_def ret_def)

theorem never_firing_schedule_hangs_witness: "ReconcileS (scheduleApiEx (\<lambda>_. zeroTime)) ''ns'' (series0, ()) = None"
proof -
  obtain m b u where "prepare (scheduleApiEx (\<lambda>_. zeroTime)) ''ns'' (series0, ()) = (Inr (Inr ((\<lambda>_. zeroTime), b, u, 5 * minute)), (m, ()))"
    using prepareEx by blast
  then show ?thesis by (rule never_firing_schedule_hangs) (simp_all add: zeroTime_def minute_def second_def)
qed

theorem schedule_holds_back_witness:
  "ReconcileS ((scheduleApiEx everyMinute)\<lparr>sa_create := \<lambda>r. failM Canceled\<rparr>) ''ns'' (series0, ()) = ReconcileS (scheduleApiEx everyMinute) ''ns'' (series0, ())"
  by (rule schedule_holds_back)
     (simp add: heldBack_def scheduleApiEx_def ret_def unfinishedAll_def scheduledRun_def backupRunStatus0_def Finished_def)

end
