(* ===== verification/Events.thy ===== *)
theory Events
  imports Api_Types
begin

text \<open>
  The events on runs, from \<open>src/internal/runs/events.go\<close>. A note is a list of bytes, as a Go string is;
  \<open>validString\<close> is \<open>utf8.ValidString\<close> with the byte ranges of its table. \<open>announce\<close> returns the events
  it records, with the recorder's presence as an argument.
\<close>

definition maxNote :: nat where "maxNote = 1024"

definition readyReason :: "condition list \<Rightarrow> string" where
  "readyReason conditions = (case find (\<lambda>c. c_type c = ConditionReady) conditions of Some c \<Rightarrow> c_reason c | None \<Rightarrow> [])"

section \<open>UTF-8\<close>

definition byteIn :: "nat \<Rightarrow> nat \<Rightarrow> char \<Rightarrow> bool" where
  "byteIn lo hi c = (lo \<le> (of_char c :: nat) \<and> (of_char c :: nat) \<le> hi)"

abbreviation contByte :: "char \<Rightarrow> bool" where "contByte \<equiv> byteIn 0x80 0xBF"

text \<open>The number of bytes of the well-formed character at the start of a string.\<close>

fun runeLen :: "string \<Rightarrow> nat option" where
  "runeLen [] = None"
| "runeLen (a # s) =
     (if byteIn 0 0x7F a then Some 1
      else if byteIn 0xC2 0xDF a then (case s of b # _ \<Rightarrow> if contByte b then Some 2 else None | _ \<Rightarrow> None)
      else if byteIn 0xE0 0xEF a then
        (case s of b # c # _ \<Rightarrow>
           if byteIn (if byteIn 0xE0 0xE0 a then 0xA0 else 0x80) (if byteIn 0xED 0xED a then 0x9F else 0xBF) b \<and> contByte c then Some 3 else None
         | _ \<Rightarrow> None)
      else if byteIn 0xF0 0xF4 a then
        (case s of b # c # d # _ \<Rightarrow>
           if byteIn (if byteIn 0xF0 0xF0 a then 0x90 else 0x80) (if byteIn 0xF4 0xF4 a then 0x8F else 0xBF) b \<and> contByte c \<and> contByte d then Some 4 else None
         | _ \<Rightarrow> None)
      else None)"

lemma runeLen_bounds: "runeLen s = Some n \<Longrightarrow> 0 < n \<and> n \<le> 4 \<and> n \<le> length s"
  by (cases s) (auto split: if_splits list.splits)

function validString :: "string \<Rightarrow> bool" where
  "validString s = (if s = [] then True else case runeLen s of None \<Rightarrow> False | Some n \<Rightarrow> validString (drop n s))"
  by pat_completeness auto
termination
  by (relation "measure length") (auto dest: runeLen_bounds)

declare validString.simps [simp del]

lemma validString_Nil [simp]: "validString []"
  by (simp add: validString.simps)

section \<open>The note of an event\<close>

function cutNote :: "string \<Rightarrow> string" where
  "cutNote s = (if validString s then s else cutNote (butlast s))"
  by pat_completeness auto
termination
proof (relation "measure length", simp)
  fix s assume "\<not> validString s"
  then have "s \<noteq> []" by auto
  then show "(butlast s, s) \<in> measure length" by simp
qed

declare cutNote.simps [simp del]

definition fitNote :: "string \<Rightarrow> string" where
  "fitNote note = (if length note \<le> maxNote then note else cutNote (take maxNote note))"

datatype eventType = EventNormal | EventWarning

record event =
  ev_type :: eventType
  ev_reason :: string
  ev_action :: string
  ev_note :: string

definition announce :: "bool \<Rightarrow> condition list \<Rightarrow> string \<Rightarrow> string \<Rightarrow> event list" where
  "announce recorder conditions before action =
     (if \<not> recorder then []
      else map (\<lambda>ready. \<lparr>ev_type = (if c_status ready = CondTrue \<and> c_reason ready \<noteq> ReasonSucceeded then EventWarning else EventNormal),
             ev_reason = c_reason ready, ev_action = action, ev_note = fitNote (c_message ready)\<rparr>)
           (filter (\<lambda>ready. \<not> (c_type ready \<noteq> ConditionReady \<or> c_reason ready = before)) conditions))"

section \<open>What is cut\<close>

lemma runeLen_take: "runeLen s = Some n \<Longrightarrow> n \<le> k \<Longrightarrow> runeLen (take k s) = Some n"
  by (cases s; cases k) (auto split: if_splits list.splits simp: take_Cons' dest: sym)

text \<open>A well-formed string has a well-formed prefix at most three bytes short of every length.\<close>

lemma valid_prefix:
  "validString s \<Longrightarrow> k \<le> length s \<Longrightarrow> \<exists>j. j \<le> k \<and> k \<le> j + 3 \<and> validString (take j s)"
proof (induction s arbitrary: k rule: validString.induct)
  case (1 s)
  show ?case
  proof (cases "s = []")
    case False
    then obtain n where n: "runeLen s = Some n" "validString (drop n s)" using "1.prems"(1) by (subst (asm) validString.simps) (auto split: option.splits)
    note b = runeLen_bounds[OF n(1)]
    show ?thesis
    proof (cases "n \<le> k")
      case True
      then obtain j where j: "j \<le> k - n" "k - n \<le> j + 3" "validString (take j (drop n s))"
        using "1.IH"[OF False n(1) n(2), of "k - n"] "1.prems"(2) by (auto simp: diff_le_mono)
      have "runeLen (take (n + j) s) = Some n" by (rule runeLen_take[OF n(1)]) simp
      then have "validString (take (n + j) s)" using j(3) by (subst validString.simps) (simp add: drop_take)
      then show ?thesis using j(1,2) True by (intro exI[of _ "n + j"]) auto
    next
      case f: False
      then show ?thesis using b by (intro exI[of _ 0]) auto
    qed
  qed (use "1.prems" in simp)
qed

lemma cutNote_longest:
  "\<exists>k. cutNote s = take k s \<and> validString (take k s) \<and> (\<forall>j. validString (take j s) \<longrightarrow> j \<le> length s \<longrightarrow> j \<le> k) \<and> k \<le> length s"
proof (induction s rule: cutNote.induct)
  case (1 s)
  show ?case
  proof (cases "validString s")
    case True
    then show ?thesis by (subst cutNote.simps) (intro exI[of _ "length s"], simp)
  next
    case False
    then have ne: "s \<noteq> []" by auto
    obtain k where k: "cutNote (butlast s) = take k (butlast s)" "validString (take k (butlast s))"
        "\<And>j. validString (take j (butlast s)) \<Longrightarrow> j \<le> length (butlast s) \<Longrightarrow> j \<le> k" "k \<le> length (butlast s)"
      using "1"[OF False] by blast
    have t: "j \<le> length (butlast s) \<Longrightarrow> take j (butlast s) = take j s" for j by (simp add: butlast_conv_take)
    have "j \<le> k" if v: "validString (take j s)" "j \<le> length s" for j
    proof -
      have "j \<noteq> length s" using v(1) False by auto
      then have "j \<le> length (butlast s)" using v(2) by simp
      then show ?thesis using k(3)[of j] t[of j] v(1) by simp
    qed
    moreover have "cutNote s = take k s" using k(1) False t[OF k(4)] by (subst cutNote.simps) simp
    ultimately show ?thesis using k(2,4) t[OF k(4)] by (intro exI[of _ k]) auto
  qed
qed

text \<open>C34. The note of an event fits and loses no more than it must: \<open>fitNote\<close> returns, its result is a prefix of
  at most \<open>maxNote\<close> bytes, a note that fits is unchanged, and of a longer well-formed UTF-8 note at least
  \<open>maxNote - 3\<close> bytes are kept and the result is well-formed.\<close>

theorem fitNote_fits:
  "\<exists>k. fitNote note = take k note \<and> length (fitNote note) \<le> maxNote \<and> (length note \<le> maxNote \<longrightarrow> fitNote note = note) \<and>
    (validString note \<longrightarrow> validString (fitNote note)) \<and> (validString note \<and> maxNote < length note \<longrightarrow> maxNote - 3 \<le> length (fitNote note))"
proof (cases "length note \<le> maxNote")
  case True
  then show ?thesis by (intro exI[of _ "length note"]) (simp add: fitNote_def)
next
  case False
  let ?s = "take maxNote note"
  obtain k where k: "cutNote ?s = take k ?s" "validString (take k ?s)" "\<And>j. validString (take j ?s) \<Longrightarrow> j \<le> length ?s \<Longrightarrow> j \<le> k" "k \<le> length ?s"
    using cutNote_longest[of ?s] by blast
  have f: "fitNote note = take k note" "validString (fitNote note)" "length (fitNote note) = k"
    using k False by (auto simp: fitNote_def min_def)
  have "maxNote - 3 \<le> k" if v: "validString note"
  proof -
    obtain j where "j \<le> maxNote" "maxNote \<le> j + 3" "validString (take j note)" using valid_prefix[OF v, of maxNote] False by auto
    then show ?thesis using k(3)[of j] False by (auto simp: min_def)
  qed
  then show ?thesis using f k(4) False by (intro exI[of _ k]) auto
qed

lemma validString_ascii: "list_all (byteIn 0 0x7F) s \<Longrightarrow> validString s"
  by (induction s) (simp_all add: validString.simps)

theorem fitNote_fits_witness: "maxNote - 3 \<le> length (fitNote (replicate 2000 (CHR ''a''))) \<and> length (fitNote (replicate 2000 (CHR ''a''))) \<le> maxNote"
proof -
  have "validString (replicate 2000 (CHR ''a''))" by (rule validString_ascii) (simp add: byteIn_def list_all_iff)
  moreover have "maxNote < length (replicate 2000 (CHR ''a''))" by (simp add: maxNote_def)
  ultimately show ?thesis using fitNote_fits[of "replicate 2000 (CHR ''a'')"] by blast
qed

end
