(* ===== verification/Restore_Job.thy ===== *)
theory Restore_Job
  imports Kube_Objects
begin

text \<open>
  The Job that writes one restic snapshot into a claim, from \<open>src/internal/restorejob/job.go\<close>. A Job is
  the record of what \<open>New\<close> sets; the owner references are the UIDs of the owners.
\<close>

definition restoreLabel :: string where "restoreLabel = ''backup.wlz.li/restore''"

record jobSpec =
  js_Namespace :: string
  js_Name :: string
  js_Image :: string
  js_Claim :: string
  js_RepositorySecret :: string
  js_SnapshotID :: string
  js_SecurityContext :: "podSecurityContext option"
  js_Owner :: string
  js_OwnerReferences :: "string list"
  js_Labels :: smap

datatype volumeSource = VolClaim string | VolEmptyDir

record container =
  co_Name :: string
  co_Image :: string
  co_Command :: "string list"
  co_Args :: "string list"
  co_EnvFrom :: string
  co_Env :: "(string \<times> string) list"
  co_Mounts :: "(string \<times> string) list"

record job =
  jb_meta :: objectMeta
  jb_owners :: "string list"
  jb_backoffLimit :: int
  jb_podLabels :: smap
  jb_restartPolicy :: string
  jb_securityContext :: "podSecurityContext option"
  jb_container :: container
  jb_volumes :: "(string \<times> volumeSource) list"
  jb_conditions :: "(string \<times> condStatus) list"

definition resticContainer :: "jobSpec \<Rightarrow> container" where
  "resticContainer spec =
     \<lparr>co_Name = ''restic'', co_Image = js_Image spec, co_Command = [''restic''],
      co_Args = [''restore'', js_SnapshotID spec, ''--retry-lock'', ''5m'', ''--target'', ''/data'', ''--delete'', ''--include-xattr'', ''user.*''],
      co_EnvFrom = js_RepositorySecret spec,
      co_Env = [(''RESTIC_CACHE_DIR'', ''/cache''), (''HOME'', ''/tmp''), (''RESTIC_PROGRESS_FPS'', ''0.1'')],
      co_Mounts = [(''data'', ''/data''), (''cache'', ''/cache''), (''tmp'', ''/tmp'')]\<rparr>"

definition New :: "jobSpec \<Rightarrow> job" where
  "New spec =
     (let labels = [restoreLabel \<mapsto> js_Owner spec] ++ js_Labels spec in
      \<lparr>jb_meta = objectMeta0\<lparr>m_namespace := js_Namespace spec, m_name := js_Name spec, m_labels := labels\<rparr>,
       jb_owners = js_OwnerReferences spec, jb_backoffLimit = 3, jb_podLabels = labels, jb_restartPolicy = ''Never'',
       jb_securityContext = js_SecurityContext spec, jb_container = resticContainer spec,
       jb_volumes = [(''data'', VolClaim (js_Claim spec)), (''cache'', VolEmptyDir), (''tmp'', VolEmptyDir)],
       jb_conditions = []\<rparr>)"

datatype outcome = OutRunning | OutSucceeded | OutFailed

fun resultLoop :: "(string \<times> condStatus) list \<Rightarrow> outcome" where
  "resultLoop [] = OutRunning"
| "resultLoop ((t, s) # cs) =
     (if s \<noteq> CondTrue then resultLoop cs
      else if t = ''Complete'' then OutSucceeded
      else if t = ''Failed'' then OutFailed
      else resultLoop cs)"

definition Result :: "job \<Rightarrow> outcome" where
  "Result job = resultLoop (jb_conditions job)"

section \<open>What a Job writes where\<close>

text \<open>Reading a Job the way the kubelet and restic do: the argument of \<open>--target\<close> is a mount path, the
  mount names a volume, and the volume is a claim.\<close>

fun argAfter :: "string \<Rightarrow> string list \<Rightarrow> string option" where
  "argAfter flag (a # b # rest) = (if a = flag then Some b else argAfter flag (b # rest))"
| "argAfter flag _ = None"

definition writes :: "job \<Rightarrow> (string \<times> string \<times> string) option" where
  "writes j =
     (let c = jb_container j in
      Option.bind (argAfter ''restore'' (co_Args c)) (\<lambda>snapshotID.
      Option.bind (argAfter ''--target'' (co_Args c)) (\<lambda>path.
      Option.bind (find (\<lambda>m. snd m = path) (co_Mounts c)) (\<lambda>m.
      case map_of (jb_volumes j) (fst m) of
        Some (VolClaim claim) \<Rightarrow> Some (claim, snapshotID, co_EnvFrom c)
      | _ \<Rightarrow> None))))"

lemma writes_New:
  "js_SnapshotID spec \<noteq> ''--target'' \<Longrightarrow> writes (New spec) = Some (js_Claim spec, js_SnapshotID spec, js_RepositorySecret spec)"
  by (simp add: writes_def New_def resticContainer_def Let_def)

lemma New_name [simp]: "m_name (jb_meta (New spec)) = js_Name spec" "m_namespace (jb_meta (New spec)) = js_Namespace spec"
  by (simp_all add: New_def Let_def objectMeta0_def)

lemma Result_New [simp]: "Result (New spec) = OutRunning"
  by (simp add: Result_def New_def Let_def)

lemma resultLoop_condition:
  "resultLoop cs = OutSucceeded \<Longrightarrow> (''Complete'', CondTrue) \<in> set cs"
  "resultLoop cs = OutFailed \<Longrightarrow> (''Failed'', CondTrue) \<in> set cs"
  by (induction cs rule: resultLoop.induct) (auto split: if_splits)

lemma Result_condition:
  "Result j = OutSucceeded \<Longrightarrow> (''Complete'', CondTrue) \<in> set (jb_conditions j)"
  "Result j = OutFailed \<Longrightarrow> (''Failed'', CondTrue) \<in> set (jb_conditions j)"
  by (simp_all add: Result_def resultLoop_condition)

end
