(* ===== verification/Restore_Select.thy ===== *)
theory Restore_Select
  imports Webhook Sources Cnpg Pause Lease Restore_Job
begin

text \<open>
  What a RestoreRun restores, from \<open>src/internal/runs/restore_select.go\<close> and \<open>target\<close> of \<open>restorerun.go\<close>.

  Every call of the RestoreRun reconciler to the API server, to the repositories, to the archives and
  to the clock is a field of the parameter \<open>restoreApi\<close>. \<open>selectBackups\<close> writes into the run in memory and
  returns it; when it fails, the pass ends and drops that copy, so the error carries no run.
\<close>

record 'w restoreApi =
  ra_get :: "string \<Rightarrow> string \<Rightarrow> ('w, restoreRun) call"
  ra_updateStatus :: "restoreRun \<Rightarrow> ('w, string) call"
  ra_update :: "restoreRun \<Rightarrow> ('w, string) call"
  ra_delete :: "string \<Rightarrow> string \<Rightarrow> ('w, unit) call"
  ra_getClaim :: "string \<Rightarrow> string \<Rightarrow> ('w, claim) call"
  ra_listClaims :: "string \<Rightarrow> ('w, claim list) call"
  ra_createClaim :: "claim \<Rightarrow> ('w, unit) call"
  ra_getVR :: "string \<Rightarrow> string \<Rightarrow> ('w, volumeRestore) call"
  ra_getSecret :: "string \<Rightarrow> string \<Rightarrow> ('w, secret) call"
  ra_getStore :: "string \<Rightarrow> string \<Rightarrow> ('w, objectStore) call"
  ra_getCluster :: "string \<Rightarrow> string \<Rightarrow> ('w, cluster) call"
  ra_getClusterCached :: "string \<Rightarrow> string \<Rightarrow> ('w, cluster) call"
  ra_listClusters :: "string \<Rightarrow> ('w, cluster list) call"
  ra_deleteCluster :: "string \<Rightarrow> string \<Rightarrow> string \<Rightarrow> ('w, unit) call"
  ra_listPods :: "string \<Rightarrow> ('w, pod list) call"
  ra_listJobPods :: "string \<Rightarrow> string \<Rightarrow> ('w, pod list) call"
  ra_listInstancePods :: "string \<Rightarrow> string \<Rightarrow> ('w, pod list) call"
  ra_listInstanceClaims :: "string \<Rightarrow> string \<Rightarrow> ('w, claim list) call"
  ra_getJob :: "string \<Rightarrow> string \<Rightarrow> ('w, job) call"
  ra_createJob :: "job \<Rightarrow> ('w, unit) call"
  ra_deleteJob :: "string \<Rightarrow> string \<Rightarrow> ('w, unit) call"
  ra_listQueues :: "string \<Rightarrow> ('w, string list) call"
  ra_getWorkload :: "string \<Rightarrow> string \<Rightarrow> ('w, kueueWorkload) call"
  ra_createWorkload :: "kueueWorkload \<Rightarrow> ('w, kueueWorkload) call"
  ra_updateWorkload :: "kueueWorkload \<Rightarrow> ('w, unit) call"
  ra_deleteWorkload :: "string \<Rightarrow> string \<Rightarrow> ('w, unit) call"
  ra_pause :: "'w pauseApi"
  ra_leases :: "'w leaseApi"
  ra_snapshots :: "secret \<Rightarrow> ('w, snapshot list) call"
  ra_BaseBackups :: "location \<Rightarrow> ('w, baseBackup list) call"
  ra_WALSince :: "location \<Rightarrow> gtime \<Rightarrow> ('w, bool) call"
  ra_urlParse :: "string \<Rightarrow> gerr + url"
  ra_setCond :: "condition list \<Rightarrow> condition \<Rightarrow> condition list"
  ra_Paused :: bool
  ra_RestoreImage :: string
  ra_Now :: "'w \<Rightarrow> gtime"

section \<open>The moment and the repository\<close>

definition restoreTarget :: "restoreRun \<Rightarrow> gerr + gtime option" where
  "restoreTarget run =
     (case rs_RestoreAsOf (rr_spec run) of
        None \<Rightarrow> Inr None
      | Some s \<Rightarrow>
          (case parseRFC3339 s of
             None \<Rightarrow> Inl (Plain (''restoreAsOf '' @ quote s @ '' is not an RFC 3339 time''))
           | Some t \<Rightarrow> Inr (Some t)))"

fun isNoBackup1 :: "gerr \<Rightarrow> bool" where
  "isNoBackup1 (NoBackupInReach _) = True"
| "isNoBackup1 _ = False"

text \<open>The reason of the first \<open>noBackupError\<close> of a chain, as \<open>errors.As\<close> finds it.\<close>

fun noBackupReason :: "gerr \<Rightarrow> string" where
  "noBackupReason (Wrap t e) = noBackupReason e"
| "noBackupReason (Join a b) = (if anyErr isNoBackup1 a then noBackupReason a else noBackupReason b)"
| "noBackupReason e = errText e"

definition namedRepository :: "'w restoreApi \<Rightarrow> string \<Rightarrow> string \<Rightarrow> ('w, secret) call" where
  "namedRepository api namespace name =
     bindM (attempt (ra_getSecret api namespace name)) (\<lambda>r. case r of
       Inl err \<Rightarrow> if IsNotFound err then failM (NoBackupInReach (''no repository Secret '' @ name @ '' in this namespace''))
                  else failM (Wrap (''get Secret '' @ name @ '': '') err)
     | Inr sec \<Rightarrow> ret sec)"

definition sourceRepository :: "'w restoreApi \<Rightarrow> restoreRun \<Rightarrow> restoreItem \<Rightarrow> ('w, secret) call" where
  "sourceRepository api run item =
     (let namespace = m_namespace (rr_meta run); into = (rs_Into (rr_spec run) \<noteq> []);
          name = (if into then rs_Repository (rr_spec run) else []);
          claimName = (if into then rs_Claim (rr_spec run) else ri_Name item) in
      if name = [] then
        bindM (attempt (ra_getClaim api namespace claimName)) (\<lambda>r. case r of
          Inl err \<Rightarrow> if IsNotFound err then failM (NoBackupInReach (''no claim '' @ claimName @ '' in this namespace''))
                     else failM (Wrap (''get claim '' @ claimName @ '': '') err)
        | Inr cl \<Rightarrow>
            bindM (attempt (volumeRestoreFor (ra_getVR api) cl)) (\<lambda>r. case r of
              Inl err \<Rightarrow> if anyErr isMissingVR1 err then failM (NoBackupInReach (errText err)) else failM err
            | Inr vr \<Rightarrow> namedRepository api namespace (vs_Repository (vr_spec vr))))
      else namedRepository api namespace name)"

section \<open>A volume's snapshot\<close>

text \<open>The index of the last snapshot at or before the moment, \<open>-1\<close> for none.\<close>

primrec lastAt :: "gtime \<Rightarrow> snapshot list \<Rightarrow> int \<Rightarrow> int \<Rightarrow> int" where
  "lastAt t [] i index = index"
| "lastAt t (s # ss) i index = lastAt t ss (i + 1) (if \<not> sn_Time s > t then i else index)"

definition indexPanic :: gerr where
  "indexPanic = Plain ''runtime error: index out of range''"

definition pickSnapshot :: "int option \<Rightarrow> gtime option \<Rightarrow> bool \<Rightarrow> snapshot list \<Rightarrow> gerr + snapshot" where
  "pickSnapshot previous at paused listed =
     (let snapshots0 = (if paused then filter (\<lambda>s. PausedTag \<in> set (sn_Tags s)) listed else listed) in
      if paused \<and> snapshots0 = []
      then Inl (NoBackupInReach (''the repository holds no snapshot tagged '' @ PausedTag @ ''; only a BackupRun with all: true that paused the app writes one''))
      else if snapshots0 = [] then Inl (NoBackupInReach ''the repository holds no snapshot'')
      else
      let snapshots = sort_key sn_Time snapshots0;
          index = (case at of None \<Rightarrow> int (length snapshots) - 1 | Some t \<Rightarrow> lastAt t snapshots 0 (-1));
          back = index - (case previous of None \<Rightarrow> 0 | Some n \<Rightarrow> n) in
      if at \<noteq> None \<and> index < 0
      then Inl (NoBackupInReach (''no snapshot at or before '' @ formatRFC3339 (the at) @ ''; the oldest, '' @ ShortID (hd snapshots) @ '', is from '' @
             formatRFC3339 (sn_Time (hd snapshots))))
      else if previous \<noteq> None \<and> back < 0
      then Inl (NoBackupInReach (''previous '' @ itoa (the previous) @ '' reaches past the oldest snapshot''))
      else if back \<ge> int (length snapshots) then Inl indexPanic
      else Inr (snapshots ! nat back))"

definition selectSnapshot :: "'w restoreApi \<Rightarrow> restoreRun \<Rightarrow> restoreItem \<Rightarrow> gtime option \<Rightarrow> bool \<Rightarrow> ('w, snapshot) call" where
  "selectSnapshot api run item at paused =
     bindM (sourceRepository api run item) (\<lambda>sec.
     bindM (wrapM (''list the snapshots in '' @ m_name (se_meta sec) @ '': '') (ra_snapshots api sec)) (\<lambda>snapshots.
     liftE (pickSnapshot (rs_Previous (rr_spec run)) at paused snapshots)))"

section \<open>A database's base backup\<close>

definition noBaseBackupBy :: "baseBackup list \<Rightarrow> gtime \<Rightarrow> gerr" where
  "noBaseBackupBy backups t =
     NoBackupInReach (''no base backup finished by '' @ formatRFC3339 t @ ''; the oldest, '' @ bb_ID (hd backups) @ '', finished at '' @
       formatRFC3339 (bb_End (hd backups)))"

text \<open>The end of the newest base backup at or before the moment.\<close>

definition stopBy :: "baseBackup list \<Rightarrow> gtime \<Rightarrow> restoreItem \<Rightarrow> gerr + restoreItem" where
  "stopBy backups t item =
     (case bbAtOrBefore backups t of
        None \<Rightarrow> Inl (noBaseBackupBy backups t)
      | Some b \<Rightarrow> Inr (item\<lparr>ri_BaseBackup := bb_ID b, ri_StopAtBaseBackup := True\<rparr>))"

definition pausedBackupOf :: "snapshot \<Rightarrow> string \<Rightarrow> baseBackup list \<Rightarrow> string option" where
  "pausedBackupOf s name backups =
     (case PausedBaseBackup s name of
        Some bid \<Rightarrow> if list_ex (\<lambda>b. bb_ID b = bid) backups then Some bid else None
      | None \<Rightarrow> None)"

definition stopSynced :: "'w restoreApi \<Rightarrow> location \<Rightarrow> baseBackup list \<Rightarrow> snapshot \<Rightarrow> restoreItem \<Rightarrow> ('w, restoreItem) call" where
  "stopSynced api loc backups s item =
     (case pausedBackupOf s (ri_Name item) backups of
        Some bid \<Rightarrow> ret (item\<lparr>ri_BaseBackup := bid, ri_StopAtBaseBackup := True\<rparr>)
      | None \<Rightarrow>
        if HibernatedTag (ri_Name item) \<in> set (sn_Tags s) then
          bindM (wrapM (''check the WAL of '' @ ri_Name item @ '' after '' @ formatRFC3339 (sn_Time s) @ '': '') (ra_WALSince api loc (sn_Time s))) (\<lambda>woken.
          if \<not> woken then ret (item\<lparr>ri_BaseBackup := bb_ID (last backups)\<rparr>)
          else liftE (stopBy backups (sn_Time s) item))
        else liftE (stopBy backups (sn_Time s) item))"

definition stopFor :: "'w restoreApi \<Rightarrow> location \<Rightarrow> baseBackup list \<Rightarrow> gtime option \<Rightarrow> snapshot option \<Rightarrow> restoreItem \<Rightarrow> ('w, restoreItem) call" where
  "stopFor api loc backups at synced item =
     (case synced of
        Some s \<Rightarrow> stopSynced api loc backups s item
      | None \<Rightarrow>
        (case at of
           None \<Rightarrow> ret (item\<lparr>ri_BaseBackup := bb_ID (last backups)\<rparr>)
         | Some t \<Rightarrow> liftE (stopBy backups t item)))"

definition noCompleted :: "location \<Rightarrow> gerr" where
  "noCompleted loc = NoBackupInReach (lo_Bucket loc @ ''/'' @ BasePrefix loc @ '' holds no completed base backup; deleting the Cluster would bring it back empty'')"

definition stopIn :: "'w restoreApi \<Rightarrow> restoreItem \<Rightarrow> gtime option \<Rightarrow> snapshot option \<Rightarrow> location \<Rightarrow> ('w, restoreItem) call" where
  "stopIn api item at synced loc =
     bindM (wrapM (''list the base backups of '' @ ri_Name item @ '': '') (ra_BaseBackups api loc)) (\<lambda>backups.
     if backups = [] then failM (noCompleted loc) else stopFor api loc backups at synced item)"

definition selectAt :: "'w restoreApi \<Rightarrow> restoreRun \<Rightarrow> restoreItem \<Rightarrow> gtime option \<Rightarrow> snapshot option \<Rightarrow> string \<Rightarrow> string \<Rightarrow> ('w, restoreItem) call" where
  "selectAt api run item at synced store serverName =
     bindM (attempt (ResolveLocation (ra_urlParse api) (ra_getStore api) (ra_getSecret api) (m_namespace (rr_meta run)) store serverName)) (\<lambda>r. case r of
       Inl err \<Rightarrow> failM (NoBackupInReach (errText err))
     | Inr loc \<Rightarrow> stopIn api item at synced loc)"

definition selectBaseBackup :: "'w restoreApi \<Rightarrow> restoreRun \<Rightarrow> restoreItem \<Rightarrow> gtime option \<Rightarrow> snapshot option \<Rightarrow> ('w, restoreItem) call" where
  "selectBaseBackup api run item at synced =
     bindM (getCluster (ra_getCluster api) (m_namespace (rr_meta run)) (ri_Name item)) (\<lambda>found. case found of
       None \<Rightarrow> failM (NoBackupInReach (''no Cluster '' @ ri_Name item @ '' in this namespace''))
     | Some c \<Rightarrow>
       (case Archiver c of
          None \<Rightarrow> failM (NoBackupInReach ''the Cluster archives nowhere, so it has no backup to restore'')
        | Some (store, serverName) \<Rightarrow> selectAt api run item at synced store serverName))"

section \<open>All items\<close>

definition failRestore :: "string \<Rightarrow> restoreItem \<Rightarrow> restoreItem" where
  "failRestore message item = item\<lparr>ri_Phase := ItemFailed, ri_Message := message\<rparr>"

definition unreachableLine :: "restoreItem \<Rightarrow> string \<Rightarrow> string" where
  "unreachableLine item reason = ri_Kind item @ '' '' @ ri_Name item @ '': '' @ reason"

definition takeSnapshot :: "snapshot \<Rightarrow> restoreItem \<Rightarrow> restoreItem" where
  "takeSnapshot s item = item\<lparr>ri_Snapshot := ShortID s, ri_SnapshotID := sn_ID s, ri_SnapshotTime := Some (sn_Time s)\<rparr>"

definition otherMoment :: "snapshot \<Rightarrow> snapshot \<Rightarrow> string" where
  "otherMoment s synced = ''its paused snapshot '' @ ShortID s @ '' is from '' @ formatRFC3339 (sn_Time s) @ '' and another volume's is from '' @
     formatRFC3339 (sn_Time synced) @ ''; a synced restore needs one moment for every volume''"

text \<open>The loop over the volumes carries the first selected snapshot of a synced restore and the lines of
  the items without a backup; it returns the changed items with both.\<close>

primrec selectVolumes :: "'w restoreApi \<Rightarrow> restoreRun \<Rightarrow> gtime option \<Rightarrow> bool \<Rightarrow> restoreItem list \<Rightarrow> snapshot option \<Rightarrow> string list \<Rightarrow>
    ('w, restoreItem list \<times> snapshot option \<times> string list) call" where
  "selectVolumes api run at sync [] synced unreachable = ret ([], synced, unreachable)"
| "selectVolumes api run at sync (item # items) synced unreachable =
     (let next = (\<lambda>item' synced' unreachable'.
            bindM (selectVolumes api run at sync items synced' unreachable') (\<lambda>(items', r). ret (item' # items', r))) in
      if ri_Kind item \<noteq> ''PersistentVolumeClaim'' \<or> ri_Phase item \<noteq> ItemPending then next item synced unreachable
      else
      bindM (attempt (selectSnapshot api run item at sync)) (\<lambda>r. case r of
        Inl err \<Rightarrow>
          if anyErr isNoBackup1 err
          then next (failRestore (noBackupReason err) item) synced (unreachable @ [unreachableLine item (noBackupReason err)])
          else failM err
      | Inr s \<Rightarrow>
          if \<not> sync then next (takeSnapshot s item) synced unreachable
          else
          (case synced of
             None \<Rightarrow> next (takeSnapshot s item) (Some s) unreachable
           | Some s0 \<Rightarrow>
               if sn_Time s \<noteq> sn_Time s0
               then next (failRestore (otherMoment s s0) item) synced (unreachable @ [unreachableLine item (otherMoment s s0)])
               else next (takeSnapshot s item) synced unreachable)))"

definition noMoment :: string where
  "noMoment = ''no volume selected a paused snapshot, so there is no moment to recover the database to''"

primrec selectDatabases :: "'w restoreApi \<Rightarrow> restoreRun \<Rightarrow> gtime option \<Rightarrow> bool \<Rightarrow> snapshot option \<Rightarrow> restoreItem list \<Rightarrow> string list \<Rightarrow>
    ('w, restoreItem list \<times> string list) call" where
  "selectDatabases api run at sync synced [] unreachable = ret ([], unreachable)"
| "selectDatabases api run at sync synced (item # items) unreachable =
     (let next = (\<lambda>item' unreachable'.
            bindM (selectDatabases api run at sync synced items unreachable') (\<lambda>(items', u). ret (item' # items', u))) in
      if ri_Kind item \<noteq> ''Cluster'' \<or> ri_Phase item \<noteq> ItemPending then next item unreachable
      else if sync \<and> synced = None then next (failRestore noMoment item) (unreachable @ [unreachableLine item noMoment])
      else
      bindM (attempt (selectBaseBackup api run item at synced)) (\<lambda>r. case r of
        Inl err \<Rightarrow>
          if anyErr isNoBackup1 err
          then next (failRestore (noBackupReason err) item) (unreachable @ [unreachableLine item (noBackupReason err)])
          else failM err
      | Inr item' \<Rightarrow> next item' unreachable))"

definition skipPending :: "restoreItem \<Rightarrow> restoreItem" where
  "skipPending item =
     (if ri_Phase item = ItemPending
      then item\<lparr>ri_Phase := ItemSkipped, ri_Message := ''left alone because another item has no backup the run can restore''\<rparr> else item)"

definition selectBackups :: "'w restoreApi \<Rightarrow> restoreRun \<Rightarrow> ('w, restoreRun \<times> string) call" where
  "selectBackups api run =
     (let sync = rs_SyncDatabaseToVolume (rr_spec run) in
      bindM (liftE (restoreTarget run)) (\<lambda>at.
      bindM (selectVolumes api run at sync (rt_Items (rr_status run)) None []) (\<lambda>(items1, synced, unreachable1).
      bindM (selectDatabases api run at sync synced items1 unreachable1) (\<lambda>(items2, unreachable).
      if unreachable \<noteq> []
      then ret (run\<lparr>rr_status := (rr_status run)\<lparr>rt_Items := map skipPending items2\<rparr>\<rparr>, joinStr ''; '' unreachable)
      else ret (run\<lparr>rr_status := (rr_status run)\<lparr>rt_Items := items2,
             rt_SyncedTo := (case synced of Some s \<Rightarrow> Some (sn_Time s) | None \<Rightarrow> rt_SyncedTo (rr_status run))\<rparr>\<rparr>, [])))))"

section \<open>The selected snapshot\<close>

lemma sorted_filter_takeWhile:
  "sorted (map sn_Time xs) \<Longrightarrow> filter (\<lambda>s. \<not> sn_Time s > t) xs = takeWhile (\<lambda>s. \<not> sn_Time s > t) xs"
proof (induction xs)
  case (Cons a xs)
  then show ?case by (cases xs) auto
qed simp

lemma lastAt_sorted:
  "sorted (map sn_Time xs) \<Longrightarrow> lastAt t xs i index =
     (if filter (\<lambda>s. \<not> sn_Time s > t) xs = [] then index else i + int (length (filter (\<lambda>s. \<not> sn_Time s > t) xs)) - 1)"
  by (induction xs arbitrary: i index) (auto simp: filter_empty_conv)

definition eligible :: "gtime option \<Rightarrow> bool \<Rightarrow> snapshot \<Rightarrow> bool" where
  "eligible at paused s = ((paused \<longrightarrow> PausedTag \<in> set (sn_Tags s)) \<and> (case at of None \<Rightarrow> True | Some t \<Rightarrow> \<not> sn_Time s > t))"

text \<open>The reference: the newest of the eligible snapshots, or the one \<open>previous\<close> steps before it.\<close>

definition stepsBack :: "int option \<Rightarrow> nat" where
  "stepsBack previous = (case previous of None \<Rightarrow> 0 | Some n \<Rightarrow> nat n)"

definition newestBut :: "nat \<Rightarrow> snapshot list \<Rightarrow> snapshot option" where
  "newestBut k c = (if k < length c then Some (rev (sort_key sn_Time c) ! k) else None)"

lemma filter_eligible:
  "filter (eligible at paused) listed =
     filter (\<lambda>s. case at of None \<Rightarrow> True | Some t \<Rightarrow> \<not> sn_Time s > t)
       (if paused then filter (\<lambda>s. PausedTag \<in> set (sn_Tags s)) listed else listed)"
  by (auto simp: eligible_def intro!: filter_cong)

lemma nth_newest:
  assumes "k < length c" and "xs = sort_key sn_Time c @ ys"
  shows "xs ! (length c - 1 - k) = rev (sort_key sn_Time c) ! k"
  using assms by (simp add: nth_append rev_nth)

lemma pickSnapshot_cases:
  assumes "case previous of None \<Rightarrow> True | Some n \<Rightarrow> 0 \<le> n"
  shows "case newestBut (stepsBack previous) (filter (eligible at paused) listed) of
       Some s \<Rightarrow> pickSnapshot previous at paused listed = Inr s
     | None \<Rightarrow> (\<exists>reason. pickSnapshot previous at paused listed = Inl (NoBackupInReach reason))"
proof -
  define xs where "xs = (if paused then filter (\<lambda>s. PausedTag \<in> set (sn_Tags s)) listed else listed)"
  define c where "c = filter (eligible at paused) listed"
  define k where "k = stepsBack previous"
  define ys where "ys = sort_key sn_Time xs"
  define index where "index = (case at of None \<Rightarrow> int (length ys) - 1 | Some t \<Rightarrow> lastAt t ys 0 (-1))"
  have c: "c = filter (\<lambda>s. case at of None \<Rightarrow> True | Some t \<Rightarrow> \<not> sn_Time s > t) xs"
    unfolding c_def xs_def by (rule filter_eligible)
  have sc: "sort_key sn_Time c = filter (\<lambda>s. case at of None \<Rightarrow> True | Some t \<Rightarrow> \<not> sn_Time s > t) ys"
    unfolding c ys_def by (simp add: filter_sort)
  have lc: "length (sort_key sn_Time c) = length c" by simp
  have ix: "index = int (length c) - 1"
  proof (cases at)
    case None
    then show ?thesis by (simp add: index_def c ys_def)
  next
    case (Some t)
    have "sorted (map sn_Time ys)" by (simp add: ys_def)
    then show ?thesis using Some sc lc by (auto simp: index_def lastAt_sorted)
  qed
  have "\<exists>zs. ys = sort_key sn_Time c @ zs"
  proof (cases at)
    case None
    then show ?thesis using sc by simp
  next
    case (Some t)
    have "sorted (map sn_Time ys)" by (simp add: ys_def)
    then have "sort_key sn_Time c = takeWhile (\<lambda>s. \<not> sn_Time s > t) ys" using Some sc sorted_filter_takeWhile by simp
    then show ?thesis using takeWhile_dropWhile_id[of "\<lambda>s. \<not> sn_Time s > t" ys] by metis
  qed
  then obtain zs where zs: "ys = sort_key sn_Time c @ zs" by blast
  have bk: "index - (case previous of None \<Rightarrow> 0 | Some n \<Rightarrow> n) = int (length c) - 1 - int k"
    using assms by (simp add: ix k_def stepsBack_def split: option.splits)
  let ?none = "xs = [] \<or> (at \<noteq> None \<and> index < 0) \<or> (previous \<noteq> None \<and> int (length c) - 1 - int k < 0)"
    and ?p = "pickSnapshot previous at paused listed"
  have p: "?p = Inr (ys ! nat (int (length c) - 1 - int k))" if "\<not> ?none" "k < length c"
    using that zs unfolding pickSnapshot_def Let_def xs_def[symmetric] ys_def[symmetric] index_def[symmetric] bk by auto
  have e: "\<exists>reason. ?p = Inl (NoBackupInReach reason)" if ?none
    using that unfolding pickSnapshot_def Let_def xs_def[symmetric] ys_def[symmetric] index_def[symmetric] bk by auto
  show ?thesis
  proof (cases "k < length c")
    case True
    then have "xs \<noteq> []" using c by auto
    then have "?p = Inr (ys ! nat (int (length c) - 1 - int k))" using True ix by (intro p) auto
    moreover have "nat (int (length c) - 1 - int k) = length c - 1 - k" by linarith
    ultimately show ?thesis using nth_newest[OF True zs] True by (simp add: newestBut_def c_def[symmetric] k_def[symmetric])
  next
    case False
    have "k = 0 \<or> previous \<noteq> None" by (simp add: k_def stepsBack_def split: option.splits)
    moreover have "xs = [] \<or> at \<noteq> None" if "length c = 0" using that c by (cases at) auto
    ultimately have ?none using False ix by auto
    from e[OF this] show ?thesis using False by (simp add: newestBut_def c_def[symmetric] k_def[symmetric])
  qed
qed

section \<open>What the items get\<close>

lemma bind_attempt: "c w = (q, w1) \<Longrightarrow> bindM (attempt c) f w = f q w1"
  by (simp add: bindM_def attempt_def)

text \<open>The repository a volume item is restored from: the one the run's spec names for a restore into
  another claim, and else the one of the VolumeRestore of the claim, which is the spec's claim for such a
  restore and the item's own otherwise.\<close>

definition repositoryOf :: "'w restoreApi \<Rightarrow> restoreRun \<Rightarrow> restoreItem \<Rightarrow> 'w \<Rightarrow> secret \<Rightarrow> 'w \<Rightarrow> bool" where
  "repositoryOf api run item w sec w' =
     (if rs_Into (rr_spec run) \<noteq> [] \<and> rs_Repository (rr_spec run) \<noteq> []
      then ra_getSecret api (m_namespace (rr_meta run)) (rs_Repository (rr_spec run)) w = (Inr sec, w')
      else (\<exists>cl vr w1 w2.
        ra_getClaim api (m_namespace (rr_meta run)) (if rs_Into (rr_spec run) \<noteq> [] then rs_Claim (rr_spec run) else ri_Name item) w = (Inr cl, w1) \<and>
        volumeRestoreFor (ra_getVR api) cl w1 = (Inr vr, w2) \<and>
        ra_getSecret api (m_namespace (rr_meta run)) (vs_Repository (vr_spec vr)) w2 = (Inr sec, w')))"

lemma namedRepository_Inr: "namedRepository api ns name w = (Inr sec, w') \<longleftrightarrow> ra_getSecret api ns name w = (Inr sec, w')"
  by (cases "ra_getSecret api ns name w") (auto simp: namedRepository_def call_simps split: sum.splits)

lemma sourceRepository_choice:
  assumes "sourceRepository api run item w = (Inr sec, w')"
  shows "repositoryOf api run item w sec w'"
proof (cases "rs_Into (rr_spec run) \<noteq> [] \<and> rs_Repository (rr_spec run) \<noteq> []")
  case True
  then show ?thesis using assms by (simp add: sourceRepository_def repositoryOf_def namedRepository_Inr Let_def)
next
  case False
  let ?ns = "m_namespace (rr_meta run)" and ?cn = "if rs_Into (rr_spec run) \<noteq> [] then rs_Claim (rr_spec run) else ri_Name item"
  obtain r w1 where g: "ra_getClaim api ?ns ?cn w = (r, w1)" by fastforce
  from False have n: "(if rs_Into (rr_spec run) \<noteq> [] then rs_Repository (rr_spec run) else []) = []" by auto
  note c = assms[unfolded sourceRepository_def Let_def if_P[OF n] bind_attempt[where c = "ra_getClaim api ?ns ?cn", OF g]]
  obtain cl where cl: "r = Inr cl" using c by (cases r) (auto simp: failM_def split: if_splits)
  obtain q w2 where v: "volumeRestoreFor (ra_getVR api) cl w1 = (q, w2)" by fastforce
  note d = c[unfolded cl sum.case bind_attempt[where c = "volumeRestoreFor (ra_getVR api) cl", OF v]]
  obtain vr where vr: "q = Inr vr" using d by (cases q) (auto simp: failM_def split: if_splits)
  from d[unfolded vr sum.case namedRepository_Inr] g v cl vr show ?thesis
    unfolding repositoryOf_def if_not_P[OF False] by blast
qed

text \<open>The snapshot a volume item gets, by the reference on the listing of its repository.\<close>

definition volumeChoice :: "'w restoreApi \<Rightarrow> restoreRun \<Rightarrow> gtime option \<Rightarrow> restoreItem \<Rightarrow> snapshot \<Rightarrow> bool" where
  "volumeChoice api run at item s =
     (\<exists>sec listed w1 w2 w3. repositoryOf api run item w1 sec w2 \<and> ra_snapshots api sec w2 = (Inr listed, w3) \<and>
        newestBut (stepsBack (rs_Previous (rr_spec run))) (filter (eligible at (rs_SyncDatabaseToVolume (rr_spec run))) listed) = Some s)"

text \<open>Where a recovery stops, as a rule on the listing of the archive: \<open>b\<close> is the base backup the item
  records and \<open>stop\<close> says whether the recovery ends with it or replays the whole archive from it. \<open>asleep\<close>
  says that the archive holds no WAL from after the moment.\<close>

definition stopRule :: "baseBackup list \<Rightarrow> gtime option \<Rightarrow> snapshot option \<Rightarrow> string \<Rightarrow> (gtime \<Rightarrow> bool) \<Rightarrow> baseBackup \<Rightarrow> bool \<Rightarrow> bool" where
  "stopRule backups at synced name asleep b stop =
     (case synced of
        None \<Rightarrow> (case at of None \<Rightarrow> b = last backups \<and> \<not> stop | Some t \<Rightarrow> newestBy backups t b \<and> stop)
      | Some s \<Rightarrow>
          if \<exists>c \<in> set backups. PausedBaseBackup s name = Some (bb_ID c) then PausedBaseBackup s name = Some (bb_ID b) \<and> stop
          else if HibernatedTag name \<in> set (sn_Tags s) \<and> asleep (sn_Time s) then b = last backups \<and> \<not> stop
          else newestBy backups (sn_Time s) b \<and> stop)"

text \<open>What a database item gets: the choice of that rule on the base backups of its own Cluster's archive.\<close>

definition databaseChoice :: "'w restoreApi \<Rightarrow> restoreRun \<Rightarrow> gtime option \<Rightarrow> snapshot option \<Rightarrow> restoreItem \<Rightarrow> restoreItem \<Rightarrow> bool" where
  "databaseChoice api run at synced i j =
     (\<exists>c store serverName loc backups b stop w1 w2 w3 w4.
        ra_getCluster api (m_namespace (rr_meta run)) (ri_Name i) w1 = (Inr c, w2) \<and> Archiver c = Some (store, serverName) \<and>
        ResolveLocation (ra_urlParse api) (ra_getStore api) (ra_getSecret api) (m_namespace (rr_meta run)) store serverName w2 = (Inr loc, w3) \<and>
        ra_BaseBackups api loc w3 = (Inr backups, w4) \<and> b \<in> set backups \<and>
        stopRule backups at synced (ri_Name i) (\<lambda>t. \<exists>w5. ra_WALSince api loc t w4 = (Inr False, w5)) b stop \<and>
        j = i\<lparr>ri_BaseBackup := bb_ID b, ri_StopAtBaseBackup := stop \<or> ri_StopAtBaseBackup i\<rparr>)"

lemma selectSnapshot_choice:
  assumes "selectSnapshot api run item at (rs_SyncDatabaseToVolume (rr_spec run)) w = (Inr s, w')"
    and "case rs_Previous (rr_spec run) of None \<Rightarrow> True | Some n \<Rightarrow> 0 \<le> n"
  shows "volumeChoice api run at item s"
proof -
  from assms(1) obtain sec listed w1 where w: "sourceRepository api run item w = (Inr sec, w1)" "ra_snapshots api sec w1 = (Inr listed, w')"
    and p: "pickSnapshot (rs_Previous (rr_spec run)) at (rs_SyncDatabaseToVolume (rr_spec run)) listed = Inr s"
    by (auto simp: selectSnapshot_def bindM_Inr_iff)
  have "newestBut (stepsBack (rs_Previous (rr_spec run))) (filter (eligible at (rs_SyncDatabaseToVolume (rr_spec run))) listed) = Some s"
    using pickSnapshot_cases[OF assms(2), of at "rs_SyncDatabaseToVolume (rr_spec run)" listed] p by (auto split: option.splits)
  then show ?thesis unfolding volumeChoice_def using sourceRepository_choice[OF w(1)] w(2) by blast
qed

lemma stopBy_choice:
  assumes "stopBy backups t i = Inr j"
  shows "\<exists>b \<in> set backups. newestBy backups t b \<and> j = i\<lparr>ri_BaseBackup := bb_ID b, ri_StopAtBaseBackup := True\<rparr>"
proof -
  obtain b where b: "bbAtOrBefore backups t = Some b" "j = i\<lparr>ri_BaseBackup := bb_ID b, ri_StopAtBaseBackup := True\<rparr>"
    using assms by (auto simp: stopBy_def split: option.splits)
  from b(1) have "newestBy backups t b" by (rule bbAtOrBefore_newest)
  moreover from this have "b \<in> set backups" by (simp add: newestBy_def)
  ultimately show ?thesis using b(2) by blast
qed

lemma stopSynced_choice:
  assumes "stopSynced api loc backups s i w = (Inr j, w')" "backups \<noteq> []"
  shows "\<exists>b stop. b \<in> set backups \<and>
     stopRule backups at (Some s) (ri_Name i) (\<lambda>t. \<exists>w5. ra_WALSince api loc t w = (Inr False, w5)) b stop \<and>
     j = i\<lparr>ri_BaseBackup := bb_ID b, ri_StopAtBaseBackup := stop \<or> ri_StopAtBaseBackup i\<rparr>"
proof (cases "pausedBackupOf s (ri_Name i) backups")
  case (Some bid)
  then obtain b where b: "b \<in> set backups" "bb_ID b = bid" "PausedBaseBackup s (ri_Name i) = Some bid"
    by (auto simp: pausedBackupOf_def list_ex_iff split: option.splits if_splits)
  then have "stopRule backups at (Some s) (ri_Name i) (\<lambda>t. \<exists>w5. ra_WALSince api loc t w = (Inr False, w5)) b True"
    unfolding stopRule_def by auto
  moreover have "j = i\<lparr>ri_BaseBackup := bb_ID b, ri_StopAtBaseBackup := True \<or> ri_StopAtBaseBackup i\<rparr>"
    using assms(1) Some b(2) by (simp add: stopSynced_def call_simps)
  ultimately show ?thesis using b(1) by blast
next
  case None
  then have none: "\<not> (\<exists>c \<in> set backups. PausedBaseBackup s (ri_Name i) = Some (bb_ID c))"
    by (auto simp: pausedBackupOf_def list_ex_iff split: option.splits if_splits)
  let ?tag = "HibernatedTag (ri_Name i) \<in> set (sn_Tags s)"
  let ?asleep = "\<lambda>t. \<exists>w5. ra_WALSince api loc t w = (Inr False, w5)"
  have rule: "stopRule backups at (Some s) (ri_Name i) ?asleep b stop \<longleftrightarrow>
      (if ?tag \<and> ?asleep (sn_Time s) then b = last backups \<and> \<not> stop else newestBy backups (sn_Time s) b \<and> stop)" for b stop
    unfolding stopRule_def option.case if_not_P[OF none] by (rule refl)
  show ?thesis
  proof (cases "?tag \<and> ?asleep (sn_Time s)")
    case True
    then have "j = i\<lparr>ri_BaseBackup := bb_ID (last backups)\<rparr>"
      using assms(1) None by (auto simp: stopSynced_def call_simps split: sum.splits)
    then have "j = i\<lparr>ri_BaseBackup := bb_ID (last backups), ri_StopAtBaseBackup := False \<or> ri_StopAtBaseBackup i\<rparr>" by simp
    moreover have "stopRule backups at (Some s) (ri_Name i) ?asleep (last backups) False" unfolding rule using True by simp
    ultimately show ?thesis using last_in_set[OF assms(2)] by blast
  next
    case False
    have "stopBy backups (sn_Time s) i = Inr j"
    proof (cases ?tag)
      case True
      then obtain woken w1 where "ra_WALSince api loc (sn_Time s) w = (Inr woken, w1)"
        "(if \<not> woken then ret (i\<lparr>ri_BaseBackup := bb_ID (last backups)\<rparr>) else liftE (stopBy backups (sn_Time s) i)) w1 = (Inr j, w')"
        using assms(1) None by (auto simp: stopSynced_def bindM_Inr_iff)
      moreover from this(1) False True have woken by (cases woken) auto
      ultimately show ?thesis by (simp add: call_simps)
    next
      case no: False
      then show ?thesis using assms(1) None by (simp add: stopSynced_def call_simps)
    qed
    from stopBy_choice[OF this] obtain b where b: "b \<in> set backups" "newestBy backups (sn_Time s) b"
      "j = i\<lparr>ri_BaseBackup := bb_ID b, ri_StopAtBaseBackup := True\<rparr>" by blast
    then have "stopRule backups at (Some s) (ri_Name i) ?asleep b True" unfolding rule using False by simp
    moreover have "j = i\<lparr>ri_BaseBackup := bb_ID b, ri_StopAtBaseBackup := True \<or> ri_StopAtBaseBackup i\<rparr>" using b(3) by simp
    ultimately show ?thesis using b(1) by blast
  qed
qed

lemma stopFor_choice:
  assumes "stopFor api loc backups at synced i w = (Inr j, w')" "backups \<noteq> []"
  shows "\<exists>b stop. b \<in> set backups \<and>
     stopRule backups at synced (ri_Name i) (\<lambda>t. \<exists>w5. ra_WALSince api loc t w = (Inr False, w5)) b stop \<and>
     j = i\<lparr>ri_BaseBackup := bb_ID b, ri_StopAtBaseBackup := stop \<or> ri_StopAtBaseBackup i\<rparr>"
proof (cases synced)
  case (Some s)
  then have "stopSynced api loc backups s i w = (Inr j, w')" using assms(1) by (simp add: stopFor_def)
  from stopSynced_choice[OF this assms(2)] show ?thesis unfolding Some .
next
  case none: None
  show ?thesis
  proof (cases at)
    case None
    then have "j = i\<lparr>ri_BaseBackup := bb_ID (last backups), ri_StopAtBaseBackup := False \<or> ri_StopAtBaseBackup i\<rparr>"
      using assms(1) none by (auto simp: stopFor_def call_simps)
    moreover have "stopRule backups at synced (ri_Name i) (\<lambda>t. \<exists>w5. ra_WALSince api loc t w = (Inr False, w5)) (last backups) False"
      unfolding stopRule_def none None by simp
    ultimately show ?thesis using last_in_set[OF assms(2)] by blast
  next
    case (Some t)
    then have "stopBy backups t i = Inr j" using assms(1) none by (simp add: stopFor_def call_simps)
    from stopBy_choice[OF this] obtain b where b: "b \<in> set backups" "newestBy backups t b"
      "j = i\<lparr>ri_BaseBackup := bb_ID b, ri_StopAtBaseBackup := True\<rparr>" by blast
    then have "stopRule backups at synced (ri_Name i) (\<lambda>t. \<exists>w5. ra_WALSince api loc t w = (Inr False, w5)) b True"
      unfolding stopRule_def none Some by simp
    moreover have "j = i\<lparr>ri_BaseBackup := bb_ID b, ri_StopAtBaseBackup := True \<or> ri_StopAtBaseBackup i\<rparr>" using b(3) by simp
    ultimately show ?thesis using b(1) by blast
  qed
qed

lemma getCluster_Some: "getCluster get ns n w = (Inr (Some c), w') \<Longrightarrow> get ns n w = (Inr c, w')"
  by (auto simp: getCluster_def call_simps split: sum.splits if_splits prod.splits)

lemma selectBaseBackup_choice:
  assumes "selectBaseBackup api run i at synced w = (Inr j, w')"
  shows "databaseChoice api run at synced i j"
proof -
  obtain found wa where a: "getCluster (ra_getCluster api) (m_namespace (rr_meta run)) (ri_Name i) w = (Inr found, wa)" and
    f: "(case found of None \<Rightarrow> failM (NoBackupInReach (''no Cluster '' @ ri_Name i @ '' in this namespace'')) | Some c \<Rightarrow>
       (case Archiver c of None \<Rightarrow> failM (NoBackupInReach ''the Cluster archives nowhere, so it has no backup to restore'')
        | Some (store, serverName) \<Rightarrow> selectAt api run i at synced store serverName)) wa = (Inr j, w')"
    using assms(1) unfolding selectBaseBackup_def by (rule bindM_InrE)
  then obtain c store serverName where c: "found = Some c" "Archiver c = Some (store, serverName)"
    and s: "selectAt api run i at synced store serverName wa = (Inr j, w')"
    by (cases found) (auto simp: failM_def split: option.splits)
  have g: "ra_getCluster api (m_namespace (rr_meta run)) (ri_Name i) w = (Inr c, wa)" using a unfolding c(1) by (rule getCluster_Some)
  let ?r = "ResolveLocation (ra_urlParse api) (ra_getStore api) (ra_getSecret api) (m_namespace (rr_meta run)) store serverName"
  obtain r wb where r: "?r wa = (r, wb)" by fastforce
  have "(case r of Inl err \<Rightarrow> failM (NoBackupInReach (errText err)) | Inr loc \<Rightarrow> stopIn api i at synced loc) wb = (Inr j, w')"
    using s unfolding selectAt_def bind_attempt[where c = ?r, OF r] .
  then obtain loc where l: "r = Inr loc" and b: "stopIn api i at synced loc wb = (Inr j, w')" by (cases r) (auto simp: failM_def)
  from b obtain backups w1 where bs: "ra_BaseBackups api loc wb = (Inr backups, w1)" and
    c0: "(if backups = [] then failM (noCompleted loc) else stopFor api loc backups at synced i) w1 = (Inr j, w')"
    unfolding stopIn_def by (rule bindM_InrE) simp
  then have "backups \<noteq> []" and st: "stopFor api loc backups at synced i w1 = (Inr j, w')" by (auto simp: failM_def split: if_splits)
  from stopFor_choice[OF st this(1)] g c(2) r[unfolded l] bs show ?thesis unfolding databaseChoice_def by blast
qed

lemma consM_iff: "bindM m (\<lambda>(xs, r). ret (x # xs, r)) w = (Inr (ys, q), w') \<longleftrightarrow> (\<exists>xs. ys = x # xs \<and> m w = (Inr (xs, q), w'))"
  by (auto simp: bindM_Inr_iff)

definition volumeStep :: "'w restoreApi \<Rightarrow> restoreRun \<Rightarrow> gtime option \<Rightarrow> snapshot option \<Rightarrow> restoreItem \<Rightarrow> restoreItem \<Rightarrow> bool" where
  "volumeStep api run at synced i j =
     (if ri_Kind i \<noteq> ''PersistentVolumeClaim'' \<or> ri_Phase i \<noteq> ItemPending then j = i
      else (\<exists>m. j = failRestore m i) \<or>
        (\<exists>s. volumeChoice api run at i s \<and> j = takeSnapshot s i \<and>
           (if rs_SyncDatabaseToVolume (rr_spec run) then map_option sn_Time synced = Some (sn_Time s) else synced = None)))"

definition unchangedPhase :: "restoreItem \<Rightarrow> restoreItem \<Rightarrow> bool" where
  "unchangedPhase i j = (ri_Phase j = ri_Phase i)"

lemma unchangedPhase_simps [simp]:
  "unchangedPhase i i" "unchangedPhase i (takeSnapshot s i)" "ri_Phase i = ItemPending \<Longrightarrow> \<not> unchangedPhase i (failRestore m i)"
  by (simp_all add: unchangedPhase_def takeSnapshot_def failRestore_def)

lemma unreachableLine_nonempty: "unreachableLine i r \<noteq> []" "[] \<noteq> unreachableLine i r"
  by (simp_all add: unreachableLine_def)

lemma selectVolumes_steps:
  assumes "selectVolumes api run at (rs_SyncDatabaseToVolume (rr_spec run)) items synced un w = (Inr (items', synced', un'), w')"
    and prev: "case rs_Previous (rr_spec run) of None \<Rightarrow> True | Some n \<Rightarrow> 0 \<le> n"
    and "\<not> rs_SyncDatabaseToVolume (rr_spec run) \<Longrightarrow> synced = None"
  shows "list_all2 (volumeStep api run at synced') items items' \<and> (synced \<noteq> None \<longrightarrow> synced' = synced) \<and>
    (\<not> rs_SyncDatabaseToVolume (rr_spec run) \<longrightarrow> synced' = None) \<and>
    length un \<le> length un' \<and> (length un' = length un \<longrightarrow> list_all2 unchangedPhase items items') \<and> ([] \<notin> set un \<longrightarrow> [] \<notin> set un')"
  using assms(1,3)
proof (induction items arbitrary: synced un w items')
  case Nil
  then show ?case by simp
next
  case (Cons item items)
  let ?sync = "rs_SyncDatabaseToVolume (rr_spec run)"
  have go: ?case if step: "volumeStep api run at synced' item item'" and rest: "selectVolumes api run at ?sync items synced1 un1 w1 = (Inr (xs, synced', un'), w')"
      and eq: "items' = item' # xs" and s1: "synced \<noteq> None \<Longrightarrow> synced1 = synced" "\<not> ?sync \<Longrightarrow> synced1 = None"
      and u1: "(un1 = un \<and> unchangedPhase item item') \<or> (\<exists>r. un1 = un @ [unreachableLine item r])" for item' xs synced1 un1 w1
    using Cons.IH[OF rest s1(2)] step eq s1 u1 by (auto simp: unreachableLine_nonempty)
  show ?case
  proof (cases "ri_Kind item \<noteq> ''PersistentVolumeClaim'' \<or> ri_Phase item \<noteq> ItemPending")
    case True
    then obtain xs where xs: "items' = item # xs" "selectVolumes api run at ?sync items synced un w = (Inr (xs, synced', un'), w')"
      using Cons.prems(1) by (auto simp: Let_def consM_iff)
    show ?thesis by (rule go[OF _ xs(2,1)]) (use True Cons.prems(2) in \<open>auto simp: volumeStep_def\<close>)
  next
    case False
    then have pend: "ri_Phase item = ItemPending" by simp
    obtain q w1 where q: "selectSnapshot api run item at ?sync w = (q, w1)" by (cases "selectSnapshot api run item at ?sync w")
    note ba = bind_attempt[where c = "selectSnapshot api run item at ?sync", OF q]
    show ?thesis
    proof (cases q)
      case (Inl err)
      have b: "anyErr isNoBackup1 err" using Cons.prems(1) False Inl by (auto simp: Let_def ba failM_def split: if_splits)
      then obtain xs where xs: "items' = failRestore (noBackupReason err) item # xs"
        "selectVolumes api run at ?sync items synced (un @ [unreachableLine item (noBackupReason err)]) w1 = (Inr (xs, synced', un'), w')"
        using Cons.prems(1) False Inl by (auto simp: Let_def ba consM_iff)
      show ?thesis by (rule go[OF _ xs(2,1)]) (use Cons.prems(2) False in \<open>auto simp: volumeStep_def\<close>)
    next
      case (Inr s)
      have c: "volumeChoice api run at item s" using selectSnapshot_choice[OF q[unfolded Inr] prev] .
      have k: "(if \<not> ?sync then bindM (selectVolumes api run at ?sync items synced un) (\<lambda>(items', r). ret (takeSnapshot s item # items', r))
          else case synced of
             None \<Rightarrow> bindM (selectVolumes api run at ?sync items (Some s) un) (\<lambda>(items', r). ret (takeSnapshot s item # items', r))
           | Some s0 \<Rightarrow>
               if sn_Time s \<noteq> sn_Time s0
               then bindM (selectVolumes api run at ?sync items synced (un @ [unreachableLine item (otherMoment s s0)])) (\<lambda>(items', r). ret (failRestore (otherMoment s s0) item # items', r))
               else bindM (selectVolumes api run at ?sync items synced un) (\<lambda>(items', r). ret (takeSnapshot s item # items', r))) w1 = (Inr (items', synced', un'), w')"
        using Cons.prems(1) False Inr by (simp add: Let_def ba)
      show ?thesis
      proof (cases "?sync \<and> synced \<noteq> None \<and> sn_Time s \<noteq> sn_Time (the synced)")
        case True
        then obtain s0 where s0: "synced = Some s0" "?sync" "sn_Time s \<noteq> sn_Time s0" by auto
        with k obtain xs where xs: "items' = failRestore (otherMoment s s0) item # xs"
          "selectVolumes api run at ?sync items synced (un @ [unreachableLine item (otherMoment s s0)]) w1 = (Inr (xs, synced', un'), w')"
          by (auto simp: consM_iff)
        show ?thesis by (rule go[OF _ xs(2,1)]) (use s0 False in \<open>auto simp: volumeStep_def\<close>)
      next
        case same: False
        define synced1 where "synced1 = (if ?sync \<and> synced = None then Some s else synced)"
        have "bindM (selectVolumes api run at ?sync items synced1 un) (\<lambda>(items', r). ret (takeSnapshot s item # items', r)) w1 = (Inr (items', synced', un'), w')"
          using k same unfolding synced1_def by (cases synced) (auto split: if_splits)
        then obtain xs where xs: "items' = takeSnapshot s item # xs" "selectVolumes api run at ?sync items synced1 un w1 = (Inr (xs, synced', un'), w')"
          by (auto simp: consM_iff)
        have s1: "\<not> ?sync \<Longrightarrow> synced1 = None" using Cons.prems(2) by (simp add: synced1_def)
        have "if ?sync then map_option sn_Time synced' = Some (sn_Time s) else synced' = None"
          using Cons.IH[OF xs(2) s1] same unfolding synced1_def by (cases synced) (auto split: if_splits)
        then have "volumeStep api run at synced' item (takeSnapshot s item)" using c False by (auto simp: volumeStep_def)
        then show ?thesis by (rule go[OF _ xs(2,1)]) (use s1 in \<open>auto simp: synced1_def\<close>)
      qed
    qed
  qed
qed

text \<open>The snapshot every database follows is one that a volume of the run selected.\<close>

definition selectedVolume :: "'w restoreApi \<Rightarrow> restoreRun \<Rightarrow> gtime option \<Rightarrow> snapshot \<Rightarrow> restoreItem \<Rightarrow> bool" where
  "selectedVolume api run at s i = (ri_Kind i = ''PersistentVolumeClaim'' \<and> ri_Phase i = ItemPending \<and> volumeChoice api run at i s)"

lemma selectVolumes_synced:
  assumes "selectVolumes api run at (rs_SyncDatabaseToVolume (rr_spec run)) items synced un w = (Inr (items', synced', un'), w')"
    and prev: "case rs_Previous (rr_spec run) of None \<Rightarrow> True | Some n \<Rightarrow> 0 \<le> n"
    and s: "synced' = Some s" "synced \<noteq> Some s"
  shows "\<exists>i \<in> set items. selectedVolume api run at s i"
  using assms(1) s(2)
proof (induction items arbitrary: synced un w items')
  case Nil
  then show ?case using s(1) by simp
next
  case (Cons item items)
  let ?sync = "rs_SyncDatabaseToVolume (rr_spec run)"
  have go: ?case if "selectVolumes api run at ?sync items synced1 un1 w1 = (Inr (xs, synced', un'), w')" "synced1 \<noteq> Some s" for xs synced1 un1 w1
    using Cons.IH[OF that] by auto
  show ?case
  proof (cases "ri_Kind item \<noteq> ''PersistentVolumeClaim'' \<or> ri_Phase item \<noteq> ItemPending")
    case True
    then obtain xs where "selectVolumes api run at ?sync items synced un w = (Inr (xs, synced', un'), w')"
      using Cons.prems(1) by (auto simp: Let_def consM_iff)
    then show ?thesis by (rule go[OF _ Cons.prems(2)])
  next
    case False
    obtain q w1 where q: "selectSnapshot api run item at ?sync w = (q, w1)" by (cases "selectSnapshot api run item at ?sync w")
    note ba = bind_attempt[where c = "selectSnapshot api run item at ?sync", OF q]
    show ?thesis
    proof (cases q)
      case (Inl err)
      then obtain xs un1 where "selectVolumes api run at ?sync items synced un1 w1 = (Inr (xs, synced', un'), w')"
        using Cons.prems(1) False by (auto simp: Let_def ba consM_iff failM_def split: if_splits)
      then show ?thesis by (rule go[OF _ Cons.prems(2)])
    next
      case (Inr s1)
      have c: "selectedVolume api run at s1 item"
        using selectSnapshot_choice[OF q[unfolded Inr] prev] False by (simp add: selectedVolume_def)
      obtain xs synced1 un1 where x: "selectVolumes api run at ?sync items synced1 un1 w1 = (Inr (xs, synced', un'), w')"
        "synced1 = synced \<or> synced1 = Some s1"
        using Cons.prems(1) False Inr by (auto simp: Let_def ba consM_iff split: if_splits option.splits)
      show ?thesis
      proof (cases "synced1 = Some s")
        case True
        then have "s1 = s" using x(2) Cons.prems(2) by auto
        then show ?thesis using c by auto
      qed (rule go[OF x(1)])
    qed
  qed
qed

definition databaseStep :: "'w restoreApi \<Rightarrow> restoreRun \<Rightarrow> gtime option \<Rightarrow> snapshot option \<Rightarrow> restoreItem \<Rightarrow> restoreItem \<Rightarrow> bool" where
  "databaseStep api run at synced i j =
     (if ri_Kind i \<noteq> ''Cluster'' \<or> ri_Phase i \<noteq> ItemPending then j = i
      else (\<exists>m. j = failRestore m i) \<or> databaseChoice api run at synced i j)"

lemma databaseChoice_phase: "databaseChoice api run at synced i j \<Longrightarrow> ri_Phase j = ri_Phase i"
  unfolding databaseChoice_def by (elim exE conjE) (metis restoreItem.select_convs(3) restoreItem.surjective restoreItem.update_convs(10,11))

lemma selectDatabases_steps:
  assumes "selectDatabases api run at sync synced items un w = (Inr (items', un'), w')"
  shows "list_all2 (databaseStep api run at synced) items items' \<and>
    length un \<le> length un' \<and> (length un' = length un \<longrightarrow> list_all2 unchangedPhase items items') \<and> ([] \<notin> set un \<longrightarrow> [] \<notin> set un')"
  using assms
proof (induction items arbitrary: un w items')
  case Nil
  then show ?case by simp
next
  case (Cons item items)
  have go: ?case if step: "databaseStep api run at synced item item'" and rest: "selectDatabases api run at sync synced items un1 w1 = (Inr (xs, un'), w')"
      and eq: "items' = item' # xs" and u1: "(un1 = un \<and> unchangedPhase item item') \<or> (\<exists>r. un1 = un @ [unreachableLine item r])" for item' xs un1 w1
    using Cons.IH[OF rest] step eq u1 by (auto simp: unreachableLine_nonempty)
  let ?other = "ri_Kind item \<noteq> ''Cluster'' \<or> ri_Phase item \<noteq> ItemPending"
  consider (other) ?other | (none) "\<not> ?other" "sync \<and> synced = None" | (look) "\<not> ?other" "\<not> (sync \<and> synced = None)" by blast
  then show ?case
  proof cases
    case other
    then obtain xs where xs: "items' = item # xs" "selectDatabases api run at sync synced items un w = (Inr (xs, un'), w')"
      using Cons.prems by (auto simp: Let_def consM_iff)
    show ?thesis by (rule go[OF _ xs(2,1)]) (use other in \<open>auto simp: databaseStep_def\<close>)
  next
    case none
    then obtain xs where xs: "items' = failRestore noMoment item # xs"
      "selectDatabases api run at sync synced items (un @ [unreachableLine item noMoment]) w = (Inr (xs, un'), w')"
      using Cons.prems by (auto simp: Let_def consM_iff)
    show ?thesis by (rule go[OF _ xs(2,1)]) (use none in \<open>auto simp: databaseStep_def\<close>)
  next
    case look
    obtain q w1 where q: "selectBaseBackup api run item at synced w = (q, w1)" by (cases "selectBaseBackup api run item at synced w")
    note ba = bind_attempt[where c = "selectBaseBackup api run item at synced", OF q]
    note k = Cons.prems[unfolded selectDatabases.simps Let_def if_not_P[OF look(1)] if_not_P[OF look(2)] ba]
    show ?thesis
    proof (cases q)
      case (Inl err)
      have b: "anyErr isNoBackup1 err" using k unfolding Inl by (auto simp: failM_def split: if_splits)
      obtain xs where xs: "items' = failRestore (noBackupReason err) item # xs"
        "selectDatabases api run at sync synced items (un @ [unreachableLine item (noBackupReason err)]) w1 = (Inr (xs, un'), w')"
        using k unfolding Inl sum.case if_P[OF b] consM_iff by blast
      show ?thesis by (rule go[OF _ xs(2,1)]) (use look in \<open>auto simp: databaseStep_def\<close>)
    next
      case (Inr j)
      from selectBaseBackup_choice[OF q[unfolded Inr]] have c: "databaseChoice api run at synced item j" .
      obtain xs where xs: "items' = j # xs" "selectDatabases api run at sync synced items un w1 = (Inr (xs, un'), w')"
        using k unfolding Inr sum.case consM_iff by blast
      show ?thesis by (rule go[OF _ xs(2,1)]) (use look c databaseChoice_phase[OF c] in \<open>auto simp: databaseStep_def unchangedPhase_def\<close>)
    qed
  qed
qed

lemma joinStr_Nil: "joinStr sep us = [] \<Longrightarrow> [] \<notin> set us \<Longrightarrow> us = []"
  by (cases "(sep, us)" rule: joinStr.cases) auto

text \<open>What an item gets when every item has a backup.\<close>

definition selected :: "'w restoreApi \<Rightarrow> restoreRun \<Rightarrow> gtime option \<Rightarrow> snapshot option \<Rightarrow> restoreItem \<Rightarrow> restoreItem \<Rightarrow> bool" where
  "selected api run at synced i j =
     (if ri_Phase i \<noteq> ItemPending then j = i
      else if ri_Kind i = ''PersistentVolumeClaim'' then
        (\<exists>s. volumeChoice api run at i s \<and>
           j = i\<lparr>ri_Snapshot := ShortID s, ri_SnapshotID := sn_ID s, ri_SnapshotTime := Some (sn_Time s)\<rparr> \<and>
           (rs_SyncDatabaseToVolume (rr_spec run) \<longrightarrow> map_option sn_Time synced = Some (sn_Time s)))
      else if ri_Kind i = ''Cluster'' then databaseChoice api run at synced i j
      else j = i)"

lemma volumeStep_phase:
  assumes "volumeStep api run at synced i j"
  shows "ri_Kind j = ri_Kind i" "ri_Name j = ri_Name i" "ri_StopAtBaseBackup j = ri_StopAtBaseBackup i"
    "ri_Phase j = ItemPending \<Longrightarrow> ri_Phase i = ItemPending"
  using assms by (auto simp: volumeStep_def failRestore_def takeSnapshot_def split: if_splits)

lemma selected_steps:
  assumes "volumeStep api run at synced i j" "unchangedPhase i j" "databaseStep api run at synced j k" "unchangedPhase j k"
  shows "selected api run at synced i k"
proof (cases "ri_Phase i = ItemPending")
  case True
  then have f: "j \<noteq> failRestore m i" "k \<noteq> failRestore m j" for m using assms(2,4) unchangedPhase_simps(3) by (auto simp: unchangedPhase_def)
  show ?thesis using assms f True volumeStep_phase[OF assms(1)]
    by (auto simp: selected_def volumeStep_def databaseStep_def takeSnapshot_def split: if_splits)
next
  case False
  then show ?thesis using assms by (auto simp: selected_def volumeStep_def databaseStep_def split: if_splits)
qed

lemma list_all2_relcomp:
  "list_all2 P xs ys \<Longrightarrow> list_all2 Q ys zs \<Longrightarrow> (\<And>x y z. P x y \<Longrightarrow> Q y z \<Longrightarrow> R x z) \<Longrightarrow> list_all2 R xs zs"
  unfolding list_all2_conv_all_nth by fastforce

lemma list_all2_in2: "list_all2 P xs ys \<Longrightarrow> y \<in> set ys \<Longrightarrow> \<exists>x \<in> set xs. P x y"
  by (induction rule: list_all2_induct) auto

lemma list_all2_conj: "list_all2 P xs ys \<Longrightarrow> list_all2 Q xs ys \<Longrightarrow> list_all2 (\<lambda>x y. P x y \<and> Q x y) xs ys"
  by (simp add: list_all2_conv_all_nth)

text \<open>In a synced restore without a moment there is nothing to select.\<close>

lemma selectDatabases_none:
  assumes "selectDatabases api run at sync None items un w = (Inr (items', []), w')"
  shows "sync \<longrightarrow> (\<forall>i \<in> set items. ri_Phase i = ItemPending \<longrightarrow> ri_Kind i \<noteq> ''Cluster'')"
proof (cases sync)
  case True
  from assms[unfolded eqTrueI[OF True]] have "\<forall>i \<in> set items. ri_Phase i = ItemPending \<longrightarrow> ri_Kind i \<noteq> ''Cluster''"
  proof (induction items arbitrary: un w items')
    case (Cons item items)
    show ?case
    proof (cases "ri_Kind item \<noteq> ''Cluster'' \<or> ri_Phase item \<noteq> ItemPending")
      case True
      then obtain xs where "selectDatabases api run at True None items un w = (Inr (xs, []), w')"
        using Cons.prems by (auto simp: Let_def consM_iff)
      from Cons.IH[OF this] True show ?thesis by auto
    next
      case False
      then obtain xs where "selectDatabases api run at True None items (un @ [unreachableLine item noMoment]) w = (Inr (xs, []), w')"
        using Cons.prems by (auto simp: Let_def consM_iff)
      from conjunct1[OF conjunct2[OF selectDatabases_steps[OF this]]] show ?thesis by simp
    qed
  qed simp
  then show ?thesis by simp
qed simp

lemma no_sync_item:
  assumes "rs_SyncDatabaseToVolume (rr_spec run) \<longrightarrow> (\<forall>i \<in> set items1. ri_Phase i = ItemPending \<longrightarrow> ri_Kind i \<noteq> ''Cluster'')"
    and "list_all2 (volumeStep api run at None) items items1" "list_all2 unchangedPhase items items1"
    and "rs_SyncDatabaseToVolume (rr_spec run)" "i \<in> set items" "ri_Phase i = ItemPending"
  shows "ri_Kind i \<notin> {''PersistentVolumeClaim'', ''Cluster''}"
proof -
  obtain n where n: "n < length items" "items ! n = i" using assms(5) by (auto simp: in_set_conv_nth)
  then have "volumeStep api run at None i (items1 ! n)" "unchangedPhase i (items1 ! n)" "items1 ! n \<in> set items1"
    using assms(2,3) by (auto simp: list_all2_conv_all_nth)
  note j = this
  have "ri_Kind (items1 ! n) \<noteq> ''Cluster''" using assms(1,4,6) j(2,3) by (auto simp: unchangedPhase_def)
  then have "ri_Kind i \<noteq> ''Cluster''" using volumeStep_phase(1)[OF j(1)] by simp
  moreover have "ri_Kind i \<noteq> ''PersistentVolumeClaim''"
  proof
    assume k: "ri_Kind i = ''PersistentVolumeClaim''"
    have "\<not> (ri_Kind i \<noteq> ''PersistentVolumeClaim'' \<or> ri_Phase i \<noteq> ItemPending)" using k assms(6) by simp
    from j(1)[unfolded volumeStep_def if_not_P[OF this] if_P[OF assms(4)]] obtain m where "items1 ! n = failRestore m i" by auto
    then show False using j(2) unchangedPhase_simps(3)[OF assms(6)] by simp
  qed
  ultimately show ?thesis by (simp only: insert_iff empty_iff) blast
qed

text \<open>C10. Selecting is all or nothing. When some item has no backup in reach, no item is left Pending, so the
  run restores nothing. Otherwise every volume gets the reference choice of its repository: the newest
  eligible snapshot, at or before the moment, stepped back \<open>previous\<close> times; with a synced restore all
  volumes get paused snapshots of one moment, that of a snapshot one of them selected, which is recorded
  as \<open>syncedTo\<close>. Every database gets a base backup listed in the archive of its own Cluster. Without a
  moment it replays that archive from the last one listed. With one it stops at the newest base backup
  that finished by the moment. In a synced restore it stops at the one the snapshot names for it when the
  archive lists it; a database that was hibernated then, and has written no WAL since, replays its archive;
  any other stops at the newest base backup that finished by the snapshot's time.\<close>

theorem selection_all_or_nothing:
  assumes "selectBackups api run w = (Inr (run', reason), w')" "restoreTarget run = Inr at"
    and "case rs_Previous (rr_spec run) of None \<Rightarrow> True | Some n \<Rightarrow> 0 \<le> n"
  shows "if reason \<noteq> [] then (\<forall>j \<in> set (rt_Items (rr_status run')). ri_Phase j \<noteq> ItemPending)
     else (\<exists>synced. list_all2 (selected api run at synced) (rt_Items (rr_status run)) (rt_Items (rr_status run')) \<and>
       (case synced of
          Some s \<Rightarrow> rs_SyncDatabaseToVolume (rr_spec run) \<and> rt_SyncedTo (rr_status run') = Some (sn_Time s) \<and>
            (\<exists>i \<in> set (rt_Items (rr_status run)). selectedVolume api run at s i)
        | None \<Rightarrow> rs_SyncDatabaseToVolume (rr_spec run) \<longrightarrow>
            (\<forall>i \<in> set (rt_Items (rr_status run)). ri_Phase i = ItemPending \<longrightarrow> ri_Kind i \<notin> {''PersistentVolumeClaim'', ''Cluster''})))"
proof -
  let ?items = "rt_Items (rr_status run)" and ?sync = "rs_SyncDatabaseToVolume (rr_spec run)"
  from assms(1,2) obtain items1 synced un1 w1 items2 un2 where
    v: "selectVolumes api run at ?sync ?items None [] w = (Inr (items1, synced, un1), w1)" and
    d: "selectDatabases api run at ?sync synced items1 un1 w1 = (Inr (items2, un2), w')" and
    r: "(run', reason) = (if un2 \<noteq> []
      then (run\<lparr>rr_status := (rr_status run)\<lparr>rt_Items := map skipPending items2\<rparr>\<rparr>, joinStr ''; '' un2)
      else (run\<lparr>rr_status := (rr_status run)\<lparr>rt_Items := items2,
             rt_SyncedTo := (case synced of Some s \<Rightarrow> Some (sn_Time s) | None \<Rightarrow> rt_SyncedTo (rr_status run))\<rparr>\<rparr>, []))"
    by (auto simp: selectBackups_def Let_def bindM_Inr_iff split: if_splits)
  note vs = selectVolumes_steps[OF v assms(3)]
  have ls: "list_all2 (volumeStep api run at synced) ?items items1" using vs by simp
  note ds = selectDatabases_steps[OF d]
  show ?thesis
  proof (cases "un2 = []")
    case True
    then have u: "list_all2 unchangedPhase ?items items1" "list_all2 unchangedPhase items1 items2" using vs ds by auto
    have "list_all2 (databaseStep api run at synced) items1 items2" using ds by simp
    from list_all2_relcomp[OF list_all2_conj[OF ls u(1)] list_all2_conj[OF this u(2)]]
    have sel: "list_all2 (selected api run at synced) ?items items2" using selected_steps by blast
    have "reason = []" and st: "rt_Items (rr_status run') = items2"
      "rt_SyncedTo (rr_status run') = (case synced of Some s \<Rightarrow> Some (sn_Time s) | None \<Rightarrow> rt_SyncedTo (rr_status run))"
      using r True by simp_all
    show ?thesis
    proof (cases synced)
      case (Some s)
      from selectVolumes_synced[OF v assms(3) Some] have "\<exists>i \<in> set ?items. selectedVolume api run at s i" by simp
      moreover have ?sync using vs Some by auto
      ultimately show ?thesis using sel st Some \<open>reason = []\<close> by (auto intro!: exI[of _ synced])
    next
      case None
      have "ri_Kind i \<notin> {''PersistentVolumeClaim'', ''Cluster''}" if "?sync" "i \<in> set ?items" "ri_Phase i = ItemPending" for i
        using selectDatabases_none[OF d[unfolded None \<open>un2 = []\<close>]] ls u(1) that unfolding None by (rule no_sync_item)
      then show ?thesis using sel st None \<open>reason = []\<close> by (auto intro!: exI[of _ synced])
    qed
  next
    case False
    have "reason \<noteq> []" using r False joinStr_Nil[of "''; ''" un2] vs ds by auto
    moreover have "ri_Phase (skipPending i) \<noteq> ItemPending" for i by (simp add: skipPending_def)
    ultimately show ?thesis using r False by auto
  qed
qed

end
