(* ===== verification/Restore_Items.thy ===== *)
theory Restore_Items
  imports Restore_Select Run_Monad
begin

text \<open>
  One step of each item of a RestoreRun, from \<open>src/internal/runs/restore_items.go\<close>, with \<open>writeStatus\<close> of
  \<open>restorerun.go\<close>. An item is changed in the run in memory, at its index, as the pointer into
  \<open>status.items\<close> does; what it waits for is the result. The access mode of a new claim is not part of
  the record of a claim.
\<close>

type_synonym ('w, 'a) rcall = "(restoreRun \<times> 'w, 'a) call"

definition nowR :: "'w restoreApi \<Rightarrow> ('w, gtime) rcall" where
  "nowR api = onW (\<lambda>w. (Inr (ra_Now api w), w))"

definition modRestore :: "(restoreRunStatus \<Rightarrow> restoreRunStatus) \<Rightarrow> ('w, unit) rcall" where
  "modRestore f = modS (\<lambda>run. run\<lparr>rr_status := f (rr_status run)\<rparr>)"

definition writeRestore :: "'w restoreApi \<Rightarrow> ('w, unit) rcall" where
  "writeRestore api =
     bindM getS (\<lambda>run.
     bindM (wrapM (''set RestoreRun '' @ m_namespace (rr_meta run) @ ''/'' @ m_name (rr_meta run) @ '' status: '') (onW (ra_updateStatus api run))) (\<lambda>rv.
     modS (\<lambda>r. r\<lparr>rr_meta := (rr_meta r)\<lparr>m_resourceVersion := rv\<rparr>\<rparr>)))"

text \<open>\<open>item := &run.Status.Items[i]\<close>: reading and writing the item in place.\<close>

definition itemAt :: "nat \<Rightarrow> restoreRun \<Rightarrow> restoreItem" where
  "itemAt i run = rt_Items (rr_status run) ! i"

definition modItem :: "nat \<Rightarrow> (restoreItem \<Rightarrow> restoreItem) \<Rightarrow> ('w, unit) rcall" where
  "modItem i f = modRestore (\<lambda>st. st\<lparr>rt_Items := (rt_Items st)[i := f (rt_Items st ! i)]\<rparr>)"

record wait =
  wt_reason :: string
  wt_message :: string

definition noWait :: wait where "noWait = \<lparr>wt_reason = [], wt_message = []\<rparr>"

section \<open>Claims and Jobs\<close>

definition claimHolder :: "'w restoreApi \<Rightarrow> string \<Rightarrow> string \<Rightarrow> ('w, string) call" where
  "claimHolder api namespace claim =
     bindM (wrapM (''list the pods in '' @ namespace @ '': '') (ra_listPods api namespace)) (\<lambda>pods.
     ret (case find (\<lambda>p. \<not> (po_phase p = PodSucceeded \<or> po_phase p = PodFailed) \<and> claim \<in> set (po_claims p)) pods of
            Some p \<Rightarrow> m_name (po_meta p) | None \<Rightarrow> []))"

definition jobPodLeft :: "'w restoreApi \<Rightarrow> string \<Rightarrow> string \<Rightarrow> ('w, string) call" where
  "jobPodLeft api namespace j =
     bindM (wrapM (''list the pods of restore Job '' @ j @ '': '') (ra_listJobPods api namespace j)) (\<lambda>pods.
     ret (case find (\<lambda>p. po_phase p \<noteq> PodSucceeded \<and> po_phase p \<noteq> PodFailed) pods of
            Some p \<Rightarrow> m_name (po_meta p) | None \<Rightarrow> []))"

definition deleteJob :: "'w restoreApi \<Rightarrow> string \<Rightarrow> string \<Rightarrow> ('w, unit) call" where
  "deleteJob api namespace name =
     bindM (attempt (ra_deleteJob api namespace name)) (\<lambda>r. case r of
       Inl err \<Rightarrow> if IsNotFound err then ret () else failM (Wrap (''delete restore Job '' @ name @ '': '') err)
     | Inr _ \<Rightarrow> ret ())"

definition moverSecurityContext :: "'w restoreApi \<Rightarrow> restoreRun \<Rightarrow> restoreItem \<Rightarrow> ('w, podSecurityContext option) call" where
  "moverSecurityContext api run item =
     (let name = (if rs_Into (rr_spec run) \<noteq> [] then rs_Claim (rr_spec run) else ri_Name item) in
      if rs_MoverSecurityContext (rr_spec run) \<noteq> None then ret (rs_MoverSecurityContext (rr_spec run))
      else if name = [] then ret None
      else
      bindM (attempt (ra_getClaim api (m_namespace (rr_meta run)) name)) (\<lambda>r. case r of
        Inl _ \<Rightarrow> ret None
      | Inr cl \<Rightarrow>
          bindM (attempt (volumeRestoreFor (ra_getVR api) cl)) (\<lambda>r. case r of
            Inl _ \<Rightarrow> ret None
          | Inr vr \<Rightarrow> ret (vs_MoverSecurityContext (vr_spec vr)))))"

text \<open>The source claim of an into restore: its storage class, and its size unless the spec names one.\<close>

definition intoSource :: "'w restoreApi \<Rightarrow> restoreRun \<Rightarrow> claim \<Rightarrow> ('w, claim \<times> quantity option) call" where
  "intoSource api run claim =
     (if rs_Claim (rr_spec run) = [] then ret (claim, rs_IntoSize (rr_spec run))
      else
      bindM (wrapM (''get claim '' @ rs_Claim (rr_spec run) @ '': '') (ra_getClaim api (m_namespace (rr_meta run)) (rs_Claim (rr_spec run)))) (\<lambda>source.
      ret (claim\<lparr>pc_storageClass := pc_storageClass source\<rparr>,
           if rs_IntoSize (rr_spec run) = None then pc_request source else rs_IntoSize (rr_spec run))))"

definition intoClaim :: "'w restoreApi \<Rightarrow> nat \<Rightarrow> ('w, unit) rcall" where
  "intoClaim api i =
     bindM getS (\<lambda>run.
     let item = itemAt i run; namespace = m_namespace (rr_meta run) in
     bindM (attempt (onW (ra_getClaim api namespace (ri_Name item)))) (\<lambda>r. case r of
       Inr _ \<Rightarrow>
         if ri_CreatedClaim item then ret ()
         else modItem i (failRestore (''claim '' @ ri_Name item @ '' already exists; an into restore writes only into a claim it creates, so give spec.into a name no claim has''))
     | Inl err \<Rightarrow>
         if \<not> IsNotFound err then failM (Wrap (''get claim '' @ ri_Name item @ '': '') err)
         else
         bindM (onW (intoSource api run (claim0\<lparr>pc_meta := objectMeta0\<lparr>m_namespace := namespace, m_name := ri_Name item,
                  m_labels := [restoreLabel \<mapsto> m_name (rr_meta run)]\<rparr>\<rparr>))) (\<lambda>(claim, size).
         case size of
           None \<Rightarrow> modItem i (failRestore ''spec.intoSize is required when spec.claim names no claim to take the size from'')
         | Some s \<Rightarrow>
             thenM (modItem i (\<lambda>it. it\<lparr>ri_CreatedClaim := True\<rparr>)) (
             thenM (writeRestore api) (
             bindM (attempt (onW (ra_createClaim api (claim\<lparr>pc_request := Some s\<rparr>)))) (\<lambda>r. case r of
               Inl err \<Rightarrow> if IsAlreadyExists err then ret () else failM (Wrap (''create claim '' @ ri_Name item @ '': '') err)
             | Inr _ \<Rightarrow> ret ()))))))"

section \<open>Volumes\<close>

definition jobName :: "restoreRun \<Rightarrow> nat \<Rightarrow> string" where
  "jobName run i = ''restore-'' @ take 8 (m_uid (rr_meta run)) @ ''-'' @ itoa (int i)"

text \<open>\<open>string(run.UID)[:8]\<close> panics on a shorter UID.\<close>

definition recordJob :: "'w restoreApi \<Rightarrow> nat \<Rightarrow> ('w, unit) rcall" where
  "recordJob api i =
     bindM getS (\<lambda>run.
     if ri_Job (itemAt i run) \<noteq> [] then ret ()
     else if length (m_uid (rr_meta run)) < 8 then failM (Plain ''runtime error: slice bounds out of range'')
     else thenM (modItem i (\<lambda>it. it\<lparr>ri_Job := jobName run i\<rparr>)) (writeRestore api))"

definition jobFor :: "'w restoreApi \<Rightarrow> restoreRun \<Rightarrow> restoreItem \<Rightarrow> secret \<Rightarrow> podSecurityContext option \<Rightarrow> job" where
  "jobFor api run item sec ctx =
     New \<lparr>js_Namespace = m_namespace (rr_meta run), js_Name = ri_Job item, js_Image = ra_RestoreImage api, js_Claim = ri_Name item,
       js_RepositorySecret = m_name (se_meta sec), js_SnapshotID = ri_SnapshotID item, js_SecurityContext = ctx,
       js_Owner = m_name (rr_meta run), js_OwnerReferences = [m_uid (rr_meta run)], js_Labels = Map.empty\<rparr>"

definition createJob :: "'w restoreApi \<Rightarrow> nat \<Rightarrow> secret \<Rightarrow> ('w, wait) rcall" where
  "createJob api i sec =
     thenM (recordJob api i) (
     bindM getS (\<lambda>run.
     bindM (onW (moverSecurityContext api run (itemAt i run))) (\<lambda>ctx.
     bindM (attempt (onW (ra_createJob api (jobFor api run (itemAt i run) sec ctx)))) (\<lambda>r. case r of
       Inl err \<Rightarrow> if IsAlreadyExists err then thenM (modItem i (\<lambda>it. it\<lparr>ri_Phase := ItemRunning\<rparr>)) (ret noWait)
                  else failM (Wrap (''create restore Job '' @ ri_Job (itemAt i run) @ '': '') err)
     | Inr _ \<Rightarrow> thenM (modItem i (\<lambda>it. it\<lparr>ri_Phase := ItemRunning\<rparr>)) (ret noWait)))))"

definition startRestore :: "'w restoreApi \<Rightarrow> nat \<Rightarrow> ('w, wait) rcall" where
  "startRestore api i =
     bindM getS (\<lambda>run.
     bindM (attempt (onW (sourceRepository api run (itemAt i run)))) (\<lambda>r. case r of
       Inl err \<Rightarrow> thenM (modItem i (failRestore (errText err))) (ret noWait)
     | Inr sec \<Rightarrow> createJob api i sec))"

definition followJob :: "'w restoreApi \<Rightarrow> nat \<Rightarrow> ('w, wait) rcall" where
  "followJob api i =
     bindM getS (\<lambda>run.
     let item = itemAt i run in
     bindM (attempt (onW (ra_getJob api (m_namespace (rr_meta run)) (ri_Job item)))) (\<lambda>r. case r of
       Inl err \<Rightarrow>
         if IsNotFound err
         then thenM (modItem i (failRestore (''restore Job '' @ ri_Job item @ '' was deleted before it finished; claim '' @ ri_Name item @
                '' may hold part of snapshot '' @ ri_Snapshot item))) (ret noWait)
         else failM (Wrap (''get restore Job '' @ ri_Job item @ '': '') err)
     | Inr job \<Rightarrow>
         (case Result job of
            OutRunning \<Rightarrow> ret noWait
          | OutSucceeded \<Rightarrow> thenM (modItem i (\<lambda>it. it\<lparr>ri_Phase := ItemSucceeded, ri_Message := []\<rparr>)) (ret noWait)
          | OutFailed \<Rightarrow> thenM (modItem i (failRestore (''restic failed to restore snapshot '' @ ri_Snapshot item @ '' into claim '' @ ri_Name item @
                ''; see kubectl logs job/'' @ ri_Job item))) (ret noWait))))"

definition restoreVolume :: "'w restoreApi \<Rightarrow> nat \<Rightarrow> ('w, wait) rcall" where
  "restoreVolume api i =
     bindM getS (\<lambda>run.
     let item = itemAt i run in
     if ri_Phase item = ItemPending then
       (if rs_Into (rr_spec run) \<noteq> [] then
          thenM (intoClaim api i) (
          bindM getS (\<lambda>run'. if ri_Phase (itemAt i run') = ItemFailed then ret noWait else startRestore api i))
        else
          bindM (onW (claimHolder api (m_namespace (rr_meta run)) (ri_Name item))) (\<lambda>holder.
          if holder \<noteq> []
          then ret \<lparr>wt_reason = ReasonClaimInUse, wt_message = ''claim '' @ ri_Name item @ '' is mounted by pod '' @ holder @
                 ''; list its workload in spec.pauseDuringRestore, or stop it, and the restore starts on its own''\<rparr>
          else startRestore api i))
     else if ri_Phase item = ItemRunning then followJob api i
     else ret noWait)"

section \<open>Databases\<close>

definition deleteClusterWithUID :: "'w restoreApi \<Rightarrow> string \<Rightarrow> string \<Rightarrow> string \<Rightarrow> ('w, unit) call" where
  "deleteClusterWithUID api namespace name uid =
     bindM (getCluster (ra_getClusterCached api) namespace name) (\<lambda>found. case found of
       None \<Rightarrow> ret ()
     | Some c \<Rightarrow>
         bindM (attempt (ra_deleteCluster api (m_namespace (cl_meta c)) (m_name (cl_meta c)) uid)) (\<lambda>r. case r of
           Inl err \<Rightarrow> if IsNotFound err \<or> IsConflict err then ret ()
                      else failM (Wrap (''delete Cluster '' @ namespace @ ''/'' @ name @ '': '') err)
         | Inr _ \<Rightarrow> ret ()))"

definition shutdownWait :: "string \<Rightarrow> wait" where
  "shutdownWait name = \<lparr>wt_reason = ReasonShutdown, wt_message = ''waiting for the old Cluster '' @ name @ '' to be deleted''\<rparr>"

definition deleteDatabase :: "'w restoreApi \<Rightarrow> nat \<Rightarrow> ('w, wait) rcall" where
  "deleteDatabase api i =
     bindM getS (\<lambda>run.
     let item = itemAt i run; namespace = m_namespace (rr_meta run) in
     bindM (onW (getCluster (ra_getCluster api) namespace (ri_Name item))) (\<lambda>found. case found of
       None \<Rightarrow> thenM (modItem i (failRestore (''the Cluster '' @ ri_Name item @ '' no longer exists''))) (ret noWait)
     | Some c \<Rightarrow>
         thenM (modItem i (\<lambda>it. it\<lparr>ri_ClusterUID := m_uid (cl_meta c), ri_Phase := ItemDeleted\<rparr>)) (
         thenM (writeRestore api) (
         thenM (onW (deleteClusterWithUID api namespace (ri_Name item) (m_uid (cl_meta c))))
           (ret (shutdownWait (ri_Name item)))))))"

definition awaitInstance :: "'w restoreApi \<Rightarrow> string \<Rightarrow> string \<Rightarrow> ('w, wait) call" where
  "awaitInstance api namespace name =
     bindM (InstanceLeft (ra_listInstancePods api) (ra_listInstanceClaims api) namespace name) (\<lambda>left.
     if left \<noteq> []
     then ret \<lparr>wt_reason = ReasonShutdown, wt_message = ''waiting for '' @ left @ '' of the deleted Cluster to be gone before anything creates it again''\<rparr>
     else ret \<lparr>wt_reason = ReasonRecreate, wt_message = ''waiting for the owner of Cluster '' @ name @ '' (its Flux Kustomization or terragrunt unit) to create it again''\<rparr>)"

definition awaitRecreate :: "'w restoreApi \<Rightarrow> nat \<Rightarrow> ('w, wait) rcall" where
  "awaitRecreate api i =
     bindM getS (\<lambda>run.
     let item = itemAt i run; namespace = m_namespace (rr_meta run) in
     bindM (onW (getCluster (ra_getCluster api) namespace (ri_Name item))) (\<lambda>found. case found of
       Some c \<Rightarrow>
         if m_uid (cl_meta c) = ri_ClusterUID item then
           thenM (if m_deletion (cl_meta c) = None then onW (deleteClusterWithUID api namespace (ri_Name item) (m_uid (cl_meta c))) else ret ())
             (ret (shutdownWait (ri_Name item)))
         else if getOr (m_annotations (cl_meta c)) AnnotationRestoreRun = m_name (rr_meta run)
         then thenM (modItem i (\<lambda>it. it\<lparr>ri_Phase := ItemRecovering\<rparr>)) (ret noWait)
         else thenM (modItem i (failRestore (''the Cluster '' @ ri_Name item @ '' came back without this run's recovery''))) (ret noWait)
     | None \<Rightarrow> onW (awaitInstance api namespace (ri_Name item))))"

definition followRecovery :: "'w restoreApi \<Rightarrow> nat \<Rightarrow> ('w, wait) rcall" where
  "followRecovery api i =
     bindM getS (\<lambda>run.
     let item = itemAt i run in
     bindM (onW (getCluster (ra_getCluster api) (m_namespace (rr_meta run)) (ri_Name item))) (\<lambda>found. case found of
       None \<Rightarrow> thenM (modItem i (failRestore ''the recovered Cluster was deleted'')) (ret noWait)
     | Some c \<Rightarrow>
         if clusterPhase c = healthyPhase
         then thenM (modItem i (\<lambda>it. it\<lparr>ri_Phase := ItemSucceeded, ri_Message := []\<rparr>)) (ret noWait)
         else ret \<lparr>wt_reason = ReasonRunning, wt_message = ''Cluster '' @ ri_Name item @ '' is recovering: '' @ clusterPhase c\<rparr>))"

definition restoreDatabase :: "'w restoreApi \<Rightarrow> nat \<Rightarrow> ('w, wait) rcall" where
  "restoreDatabase api i =
     bindM getS (\<lambda>run.
     case ri_Phase (itemAt i run) of
       ItemPending \<Rightarrow> deleteDatabase api i
     | ItemDeleted \<Rightarrow> awaitRecreate api i
     | ItemRecovering \<Rightarrow> followRecovery api i
     | _ \<Rightarrow> ret noWait)"

end
