(* ===== verification/Restore_Run.thy ===== *)
theory Restore_Run
  imports Restore_Items Backup_Run
begin

text \<open>
  The RestoreRun reconciler, from \<open>src/internal/runs/restorerun.go\<close>: one pass reads the run, moves it one
  step further and says when to look again. A status write sends the whole run and returns the new
  resource version; events and log lines are left out. Helpers that it shares with the BackupRun
  reconciler (the queue message, the expiry, the tests on errors) are those of \<open>Backup_Run\<close>.
\<close>

definition restoreRunKind :: string where "restoreRunKind = ''RestoreRun''"

definition setReadyR :: "'w restoreApi \<Rightarrow> condStatus \<Rightarrow> string \<Rightarrow> string \<Rightarrow> ('w, unit) rcall" where
  "setReadyR api status reason message =
     modS (\<lambda>run. run\<lparr>rr_status := (rr_status run)\<lparr>rt_Conditions :=
       SetReady (ra_setCond api) (rt_Conditions (rr_status run)) (m_generation (rr_meta run)) status reason message\<rparr>\<rparr>)"

definition restoreHolder :: "restoreRun \<Rightarrow> holder" where
  "restoreHolder run = \<lparr>h_Kind = restoreRunKind, h_Name = m_name (rr_meta run), h_UID = m_uid (rr_meta run)\<rparr>"

definition waitForR :: "'w restoreApi \<Rightarrow> string \<Rightarrow> string \<Rightarrow> ('w, unit) rcall" where
  "waitForR api reason message =
     thenM (modRestore (\<lambda>st. if rt_StartedAt st \<noteq> None then st\<lparr>rt_Phase := RunPhaseRunning\<rparr> else st)) (
     thenM (setReadyR api CondFalse reason message)
       (writeRestore api))"

section \<open>Questions about a run\<close>

definition pausedRun :: "restoreRun \<Rightarrow> bool" where
  "pausedRun run = (rt_PausedAt (rr_status run) \<noteq> None)"

definition resumedAll :: "pausedWorkload list \<Rightarrow> bool" where
  "resumedAll workloads = list_all pw_Resumed workloads"

definition anyRestorePending :: "restoreItem list \<Rightarrow> bool" where
  "anyRestorePending items = list_ex (\<lambda>i. ri_Phase i = ItemPending) items"

definition restoreDone :: "restoreItem list \<Rightarrow> bool" where
  "restoreDone items = list_all (\<lambda>i. ri_Phase i = ItemSucceeded \<or> ri_Phase i = ItemFailed \<or> ri_Phase i = ItemSkipped) items"

definition restoreFailures :: "restoreItem list \<Rightarrow> string" where
  "restoreFailures items = foldl (\<lambda>message i.
     if ri_Phase i = ItemFailed then (if message \<noteq> [] then message @ ''; '' else message) @ ri_Kind i @ '' '' @ ri_Name i @ '': '' @ ri_Message i
     else message) [] items"

definition restoreOverdue :: "'w restoreApi \<Rightarrow> restoreRun \<Rightarrow> ('w, gtime \<times> bool) call" where
  "restoreOverdue api run =
     (case (rt_StartedAt (rr_status run), rs_Timeout (rr_spec run)) of
        (Some started, Some timeout) \<Rightarrow> (\<lambda>w. (Inr (started + timeout, \<not> ra_Now api w < started + timeout), w))
      | _ \<Rightarrow> ret (zeroTime, False))"

section \<open>Ending a run\<close>

definition dropFinalizerR :: "'w restoreApi \<Rightarrow> ('w, unit) rcall" where
  "dropFinalizerR api =
     bindM getS (\<lambda>run.
     if Finalizer \<notin> set (m_finalizers (rr_meta run)) then ret ()
     else
     thenM (modS (\<lambda>r. r\<lparr>rr_meta := (rr_meta r)\<lparr>m_finalizers := filter (\<lambda>f. f \<noteq> Finalizer) (m_finalizers (rr_meta r))\<rparr>\<rparr>)) (
     bindM getS (\<lambda>r.
     bindM (wrapM (''remove the finalizer from '' @ m_name (rr_meta r) @ '': '') (onW (ra_update api r))) (\<lambda>rv.
     modS (\<lambda>r. r\<lparr>rr_meta := (rr_meta r)\<lparr>m_resourceVersion := rv\<rparr>\<rparr>)))))"

definition resumeRestore :: "'w restoreApi \<Rightarrow> ('w, unit) rcall" where
  "resumeRestore api =
     bindM getS (\<lambda>run.
     thenM (if rt_ResumedAt (rr_status run) = None
            then bindM (nowR api) (\<lambda>now. thenM (modRestore (\<lambda>st. st\<lparr>rt_ResumedAt := Some (rfc3339Copy now)\<rparr>)) (writeRestore api))
            else ret ()) (
     bindM getS (\<lambda>run.
     bindM (onW (resumeWorkloads (ra_pause api) (m_namespace (rr_meta run)) (rt_Paused (rr_status run)) (rt_SuspendedKustomizations (rr_status run)))) (\<lambda>(paused, e).
     thenM (modRestore (\<lambda>st. st\<lparr>rt_Paused := paused\<rparr>))
       (case e of Some err \<Rightarrow> failM err | None \<Rightarrow> ret ())))))"

text \<open>The two loops of \<open>release\<close>: stop the Jobs, and wait for their pods.\<close>

primrec stopJobs :: "'w restoreApi \<Rightarrow> string \<Rightarrow> restoreItem list \<Rightarrow> ('w, unit) call" where
  "stopJobs api namespace [] = ret ()"
| "stopJobs api namespace (item # items) =
     (if ri_Job item = [] then stopJobs api namespace items
      else
      bindM (attempt (ra_getJob api namespace (ri_Job item))) (\<lambda>r. case r of
        Inl err \<Rightarrow> if IsNotFound err then stopJobs api namespace items else failM (Wrap (''get restore Job '' @ ri_Job item @ '': '') err)
      | Inr job \<Rightarrow>
          if Result job = OutFailed then stopJobs api namespace items
          else thenM (deleteJob api namespace (ri_Job item)) (stopJobs api namespace items)))"

primrec jobPodsGone :: "'w restoreApi \<Rightarrow> string \<Rightarrow> restoreItem list \<Rightarrow> ('w, unit) call" where
  "jobPodsGone api namespace [] = ret ()"
| "jobPodsGone api namespace (item # items) =
     (if ri_Job item = [] then jobPodsGone api namespace items
      else
      bindM (jobPodLeft api namespace (ri_Job item)) (\<lambda>pod.
      if pod \<noteq> [] then failM (Plain (''pod '' @ pod @ '' of restore Job '' @ ri_Job item @ '' is still stopping; the run ends once it is gone''))
      else jobPodsGone api namespace items))"

definition releaseRestore :: "'w restoreApi \<Rightarrow> ('w, unit) rcall" where
  "releaseRestore api =
     bindM getS (\<lambda>run.
     thenM (onW (stopJobs api (m_namespace (rr_meta run)) (rt_Items (rr_status run)))) (
     thenM (onW (jobPodsGone api (m_namespace (rr_meta run)) (rt_Items (rr_status run)))) (
     thenM (if pausedRun run \<and> \<not> resumedAll (rt_Paused (rr_status run)) then resumeRestore api else ret ()) (
     bindM getS (\<lambda>run.
     thenM (onW (releaseAll (ra_leases api) (m_namespace (rr_meta run)) (restoreHolder run) (rt_Leases (rr_status run))))
       (onW (admissionDelete (ra_deleteWorkload api) (m_namespace (rr_meta run)) restoreRunKind (m_uid (rr_meta run)))))))))"

definition finishRestore :: "'w restoreApi \<Rightarrow> string \<Rightarrow> string \<Rightarrow> ('w, unit) rcall" where
  "finishRestore api reason message =
     thenM (releaseRestore api) (
     bindM (nowR api) (\<lambda>now.
     thenM (modRestore (\<lambda>st. st\<lparr>rt_Phase := (if reason \<noteq> ReasonSucceeded then RunPhaseFailed else RunPhaseSucceeded),
                              rt_CompletedAt := Some now, rt_Workload := []\<rparr>)) (
     thenM (setReadyR api CondTrue reason message) (
     thenM (writeRestore api)
       (dropFinalizerR api)))))"

definition failOpen :: "string \<Rightarrow> restoreItem \<Rightarrow> restoreItem" where
  "failOpen message i =
     (if ri_Phase i = ItemPending \<or> ri_Phase i = ItemRunning \<or> ri_Phase i = ItemDeleted \<or> ri_Phase i = ItemRecovering
      then failRestore message i else i)"

definition abortRestore :: "'w restoreApi \<Rightarrow> string \<Rightarrow> string \<Rightarrow> ('w, unit) rcall" where
  "abortRestore api reason message =
     thenM (modRestore (\<lambda>st. st\<lparr>rt_Items := map (failOpen message) (rt_Items st)\<rparr>)) (finishRestore api reason message)"

definition finalizeRestore :: "'w restoreApi \<Rightarrow> ('w, unit) rcall" where
  "finalizeRestore api =
     bindM getS (\<lambda>run.
     if Finalizer \<notin> set (m_finalizers (rr_meta run)) then ret ()
     else
     thenM (releaseRestore api) (
     bindM getS (\<lambda>run.
     thenM (if pausedRun run then writeRestore api else ret ())
       (dropFinalizerR api))))"

section \<open>Planning\<close>

definition pendingRestore :: "string \<Rightarrow> string \<Rightarrow> restoreItem" where
  "pendingRestore kind name = restoreItem0\<lparr>ri_Kind := kind, ri_Name := name, ri_Phase := ItemPending\<rparr>"

definition clusterItem :: "cluster \<Rightarrow> restoreItem" where
  "clusterItem c =
     (let item = pendingRestore ''Cluster'' (m_name (cl_meta c)) in
      if Archiver c = None
      then item\<lparr>ri_Phase := ItemSkipped, ri_Message := ''the Cluster archives nowhere, so it has no backup to restore''\<rparr> else item)"

definition restoreItems :: "'w restoreApi \<Rightarrow> restoreRun \<Rightarrow> ('w, restoreItem list) call" where
  "restoreItems api run =
     (let spec = rr_spec run; namespace = m_namespace (rr_meta run) in
      if rs_Into spec \<noteq> [] then
        (if rs_Claim spec = [] \<and> rs_Repository spec = []
         then failM (Plain ''spec.into needs spec.claim or spec.repository to name the repository to restore from'')
         else ret [pendingRestore ''PersistentVolumeClaim'' (rs_Into spec)])
      else if rs_Repository spec \<noteq> []
      then failM (Plain ''spec.into is required when spec.repository names the source, because there is no claim to restore in place'')
      else if rs_Claim spec \<noteq> [] then ret [pendingRestore ''PersistentVolumeClaim'' (rs_Claim spec)]
      else if rs_Database spec \<noteq> [] then ret [pendingRestore ''Cluster'' (rs_Database spec)]
      else
        bindM (enabledClaims (ra_listClaims api) namespace) (\<lambda>claims.
        bindM (enabledClusters (ra_listClusters api) namespace) (\<lambda>clusters.
        let items = map (\<lambda>c. pendingRestore ''PersistentVolumeClaim'' (m_name (pc_meta c))) claims @ map clusterItem clusters in
        if items = [] then failM (Plain (''nothing in this namespace is marked '' @ AnnotationEnabled @ '': '' @ quote ''true''))
        else ret items)))"

definition endInvalid :: "'w restoreApi \<Rightarrow> string \<Rightarrow> ('w, duration option) rcall" where
  "endInvalid api message = thenM (finishRestore api ReasonInvalid message) (ret None)"

definition planRestore :: "'w restoreApi \<Rightarrow> ('w, duration option) rcall" where
  "planRestore api =
     bindM getS (\<lambda>run.
     case restoreTarget run of
       Inl err \<Rightarrow> endInvalid api (errText err)
     | Inr _ \<Rightarrow>
       if rs_SyncDatabaseToVolume (rr_spec run) \<and> \<not> rs_All (rr_spec run)
       then endInvalid api ''syncDatabaseToVolume restores the volumes and the databases of the namespace together, so it needs all: true''
       else
       bindM (attempt (onW (namedTargets (ra_pause api) (m_namespace (rr_meta run)) (rs_PauseDuringRestore (rr_spec run))))) (\<lambda>r. case r of
         Inl err \<Rightarrow> if \<not> isPauseSpecError err then failM err else endInvalid api (errText err)
       | Inr _ \<Rightarrow>
         bindM (attempt (onW (restoreItems api run))) (\<lambda>r. case r of
           Inl err \<Rightarrow> endInvalid api (errText err)
         | Inr items \<Rightarrow>
             thenM (modRestore (\<lambda>st. st\<lparr>rt_Items := items, rt_Phase := RunPhaseQueued\<rparr>)) (
             thenM (setReadyR api CondFalse ReasonQueued queuedMessage)
               (afterM second (writeRestore api))))))"

section \<open>Admission\<close>

definition queueR :: "'w restoreApi \<Rightarrow> string \<Rightarrow> ('w, bool) rcall" where
  "queueR api message =
     bindM getS (\<lambda>run.
     case setQueued (ra_setCond api) (rt_Conditions (rr_status run)) (m_generation (rr_meta run)) message of (conds, changed) \<Rightarrow>
       thenM (modRestore (\<lambda>st. st\<lparr>rt_Conditions := conds\<rparr>)) (ret changed))"

definition admittedR :: "'w restoreApi \<Rightarrow> kueueWorkload \<Rightarrow> ('w, duration option) rcall" where
  "admittedR api workload =
     (if \<not> Admitted workload then ret (Some pollInterval)
      else
      thenM (onW (MarkPodsReady (ra_setCond api) (ra_updateWorkload api) workload)) (
      bindM (nowR api) (\<lambda>now.
      thenM (modRestore (\<lambda>st. st\<lparr>rt_Phase := RunPhaseRunning, rt_StartedAt := Some now\<rparr>)) (
      thenM (setReadyR api CondFalse ReasonRunning ''selecting the backups to restore'')
        (afterM second (writeRestore api))))))"

definition admitRestore :: "'w restoreApi \<Rightarrow> ('w, duration option) rcall" where
  "admitRestore api =
     bindM getS (\<lambda>run.
     let namespace = m_namespace (rr_meta run) in
     bindM (attempt (onW (LocalQueue (ra_listQueues api) namespace))) (\<lambda>r. case r of
       Inl err \<Rightarrow>
         if anyErr isNoQueue1 err then
           bindM (queueR api (asText isNoQueue1 err)) (\<lambda>changed.
             if changed then afterM pollInterval (writeRestore api) else ret (Some pollInterval))
         else failM err
     | Inr queue \<Rightarrow>
         bindM (onW (EnsureWorkload (ra_getWorkload api) (ra_createWorkload api) namespace
                       (workloadName restoreRunKind (m_uid (rr_meta run))) queue (m_uid (rr_meta run)))) (\<lambda>workload.
         bindM (queueR api queuedMessage) (\<lambda>queued.
         thenM (if rt_Workload (rr_status run) \<noteq> m_name (kw_meta workload) \<or> queued
                then thenM (modRestore (\<lambda>st. st\<lparr>rt_Workload := m_name (kw_meta workload)\<rparr>)) (writeRestore api) else ret ())
           (admittedR api workload)))))"

section \<open>Working\<close>

definition endIfEvictedR :: "'w restoreApi \<Rightarrow> ('w, bool) rcall" where
  "endIfEvictedR api =
     bindM getS (\<lambda>run.
     if rt_Workload (rr_status run) = [] then ret False
     else
     bindM (attempt (onW (admissionGet (ra_getWorkload api) (m_namespace (rr_meta run)) (rt_Workload (rr_status run))))) (\<lambda>r. case r of
       Inr (Some workload) \<Rightarrow>
         if Evicted workload then thenM (abortRestore api ReasonEvicted ''Kueue evicted the run's Workload'') (ret True) else ret False
     | _ \<Rightarrow> ret False))"

primrec restoreLeaseLoop :: "'w restoreApi \<Rightarrow> restoreRun \<Rightarrow> restoreItem list \<Rightarrow> string list \<Rightarrow> ('w, string list) call" where
  "restoreLeaseLoop api run [] names = ret names"
| "restoreLeaseLoop api run (item # items) names =
     (if ri_Kind item = ''PersistentVolumeClaim'' then
        bindM (attempt (sourceRepository api run item)) (\<lambda>r. case r of
          Inr sec \<Rightarrow> restoreLeaseLoop api run items (names @ [ClaimPrefix @ ri_Name item, RepositoryPrefix @ m_name (se_meta sec)])
        | Inl err \<Rightarrow> if anyErr isNoBackup1 err then restoreLeaseLoop api run items (names @ [ClaimPrefix @ ri_Name item]) else failM err)
      else if ri_Kind item = ''Cluster'' then restoreLeaseLoop api run items (names @ [ClusterPrefix @ ri_Name item])
      else restoreLeaseLoop api run items names)"

definition restoreLeaseNames :: "'w restoreApi \<Rightarrow> restoreRun \<Rightarrow> ('w, string list) call" where
  "restoreLeaseNames api run =
     restoreLeaseLoop api run (rt_Items (rr_status run)) (if rs_PauseDuringRestore (rr_spec run) \<noteq> [] then [PauseName] else [])"

definition takeLeasesR :: "'w restoreApi \<Rightarrow> string list \<Rightarrow> ('w, string) rcall" where
  "takeLeasesR api names =
     bindM getS (\<lambda>run.
     bindM (holding (liftLease (ra_leases api)) (m_namespace (rr_meta run)) (restoreHolder run) names (rt_Leases (rr_status run))
              (\<lambda>recorded. thenM (modRestore (\<lambda>st. st\<lparr>rt_Leases := recorded\<rparr>)) (writeRestore api)))
       (\<lambda>(msg, recorded). ret msg))"

definition selectRestore :: "'w restoreApi \<Rightarrow> ('w, duration option) rcall" where
  "selectRestore api =
     bindM getS (\<lambda>run.
     bindM (onW (selectBackups api run)) (\<lambda>(run', unreachable).
     thenM (modS (\<lambda>_. run')) (
     if unreachable \<noteq> [] then thenM (finishRestore api ReasonNoBackupInReach unreachable) (ret None)
     else
     bindM (nowR api) (\<lambda>now.
     thenM (modRestore (\<lambda>st. st\<lparr>rt_SelectedAt := Some now\<rparr>)) (
     thenM (setReadyR api CondFalse ReasonRunning ''restoring'')
       (afterM second (writeRestore api)))))))"

definition pauseRestore :: "'w restoreApi \<Rightarrow> ('w, duration option) rcall" where
  "pauseRestore api =
     bindM getS (\<lambda>run.
     let namespace = m_namespace (rr_meta run) in
     bindM (attempt (onW (namedTargets (ra_pause api) namespace (rs_PauseDuringRestore (rr_spec run))))) (\<lambda>r. case r of
       Inl err \<Rightarrow> if \<not> isPauseSpecError err then failM err else thenM (abortRestore api ReasonInvalid (errText err)) (ret None)
     | Inr targets \<Rightarrow>
         bindM (onW (pausePlan (ra_pause api) targets)) (\<lambda>(paused, suspend).
         bindM (nowR api) (\<lambda>now.
         thenM (modRestore (\<lambda>st. st\<lparr>rt_Paused := paused, rt_SuspendedKustomizations := suspend, rt_PausedAt := Some (rfc3339Copy now)\<rparr>)) (
         thenM (writeRestore api) (
         bindM (attempt (onW (applyPause (ra_pause api) namespace paused suspend))) (\<lambda>r. case r of
           Inl err \<Rightarrow> thenM (abortRestore api ReasonFailed (errText err)) (ret None)
         | Inr _ \<Rightarrow> ret (Some (2 * second)))))))))"

text \<open>The loop over the volumes: the last wait with a reason, whether all are done and whether one
  failed.\<close>

record progress =
  pg_waiting :: wait
  pg_done :: bool
  pg_failed :: bool

definition newer :: "wait \<Rightarrow> wait \<Rightarrow> wait" where
  "newer w0 w1 = (if wt_reason w1 \<noteq> [] then w1 else w0)"

primrec volumesLoop :: "'w restoreApi \<Rightarrow> nat list \<Rightarrow> progress \<Rightarrow> ('w, progress) rcall" where
  "volumesLoop api [] p = ret p"
| "volumesLoop api (i # is) p =
     bindM getS (\<lambda>run.
     if ri_Kind (itemAt i run) \<noteq> ''PersistentVolumeClaim'' then volumesLoop api is p
     else
     bindM (restoreVolume api i) (\<lambda>w.
     bindM getS (\<lambda>run.
     let ph = ri_Phase (itemAt i run) in
     volumesLoop api is \<lparr>pg_waiting = newer (pg_waiting p) w, pg_done = (pg_done p \<and> \<not> (ph = ItemPending \<or> ph = ItemRunning)),
       pg_failed = (pg_failed p \<or> ph = ItemFailed)\<rparr>)))"

text \<open>The loop over the databases: the last wait with a reason and whether an old instance shuts down.\<close>

primrec databasesLoop :: "'w restoreApi \<Rightarrow> bool \<Rightarrow> nat list \<Rightarrow> wait \<times> bool \<Rightarrow> ('w, wait \<times> bool) rcall" where
  "databasesLoop api volumesFailed [] s = ret s"
| "databasesLoop api volumesFailed (i # is) s =
     bindM getS (\<lambda>run.
     if ri_Kind (itemAt i run) \<noteq> ''Cluster'' then databasesLoop api volumesFailed is s
     else if volumesFailed \<and> ri_Phase (itemAt i run) = ItemPending
     then thenM (modItem i (\<lambda>it. it\<lparr>ri_Phase := ItemSkipped, ri_Message := ''left running because a volume restore failed''\<rparr>))
            (databasesLoop api volumesFailed is s)
     else
     bindM (restoreDatabase api i) (\<lambda>w.
     databasesLoop api volumesFailed is (newer (fst s) w, snd s \<or> wt_reason w = ReasonShutdown)))"

definition concludeRestore :: "'w restoreApi \<Rightarrow> wait \<Rightarrow> ('w, duration option) rcall" where
  "concludeRestore api waiting =
     bindM getS (\<lambda>run.
     let items = rt_Items (rr_status run) in
     if restoreDone items \<and> (\<not> pausedRun run \<or> resumedAll (rt_Paused (rr_status run))) then
       (if restoreFailures items \<noteq> [] then thenM (finishRestore api ReasonFailed (restoreFailures items)) (ret None)
        else thenM (finishRestore api ReasonSucceeded ''every item holds the restored data'') (ret None))
     else if wt_reason waiting \<noteq> [] then afterM pollInterval (waitForR api (wt_reason waiting) (wt_message waiting))
     else
     thenM (modRestore (\<lambda>st. st\<lparr>rt_Phase := RunPhaseRunning\<rparr>)) (
     thenM (setReadyR api CondFalse ReasonRunning ''restoring'')
       (afterM pollInterval (writeRestore api))))"

definition restoreAll :: "'w restoreApi \<Rightarrow> ('w, duration option) rcall" where
  "restoreAll api =
     bindM getS (\<lambda>run.
     let n = length (rt_Items (rr_status run)) in
     bindM (volumesLoop api [0..<n] \<lparr>pg_waiting = noWait, pg_done = True, pg_failed = False\<rparr>) (\<lambda>p.
     bindM (if pg_done p then databasesLoop api (pg_failed p) [0..<n] (pg_waiting p, False) else ret (pg_waiting p, False)) (\<lambda>(waiting, shuttingDown).
     bindM getS (\<lambda>run.
     thenM (if pausedRun run \<and> pg_done p \<and> \<not> anyRestorePending (rt_Items (rr_status run)) \<and> \<not> shuttingDown then resumeRestore api else ret ())
       (concludeRestore api waiting)))))"

definition workPausedR :: "'w restoreApi \<Rightarrow> ('w, duration option) rcall" where
  "workPausedR api =
     bindM getS (\<lambda>run.
     let st = rr_status run; namespace = m_namespace (rr_meta run) in
     if pausedRun run \<and> anyRestorePending (rt_Items st) then
       bindM (attempt (onW (applyPause (ra_pause api) namespace (rt_Paused st) (rt_SuspendedKustomizations st)))) (\<lambda>r. case r of
         Inl err \<Rightarrow> thenM (abortRestore api ReasonFailed (errText err)) (ret None)
       | Inr _ \<Rightarrow>
           bindM (onW (pausedPodsGone (ra_pause api) namespace (rt_Paused st))) (\<lambda>(gone, pod).
           if \<not> gone
           then afterM (2 * second) (waitForR api ReasonRunning (''waiting for pod '' @ pod @ '' to stop before anything is restored''))
           else restoreAll api))
     else restoreAll api)"

definition workLeased :: "'w restoreApi \<Rightarrow> ('w, duration option) rcall" where
  "workLeased api =
     bindM getS (\<lambda>run.
     if rt_SelectedAt (rr_status run) = None then selectRestore api
     else if rs_PauseDuringRestore (rr_spec run) \<noteq> [] \<and> rt_PausedAt (rr_status run) = None then pauseRestore api
     else workPausedR api)"

definition workRestore :: "'w restoreApi \<Rightarrow> ('w, duration option) rcall" where
  "workRestore api =
     bindM (endIfEvictedR api) (\<lambda>ended.
     if ended then ret None
     else
     bindM getS (\<lambda>run.
     bindM (onW (restoreOverdue api run)) (\<lambda>(deadline, over).
     if over then thenM (abortRestore api ReasonTimedOut (''the run had not finished by '' @ formatRFC3339 deadline)) (ret None)
     else
     bindM (onW (restoreLeaseNames api run)) (\<lambda>names.
     bindM (takeLeasesR api names) (\<lambda>busyMsg.
     if busyMsg \<noteq> [] then afterM pollInterval (waitForR api ReasonBusy busyMsg)
     else workLeased api)))))"

section \<open>A pass\<close>

definition addFinalizerR :: "'w restoreApi \<Rightarrow> ('w, unit) rcall" where
  "addFinalizerR api =
     bindM getS (\<lambda>run.
     if Finalizer \<in> set (m_finalizers (rr_meta run)) then ret ()
     else
     thenM (modS (\<lambda>r. r\<lparr>rr_meta := (rr_meta r)\<lparr>m_finalizers := m_finalizers (rr_meta r) @ [Finalizer]\<rparr>\<rparr>)) (
     bindM getS (\<lambda>r.
     bindM (wrapM (''add the finalizer to RestoreRun '' @ m_namespace (rr_meta r) @ ''/'' @ m_name (rr_meta r) @ '': '') (onW (ra_update api r))) (\<lambda>rv.
     modS (\<lambda>r. r\<lparr>rr_meta := (rr_meta r)\<lparr>m_resourceVersion := rv\<rparr>\<rparr>)))))"

definition stageRestore :: "'w restoreApi \<Rightarrow> ('w, duration option) rcall" where
  "stageRestore api =
     bindM getS (\<lambda>run.
     if ra_Paused api \<and> rt_StartedAt (rr_status run) = None
     then afterM pollInterval (waitForR api ReasonControllerPaused ''the controller runs with --pause; the run starts once the pause ends'')
     else if rt_Phase (rr_status run) = RunPhaseNone then planRestore api
     else if rt_StartedAt (rr_status run) = None then admitRestore api
     else workRestore api)"

definition passRestore :: "'w restoreApi \<Rightarrow> ('w, duration option) rcall" where
  "passRestore api =
     bindM getS (\<lambda>run.
     if m_deletion (rr_meta run) \<noteq> None then thenM (finalizeRestore api) (ret None)
     else if Finished (rt_Phase (rr_status run))
     then bindM (nowR api) (\<lambda>now. onW (expire (ra_delete api) (rr_meta run) (rs_TTLSecondsAfterFinished (rr_spec run)) (rt_CompletedAt (rr_status run)) now))
     else thenM (addFinalizerR api) (stageRestore api))"

definition ReconcileRestore :: "'w restoreApi \<Rightarrow> string \<Rightarrow> string \<Rightarrow> ('w, duration option) call" where
  "ReconcileRestore api namespace name =
     bindM (attempt (ra_get api namespace name)) (\<lambda>r. case r of
       Inl err \<Rightarrow> if IsNotFound err then ret None else failM err
     | Inr run \<Rightarrow> runOn run (passRestore api))"

end
