(* ===== verification/Restore_Protocol.thy ===== *)
theory Restore_Protocol
  imports Restore_Run
begin

text \<open>
  What a RestoreRun may do to the cluster, as an abstract protocol, and what the protocol guarantees.

  The abstract run keeps of the stored RestoreRun what the order of its actions depends on: per item its
  kind, name, phase, Job, snapshot and Cluster UID, and of the run its phase and whether the backups
  are selected, the app paused, resumed and running again. The abstract system adds the traces that a
  run leaves in the cluster: the Clusters it asked to delete, the Jobs it asked to create, and whether it
  let the app run again.
\<close>

record aitem =
  ai_kind :: string
  ai_name :: string
  ai_stage :: itemPhase
  ai_job :: string
  ai_snap :: string
  ai_uid :: string

record arun =
  ar_phase :: runPhase
  ar_ending :: bool
  ar_selected :: bool
  ar_paused :: bool
  ar_resumed :: bool
  ar_up :: bool
  ar_items :: "aitem list"

record asys =
  as_run :: arun
  as_deletes :: "(string \<times> string) set"
  as_jobs :: "(string \<times> string \<times> string) set"
  as_woken :: bool

definition absItem :: "restoreItem \<Rightarrow> aitem" where
  "absItem i = \<lparr>ai_kind = ri_Kind i, ai_name = ri_Name i, ai_stage = ri_Phase i, ai_job = ri_Job i, ai_snap = ri_SnapshotID i, ai_uid = ri_ClusterUID i\<rparr>"

definition absRun :: "restoreRun \<Rightarrow> arun" where
  "absRun r = (let st = rr_status r in
     \<lparr>ar_phase = rt_Phase st, ar_ending = (m_deletion (rr_meta r) \<noteq> None), ar_selected = (rt_SelectedAt st \<noteq> None),
      ar_paused = (rt_PausedAt st \<noteq> None), ar_resumed = (rt_ResumedAt st \<noteq> None), ar_up = resumedAll (rt_Paused st),
      ar_items = map absItem (rt_Items st)\<rparr>)"

abbreviation isVolume :: "aitem \<Rightarrow> bool" where
  "isVolume i \<equiv> ai_kind i = ''PersistentVolumeClaim''"

abbreviation isDatabase :: "aitem \<Rightarrow> bool" where
  "isDatabase i \<equiv> ai_kind i = ''Cluster''"

definition ended :: "itemPhase \<Rightarrow> bool" where
  "ended p = (p = ItemSucceeded \<or> p = ItemFailed \<or> p = ItemSkipped)"

section \<open>The steps of an item and of a run\<close>

text \<open>The phases that may follow a phase, in one or several steps.\<close>

fun follows :: "itemPhase \<Rightarrow> itemPhase \<Rightarrow> bool" where
  "follows ItemPending q = True"
| "follows ItemRunning q = (q \<in> {ItemRunning, ItemSucceeded, ItemFailed})"
| "follows ItemDeleted q = (q \<in> {ItemDeleted, ItemRecovering, ItemSucceeded, ItemFailed})"
| "follows ItemRecovering q = (q \<in> {ItemRecovering, ItemSucceeded, ItemFailed})"
| "follows p q = (q = p)"

definition itemMove :: "aitem \<Rightarrow> aitem \<Rightarrow> bool" where
  "itemMove i j =
     (ai_kind j = ai_kind i \<and> ai_name j = ai_name i \<and> follows (ai_stage i) (ai_stage j) \<and>
      (ai_stage i \<noteq> ItemPending \<longrightarrow> ai_job j = ai_job i \<and> ai_snap j = ai_snap i \<and> ai_uid j = ai_uid i) \<and>
      (ai_job i \<noteq> [] \<longrightarrow> ai_job j = ai_job i \<and> ai_snap j = ai_snap i))"

definition volumesIn :: "aitem list \<Rightarrow> bool" where
  "volumesIn items = list_all (\<lambda>i. isVolume i \<longrightarrow> ai_stage i = ItemSucceeded \<or> ai_stage i = ItemSkipped) items"

definition itemOk :: "aitem \<Rightarrow> bool" where
  "itemOk i = ((ai_stage i = ItemRunning \<longrightarrow> isVolume i) \<and> (ai_stage i = ItemDeleted \<or> ai_stage i = ItemRecovering \<longrightarrow> isDatabase i) \<and>
     (ai_job i \<noteq> [] \<longrightarrow> isVolume i \<and> ai_stage i \<noteq> ItemSkipped))"

text \<open>A well-formed run. Nothing starts before the selection; a database is deleted only when all volumes
  are in place; the app is resumed only when every volume is done with and no item is left to start; and a
  run ends only when every item has ended and the app runs again.\<close>

definition runOk :: "arun \<Rightarrow> bool" where
  "runOk r =
     (list_all itemOk (ar_items r) \<and>
      (ar_phase r = RunPhaseNone \<longrightarrow> ar_items r = [] \<and> \<not> ar_selected r) \<and>
      (\<not> ar_selected r \<longrightarrow> \<not> ar_paused r \<and> list_all (\<lambda>i. ai_job i = [] \<and> ai_stage i \<in> {ItemPending, ItemSkipped, ItemFailed}) (ar_items r)) \<and>
      (\<not> ar_paused r \<longrightarrow> \<not> ar_resumed r \<and> ar_up r) \<and>
      (list_ex (\<lambda>i. ai_stage i = ItemDeleted \<or> ai_stage i = ItemRecovering) (ar_items r) \<longrightarrow> volumesIn (ar_items r)) \<and>
      (ar_resumed r \<and> \<not> ar_ending r \<longrightarrow> list_all (\<lambda>i. ai_stage i \<noteq> ItemPending \<and> ai_stage i \<noteq> ItemRunning) (ar_items r)) \<and>
      (Finished (ar_phase r) \<longrightarrow> list_all (\<lambda>i. ended (ai_stage i)) (ar_items r) \<and> ar_up r) \<and>
      (ar_phase r = RunPhaseSucceeded \<longrightarrow> list_all (\<lambda>i. ai_stage i \<noteq> ItemFailed) (ar_items r)))"

definition runMove :: "arun \<Rightarrow> arun \<Rightarrow> bool" where
  "runMove r r' =
     (list_all2 itemMove (ar_items r) (ar_items r') \<and> ar_ending r' = ar_ending r \<and> (ar_selected r \<longrightarrow> ar_selected r') \<and>
      (ar_paused r \<longrightarrow> ar_paused r') \<and> (ar_resumed r \<longrightarrow> ar_resumed r') \<and> (ar_phase r \<noteq> RunPhaseNone \<longrightarrow> ar_phase r' \<noteq> RunPhaseNone) \<and>
      (Finished (ar_phase r) \<longrightarrow> r' = r))"

definition freshItem :: "aitem \<Rightarrow> bool" where
  "freshItem i = ((ai_stage i = ItemPending \<or> ai_stage i = ItemSkipped) \<and> ai_job i = [])"

inductive protocol :: "asys \<Rightarrow> asys \<Rightarrow> bool" where
  pPlan: "ar_phase (as_run s) = RunPhaseNone \<Longrightarrow> list_all freshItem items \<Longrightarrow>
     protocol s (s\<lparr>as_run := (as_run s)\<lparr>ar_phase := RunPhaseQueued, ar_items := items\<rparr>\<rparr>)"
| pWrite: "runMove (as_run s) r \<Longrightarrow> runOk r \<Longrightarrow> protocol s (s\<lparr>as_run := r\<rparr>)"
| pEnding: "protocol s (s\<lparr>as_run := (as_run s)\<lparr>ar_ending := True\<rparr>\<rparr>)"
| pDelete: "i \<in> set (ar_items (as_run s)) \<Longrightarrow> ai_stage i = ItemDeleted \<Longrightarrow>
     protocol s (s\<lparr>as_deletes := insert (ai_name i, ai_uid i) (as_deletes s)\<rparr>)"
| pJob: "i \<in> set (ar_items (as_run s)) \<Longrightarrow> ai_job i \<noteq> [] \<Longrightarrow>
     protocol s (s\<lparr>as_jobs := insert (ai_job i, ai_name i, ai_snap i) (as_jobs s)\<rparr>)"
| pWake: "ar_resumed (as_run s) \<Longrightarrow> protocol s (s\<lparr>as_woken := True\<rparr>)"

inductive_cases protocolE: "protocol s s'"

definition newSystem :: "asys \<Rightarrow> bool" where
  "newSystem s = (ar_phase (as_run s) = RunPhaseNone \<and> runOk (as_run s) \<and> as_deletes s = {} \<and> as_jobs s = {} \<and> \<not> as_woken s)"

section \<open>What the protocol guarantees\<close>

lemma follows_refl [simp]: "follows p p"
  by (cases p) simp_all

lemma follows_trans: "follows p q \<Longrightarrow> follows q r \<Longrightarrow> follows p r"
  by (cases p; cases q) auto

lemma itemMove_refl [simp]: "itemMove i i"
  by (simp add: itemMove_def)

lemma itemMove_trans: "itemMove i j \<Longrightarrow> itemMove j k \<Longrightarrow> itemMove i k"
  unfolding itemMove_def by (cases "ai_stage i"; cases "ai_stage j") (auto intro: follows_trans)

lemma list_all2_itemMove_refl [simp]: "list_all2 itemMove is is"
  by (rule list_all2_refl) simp

lemma runMove_refl [simp]: "runMove r r"
  by (simp add: runMove_def)

lemma runMove_trans: "runMove r s \<Longrightarrow> runMove s t \<Longrightarrow> runMove r t"
  unfolding runMove_def by (auto intro: list_all2_relcomp itemMove_trans)

lemma volumesIn_move: "volumesIn is \<Longrightarrow> list_all2 itemMove is js \<Longrightarrow> volumesIn js"
  unfolding volumesIn_def by (rotate_tac, induction rule: list_all2_induct) (auto simp: itemMove_def)

text \<open>What the protocol leaves in the cluster is what the stored run says.\<close>

definition recordedDelete :: "arun \<Rightarrow> string \<times> string \<Rightarrow> bool" where
  "recordedDelete r d = (\<exists>i \<in> set (ar_items r). ai_name i = fst d \<and> ai_uid i = snd d \<and> isDatabase i \<and>
     ai_stage i \<in> {ItemDeleted, ItemRecovering, ItemSucceeded, ItemFailed})"

definition recordedJob :: "arun \<Rightarrow> string \<times> string \<times> string \<Rightarrow> bool" where
  "recordedJob r j = (\<exists>i \<in> set (ar_items r). (ai_job i, ai_name i, ai_snap i) = j \<and> isVolume i \<and> ai_stage i \<noteq> ItemSkipped)"

definition systemOk :: "asys \<Rightarrow> bool" where
  "systemOk s = (runOk (as_run s) \<and> (\<forall>d \<in> as_deletes s. recordedDelete (as_run s) d) \<and> (as_deletes s \<noteq> {} \<longrightarrow> volumesIn (ar_items (as_run s))) \<and>
     (\<forall>j \<in> as_jobs s. fst j \<noteq> [] \<and> recordedJob (as_run s) j) \<and> (as_woken s \<longrightarrow> ar_resumed (as_run s)))"

lemma list_all2_in1: "list_all2 P xs ys \<Longrightarrow> x \<in> set xs \<Longrightarrow> \<exists>y \<in> set ys. P x y"
  by (induction rule: list_all2_induct) auto

lemma recordedDelete_move:
  assumes "recordedDelete r d" "list_all2 itemMove (ar_items r) (ar_items r')"
  shows "recordedDelete r' d"
proof -
  obtain i where i: "i \<in> set (ar_items r)" "ai_name i = fst d" "ai_uid i = snd d" "isDatabase i"
    "ai_stage i \<in> {ItemDeleted, ItemRecovering, ItemSucceeded, ItemFailed}"
    using assms(1) by (auto simp: recordedDelete_def)
  obtain j where "j \<in> set (ar_items r')" "itemMove i j" using list_all2_in1[OF assms(2) i(1)] by blast
  then show ?thesis using i unfolding recordedDelete_def by (intro bexI[of _ j]) (auto simp: itemMove_def)
qed

lemma recordedJob_move:
  assumes "recordedJob r j" "fst j \<noteq> []" "list_all2 itemMove (ar_items r) (ar_items r')" "list_all itemOk (ar_items r')"
  shows "recordedJob r' j"
proof -
  obtain i where i: "i \<in> set (ar_items r)" "(ai_job i, ai_name i, ai_snap i) = j" "isVolume i" "ai_stage i \<noteq> ItemSkipped"
    using assms(1) by (auto simp: recordedJob_def)
  obtain k where k: "k \<in> set (ar_items r')" "itemMove i k" using list_all2_in1[OF assms(3) i(1)] by blast
  moreover have "itemOk k" using assms(4) k(1) by (simp add: list_all_iff)
  ultimately show ?thesis using i assms(2) unfolding recordedJob_def by (intro bexI[of _ k]) (auto simp: itemMove_def itemOk_def)
qed

lemma systemOk_write:
  assumes "systemOk s" "runMove (as_run s) r" "runOk r"
  shows "systemOk (s\<lparr>as_run := r\<rparr>)"
proof -
  have m: "list_all2 itemMove (ar_items (as_run s)) (ar_items r)" and a: "list_all itemOk (ar_items r)"
    using assms by (simp_all add: runMove_def runOk_def)
  show ?thesis using assms recordedDelete_move[OF _ m] recordedJob_move[OF _ _ m a] volumesIn_move[OF _ m]
    by (simp add: systemOk_def runMove_def)
qed

lemma runOk_ending: "runOk r \<Longrightarrow> runOk (r\<lparr>ar_ending := True\<rparr>)"
  by (simp add: runOk_def)

lemma runOk_plan: "runOk r \<Longrightarrow> ar_phase r = RunPhaseNone \<Longrightarrow> list_all freshItem items \<Longrightarrow> runOk (r\<lparr>ar_phase := RunPhaseQueued, ar_items := items\<rparr>)"
  unfolding runOk_def freshItem_def itemOk_def Finished_def by (auto simp: list_all_iff list_ex_iff)

lemma systemOk_step:
  assumes "systemOk s" "protocol s s'"
  shows "systemOk s'"
  using assms(2,1)
proof cases
  case (pPlan items)
  have ok: "runOk (as_run s)" using assms(1) by (simp add: systemOk_def)
  then have "ar_items (as_run s) = []" using pPlan by (simp add: runOk_def)
  then show ?thesis using assms(1) pPlan runOk_plan[OF ok pPlan(2,3)] by (auto simp: systemOk_def recordedDelete_def recordedJob_def)
next
  case (pWrite r)
  then show ?thesis using systemOk_write[OF assms(1)] by simp
next
  case pEnding
  then show ?thesis using assms(1) runOk_ending by (simp add: systemOk_def recordedDelete_def recordedJob_def)
next
  case (pDelete i)
  have "itemOk i" "list_ex (\<lambda>i. ai_stage i = ItemDeleted \<or> ai_stage i = ItemRecovering) (ar_items (as_run s))"
    using assms(1) pDelete by (auto simp: systemOk_def runOk_def list_all_iff list_ex_iff)
  then show ?thesis using assms(1) pDelete by (auto simp: systemOk_def recordedDelete_def itemOk_def runOk_def)
next
  case (pJob i)
  have "itemOk i" using assms(1) pJob by (auto simp: systemOk_def runOk_def list_all_iff)
  then show ?thesis using assms(1) pJob by (auto simp: systemOk_def recordedJob_def itemOk_def)
next
  case pWake
  then show ?thesis using assms(1) by (simp add: systemOk_def)
qed

interpretation restoreProtocol: inductive_invariant newSystem protocol systemOk
  by unfold_locales (simp add: newSystem_def systemOk_def, rule systemOk_step)

end
