(* ===== verification/Run_Safe.thy ===== *)
theory Run_Safe
  imports Run_Monad
begin

text \<open>
  Safe calls of a reconciler. A pass changes a run in memory, writes it and acts on the cluster;
  \<open>safeAt J E r c Q\<close> says that from every world that goes with the run \<open>r\<close> in memory (\<open>J r\<close>), the call \<open>c\<close>
  returns with a run and a world that go together, and \<open>Q\<close> holds of the result, or fails in a world
  that satisfies \<open>E\<close>. The rules execute the call on the run symbolically; the locale \<open>safe_pass\<close> is the
  contract between the invariants of a reconciler and these rules.
\<close>

definition safeAt :: "('r \<Rightarrow> 'w \<Rightarrow> bool) \<Rightarrow> ('w \<Rightarrow> bool) \<Rightarrow> 'r \<Rightarrow> ('r \<times> 'w, 'a) call \<Rightarrow> ('a \<Rightarrow> 'r \<Rightarrow> bool) \<Rightarrow> bool" where
  "safeAt J E r c Q =
     (\<forall>w. J r w \<longrightarrow> (case c (r, w) of (x, (r', w')) \<Rightarrow> (case x of Inl e \<Rightarrow> E w' | Inr y \<Rightarrow> J r' w' \<and> Q y r')))"

lemma safeAtI:
  assumes "\<And>w y r' w'. J r w \<Longrightarrow> c (r, w) = (Inr y, (r', w')) \<Longrightarrow> J r' w' \<and> Q y r'"
    and "\<And>w e r' w'. J r w \<Longrightarrow> c (r, w) = (Inl e, (r', w')) \<Longrightarrow> E w'"
  shows "safeAt J E r c Q"
  unfolding safeAt_def
proof (intro allI impI)
  fix w assume "J r w"
  then show "case c (r, w) of (x, (r', w')) \<Rightarrow> (case x of Inl e \<Rightarrow> E w' | Inr y \<Rightarrow> J r' w' \<and> Q y r')"
    using assms by (cases "c (r, w)") (auto split: sum.splits)
qed

lemma safeAtD_Inr: "safeAt J E r c Q \<Longrightarrow> J r w \<Longrightarrow> c (r, w) = (Inr y, (r', w')) \<Longrightarrow> J r' w' \<and> Q y r'"
  by (auto simp: safeAt_def dest!: spec[of _ w])

lemma safeAtD_Inl: "safeAt J E r c Q \<Longrightarrow> J r w \<Longrightarrow> c (r, w) = (Inl e, (r', w')) \<Longrightarrow> E w'"
  by (auto simp: safeAt_def dest!: spec[of _ w])

lemma safeAt_conseq: "safeAt J E r c R \<Longrightarrow> (\<And>x r'. R x r' \<Longrightarrow> Q x r') \<Longrightarrow> safeAt J E r c Q"
  by (rule safeAtI) (blast dest: safeAtD_Inr safeAtD_Inl)+

named_theorems safe_intros \<open>symbolic execution of safe calls\<close>

lemma safeAt_ret [safe_intros]: "Q x r \<Longrightarrow> safeAt J E r (ret x) Q"
  by (rule safeAtI) simp_all

lemma safeAt_bindM:
  assumes "safeAt J E r c R" "\<And>x r'. R x r' \<Longrightarrow> safeAt J E r' (f x) Q"
  shows "safeAt J E r (bindM c f) Q"
proof (rule safeAtI)
  fix w y r' w' assume j: "J r w" and "bindM c f (r, w) = (Inr y, (r', w'))"
  then obtain x s where "c (r, w) = (Inr x, s)" "f x s = (Inr y, (r', w'))" by (auto elim: bindM_InrE)
  then obtain r1 w1 where c: "c (r, w) = (Inr x, (r1, w1))" "f x (r1, w1) = (Inr y, (r', w'))" by (cases s) auto
  with safeAtD_Inr[OF assms(1) j c(1)] show "J r' w' \<and> Q y r'" using safeAtD_Inr[OF assms(2)] by blast
next
  fix w e r' w' assume j: "J r w" and "bindM c f (r, w) = (Inl e, (r', w'))"
  then consider "c (r, w) = (Inl e, (r', w'))" | x r1 w1 where "c (r, w) = (Inr x, (r1, w1))" "f x (r1, w1) = (Inl e, (r', w'))"
    unfolding bindM_Inl_iff by (metis surj_pair)
  then show "E w'"
  proof cases
    case 2
    with safeAtD_Inr[OF assms(1) j 2(1)] show ?thesis using safeAtD_Inl[OF assms(2)] by blast
  qed (rule safeAtD_Inl[OF assms(1) j])
qed

lemma safeAt_thenM: "safeAt J E r c (\<lambda>_. R) \<Longrightarrow> (\<And>r'. R r' \<Longrightarrow> safeAt J E r' d Q) \<Longrightarrow> safeAt J E r (thenM c d) Q"
  unfolding thenM_def by (rule safeAt_bindM)

lemma safeAt_bind_getS [safe_intros]: "safeAt J E r (f r) Q \<Longrightarrow> safeAt J E r (bindM getS f) Q"
  by (rule safeAt_bindM[where R = "\<lambda>x r'. x = r \<and> r' = r"]) (auto intro: safeAtI)

lemma safeAt_modS: "(\<And>w. J r w \<Longrightarrow> J (g r) w) \<Longrightarrow> Q () (g r) \<Longrightarrow> safeAt J E r (modS g) Q"
  by (rule safeAtI) simp_all

lemma safeAt_then_modS: "(\<And>w. J r w \<Longrightarrow> J (g r) w) \<Longrightarrow> safeAt J E (g r) d Q \<Longrightarrow> safeAt J E r (thenM (modS g) d) Q"
  by (rule safeAt_thenM[where R = "\<lambda>r'. r' = g r"]) (auto intro: safeAt_modS)

lemma safeAt_if [safe_intros]: "(b \<Longrightarrow> safeAt J E r c Q) \<Longrightarrow> (\<not> b \<Longrightarrow> safeAt J E r d Q) \<Longrightarrow> safeAt J E r (if b then c else d) Q"
  by simp

lemma safeAt_sum [safe_intros]:
  "(\<And>e. x = Inl e \<Longrightarrow> safeAt J E r (g e) Q) \<Longrightarrow> (\<And>y. x = Inr y \<Longrightarrow> safeAt J E r (f y) Q) \<Longrightarrow> safeAt J E r (case x of Inl e \<Rightarrow> g e | Inr y \<Rightarrow> f y) Q"
  by (cases x) auto

lemma safeAt_option [safe_intros]:
  "(x = None \<Longrightarrow> safeAt J E r g Q) \<Longrightarrow> (\<And>y. x = Some y \<Longrightarrow> safeAt J E r (f y) Q) \<Longrightarrow> safeAt J E r (case x of None \<Rightarrow> g | Some y \<Rightarrow> f y) Q"
  by (cases x) auto

lemma safeAt_prod [safe_intros]:
  "(\<And>a b. x = (a, b) \<Longrightarrow> safeAt J E r (f a b) Q) \<Longrightarrow> safeAt J E r (case x of (a, b) \<Rightarrow> f a b) Q"
  by (cases x) auto

lemma thenM_assoc: "thenM c (thenM d e) = thenM (thenM c d) e"
  by (simp add: thenM_def bindM_assoc)

lemma afterM_thenM: "afterM d (thenM a b) = thenM a (afterM d b)"
  by (simp add: afterM_def thenM_assoc)

lemma safeAt_afterM: "safeAt J E r c (\<lambda>_ _. True) \<Longrightarrow> safeAt J E r (afterM d c) (\<lambda>_ _. True)"
  unfolding afterM_def by (rule safeAt_thenM[where R = "\<lambda>_. True"]) (auto intro: safeAt_ret)

section \<open>The contract of a pass\<close>

text \<open>The invariant looks at the world through a view, and what goes with a run may fail.\<close>

locale safe_pass =
  fixes J :: "'r \<Rightarrow> 'w \<Rightarrow> bool" and E :: "'w \<Rightarrow> bool" and v :: "'w \<Rightarrow> 'v"
  assumes view: "v w = v w' \<Longrightarrow> J r w \<Longrightarrow> J r w'"
    and fails: "J r w \<Longrightarrow> E w"
begin

lemma safe_failM: "safeAt J E r (failM e) Q"
  by (rule safeAtI) (auto simp: failM_def intro: fails)

lemma safe_onW:
  assumes "keeps v c" "\<And>w x w'. c w = (Inr x, w') \<Longrightarrow> Q x r"
  shows "safeAt J E r (onW c) Q"
proof (rule safeAtI)
  fix w y r' w' assume j: "J r w" "onW c (r, w) = (Inr y, (r', w'))"
  then have c: "c w = (Inr y, w')" "r' = r" by simp_all
  show "J r' w' \<and> Q y r'" using view[OF keepsD[OF assms(1) c(1), symmetric] j(1)] assms(2)[OF c(1)] c(2) by simp
next
  fix w e r' w' assume j: "J r w" "onW c (r, w) = (Inl e, (r', w'))"
  then have c: "c w = (Inl e, w')" by simp
  show "E w'" by (rule fails[OF view[OF keepsD[OF assms(1) c, symmetric] j(1)]])
qed

lemma safe_bind_onW: "keeps v c \<Longrightarrow> (\<And>w x w'. c w = (Inr x, w') \<Longrightarrow> safeAt J E r (f x) Q) \<Longrightarrow> safeAt J E r (bindM (onW c) f) Q"
  by (rule safeAt_bindM[where R = "\<lambda>x r'. r' = r \<and> (\<exists>w w'. c w = (Inr x, w'))"]) (auto intro: safe_onW)

lemma safe_then_onW: "keeps v c \<Longrightarrow> safeAt J E r d Q \<Longrightarrow> safeAt J E r (thenM (onW c) d) Q"
  unfolding thenM_def by (rule safe_bind_onW)

lemma safe_bind_attempt: "keeps v c \<Longrightarrow> (\<And>x. safeAt J E r (f x) Q) \<Longrightarrow> safeAt J E r (bindM (attempt (onW c)) f) Q"
  unfolding attempt_onW by (rule safe_bind_onW[OF keeps_attempt])

end

end
