(* ===== verification/Restore_Laws.thy ===== *)
theory Restore_Laws
  imports Restore_Protocol Run_Safe
begin

text \<open>
  What the proofs about the RestoreRun reconciler use of the API server. \<open>v\<close> is the abstract system that
  the state of the world stands for: the stored run and the traces the run left. A call that returns did
  what it says; a call that fails did it or did nothing, since its reply may be lost. Every other call
  leaves the abstract system as it was: reads, the Leases, the Kueue Workload, claims, and the
  metadata of the run.
\<close>

definition maybe :: "('w \<Rightarrow> asys) \<Rightarrow> (asys \<Rightarrow> asys) \<Rightarrow> ('w, 'a) call \<Rightarrow> bool" where
  "maybe v f c = (\<forall>w x w'. c w = (x, w') \<longrightarrow> v w' = v w \<or> v w' = f (v w))"

definition jobTrace :: "job \<Rightarrow> asys \<Rightarrow> asys" where
  "jobTrace j s = (case writes j of None \<Rightarrow> s | Some (claim, snap, _) \<Rightarrow> s\<lparr>as_jobs := insert (m_name (jb_meta j), claim, snap) (as_jobs s)\<rparr>)"

definition leasesKeep :: "('w \<Rightarrow> asys) \<Rightarrow> 'w leaseApi \<Rightarrow> bool" where
  "leasesKeep v l = ((\<forall>ns n i. keeps v (la_Create l ns n i)) \<and> (\<forall>ns n. keeps v (la_Get l ns n)) \<and> (\<forall>ns n x. keeps v (la_Update l ns n x)) \<and>
     (\<forall>ns n u r. keeps v (la_Delete l ns n u r)) \<and> (\<forall>ns h. keeps v (la_Alive l ns h)))"

definition pauseLaws :: "('w \<Rightarrow> asys) \<Rightarrow> 'w pauseApi \<Rightarrow> bool" where
  "pauseLaws v p = ((\<forall>ns. keeps v (pa_listDeployments p ns)) \<and> (\<forall>ns. keeps v (pa_listStatefulSets p ns)) \<and>
     (\<forall>k ns n. keeps v (pa_getWorkload p k ns n)) \<and> (\<forall>ns n. keeps v (pa_getSuspend p ns n)) \<and> (\<forall>ns s. keeps v (pa_listPods p ns s)) \<and>
     (\<forall>k ns n. keeps v (pa_patchReplicas p k ns n 0)) \<and> (\<forall>ns n. keeps v (pa_patchSuspend p ns n True)) \<and>
     (\<forall>k ns n c. maybe v (\<lambda>s. s\<lparr>as_woken := True\<rparr>) (pa_patchReplicas p k ns n c)) \<and>
     (\<forall>ns n b. maybe v (\<lambda>s. s\<lparr>as_woken := True\<rparr>) (pa_patchSuspend p ns n b)))"

definition readLaws :: "('w \<Rightarrow> asys) \<Rightarrow> 'w restoreApi \<Rightarrow> bool" where
  "readLaws v api = ((\<forall>ns n. keeps v (ra_get api ns n)) \<and> (\<forall>ns n. keeps v (ra_getClaim api ns n)) \<and> (\<forall>ns. keeps v (ra_listClaims api ns)) \<and>
     (\<forall>ns n. keeps v (ra_getVR api ns n)) \<and> (\<forall>ns n. keeps v (ra_getSecret api ns n)) \<and> (\<forall>ns n. keeps v (ra_getStore api ns n)) \<and>
     (\<forall>ns n. keeps v (ra_getCluster api ns n)) \<and> (\<forall>ns n. keeps v (ra_getClusterCached api ns n)) \<and> (\<forall>ns. keeps v (ra_listClusters api ns)) \<and>
     (\<forall>ns. keeps v (ra_listPods api ns)) \<and> (\<forall>ns n. keeps v (ra_listJobPods api ns n)) \<and> (\<forall>ns n. keeps v (ra_listInstancePods api ns n)) \<and>
     (\<forall>ns n. keeps v (ra_listInstanceClaims api ns n)) \<and> (\<forall>ns n. keeps v (ra_getJob api ns n)) \<and> (\<forall>ns. keeps v (ra_listQueues api ns)) \<and>
     (\<forall>ns n. keeps v (ra_getWorkload api ns n)) \<and> (\<forall>sec. keeps v (ra_snapshots api sec)) \<and> (\<forall>l. keeps v (ra_BaseBackups api l)) \<and>
     (\<forall>l t. keeps v (ra_WALSince api l t)))"

definition otherLaws :: "('w \<Rightarrow> asys) \<Rightarrow> 'w restoreApi \<Rightarrow> bool" where
  "otherLaws v api = ((\<forall>r. keeps v (ra_update api r)) \<and> (\<forall>ns n. keeps v (ra_delete api ns n)) \<and> (\<forall>c. keeps v (ra_createClaim api c)) \<and>
     (\<forall>ns n. keeps v (ra_deleteJob api ns n)) \<and> (\<forall>x. keeps v (ra_createWorkload api x)) \<and> (\<forall>x. keeps v (ra_updateWorkload api x)) \<and>
     (\<forall>ns n. keeps v (ra_deleteWorkload api ns n)) \<and> leasesKeep v (ra_leases api))"

definition stores :: "('w \<Rightarrow> asys) \<Rightarrow> restoreRun \<Rightarrow> ('w, 'a) call \<Rightarrow> bool" where
  "stores v r c = (\<forall>w x w'. c w = (x, w') \<longrightarrow> v w' = (v w)\<lparr>as_run := absRun r\<rparr> \<or> (\<exists>e. x = Inl e) \<and> v w' = v w)"

definition restoreLaws :: "('w \<Rightarrow> asys) \<Rightarrow> 'w restoreApi \<Rightarrow> bool" where
  "restoreLaws v api = (readLaws v api \<and> otherLaws v api \<and> pauseLaws v (ra_pause api) \<and>
     (\<forall>r. stores v r (ra_updateStatus api r)) \<and>
     (\<forall>ns n w c w'. ra_getClusterCached api ns n w = (Inr c, w') \<longrightarrow> m_name (cl_meta c) = n) \<and>
     (\<forall>ns n u. maybe v (\<lambda>s. s\<lparr>as_deletes := insert (n, u) (as_deletes s)\<rparr>) (ra_deleteCluster api ns n u)) \<and>
     (\<forall>j. maybe v (jobTrace j) (ra_createJob api j)))"

text \<open>The stored run is the one of this name.\<close>

definition readsRun :: "('w \<Rightarrow> asys) \<Rightarrow> 'w restoreApi \<Rightarrow> string \<Rightarrow> string \<Rightarrow> bool" where
  "readsRun v api ns n = (\<forall>w r w'. ra_get api ns n w = (Inr r, w') \<longrightarrow> absRun r = as_run (v w))"

lemma reads_keep:
  assumes "restoreLaws v api"
  shows "keeps v (ra_get api ns n)" "keeps v (ra_getClaim api ns n)" "keeps v (ra_listClaims api ns)"
    "keeps v (ra_getVR api ns n)" "keeps v (ra_getSecret api ns n)" "keeps v (ra_getStore api ns n)"
    "keeps v (ra_getCluster api ns n)" "keeps v (ra_getClusterCached api ns n)" "keeps v (ra_listClusters api ns)"
    "keeps v (ra_listPods api ns)" "keeps v (ra_listJobPods api ns n)" "keeps v (ra_listInstancePods api ns n)"
    "keeps v (ra_listInstanceClaims api ns n)" "keeps v (ra_getJob api ns n)" "keeps v (ra_listQueues api ns)"
    "keeps v (ra_getWorkload api ns n)" "keeps v (ra_snapshots api sec)" "keeps v (ra_BaseBackups api l)" "keeps v (ra_WALSince api l t)"
  using assms by (simp_all add: restoreLaws_def readLaws_def)

lemma other_keeps:
  assumes "restoreLaws v api"
  shows "keeps v (ra_update api r)" "keeps v (ra_delete api ns n)" "keeps v (ra_createClaim api c)" "keeps v (ra_deleteJob api ns n)"
    "keeps v (ra_createWorkload api x)" "keeps v (ra_updateWorkload api x)" "keeps v (ra_deleteWorkload api ns n)" "leasesKeep v (ra_leases api)"
  using assms by (simp_all add: restoreLaws_def otherLaws_def)

lemma pause_keeps:
  assumes "pauseLaws v p"
  shows "keeps v (pa_listDeployments p ns)" "keeps v (pa_listStatefulSets p ns)" "keeps v (pa_getWorkload p k ns n)"
    "keeps v (pa_getSuspend p ns n)" "keeps v (pa_listPods p ns s)" "keeps v (pa_patchReplicas p k ns n 0)" "keeps v (pa_patchSuspend p ns n True)"
  using assms by (simp_all add: pauseLaws_def)

lemma lease_keeps:
  assumes "leasesKeep v l"
  shows "keeps v (la_Create l ns n i)" "keeps v (la_Get l ns n)" "keeps v (la_Update l ns n x)" "keeps v (la_Delete l ns n u r)" "keeps v (la_Alive l ns h)"
  using assms by (simp_all add: leasesKeep_def)

section \<open>The calls of the components\<close>

lemma keeps_Take: "leasesKeep v l \<Longrightarrow> keeps v (Take l ns name h)"
  unfolding Take_def Let_def by (intro keeps_intros lease_keeps) assumption+

lemma keeps_takeLoop: "leasesKeep v l \<Longrightarrow> keeps v (takeLoop l ns h names)"
  by (induction names) (auto intro!: keeps_intros keeps_Take)

lemma keeps_Release: "leasesKeep v l \<Longrightarrow> keeps v (Release l ns name h)"
  unfolding Release_def Let_def by (intro keeps_intros lease_keeps) assumption+

lemma keeps_releaseAll: "leasesKeep v l \<Longrightarrow> keeps v (releaseAll l ns h names)"
  unfolding releaseAll_def by (intro keeps_intros keeps_Release) assumption+

lemma keeps_unlessGone: "keeps v m \<Longrightarrow> keeps v (unlessGone m)"
  unfolding unlessGone_def by (intro keeps_intros)

lemma keeps_namedTargets: "pauseLaws v p \<Longrightarrow> keeps v (namedTargets p ns refs)"
  by (induction refs) (auto intro!: keeps_intros pause_keeps)

lemma keeps_pausePlan: "pauseLaws v p \<Longrightarrow> keeps v (pausePlan p targets)"
proof -
  assume p: "pauseLaws v p"
  have "keeps v (suspendLoop p ts seen suspend)" for ts seen suspend
    by (induction ts arbitrary: seen suspend) (auto simp: Let_def intro!: keeps_intros pause_keeps p)
  then show ?thesis unfolding pausePlan_def by (intro keeps_intros)
qed

lemma keeps_applyPause: "pauseLaws v p \<Longrightarrow> keeps v (applyPause p ns paused suspend)"
  unfolding applyPause_def suspendKey_def setSuspend_def scale_def by (intro keeps_intros keeps_unlessGone pause_keeps) assumption+

lemma keeps_pausedPodsGone: "pauseLaws v p \<Longrightarrow> keeps v (pausedPodsGone p ns paused)"
proof -
  assume p: "pauseLaws v p"
  have "keeps v (podsGone p ns ts)" for ts
    by (induction ts) (auto simp: Let_def intro!: keeps_intros pause_keeps p)
  moreover have "keeps v (pausedTargets p ns ws)" for ws
    by (induction ws) (auto intro!: keeps_intros keeps_namedTargets p simp del: namedTargets.simps)
  ultimately show ?thesis unfolding pausedPodsGone_def by (intro keeps_intros)
qed

lemma keeps_getCluster: "(\<And>ns n. keeps v (get ns n)) \<Longrightarrow> keeps v (getCluster get ns n)"
  unfolding getCluster_def by (intro keeps_intros)

lemma keeps_enabled:
  "(\<And>ns. keeps v (lc ns)) \<Longrightarrow> keeps v (enabledClaims lc ns)" "(\<And>ns. keeps v (lk ns)) \<Longrightarrow> keeps v (enabledClusters lk ns)"
  unfolding enabledClaims_def enabledClusters_def by (intro keeps_intros; assumption)+

lemma keeps_InstanceLeft: "(\<And>ns n. keeps v (lp ns n)) \<Longrightarrow> (\<And>ns n. keeps v (lc ns n)) \<Longrightarrow> keeps v (InstanceLeft lp lc ns n)"
  unfolding InstanceLeft_def by (intro keeps_intros)

lemma keeps_ResolveLocation: "(\<And>ns n. keeps v (gs ns n)) \<Longrightarrow> (\<And>ns n. keeps v (gk ns n)) \<Longrightarrow> keeps v (ResolveLocation up gs gk ns st sn)"
  unfolding ResolveLocation_def archivePath_def credential_def endpointCA_def Let_def by (intro keeps_intros)

lemma keeps_expire: "(\<And>ns n. keeps v (d ns n)) \<Longrightarrow> keeps v (expire d m ttl c now)"
  unfolding expire_def Let_def by (intro keeps_intros)

section \<open>The calls of the reconciler\<close>

lemma keeps_sourceRepository: "restoreLaws v api \<Longrightarrow> keeps v (sourceRepository api run item)"
  unfolding sourceRepository_def namedRepository_def Let_def by (intro keeps_intros keeps_volumeRestoreFor reads_keep) assumption+

lemma keeps_selectSnapshot: "restoreLaws v api \<Longrightarrow> keeps v (selectSnapshot api run item at p)"
  unfolding selectSnapshot_def by (intro keeps_intros keeps_sourceRepository reads_keep) assumption+

lemma keeps_selectBaseBackup: "restoreLaws v api \<Longrightarrow> keeps v (selectBaseBackup api run item at synced)"
  unfolding selectBaseBackup_def selectAt_def stopIn_def stopFor_def stopSynced_def
  by (intro keeps_intros keeps_getCluster keeps_ResolveLocation reads_keep) assumption+

lemma keeps_selectBackups: "restoreLaws v api \<Longrightarrow> keeps v (selectBackups api run)"
proof -
  assume l: "restoreLaws v api"
  have "keeps v (selectVolumes api run at sync items synced un)" for at sync items synced un
    by (induction items arbitrary: synced un) (auto simp: Let_def intro!: keeps_intros keeps_selectSnapshot[OF l])
  moreover have "keeps v (selectDatabases api run at sync synced items un)" for at sync synced items un
    by (induction items arbitrary: un) (auto simp: Let_def intro!: keeps_intros keeps_selectBaseBackup[OF l])
  ultimately show ?thesis unfolding selectBackups_def Let_def by (intro keeps_intros)
qed

lemma keeps_items: "restoreLaws v api \<Longrightarrow> keeps v (restoreItems api run)"
  unfolding restoreItems_def Let_def by (intro keeps_intros keeps_enabled reads_keep) assumption+

lemma keeps_itemReads:
  assumes "restoreLaws v api"
  shows "keeps v (claimHolder api ns c)" "keeps v (jobPodLeft api ns j)" "keeps v (deleteJob api ns j)"
    "keeps v (moverSecurityContext api run item)" "keeps v (intoSource api run cl)" "keeps v (awaitInstance api ns n)"
  unfolding claimHolder_def jobPodLeft_def deleteJob_def moverSecurityContext_def intoSource_def awaitInstance_def Let_def
  by (intro keeps_intros keeps_volumeRestoreFor keeps_InstanceLeft reads_keep[OF assms] other_keeps[OF assms])+

lemma keeps_releaseLoops:
  assumes "restoreLaws v api"
  shows "keeps v (stopJobs api ns items)" "keeps v (jobPodsGone api ns items)"
  by (induction items) (auto intro!: keeps_intros reads_keep[OF assms] keeps_itemReads[OF assms])

lemma keeps_leaseNames: "restoreLaws v api \<Longrightarrow> keeps v (restoreLeaseNames api run)"
proof -
  assume l: "restoreLaws v api"
  have "keeps v (restoreLeaseLoop api run items names)" for items names
    by (induction items arbitrary: names) (auto intro!: keeps_intros keeps_sourceRepository[OF l])
  then show ?thesis unfolding restoreLeaseNames_def .
qed

lemma keeps_clock: "keeps v (\<lambda>w. (Inr (f w), w))"
  by (simp add: keeps_def)

lemma keeps_restoreOverdue: "keeps v (restoreOverdue api run)"
  unfolding restoreOverdue_def by (intro keeps_intros keeps_clock)

section \<open>Calls that may leave a trace\<close>

lemma maybeI: "(\<And>w x w'. c w = (x, w') \<Longrightarrow> v w' = v w \<or> v w' = f (v w)) \<Longrightarrow> maybe v f c"
  unfolding maybe_def by blast

lemma maybeD: "maybe v f c \<Longrightarrow> c w = (x, w') \<Longrightarrow> v w' = v w \<or> v w' = f (v w)"
  unfolding maybe_def by blast

lemma maybe_keeps: "keeps v c \<Longrightarrow> maybe v f c"
  by (rule maybeI, rule disjI1, erule (1) keepsD)

lemma maybe_attempt: "maybe v f c \<Longrightarrow> maybe v f (attempt c)"
  unfolding maybe_def attempt_def by (simp split: prod.splits)

lemma maybe_wrapM: "maybe v f c \<Longrightarrow> maybe v f (wrapM t c)"
proof (rule maybeI)
  fix w x w' assume m: "maybe v f c" and "wrapM t c w = (x, w')"
  then have "c w = (fst (c w), w')" by (cases "c w") (auto simp: wrapM_def split: sum.splits)
  then show "v w' = v w \<or> v w' = f (v w)" by (rule maybeD[OF m])
qed

text \<open>A read before, and nothing after, the call that leaves the trace.\<close>

lemma maybe_after_read:
  assumes "keeps v c" "\<And>w x w'. c w = (Inr x, w') \<Longrightarrow> maybe v f (g x)"
  shows "maybe v f (bindM c g)"
proof (rule maybeI)
  fix w y w' assume "bindM c g w = (y, w')"
  then obtain q w1 where c: "c w = (q, w1)" "(case q of Inl e \<Rightarrow> (Inl e, w1) | Inr x \<Rightarrow> g x w1) = (y, w')"
    by (auto simp: bindM_def split: prod.splits)
  have k: "v w1 = v w" by (rule keepsD[OF assms(1) c(1)])
  show "v w' = v w \<or> v w' = f (v w)"
  proof (cases q)
    case (Inr x)
    then have "maybe v f (g x)" "g x w1 = (y, w')" using assms(2)[of w x w1] c by simp_all
    from maybeD[OF this] show ?thesis using k by simp
  qed (use c k in auto)
qed

text \<open>Any number of calls that leave the same trace.\<close>

lemma maybe_bindM:
  assumes "\<And>s. f (f s) = f s" "maybe v f c" "\<And>x. maybe v f (g x)"
  shows "maybe v f (bindM c g)"
proof (rule maybeI)
  fix w y w' assume "bindM c g w = (y, w')"
  then obtain q w1 where c: "c w = (q, w1)" "(case q of Inl e \<Rightarrow> (Inl e, w1) | Inr x \<Rightarrow> g x w1) = (y, w')"
    by (auto simp: bindM_def split: prod.splits)
  have k: "v w1 = v w \<or> v w1 = f (v w)" by (rule maybeD[OF assms(2) c(1)])
  show "v w' = v w \<or> v w' = f (v w)"
  proof (cases q)
    case (Inr x)
    then have "v w' = v w1 \<or> v w' = f (v w1)" using maybeD[OF assms(3)] c by auto
    then show ?thesis using k assms(1) by auto
  qed (use c k in auto)
qed

definition wakes :: "('w \<Rightarrow> asys) \<Rightarrow> ('w, 'a) call \<Rightarrow> bool" where
  "wakes v c = maybe v (\<lambda>s. s\<lparr>as_woken := True\<rparr>) c"

lemma wakes_ret: "wakes v (ret x)"
  by (simp add: wakes_def maybe_keeps keeps_ret)

lemma wakes_failM: "wakes v (failM e)"
  by (simp add: wakes_def maybe_keeps keeps_failM)

lemma wakes_bindM: "wakes v c \<Longrightarrow> (\<And>x. wakes v (g x)) \<Longrightarrow> wakes v (bindM c g)"
  unfolding wakes_def by (rule maybe_bindM) simp_all

lemma wakes_attempt: "wakes v c \<Longrightarrow> wakes v (attempt c)"
  unfolding wakes_def by (rule maybe_attempt)

lemma wakes_wrapM: "wakes v c \<Longrightarrow> wakes v (wrapM t c)"
  unfolding wakes_def by (rule maybe_wrapM)

lemma wakes_if: "(b \<Longrightarrow> wakes v c) \<Longrightarrow> (\<not> b \<Longrightarrow> wakes v d) \<Longrightarrow> wakes v (if b then c else d)"
  by simp

lemma wakes_sum: "(\<And>e. wakes v (g e)) \<Longrightarrow> (\<And>y. wakes v (h y)) \<Longrightarrow> wakes v (case x of Inl e \<Rightarrow> g e | Inr y \<Rightarrow> h y)"
  by (cases x) auto

lemma wakes_option: "wakes v c \<Longrightarrow> (\<And>y. wakes v (h y)) \<Longrightarrow> wakes v (case x of None \<Rightarrow> c | Some y \<Rightarrow> h y)"
  by (cases x) auto

lemma wakes_prod: "(\<And>a b. wakes v (h a b)) \<Longrightarrow> wakes v (case x of (a, b) \<Rightarrow> h a b)"
  by (cases x) auto

lemmas wakes_intros = wakes_ret wakes_failM wakes_bindM wakes_attempt wakes_wrapM wakes_if wakes_sum wakes_option wakes_prod

lemma wakes_unlessGone: "wakes v c \<Longrightarrow> wakes v (unlessGone c)"
  unfolding unlessGone_def by (intro wakes_intros)

lemma wakes_forM: "(\<And>x. wakes v (g x)) \<Longrightarrow> wakes v (forM xs g)"
  by (induction xs) (auto simp: thenM_def intro!: wakes_ret wakes_bindM)

lemma wakes_scaleBack: "pauseLaws v p \<Longrightarrow> wakes v (scaleBack p ns ws)"
proof -
  assume "pauseLaws v p"
  then have s: "wakes v (unlessGone (scale p k ns n c))" for k n c
    unfolding scale_def by (intro wakes_unlessGone wakes_wrapM) (simp add: wakes_def pauseLaws_def)
  show ?thesis
  proof (induction ws)
    case (Cons y ws)
    show ?case unfolding scaleBack.simps Let_def by (intro wakes_intros s Cons)
  qed (simp add: wakes_ret)
qed

lemma wakes_suspendKey:
  assumes "pauseLaws v p"
  shows "wakes v (suspendKey p b key)"
proof -
  have "wakes v (pa_patchSuspend p ns n b)" for ns n using assms by (simp add: wakes_def pauseLaws_def)
  then have "wakes v (unlessGone (setSuspend p ns n b))" for ns n
    unfolding setSuspend_def by (intro wakes_unlessGone wakes_wrapM)
  then show ?thesis unfolding suspendKey_def by (simp split: prod.splits)
qed

lemma wakes_resumeWorkloads: "pauseLaws v p \<Longrightarrow> wakes v (resumeWorkloads p ns ws keys)"
  unfolding resumeWorkloads_def by (intro wakes_intros wakes_scaleBack wakes_forM wakes_suspendKey)

text \<open>A resume that reports no error has marked every workload.\<close>

definition allMarked :: "pausedWorkload list \<times> gerr option \<Rightarrow> bool" where
  "allMarked q = (snd q = None \<longrightarrow> list_all pw_Resumed (fst q))"

lemma hoare_True: "hoare P c (\<lambda>_ _. True) (\<lambda>_. True)"
  by (rule hoareI) simp_all

lemma scaleBack_all: "hoare (\<lambda>_. True) (scaleBack p ns ws) (\<lambda>q _. allMarked q) (\<lambda>_. True)"
proof (induction ws)
  case (Cons y ws)
  have r: "hoare (\<lambda>_. True) (bindM (scaleBack p ns ws) (\<lambda>(ws', e). ret (z # ws', e))) (\<lambda>q _. allMarked q) (\<lambda>_. True)"
    if "pw_Resumed z" for z
  proof (rule hoare_bindM[OF Cons])
    show "hoare (\<lambda>_. allMarked x) (case x of (ws', e) \<Rightarrow> ret (z # ws', e)) (\<lambda>q _. allMarked q) (\<lambda>_. True)" for x
      using that by (cases x) (simp add: allMarked_def hoare_ret)
  qed
  have s: "hoare (\<lambda>_. True) (case x of Inl err \<Rightarrow> ret (y # ws, Some err)
       | Inr _ \<Rightarrow> bindM (scaleBack p ns ws) (\<lambda>(ws', e). ret (y\<lparr>pw_Resumed := True\<rparr> # ws', e))) (\<lambda>q _. allMarked q) (\<lambda>_. True)"
    for x :: "gerr + unit"
    using r[of "y\<lparr>pw_Resumed := True\<rparr>"] by (cases x) (simp_all add: allMarked_def hoare_ret)
  show ?case unfolding scaleBack.simps Let_def by (intro hoare_if r hoare_bindM[OF hoare_True] s) simp_all
qed (simp add: hoare_ret allMarked_def)

lemma resumeWorkloads_all:
  assumes "resumeWorkloads p ns ws keys w = (Inr (ws', None), w')"
  shows "list_all pw_Resumed ws'"
proof -
  have s: "hoare (\<lambda>_. P) (case x of Inl err \<Rightarrow> ret (ws', Some err) | Inr _ \<Rightarrow> ret (ws', None)) (\<lambda>q _. allMarked q) (\<lambda>_. True)"
    if "P \<Longrightarrow> list_all pw_Resumed ws'" for P ws' and x :: "gerr + unit"
    using that by (cases x) (auto simp: allMarked_def intro!: hoare_ret)
  have "hoare (\<lambda>_. True) (resumeWorkloads p ns ws keys) (\<lambda>q _. allMarked q) (\<lambda>_. True)"
    unfolding resumeWorkloads_def
  proof (rule hoare_bindM[OF scaleBack_all])
    fix q :: "pausedWorkload list \<times> gerr option"
    obtain a e where q: "q = (a, e)" by (cases q)
    show "hoare (\<lambda>_. allMarked q) (case q of (paused', e) \<Rightarrow> case e of Some err \<Rightarrow> ret (paused', Some err)
       | None \<Rightarrow> bindM (attempt (forM keys (suspendKey p False))) (\<lambda>r. case r of Inl err \<Rightarrow> ret (paused', Some err) | Inr _ \<Rightarrow> ret (paused', None)))
         (\<lambda>q _. allMarked q) (\<lambda>_. True)"
    proof (cases e)
      case None
      have "hoare (\<lambda>_. allMarked q) (attempt (forM keys (suspendKey p False))) (\<lambda>_ _. allMarked q) (\<lambda>_. True)"
        by (rule hoareI) simp_all
      from hoare_bindM[OF this s] show ?thesis by (simp add: q None allMarked_def)
    qed (simp add: q allMarked_def hoare_ret)
  qed
  from hoareD_Inr[OF this _ assms] show ?thesis by (simp add: allMarked_def)
qed

lemma maybe_deleteCluster:
  assumes "restoreLaws v api"
  shows "maybe v (\<lambda>s. s\<lparr>as_deletes := insert (n, u) (as_deletes s)\<rparr>) (deleteClusterWithUID api ns n u)"
  unfolding deleteClusterWithUID_def
proof (rule maybe_after_read[OF keeps_getCluster[OF reads_keep(8)[OF assms]]])
  fix w found w' assume g: "getCluster (ra_getClusterCached api) ns n w = (Inr found, w')"
  show "maybe v (\<lambda>s. s\<lparr>as_deletes := insert (n, u) (as_deletes s)\<rparr>)
     (case found of None \<Rightarrow> ret () | Some c \<Rightarrow>
        bindM (attempt (ra_deleteCluster api (m_namespace (cl_meta c)) (m_name (cl_meta c)) u)) (\<lambda>r. case r of
          Inl err \<Rightarrow> if IsNotFound err \<or> IsConflict err then ret () else failM (Wrap (''delete Cluster '' @ ns @ ''/'' @ n @ '': '') err)
        | Inr _ \<Rightarrow> ret ()))"
  proof (cases found)
    case (Some c)
    have "ra_getClusterCached api ns n w = (Inr c, w')"
      using g Some by (cases "ra_getClusterCached api ns n w")
        (auto simp: getCluster_def bind_attempt failM_def split: sum.splits if_splits)
    then have "m_name (cl_meta c) = n" using assms unfolding restoreLaws_def by blast
    then have "maybe v (\<lambda>s. s\<lparr>as_deletes := insert (n, u) (as_deletes s)\<rparr>) (ra_deleteCluster api ns1 (m_name (cl_meta c)) u)" for ns1
      using assms by (simp add: restoreLaws_def)
    then show ?thesis unfolding Some option.case
      by (intro maybe_bindM maybe_attempt) (auto intro!: maybe_keeps keeps_intros split: sum.splits)
  qed (simp add: maybe_keeps keeps_ret)
qed

end
