(* ===== verification/Restore_Moves.thy ===== *)
theory Restore_Moves
  imports Restore_Laws
begin

text \<open>
  The moves of a RestoreRun in memory, on the abstract run. \<open>runMove\<close> with \<open>runOk\<close> is what a status write may
  store; a move is quiet when in addition nothing that the run is about to act on is new: a pass acts on
  the cluster only by items, Jobs and the resume that the stored run already holds.
\<close>

definition recItem :: "aitem \<Rightarrow> aitem \<Rightarrow> bool" where
  "recItem i j = ((ai_stage j = ItemDeleted \<longrightarrow> ai_stage i = ItemDeleted \<and> ai_uid i = ai_uid j) \<and>
     (ai_job j \<noteq> [] \<longrightarrow> ai_job i = ai_job j \<and> ai_snap i = ai_snap j))"

definition quiet :: "arun \<Rightarrow> arun \<Rightarrow> bool" where
  "quiet a b = (runMove a b \<and> runOk b \<and> list_all2 recItem (ar_items a) (ar_items b) \<and> (ar_resumed b \<longrightarrow> ar_resumed a))"

lemma recItem_refl [simp]: "recItem i i"
  by (simp add: recItem_def)

lemma recItem_trans: "recItem i j \<Longrightarrow> recItem j k \<Longrightarrow> recItem i k"
  by (auto simp: recItem_def)

lemma quiet_refl: "runOk a \<Longrightarrow> quiet a a"
  by (simp add: quiet_def list_all2_refl)

lemma quiet_trans: "quiet a b \<Longrightarrow> quiet b c \<Longrightarrow> quiet a c"
  unfolding quiet_def by (auto intro: runMove_trans list_all2_relcomp recItem_trans)

lemma quiet_ok: "quiet a b \<Longrightarrow> runOk b"
  by (simp add: quiet_def)

lemma quiet_recorded:
  assumes "quiet a b" "j \<in> set (ar_items b)"
  obtains i where "i \<in> set (ar_items a)" "ai_name i = ai_name j" "ai_kind i = ai_kind j" "recItem i j"
proof -
  have m: "list_all2 itemMove (ar_items a) (ar_items b)" and q: "list_all2 recItem (ar_items a) (ar_items b)"
    using assms(1) by (simp_all add: quiet_def runMove_def)
  obtain i where "i \<in> set (ar_items a)" "itemMove i j \<and> recItem i j"
    using list_all2_in2[OF list_all2_conj[OF m q] assms(2)] by blast
  then show thesis by (intro that) (auto simp: itemMove_def)
qed

section \<open>The abstract run of a changed run\<close>

lemma absRun_simps [simp]:
  "ar_phase (absRun r) = rt_Phase (rr_status r)" "ar_ending (absRun r) = (m_deletion (rr_meta r) \<noteq> None)"
  "ar_selected (absRun r) = (rt_SelectedAt (rr_status r) \<noteq> None)" "ar_paused (absRun r) = (rt_PausedAt (rr_status r) \<noteq> None)"
  "ar_resumed (absRun r) = (rt_ResumedAt (rr_status r) \<noteq> None)" "ar_up (absRun r) = resumedAll (rt_Paused (rr_status r))"
  "ar_items (absRun r) = map absItem (rt_Items (rr_status r))"
  by (simp_all add: absRun_def Let_def)

lemma absItem_simps [simp]:
  "ai_kind (absItem i) = ri_Kind i" "ai_name (absItem i) = ri_Name i" "ai_stage (absItem i) = ri_Phase i"
  "ai_job (absItem i) = ri_Job i" "ai_snap (absItem i) = ri_SnapshotID i" "ai_uid (absItem i) = ri_ClusterUID i"
  by (simp_all add: absItem_def)

text \<open>Two runs with the same abstract run.\<close>

lemma absRun_cong:
  assumes "rt_Phase (rr_status r') = rt_Phase (rr_status r)" "m_deletion (rr_meta r') = m_deletion (rr_meta r)"
    "rt_SelectedAt (rr_status r') = rt_SelectedAt (rr_status r)" "rt_PausedAt (rr_status r') = rt_PausedAt (rr_status r)"
    "rt_ResumedAt (rr_status r') = rt_ResumedAt (rr_status r)" "rt_Paused (rr_status r') = rt_Paused (rr_status r)"
    "rt_Items (rr_status r') = rt_Items (rr_status r)"
  shows "absRun r' = absRun r"
  using assms by (simp add: absRun_def Let_def)

definition setRV :: "string \<Rightarrow> restoreRun \<Rightarrow> restoreRun" where
  "setRV rv r = r\<lparr>rr_meta := (rr_meta r)\<lparr>m_resourceVersion := rv\<rparr>\<rparr>"

lemma absRun_setRV [simp]: "absRun (setRV rv r) = absRun r"
  by (rule absRun_cong) (simp_all add: setRV_def)

definition onItem :: "nat \<Rightarrow> (restoreItem \<Rightarrow> restoreItem) \<Rightarrow> restoreRun \<Rightarrow> restoreRun" where
  "onItem i f r = r\<lparr>rr_status := (rr_status r)\<lparr>rt_Items := (rt_Items (rr_status r))[i := f (rt_Items (rr_status r) ! i)]\<rparr>\<rparr>"

lemma modItem_onItem: "modItem i f = modS (onItem i f)"
  by (simp add: modItem_def modRestore_def onItem_def[abs_def])

lemma absRun_onItem:
  "absRun (onItem i f r) = (absRun r)\<lparr>ar_items := (ar_items (absRun r))[i := absItem (f (itemAt i r))]\<rparr>"
  by (simp add: absRun_def onItem_def itemAt_def Let_def map_update)

section \<open>Moves\<close>

text \<open>A run that a pass works on.\<close>

definition working :: "arun \<Rightarrow> bool" where
  "working r = (\<not> Finished (ar_phase r) \<and> ar_selected r \<and> \<not> ar_ending r)"

lemma follows_started: "follows p q \<Longrightarrow> p \<noteq> ItemPending \<Longrightarrow> q \<noteq> ItemPending"
  by (cases p) auto

lemma follows_Running: "follows p ItemRunning \<Longrightarrow> p = ItemPending \<or> p = ItemRunning"
  by (cases p) auto

lemma list_all2_update: "(\<And>x. P x x) \<Longrightarrow> P (xs ! i) y \<Longrightarrow> list_all2 P xs (xs[i := y])"
  unfolding list_all2_conv_all_nth by (metis length_list_update nth_list_update_eq nth_list_update_neq)

lemma runOk_item:
  assumes "runOk r" "i < length (ar_items r)" "itemMove (ar_items r ! i) j" "itemOk j" "\<not> Finished (ar_phase r)" "ar_selected r"
    and "ai_stage j = ItemDeleted \<or> ai_stage j = ItemRecovering \<Longrightarrow> volumesIn (ar_items r)"
  shows "runOk (r\<lparr>ar_items := (ar_items r)[i := j]\<rparr>)"
proof -
  let ?js = "(ar_items r)[i := j]"
  have m: "list_all2 itemMove (ar_items r) ?js"
    using assms(3) by (intro list_all2_update) simp_all
  have ex: "list_ex (\<lambda>i. ai_stage i = ItemDeleted \<or> ai_stage i = ItemRecovering) ?js \<Longrightarrow> volumesIn (ar_items r)"
    using assms(1,7) set_update_subset_insert[of "ar_items r" i j] unfolding runOk_def list_ex_iff by blast
  have res: "list_all (\<lambda>i. ai_stage i \<noteq> ItemPending \<and> ai_stage i \<noteq> ItemRunning) ?js"
    if "list_all (\<lambda>i. ai_stage i \<noteq> ItemPending \<and> ai_stage i \<noteq> ItemRunning) (ar_items r)"
  proof -
    have i: "ai_stage (ar_items r ! i) \<noteq> ItemPending" "ai_stage (ar_items r ! i) \<noteq> ItemRunning" "follows (ai_stage (ar_items r ! i)) (ai_stage j)"
      using that assms(2,3) by (auto simp: list_all_length itemMove_def)
    from i(1,3) have "ai_stage j \<noteq> ItemPending" by (rule follows_started[rotated])
    moreover from i have "ai_stage j \<noteq> ItemRunning" using follows_Running by metis
    ultimately show ?thesis using that set_update_subset_insert[of "ar_items r" i j] unfolding list_all_iff by blast
  qed
  have ok: "list_all itemOk ?js"
    using assms(1,4) set_update_subset_insert[of "ar_items r" i j] unfolding runOk_def list_all_iff by blast
  have n: "ar_phase r \<noteq> RunPhaseNone" using assms(1,6) by (auto simp: runOk_def)
  have s: "ar_phase r \<noteq> RunPhaseSucceeded" using assms(5) by (auto simp: Finished_def)
  show ?thesis using assms(1,5,6) ok ex volumesIn_move[OF _ m] res n s unfolding runOk_def by simp
qed

lemma move_item:
  assumes "i < length (ar_items r)" "itemMove (ar_items r ! i) j" "\<not> Finished (ar_phase r)"
  shows "runMove r (r\<lparr>ar_items := (ar_items r)[i := j]\<rparr>)"
  using assms by (simp add: runMove_def list_all2_update)

lemma quiet_item:
  assumes "runOk r" "i < length (ar_items r)" "itemMove (ar_items r ! i) j" "itemOk j" "\<not> Finished (ar_phase r)" "ar_selected r"
    and "ai_stage j = ItemDeleted \<or> ai_stage j = ItemRecovering \<Longrightarrow> volumesIn (ar_items r)" "recItem (ar_items r ! i) j"
  shows "quiet r (r\<lparr>ar_items := (ar_items r)[i := j]\<rparr>)"
  using runOk_item[OF assms(1-7)] move_item[OF assms(2,3,5)] assms(8)
  by (simp add: quiet_def list_all2_update)

lemma runMove_map:
  assumes "\<And>i. i \<in> set (ar_items r) \<Longrightarrow> itemMove i (f i)" "\<not> Finished (ar_phase r)"
  shows "runMove r (r\<lparr>ar_items := map f (ar_items r)\<rparr>)"
  using assms by (simp add: runMove_def list.rel_map list.rel_refl_strong list_all2_same)

end
