(* ===== verification/Restore_Safe.thy ===== *)
theory Restore_Safe
  imports Restore_Moves
begin

text \<open>
  The RestoreRun reconciler refines the protocol: from the world in which a pass reads its run, every
  call of the pass takes the abstract system along a sequence of protocol steps, whether the pass
  returns or fails half way.
\<close>

definition simR :: "('w \<Rightarrow> asys) \<Rightarrow> asys \<Rightarrow> restoreRun \<Rightarrow> 'w \<Rightarrow> bool" where
  "simR v s0 r w = (protocol\<^sup>*\<^sup>* s0 (v w) \<and> quiet (as_run (v w)) (absRun r))"

definition failR :: "('w \<Rightarrow> asys) \<Rightarrow> asys \<Rightarrow> 'w \<Rightarrow> bool" where
  "failR v s0 w = protocol\<^sup>*\<^sup>* s0 (v w)"

interpretation restorePass: safe_pass "simR v s0" "failR v s0" v for v s0
  by unfold_locales (simp_all add: simR_def failR_def)

abbreviation safeR :: "('w \<Rightarrow> asys) \<Rightarrow> asys \<Rightarrow> restoreRun \<Rightarrow> ('w, 'a) rcall \<Rightarrow> ('a \<Rightarrow> restoreRun \<Rightarrow> bool) \<Rightarrow> bool" where
  "safeR v s0 \<equiv> safeAt (simR v s0) (failR v s0)"

abbreviation anyR :: "'a \<Rightarrow> restoreRun \<Rightarrow> bool" where
  "anyR \<equiv> \<lambda>_ _. True"

lemma simR_ok: "simR v s0 r w \<Longrightarrow> runOk (absRun r)"
  by (simp add: simR_def quiet_def)

text \<open>A triple may assume that the run in memory is well-formed.\<close>

lemma safeR_ok: "(runOk (absRun r) \<Longrightarrow> safeR v s0 r c Q) \<Longrightarrow> safeR v s0 r c Q"
  by (rule safeAtI) (blast dest: simR_ok safeAtD_Inr safeAtD_Inl)+

section \<open>Changes in memory and writes\<close>

lemma simR_quiet: "simR v s0 r w \<Longrightarrow> quiet (absRun r) (absRun r') \<Longrightarrow> simR v s0 r' w"
  unfolding simR_def using quiet_trans by blast

lemma safeR_mod: "quiet (absRun r) (absRun (g r)) \<Longrightarrow> safeR v s0 (g r) d Q \<Longrightarrow> safeR v s0 r (thenM (modS g) d) Q"
  by (rule safeAt_then_modS) (auto intro: simR_quiet)

lemma safeR_modS: "quiet (absRun r) (absRun (g r)) \<Longrightarrow> Q () (g r) \<Longrightarrow> safeR v s0 r (modS g) Q"
  by (rule safeAt_modS) (auto intro: simR_quiet)

text \<open>A change that the abstract run does not see.\<close>

lemma simR_same: "simR v s0 r w \<Longrightarrow> absRun r' = absRun r \<Longrightarrow> simR v s0 r' w"
  by (simp add: simR_def)

lemma safeR_same: "absRun (g r) = absRun r \<Longrightarrow> safeR v s0 (g r) d Q \<Longrightarrow> safeR v s0 r (thenM (modS g) d) Q"
  by (rule safeAt_then_modS) (auto intro: simR_same)

lemma safeR_sameS: "absRun (g r) = absRun r \<Longrightarrow> Q () (g r) \<Longrightarrow> safeR v s0 r (modS g) Q"
  by (rule safeAt_modS) (auto intro: simR_same)

lemma writeRestore_Inr:
  assumes "writeRestore api (r, w) = (Inr x, (r', w'))"
  shows "\<exists>rv. ra_updateStatus api r w = (Inr rv, w') \<and> r' = setRV rv r"
  using assms by (auto simp: writeRestore_def bindM_Inr_iff setRV_def)

lemma writeRestore_Inl:
  assumes "writeRestore api (r, w) = (Inl e, (r', w'))"
  shows "\<exists>e'. ra_updateStatus api r w = (Inl e', w')"
  using assms by (auto simp: writeRestore_def bindM_Inl_iff)

lemma written:
  assumes "stores v r (ra_updateStatus api r)" "ra_updateStatus api r w = (x, w')"
    and "protocol\<^sup>*\<^sup>* s0 (v w)" "protocol\<^sup>*\<^sup>* (v w) ((v w)\<lparr>as_run := absRun r\<rparr>)"
  shows "protocol\<^sup>*\<^sup>* s0 (v w')" "x = Inr rv \<Longrightarrow> as_run (v w') = absRun r"
proof -
  have d: "v w' = (v w)\<lparr>as_run := absRun r\<rparr> \<or> (\<exists>e. x = Inl e) \<and> v w' = v w"
    using assms(1,2) by (auto simp: stores_def)
  moreover have "protocol\<^sup>*\<^sup>* s0 ((v w)\<lparr>as_run := absRun r\<rparr>)" by (rule rtranclp_trans[OF assms(3,4)])
  ultimately show "protocol\<^sup>*\<^sup>* s0 (v w')" using assms(3) by auto
  show "x = Inr rv \<Longrightarrow> as_run (v w') = absRun r" using d by auto
qed

lemma thenM_modS_run: "thenM (modS g) c (r, w) = c (g r, w)"
  by (simp add: thenM_def bindM_def modS_def)

text \<open>A change in memory with its write: the protocol must allow the write.\<close>

lemma safeR_store:
  assumes "restoreLaws v api" "\<And>w. simR v s0 r w \<Longrightarrow> protocol\<^sup>*\<^sup>* (v w) ((v w)\<lparr>as_run := absRun (g r)\<rparr>)"
    and "runOk (absRun (g r))" "\<And>rv. Q () (setRV rv (g r))"
  shows "safeR v s0 r (thenM (modS g) (writeRestore api)) Q"
proof -
  have st: "stores v (g r) (ra_updateStatus api (g r))" using assms(1) by (simp add: restoreLaws_def)
  have m: "protocol\<^sup>*\<^sup>* s0 (v w)" if "simR v s0 r w" for w using that by (simp add: simR_def)
  show ?thesis
  proof (rule safeAtI)
    fix w y r' w' assume j: "simR v s0 r w" and "thenM (modS g) (writeRestore api) (r, w) = (Inr y, (r', w'))"
    then have "writeRestore api (g r, w) = (Inr y, (r', w'))" by (simp add: thenM_modS_run)
    from writeRestore_Inr[OF this] obtain rv where u: "ra_updateStatus api (g r) w = (Inr rv, w')" "r' = setRV rv (g r)" by blast
    note k = written[OF st u(1) m[OF j] assms(2)[OF j]]
    have "quiet (as_run (v w')) (absRun r')" unfolding k(2)[OF refl] u(2) by (simp add: quiet_refl assms(3))
    then show "simR v s0 r' w' \<and> Q y r'" using k(1) assms(4) u(2) by (simp add: simR_def)
  next
    fix w e r' w' assume j: "simR v s0 r w" and "thenM (modS g) (writeRestore api) (r, w) = (Inl e, (r', w'))"
    then have "writeRestore api (g r, w) = (Inl e, (r', w'))" by (simp add: thenM_modS_run)
    from writeRestore_Inl[OF this] obtain e' where u: "ra_updateStatus api (g r) w = (Inl e', w')" by blast
    show "failR v s0 w'" unfolding failR_def by (rule written(1)[OF st u m[OF j] assms(2)[OF j]])
  qed
qed

lemma safeR_modwrite:
  assumes "restoreLaws v api" "runMove (absRun r) (absRun (g r))" "runOk (absRun (g r))" "\<And>rv. Q () (setRV rv (g r))"
  shows "safeR v s0 r (thenM (modS g) (writeRestore api)) Q"
proof (rule safeR_store[where g = g])
  show "Q () (setRV rv (g r))" for rv by (rule assms(4))
  fix w assume "simR v s0 r w"
  then have "runMove (as_run (v w)) (absRun r)" by (simp add: simR_def quiet_def)
  then have "runMove (as_run (v w)) (absRun (g r))" using assms(2) by (rule runMove_trans)
  then show "protocol\<^sup>*\<^sup>* (v w) ((v w)\<lparr>as_run := absRun (g r)\<rparr>)" using pWrite[OF _ assms(3)] by blast
qed (rule assms(1), rule assms(3))

lemma modS_ident: "thenM (modS (\<lambda>r. r)) c = c"
  by (rule ext) (simp add: thenM_def bindM_def modS_def split: prod.splits)

lemma safeR_write:
  assumes "restoreLaws v api" "\<And>rv. Q () (setRV rv r)"
  shows "safeR v s0 r (writeRestore api) Q"
proof (rule safeR_ok)
  assume ok: "runOk (absRun r)"
  have "safeR v s0 r (thenM (modS (\<lambda>r. r)) (writeRestore api)) Q"
    by (rule safeR_modwrite[where g = "\<lambda>r. r"]) (simp_all add: assms ok)
  then show "safeR v s0 r (writeRestore api) Q" by (simp only: modS_ident)
qed

lemma thenM_modS_modS: "thenM (modS f) (thenM (modS g) c) = thenM (modS (\<lambda>r. g (f r))) c"
  by (rule ext) (simp add: thenM_def bindM_def modS_def split: prod.splits)

lemma safeR_modwrite_then:
  assumes "restoreLaws v api" "runMove (absRun r) (absRun (g r))" "runOk (absRun (g r))" "\<And>rv. safeR v s0 (setRV rv (g r)) d Q"
  shows "safeR v s0 r (thenM (modS g) (thenM (writeRestore api) d)) Q"
  unfolding thenM_assoc
proof (rule safeAt_thenM[where R = "\<lambda>r'. \<exists>rv. r' = setRV rv (g r)"])
  show "safeR v s0 r (thenM (modS g) (writeRestore api)) (\<lambda>_ r'. \<exists>rv. r' = setRV rv (g r))"
    by (rule safeR_modwrite[where g = g]) (simp_all add: assms(1-3), blast)
  show "safeR v s0 r' d Q" if "\<exists>rv. r' = setRV rv (g r)" for r' using that assms(4) by blast
qed

lemma safeR_write_then:
  assumes "restoreLaws v api" "\<And>rv. safeR v s0 (setRV rv r) d Q"
  shows "safeR v s0 r (thenM (writeRestore api) d) Q"
proof (rule safeAt_thenM[where R = "\<lambda>r'. \<exists>rv. r' = setRV rv r"])
  show "safeR v s0 r (writeRestore api) (\<lambda>_ r'. \<exists>rv. r' = setRV rv r)"
    by (rule safeR_write[OF assms(1)]) blast
  show "safeR v s0 r' d Q" if "\<exists>rv. r' = setRV rv r" for r' using that assms(2) by blast
qed

section \<open>Acting on the cluster\<close>

text \<open>A call that may take one protocol step, which the stored run allows.\<close>

lemma simR_act:
  assumes "simR v s0 r w" "v w' = v w \<or> v w' = t" "protocol (v w) t" "as_run t = as_run (v w)"
  shows "simR v s0 r w'"
proof -
  have "protocol\<^sup>*\<^sup>* s0 (v w)" using assms(1) by (simp add: simR_def)
  then have "protocol\<^sup>*\<^sup>* s0 t" using assms(3) by (rule rtranclp.rtrancl_into_rtrancl)
  then show ?thesis using assms(1,2,4) by (auto simp: simR_def)
qed

lemma safeR_act:
  assumes "maybe v f c" "\<And>w x w'. c w = (Inr x, w') \<Longrightarrow> Q x r"
    and "\<And>w. simR v s0 r w \<Longrightarrow> f (v w) = v w \<or> protocol (v w) (f (v w)) \<and> as_run (f (v w)) = as_run (v w)"
  shows "safeR v s0 r (onW c) Q"
proof -
  have k: "simR v s0 r w'" if j: "simR v s0 r w" and c: "c w = (x, w')" for w x w'
  proof (cases "v w' = v w")
    case True
    then show ?thesis using j by (simp add: simR_def)
  next
    case False
    then have f: "v w' = f (v w)" "f (v w) \<noteq> v w" using maybeD[OF assms(1) c] by auto
    then show ?thesis using simR_act[OF j disjI2[OF f(1)]] assms(3)[OF j] by simp
  qed
  show ?thesis
  proof (rule safeAtI)
    fix w y r' w' assume j: "simR v s0 r w" "onW c (r, w) = (Inr y, (r', w'))"
    then have "c w = (Inr y, w')" "r' = r" by simp_all
    then show "simR v s0 r' w' \<and> Q y r'" using k[OF j(1)] assms(2) by blast
  next
    fix w e r' w' assume j: "simR v s0 r w" "onW c (r, w) = (Inl e, (r', w'))"
    then have "c w = (Inl e, w')" by simp
    from k[OF j(1) this] show "failR v s0 w'" by (simp add: simR_def failR_def)
  qed
qed

lemma safeR_wake:
  assumes "restoreLaws v api" "rt_ResumedAt (rr_status r) \<noteq> None" "\<And>w x w'. c w = (Inr x, w') \<Longrightarrow> Q x r" "wakes v c"
  shows "safeR v s0 r (onW c) Q"
proof (rule safeR_act)
  show "maybe v (\<lambda>s. s\<lparr>as_woken := True\<rparr>) c" using assms(4) by (simp add: wakes_def)
  show "Q x r" if "c w = (Inr x, w')" for w x w' by (rule assms(3)[OF that])
  fix w assume "simR v s0 r w"
  then have "ar_resumed (as_run (v w))" using assms(2) by (simp add: simR_def quiet_def)
  then show "(v w)\<lparr>as_woken := True\<rparr> = v w \<or>
      protocol (v w) ((v w)\<lparr>as_woken := True\<rparr>) \<and> as_run ((v w)\<lparr>as_woken := True\<rparr>) = as_run (v w)"
    by (simp add: pWake)
qed

lemma safeR_delete:
  assumes "restoreLaws v api" "it \<in> set (rt_Items (rr_status r))" "ri_Phase it = ItemDeleted" "ri_Name it = n" "ri_ClusterUID it = u" "Q () r"
  shows "safeR v s0 r (onW (deleteClusterWithUID api ns n u)) Q"
proof (rule safeR_act[OF maybe_deleteCluster[OF assms(1)]])
  fix w assume "simR v s0 r w"
  then have q: "quiet (as_run (v w)) (absRun r)" by (simp add: simR_def)
  have "absItem it \<in> set (ar_items (absRun r))" using assms(2) by simp
  from quiet_recorded[OF q this] obtain i where "i \<in> set (ar_items (as_run (v w)))" "ai_name i = n" "ai_stage i = ItemDeleted" "ai_uid i = u"
    using assms(3-5) by (auto simp: recItem_def)
  then have "protocol (v w) ((v w)\<lparr>as_deletes := insert (n, u) (as_deletes (v w))\<rparr>)" using pDelete[of i "v w"] by simp
  then show "(v w)\<lparr>as_deletes := insert (n, u) (as_deletes (v w))\<rparr> = v w \<or>
      protocol (v w) ((v w)\<lparr>as_deletes := insert (n, u) (as_deletes (v w))\<rparr>) \<and>
      as_run ((v w)\<lparr>as_deletes := insert (n, u) (as_deletes (v w))\<rparr>) = as_run (v w)" by simp
qed (simp add: assms(6))

lemma safeR_job:
  assumes "restoreLaws v api" "it \<in> set (rt_Items (rr_status r))" "ri_Job it \<noteq> []" "\<And>w x w'. Q x r"
  shows "safeR v s0 r (onW (attempt (ra_createJob api (jobFor api run it sec ctx)))) Q"
proof (rule safeR_act)
  let ?j = "jobFor api run it sec ctx"
  show "maybe v (jobTrace ?j) (attempt (ra_createJob api ?j))"
    using assms(1) by (intro maybe_attempt) (simp add: restoreLaws_def)
  fix w assume "simR v s0 r w"
  then have q: "quiet (as_run (v w)) (absRun r)" by (simp add: simR_def)
  have "absItem it \<in> set (ar_items (absRun r))" using assms(2) by simp
  from quiet_recorded[OF q this] obtain i where "i \<in> set (ar_items (as_run (v w)))" "ai_name i = ri_Name it" "ai_job i = ri_Job it" "ai_snap i = ri_SnapshotID it"
    using assms(3) by (auto simp: recItem_def)
  then have p: "protocol (v w) ((v w)\<lparr>as_jobs := insert (ri_Job it, ri_Name it, ri_SnapshotID it) (as_jobs (v w))\<rparr>)"
    using pJob[of i "v w"] assms(3) by simp
  show "jobTrace ?j (v w) = v w \<or> protocol (v w) (jobTrace ?j (v w)) \<and> as_run (jobTrace ?j (v w)) = as_run (v w)"
  proof (cases "ri_SnapshotID it = ''--target''")
    case True
    then have "writes ?j = None" by (simp add: jobFor_def writes_def New_def resticContainer_def Let_def)
    then show ?thesis by (simp add: jobTrace_def)
  next
    case False
    then have "writes ?j = Some (ri_Name it, ri_SnapshotID it, m_name (se_meta sec))" by (simp add: jobFor_def writes_New)
    moreover have "m_name (jb_meta ?j) = ri_Job it" by (simp add: jobFor_def)
    ultimately show ?thesis using p by (simp add: jobTrace_def)
  qed
qed (simp add: assms(4))

text \<open>Calls that leave the abstract system alone, with nothing to remember of their results.\<close>

lemma safeR_read:
  assumes "keeps v c" "\<And>x. safeR v s0 r (f x) Q"
  shows "safeR v s0 r (bindM (onW c) f) Q"
  by (rule restorePass.safe_bind_onW[where v = v, OF assms(1)]) (rule assms(2))

lemma safeR_tried:
  assumes "keeps v c" "\<And>x. safeR v s0 r (f x) Q"
  shows "safeR v s0 r (bindM (attempt (onW c)) f) Q"
  by (rule restorePass.safe_bind_attempt[where v = v, OF assms(1)]) (rule assms(2))

lemma safeR_do:
  assumes "keeps v c" "safeR v s0 r d Q"
  shows "safeR v s0 r (thenM (onW c) d) Q"
  by (rule restorePass.safe_then_onW[where v = v, OF assms])

lemma safeR_nowR:
  assumes "\<And>x. safeR v s0 r (f x) Q"
  shows "safeR v s0 r (bindM (nowR api) f) Q"
  unfolding nowR_def by (rule safeR_read[OF keeps_clock assms])

lemma safeR_failM: "safeR v s0 r (failM e) Q"
  by (rule restorePass.safe_failM)

lemma safeR_ready:
  assumes "\<And>conds. safeR v s0 (r\<lparr>rr_status := (rr_status r)\<lparr>rt_Conditions := conds\<rparr>\<rparr>) d Q"
  shows "safeR v s0 r (thenM (setReadyR api b reason message) d) Q"
  unfolding setReadyR_def
proof (rule safeR_same)
  show "absRun (r\<lparr>rr_status := (rr_status r)\<lparr>rt_Conditions := conds\<rparr>\<rparr>) = absRun r" for conds
    by (rule absRun_cong) simp_all
qed (rule assms)

end
