(* ===== verification/Restore_Ends.thy ===== *)
theory Restore_Ends
  imports Restore_Safe
begin

text \<open>
  Resuming the app, releasing what a run holds, ending it, aborting it and letting a deleted one go are
  safe. Each lemma says what the operation needs of the run in memory and what it leaves of it.
\<close>

section \<open>Changes of the run\<close>

definition kept :: "restoreRun \<Rightarrow> restoreRun \<Rightarrow> bool" where
  "kept r r' = (rt_Items (rr_status r') = rt_Items (rr_status r) \<and> rt_Phase (rr_status r') = rt_Phase (rr_status r) \<and>
     m_deletion (rr_meta r') = m_deletion (rr_meta r) \<and> rt_SelectedAt (rr_status r') = rt_SelectedAt (rr_status r) \<and>
     rt_PausedAt (rr_status r') = rt_PausedAt (rr_status r))"

lemma kept_refl [simp]: "kept r r"
  by (simp add: kept_def)

lemma kept_trans: "kept r s \<Longrightarrow> kept s t \<Longrightarrow> kept r t"
  by (simp add: kept_def)

lemma kept_setRV [simp]: "kept r (setRV rv s) = kept r s"
  by (simp add: kept_def setRV_def)

lemma status_setRV [simp]: "rr_status (setRV rv r) = rr_status r"
  by (simp add: setRV_def)

lemma meta_setRV [simp]: "m_deletion (rr_meta (setRV rv r)) = m_deletion (rr_meta r)"
  by (simp add: setRV_def)

lemma absRun_changes:
  "absRun (r\<lparr>rr_status := (rr_status r)\<lparr>rt_ResumedAt := Some t\<rparr>\<rparr>) = (absRun r)\<lparr>ar_resumed := True\<rparr>"
  "absRun (r\<lparr>rr_status := (rr_status r)\<lparr>rt_Paused := ws\<rparr>\<rparr>) = (absRun r)\<lparr>ar_up := resumedAll ws\<rparr>"
  "absRun (r\<lparr>rr_status := (rr_status r)\<lparr>rt_Phase := ph\<rparr>\<rparr>) = (absRun r)\<lparr>ar_phase := ph\<rparr>"
  by (simp_all add: absRun_def Let_def)

lemma absRun_meta: "m_deletion m = m_deletion (rr_meta r) \<Longrightarrow> absRun (r\<lparr>rr_meta := m\<rparr>) = absRun r"
  by (rule absRun_cong) simp_all

lemma runMove_changes:
  assumes "\<not> Finished (ar_phase a)"
  shows "runMove a (a\<lparr>ar_resumed := True\<rparr>)" "runMove a (a\<lparr>ar_up := b\<rparr>)" "p \<noteq> RunPhaseNone \<Longrightarrow> runMove a (a\<lparr>ar_phase := p\<rparr>)"
  using assms by (simp_all add: runMove_def)

lemma runOk_resumed:
  "runOk a \<Longrightarrow> ar_paused a \<Longrightarrow> ar_ending a \<or> list_all (\<lambda>i. ai_stage i \<noteq> ItemPending \<and> ai_stage i \<noteq> ItemRunning) (ar_items a) \<Longrightarrow>
     runOk (a\<lparr>ar_resumed := True\<rparr>)"
  by (auto simp: runOk_def)

lemma quiet_up: "runOk a \<Longrightarrow> ar_paused a \<Longrightarrow> \<not> Finished (ar_phase a) \<Longrightarrow> quiet a (a\<lparr>ar_up := b\<rparr>)"
  by (auto simp: quiet_def runMove_changes runOk_def list_all2_refl Finished_def)

lemma quiet_running: "runOk a \<Longrightarrow> \<not> Finished (ar_phase a) \<Longrightarrow> quiet a (a\<lparr>ar_phase := RunPhaseRunning\<rparr>)"
  by (simp add: quiet_def runMove_changes runOk_def list_all2_refl Finished_def)

section \<open>Resuming and releasing\<close>

lemma safeR_resume:
  assumes laws: "restoreLaws v api" and live: "\<not> Finished (rt_Phase (rr_status r))" and paused: "rt_PausedAt (rr_status r) \<noteq> None"
    and rest: "m_deletion (rr_meta r) \<noteq> None \<or> list_all (\<lambda>i. ri_Phase i \<noteq> ItemPending \<and> ri_Phase i \<noteq> ItemRunning) (rt_Items (rr_status r))"
  shows "safeR v s0 r (resumeRestore api) (\<lambda>_ r'. kept r r' \<and> resumedAll (rt_Paused (rr_status r')))"
proof (rule safeR_ok)
  assume ok: "runOk (absRun r)"
  have patch: "safeR v s0 s (bindM getS (\<lambda>run.
     bindM (onW (resumeWorkloads (ra_pause api) (m_namespace (rr_meta run)) (rt_Paused (rr_status run)) (rt_SuspendedKustomizations (rr_status run)))) (\<lambda>(paused, e).
     thenM (modRestore (\<lambda>st. st\<lparr>rt_Paused := paused\<rparr>))
       (case e of Some err \<Rightarrow> failM err | None \<Rightarrow> ret ())))) (\<lambda>_ r'. kept r r' \<and> resumedAll (rt_Paused (rr_status r')))"
    if s: "kept r s" "rt_ResumedAt (rr_status s) \<noteq> None" for s
  proof (rule safeAt_bind_getS, rule safeAt_bindM[where R = "\<lambda>x r'. r' = s \<and> (snd x = None \<longrightarrow> resumedAll (fst x))"])
    show "safeR v s0 s (onW (resumeWorkloads (ra_pause api) (m_namespace (rr_meta s)) (rt_Paused (rr_status s)) (rt_SuspendedKustomizations (rr_status s))))
       (\<lambda>x r'. r' = s \<and> (snd x = None \<longrightarrow> resumedAll (fst x)))"
    proof (rule safeR_wake[OF laws s(2)])
      show "wakes v (resumeWorkloads (ra_pause api) (m_namespace (rr_meta s)) (rt_Paused (rr_status s)) (rt_SuspendedKustomizations (rr_status s)))"
        using laws by (simp add: wakes_resumeWorkloads restoreLaws_def)
    next
      fix w x w' assume "resumeWorkloads (ra_pause api) (m_namespace (rr_meta s)) (rt_Paused (rr_status s)) (rt_SuspendedKustomizations (rr_status s)) w = (Inr x, w')"
      then show "s = s \<and> (snd x = None \<longrightarrow> resumedAll (fst x))"
        by (cases x) (auto simp: resumedAll_def dest: resumeWorkloads_all)
    qed
  next
    fix x :: "pausedWorkload list \<times> gerr option" and r'
    assume x: "r' = s \<and> (snd x = None \<longrightarrow> resumedAll (fst x))"
    let ?d = "\<lambda>ws e. thenM (modRestore (\<lambda>st. st\<lparr>rt_Paused := ws\<rparr>)) (case e of Some err \<Rightarrow> failM err | None \<Rightarrow> ret ())"
    have "safeR v s0 s (?d ws e) (\<lambda>_ r'. kept r r' \<and> resumedAll (rt_Paused (rr_status r')))" if "e = None \<longrightarrow> resumedAll ws" for ws e
      unfolding modRestore_def
    proof (rule safeR_ok, rule safeR_mod)
      assume "runOk (absRun s)"
      then show "quiet (absRun s) (absRun (s\<lparr>rr_status := (rr_status s)\<lparr>rt_Paused := ws\<rparr>\<rparr>))"
        unfolding absRun_changes using s(1) live paused by (intro quiet_up) (simp_all add: kept_def)
      show "safeR v s0 (s\<lparr>rr_status := (rr_status s)\<lparr>rt_Paused := ws\<rparr>\<rparr>) (case e of Some err \<Rightarrow> failM err | None \<Rightarrow> ret ())
         (\<lambda>_ r'. kept r r' \<and> resumedAll (rt_Paused (rr_status r')))"
        using s(1) that by (cases e) (simp_all add: safeR_failM safeAt_ret kept_def)
    qed
    then show "safeR v s0 r' (case x of (ws, e) \<Rightarrow> ?d ws e) (\<lambda>_ r'. kept r r' \<and> resumedAll (rt_Paused (rr_status r')))"
      using x by (cases x) simp
  qed
  show ?thesis unfolding resumeRestore_def
  proof (rule safeAt_bind_getS, rule safeAt_thenM[where R = "\<lambda>s. kept r s \<and> rt_ResumedAt (rr_status s) \<noteq> None"])
    show "safeR v s0 r (if rt_ResumedAt (rr_status r) = None
        then bindM (nowR api) (\<lambda>now. thenM (modRestore (\<lambda>st. st\<lparr>rt_ResumedAt := Some (rfc3339Copy now)\<rparr>)) (writeRestore api)) else ret ())
      (\<lambda>_ s. kept r s \<and> rt_ResumedAt (rr_status s) \<noteq> None)"
    proof (rule safeAt_if)
      show "safeR v s0 r (bindM (nowR api) (\<lambda>now. thenM (modRestore (\<lambda>st. st\<lparr>rt_ResumedAt := Some (rfc3339Copy now)\<rparr>)) (writeRestore api)))
        (\<lambda>_ s. kept r s \<and> rt_ResumedAt (rr_status s) \<noteq> None)"
        unfolding modRestore_def
      proof (rule safeR_nowR, rule safeR_modwrite[OF laws]; (unfold absRun_changes)?)
        show "runMove (absRun r) ((absRun r)\<lparr>ar_resumed := True\<rparr>)" using live by (simp add: runMove_changes)
        show "runOk ((absRun r)\<lparr>ar_resumed := True\<rparr>)" using rest paused ok by (intro runOk_resumed) (simp_all add: list.pred_map comp_def)
      qed (simp add: kept_def)
    qed (simp add: safeAt_ret)
  qed (rule patch; blast)
qed

lemma restoreDone_idle: "restoreDone items \<Longrightarrow> list_all (\<lambda>i. ri_Phase i \<noteq> ItemPending \<and> ri_Phase i \<noteq> ItemRunning) items"
  unfolding restoreDone_def by (erule list.pred_mono_strong) auto

lemma safeR_release:
  assumes laws: "restoreLaws v api" and rest: "m_deletion (rr_meta r) \<noteq> None \<or> restoreDone (rt_Items (rr_status r))"
  shows "safeR v s0 r (releaseRestore api) (\<lambda>_ r'. kept r r' \<and> ar_up (absRun r'))"
proof (rule safeR_ok)
  assume ok: "runOk (absRun r)"
  have lv: "leasesKeep v (ra_leases api)" by (rule other_keeps(8)[OF laws])
  show ?thesis unfolding releaseRestore_def
  proof (rule safeAt_bind_getS, rule safeR_do[OF keeps_releaseLoops(1)[OF laws]], rule safeR_do[OF keeps_releaseLoops(2)[OF laws]],
      rule safeAt_thenM[where R = "\<lambda>s. kept r s \<and> ar_up (absRun s)"])
    show "safeR v s0 r (if pausedRun r \<and> \<not> resumedAll (rt_Paused (rr_status r)) then resumeRestore api else ret ()) (\<lambda>_ s. kept r s \<and> ar_up (absRun s))"
    proof (rule safeAt_if)
      assume p: "pausedRun r \<and> \<not> resumedAll (rt_Paused (rr_status r))"
      then have "\<not> Finished (rt_Phase (rr_status r))" using ok by (auto simp: runOk_def)
      then show "safeR v s0 r (resumeRestore api) (\<lambda>_ s. kept r s \<and> ar_up (absRun s))"
        unfolding absRun_simps using p rest restoreDone_idle by (intro safeR_resume laws) (auto simp: pausedRun_def)
    next
      assume "\<not> (pausedRun r \<and> \<not> resumedAll (rt_Paused (rr_status r)))"
      then have "ar_up (absRun r)" using ok by (auto simp: runOk_def pausedRun_def)
      then show "safeR v s0 r (ret ()) (\<lambda>_ s. kept r s \<and> ar_up (absRun s))" by (simp add: safeAt_ret)
    qed
    fix s assume s: "kept r s \<and> ar_up (absRun s)"
    show "safeR v s0 s (bindM getS (\<lambda>run.
       thenM (onW (releaseAll (ra_leases api) (m_namespace (rr_meta run)) (restoreHolder run) (rt_Leases (rr_status run))))
         (onW (admissionDelete (ra_deleteWorkload api) (m_namespace (rr_meta run)) restoreRunKind (m_uid (rr_meta run))))))
       (\<lambda>_ r'. kept r r' \<and> ar_up (absRun r'))"
      by (rule safeAt_bind_getS, rule safeR_do[OF keeps_releaseAll[OF lv]], rule restorePass.safe_onW[OF keeps_admission(4)])
        (use s in \<open>simp_all add: other_keeps[OF laws]\<close>)
  qed
qed

section \<open>Ending\<close>

lemma safeR_dropFinalizer:
  assumes laws: "restoreLaws v api"
  shows "safeR v s0 r (dropFinalizerR api) anyR"
  unfolding dropFinalizerR_def onW_wrapM[symmetric]
proof (rule safeAt_bind_getS, rule safeAt_if)
  show "safeR v s0 r (thenM (modS (\<lambda>r. r\<lparr>rr_meta := (rr_meta r)\<lparr>m_finalizers := filter (\<lambda>f. f \<noteq> Finalizer) (m_finalizers (rr_meta r))\<rparr>\<rparr>))
     (bindM getS (\<lambda>r. bindM (onW (wrapM (''remove the finalizer from '' @ m_name (rr_meta r) @ '': '') (ra_update api r)))
        (\<lambda>rv. modS (\<lambda>r. r\<lparr>rr_meta := (rr_meta r)\<lparr>m_resourceVersion := rv\<rparr>\<rparr>))))) anyR"
    by (rule safeR_same[OF absRun_meta], simp, rule safeAt_bind_getS, rule safeR_read[OF keeps_wrapM[OF other_keeps(1)[OF laws]]],
        rule safeR_sameS[OF absRun_meta]) simp_all
qed (simp add: safeAt_ret)

lemma quiet_finished:
  assumes "runOk a" "\<not> Finished (ar_phase a)" "list_all (\<lambda>i. ended (ai_stage i)) (ar_items a)" "ar_up a"
    and "p = RunPhaseFailed \<or> p = RunPhaseSucceeded \<and> list_all (\<lambda>i. ai_stage i \<noteq> ItemFailed) (ar_items a)"
  shows "quiet a (a\<lparr>ar_phase := p\<rparr>)"
  using assms by (auto simp: quiet_def runMove_changes runOk_def list_all2_refl Finished_def)

lemma safeR_finish:
  assumes laws: "restoreLaws v api" and live: "\<not> Finished (rt_Phase (rr_status r))" and over: "restoreDone (rt_Items (rr_status r))"
    and ok: "reason = ReasonSucceeded \<Longrightarrow> list_all (\<lambda>i. ri_Phase i \<noteq> ItemFailed) (rt_Items (rr_status r))"
  shows "safeR v s0 r (finishRestore api reason message) anyR"
  unfolding finishRestore_def
proof (rule safeAt_thenM[OF safeR_release[OF laws]])
  fix s assume s: "kept r s \<and> ar_up (absRun s)"
  show "safeR v s0 s (bindM (nowR api) (\<lambda>now.
     thenM (modRestore (\<lambda>st. st\<lparr>rt_Phase := (if reason \<noteq> ReasonSucceeded then RunPhaseFailed else RunPhaseSucceeded),
                              rt_CompletedAt := Some now, rt_Workload := []\<rparr>)) (
     thenM (setReadyR api CondTrue reason message) (
     thenM (writeRestore api)
       (dropFinalizerR api))))) anyR"
    unfolding modRestore_def
  proof (rule safeR_nowR, rule safeR_ok, rule safeR_mod)
    fix now
    assume o: "runOk (absRun s)"
    let ?p = "if reason \<noteq> ReasonSucceeded then RunPhaseFailed else RunPhaseSucceeded"
    have a: "absRun (s\<lparr>rr_status := (rr_status s)\<lparr>rt_Phase := ?p, rt_CompletedAt := Some now, rt_Workload := []\<rparr>\<rparr>) = (absRun s)\<lparr>ar_phase := ?p\<rparr>"
      by (simp add: absRun_def Let_def)
    show "quiet (absRun s) (absRun (s\<lparr>rr_status := (rr_status s)\<lparr>rt_Phase := ?p, rt_CompletedAt := Some now, rt_Workload := []\<rparr>\<rparr>))"
      unfolding a
    proof (rule quiet_finished[OF o])
      show "list_all (\<lambda>i. ended (ai_stage i)) (ar_items (absRun s))"
        using s over by (simp add: kept_def restoreDone_def ended_def list.pred_map comp_def)
    qed (use s live ok in \<open>auto simp: kept_def list.pred_map comp_def\<close>)
  next
    fix now
    show "safeR v s0 (s\<lparr>rr_status := (rr_status s)\<lparr>rt_Phase := if reason \<noteq> ReasonSucceeded then RunPhaseFailed else RunPhaseSucceeded,
        rt_CompletedAt := Some now, rt_Workload := []\<rparr>\<rparr>) (thenM (setReadyR api CondTrue reason message) (thenM (writeRestore api) (dropFinalizerR api))) anyR"
      by (rule safeR_ready, rule safeR_write_then[OF laws], rule safeR_dropFinalizer[OF laws])
  qed
qed (use over in simp)

text \<open>Failing the items that have not ended ends them all.\<close>

lemma failOpen_simps [simp]:
  "ri_Kind (failOpen m i) = ri_Kind i" "ri_Name (failOpen m i) = ri_Name i" "ri_Job (failOpen m i) = ri_Job i"
  "ri_SnapshotID (failOpen m i) = ri_SnapshotID i" "ri_ClusterUID (failOpen m i) = ri_ClusterUID i"
  by (simp_all add: failOpen_def failRestore_def)

lemma failOpen_ended: "ended (ri_Phase (failOpen m i))"
  by (cases "ri_Phase i") (simp_all add: failOpen_def failRestore_def ended_def)

lemma failOpen_stage: "ri_Phase (failOpen m i) = ri_Phase i \<or> ri_Phase (failOpen m i) = ItemFailed \<and> \<not> ended (ri_Phase i)"
  by (cases "ri_Phase i") (simp_all add: failOpen_def failRestore_def ended_def)

lemma follows_Failed: "\<not> ended p \<Longrightarrow> follows p ItemFailed"
  by (cases p) (simp_all add: ended_def)

lemma failOpen_move: "itemMove (absItem i) (absItem (failOpen m i))"
  using failOpen_stage[of m i] by (auto simp: itemMove_def intro: follows_Failed)

lemma failOpen_ok: "itemOk (absItem i) \<Longrightarrow> itemOk (absItem (failOpen m i))"
  using failOpen_stage[of m i] by (auto simp: itemOk_def)

lemma failOpen_rec: "recItem (absItem i) (absItem (failOpen m i))"
  using failOpen_stage[of m i] by (auto simp: recItem_def)

lemma quiet_failOpen:
  assumes "runOk (absRun r)" "\<not> Finished (rt_Phase (rr_status r))"
  shows "quiet (absRun r) ((absRun r)\<lparr>ar_items := map (\<lambda>i. absItem (failOpen m i)) (rt_Items (rr_status r))\<rparr>)" (is "quiet ?a ?b")
proof -
  have e: "ended (ri_Phase (failOpen m i))" "ri_Phase (failOpen m i) \<noteq> ItemPending" "ri_Phase (failOpen m i) \<noteq> ItemRunning"
    "ri_Phase (failOpen m i) \<noteq> ItemDeleted" "ri_Phase (failOpen m i) \<noteq> ItemRecovering" for i
    using failOpen_ended[of m i] by (auto simp: ended_def)
  have s: "ri_Phase (failOpen m i) \<in> {ItemPending, ItemSkipped, ItemFailed}" if "ri_Phase i \<in> {ItemPending, ItemSkipped, ItemFailed}" for i
    using that failOpen_stage[of m i] by auto
  have "runOk ?b"
    using assms failOpen_ok s unfolding runOk_def by (auto simp: list_all_iff list_ex_iff e Finished_def)
  moreover have "runMove ?a ?b" using assms(2) by (simp add: runMove_def list.rel_map list_all2_same failOpen_move)
  ultimately show ?thesis by (simp add: quiet_def list.rel_map list_all2_same failOpen_rec)
qed

lemma safeR_abort:
  assumes laws: "restoreLaws v api" and live: "\<not> Finished (rt_Phase (rr_status r))" and r: "reason \<noteq> ReasonSucceeded"
  shows "safeR v s0 r (abortRestore api reason message) anyR"
  unfolding abortRestore_def modRestore_def
proof (rule safeR_ok, rule safeR_mod)
  let ?g = "r\<lparr>rr_status := (rr_status r)\<lparr>rt_Items := map (failOpen message) (rt_Items (rr_status r))\<rparr>\<rparr>"
  assume ok: "runOk (absRun r)"
  have a: "absRun ?g = (absRun r)\<lparr>ar_items := map (\<lambda>i. absItem (failOpen message i)) (rt_Items (rr_status r))\<rparr>"
    by (simp add: absRun_def Let_def)
  show "quiet (absRun r) (absRun ?g)" unfolding a by (rule quiet_failOpen[OF ok live])
  have "restoreDone (map (failOpen message) (rt_Items (rr_status r)))"
    using failOpen_ended[of message] by (simp add: restoreDone_def list_all_iff ended_def)
  then show "safeR v s0 ?g (finishRestore api reason message) anyR"
    using live r by (intro safeR_finish[OF laws]) simp_all
qed

lemma safeR_finalize:
  assumes laws: "restoreLaws v api" and ending: "m_deletion (rr_meta r) \<noteq> None"
  shows "safeR v s0 r (finalizeRestore api) anyR"
  unfolding finalizeRestore_def
proof (rule safeAt_bind_getS, rule safeAt_if)
  show "safeR v s0 r (thenM (releaseRestore api) (bindM getS (\<lambda>run. thenM (if pausedRun run then writeRestore api else ret ()) (dropFinalizerR api)))) anyR"
  proof (rule safeAt_thenM[OF safeR_release[OF laws]], goal_cases)
    case (2 s)
    show ?case
    proof (rule safeAt_bind_getS, rule safeAt_thenM[where R = "\<lambda>_. True"])
      show "safeR v s0 s (if pausedRun s then writeRestore api else ret ()) (\<lambda>_ _. True)"
        by (rule safeAt_if) (simp_all add: safeR_write[OF laws] safeAt_ret)
    qed (rule safeR_dropFinalizer[OF laws])
  qed (use ending in simp)
qed (simp add: safeAt_ret)

end
