(* ===== verification/Restore_Starts.thy ===== *)
theory Restore_Starts
  imports Restore_Ends
begin

text \<open>
  The first stages of a RestoreRun are safe: planning its items, its admission, its Leases, the selection of
  the backups and the pause.
\<close>

section \<open>Planning\<close>

lemma restoreItems_fresh:
  assumes "restoreItems api run w = (Inr items, w')"
  shows "list_all freshItem (map absItem items)"
proof -
  have p: "freshItem (absItem (pendingRestore k n))" for k n
    by (simp add: freshItem_def pendingRestore_def restoreItem0_def)
  have c: "freshItem (absItem (clusterItem c))" for c
    by (simp add: freshItem_def clusterItem_def pendingRestore_def restoreItem0_def Let_def)
  show ?thesis using assms unfolding restoreItems_def Let_def
    by (auto simp: bindM_Inr_iff failM_def list.pred_map comp_def list_all_iff p c split: if_splits)
qed

lemma planned:
  assumes "simR v s0 r w" "rt_Phase (rr_status r) = RunPhaseNone" "list_all freshItem items"
    and "absRun r' = (absRun r)\<lparr>ar_phase := RunPhaseQueued, ar_items := items\<rparr>"
  shows "protocol\<^sup>*\<^sup>* (v w) ((v w)\<lparr>as_run := absRun r'\<rparr>)"
proof -
  let ?a = "as_run (v w)"
  have m: "runMove ?a (absRun r)" using assms(1) by (simp add: simR_def quiet_def)
  have ok: "runOk (absRun r)" by (rule simR_ok[OF assms(1)])
  have n: "ar_phase ?a = RunPhaseNone" using m assms(2) by (auto simp: runMove_def)
  have k: "runOk ((absRun r)\<lparr>ar_phase := RunPhaseQueued, ar_items := items\<rparr>)"
    using ok assms(2,3) by (intro runOk_plan) simp_all
  let ?s1 = "(v w)\<lparr>as_run := ?a\<lparr>ar_phase := RunPhaseQueued, ar_items := items\<rparr>\<rparr>"
  have "protocol (v w) ?s1" by (rule pPlan[OF n assms(3)])
  moreover have "protocol ?s1 (?s1\<lparr>as_run := absRun r'\<rparr>)"
  proof (rule pWrite)
    show "runMove (as_run ?s1) (absRun r')" using m by (simp add: runMove_def assms(4) Finished_def)
  qed (simp add: k assms(4))
  ultimately show ?thesis by simp
qed

lemma safeR_plan:
  assumes laws: "restoreLaws v api" and new: "rt_Phase (rr_status r) = RunPhaseNone"
  shows "safeR v s0 r (planRestore api) anyR"
proof (rule safeR_ok)
  assume ok: "runOk (absRun r)"
  then have none: "rt_Items (rr_status r) = []" using new by (simp add: runOk_def)
  have inv: "safeR v s0 r (endInvalid api message) anyR" for message
    unfolding endInvalid_def
    by (rule safeAt_thenM[OF safeR_finish[OF laws]]) (simp_all add: new none Finished_def restoreDone_def safeAt_ret)
  have plan: "safeR v s0 r (thenM (modRestore (\<lambda>st. st\<lparr>rt_Items := items, rt_Phase := RunPhaseQueued\<rparr>)) (
             thenM (setReadyR api CondFalse ReasonQueued queuedMessage)
               (afterM second (writeRestore api)))) anyR" if f: "list_all freshItem (map absItem items)" for items
    unfolding modRestore_def setReadyR_def afterM_thenM[symmetric] thenM_modS_modS
  proof (rule safeAt_afterM, rule safeR_store[OF laws], goal_cases)
    case (1 w)
    show ?case by (rule planned[OF 1 new f]) (simp add: absRun_def Let_def)
  next
    case 2
    have "runOk ((absRun r)\<lparr>ar_phase := RunPhaseQueued, ar_items := map absItem items\<rparr>)"
      using ok new f by (intro runOk_plan) simp_all
    then show ?case by (simp add: absRun_def Let_def)
  qed simp
  have items: "safeR v s0 r (bindM (attempt (onW (restoreItems api r))) (\<lambda>x. case x of
       Inl err \<Rightarrow> endInvalid api (errText err)
     | Inr items \<Rightarrow>
         thenM (modRestore (\<lambda>st. st\<lparr>rt_Items := items, rt_Phase := RunPhaseQueued\<rparr>)) (
         thenM (setReadyR api CondFalse ReasonQueued queuedMessage)
           (afterM second (writeRestore api))))) anyR"
    unfolding attempt_onW
  proof (rule restorePass.safe_bind_onW[where v = v, OF keeps_attempt[OF keeps_items[OF laws]]], rule safeAt_sum)
    fix w x w' items assume "attempt (restoreItems api r) w = (Inr x, w')" "x = Inr items"
    then have "restoreItems api r w = (Inr items, w')" by (simp add: attempt_def split: prod.splits)
    from plan[OF restoreItems_fresh[OF this]]
    show "safeR v s0 r (thenM (modRestore (\<lambda>st. st\<lparr>rt_Items := items, rt_Phase := RunPhaseQueued\<rparr>)) (
         thenM (setReadyR api CondFalse ReasonQueued queuedMessage) (afterM second (writeRestore api)))) anyR" .
  qed (rule inv)
  have pl: "pauseLaws v (ra_pause api)" using laws by (simp add: restoreLaws_def)
  show ?thesis unfolding planRestore_def
    by (intro safeAt_bind_getS safeAt_sum safeAt_if safeR_tried keeps_namedTargets[OF pl] inv items safeR_failM)
qed

section \<open>Waiting and admission\<close>

lemma safeR_waitFor:
  assumes laws: "restoreLaws v api" and live: "\<not> Finished (rt_Phase (rr_status r))"
  shows "safeR v s0 r (waitForR api reason message) anyR"
  unfolding waitForR_def modRestore_def
proof (rule safeR_ok, rule safeR_mod)
  let ?g = "r\<lparr>rr_status := (if rt_StartedAt (rr_status r) \<noteq> None then (rr_status r)\<lparr>rt_Phase := RunPhaseRunning\<rparr> else rr_status r)\<rparr>"
  assume ok: "runOk (absRun r)"
  show "quiet (absRun r) (absRun ?g)"
  proof (cases "rt_StartedAt (rr_status r) \<noteq> None")
    case True
    then show ?thesis using quiet_running[OF ok] live by (simp add: absRun_changes)
  next
    case False
    then show ?thesis using quiet_refl[OF ok] by simp
  qed
  show "safeR v s0 ?g (thenM (setReadyR api CondFalse reason message) (writeRestore api)) anyR"
    by (rule safeR_ready, rule safeR_write[OF laws]) simp
qed

lemma safeR_queue:
  assumes "\<And>s x. kept r s \<Longrightarrow> safeR v s0 s (f x) Q"
  shows "safeR v s0 r (bindM (queueR api message) f) Q"
proof (rule safeAt_bindM[where R = "\<lambda>_ s. kept r s"])
  show "safeR v s0 r (queueR api message) (\<lambda>_ s. kept r s)"
    unfolding queueR_def modRestore_def
    by (intro safeAt_bind_getS safeAt_prod, rule safeR_same, rule absRun_cong) (simp_all add: safeAt_ret kept_def)
qed (rule assms)

lemma safeR_admitted:
  assumes laws: "restoreLaws v api" and live: "\<not> Finished (rt_Phase (rr_status r))"
  shows "safeR v s0 r (admittedR api workload) anyR"
  unfolding admittedR_def modRestore_def
proof (rule safeAt_if)
  let ?run = "\<lambda>now. r\<lparr>rr_status := (rr_status r)\<lparr>rt_Phase := RunPhaseRunning, rt_StartedAt := Some now\<rparr>\<rparr>"
  have a: "absRun (?run now) = (absRun r)\<lparr>ar_phase := RunPhaseRunning\<rparr>" for now by (simp add: absRun_def Let_def)
  show "safeR v s0 r (thenM (onW (MarkPodsReady (ra_setCond api) (ra_updateWorkload api) workload)) (
      bindM (nowR api) (\<lambda>now.
      thenM (modS (\<lambda>run. run\<lparr>rr_status := (rr_status run)\<lparr>rt_Phase := RunPhaseRunning, rt_StartedAt := Some now\<rparr>\<rparr>)) (
      thenM (setReadyR api CondFalse ReasonRunning ''selecting the backups to restore'')
        (afterM second (writeRestore api)))))) anyR"
  proof (rule safeR_do[OF keeps_admission(5)[OF other_keeps(6)[OF laws]]], rule safeR_nowR, rule safeR_ok, rule safeR_mod)
    show "quiet (absRun r) (absRun (?run now))" if "runOk (absRun r)" for now
      unfolding a using quiet_running[OF that] live by simp
    show "safeR v s0 (?run now) (thenM (setReadyR api CondFalse ReasonRunning ''selecting the backups to restore'')
        (afterM second (writeRestore api))) anyR" for now
      by (rule safeR_ready, rule safeAt_afterM, rule safeR_write[OF laws]) simp
  qed
qed (simp add: safeAt_ret)

lemma safeR_admit:
  assumes laws: "restoreLaws v api" and live: "\<not> Finished (rt_Phase (rr_status r))"
  shows "safeR v s0 r (admitRestore api) anyR"
proof -
  have adm: "safeR v s0 s (admittedR api workload) anyR" if "kept r s" for s workload
    using that live by (intro safeR_admitted[OF laws]) (simp add: kept_def)
  have store: "safeR v s0 s (thenM (if b then thenM (modRestore (\<lambda>st. st\<lparr>rt_Workload := n\<rparr>)) (writeRestore api) else ret ()) (admittedR api workload)) anyR"
    if s: "kept r s" for s b n workload
  proof (rule safeAt_thenM[where R = "kept r"])
    show "safeR v s0 s (if b then thenM (modRestore (\<lambda>st. st\<lparr>rt_Workload := n\<rparr>)) (writeRestore api) else ret ()) (\<lambda>_. kept r)"
      unfolding modRestore_def
    proof (rule safeAt_if, rule safeR_same, rule absRun_cong; simp?)
      show "safeR v s0 (s\<lparr>rr_status := (rr_status s)\<lparr>rt_Workload := n\<rparr>\<rparr>) (writeRestore api) (\<lambda>_. kept r)"
        using s by (intro safeR_write[OF laws]) (simp add: kept_def)
    qed (simp add: safeAt_ret s)
  qed (rule adm)
  show ?thesis unfolding admitRestore_def Let_def
  proof (rule safeAt_bind_getS, rule safeR_tried[OF keeps_admission(1)[OF reads_keep(15)[OF laws]]], rule safeAt_sum)
    show "safeR v s0 r (if anyErr isNoQueue1 err then
           bindM (queueR api (asText isNoQueue1 err)) (\<lambda>changed.
             if changed then afterM pollInterval (writeRestore api) else ret (Some pollInterval))
         else failM err) anyR" for err
      by (intro safeAt_if safeR_queue safeAt_afterM safeR_write[OF laws] safeR_failM) (simp_all add: safeAt_ret)
    show "safeR v s0 r (bindM (onW (EnsureWorkload (ra_getWorkload api) (ra_createWorkload api) (m_namespace (rr_meta r))
                       (workloadName restoreRunKind (m_uid (rr_meta r))) queue (m_uid (rr_meta r)))) (\<lambda>workload.
         bindM (queueR api queuedMessage) (\<lambda>queued.
         thenM (if rt_Workload (rr_status r) \<noteq> m_name (kw_meta workload) \<or> queued
                then thenM (modRestore (\<lambda>st. st\<lparr>rt_Workload := m_name (kw_meta workload)\<rparr>)) (writeRestore api) else ret ())
           (admittedR api workload)))) anyR" for queue
      by (rule safeR_read[OF keeps_admission(2)[OF reads_keep(16)[OF laws] other_keeps(5)[OF laws]]], rule safeR_queue, rule store)
  qed
qed

section \<open>Eviction and Leases\<close>

lemma safeR_evicted:
  assumes laws: "restoreLaws v api" and live: "\<not> Finished (rt_Phase (rr_status r))"
  shows "safeR v s0 r (endIfEvictedR api) (\<lambda>ended s. \<not> ended \<longrightarrow> s = r)"
proof -
  have ab: "safeR v s0 r (thenM (abortRestore api ReasonEvicted m) (ret True)) (\<lambda>ended s. \<not> ended \<longrightarrow> s = r)" for m
    by (rule safeAt_thenM[OF safeR_abort[OF laws live]]) (simp_all add: safeAt_ret ReasonEvicted_def ReasonSucceeded_def)
  show ?thesis unfolding endIfEvictedR_def
  proof (rule safeAt_bind_getS, rule safeAt_if)
    show "safeR v s0 r (bindM (attempt (onW (admissionGet (ra_getWorkload api) (m_namespace (rr_meta r)) (rt_Workload (rr_status r))))) (\<lambda>x. case x of
       Inr (Some workload) \<Rightarrow>
         if Evicted workload then thenM (abortRestore api ReasonEvicted ''Kueue evicted the run's Workload'') (ret True) else ret False
     | _ \<Rightarrow> ret False)) (\<lambda>ended s. \<not> ended \<longrightarrow> s = r)"
      by (rule safeR_tried[OF keeps_admission(3)[OF reads_keep(16)[OF laws]]]) (intro safeAt_sum safeAt_option safeAt_if ab; simp add: safeAt_ret)
  qed (simp add: safeAt_ret)
qed

lemma safeR_takeLeases:
  assumes laws: "restoreLaws v api"
  shows "safeR v s0 r (takeLeasesR api names) (\<lambda>_ s. absRun s = absRun r)"
proof -
  have rec1: "safeR v s0 r (thenM (modRestore (\<lambda>st. st\<lparr>rt_Leases := recorded\<rparr>)) (writeRestore api)) (\<lambda>_ s. absRun s = absRun r)" for recorded
  proof -
    have a: "absRun (r\<lparr>rr_status := (rr_status r)\<lparr>rt_Leases := recorded\<rparr>\<rparr>) = absRun r" by (rule absRun_cong) simp_all
    show ?thesis unfolding modRestore_def by (rule safeR_same, rule a, rule safeR_write[OF laws]) (simp add: a)
  qed
  have k: "keeps v (takeLoop (ra_leases api) ns h names)" for ns h by (rule keeps_takeLoop[OF other_keeps(8)[OF laws]])
  show ?thesis unfolding takeLeasesR_def holding_def Let_def onW_takeLoop[symmetric]
  proof (rule safeAt_bind_getS, rule safeAt_bindM[where R = "\<lambda>_ s. absRun s = absRun r"], rule safeAt_thenM[where R = "\<lambda>s. absRun s = absRun r"])
    show "safeR v s0 r (if addNames names (rt_Leases (rr_status r)) \<noteq> rt_Leases (rr_status r)
        then thenM (modRestore (\<lambda>st. st\<lparr>rt_Leases := addNames names (rt_Leases (rr_status r))\<rparr>)) (writeRestore api) else ret ())
      (\<lambda>_ s. absRun s = absRun r)"
      by (rule safeAt_if) (simp_all add: rec1 safeAt_ret)
  next
    fix s assume s: "absRun s = absRun r"
    show "safeR v s0 s (bindM (onW (takeLoop (ra_leases api) (m_namespace (rr_meta r)) (restoreHolder r) names))
        (\<lambda>msg. ret (msg, addNames names (rt_Leases (rr_status r))))) (\<lambda>_ s. absRun s = absRun r)"
      by (rule safeR_read[OF k]) (simp add: safeAt_ret s)
  qed (auto intro!: safeAt_ret)
qed

section \<open>Selecting the backups\<close>

text \<open>What a call returns, when it returns.\<close>

definition yields :: "('a \<Rightarrow> bool) \<Rightarrow> ('w, 'a) call \<Rightarrow> bool" where
  "yields P c = (\<forall>w x w'. c w = (Inr x, w') \<longrightarrow> P x)"

lemma yieldsI: "(\<And>w x w'. c w = (Inr x, w') \<Longrightarrow> P x) \<Longrightarrow> yields P c"
  unfolding yields_def by blast

lemma yieldsD: "yields P c \<Longrightarrow> c w = (Inr x, w') \<Longrightarrow> P x"
  unfolding yields_def by blast

lemma yields_ret: "P x \<Longrightarrow> yields P (ret x)"
  by (rule yieldsI) simp

lemma yields_failM: "yields P (failM e)"
  by (rule yieldsI) (simp add: failM_def)

lemma yields_liftE: "(\<And>x. r = Inr x \<Longrightarrow> P x) \<Longrightarrow> yields P (liftE r)"
  by (rule yieldsI) simp

lemma yields_bind: "(\<And>x. yields P (f x)) \<Longrightarrow> yields P (bindM c f)"
  by (rule yieldsI) (auto simp: bindM_Inr_iff dest: yieldsD)

lemma yields_bind2: "yields R c \<Longrightarrow> (\<And>x. R x \<Longrightarrow> yields P (f x)) \<Longrightarrow> yields P (bindM c f)"
  by (rule yieldsI) (auto simp: bindM_Inr_iff dest: yieldsD)

lemma yields_if: "(b \<Longrightarrow> yields P c) \<Longrightarrow> (\<not> b \<Longrightarrow> yields P d) \<Longrightarrow> yields P (if b then c else d)"
  by simp

lemma yields_sum: "(\<And>e. x = Inl e \<Longrightarrow> yields P (g e)) \<Longrightarrow> (\<And>y. x = Inr y \<Longrightarrow> yields P (h y)) \<Longrightarrow> yields P (case x of Inl e \<Rightarrow> g e | Inr y \<Rightarrow> h y)"
  by (cases x) auto

lemma yields_option: "(x = None \<Longrightarrow> yields P c) \<Longrightarrow> (\<And>y. x = Some y \<Longrightarrow> yields P (h y)) \<Longrightarrow> yields P (case x of None \<Rightarrow> c | Some y \<Rightarrow> h y)"
  by (cases x) auto

lemma yields_prod: "(\<And>a b. x = (a, b) \<Longrightarrow> yields P (h a b)) \<Longrightarrow> yields P (case x of (a, b) \<Rightarrow> h a b)"
  by (cases x) auto

lemma yields_attempt: "yields P c \<Longrightarrow> yields (\<lambda>x. case x of Inl e \<Rightarrow> True | Inr y \<Rightarrow> P y) (attempt c)"
  by (rule yieldsI) (auto simp: attempt_def split: prod.splits sum.splits dest: yieldsD)

lemma stopBy_same: "stopBy backups t item = Inr j \<Longrightarrow> absItem j = absItem item"
  by (auto simp: stopBy_def absItem_def split: option.splits)

lemma selectBaseBackup_same: "yields (\<lambda>j. absItem j = absItem item) (selectBaseBackup api run item at synced)"
proof -
  have f: "yields (\<lambda>j. absItem j = absItem item) (stopFor api loc backups at synced item)" for loc backups
    unfolding stopFor_def stopSynced_def
    by (intro yields_option yields_if yields_bind yields_ret yields_liftE) (auto simp: absItem_def dest: stopBy_same[unfolded absItem_def])
  show ?thesis unfolding selectBaseBackup_def selectAt_def stopIn_def
    by (intro yields_bind yields_option yields_sum yields_prod yields_if yields_failM f)
qed

text \<open>Selecting changes Pending items only: they get a backup, or fail, or are skipped.\<close>

definition selecting :: "restoreItem \<Rightarrow> restoreItem \<Rightarrow> bool" where
  "selecting i j = (ri_Kind j = ri_Kind i \<and> ri_Name j = ri_Name i \<and> ri_Job j = ri_Job i \<and> ri_ClusterUID j = ri_ClusterUID i \<and>
     (ri_Phase j = ri_Phase i \<or> ri_Phase i = ItemPending \<and> ri_Phase j \<in> {ItemFailed, ItemSkipped}) \<and>
     (ri_SnapshotID j = ri_SnapshotID i \<or> ri_Phase i = ItemPending))"

lemma selecting_refl: "selecting i i"
  by (simp add: selecting_def)

lemma selecting_trans: "selecting i j \<Longrightarrow> selecting j k \<Longrightarrow> selecting i k"
  by (auto simp: selecting_def)

lemma selecting_same: "absItem j = absItem i \<Longrightarrow> selecting i j"
  by (auto simp: selecting_def absItem_def)

lemma selecting_changes:
  "ri_Phase i = ItemPending \<Longrightarrow> selecting i (failRestore m i)" "ri_Phase i = ItemPending \<Longrightarrow> selecting i (takeSnapshot s i)" "selecting i (skipPending i)"
  by (simp_all add: selecting_def failRestore_def takeSnapshot_def skipPending_def)

lemma selectVolumes_selecting:
  "yields (\<lambda>(items', q). list_all2 selecting items items') (selectVolumes api run at sync items synced un)"
proof (induction items arbitrary: synced un)
  case (Cons item items)
  have go: "yields (\<lambda>(items', q). list_all2 selecting (item # items) items')
      (bindM (selectVolumes api run at sync items synced un) (\<lambda>(items', r). ret (item' # items', r)))" if "selecting item item'" for item' synced un
    by (rule yields_bind2[OF Cons.IH]) (auto intro!: yields_ret that split: prod.splits)
  show ?case unfolding selectVolumes.simps Let_def
    by (intro yields_if yields_bind yields_sum yields_option yields_failM go) (simp_all add: selecting_refl selecting_changes)
qed (simp add: yields_ret)

lemma selectDatabases_selecting:
  "yields (\<lambda>(items', q). list_all2 selecting items items') (selectDatabases api run at sync synced items un)"
proof (induction items arbitrary: un)
  case (Cons item items)
  have go: "yields (\<lambda>(items', q). list_all2 selecting (item # items) items')
      (bindM (selectDatabases api run at sync synced items un) (\<lambda>(items', r). ret (item' # items', r)))" if "selecting item item'" for item' un
    by (rule yields_bind2[OF Cons.IH]) (auto intro!: yields_ret that split: prod.splits)
  show ?case unfolding selectDatabases.simps Let_def
  proof (intro yields_if, goal_cases)
    case 2
    then show ?case by (intro go) (simp add: selecting_changes)
  next
    case 3
    show ?case
    proof (rule yields_bind2[OF yields_attempt[OF selectBaseBackup_same]], intro yields_sum)
      fix x :: "gerr + restoreItem" and err
      show "yields (\<lambda>(items', q). list_all2 selecting (item # items) items') (if anyErr isNoBackup1 err
          then bindM (selectDatabases api run at sync synced items (un @ [unreachableLine item (noBackupReason err)])) (\<lambda>(items', r). ret (failRestore (noBackupReason err) item # items', r))
          else failM err)"
        using 3 by (intro yields_if go yields_failM) (simp add: selecting_changes)
    qed (rule go, simp add: selecting_same)
  qed (auto intro!: go simp: selecting_refl)
qed (simp add: yields_ret)

lemma selectBackups_selecting:
  "yields (\<lambda>(run', reason). (\<exists>items t. run' = run\<lparr>rr_status := (rr_status run)\<lparr>rt_Items := items, rt_SyncedTo := t\<rparr>\<rparr> \<and>
      list_all2 selecting (rt_Items (rr_status run)) items \<and> (reason \<noteq> [] \<longrightarrow> list_all (\<lambda>i. ri_Phase i \<noteq> ItemPending) items)))
     (selectBackups api run)"
  unfolding selectBackups_def Let_def
proof (rule yields_bind, rule yields_bind2[OF selectVolumes_selecting], clarify, rule yields_bind2[OF selectDatabases_selecting], clarify)
  fix at items1 synced un1 items2 un2
  assume "list_all2 selecting (rt_Items (rr_status run)) items1" "list_all2 selecting items1 items2"
  then have s: "list_all2 selecting (rt_Items (rr_status run)) items2" by (rule list_all2_relcomp) (rule selecting_trans)
  have k: "list_all2 selecting items2 (map skipPending items2)" by (simp add: list.rel_map list_all2_same selecting_changes)
  have s2: "list_all2 selecting (rt_Items (rr_status run)) (map skipPending items2)" by (rule list_all2_relcomp[OF s k]) (rule selecting_trans)
  have n: "list_all (\<lambda>i. ri_Phase i \<noteq> ItemPending) (map skipPending items2)" by (auto simp: list_all_iff skipPending_def)
  show "yields (\<lambda>(run', reason). \<exists>items t. run' = run\<lparr>rr_status := (rr_status run)\<lparr>rt_Items := items, rt_SyncedTo := t\<rparr>\<rparr> \<and>
      list_all2 selecting (rt_Items (rr_status run)) items \<and> (reason \<noteq> [] \<longrightarrow> list_all (\<lambda>i. ri_Phase i \<noteq> ItemPending) items))
     (if un2 \<noteq> []
      then ret (run\<lparr>rr_status := (rr_status run)\<lparr>rt_Items := map skipPending items2\<rparr>\<rparr>, joinStr ''; '' un2)
      else ret (run\<lparr>rr_status := (rr_status run)\<lparr>rt_Items := items2,
             rt_SyncedTo := (case synced of Some s \<Rightarrow> Some (sn_Time s) | None \<Rightarrow> rt_SyncedTo (rr_status run))\<rparr>\<rparr>, []))"
  proof (intro yields_if yields_ret)
    have "run\<lparr>rr_status := (rr_status run)\<lparr>rt_Items := map skipPending items2\<rparr>\<rparr> =
      run\<lparr>rr_status := (rr_status run)\<lparr>rt_Items := map skipPending items2, rt_SyncedTo := rt_SyncedTo (rr_status run)\<rparr>\<rparr>" by simp
    then show "case (run\<lparr>rr_status := (rr_status run)\<lparr>rt_Items := map skipPending items2\<rparr>\<rparr>, joinStr ''; '' un2) of
      (run', reason) \<Rightarrow> \<exists>items t. run' = run\<lparr>rr_status := (rr_status run)\<lparr>rt_Items := items, rt_SyncedTo := t\<rparr>\<rparr> \<and>
        list_all2 selecting (rt_Items (rr_status run)) items \<and> (reason \<noteq> [] \<longrightarrow> list_all (\<lambda>i. ri_Phase i \<noteq> ItemPending) items)"
      unfolding prod.case using s2 n by blast
  qed (use s in auto)
qed

lemma quiet_selecting:
  assumes ok: "runOk (absRun r)" and new: "rt_SelectedAt (rr_status r) = None" and live: "\<not> Finished (rt_Phase (rr_status r))"
    and sel: "list_all2 selecting (rt_Items (rr_status r)) items"
  shows "quiet (absRun r) ((absRun r)\<lparr>ar_items := map absItem items\<rparr>)" (is "quiet ?a ?b")
    and "list_all (\<lambda>i. ri_Phase i \<in> {ItemPending, ItemSkipped, ItemFailed}) items"
proof -
  have old: "\<forall>i \<in> set (rt_Items (rr_status r)). ri_Job i = [] \<and> ri_Phase i \<in> {ItemPending, ItemSkipped, ItemFailed}"
    using ok new by (auto simp: runOk_def list_all_iff)
  have j: "ri_Job j = [] \<and> ri_Phase j \<in> {ItemPending, ItemSkipped, ItemFailed}" if "j \<in> set items" for j
  proof -
    obtain i where "i \<in> set (rt_Items (rr_status r))" "selecting i j" using list_all2_in2[OF sel \<open>j \<in> set items\<close>] by blast
    then show ?thesis using old by (auto simp: selecting_def)
  qed
  show st: "list_all (\<lambda>i. ri_Phase i \<in> {ItemPending, ItemSkipped, ItemFailed}) items" using j by (simp add: list_all_iff)
  have ex: "\<not> list_ex (\<lambda>i. ai_stage i = ItemDeleted \<or> ai_stage i = ItemRecovering) (map absItem items)"
    by (auto simp: list_ex_iff dest: j)
  have io: "list_all itemOk (map absItem items)" by (auto simp: list_all_iff itemOk_def dest: j)
  have nj: "list_all (\<lambda>i. ai_job i = [] \<and> ai_stage i \<in> {ItemPending, ItemSkipped, ItemFailed}) (map absItem items)" by (auto simp: list_all_iff dest: j)
  have e: "rt_Phase (rr_status r) = RunPhaseNone \<longrightarrow> items = []" using ok sel by (auto simp: runOk_def)
  have up: "rt_PausedAt (rr_status r) = None" "rt_ResumedAt (rr_status r) = None" "resumedAll (rt_Paused (rr_status r))"
    using ok new by (auto simp: runOk_def)
  have p: "rt_Phase (rr_status r) \<noteq> RunPhaseSucceeded" using live by (auto simp: Finished_def)
  have b: "runOk ?b" unfolding runOk_def using io nj ex e up p live new by simp
  have s2: "list_all2 (\<lambda>i j. selecting i j \<and> i \<in> set (rt_Items (rr_status r)) \<and> j \<in> set items) (rt_Items (rr_status r)) items"
    using sel by (auto simp: list_all2_conv_all_nth)
  have m: "list_all2 itemMove (ar_items ?a) (ar_items ?b)"
    using s2 by (simp add: list.rel_map) (erule list.rel_mono_strong, auto simp: itemMove_def selecting_def old)
  have q: "list_all2 recItem (ar_items ?a) (ar_items ?b)"
    using s2 by (simp add: list.rel_map) (erule list.rel_mono_strong, auto simp: recItem_def dest: j)
  show "quiet ?a ?b" unfolding quiet_def runMove_def using b m q live by simp
qed

lemma safeR_select:
  assumes laws: "restoreLaws v api" and new: "rt_SelectedAt (rr_status r) = None" and live: "\<not> Finished (rt_Phase (rr_status r))"
    and n: "rt_Phase (rr_status r) \<noteq> RunPhaseNone"
  shows "safeR v s0 r (selectRestore api) anyR"
proof (rule safeR_ok)
  assume ok: "runOk (absRun r)"
  show ?thesis unfolding selectRestore_def modRestore_def
  proof (rule safeAt_bind_getS, rule restorePass.safe_bind_onW[where v = v, OF keeps_selectBackups[OF laws]], rule safeAt_prod)
    fix w x w' run' reason assume "selectBackups api r w = (Inr x, w')" and x: "x = (run', reason)"
    from yieldsD[OF selectBackups_selecting this(1)] x obtain items t
      where run': "run' = r\<lparr>rr_status := (rr_status r)\<lparr>rt_Items := items, rt_SyncedTo := t\<rparr>\<rparr>"
        and sel: "list_all2 selecting (rt_Items (rr_status r)) items" and np: "reason \<noteq> [] \<longrightarrow> list_all (\<lambda>i. ri_Phase i \<noteq> ItemPending) items"
      by auto
    note q = quiet_selecting[OF ok new live sel]
    have a: "absRun run' = (absRun r)\<lparr>ar_items := map absItem items\<rparr>" by (simp add: run' absRun_def Let_def)
    show "safeR v s0 r (thenM (modS (\<lambda>_. run')) (
     if reason \<noteq> [] then thenM (finishRestore api ReasonNoBackupInReach reason) (ret None)
     else
     bindM (nowR api) (\<lambda>now.
     thenM (modS (\<lambda>run. run\<lparr>rr_status := (rr_status run)\<lparr>rt_SelectedAt := Some now\<rparr>\<rparr>)) (
     thenM (setReadyR api CondFalse ReasonRunning ''restoring'')
       (afterM second (writeRestore api)))))) anyR"
    proof (rule safeR_mod)
      show "quiet (absRun r) (absRun run')" unfolding a by (rule q(1))
      show "safeR v s0 run' (if reason \<noteq> [] then thenM (finishRestore api ReasonNoBackupInReach reason) (ret None)
     else
     bindM (nowR api) (\<lambda>now.
     thenM (modS (\<lambda>run. run\<lparr>rr_status := (rr_status run)\<lparr>rt_SelectedAt := Some now\<rparr>\<rparr>)) (
     thenM (setReadyR api CondFalse ReasonRunning ''restoring'')
       (afterM second (writeRestore api))))) anyR"
      proof (rule safeAt_if)
        assume "reason \<noteq> []"
        then have "restoreDone items" using np q(2) by (auto simp: restoreDone_def list_all_iff)
        then show "safeR v s0 run' (thenM (finishRestore api ReasonNoBackupInReach reason) (ret None)) anyR"
          using live by (intro safeAt_thenM[OF safeR_finish[OF laws]])
            (simp_all add: run' safeAt_ret ReasonNoBackupInReach_def ReasonSucceeded_def)
      next
        show "safeR v s0 run' (bindM (nowR api) (\<lambda>now.
          thenM (modS (\<lambda>run. run\<lparr>rr_status := (rr_status run)\<lparr>rt_SelectedAt := Some now\<rparr>\<rparr>)) (
          thenM (setReadyR api CondFalse ReasonRunning ''restoring'') (afterM second (writeRestore api))))) anyR"
        proof (rule safeR_nowR, rule safeR_ok, rule safeR_mod)
          fix now assume o: "runOk (absRun run')"
          have b: "absRun (run'\<lparr>rr_status := (rr_status run')\<lparr>rt_SelectedAt := Some now\<rparr>\<rparr>) = (absRun run')\<lparr>ar_selected := True\<rparr>"
            by (simp add: absRun_def Let_def)
          show "quiet (absRun run') (absRun (run'\<lparr>rr_status := (rr_status run')\<lparr>rt_SelectedAt := Some now\<rparr>\<rparr>))"
            unfolding b quiet_def runMove_def using o n live by (simp add: runOk_def run' list_all2_refl)
          show "safeR v s0 (run'\<lparr>rr_status := (rr_status run')\<lparr>rt_SelectedAt := Some now\<rparr>\<rparr>)
            (thenM (setReadyR api CondFalse ReasonRunning ''restoring'') (afterM second (writeRestore api))) anyR"
            by (rule safeR_ready, rule safeAt_afterM, rule safeR_write[OF laws]) simp
        qed
      qed
    qed
  qed
qed

lemma safeR_pause:
  assumes laws: "restoreLaws v api" and sel: "rt_SelectedAt (rr_status r) \<noteq> None" and live: "\<not> Finished (rt_Phase (rr_status r))"
  shows "safeR v s0 r (pauseRestore api) anyR"
proof -
  have pl: "pauseLaws v (ra_pause api)" using laws by (simp add: restoreLaws_def)
  have ab: "safeR v s0 s (thenM (abortRestore api reason m) (ret None)) anyR" if "rt_Phase (rr_status s) = rt_Phase (rr_status r)" "reason \<noteq> ReasonSucceeded" for s reason m
    using that live by (intro safeAt_thenM[OF safeR_abort[OF laws]]) (simp_all add: safeAt_ret)
  have st: "safeR v s0 r (thenM (modRestore (\<lambda>st. st\<lparr>rt_Paused := paused, rt_SuspendedKustomizations := suspend, rt_PausedAt := Some t\<rparr>)) (
         thenM (writeRestore api) (
         bindM (attempt (onW (applyPause (ra_pause api) ns paused suspend))) (\<lambda>r. case r of
           Inl err \<Rightarrow> thenM (abortRestore api ReasonFailed (errText err)) (ret None)
         | Inr _ \<Rightarrow> ret (Some (2 * second)))))) anyR" for paused suspend t ns
    unfolding modRestore_def
  proof (rule safeR_ok, rule safeR_mod)
    let ?g = "r\<lparr>rr_status := (rr_status r)\<lparr>rt_Paused := paused, rt_SuspendedKustomizations := suspend, rt_PausedAt := Some t\<rparr>\<rparr>"
    assume ok: "runOk (absRun r)"
    have a: "absRun ?g = (absRun r)\<lparr>ar_paused := True, ar_up := resumedAll paused\<rparr>" by (simp add: absRun_def Let_def)
    show "quiet (absRun r) (absRun ?g)" unfolding a quiet_def runMove_def using ok sel live
      by (auto simp: runOk_def list_all2_refl Finished_def)
    show "safeR v s0 ?g (thenM (writeRestore api) (
         bindM (attempt (onW (applyPause (ra_pause api) ns paused suspend))) (\<lambda>r. case r of
           Inl err \<Rightarrow> thenM (abortRestore api ReasonFailed (errText err)) (ret None)
         | Inr _ \<Rightarrow> ret (Some (2 * second))))) anyR"
      by (rule safeR_write_then[OF laws], rule safeR_tried[OF keeps_applyPause[OF pl]], intro safeAt_sum ab)
        (simp_all add: safeAt_ret ReasonFailed_def ReasonSucceeded_def)
  qed
  show ?thesis unfolding pauseRestore_def Let_def
  proof (rule safeAt_bind_getS, rule safeR_tried[OF keeps_namedTargets[OF pl]], rule safeAt_sum)
    show "safeR v s0 r (if \<not> isPauseSpecError err then failM err else thenM (abortRestore api ReasonInvalid (errText err)) (ret None)) anyR" for err
      by (intro safeAt_if safeR_failM ab) (simp_all add: ReasonInvalid_def ReasonSucceeded_def)
  qed (rule safeR_read[OF keeps_pausePlan[OF pl]], intro safeAt_prod safeR_nowR st)
qed

end
