(* ===== verification/Restore_Works.thy ===== *)
theory Restore_Works
  imports Restore_Starts
begin

text \<open>
  The work on the items of a RestoreRun is safe: a step of a volume or of a database changes its own item
  only, starts a Job or deletes a Cluster only after that is stored, and touches a database only when
  every volume is in place.
\<close>

section \<open>A step of one item\<close>

definition workR :: "restoreRun \<Rightarrow> bool" where
  "workR r = (\<not> Finished (rt_Phase (rr_status r)) \<and> rt_SelectedAt (rr_status r) \<noteq> None \<and> m_deletion (rr_meta r) = None)"

definition holdsItem :: "nat \<Rightarrow> string \<Rightarrow> restoreRun \<Rightarrow> bool" where
  "holdsItem i k r = (workR r \<and> i < length (rt_Items (rr_status r)) \<and> ri_Kind (itemAt i r) = k)"

definition restItemStep :: "nat \<Rightarrow> restoreRun \<Rightarrow> restoreRun \<Rightarrow> bool" where
  "restItemStep i r s = (workR s \<and> (\<exists>it. rt_Items (rr_status s) = (rt_Items (rr_status r))[i := it] \<and> ri_Kind it = ri_Kind (itemAt i r)))"

lemma restItemStep_refl: "workR r \<Longrightarrow> restItemStep i r r"
  unfolding restItemStep_def itemAt_def by (metis list_update_id)

lemma restItemStep_trans: "restItemStep i r s \<Longrightarrow> restItemStep i s t \<Longrightarrow> i < length (rt_Items (rr_status r)) \<Longrightarrow> restItemStep i r t"
  by (auto simp: restItemStep_def itemAt_def)

lemma restItemStep_holds: "restItemStep i r s \<Longrightarrow> holdsItem i k r \<Longrightarrow> holdsItem i k s"
  by (auto simp: restItemStep_def holdsItem_def itemAt_def)

lemma workR_setRV [simp]: "workR (setRV rv r) = workR r"
  by (simp add: workR_def)

lemma itemAt_setRV [simp]: "itemAt i (setRV rv r) = itemAt i r"
  by (simp add: itemAt_def)

lemma restItemStep_setRV [simp]: "restItemStep i r (setRV rv s) = restItemStep i r s"
  by (simp add: restItemStep_def)

lemma workR_onItem [simp]: "workR (onItem i f r) = workR r"
  by (simp add: workR_def onItem_def)

lemma itemAt_onItem: "i < length (rt_Items (rr_status r)) \<Longrightarrow> itemAt i (onItem i f r) = f (itemAt i r)"
  by (simp add: itemAt_def onItem_def)

lemma restItemStep_onItem: "workR r \<Longrightarrow> ri_Kind (f (itemAt i r)) = ri_Kind (itemAt i r) \<Longrightarrow> restItemStep i r (onItem i f r)"
  by (auto simp: restItemStep_def onItem_def itemAt_def workR_def)

text \<open>The part of an item that its stages leave alone.\<close>

definition sameItem :: "restoreItem \<Rightarrow> restoreItem \<Rightarrow> bool" where
  "sameItem i j = (ri_Kind j = ri_Kind i \<and> ri_Name j = ri_Name i \<and> ri_Job j = ri_Job i \<and> ri_SnapshotID j = ri_SnapshotID i \<and> ri_ClusterUID j = ri_ClusterUID i)"

lemma itemOk_at:
  assumes "runOk (absRun r)" "i < length (rt_Items (rr_status r))"
  shows "itemOk (absItem (itemAt i r))"
  using assms by (simp add: runOk_def itemAt_def list_all_length)

lemma volumes_at:
  assumes "runOk (absRun r)" "i < length (rt_Items (rr_status r))" "ri_Phase (itemAt i r) = ItemDeleted \<or> ri_Phase (itemAt i r) = ItemRecovering"
  shows "volumesIn (ar_items (absRun r))"
proof -
  have "list_ex (\<lambda>i. ai_stage i = ItemDeleted \<or> ai_stage i = ItemRecovering) (ar_items (absRun r))"
    using assms(3) nth_mem[OF assms(2)] by (auto simp: list_ex_iff itemAt_def)
  then show ?thesis using assms(1) by (simp add: runOk_def)
qed

text \<open>A change of the stage in memory.\<close>

definition stageChange :: "restoreItem \<Rightarrow> restoreItem \<Rightarrow> bool" where
  "stageChange i j = (sameItem i j \<and> follows (ri_Phase i) (ri_Phase j) \<and>
     (case ri_Phase j of ItemRunning \<Rightarrow> ri_Kind i = ''PersistentVolumeClaim''
      | ItemDeleted \<Rightarrow> ri_Phase i = ItemDeleted
      | ItemRecovering \<Rightarrow> ri_Phase i = ItemDeleted \<or> ri_Phase i = ItemRecovering
      | ItemSkipped \<Rightarrow> ri_Phase i = ItemSkipped \<or> ri_Kind i \<noteq> ''PersistentVolumeClaim''
      | _ \<Rightarrow> True))"

lemma quiet_stage:
  assumes ok: "runOk (absRun r)" and at: "workR r" "i < length (rt_Items (rr_status r))" and c: "stageChange (itemAt i r) (f (itemAt i r))"
  shows "quiet (absRun r) (absRun (onItem i f r))"
proof -
  have o: "itemOk (absItem (itemAt i r))" by (rule itemOk_at[OF ok at(2)])
  have n: "map absItem (rt_Items (rr_status r)) ! i = absItem (itemAt i r)" using at(2) by (simp add: itemAt_def)
  show ?thesis unfolding absRun_onItem
  proof (rule quiet_item[OF ok])
    show "itemMove (ar_items (absRun r) ! i) (absItem (f (itemAt i r)))"
      using c unfolding absRun_simps n itemMove_def stageChange_def sameItem_def by simp
    show "itemOk (absItem (f (itemAt i r)))"
      using c o unfolding stageChange_def sameItem_def itemOk_def by (cases "ri_Phase (f (itemAt i r))") auto
    show "recItem (ar_items (absRun r) ! i) (absItem (f (itemAt i r)))"
      using c unfolding absRun_simps n recItem_def stageChange_def sameItem_def by (cases "ri_Phase (f (itemAt i r))") auto
    show "volumesIn (ar_items (absRun r))" if "ai_stage (absItem (f (itemAt i r))) = ItemDeleted \<or> ai_stage (absItem (f (itemAt i r))) = ItemRecovering"
      using that c by (intro volumes_at[OF ok at(2)]) (auto simp: stageChange_def)
  qed (use at in \<open>simp_all add: workR_def\<close>)
qed

lemma safeR_stage:
  assumes "workR r" "i < length (rt_Items (rr_status r))" "stageChange (itemAt i r) (f (itemAt i r))"
    and "safeR v s0 (onItem i f r) d Q"
  shows "safeR v s0 r (thenM (modItem i f) d) Q"
  unfolding modItem_onItem
proof (rule safeR_ok, rule safeR_mod)
  show "quiet (absRun r) (absRun (onItem i f r))" if "runOk (absRun r)" by (rule quiet_stage[where f = f, OF that assms(1-3)])
qed (rule assms(4))

lemma stageChange_fail: "\<not> ended (ri_Phase i) \<Longrightarrow> stageChange i (failRestore m i)"
  by (simp add: stageChange_def sameItem_def failRestore_def follows_Failed)

text \<open>Failing or ending an item, and returning.\<close>

lemma safeR_endItem:
  assumes "holdsItem i k r" "stageChange (itemAt i r) (f (itemAt i r))"
  shows "safeR v s0 r (thenM (modItem i f) (ret w)) (\<lambda>_ s. restItemStep i r s)"
proof -
  have w: "workR r" "i < length (rt_Items (rr_status r))" using assms(1) by (simp_all add: holdsItem_def)
  show ?thesis
    by (rule safeR_stage[where f = f, OF w assms(2)], rule safeAt_ret, rule restItemStep_onItem[OF w(1)])
      (use assms(2) in \<open>simp add: stageChange_def sameItem_def\<close>)
qed

section \<open>Volumes\<close>

lemma safeR_into:
  assumes laws: "restoreLaws v api" and at: "holdsItem i k r" and p: "ri_Phase (itemAt i r) = ItemPending"
  shows "safeR v s0 r (intoClaim api i) (\<lambda>_ s. restItemStep i r s \<and> (ri_Phase (itemAt i s) = ItemPending \<or> ri_Phase (itemAt i s) = ItemFailed))"
    (is "safeR v s0 r _ ?Q")
proof -
  have w: "workR r" "i < length (rt_Items (rr_status r))" using at by (simp_all add: holdsItem_def)
  have stay: "?Q x r" for x using w(1) p by (simp add: restItemStep_refl)
  have md: "modItem i f = thenM (modItem i f) (ret ())" for f :: "restoreItem \<Rightarrow> restoreItem"
    by (rule ext) (simp add: modItem_def modRestore_def thenM_def bindM_def modS_def ret_def split: prod.splits)
  have f1: "safeR v s0 r (thenM (modItem i (failRestore m)) (ret ())) ?Q" for m
    by (rule safeR_stage[where f = "failRestore m", OF w], rule stageChange_fail, simp add: p ended_def, rule safeAt_ret)
      (rule conjI, rule restItemStep_onItem[OF w(1)], simp_all add: itemAt_onItem[OF w(2)] failRestore_def)
  have fl: "safeR v s0 r (modItem i (failRestore m)) ?Q" for m using f1[of m] by (simp only: md[symmetric])
  have cr: "safeR v s0 r (thenM (modItem i (\<lambda>it. it\<lparr>ri_CreatedClaim := True\<rparr>)) (
       thenM (writeRestore api) (
       bindM (attempt (onW (ra_createClaim api c))) (\<lambda>r. case r of
         Inl err \<Rightarrow> if IsAlreadyExists err then ret () else failM (Wrap t err)
       | Inr _ \<Rightarrow> ret ())))) ?Q" for c t
  proof (rule safeR_stage[where f = "\<lambda>it. it\<lparr>ri_CreatedClaim := True\<rparr>", OF w])
    show "stageChange (itemAt i r) ((itemAt i r)\<lparr>ri_CreatedClaim := True\<rparr>)" by (simp add: stageChange_def sameItem_def p)
    have q: "?Q x (setRV rv (onItem i (\<lambda>it. it\<lparr>ri_CreatedClaim := True\<rparr>) r))" for x rv
      using restItemStep_onItem[OF w(1)] p by (simp add: itemAt_onItem[OF w(2)])
    show "safeR v s0 (onItem i (\<lambda>it. it\<lparr>ri_CreatedClaim := True\<rparr>) r) (thenM (writeRestore api) (
       bindM (attempt (onW (ra_createClaim api c))) (\<lambda>r. case r of
         Inl err \<Rightarrow> if IsAlreadyExists err then ret () else failM (Wrap t err)
       | Inr _ \<Rightarrow> ret ()))) ?Q"
      by (rule safeR_write_then[OF laws], rule safeR_tried[OF other_keeps(3)[OF laws]])
        (intro safeAt_sum safeAt_if safeAt_ret safeR_failM q)
  qed
  show ?thesis unfolding intoClaim_def Let_def
    by (rule safeAt_bind_getS, rule safeR_tried[OF reads_keep(2)[OF laws]], intro safeAt_sum safeAt_if safeAt_ret safeR_failM fl stay
        safeR_read[OF keeps_itemReads(5)[OF laws]] safeAt_prod safeAt_option cr)
qed

text \<open>A change in memory that is stored before anything else happens: a new Job or a deletion.\<close>

lemma safeR_storeItem:
  assumes laws: "restoreLaws v api" and at: "holdsItem i k r" and p: "ri_Phase (itemAt i r) = ItemPending"
    and f: "ri_Kind (f (itemAt i r)) = ri_Kind (itemAt i r)" "ri_Name (f (itemAt i r)) = ri_Name (itemAt i r)"
      "ri_Job (itemAt i r) \<noteq> [] \<Longrightarrow> ri_Job (f (itemAt i r)) = ri_Job (itemAt i r)" "ri_SnapshotID (f (itemAt i r)) = ri_SnapshotID (itemAt i r)"
    and ok: "itemOk (absItem (itemAt i r)) \<Longrightarrow> itemOk (absItem (f (itemAt i r)))"
    and vols: "ri_Phase (f (itemAt i r)) = ItemDeleted \<or> ri_Phase (f (itemAt i r)) = ItemRecovering \<Longrightarrow> volumesIn (ar_items (absRun r))"
    and d: "\<And>rv. safeR v s0 (setRV rv (onItem i f r)) d Q"
  shows "safeR v s0 r (thenM (modItem i f) (thenM (writeRestore api) d)) Q"
  unfolding modItem_onItem
proof (rule safeR_ok, rule safeR_modwrite_then[OF laws])
  assume rok: "runOk (absRun r)"
  have w: "workR r" "i < length (rt_Items (rr_status r))" using at by (simp_all add: holdsItem_def)
  have n: "ar_items (absRun r) ! i = absItem (itemAt i r)" using w(2) by (simp add: itemAt_def)
  have m: "itemMove (ar_items (absRun r) ! i) (absItem (f (itemAt i r)))"
    unfolding n itemMove_def absItem_simps p using f by simp
  have o: "itemOk (absItem (f (itemAt i r)))" by (rule ok[OF itemOk_at[OF rok w(2)]])
  show "runMove (absRun r) (absRun (onItem i f r))"
    unfolding absRun_onItem by (rule move_item[OF _ m]) (use w in \<open>simp_all add: workR_def\<close>)
  show "runOk (absRun (onItem i f r))"
    unfolding absRun_onItem by (rule runOk_item[OF rok _ m o]) (use w vols in \<open>simp_all add: workR_def\<close>)
qed (rule d)

lemma safeR_recordJob:
  assumes laws: "restoreLaws v api" and at: "holdsItem i ''PersistentVolumeClaim'' r" and p: "ri_Phase (itemAt i r) = ItemPending"
  shows "safeR v s0 r (recordJob api i) (\<lambda>_ s. restItemStep i r s \<and> ri_Phase (itemAt i s) = ItemPending \<and> ri_Job (itemAt i s) \<noteq> [])"
    (is "safeR v s0 r _ ?Q")
proof -
  have w: "workR r" "i < length (rt_Items (rr_status r))" "ri_Kind (itemAt i r) = ''PersistentVolumeClaim''" using at by (simp_all add: holdsItem_def)
  have rc: "safeR v s0 r (thenM (modItem i (\<lambda>it. it\<lparr>ri_Job := n\<rparr>)) (thenM (writeRestore api) (ret ()))) ?Q" if "n \<noteq> []" "ri_Job (itemAt i r) = []" for n
  proof (rule safeR_storeItem[where f = "\<lambda>it. it\<lparr>ri_Job := n\<rparr>", OF laws at p])
    show "safeR v s0 (setRV rv (onItem i (\<lambda>it. it\<lparr>ri_Job := n\<rparr>) r)) (ret ()) ?Q" for rv
      using that restItemStep_onItem[OF w(1)] by (intro safeAt_ret) (simp add: itemAt_onItem[OF w(2)] p)
  qed (use that w(3) p in \<open>auto simp: itemOk_def\<close>)
  have u: "thenM c (thenM (writeRestore api) (ret ())) = thenM c (writeRestore api)" for c :: "('a, unit) rcall"
    by (rule ext) (simp add: thenM_def bindM_def ret_def split: prod.splits sum.splits)
  show ?thesis unfolding recordJob_def
    by (intro safeAt_bind_getS safeAt_if safeR_failM safeAt_ret rc[unfolded u]) (simp_all add: w(1) p restItemStep_refl jobName_def)
qed

lemma safeR_createJob:
  assumes laws: "restoreLaws v api" and at: "holdsItem i ''PersistentVolumeClaim'' r" and p: "ri_Phase (itemAt i r) = ItemPending"
  shows "safeR v s0 r (createJob api i sec) (\<lambda>_ s. restItemStep i r s)"
  unfolding createJob_def
proof (rule safeAt_thenM[OF safeR_recordJob[OF laws at p]])
  fix s assume s: "restItemStep i r s \<and> ri_Phase (itemAt i s) = ItemPending \<and> ri_Job (itemAt i s) \<noteq> []"
  have at': "holdsItem i ''PersistentVolumeClaim'' s" using restItemStep_holds[OF _ at] s by blast
  then have w: "i < length (rt_Items (rr_status s))" "ri_Kind (itemAt i s) = ''PersistentVolumeClaim''" by (simp_all add: holdsItem_def)
  have l: "i < length (rt_Items (rr_status r))" using at by (simp add: holdsItem_def)
  have e: "safeR v s0 s (thenM (modItem i (\<lambda>it. it\<lparr>ri_Phase := ItemRunning\<rparr>)) (ret noWait)) (\<lambda>_ t. restItemStep i r t)"
  proof (rule safeAt_conseq[OF safeR_endItem[OF at']])
    show "stageChange (itemAt i s) ((itemAt i s)\<lparr>ri_Phase := ItemRunning\<rparr>)" using s w by (simp add: stageChange_def sameItem_def)
    show "restItemStep i r t" if "restItemStep i s t" for t using restItemStep_trans[OF _ that l] s by blast
  qed
  show "safeR v s0 s (bindM getS (\<lambda>run.
     bindM (onW (moverSecurityContext api run (itemAt i run))) (\<lambda>ctx.
     bindM (attempt (onW (ra_createJob api (jobFor api run (itemAt i run) sec ctx)))) (\<lambda>r. case r of
       Inl err \<Rightarrow> if IsAlreadyExists err then thenM (modItem i (\<lambda>it. it\<lparr>ri_Phase := ItemRunning\<rparr>)) (ret noWait)
                  else failM (Wrap (''create restore Job '' @ ri_Job (itemAt i run) @ '': '') err)
     | Inr _ \<Rightarrow> thenM (modItem i (\<lambda>it. it\<lparr>ri_Phase := ItemRunning\<rparr>)) (ret noWait))))) (\<lambda>_ t. restItemStep i r t)"
    unfolding attempt_onW
  proof (rule safeAt_bind_getS, rule safeR_read[OF keeps_itemReads(4)[OF laws]], rule safeAt_bindM[where R = "\<lambda>_ t. t = s"])
    fix ctx
    show "safeR v s0 s (onW (attempt (ra_createJob api (jobFor api s (itemAt i s) sec ctx)))) (\<lambda>_ t. t = s)"
      by (rule safeR_job[OF laws]) (use s w in \<open>simp_all add: itemAt_def\<close>)
  qed (use e in \<open>auto intro!: safeAt_sum safeAt_if safeR_failM\<close>)
qed

lemma safeR_startRestore:
  assumes laws: "restoreLaws v api" and at: "holdsItem i ''PersistentVolumeClaim'' r" and p: "ri_Phase (itemAt i r) = ItemPending"
  shows "safeR v s0 r (startRestore api i) (\<lambda>_ s. restItemStep i r s)"
  unfolding startRestore_def
  by (intro safeAt_bind_getS safeR_tried[OF keeps_sourceRepository[OF laws]] safeAt_sum safeR_createJob[OF laws at p] safeR_endItem[OF at] stageChange_fail)
    (simp add: p ended_def)

lemma safeR_followJob:
  assumes laws: "restoreLaws v api" and at: "holdsItem i k r" and p: "ri_Phase (itemAt i r) = ItemRunning"
  shows "safeR v s0 r (followJob api i) (\<lambda>_ s. restItemStep i r s)"
proof -
  have w: "workR r" using at by (simp add: holdsItem_def)
  have f: "safeR v s0 r (thenM (modItem i (failRestore m)) (ret noWait)) (\<lambda>_ s. restItemStep i r s)" for m
    by (rule safeR_endItem[OF at], rule stageChange_fail) (simp add: p ended_def)
  have e: "safeR v s0 r (thenM (modItem i (\<lambda>it. it\<lparr>ri_Phase := ItemSucceeded, ri_Message := []\<rparr>)) (ret noWait)) (\<lambda>_ s. restItemStep i r s)"
    by (rule safeR_endItem[OF at]) (simp add: stageChange_def sameItem_def p)
  have o: "safeR v s0 r (case Result j of OutRunning \<Rightarrow> ret noWait
      | OutSucceeded \<Rightarrow> thenM (modItem i (\<lambda>it. it\<lparr>ri_Phase := ItemSucceeded, ri_Message := []\<rparr>)) (ret noWait)
      | OutFailed \<Rightarrow> thenM (modItem i (failRestore m)) (ret noWait)) (\<lambda>_ s. restItemStep i r s)" for j m
    by (cases "Result j") (simp_all add: f e safeAt_ret restItemStep_refl[OF w])
  show ?thesis unfolding followJob_def Let_def
    by (intro safeAt_bind_getS safeR_tried[OF reads_keep(14)[OF laws]] safeAt_sum safeAt_if f safeR_failM o)
qed

lemma safeR_volume:
  assumes laws: "restoreLaws v api" and at: "holdsItem i ''PersistentVolumeClaim'' r"
  shows "safeR v s0 r (restoreVolume api i) (\<lambda>_ s. restItemStep i r s)"
proof -
  have w: "workR r" "i < length (rt_Items (rr_status r))" using at by (simp_all add: holdsItem_def)
  have into: "safeR v s0 r (thenM (intoClaim api i) (
          bindM getS (\<lambda>run'. if ri_Phase (itemAt i run') = ItemFailed then ret noWait else startRestore api i))) (\<lambda>_ s. restItemStep i r s)"
    if p: "ri_Phase (itemAt i r) = ItemPending"
  proof (rule safeAt_thenM[OF safeR_into[OF laws at p]])
    fix s assume s: "restItemStep i r s \<and> (ri_Phase (itemAt i s) = ItemPending \<or> ri_Phase (itemAt i s) = ItemFailed)"
    then have at': "holdsItem i ''PersistentVolumeClaim'' s" using restItemStep_holds[OF _ at] by blast
    show "safeR v s0 s (bindM getS (\<lambda>run'. if ri_Phase (itemAt i run') = ItemFailed then ret noWait else startRestore api i)) (\<lambda>_ t. restItemStep i r t)"
    proof (intro safeAt_bind_getS safeAt_if)
      assume "ri_Phase (itemAt i s) \<noteq> ItemFailed"
      then have "ri_Phase (itemAt i s) = ItemPending" using s by blast
      from safeR_startRestore[OF laws at' this] show "safeR v s0 s (startRestore api i) (\<lambda>_ t. restItemStep i r t)"
        by (rule safeAt_conseq) (use s restItemStep_trans[OF _ _ w(2)] in blast)
    qed (use s in \<open>simp add: safeAt_ret\<close>)
  qed
  show ?thesis unfolding restoreVolume_def Let_def
  proof (rule safeAt_bind_getS, intro safeAt_if into safeR_read[OF keeps_itemReads(1)[OF laws]] safeR_startRestore[OF laws at] safeR_followJob[OF laws at])
  qed (simp_all add: safeAt_ret restItemStep_refl[OF w(1)])
qed

section \<open>Databases\<close>

lemma safeR_deleteDatabase:
  assumes laws: "restoreLaws v api" and at: "holdsItem i ''Cluster'' r" and p: "ri_Phase (itemAt i r) = ItemPending"
    and vols: "volumesIn (ar_items (absRun r))"
  shows "safeR v s0 r (deleteDatabase api i) (\<lambda>_ s. restItemStep i r s)"
proof -
  have w: "workR r" "i < length (rt_Items (rr_status r))" "ri_Kind (itemAt i r) = ''Cluster''" using at by (simp_all add: holdsItem_def)
  have del: "safeR v s0 r (thenM (modItem i (\<lambda>it. it\<lparr>ri_ClusterUID := u, ri_Phase := ItemDeleted\<rparr>)) (
         thenM (writeRestore api) (
         thenM (onW (deleteClusterWithUID api ns (ri_Name (itemAt i r)) u)) (ret x)))) (\<lambda>_ s. restItemStep i r s)" for u ns x
  proof (rule safeR_storeItem[where f = "\<lambda>it. it\<lparr>ri_ClusterUID := u, ri_Phase := ItemDeleted\<rparr>", OF laws at p])
    fix rv
    let ?s = "setRV rv (onItem i (\<lambda>it. it\<lparr>ri_ClusterUID := u, ri_Phase := ItemDeleted\<rparr>) r)"
    have "itemAt i ?s \<in> set (rt_Items (rr_status ?s))" unfolding itemAt_def by (rule nth_mem) (simp add: w(2) onItem_def)
    then have "safeR v s0 ?s (onW (deleteClusterWithUID api ns (ri_Name (itemAt i r)) u)) (\<lambda>_ s. restItemStep i r s)"
      by (rule safeR_delete[OF laws]) (simp_all add: itemAt_onItem[OF w(2)] restItemStep_onItem[OF w(1)])
    then show "safeR v s0 ?s (thenM (onW (deleteClusterWithUID api ns (ri_Name (itemAt i r)) u)) (ret x)) (\<lambda>_ s. restItemStep i r s)"
      by (rule safeAt_thenM) (rule safeAt_ret)
  qed (use vols w(3) p in \<open>auto simp: itemOk_def\<close>)
  show ?thesis unfolding deleteDatabase_def Let_def
    by (intro safeAt_bind_getS safeR_read[OF keeps_getCluster[OF reads_keep(7)[OF laws]]] safeAt_option del safeR_endItem[OF at] stageChange_fail)
      (simp add: p ended_def)
qed

lemma safeR_awaitRecreate:
  assumes laws: "restoreLaws v api" and at: "holdsItem i ''Cluster'' r" and p: "ri_Phase (itemAt i r) = ItemDeleted"
  shows "safeR v s0 r (awaitRecreate api i) (\<lambda>_ s. restItemStep i r s)"
proof -
  have w: "workR r" "i < length (rt_Items (rr_status r))" using at by (simp_all add: holdsItem_def)
  have again: "safeR v s0 r (thenM (if b then onW (deleteClusterWithUID api ns (ri_Name (itemAt i r)) u) else ret ()) (ret x)) (\<lambda>_ s. restItemStep i r s)"
    if u: "u = ri_ClusterUID (itemAt i r)" for b ns u x
  proof (rule safeAt_thenM[where R = "restItemStep i r"], rule safeAt_if)
    have "itemAt i r \<in> set (rt_Items (rr_status r))" using w(2) by (simp add: itemAt_def)
    then show "safeR v s0 r (onW (deleteClusterWithUID api ns (ri_Name (itemAt i r)) u)) (\<lambda>_. restItemStep i r)"
      by (rule safeR_delete[OF laws _ p]) (simp_all add: u restItemStep_refl[OF w(1)])
  qed (simp_all add: safeAt_ret restItemStep_refl[OF w(1)])
  have rec1: "safeR v s0 r (thenM (modItem i (\<lambda>it. it\<lparr>ri_Phase := ItemRecovering\<rparr>)) (ret noWait)) (\<lambda>_ s. restItemStep i r s)"
    by (rule safeR_endItem[OF at]) (simp add: stageChange_def sameItem_def p)
  have fl: "safeR v s0 r (thenM (modItem i (failRestore m)) (ret noWait)) (\<lambda>_ s. restItemStep i r s)" for m
    by (rule safeR_endItem[OF at], rule stageChange_fail) (simp add: p ended_def)
  have aw: "safeR v s0 r (onW (awaitInstance api ns n)) (\<lambda>_ s. restItemStep i r s)" for ns n
    by (rule restorePass.safe_onW[OF keeps_itemReads(6)[OF laws]]) (rule restItemStep_refl[OF w(1)])
  show ?thesis unfolding awaitRecreate_def Let_def
    by (intro safeAt_bind_getS safeR_read[OF keeps_getCluster[OF reads_keep(7)[OF laws]]] safeAt_option safeAt_if again rec1 fl aw)
qed

lemma safeR_followRecovery:
  assumes laws: "restoreLaws v api" and at: "holdsItem i ''Cluster'' r" and p: "ri_Phase (itemAt i r) = ItemRecovering"
  shows "safeR v s0 r (followRecovery api i) (\<lambda>_ s. restItemStep i r s)"
proof -
  have w: "workR r" using at by (simp add: holdsItem_def)
  have fl: "safeR v s0 r (thenM (modItem i (failRestore m)) (ret noWait)) (\<lambda>_ s. restItemStep i r s)" for m
    by (rule safeR_endItem[OF at], rule stageChange_fail) (simp add: p ended_def)
  have e: "safeR v s0 r (thenM (modItem i (\<lambda>it. it\<lparr>ri_Phase := ItemSucceeded, ri_Message := []\<rparr>)) (ret noWait)) (\<lambda>_ s. restItemStep i r s)"
    by (rule safeR_endItem[OF at]) (simp add: stageChange_def sameItem_def p)
  show ?thesis unfolding followRecovery_def Let_def
    by (intro safeAt_bind_getS safeR_read[OF keeps_getCluster[OF reads_keep(7)[OF laws]]] safeAt_option safeAt_if fl e safeAt_ret restItemStep_refl[OF w])
qed

lemma safeR_database:
  assumes laws: "restoreLaws v api" and at: "holdsItem i ''Cluster'' r"
    and vols: "ri_Phase (itemAt i r) = ItemPending \<Longrightarrow> volumesIn (ar_items (absRun r))"
  shows "safeR v s0 r (restoreDatabase api i) (\<lambda>_ s. restItemStep i r s)"
proof -
  have w: "workR r" using at by (simp add: holdsItem_def)
  show ?thesis unfolding restoreDatabase_def
    by (rule safeAt_bind_getS, cases "ri_Phase (itemAt i r)")
      (simp_all add: safeR_deleteDatabase[OF laws at _ vols] safeR_awaitRecreate[OF laws at] safeR_followRecovery[OF laws at] safeAt_ret restItemStep_refl[OF w])
qed

section \<open>All items\<close>

text \<open>What the loop over the volumes knows of the items it has passed.\<close>

definition volumesSeen :: "nat \<Rightarrow> nat set \<Rightarrow> progress \<Rightarrow> restoreRun \<Rightarrow> bool" where
  "volumesSeen n D p r = (workR r \<and> length (rt_Items (rr_status r)) = n \<and>
     (\<forall>j \<in> D. j < n \<and> ri_Kind (itemAt j r) = ''PersistentVolumeClaim'' \<longrightarrow>
        (pg_done p \<longrightarrow> ri_Phase (itemAt j r) \<noteq> ItemPending \<and> ri_Phase (itemAt j r) \<noteq> ItemRunning) \<and>
        (\<not> pg_failed p \<longrightarrow> ri_Phase (itemAt j r) \<noteq> ItemFailed)))"

lemma restItemStep_other: "restItemStep i r s \<Longrightarrow> j \<noteq> i \<Longrightarrow> itemAt j s = itemAt j r"
  by (auto simp: restItemStep_def itemAt_def)

lemma restItemStep_length: "restItemStep i r s \<Longrightarrow> length (rt_Items (rr_status s)) = length (rt_Items (rr_status r)) \<and> workR s"
  by (auto simp: restItemStep_def)

lemma safeR_volumes:
  assumes laws: "restoreLaws v api"
  shows "distinct is \<Longrightarrow> D \<inter> set is = {} \<Longrightarrow> \<forall>i \<in> set is. i < n \<Longrightarrow> volumesSeen n D p r \<Longrightarrow>
    safeR v s0 r (volumesLoop api is p) (\<lambda>p' s. volumesSeen n (D \<union> set is) p' s)"
proof (induction "is" arbitrary: D p r)
  case Nil
  then show ?case by (simp add: safeAt_ret)
next
  case (Cons i "is")
  have go: "safeR v s0 s (volumesLoop api is q) (\<lambda>p' t. volumesSeen n (D \<union> set (i # is)) p' t)" if "volumesSeen n (insert i D) q s" for q s
    using Cons.IH[of "insert i D" q s] Cons.prems(1-3) that by (simp add: insert_commute)
  have w: "workR r" "length (rt_Items (rr_status r)) = n" "i < n" using Cons.prems(3,4) by (simp_all add: volumesSeen_def)
  show ?case unfolding volumesLoop.simps
  proof (rule safeAt_bind_getS, rule safeAt_if)
    assume "ri_Kind (itemAt i r) \<noteq> ''PersistentVolumeClaim''"
    then have "volumesSeen n (insert i D) p r" using Cons.prems(4) by (simp add: volumesSeen_def)
    then show "safeR v s0 r (volumesLoop api is p) (\<lambda>p' t. volumesSeen n (D \<union> set (i # is)) p' t)" by (rule go)
  next
    assume "\<not> ri_Kind (itemAt i r) \<noteq> ''PersistentVolumeClaim''"
    then have at: "holdsItem i ''PersistentVolumeClaim'' r" using w by (simp add: holdsItem_def)
    show "safeR v s0 r (bindM (restoreVolume api i) (\<lambda>w. bindM getS (\<lambda>run.
       let ph = ri_Phase (itemAt i run) in
       volumesLoop api is \<lparr>pg_waiting = newer (pg_waiting p) w, pg_done = (pg_done p \<and> \<not> (ph = ItemPending \<or> ph = ItemRunning)),
       pg_failed = (pg_failed p \<or> ph = ItemFailed)\<rparr>))) (\<lambda>p' t. volumesSeen n (D \<union> set (i # is)) p' t)"
      unfolding Let_def
    proof (rule safeAt_bindM[OF safeR_volume[OF laws at]], rule safeAt_bind_getS, rule go)
      fix x s assume s: "restItemStep i r s"
      have "itemAt j s = itemAt j r" if "j \<in> D" for j
        by (rule restItemStep_other[OF s]) (use Cons.prems(2) that in auto)
      then show "volumesSeen n (insert i D) \<lparr>pg_waiting = newer (pg_waiting p) x, pg_done = (pg_done p \<and> \<not> (ri_Phase (itemAt i s) = ItemPending \<or> ri_Phase (itemAt i s) = ItemRunning)),
         pg_failed = (pg_failed p \<or> ri_Phase (itemAt i s) = ItemFailed)\<rparr> s"
        using Cons.prems(4) restItemStep_length[OF s] by (auto simp: volumesSeen_def)
    qed
  qed
qed

text \<open>What the loop over the databases knows: every volume has ended, and unless one failed all are in place.\<close>

definition volumesOver :: "nat \<Rightarrow> bool \<Rightarrow> restoreRun \<Rightarrow> bool" where
  "volumesOver n failed r = (workR r \<and> length (rt_Items (rr_status r)) = n \<and>
     list_all (\<lambda>i. isVolume i \<longrightarrow> ended (ai_stage i)) (ar_items (absRun r)) \<and> (\<not> failed \<longrightarrow> volumesIn (ar_items (absRun r))))"

lemma volumesOver_step:
  assumes "volumesOver n failed r" "restItemStep i r s" "holdsItem i ''Cluster'' r"
  shows "volumesOver n failed s"
proof -
  obtain it where it: "rt_Items (rr_status s) = (rt_Items (rr_status r))[i := it]" "ri_Kind it = ''Cluster''"
    using assms(2,3) by (auto simp: restItemStep_def holdsItem_def)
  have u: "list_all P (xs[i := y])" if "list_all P xs" "P y" for P xs and y :: aitem
    using that set_update_subset_insert[of xs i y] unfolding list_all_iff by blast
  have a: "ar_items (absRun s) = (ar_items (absRun r))[i := absItem it]" by (simp add: it(1) map_update)
  have "list_all (\<lambda>i. isVolume i \<longrightarrow> ended (ai_stage i)) (ar_items (absRun s))"
    unfolding a using assms(1) by (intro u) (simp_all add: volumesOver_def it(2))
  moreover have "volumesIn (ar_items (absRun s))" if "volumesIn (ar_items (absRun r))"
    unfolding a volumesIn_def using that by (intro u) (simp_all add: volumesIn_def it(2))
  ultimately show ?thesis using assms(1) restItemStep_length[OF assms(2)] by (simp add: volumesOver_def)
qed

lemma safeR_databases:
  assumes laws: "restoreLaws v api"
  shows "\<forall>i \<in> set is. i < n \<Longrightarrow> volumesOver n failed r \<Longrightarrow>
    safeR v s0 r (databasesLoop api failed is q) (\<lambda>_ s. volumesOver n failed s)"
proof (induction "is" arbitrary: q r)
  case Nil
  then show ?case by (simp add: safeAt_ret)
next
  case (Cons i "is")
  have w: "workR r" "length (rt_Items (rr_status r)) = n" "i < n" using Cons.prems by (simp_all add: volumesOver_def)
  have go: "safeR v s0 s (databasesLoop api failed is q') (\<lambda>_ t. volumesOver n failed t)" if "volumesOver n failed s" for s q'
    by (rule Cons.IH[OF _ that]) (use Cons.prems(1) in simp)
  show ?case unfolding databasesLoop.simps
  proof (rule safeAt_bind_getS, intro safeAt_if, rule go[OF Cons.prems(2)])
    assume k: "\<not> ri_Kind (itemAt i r) \<noteq> ''Cluster''" and f: "failed \<and> ri_Phase (itemAt i r) = ItemPending"
    let ?f = "\<lambda>it. it\<lparr>ri_Phase := ItemSkipped, ri_Message := ''left running because a volume restore failed''\<rparr>"
    have at: "holdsItem i ''Cluster'' r" using w k by (simp add: holdsItem_def)
    have st: "restItemStep i r (onItem i ?f r)" by (rule restItemStep_onItem[OF w(1)]) simp
    show "safeR v s0 r (thenM (modItem i ?f) (databasesLoop api failed is q)) (\<lambda>_ t. volumesOver n failed t)"
      by (rule safeR_stage[where f = ?f, OF w(1) _ _ go[OF volumesOver_step[OF Cons.prems(2) st at]]])
        (use w f k in \<open>simp_all add: stageChange_def sameItem_def\<close>)
  next
    assume k: "\<not> ri_Kind (itemAt i r) \<noteq> ''Cluster''" and f: "\<not> (failed \<and> ri_Phase (itemAt i r) = ItemPending)"
    have at: "holdsItem i ''Cluster'' r" using w k by (simp add: holdsItem_def)
    have vols: "volumesIn (ar_items (absRun r))" if "ri_Phase (itemAt i r) = ItemPending"
      using that f Cons.prems(2) by (simp add: volumesOver_def)
    show "safeR v s0 r (bindM (restoreDatabase api i) (\<lambda>w. databasesLoop api failed is (newer (fst q) w, snd q \<or> wt_reason w = ReasonShutdown)))
       (\<lambda>_ t. volumesOver n failed t)"
      by (rule safeAt_bindM[OF safeR_database[OF laws at vols]], assumption, rule go, rule volumesOver_step[OF Cons.prems(2) _ at])
  qed
qed

section \<open>The whole step\<close>

lemma safeR_conclude:
  assumes laws: "restoreLaws v api" and w: "workR r"
  shows "safeR v s0 r (concludeRestore api waiting) anyR"
proof -
  have live: "\<not> Finished (rt_Phase (rr_status r))" using w by (simp add: workR_def)
  have fin: "safeR v s0 r (thenM (finishRestore api ReasonFailed m) (ret None)) anyR" if "restoreDone (rt_Items (rr_status r))" for m
    by (rule safeAt_thenM[OF safeR_finish[OF laws live that]]) (simp_all add: safeAt_ret ReasonFailed_def ReasonSucceeded_def)
  have none: "list_all (\<lambda>i. ri_Phase i \<noteq> ItemFailed) items" if f: "restoreFailures items = []" for items
  proof -
    have keep: "foldl (\<lambda>message i. if ri_Phase i = ItemFailed then (if message \<noteq> [] then message @ ''; '' else message) @ ri_Kind i @ '' '' @ ri_Name i @ '': '' @ ri_Message i
       else message) m xs \<noteq> []" if "m \<noteq> []" for m xs using that by (induction xs arbitrary: m) simp_all
    from f show ?thesis unfolding restoreFailures_def
    proof (induction items)
      case (Cons i items)
      then have "ri_Phase i \<noteq> ItemFailed" using keep[of "ri_Kind i @ '' '' @ ri_Name i @ '': '' @ ri_Message i" items] by auto
      with Cons show ?case by simp
    qed simp
  qed
  have ok: "safeR v s0 r (thenM (finishRestore api ReasonSucceeded m) (ret None)) anyR"
    if "restoreDone (rt_Items (rr_status r))" "restoreFailures (rt_Items (rr_status r)) = []" for m
    by (rule safeAt_thenM[OF safeR_finish[OF laws live that(1) none[OF that(2)]]]) (simp add: safeAt_ret)
  have run: "safeR v s0 r (thenM (modRestore (\<lambda>st. st\<lparr>rt_Phase := RunPhaseRunning\<rparr>)) (
     thenM (setReadyR api CondFalse ReasonRunning ''restoring'') (afterM pollInterval (writeRestore api)))) anyR"
    unfolding modRestore_def
  proof (rule safeR_ok, rule safeR_mod)
    show "quiet (absRun r) (absRun (r\<lparr>rr_status := (rr_status r)\<lparr>rt_Phase := RunPhaseRunning\<rparr>\<rparr>))" if "runOk (absRun r)"
      unfolding absRun_changes using quiet_running[OF that] live by simp
    show "safeR v s0 (r\<lparr>rr_status := (rr_status r)\<lparr>rt_Phase := RunPhaseRunning\<rparr>\<rparr>)
      (thenM (setReadyR api CondFalse ReasonRunning ''restoring'') (afterM pollInterval (writeRestore api))) anyR"
      by (rule safeR_ready, rule safeAt_afterM, rule safeR_write[OF laws]) simp
  qed
  show ?thesis unfolding concludeRestore_def Let_def
    by (intro safeAt_bind_getS safeAt_if safeAt_afterM safeR_waitFor[OF laws live] run fin ok) auto
qed

lemma volumesSeen_over:
  assumes "runOk (absRun r)" "volumesSeen n {0..<n} p r" "pg_done p"
  shows "volumesOver n (pg_failed p) r"
proof -
  have v: "workR r" "length (rt_Items (rr_status r)) = n" using assms(2) by (simp_all add: volumesSeen_def)
  have e: "ended (ri_Phase (itemAt j r)) \<and> (\<not> pg_failed p \<longrightarrow> ri_Phase (itemAt j r) = ItemSucceeded \<or> ri_Phase (itemAt j r) = ItemSkipped)"
    if j: "j < n" "ri_Kind (itemAt j r) = ''PersistentVolumeClaim''" for j
  proof -
    have "itemOk (absItem (itemAt j r))" by (rule itemOk_at[OF assms(1)]) (simp add: v j)
    then show ?thesis using assms(2,3) j by (cases "ri_Phase (itemAt j r)") (auto simp: volumesSeen_def itemOk_def ended_def)
  qed
  then show ?thesis using v by (auto simp: volumesOver_def volumesIn_def list_all_length itemAt_def)
qed

lemma volumesOver_idle:
  assumes "runOk (absRun r)" "volumesOver n failed r" "\<not> anyRestorePending (rt_Items (rr_status r))"
  shows "list_all (\<lambda>i. ri_Phase i \<noteq> ItemPending \<and> ri_Phase i \<noteq> ItemRunning) (rt_Items (rr_status r))"
proof -
  have "ri_Phase i \<noteq> ItemPending \<and> ri_Phase i \<noteq> ItemRunning" if i: "i \<in> set (rt_Items (rr_status r))" for i
  proof -
    have "ri_Phase i \<noteq> ItemPending" using assms(3) i by (auto simp: anyRestorePending_def list_ex_iff)
    moreover have "ri_Phase i = ItemRunning \<Longrightarrow> ri_Kind i = ''PersistentVolumeClaim''"
      using assms(1) i by (auto simp: runOk_def list_all_iff itemOk_def)
    moreover have "ri_Kind i = ''PersistentVolumeClaim'' \<Longrightarrow> ended (ri_Phase i)"
      using assms(2) i by (auto simp: volumesOver_def list_all_iff)
    ultimately show ?thesis by (auto simp: ended_def)
  qed
  then show ?thesis by (simp add: list_all_iff)
qed

lemma safeR_restoreAll:
  assumes laws: "restoreLaws v api" and w: "workR r"
  shows "safeR v s0 r (restoreAll api) anyR"
  unfolding restoreAll_def Let_def
proof (rule safeAt_bind_getS, rule safeAt_bindM)
  let ?n = "length (rt_Items (rr_status r))"
  let ?p0 = "\<lparr>pg_waiting = noWait, pg_done = True, pg_failed = False\<rparr>"
  show "safeR v s0 r (volumesLoop api [0..<?n] ?p0) (\<lambda>p s. volumesSeen ?n ({} \<union> set [0..<?n]) p s)"
    by (rule safeR_volumes[OF laws]) (simp_all add: volumesSeen_def w)
  fix p s assume s: "volumesSeen ?n ({} \<union> set [0..<?n]) p s"
  let ?R = "\<lambda>_ t. workR t \<and> (pg_done p \<longrightarrow> volumesOver ?n (pg_failed p) t)"
  show "safeR v s0 s (bindM (if pg_done p then databasesLoop api (pg_failed p) [0..<?n] (pg_waiting p, False) else ret (pg_waiting p, False)) (\<lambda>(waiting, shuttingDown).
     bindM getS (\<lambda>run.
     thenM (if pausedRun run \<and> pg_done p \<and> \<not> anyRestorePending (rt_Items (rr_status run)) \<and> \<not> shuttingDown then resumeRestore api else ret ())
       (concludeRestore api waiting)))) anyR"
  proof (rule safeR_ok, rule safeAt_bindM[where R = ?R], rule safeAt_if)
    assume ok: "runOk (absRun s)" and d: "pg_done p"
    have o: "volumesOver ?n (pg_failed p) s" using volumesSeen_over[OF ok _ d, of ?n] s by simp
    show "safeR v s0 s (databasesLoop api (pg_failed p) [0..<?n] (pg_waiting p, False)) ?R"
      by (rule safeAt_conseq[OF safeR_databases[OF laws _ o]]) (simp_all add: volumesOver_def)
  next
    show "safeR v s0 s (ret (pg_waiting p, False)) ?R" if "\<not> pg_done p"
      using that s by (intro safeAt_ret) (simp add: volumesSeen_def)
  next
    fix q :: "wait \<times> bool" and t assume t: "workR t \<and> (pg_done p \<longrightarrow> volumesOver ?n (pg_failed p) t)"
    have "safeR v s0 t (thenM (if pausedRun t \<and> pg_done p \<and> \<not> anyRestorePending (rt_Items (rr_status t)) \<and> \<not> b then resumeRestore api else ret ())
       (concludeRestore api waiting)) anyR" for b waiting
    proof (rule safeR_ok, rule safeAt_thenM[where R = workR], rule safeAt_if)
      assume ok: "runOk (absRun t)" and c: "pausedRun t \<and> pg_done p \<and> \<not> anyRestorePending (rt_Items (rr_status t)) \<and> \<not> b"
      have "list_all (\<lambda>i. ri_Phase i \<noteq> ItemPending \<and> ri_Phase i \<noteq> ItemRunning) (rt_Items (rr_status t))"
        using volumesOver_idle[OF ok] t c by blast
      then have "safeR v s0 t (resumeRestore api) (\<lambda>_ u. kept t u \<and> resumedAll (rt_Paused (rr_status u)))"
        using t c by (intro safeR_resume[OF laws]) (simp_all add: workR_def pausedRun_def)
      then show "safeR v s0 t (resumeRestore api) (\<lambda>_. workR)"
        by (rule safeAt_conseq) (use t in \<open>simp add: kept_def workR_def\<close>)
    qed (use t in \<open>simp_all add: safeAt_ret safeR_conclude[OF laws]\<close>)
    then show "safeR v s0 t (case q of (waiting, shuttingDown) \<Rightarrow> bindM getS (\<lambda>run.
       thenM (if pausedRun run \<and> pg_done p \<and> \<not> anyRestorePending (rt_Items (rr_status run)) \<and> \<not> shuttingDown then resumeRestore api else ret ())
         (concludeRestore api waiting))) anyR"
      by (cases q) (simp add: safeAt_bind_getS)
  qed
qed

end
