(* ===== verification/Restore_Refines.thy ===== *)
theory Restore_Refines
  imports Restore_Works
begin

text \<open>
  A pass of the RestoreRun reconciler refines the protocol, and what the protocol guarantees holds of every
  world that passes, deletions of the run and the rest of the cluster lead to.
\<close>

section \<open>A pass\<close>

lemma safeR_workPaused:
  assumes laws: "restoreLaws v api" and w: "workR r"
  shows "safeR v s0 r (workPausedR api) anyR"
proof -
  have live: "\<not> Finished (rt_Phase (rr_status r))" using w by (simp add: workR_def)
  have pl: "pauseLaws v (ra_pause api)" using laws by (simp add: restoreLaws_def)
  have ab: "safeR v s0 r (thenM (abortRestore api ReasonFailed m) (ret None)) anyR" for m
    by (rule safeAt_thenM[OF safeR_abort[OF laws live]]) (simp_all add: safeAt_ret ReasonFailed_def ReasonSucceeded_def)
  show ?thesis unfolding workPausedR_def Let_def
    by (intro safeAt_bind_getS safeAt_if safeR_tried[OF keeps_applyPause[OF pl]] safeAt_sum ab
        safeR_read[OF keeps_pausedPodsGone[OF pl]] safeAt_prod safeAt_afterM safeR_waitFor[OF laws live] safeR_restoreAll[OF laws w])
qed

lemma safeR_workLeased:
  assumes laws: "restoreLaws v api" and live: "\<not> Finished (rt_Phase (rr_status r))" and del: "m_deletion (rr_meta r) = None"
    and n: "rt_Phase (rr_status r) \<noteq> RunPhaseNone"
  shows "safeR v s0 r (workLeased api) anyR"
  unfolding workLeased_def
proof (intro safeAt_bind_getS safeAt_if)
  assume "\<not> rt_SelectedAt (rr_status r) = None"
  then show "safeR v s0 r (pauseRestore api) anyR" "safeR v s0 r (workPausedR api) anyR"
    using live del by (auto intro!: safeR_pause[OF laws] safeR_workPaused[OF laws] simp: workR_def)
qed (rule safeR_select[OF laws _ live n])

lemma safeR_work:
  assumes laws: "restoreLaws v api" and live: "\<not> Finished (rt_Phase (rr_status r))" and del: "m_deletion (rr_meta r) = None"
    and n: "rt_Phase (rr_status r) \<noteq> RunPhaseNone"
  shows "safeR v s0 r (workRestore api) anyR"
proof -
  have ab: "safeR v s0 r (thenM (abortRestore api ReasonTimedOut m) (ret None)) anyR" for m
    by (rule safeAt_thenM[OF safeR_abort[OF laws live]]) (simp_all add: safeAt_ret ReasonTimedOut_def ReasonSucceeded_def)
  have same: "\<not> Finished (rt_Phase (rr_status s)) \<and> m_deletion (rr_meta s) = None \<and> rt_Phase (rr_status s) \<noteq> RunPhaseNone"
    if "absRun s = absRun r" for s
  proof -
    have "ar_phase (absRun s) = ar_phase (absRun r)" "ar_ending (absRun s) = ar_ending (absRun r)" by (simp_all only: that)
    then show ?thesis using live del n by simp
  qed
  have leased: "safeR v s0 r (bindM (takeLeasesR api names) (\<lambda>busyMsg.
     if busyMsg \<noteq> [] then afterM pollInterval (waitForR api ReasonBusy busyMsg) else workLeased api)) anyR" for names
    by (rule safeAt_bindM[OF safeR_takeLeases[OF laws]])
      (auto intro!: safeAt_if safeAt_afterM safeR_waitFor[OF laws] safeR_workLeased[OF laws] dest: same)
  show ?thesis unfolding workRestore_def
  proof (rule safeAt_bindM[OF safeR_evicted[OF laws live]], rule safeAt_if)
    fix x s assume "\<not> x \<longrightarrow> s = r" "\<not> x"
    then show "safeR v s0 s (bindM getS (\<lambda>run.
     bindM (onW (restoreOverdue api run)) (\<lambda>(deadline, over).
     if over then thenM (abortRestore api ReasonTimedOut (''the run had not finished by '' @ formatRFC3339 deadline)) (ret None)
     else
     bindM (onW (restoreLeaseNames api run)) (\<lambda>names.
     bindM (takeLeasesR api names) (\<lambda>busyMsg.
     if busyMsg \<noteq> [] then afterM pollInterval (waitForR api ReasonBusy busyMsg)
     else workLeased api))))) anyR"
      by (simp only: simp_thms) (intro safeAt_bind_getS safeR_read[OF keeps_restoreOverdue] safeAt_prod safeAt_if ab safeR_read[OF keeps_leaseNames[OF laws]] leased)
  qed (simp add: safeAt_ret)
qed

lemma safeR_addFinalizer:
  assumes laws: "restoreLaws v api"
  shows "safeR v s0 r (addFinalizerR api) (\<lambda>_ s. absRun s = absRun r)"
proof -
  have m: "absRun (s\<lparr>rr_meta := (rr_meta s)\<lparr>m_resourceVersion := rv\<rparr>\<rparr>) = absRun s" for s rv
    by (rule absRun_meta) simp
  have f: "absRun (r\<lparr>rr_meta := (rr_meta r)\<lparr>m_finalizers := fs\<rparr>\<rparr>) = absRun r" for fs
    by (rule absRun_meta) simp
  show ?thesis unfolding addFinalizerR_def onW_wrapM[symmetric]
  proof (rule safeAt_bind_getS, rule safeAt_if)
    show "safeR v s0 r (thenM (modS (\<lambda>r. r\<lparr>rr_meta := (rr_meta r)\<lparr>m_finalizers := m_finalizers (rr_meta r) @ [Finalizer]\<rparr>\<rparr>))
     (bindM getS (\<lambda>r. bindM (onW (wrapM (''add the finalizer to RestoreRun '' @ m_namespace (rr_meta r) @ ''/'' @ m_name (rr_meta r) @ '': '') (ra_update api r)))
        (\<lambda>rv. modS (\<lambda>r. r\<lparr>rr_meta := (rr_meta r)\<lparr>m_resourceVersion := rv\<rparr>\<rparr>))))) (\<lambda>_ s. absRun s = absRun r)"
      by (rule safeR_same, rule f, rule safeAt_bind_getS, rule safeR_read[OF keeps_wrapM[OF other_keeps(1)[OF laws]]], rule safeR_sameS, rule m)
        (simp only: m f)
  qed (simp add: safeAt_ret)
qed

lemma safeR_stage_run:
  assumes laws: "restoreLaws v api" and live: "\<not> Finished (rt_Phase (rr_status r))" and del: "m_deletion (rr_meta r) = None"
  shows "safeR v s0 r (stageRestore api) anyR"
  unfolding stageRestore_def
  by (intro safeAt_bind_getS safeAt_if safeAt_afterM safeR_waitFor[OF laws live] safeR_plan[OF laws] safeR_admit[OF laws live] safeR_work[OF laws live del])

lemma safeR_pass:
  assumes laws: "restoreLaws v api"
  shows "safeR v s0 r (passRestore api) anyR"
  unfolding passRestore_def
proof (intro safeAt_bind_getS safeAt_if)
  assume "m_deletion (rr_meta r) \<noteq> None"
  then show "safeR v s0 r (thenM (finalizeRestore api) (ret None)) anyR"
    by (intro safeAt_thenM[OF safeR_finalize[OF laws]]) (simp_all add: safeAt_ret)
next
  show "safeR v s0 r (bindM (nowR api) (\<lambda>now. onW (expire (ra_delete api) (rr_meta r) (rs_TTLSecondsAfterFinished (rr_spec r)) (rt_CompletedAt (rr_status r)) now))) anyR"
    by (rule safeR_nowR, rule restorePass.safe_onW[OF keeps_expire[OF other_keeps(2)[OF laws]]]) simp
next
  assume r: "\<not> m_deletion (rr_meta r) \<noteq> None" "\<not> Finished (rt_Phase (rr_status r))"
  show "safeR v s0 r (thenM (addFinalizerR api) (stageRestore api)) anyR"
  proof (rule safeAt_thenM[OF safeR_addFinalizer[OF laws]])
    fix s assume "absRun s = absRun r"
    then have "ar_phase (absRun s) = ar_phase (absRun r)" "ar_ending (absRun s) = ar_ending (absRun r)" by (simp_all only:)
    then show "safeR v s0 s (stageRestore api) anyR" using r by (intro safeR_stage_run[OF laws]) simp_all
  qed
qed

lemma runOn_safe:
  assumes "safeR v s0 r c anyR" "simR v s0 r w" "runOn r c w = (x, w')"
  shows "protocol\<^sup>*\<^sup>* s0 (v w')"
proof -
  obtain q r' where c: "c (r, w) = (q, (r', w'))" using assms(3) by (auto simp: runOn_def split: prod.splits)
  show ?thesis
  proof (cases q)
    case (Inl e)
    then show ?thesis using safeAtD_Inl[OF assms(1,2)] c by (auto simp: failR_def)
  next
    case (Inr y)
    then show ?thesis using safeAtD_Inr[OF assms(1,2)] c by (auto simp: simR_def)
  qed
qed

lemma pass_steps:
  assumes "restoreLaws v api" "readsRun v api ns name" "runOk (as_run (v w))" "ReconcileRestore api ns name w = (x, w')"
  shows "protocol\<^sup>*\<^sup>* (v w) (v w')"
proof -
  obtain q w1 where g: "ra_get api ns name w = (q, w1)" by (cases "ra_get api ns name w")
  have k: "v w1 = v w" by (rule keepsD[OF reads_keep(1)[OF assms(1)] g])
  note b = assms(4)[unfolded ReconcileRestore_def bind_attempt[where c = "ra_get api ns name", OF g]]
  show ?thesis
  proof (cases q)
    case (Inl err)
    then have "w' = w1" using b by (auto simp: failM_def split: if_splits)
    then show ?thesis using k by simp
  next
    case (Inr run)
    have "absRun run = as_run (v w)" using assms(2) g Inr unfolding readsRun_def by blast
    then have "simR v (v w) run w1" using assms(3) k by (simp add: simR_def quiet_refl)
    moreover have "runOn run (passRestore api) w1 = (x, w')" using b Inr by simp
    ultimately show ?thesis by (rule runOn_safe[OF safeR_pass[OF assms(1)]])
  qed
qed

text \<open>C2. The RestoreRun reconciler refines the protocol. One call of \<open>Reconcile\<close>, whatever it returns and
  whichever of its API calls fail, takes the stored run and the traces it leaves in the cluster from one
  state of the protocol to another by the protocol's steps alone: plan once, store a status that the
  rules of a run allow, delete a Cluster, create a Job or wake the app only as the stored status says.\<close>

theorem pass_refines:
  assumes "restoreLaws v api" "readsRun v api ns name" "runOk (as_run (v w))" "ReconcileRestore api ns name w = (x, w')"
  shows "protocol\<^sup>*\<^sup>* (v w) (v w') \<and> runOk (as_run (v w'))"
proof -
  have p: "protocol\<^sup>*\<^sup>* (v w) (v w')" by (rule pass_steps[OF assms])
  moreover have "runOk (as_run t)" if "protocol\<^sup>*\<^sup>* s t" "runOk (as_run s)" for s t
    using that by (induction rule: rtranclp_induct) (auto elim!: protocolE intro: runOk_plan runOk_ending)
  ultimately show ?thesis using assms(3) by blast
qed

section \<open>The life of a run\<close>

text \<open>Passes, the deletion of the run by a user, and whatever else happens in the cluster.\<close>

inductive restoreWorld :: "('w \<Rightarrow> asys) \<Rightarrow> 'w restoreApi \<Rightarrow> string \<Rightarrow> string \<Rightarrow> 'w \<Rightarrow> 'w \<Rightarrow> bool" for v api ns name where
  wPass: "ReconcileRestore api ns name w = (x, w') \<Longrightarrow> restoreWorld v api ns name w w'"
| wEnding: "v w' = (v w)\<lparr>as_run := (as_run (v w))\<lparr>ar_ending := True\<rparr>\<rparr> \<Longrightarrow> restoreWorld v api ns name w w'"
| wOther: "v w' = v w \<Longrightarrow> restoreWorld v api ns name w w'"

lemma protocol_ok:
  assumes "newSystem s0" "protocol\<^sup>*\<^sup>* s0 s"
  shows "systemOk s"
proof (rule restoreProtocol.reachable_inv)
  show "reachable newSystem protocol s"
    using assms(2) by (induction rule: rtranclp_induct) (auto intro: reachable.intros assms(1))
qed

lemma life_steps:
  assumes laws: "restoreLaws v api" "readsRun v api ns name" and new: "newSystem (v w0)" and life: "(restoreWorld v api ns name)\<^sup>*\<^sup>* w0 w"
  shows "protocol\<^sup>*\<^sup>* (v w0) (v w)"
  using life
proof (induction rule: rtranclp_induct)
  case (step w1 w2)
  have ok: "runOk (as_run (v w1))" using protocol_ok[OF new step.IH] by (simp add: systemOk_def)
  have "protocol\<^sup>*\<^sup>* (v w1) (v w2)"
    using step.hyps(2)
  proof cases
    case (wPass x)
    then show ?thesis by (rule pass_steps[OF laws ok])
  next
    case wEnding
    then show ?thesis using pEnding[of "v w1"] by (simp add: r_into_rtranclp)
  next
    case wOther
    then show ?thesis by simp
  qed
  with step.IH show ?case by (rule rtranclp_trans)
qed simp

lemma life_ok:
  assumes "restoreLaws v api" "readsRun v api ns name" "newSystem (v w0)" "(restoreWorld v api ns name)\<^sup>*\<^sup>* w0 w"
  shows "systemOk (v w)"
  by (rule protocol_ok[OF assms(3) life_steps[OF assms]])

text \<open>C3. A RestoreRun deletes a Cluster only when it must come back as a recovery: in every world of its
  life, a Cluster it asked to delete is the one, by name and UID, that an item of kind Cluster recorded as
  Deleted before, and every volume of the run is in place.\<close>

theorem delete_recorded:
  assumes "restoreLaws v api" "readsRun v api ns name" "newSystem (v w0)" "(restoreWorld v api ns name)\<^sup>*\<^sup>* w0 w"
    and "(n, u) \<in> as_deletes (v w)"
  shows "recordedDelete (as_run (v w)) (n, u) \<and> volumesIn (ar_items (as_run (v w)))"
  using life_ok[OF assms(1-4)] assms(5) by (auto simp: systemOk_def)

text \<open>C9. Every Job that a RestoreRun asked to create is in its status: the Job's name, claim and snapshot
  are those of one volume item of the stored run, so no crash leaves a Job that writes into a claim and
  that the run does not know of.\<close>

theorem job_recorded:
  assumes "restoreLaws v api" "readsRun v api ns name" "newSystem (v w0)" "(restoreWorld v api ns name)\<^sup>*\<^sup>* w0 w"
    and "j \<in> as_jobs (v w)"
  shows "fst j \<noteq> [] \<and> recordedJob (as_run (v w)) j"
  using life_ok[OF assms(1-4)] assms(5) by (auto simp: systemOk_def)

lemma volume_ended:
  assumes "itemOk i" "isVolume i" "ai_stage i \<noteq> ItemPending \<and> ai_stage i \<noteq> ItemRunning"
  shows "ended (ai_stage i)"
  using assms by (cases "ai_stage i") (auto simp: itemOk_def ended_def)

text \<open>C8. The app is let run only after the run recorded that its volumes are done with: in every world of
  its life in which a RestoreRun let the app run, the resume is in its status, and unless the run is being
  deleted, the status has every volume Succeeded, Failed or Skipped, no item left to start or Running, and
  every volume in place (Succeeded or Skipped) when a database of it is still being recovered. What is
  stated is the run's own record: a volume it recorded as Failed because someone deleted its Job may still
  be written by a pod of that Job, as the example \<open>resumed_beside_restore_pod\<close> shows.\<close>

theorem woken_after_restore:
  assumes "restoreLaws v api" "readsRun v api ns name" "newSystem (v w0)" "(restoreWorld v api ns name)\<^sup>*\<^sup>* w0 w"
    and "as_woken (v w)"
  shows "ar_resumed (as_run (v w)) \<and> (ar_ending (as_run (v w)) \<or>
     list_all (\<lambda>i. ai_stage i \<noteq> ItemPending \<and> ai_stage i \<noteq> ItemRunning) (ar_items (as_run (v w))) \<and>
     list_all (\<lambda>i. isVolume i \<longrightarrow> ended (ai_stage i)) (ar_items (as_run (v w))) \<and>
     (list_ex (\<lambda>i. ai_stage i = ItemDeleted \<or> ai_stage i = ItemRecovering) (ar_items (as_run (v w))) \<longrightarrow> volumesIn (ar_items (as_run (v w)))))"
proof -
  have ok: "runOk (as_run (v w))" and r: "ar_resumed (as_run (v w))"
    using life_ok[OF assms(1-4)] assms(5) by (simp_all add: systemOk_def)
  have "list_all (\<lambda>i. isVolume i \<longrightarrow> ended (ai_stage i)) (ar_items (as_run (v w)))"
    if "list_all (\<lambda>i. ai_stage i \<noteq> ItemPending \<and> ai_stage i \<noteq> ItemRunning) (ar_items (as_run (v w)))"
    using that ok unfolding runOk_def list_all_iff by (blast intro: volume_ended)
  then show ?thesis using ok r unfolding runOk_def by blast
qed

text \<open>C11. A RestoreRun that ends has settled everything: every item has ended, every workload that it paused
  is given back, and a run that ends Succeeded holds no failed item.\<close>

theorem finished_settled:
  assumes "restoreLaws v api" "readsRun v api ns name" "newSystem (v w0)" "(restoreWorld v api ns name)\<^sup>*\<^sup>* w0 w"
    and "Finished (ar_phase (as_run (v w)))"
  shows "list_all (\<lambda>i. ended (ai_stage i)) (ar_items (as_run (v w))) \<and> ar_up (as_run (v w)) \<and>
     (ar_phase (as_run (v w)) = RunPhaseSucceeded \<longrightarrow> list_all (\<lambda>i. ai_stage i \<noteq> ItemFailed) (ar_items (as_run (v w))))"
  using life_ok[OF assms(1-4)] assms(5) by (auto simp: systemOk_def runOk_def)

end
