(* ===== verification/Restore_Example.thy ===== *)
theory Restore_Example
  imports Restore_Refines
begin

text \<open>
  A namespace with one volume, one database and one Deployment, and the life of a RestoreRun that restores
  all of it, for concrete instances of the theorems. The state of the world is the stored run and the
  traces that it leaves; the other objects are fixed, except that the Cluster's owner creates it again,
  under a new UID and with the run's recovery, once it was deleted.
\<close>

record restoreWorldEx =
  rx_run :: restoreRun
  rx_deletes :: "(string \<times> string) list"
  rx_jobs :: "(string \<times> string \<times> string) list"
  rx_woken :: bool

definition viewEx :: "restoreWorldEx \<Rightarrow> asys" where
  "viewEx w = \<lparr>as_run = absRun (rx_run w), as_deletes = set (rx_deletes w), as_jobs = set (rx_jobs w), as_woken = rx_woken w\<rparr>"

definition dataClaimEx :: claim where
  "dataClaimEx = claim0\<lparr>pc_meta := objectMeta0\<lparr>m_namespace := ''ns'', m_name := ''data'', m_annotations := [AnnotationEnabled \<mapsto> ''true'']\<rparr>\<rparr>"

definition clusterEx :: "string \<Rightarrow> string \<Rightarrow> cluster" where
  "clusterEx uid phase = \<lparr>cl_meta = objectMeta0\<lparr>m_namespace := ''ns'', m_name := ''pg'', m_uid := uid,
       m_annotations := [AnnotationEnabled \<mapsto> ''true'', AnnotationRestoreRun \<mapsto> ''run'']\<rparr>,
     cl_plugins = [Some \<lparr>pl_name = PluginName, pl_isWALArchiver = True, pl_barmanObjectName = ''store'', pl_serverName = []\<rparr>],
     cl_initdb = None, cl_recovery = None, cl_external = [], cl_phase = phase\<rparr>"

definition secretEx :: secret where
  "secretEx = \<lparr>se_meta = objectMeta0\<lparr>m_namespace := ''ns'', m_name := ''repo''\<rparr>, se_data = [''key'' \<mapsto> ''k'']\<rparr>"

definition volumeRestoreEx :: volumeRestore where
  "volumeRestoreEx = \<lparr>vr_meta = objectMeta0\<lparr>m_namespace := ''ns'', m_name := ''data''\<rparr>,
     vr_spec = \<lparr>vs_Repository = ''repo'', vs_RestoreAsOf = None, vs_CacheStorageClassName = None, vs_CacheCapacity = None,
       vs_MoverPodLabels = None, vs_MoverSecurityContext = None\<rparr>,
     vr_status = \<lparr>vt_Conditions = [], vt_Claims = []\<rparr>\<rparr>"

definition storeEx :: objectStore where
  "storeEx = \<lparr>os_name = ''store'', os_destinationPath = ''s3://b/p'', os_endpointURL = ''e'', os_accessKeyId = \<lparr>sr_name = ''s3'', sr_key = ''key''\<rparr>,
     os_secretAccessKey = \<lparr>sr_name = ''s3'', sr_key = ''key''\<rparr>, os_endpointCA = \<lparr>sr_name = [], sr_key = []\<rparr>\<rparr>"

definition doneJobEx :: "string \<Rightarrow> job" where
  "doneJobEx name = (New \<lparr>js_Namespace = ''ns'', js_Name = name, js_Image = ''restic'', js_Claim = ''data'', js_RepositorySecret = ''repo'',
     js_SnapshotID = ''abc'', js_SecurityContext = None, js_Owner = ''run'', js_OwnerReferences = [], js_Labels = Map.empty\<rparr>)\<lparr>jb_conditions := [(''Complete'', CondTrue)]\<rparr>"

definition workloadEx :: "string \<Rightarrow> kueueWorkload" where
  "workloadEx name = \<lparr>kw_meta = objectMeta0\<lparr>m_namespace := ''ns'', m_name := name\<rparr>, kw_queue = ''backups'', kw_owner = ''u'',
     kw_conditions = [\<lparr>c_type = ''Admitted'', c_status = CondTrue, c_reason = [], c_message = [], c_observedGeneration = 0\<rparr>]\<rparr>"

definition restorePauseEx :: "restoreWorldEx pauseApi" where
  "restorePauseEx = \<lparr>
     pa_listDeployments = \<lambda>ns. ret [], pa_listStatefulSets = \<lambda>ns. ret [],
     pa_getWorkload = \<lambda>kind ns name. ret (deploymentEx (Some 3)), pa_getSuspend = \<lambda>ns name. ret False,
     pa_patchReplicas = \<lambda>kind ns name n w. (Inr (), if n = 0 then w else w\<lparr>rx_woken := True\<rparr>),
     pa_patchSuspend = \<lambda>ns name b w. (Inr (), if b then w else w\<lparr>rx_woken := True\<rparr>),
     pa_selector = Inr, pa_listPods = \<lambda>ns sel. ret []\<rparr>"

definition restoreLeaseEx :: "restoreWorldEx leaseApi" where
  "restoreLeaseEx = \<lparr>la_Create = \<lambda>ns n i. ret (), la_Get = \<lambda>ns n. failM (NotFound n), la_Update = \<lambda>ns n l. ret (),
     la_Delete = \<lambda>ns n u v. ret (), la_Alive = \<lambda>ns h. ret True\<rparr>"

definition getClusterEx :: "string \<Rightarrow> string \<Rightarrow> (restoreWorldEx, cluster) call" where
  "getClusterEx ns n w =
     (if n = ''pg'' then Inr (clusterEx (if rx_deletes w = [] then ''old'' else ''new'') healthyPhase) else Inl (NotFound n), w)"

definition restoreApiEx :: "restoreWorldEx restoreApi" where
  "restoreApiEx = \<lparr>
     ra_get = \<lambda>ns n w. (Inr (rx_run w), w), ra_updateStatus = \<lambda>r w. (Inr ''2'', w\<lparr>rx_run := r\<rparr>), ra_update = \<lambda>r. ret ''1'', ra_delete = \<lambda>ns n. ret (),
     ra_getClaim = \<lambda>ns n. if n = ''data'' then ret dataClaimEx else failM (NotFound n), ra_listClaims = \<lambda>ns. ret [dataClaimEx], ra_createClaim = \<lambda>c. ret (),
     ra_getVR = \<lambda>ns n. ret volumeRestoreEx, ra_getSecret = \<lambda>ns n. ret secretEx, ra_getStore = \<lambda>ns n. ret storeEx,
     ra_getCluster = getClusterEx, ra_getClusterCached = getClusterEx, ra_listClusters = \<lambda>ns. ret [clusterEx ''old'' healthyPhase],
     ra_deleteCluster = \<lambda>ns n u w. (Inr (), w\<lparr>rx_deletes := (n, u) # rx_deletes w\<rparr>),
     ra_listPods = \<lambda>ns. ret [], ra_listJobPods = \<lambda>ns n. ret [], ra_listInstancePods = \<lambda>ns n. ret [], ra_listInstanceClaims = \<lambda>ns n. ret [],
     ra_getJob = \<lambda>ns n. ret (doneJobEx n),
     ra_createJob = \<lambda>j w. (Inr (), case writes j of None \<Rightarrow> w | Some (cl, snap, _) \<Rightarrow> w\<lparr>rx_jobs := (m_name (jb_meta j), cl, snap) # rx_jobs w\<rparr>),
     ra_deleteJob = \<lambda>ns n. ret (), ra_listQueues = \<lambda>ns. ret [''backups''], ra_getWorkload = \<lambda>ns n. ret (workloadEx n), ra_createWorkload = ret,
     ra_updateWorkload = \<lambda>x. ret (), ra_deleteWorkload = \<lambda>ns n. ret (), ra_pause = restorePauseEx, ra_leases = restoreLeaseEx,
     ra_snapshots = \<lambda>sec. ret [snapshot0\<lparr>sn_ID := ''abcdefghij'', sn_Time := 5 * second\<rparr>],
     ra_BaseBackups = \<lambda>loc. ret [\<lparr>bb_ID = ''b1'', bb_End = 4 * second\<rparr>], ra_WALSince = \<lambda>loc t. ret True,
     ra_urlParse = \<lambda>s. Inr \<lparr>u_Scheme = ''s3'', u_Host = ''b'', u_Path = ''/p''\<rparr>, ra_setCond = \<lambda>cs c. [c], ra_Paused = False, ra_RestoreImage = ''restic'',
     ra_Now = \<lambda>_. 100 * second\<rparr>"

definition restoreRunEx :: restoreRun where
  "restoreRunEx = \<lparr>rr_meta = objectMeta0\<lparr>m_namespace := ''ns'', m_name := ''run'', m_uid := ''01234567-u'', m_finalizers := [Finalizer]\<rparr>,
     rr_spec = restoreRunSpec0\<lparr>rs_All := True, rs_PauseDuringRestore := [\<lparr>wr_Kind = ''Deployment'', wr_Name = ''app''\<rparr>]\<rparr>,
     rr_status = restoreRunStatus0\<rparr>"

primrec lifeEx :: "nat \<Rightarrow> restoreWorldEx" where
  "lifeEx 0 = \<lparr>rx_run = restoreRunEx, rx_deletes = [], rx_jobs = [], rx_woken = False\<rparr>"
| "lifeEx (Suc n) = snd (ReconcileRestore restoreApiEx ''ns'' ''run'' (lifeEx n))"

section \<open>The laws hold\<close>

lemma restoreApiEx_fields:
  "ra_pause restoreApiEx = restorePauseEx" "ra_leases restoreApiEx = restoreLeaseEx"
  "ra_updateStatus restoreApiEx = (\<lambda>r w. (Inr ''2'', w\<lparr>rx_run := r\<rparr>))"
  "ra_getClusterCached restoreApiEx = getClusterEx"
  "ra_deleteCluster restoreApiEx = (\<lambda>ns n u w. (Inr (), w\<lparr>rx_deletes := (n, u) # rx_deletes w\<rparr>))"
  "ra_createJob restoreApiEx = (\<lambda>j w. (Inr (), case writes j of None \<Rightarrow> w | Some (cl, snap, _) \<Rightarrow> w\<lparr>rx_jobs := (m_name (jb_meta j), cl, snap) # rx_jobs w\<rparr>))"
  by (simp_all add: restoreApiEx_def)

lemma viewEx_changes:
  "viewEx (w\<lparr>rx_run := r\<rparr>) = (viewEx w)\<lparr>as_run := absRun r\<rparr>"
  "viewEx (w\<lparr>rx_deletes := d # rx_deletes w\<rparr>) = (viewEx w)\<lparr>as_deletes := insert d (as_deletes (viewEx w))\<rparr>"
  "viewEx (w\<lparr>rx_jobs := j # rx_jobs w\<rparr>) = (viewEx w)\<lparr>as_jobs := insert j (as_jobs (viewEx w))\<rparr>"
  "viewEx (w\<lparr>rx_woken := True\<rparr>) = (viewEx w)\<lparr>as_woken := True\<rparr>"
  by (simp_all add: viewEx_def)

lemma keeps_getClusterEx: "keeps v (getClusterEx ns n)"
  by (simp add: keeps_def getClusterEx_def)

lemma readLawsEx: "readLaws viewEx restoreApiEx"
  unfolding readLaws_def restoreApiEx_def restoreApi.simps
  by (intro conjI allI keeps_if keeps_ret keeps_failM keeps_getClusterEx) (simp_all add: keeps_def)

lemma otherLawsEx: "otherLaws viewEx restoreApiEx"
  unfolding otherLaws_def restoreApiEx_def restoreApi.simps leasesKeep_def restoreLeaseEx_def leaseApi.simps
  by (intro conjI allI keeps_ret keeps_failM)

lemma pauseLawsEx: "pauseLaws viewEx restorePauseEx"
  unfolding pauseLaws_def restorePauseEx_def pauseApi.simps
  by (intro conjI allI keeps_ret) (simp_all add: keeps_def maybe_def viewEx_changes)

lemma restoreLawsEx: "restoreLaws viewEx restoreApiEx"
  unfolding restoreLaws_def
proof (intro conjI readLawsEx otherLawsEx allI impI)
  show "pauseLaws viewEx (ra_pause restoreApiEx)" unfolding restoreApiEx_fields by (rule pauseLawsEx)
  show "stores viewEx r (ra_updateStatus restoreApiEx r)" for r by (simp add: restoreApiEx_fields stores_def viewEx_changes)
  show "m_name (cl_meta c) = n" if "ra_getClusterCached restoreApiEx ns n w = (Inr c, w')" for ns n w c w'
    using that by (auto simp: restoreApiEx_fields getClusterEx_def clusterEx_def split: if_splits)
  show "maybe viewEx (\<lambda>s. s\<lparr>as_deletes := insert (n, u) (as_deletes s)\<rparr>) (ra_deleteCluster restoreApiEx ns n u)" for ns n u
    by (simp add: restoreApiEx_fields maybe_def viewEx_changes)
  show "maybe viewEx (jobTrace j) (ra_createJob restoreApiEx j)" for j
  proof (cases "writes j")
    case (Some x)
    then show ?thesis by (cases x) (simp add: restoreApiEx_fields maybe_def jobTrace_def viewEx_changes)
  qed (simp add: restoreApiEx_fields maybe_def jobTrace_def)
qed

lemma readsRunEx: "readsRun viewEx restoreApiEx ''ns'' ''run''"
  by (auto simp: readsRun_def restoreApiEx_def viewEx_def)

lemma newSystemEx: "newSystem (viewEx (lifeEx 0))"
  by (simp add: newSystem_def viewEx_def restoreRunEx_def restoreRunStatus0_def runOk_def Finished_def resumedAll_def)

lemma lifeEx_reached: "(restoreWorld viewEx restoreApiEx ''ns'' ''run'')\<^sup>*\<^sup>* (lifeEx 0) (lifeEx n)"
proof (induction n)
  case (Suc n)
  have "restoreWorld viewEx restoreApiEx ''ns'' ''run'' (lifeEx n) (lifeEx (Suc n))"
    by (rule wPass[where x = "fst (ReconcileRestore restoreApiEx ''ns'' ''run'' (lifeEx n))"]) simp
  with Suc show ?case by (rule rtranclp.rtrancl_into_rtrancl)
qed simp

section \<open>The run succeeds\<close>

definition endEx :: "restoreWorldEx \<Rightarrow> runPhase \<times> itemPhase list \<times> (string \<times> string) list \<times> (string \<times> string \<times> string) list \<times> bool" where
  "endEx w = (rt_Phase (rr_status (rx_run w)), map ri_Phase (rt_Items (rr_status (rx_run w))), rx_deletes w, rx_jobs w, rx_woken w)"

lemma lifeEx_end:
  "endEx (lifeEx 8) = (RunPhaseSucceeded, [ItemSucceeded, ItemSucceeded], [(''pg'', ''old'')], [(''restore-01234567-0'', ''data'', ''abcdefghij'')], True)"
  by code_simp

lemma lifeEx_traces:
  "(''pg'', ''old'') \<in> as_deletes (viewEx (lifeEx 8))" "(''restore-01234567-0'', ''data'', ''abcdefghij'') \<in> as_jobs (viewEx (lifeEx 8))"
  "as_woken (viewEx (lifeEx 8))" "ar_phase (as_run (viewEx (lifeEx 8))) = RunPhaseSucceeded"
  using lifeEx_end by (simp_all add: endEx_def viewEx_def)

lemmas exLife = restoreLawsEx readsRunEx newSystemEx lifeEx_reached

theorem pass_refines_witness:
  "protocol\<^sup>*\<^sup>* (viewEx (lifeEx 7)) (viewEx (lifeEx 8)) \<and> runOk (as_run (viewEx (lifeEx 8)))"
proof (rule pass_refines[OF restoreLawsEx readsRunEx])
  show "runOk (as_run (viewEx (lifeEx 7)))" using life_ok[OF exLife] by (simp add: systemOk_def)
  have "lifeEx 8 = snd (ReconcileRestore restoreApiEx ''ns'' ''run'' (lifeEx 7))" by (simp add: numeral_eq_Suc)
  then show "ReconcileRestore restoreApiEx ''ns'' ''run'' (lifeEx 7) = (fst (ReconcileRestore restoreApiEx ''ns'' ''run'' (lifeEx 7)), lifeEx 8)" by simp
qed

theorem delete_recorded_witness:
  "recordedDelete (as_run (viewEx (lifeEx 8))) (''pg'', ''old'') \<and> volumesIn (ar_items (as_run (viewEx (lifeEx 8))))"
  by (rule delete_recorded[OF exLife lifeEx_traces(1)])

theorem job_recorded_witness:
  "recordedJob (as_run (viewEx (lifeEx 8))) (''restore-01234567-0'', ''data'', ''abcdefghij'')"
  using job_recorded[OF exLife lifeEx_traces(2)] by blast

theorem woken_after_restore_witness:
  "as_woken (viewEx (lifeEx 8)) \<and> ar_resumed (as_run (viewEx (lifeEx 8))) \<and>
   (ar_ending (as_run (viewEx (lifeEx 8))) \<or> list_all (\<lambda>i. isVolume i \<longrightarrow> ended (ai_stage i)) (ar_items (as_run (viewEx (lifeEx 8)))))"
  using woken_after_restore[OF exLife lifeEx_traces(3)] lifeEx_traces(3) by blast

theorem finished_settled_witness:
  "list_all (\<lambda>i. ended (ai_stage i)) (ar_items (as_run (viewEx (lifeEx 8)))) \<and> ar_up (as_run (viewEx (lifeEx 8)))"
proof -
  have "Finished (ar_phase (as_run (viewEx (lifeEx 8))))" by (simp add: lifeEx_traces(4) Finished_def)
  from finished_settled[OF exLife this] show ?thesis by blast
qed

section \<open>A selection\<close>

text \<open>A synced restore: the repository holds a paused snapshot that names the database's base backup \<open>b1\<close>,
  which ended after the snapshot's time; an older one, \<open>b0\<close>, is in the archive too.\<close>

definition syncedApiEx :: "restoreWorldEx restoreApi" where
  "syncedApiEx = restoreApiEx\<lparr>
     ra_snapshots := \<lambda>sec. ret [snapshot0\<lparr>sn_ID := ''abcdefghij'', sn_Time := 5 * second, sn_Tags := [PausedTag, ''base-backup/pg=b1'']\<rparr>],
     ra_BaseBackups := \<lambda>loc. ret [\<lparr>bb_ID = ''b0'', bb_End = 4 * second\<rparr>, \<lparr>bb_ID = ''b1'', bb_End = 6 * second\<rparr>]\<rparr>"

definition selectRunEx :: restoreRun where
  "selectRunEx = restoreRunEx\<lparr>rr_spec := (rr_spec restoreRunEx)\<lparr>rs_SyncDatabaseToVolume := True\<rparr>,
     rr_status := restoreRunStatus0\<lparr>rt_Items := [pendingRestore ''PersistentVolumeClaim'' ''data'', pendingRestore ''Cluster'' ''pg'']\<rparr>\<rparr>"

theorem selection_all_or_nothing_witness:
  "\<exists>run' w' s. selectBackups syncedApiEx selectRunEx (lifeEx 0) = (Inr (run', []), w') \<and>
     map (\<lambda>i. (ri_SnapshotID i, ri_BaseBackup i, ri_StopAtBaseBackup i)) (rt_Items (rr_status run')) = [(''abcdefghij'', [], False), ([], ''b1'', True)] \<and>
     rt_SyncedTo (rr_status run') = Some (sn_Time s) \<and>
     list_all2 (selected syncedApiEx selectRunEx None (Some s)) (rt_Items (rr_status selectRunEx)) (rt_Items (rr_status run'))"
proof -
  have "case selectBackups syncedApiEx selectRunEx (lifeEx 0) of (Inr (run', reason), w') \<Rightarrow> reason = [] \<and>
     map (\<lambda>i. (ri_SnapshotID i, ri_BaseBackup i, ri_StopAtBaseBackup i)) (rt_Items (rr_status run')) = [(''abcdefghij'', [], False), ([], ''b1'', True)] | _ \<Rightarrow> False"
    by code_simp
  then obtain run' w' where s: "selectBackups syncedApiEx selectRunEx (lifeEx 0) = (Inr (run', []), w')"
    and i: "map (\<lambda>i. (ri_SnapshotID i, ri_BaseBackup i, ri_StopAtBaseBackup i)) (rt_Items (rr_status run')) = [(''abcdefghij'', [], False), ([], ''b1'', True)]"
    by (auto split: prod.splits sum.splits)
  have t: "restoreTarget selectRunEx = Inr None" "case rs_Previous (rr_spec selectRunEx) of None \<Rightarrow> True | Some n \<Rightarrow> 0 \<le> n"
    by (simp_all add: restoreTarget_def selectRunEx_def restoreRunEx_def restoreRunSpec0_def)
  obtain synced where y: "list_all2 (selected syncedApiEx selectRunEx None synced) (rt_Items (rr_status selectRunEx)) (rt_Items (rr_status run'))"
    "case synced of Some s \<Rightarrow> rt_SyncedTo (rr_status run') = Some (sn_Time s)
      | None \<Rightarrow> rs_SyncDatabaseToVolume (rr_spec selectRunEx) \<longrightarrow>
          (\<forall>i \<in> set (rt_Items (rr_status selectRunEx)). ri_Phase i = ItemPending \<longrightarrow> ri_Kind i \<notin> {''PersistentVolumeClaim'', ''Cluster''})"
    using selection_all_or_nothing[OF s t] by (auto split: option.splits)
  have "pendingRestore ''Cluster'' ''pg'' \<in> set (rt_Items (rr_status selectRunEx))" "rs_SyncDatabaseToVolume (rr_spec selectRunEx)"
    by (simp_all add: selectRunEx_def)
  then have "synced \<noteq> None" using y(2) by (cases synced) (auto simp: pendingRestore_def restoreItem0_def)
  then obtain s0 where "synced = Some s0" by blast
  then show ?thesis using s i y by auto
qed

section \<open>A resume that is too early\<close>

text \<open>Someone deletes the restore Job of a volume while its pod still writes. The volume fails, so nothing
  is left to restore, and the pass resumes the app before \<open>release\<close> finds the pod: \<open>release\<close> waits for the
  pods of the Jobs, as its comment says, but the resume of \<open>work\<close> comes first and does not.\<close>

definition podLeftApiEx :: "restoreWorldEx restoreApi" where
  "podLeftApiEx = restoreApiEx\<lparr>ra_getJob := \<lambda>ns n. failM (NotFound n),
     ra_listJobPods := \<lambda>ns n. ret [\<lparr>po_meta = objectMeta0\<lparr>m_name := ''mover''\<rparr>, po_phase = PodRunning, po_claims = [''data'']\<rparr>]\<rparr>"

definition podLeftRunEx :: restoreRun where
  "podLeftRunEx = restoreRunEx\<lparr>rr_status := restoreRunStatus0\<lparr>rt_Phase := RunPhaseRunning, rt_StartedAt := Some (90 * second), rt_SelectedAt := Some (91 * second),
     rt_PausedAt := Some (92 * second), rt_Paused := [pausedEx False],
     rt_Items := [(pendingRestore ''PersistentVolumeClaim'' ''data'')\<lparr>ri_Phase := ItemRunning, ri_Job := ''restore-01234567-0''\<rparr>]\<rparr>\<rparr>"

definition podLeftWorldEx :: restoreWorldEx where
  "podLeftWorldEx = \<lparr>rx_run = podLeftRunEx, rx_deletes = [], rx_jobs = [(''restore-01234567-0'', ''data'', ''abc'')], rx_woken = False\<rparr>"

theorem resumed_beside_restore_pod:
  "rx_woken (snd (ReconcileRestore podLeftApiEx ''ns'' ''run'' podLeftWorldEx)) \<and>
   fst (jobPodLeft podLeftApiEx ''ns'' ''restore-01234567-0'' (snd (ReconcileRestore podLeftApiEx ''ns'' ''run'' podLeftWorldEx))) = Inr ''mover''"
proof
  show "rx_woken (snd (ReconcileRestore podLeftApiEx ''ns'' ''run'' podLeftWorldEx))" by code_simp
  show "fst (jobPodLeft podLeftApiEx ''ns'' ''restore-01234567-0'' w) = Inr ''mover''" for w
    by (simp add: jobPodLeft_def podLeftApiEx_def call_simps objectMeta0_def)
qed

end
