(* ===== verification/Populator.thy ===== *)
theory Populator
  imports Choose Kueue Restore_Job Hoare_Calls
begin

text \<open>
  The callbacks that fill a new claim from its VolumeRestore, from \<open>src/internal/populator/populator.go\<close> and
  \<open>status.go\<close>, with \<open>src/internal/volsync/secret.go\<close>. The volume populator library calls them again and again
  with the claim, the prime claim and the VolumeRestore it cached.

  The calls of the callbacks are the fields of the parameter \<open>populatorApi\<close>. \<open>vr.Status\<close> is changed in memory
  through pointers into its entries; here each change returns the new VolumeRestore. What decoding the
  library's unstructured object gives is part of the parameters. A Secret's type is not part of the
  record of a Secret, and a clone of its data is the data.
\<close>

record 'w populatorApi =
  cb_GetJob :: "string \<Rightarrow> string \<Rightarrow> ('w, job) call"
  cb_CreateJob :: "job \<Rightarrow> ('w, unit) call"
  cb_DeleteJob :: "string \<Rightarrow> string \<Rightarrow> ('w, unit) call"
  cb_GetSecret :: "string \<Rightarrow> string \<Rightarrow> ('w, secret) call"
  cb_CreateSecret :: "secret \<Rightarrow> ('w, unit) call"
  cb_DeleteSecret :: "string \<Rightarrow> string \<Rightarrow> ('w, unit) call"
  cb_SetStatus :: "volumeRestore \<Rightarrow> ('w, unit) call"
  cb_listVRs :: "string \<Rightarrow> ('w, volumeRestore list) call"
  cb_listJobPods :: "string \<Rightarrow> string \<Rightarrow> ('w, pod list) call"
  cb_listQueues :: "string \<Rightarrow> ('w, string list) call"
  cb_getWorkload :: "string \<Rightarrow> string \<Rightarrow> ('w, kueueWorkload) call"
  cb_createWorkload :: "kueueWorkload \<Rightarrow> ('w, kueueWorkload) call"
  cb_updateWorkload :: "kueueWorkload \<Rightarrow> ('w, unit) call"
  cb_deleteWorkload :: "string \<Rightarrow> string \<Rightarrow> ('w, unit) call"
  cb_readSecret :: "string \<Rightarrow> string \<Rightarrow> ('w, secret) call"
  cb_snapshots :: "secret \<Rightarrow> ('w, snapshot list) call"
  cb_setCond :: "condition list \<Rightarrow> condition \<Rightarrow> condition list"
  cb_Now :: "'w \<Rightarrow> gtime"
  cb_Namespace :: string
  cb_Image :: string
  cb_Paused :: bool

record populatorParams =
  pp_Pvc :: "claim option"
  pp_PvcPrime :: "claim option"
  pp_Unstructured :: "(gerr + volumeRestore) option"

definition queueLabel :: string where "queueLabel = ''kueue.x-k8s.io/queue-name''"
definition populatorKind :: string where "populatorKind = ''populator''"

definition populateJobName :: "string \<Rightarrow> string" where
  "populateJobName uid = ''restore-'' @ uid"

definition populateWorkloadName :: "string \<Rightarrow> string" where
  "populateWorkloadName uid = workloadName populatorKind uid"

definition jobLabels :: "volumeRestore \<Rightarrow> smap" where
  "jobLabels vr = (case MoverLabels (vr_spec vr) of None \<Rightarrow> Map.empty | Some labels \<Rightarrow> labels(queueLabel := None))"

section \<open>The entries of the status\<close>

definition findEntry :: "string \<Rightarrow> volumeRestore \<Rightarrow> claimRestoreStatus option" where
  "findEntry uid vr = find (\<lambda>e. cs_UID e = uid) (vt_Claims (vr_status vr))"

text \<open>Writing through the pointer that \<open>find\<close> returns: the first entry of the claim changes.\<close>

primrec modFirst :: "string \<Rightarrow> (claimRestoreStatus \<Rightarrow> claimRestoreStatus) \<Rightarrow> claimRestoreStatus list \<Rightarrow> claimRestoreStatus list" where
  "modFirst uid f [] = []"
| "modFirst uid f (e # es) = (if cs_UID e = uid then f e # es else e # modFirst uid f es)"

definition modEntry :: "string \<Rightarrow> (claimRestoreStatus \<Rightarrow> claimRestoreStatus) \<Rightarrow> volumeRestore \<Rightarrow> volumeRestore" where
  "modEntry uid f vr = vr\<lparr>vr_status := (vr_status vr)\<lparr>vt_Claims := modFirst uid f (vt_Claims (vr_status vr))\<rparr>\<rparr>"

text \<open>A new entry; each caller of \<open>entry\<close> sets its phase next.\<close>

definition newEntry :: "string \<Rightarrow> claimRestoreStatus" where
  "newEntry uid = \<lparr>cs_Name = [], cs_UID = uid, cs_Phase = RestorePhaseRestoring, cs_StartedAt = None, cs_Snapshot = [], cs_SnapshotID = [], cs_SnapshotTime = None\<rparr>"

definition entryAt :: "gtime \<Rightarrow> volumeRestore \<Rightarrow> claim \<Rightarrow> volumeRestore" where
  "entryAt now vr cl =
     (let uid = m_uid (pc_meta cl);
          vr1 = (if findEntry uid vr = None then vr\<lparr>vr_status := (vr_status vr)\<lparr>vt_Claims := vt_Claims (vr_status vr) @ [newEntry uid]\<rparr>\<rparr> else vr) in
      modEntry uid (\<lambda>e. e\<lparr>cs_Name := m_name (pc_meta cl), cs_StartedAt := (if cs_StartedAt e = None then Some now else cs_StartedAt e)\<rparr>) vr1)"

definition entry :: "'w populatorApi \<Rightarrow> volumeRestore \<Rightarrow> claim \<Rightarrow> ('w, volumeRestore) call" where
  "entry api vr cl = (\<lambda>w. (Inr (entryAt (cb_Now api w) vr cl), w))"

definition setSnapshot :: "snapshot option \<Rightarrow> claimRestoreStatus \<Rightarrow> claimRestoreStatus" where
  "setSnapshot snapshot status =
     (case snapshot of
        None \<Rightarrow> status\<lparr>cs_Snapshot := [], cs_SnapshotID := [], cs_SnapshotTime := None\<rparr>
      | Some s \<Rightarrow> status\<lparr>cs_Snapshot := ShortID s, cs_SnapshotID := sn_ID s, cs_SnapshotTime := Some (sn_Time s)\<rparr>)"

definition decided :: "volumeRestore \<Rightarrow> string \<Rightarrow> claimRestoreStatus option" where
  "decided vr uid =
     (case findEntry uid vr of
        None \<Rightarrow> None
      | Some e \<Rightarrow> if cs_Phase e \<noteq> RestorePhaseRestoring then None else Some e)"

definition setReadyV :: "'w populatorApi \<Rightarrow> volumeRestore \<Rightarrow> condStatus \<Rightarrow> string \<Rightarrow> string \<Rightarrow> volumeRestore" where
  "setReadyV api vr status reason message =
     vr\<lparr>vr_status := (vr_status vr)\<lparr>vt_Conditions :=
       SetReady (cb_setCond api) (vt_Conditions (vr_status vr)) (m_generation (vr_meta vr)) status reason message\<rparr>\<rparr>"

definition settle :: "'w populatorApi \<Rightarrow> volumeRestore \<Rightarrow> volumeRestore" where
  "settle api vr =
     (let (restoring, failed) = foldl (\<lambda>(restoring, failed) e. case cs_Phase e of
            RestorePhaseRestoring \<Rightarrow> (restoring + 1, failed)
          | RestorePhaseFailed \<Rightarrow> (restoring, failed + 1)
          | _ \<Rightarrow> (restoring, failed)) (0::int, 0::int) (vt_Claims (vr_status vr)) in
      if failed > 0 then vr
      else if restoring > 0 then setReadyV api vr CondFalse ReasonRestoring (itoa restoring @ '' claim(s) still restoring'')
      else setReadyV api vr CondTrue ReasonRestored ''no claim is being restored'')"

section \<open>Parameters and writes\<close>

definition validateCleanupParams :: "populatorParams \<Rightarrow> gerr + unit" where
  "validateCleanupParams params =
     (if pp_Pvc params = None then Inl (Plain ''populator parameters have no application PVC'')
      else if pp_Unstructured params = None then Inl (Plain ''populator parameters have no VolumeRestore'')
      else Inr ())"

definition validateParams :: "populatorParams \<Rightarrow> gerr + unit" where
  "validateParams params =
     bindE (validateCleanupParams params) (\<lambda>_.
     if pp_PvcPrime params = None then Inl (Plain ''populator parameters have no prime PVC'') else Inr ())"

definition decodeVolumeRestore :: "populatorParams \<Rightarrow> gerr + volumeRestore" where
  "decodeVolumeRestore params = wrapE ''decode VolumeRestore: '' (the (pp_Unstructured params))"

definition writeVR :: "'w populatorApi \<Rightarrow> volumeRestore \<Rightarrow> volumeRestoreStatus \<Rightarrow> ('w, unit) call" where
  "writeVR api vr before =
     (if before = vr_status vr then ret ()
      else wrapM ''set VolumeRestore status: '' (cb_SetStatus api vr))"

definition releaseSlot :: "'w populatorApi \<Rightarrow> claim \<Rightarrow> ('w, unit) call" where
  "releaseSlot api cl = admissionDelete (cb_deleteWorkload api) (cb_Namespace api) populatorKind (m_uid (pc_meta cl))"

definition claimPath :: "claim \<Rightarrow> string" where
  "claimPath cl = m_namespace (pc_meta cl) @ ''/'' @ m_name (pc_meta cl)"

section \<open>Waiting\<close>

definition waitPaused :: "'w populatorApi \<Rightarrow> volumeRestore \<Rightarrow> claim \<Rightarrow> ('w, unit) call" where
  "waitPaused api vr cl =
     thenM (writeVR api (setReadyV api vr CondFalse ReasonControllerPaused
              (''the restore of claim '' @ claimPath cl @ '' starts once the controller runs without --pause'')) (vr_status vr))
       (failM (Wrap (''claim '' @ claimPath cl @ '' waits: '') ErrPaused))"

definition queuedV :: "'w populatorApi \<Rightarrow> volumeRestore \<Rightarrow> claim \<Rightarrow> string \<Rightarrow> ('w, unit) call" where
  "queuedV api vr cl message =
     thenM (writeVR api (setReadyV api vr CondFalse ReasonQueued message) (vr_status vr))
       (failM (Wrap (''claim '' @ claimPath cl @ '' waits: '') ErrQueued))"

definition admitClaim :: "'w populatorApi \<Rightarrow> volumeRestore \<Rightarrow> claim \<Rightarrow> claim \<Rightarrow> ('w, unit) call" where
  "admitClaim api vr cl prime =
     bindM (attempt (LocalQueue (cb_listQueues api) (cb_Namespace api))) (\<lambda>r. case r of
       Inl err \<Rightarrow> if anyErr isNoQueue1 err then queuedV api vr cl (asText isNoQueue1 err) else failM err
     | Inr queue \<Rightarrow>
         bindM (EnsureWorkload (cb_getWorkload api) (cb_createWorkload api) (cb_Namespace api)
                  (populateWorkloadName (m_uid (pc_meta cl))) queue (m_uid (pc_meta prime))) (\<lambda>workload.
         if Evicted workload
         then thenM (releaseSlot api cl) (queuedV api vr cl ''Kueue evicted the restore before it started; it asks the backup queue again'')
         else if \<not> Admitted workload
         then queuedV api vr cl (''the restore of claim '' @ claimPath cl @ '' waits for the backup queue to admit it'')
         else MarkPodsReady (cb_setCond api) (cb_updateWorkload api) workload))"

section \<open>Choosing the snapshot\<close>

definition snapshotsOf :: "'w populatorApi \<Rightarrow> string \<Rightarrow> string \<Rightarrow> ('w, snapshot list) call" where
  "snapshotsOf api namespace repository =
     bindM (wrapM (''get repository Secret '' @ namespace @ ''/'' @ repository @ '': '') (cb_GetSecret api namespace repository)) (\<lambda>sec.
     wrapM (''list the snapshots in '' @ namespace @ ''/'' @ repository @ '': '') (cb_snapshots api sec))"

definition pick :: "'w populatorApi \<Rightarrow> volumeRestore \<Rightarrow> claim \<Rightarrow> ('w, snapshot option) call" where
  "pick api vr cl =
     (let namespace = m_namespace (pc_meta cl); repository = vs_Repository (vr_spec vr) in
      bindM (liftE (pinOf vr cl)) (\<lambda>pinned. case pinned of
        Some p \<Rightarrow>
          bindM (snapshotsOf api namespace repository) (\<lambda>snapshots. liftE (chooseSnapshot snapshots (Some p) None))
      | None \<Rightarrow>
          bindM (wrapM (''find the paused moment of '' @ namespace @ '': '') (Repositories (cb_listVRs api) (cb_readSecret api) (cb_snapshots api) namespace)) (\<lambda>repositories.
          bindM (case map_of repositories repository of Some snapshots \<Rightarrow> ret snapshots | None \<Rightarrow> snapshotsOf api namespace repository) (\<lambda>snapshots.
          liftE (chooseSnapshot snapshots None (Moment repositories))))))"

fun isOutOfReach1 :: "gerr \<Rightarrow> bool" where
  "isOutOfReach1 (OutOfReach _) = True"
| "isOutOfReach1 _ = False"

definition unreachable :: "'w populatorApi \<Rightarrow> volumeRestore \<Rightarrow> claim \<Rightarrow> string \<Rightarrow> ('w, 'a) call" where
  "unreachable api vr cl reach =
     bindM (entry api vr cl) (\<lambda>vr1.
     let vr2 = modEntry (m_uid (pc_meta cl)) (\<lambda>e. setSnapshot None (e\<lparr>cs_Phase := RestorePhaseFailed\<rparr>)) vr1 in
     thenM (writeVR api (setReadyV api vr2 CondFalse ReasonNoBackupInReach reach) (vr_status vr))
       (failM (Wrap (''claim '' @ claimPath cl @ '': '') (OutOfReach reach))))"

definition decideMessage :: "'w populatorApi \<Rightarrow> volumeRestore \<Rightarrow> claim \<Rightarrow> snapshot option \<Rightarrow> string" where
  "decideMessage api vr cl snapshot =
     (case snapshot of
        None \<Rightarrow> ''repository '' @ vs_Repository (vr_spec vr) @ '' holds no snapshot, so claim '' @ claimPath cl @ '' binds empty''
      | Some s \<Rightarrow> ''restoring snapshot '' @ ShortID s @ '' from '' @ formatRFC3339 (sn_Time s) @ '' into claim '' @ claimPath cl @
          '' with Job '' @ cb_Namespace api @ ''/'' @ populateJobName (m_uid (pc_meta cl)))"

definition decideV :: "'w populatorApi \<Rightarrow> volumeRestore \<Rightarrow> claim \<Rightarrow> ('w, claimRestoreStatus) call" where
  "decideV api vr cl =
     (let uid = m_uid (pc_meta cl) in
      bindM (attempt (pick api vr cl)) (\<lambda>r. case r of
        Inl err \<Rightarrow> if anyErr isOutOfReach1 err then unreachable api vr cl (asText isOutOfReach1 err) else failM err
      | Inr snapshot \<Rightarrow>
          bindM (entry api vr cl) (\<lambda>vr1.
          let vr2 = modEntry uid (\<lambda>e. setSnapshot snapshot (e\<lparr>cs_Phase := RestorePhaseRestoring\<rparr>)) vr1;
              recorded = the (findEntry uid vr2) in
          thenM (writeVR api (setReadyV api vr2 CondFalse ReasonRestoring (decideMessage api vr cl snapshot)) (vr_status vr))
            (ret recorded))))"

section \<open>Starting the Job\<close>

definition SecretCopyName :: "string \<Rightarrow> string" where
  "SecretCopyName claimUID = claimUID"

definition SecretCopy :: "secret \<Rightarrow> string \<Rightarrow> string \<Rightarrow> secret" where
  "SecretCopy repo claimUID namespace =
     \<lparr>se_meta = objectMeta0\<lparr>m_name := SecretCopyName claimUID, m_namespace := namespace\<rparr>, se_data = se_data repo\<rparr>"

definition copySecret :: "'w populatorApi \<Rightarrow> volumeRestore \<Rightarrow> claim \<Rightarrow> ('w, unit) call" where
  "copySecret api vr cl =
     (let namespace = cb_Namespace api; name = SecretCopyName (m_uid (pc_meta cl)); appNamespace = m_namespace (pc_meta cl);
          repository = vs_Repository (vr_spec vr) in
      bindM (attempt (cb_GetSecret api namespace name)) (\<lambda>r. case r of
        Inr _ \<Rightarrow> ret ()
      | Inl err \<Rightarrow>
          if \<not> IsNotFound err then failM (Wrap (''check copied repository Secret '' @ namespace @ ''/'' @ name @ '': '') err)
          else
          bindM (wrapM (''get repository Secret '' @ appNamespace @ ''/'' @ repository @ '': '') (cb_GetSecret api appNamespace repository)) (\<lambda>repo.
          bindM (attempt (cb_CreateSecret api (SecretCopy repo (m_uid (pc_meta cl)) namespace))) (\<lambda>r. case r of
            Inl err \<Rightarrow> if IsAlreadyExists err then ret () else failM (Wrap (''create copied repository Secret '' @ namespace @ ''/'' @ name @ '': '') err)
          | Inr _ \<Rightarrow> ret ()))))"

definition populateJob :: "'w populatorApi \<Rightarrow> volumeRestore \<Rightarrow> claim \<Rightarrow> string \<Rightarrow> string \<Rightarrow> job" where
  "populateJob api vr cl prime snapshotID =
     New \<lparr>js_Namespace = cb_Namespace api, js_Name = populateJobName (m_uid (pc_meta cl)), js_Image = cb_Image api, js_Claim = prime,
       js_RepositorySecret = SecretCopyName (m_uid (pc_meta cl)), js_SnapshotID = snapshotID,
       js_SecurityContext = vs_MoverSecurityContext (vr_spec vr), js_Owner = m_namespace (pc_meta cl), js_OwnerReferences = [],
       js_Labels = jobLabels vr\<rparr>"

definition startJob :: "'w populatorApi \<Rightarrow> volumeRestore \<Rightarrow> claim \<Rightarrow> string \<Rightarrow> string \<Rightarrow> ('w, unit) call" where
  "startJob api vr cl prime snapshotID =
     thenM (copySecret api vr cl) (
     bindM (attempt (cb_CreateJob api (populateJob api vr cl prime snapshotID))) (\<lambda>r. case r of
       Inl err \<Rightarrow> if IsAlreadyExists err then ret ()
                  else failM (Wrap (''create restore Job '' @ cb_Namespace api @ ''/'' @ populateJobName (m_uid (pc_meta cl)) @ '': '') err)
     | Inr _ \<Rightarrow> ret ()))"

section \<open>The callbacks\<close>

text \<open>Deciding, with the slot given back when no decision was recorded: \<open>errors.Join\<close> of an error and a
  nil error reads as the error.\<close>

definition decideOrRelease :: "'w populatorApi \<Rightarrow> volumeRestore \<Rightarrow> claim \<Rightarrow> ('w, claimRestoreStatus) call" where
  "decideOrRelease api vr cl =
     (case decided vr (m_uid (pc_meta cl)) of
        Some status \<Rightarrow> ret status
      | None \<Rightarrow>
          bindM (attempt (decideV api vr cl)) (\<lambda>r. case r of
            Inr status \<Rightarrow> ret status
          | Inl err \<Rightarrow>
              bindM (attempt (releaseSlot api cl)) (\<lambda>r. case r of
                Inl err2 \<Rightarrow> failM (Join err err2)
              | Inr _ \<Rightarrow> failM err)))"

definition populateClaim :: "'w populatorApi \<Rightarrow> volumeRestore \<Rightarrow> claim \<Rightarrow> claim \<Rightarrow> ('w, unit) call" where
  "populateClaim api vr cl prime =
     (let name = populateJobName (m_uid (pc_meta cl)) in
      bindM (attempt (cb_GetJob api (cb_Namespace api) name)) (\<lambda>r. case r of
        Inr _ \<Rightarrow> ret ()
      | Inl err \<Rightarrow>
          if \<not> IsNotFound err then failM (Wrap (''get restore Job '' @ cb_Namespace api @ ''/'' @ name @ '': '') err)
          else if cb_Paused api then waitPaused api vr cl
          else
          thenM (admitClaim api vr cl prime) (
          bindM (decideOrRelease api vr cl) (\<lambda>status.
          if cs_SnapshotID status = [] then ret ()
          else startJob api vr cl (m_name (pc_meta prime)) (cs_SnapshotID status)))))"

definition Populate :: "'w populatorApi \<Rightarrow> populatorParams \<Rightarrow> ('w, unit) call" where
  "Populate api params =
     thenM (liftE (validateParams params)) (
     bindM (liftE (decodeVolumeRestore params)) (\<lambda>vr.
     populateClaim api vr (the (pp_Pvc params)) (the (pp_PvcPrime params))))"

definition failedV :: "'w populatorApi \<Rightarrow> populatorParams \<Rightarrow> ('w, unit) call" where
  "failedV api params =
     bindM (liftE (decodeVolumeRestore params)) (\<lambda>vr.
     let cl = the (pp_Pvc params); uid = m_uid (pc_meta cl) in
     bindM (entry api vr cl) (\<lambda>vr1.
     let vr2 = modEntry uid (\<lambda>e. e\<lparr>cs_Phase := RestorePhaseFailed\<rparr>) vr1;
         message = ''restic failed to restore snapshot '' @ cs_Snapshot (the (findEntry uid vr2)) @ '' into claim '' @ claimPath cl @
           ''; see kubectl -n '' @ cb_Namespace api @ '' logs job/'' @ populateJobName uid in
     writeVR api (setReadyV api vr2 CondFalse ReasonRestoreFailed message) (vr_status vr)))"

definition Complete :: "'w populatorApi \<Rightarrow> populatorParams \<Rightarrow> ('w, bool) call" where
  "Complete api params =
     thenM (liftE (validateParams params)) (
     let cl = the (pp_Pvc params); name = populateJobName (m_uid (pc_meta cl)) in
     bindM (attempt (cb_GetJob api (cb_Namespace api) name)) (\<lambda>r. case r of
       Inl err \<Rightarrow>
         if IsNotFound err then
           bindM (liftE (decodeVolumeRestore params)) (\<lambda>vr.
           case decided vr (m_uid (pc_meta cl)) of
             Some status \<Rightarrow> if cs_SnapshotID status = [] then thenM (releaseSlot api cl) (ret True) else ret False
           | None \<Rightarrow> ret False)
         else failM (Wrap (''get restore Job '' @ cb_Namespace api @ ''/'' @ name @ '': '') err)
     | Inr job \<Rightarrow>
         (case Result job of
            OutSucceeded \<Rightarrow> thenM (releaseSlot api cl) (ret True)
          | OutFailed \<Rightarrow> thenM (releaseSlot api cl) (thenM (failedV api params) (ret False))
          | OutRunning \<Rightarrow> ret False)))"

text \<open>\<open>if err != nil && !apierrors.IsNotFound(err)\<close>\<close>

definition deleteGone :: "string \<Rightarrow> ('w, unit) call \<Rightarrow> ('w, unit) call" where
  "deleteGone t c = bindM (attempt c) (\<lambda>r. case r of Inl err \<Rightarrow> if IsNotFound err then ret () else failM (Wrap t err) | Inr _ \<Rightarrow> ret ())"

definition podsStopped :: "'w populatorApi \<Rightarrow> string \<Rightarrow> ('w, unit) call" where
  "podsStopped api name =
     bindM (wrapM (''list the pods of restore Job '' @ name @ '': '') (cb_listJobPods api (cb_Namespace api) name)) (\<lambda>pods.
     case find (\<lambda>p. po_phase p \<noteq> PodSucceeded \<and> po_phase p \<noteq> PodFailed) pods of
       Some p \<Rightarrow> failM (Plain (''pod '' @ m_name (po_meta p) @ '' of restore Job '' @ name @ '' is still stopping''))
     | None \<Rightarrow> ret ())"

definition Cleanup :: "'w populatorApi \<Rightarrow> populatorParams \<Rightarrow> ('w, unit) call" where
  "Cleanup api params =
     thenM (liftE (validateCleanupParams params)) (
     let cl = the (pp_Pvc params); uid = m_uid (pc_meta cl) in
     thenM (deleteGone ''delete restore Job: '' (cb_DeleteJob api (cb_Namespace api) (populateJobName uid))) (
     thenM (podsStopped api (populateJobName uid)) (
     thenM (releaseSlot api cl) (
     thenM (deleteGone ''delete copied repository Secret: '' (cb_DeleteSecret api (cb_Namespace api) (SecretCopyName uid))) (
     bindM (liftE (decodeVolumeRestore params)) (\<lambda>vr.
     writeVR api (settle api (modEntry uid (\<lambda>e. e\<lparr>cs_Phase := RestorePhaseRestored\<rparr>) vr)) (vr_status vr)))))))"

end
