(* ===== verification/Populator_Safe.thy ===== *)
theory Populator_Safe
  imports Populator
begin

text \<open>
  What the callbacks of the volume populator promise. The laws say what the proofs use of the API server,
  on a view of the state of the world: the versions of the VolumeRestore that were ever stored, and the
  Jobs that were ever created. A status write or a create that fails may have been carried out, since the
  reply can be lost. The library calls the callbacks with any version that was stored, so with a cached
  copy that may be old.
\<close>

record popTrace =
  pt_versions :: "volumeRestore list"
  pt_jobs :: "job list"

text \<open>A write whose reply can be lost: it is carried out when it returns, and may be when it fails.\<close>

definition records :: "('a \<Rightarrow> ('w, unit) call) \<Rightarrow> ('w \<Rightarrow> 't) \<Rightarrow> ('a \<Rightarrow> 't \<Rightarrow> 't) \<Rightarrow> bool" where
  "records c v f = (\<forall>x w r w'. c x w = (r, w') \<longrightarrow> v w' = f x (v w) \<or> (\<exists>e. r = Inl e) \<and> v w' = v w)"

lemma recordsD: "records c v f \<Longrightarrow> c x w = (r, w') \<Longrightarrow> v w' = f x (v w) \<or> (\<exists>e. r = Inl e) \<and> v w' = v w"
  unfolding records_def by blast

definition populatorLaws :: "'w populatorApi \<Rightarrow> ('w \<Rightarrow> popTrace) \<Rightarrow> bool" where
  "populatorLaws api v = (
     (\<forall>ns n. keeps v (cb_GetJob api ns n)) \<and>
     (\<forall>ns n. keeps v (cb_DeleteJob api ns n)) \<and>
     (\<forall>ns n. keeps v (cb_GetSecret api ns n)) \<and>
     (\<forall>s. keeps v (cb_CreateSecret api s)) \<and>
     (\<forall>ns n. keeps v (cb_DeleteSecret api ns n)) \<and>
     (\<forall>ns. keeps v (cb_listVRs api ns)) \<and>
     (\<forall>ns n. keeps v (cb_listJobPods api ns n)) \<and>
     (\<forall>ns. keeps v (cb_listQueues api ns)) \<and>
     (\<forall>ns n. keeps v (cb_getWorkload api ns n)) \<and>
     (\<forall>wl. keeps v (cb_createWorkload api wl)) \<and>
     (\<forall>wl. keeps v (cb_updateWorkload api wl)) \<and>
     (\<forall>ns n. keeps v (cb_deleteWorkload api ns n)) \<and>
     (\<forall>ns n. keeps v (cb_readSecret api ns n)) \<and>
     (\<forall>s. keeps v (cb_snapshots api s)) \<and>
     records (cb_SetStatus api) v (\<lambda>vr t. t\<lparr>pt_versions := pt_versions t @ [vr]\<rparr>) \<and>
     records (cb_CreateJob api) v (\<lambda>j t. t\<lparr>pt_jobs := pt_jobs t @ [j]\<rparr>))"

lemma pop_keeps:
  assumes "populatorLaws api v"
  shows "keeps v (cb_GetJob api ns n)" "keeps v (cb_DeleteJob api ns n)" "keeps v (cb_GetSecret api ns n)"
    "keeps v (cb_CreateSecret api s)" "keeps v (cb_DeleteSecret api ns n)" "keeps v (cb_listVRs api ns)"
    "keeps v (cb_listJobPods api ns n)" "keeps v (cb_listQueues api ns)" "keeps v (cb_getWorkload api ns n)"
    "keeps v (cb_createWorkload api wl)" "keeps v (cb_updateWorkload api wl)" "keeps v (cb_deleteWorkload api ns n)"
    "keeps v (cb_readSecret api ns n)" "keeps v (cb_snapshots api s)"
  using assms by (simp_all add: populatorLaws_def)

lemma pop_records:
  assumes "populatorLaws api v"
  shows "records (cb_SetStatus api) v (\<lambda>vr t. t\<lparr>pt_versions := pt_versions t @ [vr]\<rparr>)"
    "records (cb_CreateJob api) v (\<lambda>j t. t\<lparr>pt_jobs := pt_jobs t @ [j]\<rparr>)"
  using assms by (simp_all add: populatorLaws_def)

section \<open>The entries\<close>

lemma find_cong_uid: "find (\<lambda>e. cs_UID e = uid) (modFirst u f es) =
   (if u = uid \<and> (\<forall>e. cs_UID (f e) = cs_UID e) then map_option f (find (\<lambda>e. cs_UID e = uid) es) else find (\<lambda>e. cs_UID e = uid) (modFirst u f es))"
  by (induction es) auto

lemma findEntry_modEntry:
  assumes "\<And>e. cs_UID (f e) = cs_UID e"
  shows "findEntry uid (modEntry uid f vr) = map_option f (findEntry uid vr)"
  using find_cong_uid[of uid uid f "vt_Claims (vr_status vr)"] assms by (simp add: findEntry_def modEntry_def)

lemma findEntry_modEntry_other:
  assumes "\<And>e. cs_UID (f e) = cs_UID e" "u \<noteq> uid"
  shows "findEntry uid (modEntry u f vr) = findEntry uid vr"
proof -
  have "find (\<lambda>e. cs_UID e = uid) (modFirst u f es) = find (\<lambda>e. cs_UID e = uid) es" for es
    using assms by (induction es) auto
  then show ?thesis by (simp add: findEntry_def modEntry_def)
qed

lemma findEntry_uid: "findEntry uid vr = Some e \<Longrightarrow> cs_UID e = uid \<and> e \<in> set (vt_Claims (vr_status vr))"
  unfolding findEntry_def by (auto simp: find_Some_iff)

lemma findEntry_append:
  "find (\<lambda>e. cs_UID e = uid) es = None \<Longrightarrow> find (\<lambda>e. cs_UID e = uid) (es @ [newEntry uid]) = Some (newEntry uid)"
  by (induction es) (auto simp: newEntry_def)

lemma findEntry_entryAt: "\<exists>e. findEntry (m_uid (pc_meta cl)) (entryAt now vr cl) = Some e"
proof -
  let ?uid = "m_uid (pc_meta cl)"
  show ?thesis
  proof (cases "findEntry ?uid vr")
    case None
    then have "findEntry ?uid (vr\<lparr>vr_status := (vr_status vr)\<lparr>vt_Claims := vt_Claims (vr_status vr) @ [newEntry ?uid]\<rparr>\<rparr>) = Some (newEntry ?uid)"
      by (simp add: findEntry_def findEntry_append)
    with None show ?thesis by (simp add: entryAt_def Let_def findEntry_modEntry)
  qed (simp add: entryAt_def Let_def findEntry_modEntry)
qed

lemma findEntry_setReadyV [simp]: "findEntry uid (setReadyV api vr s r m) = findEntry uid vr"
  by (simp add: findEntry_def setReadyV_def)

lemma findEntry_status: "vr_status vr = vr_status vr' \<Longrightarrow> findEntry uid vr = findEntry uid vr'"
  by (simp add: findEntry_def)

lemma setSnapshot_fields [simp]:
  "cs_UID (setSnapshot s e) = cs_UID e" "cs_Phase (setSnapshot s e) = cs_Phase e"
  "cs_SnapshotID (setSnapshot None e) = []" "cs_SnapshotID (setSnapshot (Some sn) e) = sn_ID sn"
  "cs_Snapshot (setSnapshot (Some sn) e) = ShortID sn" "cs_SnapshotTime (setSnapshot (Some sn) e) = Some (sn_Time sn)"
  by (simp_all add: setSnapshot_def split: option.split)

lemma decided_Some: "decided vr uid = Some e \<longleftrightarrow> findEntry uid vr = Some e \<and> cs_Phase e = RestorePhaseRestoring"
  by (auto simp: decided_def split: option.splits)

section \<open>A Job restores what a stored entry records\<close>

text \<open>A stored version of the VolumeRestore holds an entry that is being restored, and the Job is the Job of
  that entry's claim and reads the entry's snapshot from the claim's copy of the Secret.\<close>

definition jobRecorded :: "volumeRestore list \<Rightarrow> job \<Rightarrow> bool" where
  "jobRecorded versions j = (\<exists>vr \<in> set versions. \<exists>e \<in> set (vt_Claims (vr_status vr)).
     cs_Phase e = RestorePhaseRestoring \<and> cs_SnapshotID e \<noteq> [] \<and>
     m_name (jb_meta j) = populateJobName (cs_UID e) \<and>
     argAfter ''restore'' (co_Args (jb_container j)) = Some (cs_SnapshotID e) \<and>
     co_EnvFrom (jb_container j) = SecretCopyName (cs_UID e))"

definition popInv :: "popTrace \<Rightarrow> bool" where
  "popInv t = (\<forall>j \<in> set (pt_jobs t). jobRecorded (pt_versions t) j)"

definition popKnows :: "volumeRestore \<Rightarrow> popTrace \<Rightarrow> bool" where
  "popKnows vr t = (popInv t \<and> vr \<in> set (pt_versions t))"

definition entryStored :: "string \<Rightarrow> claimRestoreStatus \<Rightarrow> popTrace \<Rightarrow> bool" where
  "entryStored uid e t = (cs_Phase e = RestorePhaseRestoring \<and> (\<exists>vr \<in> set (pt_versions t). findEntry uid vr = Some e))"

lemma jobRecorded_mono: "jobRecorded vs j \<Longrightarrow> set vs \<subseteq> set vs' \<Longrightarrow> jobRecorded vs' j"
  unfolding jobRecorded_def by blast

lemma popInv_version: "popInv t \<Longrightarrow> popInv (t\<lparr>pt_versions := pt_versions t @ vs\<rparr>)"
  unfolding popInv_def by (auto intro: jobRecorded_mono)

lemma popKnows_version: "popKnows vr t \<Longrightarrow> popKnows vr (t\<lparr>pt_versions := pt_versions t @ vs\<rparr>)"
  unfolding popKnows_def using popInv_version by auto

lemma jobRecorded_populateJob:
  assumes "entryStored (m_uid (pc_meta cl)) e t" "cs_SnapshotID e \<noteq> []"
  shows "jobRecorded (pt_versions t) (populateJob api vr cl prime (cs_SnapshotID e))"
proof -
  from assms(1) obtain vr2 where r: "vr2 \<in> set (pt_versions t)" "findEntry (m_uid (pc_meta cl)) vr2 = Some e" "cs_Phase e = RestorePhaseRestoring"
    unfolding entryStored_def by blast
  from findEntry_uid[OF r(2)] have u: "cs_UID e = m_uid (pc_meta cl)" "e \<in> set (vt_Claims (vr_status vr2))" by auto
  have "m_name (jb_meta (populateJob api vr cl prime (cs_SnapshotID e))) = populateJobName (cs_UID e) \<and>
      argAfter ''restore'' (co_Args (jb_container (populateJob api vr cl prime (cs_SnapshotID e)))) = Some (cs_SnapshotID e) \<and>
      co_EnvFrom (jb_container (populateJob api vr cl prime (cs_SnapshotID e))) = SecretCopyName (cs_UID e)"
    by (simp add: populateJob_def New_def Let_def resticContainer_def u(1) objectMeta0_def)
  with r u(2) assms(2) show ?thesis unfolding jobRecorded_def by blast
qed

section \<open>The operations\<close>

lemma view_preserves: "keeps v c \<Longrightarrow> preserves (\<lambda>w. Q (v w)) c"
  by (rule keeps_preserves)

lemma preserves_records:
  assumes "records c v f" "\<And>t. Q t \<Longrightarrow> Q (f x t)"
  shows "preserves (\<lambda>w. Q (v w)) (c x)"
  using recordsD[OF assms(1)] assms(2) by (intro preservesI) metis

text \<open>A property of the trace that a new version of the VolumeRestore does not break.\<close>

definition growing :: "(popTrace \<Rightarrow> bool) \<Rightarrow> bool" where
  "growing Q = (\<forall>t vs. Q t \<longrightarrow> Q (t\<lparr>pt_versions := pt_versions t @ vs\<rparr>))"

lemma growing_popKnows: "growing (popKnows vr)"
  unfolding growing_def using popKnows_version by blast

lemma growing_jobs: "growing (\<lambda>t. R (pt_jobs t))"
  by (simp add: growing_def)

lemma preserves_writeVR:
  assumes "populatorLaws api v" "growing Q"
  shows "preserves (\<lambda>w. Q (v w)) (writeVR api vr' before)"
  unfolding writeVR_def
  by (intro pres_intros preserves_records[OF pop_records(1)[OF assms(1)]]) (use assms(2) in \<open>simp add: growing_def\<close>)

lemma keeps_releaseSlot: "populatorLaws api v \<Longrightarrow> keeps v (releaseSlot api cl)"
  unfolding releaseSlot_def by (intro keeps_admission pop_keeps)

lemma keeps_deleteGone: "keeps v c \<Longrightarrow> keeps v (deleteGone t c)"
  unfolding deleteGone_def by (intro keeps_intros)

lemma keeps_podsStopped: "populatorLaws api v \<Longrightarrow> keeps v (podsStopped api name)"
  unfolding podsStopped_def by (intro keeps_intros pop_keeps)

lemma keeps_repositoriesLoop:
  "(\<And>ns n. keeps v (g ns n)) \<Longrightarrow> (\<And>s. keeps v (l s)) \<Longrightarrow> keeps v (repositoriesLoop g l ns vrs repos)"
  by (induction vrs arbitrary: repos) (simp_all add: Let_def keeps_intros)

lemma keeps_pick:
  assumes "populatorLaws api v"
  shows "keeps v (pick api vr cl)"
  unfolding pick_def snapshotsOf_def Repositories_def Let_def
  by (intro keeps_intros keeps_repositoriesLoop pop_keeps[OF assms])

lemma keeps_copySecret:
  assumes "populatorLaws api v"
  shows "keeps v (copySecret api vr cl)"
  unfolding copySecret_def Let_def by (intro keeps_intros pop_keeps[OF assms])

lemma preserves_waits:
  assumes "populatorLaws api v" "growing Q"
  shows "preserves (\<lambda>w. Q (v w)) (waitPaused api vr cl)" "preserves (\<lambda>w. Q (v w)) (queuedV api vr cl m)"
  unfolding waitPaused_def queuedV_def by (intro pres_intros preserves_writeVR[OF assms])+

lemma preserves_admitClaim:
  assumes "populatorLaws api v" "growing Q"
  shows "preserves (\<lambda>w. Q (v w)) (admitClaim api vr cl prime)"
  unfolding admitClaim_def
  by (intro pres_intros preserves_waits[OF assms] view_preserves keeps_admission
      keeps_releaseSlot[OF assms(1)] pop_keeps[OF assms(1)])

section \<open>Deciding and starting\<close>

abbreviation popP :: "('w \<Rightarrow> popTrace) \<Rightarrow> volumeRestore \<Rightarrow> 'w \<Rightarrow> bool" where
  "popP v vr \<equiv> \<lambda>w. popKnows vr (v w)"

text \<open>After a write that returned, some stored version has the new status: the one just written, or the one
  that was read when nothing changed.\<close>

lemma hoare_writeVR:
  assumes "populatorLaws api v"
  shows "hoare (popP v vr) (writeVR api vr' (vr_status vr))
    (\<lambda>_ w. popKnows vr (v w) \<and> (\<exists>s \<in> set (pt_versions (v w)). vr_status s = vr_status vr')) (popP v vr)"
proof (rule hoareI)
  fix w x w' assume k: "popKnows vr (v w)" and c: "writeVR api vr' (vr_status vr) w = (Inr x, w')"
  show "popKnows vr (v w') \<and> (\<exists>s \<in> set (pt_versions (v w')). vr_status s = vr_status vr')"
  proof (cases "vr_status vr = vr_status vr'")
    case True
    then show ?thesis using k c by (auto simp: writeVR_def popKnows_def)
  next
    case False
    then have "cb_SetStatus api vr' w = (Inr x, w')" using c by (simp add: writeVR_def)
    from recordsD[OF pop_records(1)[OF assms] this] have "v w' = (v w)\<lparr>pt_versions := pt_versions (v w) @ [vr']\<rparr>" by simp
    then show ?thesis using popKnows_version[OF k] by auto
  qed
next
  fix w e w' assume "popKnows vr (v w)" "writeVR api vr' (vr_status vr) w = (Inl e, w')"
  then show "popKnows vr (v w')" using preservesD[OF preserves_writeVR[OF assms growing_popKnows]] by fast
qed

lemma hoare_entry:
  "(\<And>now. hoare P (f (entryAt now vr cl)) Q E) \<Longrightarrow> hoare P (bindM (entry api vr cl) f) Q E"
  by (auto simp: hoare_def bindM_def entry_def)

lemma preserves_entry [pres_intros]: "preserves I (entry api vr cl)"
  by (rule preservesI) (simp add: entry_def)

lemma hoare_preserved: "preserves I c \<Longrightarrow> hoare I c (\<lambda>_. I) I"
  by (simp add: preserves_def)

lemma preserves_unreachable:
  assumes "populatorLaws api v" "growing Q"
  shows "preserves (\<lambda>w. Q (v w)) (unreachable api vr cl reach)"
  unfolding unreachable_def Let_def by (intro pres_intros preserves_writeVR[OF assms])

lemma hoare_never: "preserves I c \<Longrightarrow> (\<And>w x w'. c w \<noteq> (Inr x, w')) \<Longrightarrow> hoare I c Q I"
  by (rule hoareI) (auto dest: preservesD)

lemma unreachable_fails: "unreachable api vr cl reach w \<noteq> (Inr x, w')"
  by (simp add: unreachable_def bindM_Inr_iff thenM_def Let_def failM_def)

lemma decideV_stores:
  assumes "populatorLaws api v"
  shows "hoare (popP v vr) (decideV api vr cl)
    (\<lambda>st w. popKnows vr (v w) \<and> entryStored (m_uid (pc_meta cl)) st (v w)) (popP v vr)"
  unfolding decideV_def Let_def
proof (rule hoare_bindM[OF hoare_preserved[OF preserves_attempt[OF view_preserves[OF keeps_pick[OF assms]]]]], intro hoare_sum hoare_if hoare_entry)
  show "hoare (popP v vr) (unreachable api vr cl reach) Q (popP v vr)" for reach and Q :: "claimRestoreStatus \<Rightarrow> 'a \<Rightarrow> bool"
    by (rule hoare_never[OF preserves_unreachable[OF assms growing_popKnows] unreachable_fails])
  show "hoare (popP v vr) (failM err) Q (popP v vr)" for err and Q :: "claimRestoreStatus \<Rightarrow> 'a \<Rightarrow> bool"
    by (rule hoare_failM)
  fix snapshot now
  let ?uid = "m_uid (pc_meta cl)"
  let ?vr2 = "modEntry ?uid (\<lambda>e. setSnapshot snapshot (e\<lparr>cs_Phase := RestorePhaseRestoring\<rparr>)) (entryAt now vr cl)"
  let ?vr3 = "setReadyV api ?vr2 CondFalse ReasonRestoring (decideMessage api vr cl snapshot)"
  obtain e where e: "findEntry ?uid (entryAt now vr cl) = Some e" using findEntry_entryAt by blast
  then have f: "findEntry ?uid ?vr2 = Some (setSnapshot snapshot (e\<lparr>cs_Phase := RestorePhaseRestoring\<rparr>))"
    by (simp add: findEntry_modEntry)
  show "hoare (popP v vr) (thenM (writeVR api ?vr3 (vr_status vr)) (ret (the (findEntry ?uid ?vr2))))
      (\<lambda>st w. popKnows vr (v w) \<and> entryStored ?uid st (v w)) (popP v vr)"
  proof (rule hoare_thenM[OF hoare_writeVR[OF assms]], rule hoare_ret)
    fix w assume "popKnows vr (v w) \<and> (\<exists>s \<in> set (pt_versions (v w)). vr_status s = vr_status ?vr3)"
    then obtain s where s: "popKnows vr (v w)" "s \<in> set (pt_versions (v w))" "vr_status s = vr_status ?vr3" by blast
    from findEntry_status[OF s(3), of ?uid] have "findEntry ?uid s = findEntry ?uid ?vr2" by simp
    with s f show "popKnows vr (v w) \<and> entryStored ?uid (the (findEntry ?uid ?vr2)) (v w)"
      by (auto simp: entryStored_def)
  qed
qed

lemma hoare_fails_after: "preserves I c \<Longrightarrow> (\<And>x. preserves I (f x)) \<Longrightarrow> (\<And>r w x w'. f r w \<noteq> (Inr x, w')) \<Longrightarrow> hoare I (bindM c f) Q I"
  by (rule hoare_never[OF preserves_bindM]) (auto simp: bindM_Inr_iff)

lemma decideOrRelease_stores:
  assumes "populatorLaws api v"
  shows "hoare (popP v vr) (decideOrRelease api vr cl)
    (\<lambda>st w. popKnows vr (v w) \<and> entryStored (m_uid (pc_meta cl)) st (v w)) (popP v vr)"
proof (cases "decided vr (m_uid (pc_meta cl))")
  case (Some st)
  then have "findEntry (m_uid (pc_meta cl)) vr = Some st" "cs_Phase st = RestorePhaseRestoring" by (simp_all add: decided_Some)
  then show ?thesis
    unfolding decideOrRelease_def Some option.simps by (intro hoare_ret) (auto simp: entryStored_def popKnows_def)
next
  case None
  let ?Q = "\<lambda>st w. popKnows vr (v w) \<and> entryStored (m_uid (pc_meta cl)) st (v w)"
  have rel: "hoare (popP v vr) (bindM (attempt (releaseSlot api cl)) (\<lambda>r. case r of Inl err2 \<Rightarrow> failM (Join err err2) | Inr _ \<Rightarrow> failM err)) ?Q (popP v vr)" for err
    by (rule hoare_fails_after, rule preserves_attempt[OF view_preserves[OF keeps_releaseSlot[OF assms]]], intro preserves_sum preserves_failM)
      (simp add: failM_def split: sum.splits)
  have "hoare (popP v vr) (bindM (attempt (decideV api vr cl)) (\<lambda>r. case r of Inr status \<Rightarrow> ret status
      | Inl err \<Rightarrow> bindM (attempt (releaseSlot api cl)) (\<lambda>r. case r of Inl err2 \<Rightarrow> failM (Join err err2) | Inr _ \<Rightarrow> failM err))) ?Q (popP v vr)"
  proof (rule hoare_bindM[where R = "\<lambda>r w. popKnows vr (v w) \<and> (\<forall>st. r = Inr st \<longrightarrow> ?Q st w)"])
    show "hoare (popP v vr) (attempt (decideV api vr cl)) (\<lambda>r w. popKnows vr (v w) \<and> (\<forall>st. r = Inr st \<longrightarrow> ?Q st w)) (popP v vr)"
      by (rule hoare_attempt, rule hoare_conseq[OF decideV_stores[OF assms]]) simp_all
    show "hoare (\<lambda>w. popKnows vr (v w) \<and> (\<forall>st. r = Inr st \<longrightarrow> ?Q st w)) (case r of Inr status \<Rightarrow> ret status
      | Inl err \<Rightarrow> bindM (attempt (releaseSlot api cl)) (\<lambda>r. case r of Inl err2 \<Rightarrow> failM (Join err err2) | Inr _ \<Rightarrow> failM err)) ?Q (popP v vr)" for r
    proof (cases r)
      case (Inl err)
      show ?thesis unfolding Inl sum.simps by (rule hoare_pre[OF rel]) simp
    next
      case (Inr st)
      show ?thesis unfolding Inr sum.simps by (rule hoare_ret) simp
    qed
  qed
  with None show ?thesis by (simp add: decideOrRelease_def)
qed

lemma popKnows_job:
  assumes "popKnows vr t" "jobRecorded (pt_versions t) j"
  shows "popKnows vr (t\<lparr>pt_jobs := pt_jobs t @ [j]\<rparr>)"
  using assms unfolding popKnows_def popInv_def by auto

lemma startJob_recorded:
  assumes "populatorLaws api v" "cs_SnapshotID st \<noteq> []"
  shows "hoare (\<lambda>w. popKnows vr (v w) \<and> entryStored (m_uid (pc_meta cl)) st (v w)) (startJob api vr cl prime (cs_SnapshotID st))
    (\<lambda>_. popP v vr) (popP v vr)"
proof -
  let ?P = "\<lambda>w. popKnows vr (v w) \<and> entryStored (m_uid (pc_meta cl)) st (v w)"
  let ?j = "populateJob api vr cl prime (cs_SnapshotID st)"
  have c: "hoare ?P (attempt (cb_CreateJob api ?j)) (\<lambda>_. popP v vr) (popP v vr)"
  proof (rule hoareI)
    fix w x w' assume p: "?P w" and a: "attempt (cb_CreateJob api ?j) w = (Inr x, w')"
    from a obtain r where "cb_CreateJob api ?j w = (r, w')" by (auto simp: attempt_def split: prod.splits)
    then have "v w' = (v w)\<lparr>pt_jobs := pt_jobs (v w) @ [?j]\<rparr> \<or> v w' = v w"
      using recordsD[OF pop_records(2)[OF assms(1)]] by blast
    moreover have "jobRecorded (pt_versions (v w)) ?j" using p by (intro jobRecorded_populateJob[OF _ assms(2)]) blast
    ultimately show "popKnows vr (v w')" using popKnows_job p by metis
  qed (simp add: attempt_def split: prod.splits)
  have k: "hoare ?P (copySecret api vr cl) (\<lambda>_. ?P) (popP v vr)"
    by (rule hoare_conseq[OF hoare_preserved[OF view_preserves[OF keeps_copySecret[OF assms(1)],
          where Q = "\<lambda>t. popKnows vr t \<and> entryStored (m_uid (pc_meta cl)) st t"]]]) auto
  show ?thesis
    unfolding startJob_def by (rule hoare_thenM[OF k], rule hoare_bindM[OF c]) (intro hoare_sum hoare_if hoare_ret hoare_failM)
qed

lemma preserves_populateClaim:
  assumes "populatorLaws api v"
  shows "preserves (popP v vr) (populateClaim api vr cl prime)"
proof -
  have s: "hoare (popP v vr) (bindM (decideOrRelease api vr cl) (\<lambda>st. if cs_SnapshotID st = [] then ret ()
      else startJob api vr cl (m_name (pc_meta prime)) (cs_SnapshotID st))) (\<lambda>_. popP v vr) (popP v vr)"
    by (rule hoare_bindM[OF decideOrRelease_stores[OF assms]], intro hoare_if startJob_recorded[OF assms]) (auto intro!: hoare_ret)
  show ?thesis
    unfolding populateClaim_def Let_def
    by (intro pres_intros view_preserves[OF pop_keeps(1)[OF assms]] preserves_waits[OF assms growing_popKnows] preserves_admitClaim[OF assms growing_popKnows]
        s[folded preserves_def])
qed

lemma bind_liftE_Inr: "bindM (liftE (Inr x)) f = f x"
  by (rule ext) (simp add: liftE_def bindM_def)

lemma decode_known:
  "pp_Unstructured params = Some (Inr vr) \<Longrightarrow> decodeVolumeRestore params = Inr vr"
  by (simp add: decodeVolumeRestore_def)

lemma preserves_Populate:
  assumes "populatorLaws api v" "pp_Unstructured params = Some (Inr vr)"
  shows "preserves (popP v vr) (Populate api params)"
  unfolding Populate_def decode_known[OF assms(2)] bind_liftE_Inr
  by (intro pres_intros preserves_populateClaim[OF assms(1)])

lemma preserves_Complete:
  assumes "populatorLaws api v" "pp_Unstructured params = Some (Inr vr)"
  shows "preserves (popP v vr) (Complete api params)"
proof -
  have o: "preserves (popP v vr) (case Result job of OutSucceeded \<Rightarrow> c | OutFailed \<Rightarrow> d | OutRunning \<Rightarrow> e)"
    if "preserves (popP v vr) c" "preserves (popP v vr) d" "preserves (popP v vr) e" for job and c d e :: "('a, bool) call"
    using that by (cases "Result job") simp_all
  show ?thesis
    unfolding Complete_def failedV_def decode_known[OF assms(2)] Let_def bind_liftE_Inr
    by (intro pres_intros o view_preserves[OF pop_keeps(1)[OF assms(1)]] view_preserves[OF keeps_releaseSlot[OF assms(1)]] preserves_writeVR[OF assms(1) growing_popKnows])
qed

lemma preserves_Cleanup:
  assumes "populatorLaws api v" "pp_Unstructured params = Some (Inr vr)"
  shows "preserves (popP v vr) (Cleanup api params)"
  unfolding Cleanup_def decode_known[OF assms(2)] Let_def bind_liftE_Inr
  by (intro pres_intros view_preserves[OF keeps_deleteGone[OF pop_keeps(2)[OF assms(1)]]] view_preserves[OF keeps_deleteGone[OF pop_keeps(5)[OF assms(1)]]]
      view_preserves[OF keeps_releaseSlot[OF assms(1)]] view_preserves[OF keeps_podsStopped[OF assms(1)]] preserves_writeVR[OF assms(1) growing_popKnows])

section \<open>The life of a VolumeRestore\<close>

text \<open>The library calls the callbacks with any version that was stored, on a controller that may have been
  restarted with other flags; anyone may write the VolumeRestore in between.\<close>

inductive popStep :: "('w \<Rightarrow> popTrace) \<Rightarrow> 'w \<Rightarrow> 'w \<Rightarrow> bool" for v where
  ps_populate: "populatorLaws api v \<Longrightarrow> pp_Unstructured params = Some (Inr vr) \<Longrightarrow> vr \<in> set (pt_versions (v w)) \<Longrightarrow>
    Populate api params w = (r, w') \<Longrightarrow> popStep v w w'"
| ps_complete: "populatorLaws api v \<Longrightarrow> pp_Unstructured params = Some (Inr vr) \<Longrightarrow> vr \<in> set (pt_versions (v w)) \<Longrightarrow>
    Complete api params w = (b, w') \<Longrightarrow> popStep v w w'"
| ps_cleanup: "populatorLaws api v \<Longrightarrow> pp_Unstructured params = Some (Inr vr) \<Longrightarrow> vr \<in> set (pt_versions (v w)) \<Longrightarrow>
    Cleanup api params w = (r, w') \<Longrightarrow> popStep v w w'"
| ps_edit: "v w' = (v w)\<lparr>pt_versions := pt_versions (v w) @ vs\<rparr> \<Longrightarrow> popStep v w w'"

definition popStart :: "('w \<Rightarrow> popTrace) \<Rightarrow> 'w \<Rightarrow> bool" where
  "popStart v w = (pt_jobs (v w) = [])"

lemma popStep_inv:
  assumes "popInv (v w)" "popStep v w w'"
  shows "popInv (v w')"
proof -
  have k: "popInv (v w')" if "preserves (popP v vr) c" "vr \<in> set (pt_versions (v w))" "c w = (r, w')" for vr c and r :: "gerr + 'b"
    using preservesD[OF that(1) _ that(3)] that(2) assms(1) by (simp add: popKnows_def)
  from assms(2) show ?thesis
  proof cases
    case (ps_populate api params vr r)
    show ?thesis by (rule k[OF preserves_Populate[OF ps_populate(1,2)] ps_populate(3,4)])
  next
    case (ps_complete api params vr b)
    show ?thesis
      using preservesD[OF preserves_Complete[OF ps_complete(1,2)] _ ps_complete(4)] ps_complete(3) assms(1) by (simp add: popKnows_def)
  next
    case (ps_cleanup api params vr r)
    show ?thesis
      using preservesD[OF preserves_Cleanup[OF ps_cleanup(1,2)] _ ps_cleanup(4)] ps_cleanup(3) assms(1) by (simp add: popKnows_def)
  next
    case (ps_edit vs)
    show ?thesis unfolding ps_edit by (rule popInv_version[OF assms(1)])
  qed
qed

interpretation popLife: inductive_invariant "popStart v" "popStep v" "\<lambda>w. popInv (v w)" for v
  by unfold_locales (simp add: popStart_def popInv_def, rule popStep_inv)

text \<open>C14. In every world of a VolumeRestore's life, whatever calls failed and however old the copies were
  that the library passed, each Job that was created is the Job of a claim whose stored entry had the phase
  Restoring, restores exactly the snapshot that entry records, and reads it with that claim's own copy of the
  repository Secret. So a restore that starts again after a crash writes the snapshot that was decided
  before the first one.\<close>

theorem populator_job_recorded:
  assumes "reachable (popStart v) (popStep v) w"
  shows "\<forall>j \<in> set (pt_jobs (v w)). jobRecorded (pt_versions (v w)) j"
  using popLife.reachable_inv[OF assms] unfolding popInv_def .

end
