(* ===== verification/Populator_Starts.thy ===== *)
theory Populator_Starts
  imports Populator_Safe
begin

text \<open>
  When \<open>Populate\<close> creates a Job and which snapshot the Job restores: symbolic execution of the callback, with
  the facts the calls answered on the way.
\<close>

section \<open>The choice\<close>

lemma attempt_Inr: "attempt c w = (Inr x, w') \<longleftrightarrow> c w = (x, w')"
  by (auto simp: attempt_def split: prod.splits)

lemma bind_attempt_Inr: "bindM (attempt c) f w = (Inr y, w') \<longleftrightarrow> (\<exists>r w1. c w = (r, w1) \<and> f r w1 = (Inr y, w'))"
  by (simp add: bindM_Inr_iff attempt_Inr)

lemma sum_run: "(case r of Inl e \<Rightarrow> f e | Inr x \<Rightarrow> g x) w = z \<longleftrightarrow> (\<exists>e. r = Inl e \<and> f e w = z) \<or> (\<exists>x. r = Inr x \<and> g x w = z)"
  by (cases r) auto

lemma failM_not_Inr [simp]: "failM e w \<noteq> (Inr x, w')"
  by (simp add: failM_def)

text \<open>The snapshot ID the decision ends with: the recorded one, or the one that \<open>pick\<close> answers.\<close>

definition chosenID :: "'w populatorApi \<Rightarrow> volumeRestore \<Rightarrow> claim \<Rightarrow> string \<Rightarrow> bool" where
  "chosenID api vr cl snapshotID =
     (case decided vr (m_uid (pc_meta cl)) of
        Some st \<Rightarrow> snapshotID = cs_SnapshotID st
      | None \<Rightarrow> \<exists>c w w'. pick api vr cl w = (Inr c, w') \<and> snapshotID = (case c of None \<Rightarrow> [] | Some s \<Rightarrow> sn_ID s))"

lemma decideV_result:
  assumes "decideV api vr cl w = (Inr st, w')"
  shows "\<exists>c w1 w2. pick api vr cl w1 = (Inr c, w2) \<and> cs_SnapshotID st = (case c of None \<Rightarrow> [] | Some s \<Rightarrow> sn_ID s)"
proof -
  let ?uid = "m_uid (pc_meta cl)"
  from assms obtain r w2 where r: "pick api vr cl w = (r, w2)" and k: "(case r of
        Inl err \<Rightarrow> if anyErr isOutOfReach1 err then unreachable api vr cl (asText isOutOfReach1 err) else failM err
      | Inr snapshot \<Rightarrow>
          bindM (entry api vr cl) (\<lambda>vr1.
          let vr2 = modEntry ?uid (\<lambda>e. setSnapshot snapshot (e\<lparr>cs_Phase := RestorePhaseRestoring\<rparr>)) vr1;
              recorded = the (findEntry ?uid vr2) in
          thenM (writeVR api (setReadyV api vr2 CondFalse ReasonRestoring (decideMessage api vr cl snapshot)) (vr_status vr))
            (ret recorded))) w2 = (Inr st, w')"
    unfolding decideV_def Let_def bind_attempt_Inr by blast
  obtain c where c: "r = Inr c"
    using k by (cases r) (auto simp: unreachable_fails split: if_splits)
  with r have p: "pick api vr cl w = (Inr c, w2)" by simp
  from k obtain now where "st = the (findEntry ?uid (modEntry ?uid (\<lambda>e. setSnapshot c (e\<lparr>cs_Phase := RestorePhaseRestoring\<rparr>)) (entryAt now vr cl)))"
    unfolding c by (auto simp: Let_def bindM_Inr_iff thenM_def entry_def)
  moreover obtain e where "findEntry ?uid (entryAt now vr cl) = Some e" using findEntry_entryAt by blast
  ultimately have "st = setSnapshot c (e\<lparr>cs_Phase := RestorePhaseRestoring\<rparr>)" by (simp add: findEntry_modEntry)
  then have "cs_SnapshotID st = (case c of None \<Rightarrow> [] | Some s \<Rightarrow> sn_ID s)" by (simp split: option.split)
  with p show ?thesis by blast
qed

lemma decideOrRelease_result:
  assumes "decideOrRelease api vr cl w = (Inr st, w')"
  shows "chosenID api vr cl (cs_SnapshotID st)"
proof (cases "decided vr (m_uid (pc_meta cl))")
  case None
  then have "decideV api vr cl w = (Inr st, w')"
    using assms by (auto simp: decideOrRelease_def bind_attempt_Inr sum_run)
  from decideV_result[OF this] None show ?thesis by (simp add: chosenID_def)
qed (use assms in \<open>simp add: decideOrRelease_def chosenID_def\<close>)

section \<open>Admission\<close>

text \<open>The Workload of the claim as a get or a create answered it.\<close>

definition workloadSeen :: "'w populatorApi \<Rightarrow> claim \<Rightarrow> kueueWorkload \<Rightarrow> bool" where
  "workloadSeen api cl workload =
     ((\<exists>w w'. cb_getWorkload api (cb_Namespace api) (populateWorkloadName (m_uid (pc_meta cl))) w = (Inr workload, w')) \<or>
      (\<exists>x w w'. cb_createWorkload api x w = (Inr workload, w')))"

definition admittedSeen :: "'w populatorApi \<Rightarrow> claim \<Rightarrow> bool" where
  "admittedSeen api cl = (\<exists>workload. workloadSeen api cl workload \<and> Admitted workload \<and> \<not> Evicted workload)"

lemma queuedV_fails: "queuedV api vr cl m w \<noteq> (Inr x, w')"
  by (simp add: queuedV_def bindM_Inr_iff thenM_def failM_def)

lemma waitPaused_fails: "waitPaused api vr cl w \<noteq> (Inr x, w')"
  by (simp add: waitPaused_def bindM_Inr_iff thenM_def failM_def)

lemma EnsureWorkload_result:
  assumes "EnsureWorkload g c ns n q ow w = (Inr wl, w')"
  shows "(\<exists>w w'. g ns n w = (Inr wl, w')) \<or> (\<exists>x w w'. c x w = (Inr wl, w')) \<or> kw_conditions wl = []"
proof -
  from assms obtain r w1 where r: "g ns n w = (r, w1)" and k: "(case r of Inr workload \<Rightarrow> ret workload
     | Inl err \<Rightarrow> if \<not> IsNotFound err then failM (Wrap (''get Workload '' @ ns @ ''/'' @ n @ '': '') err)
         else bindM (attempt (c \<lparr>kw_meta = objectMeta0\<lparr>m_namespace := ns, m_name := n\<rparr>, kw_queue = q, kw_owner = ow, kw_conditions = []\<rparr>)) (\<lambda>r. case r of
           Inl err \<Rightarrow> if IsAlreadyExists err then ret \<lparr>kw_meta = objectMeta0\<lparr>m_namespace := ns, m_name := n\<rparr>, kw_queue = q, kw_owner = ow, kw_conditions = []\<rparr>
             else failM (Wrap (''create Workload '' @ ns @ ''/'' @ n @ '': '') err)
         | Inr stored \<Rightarrow> ret stored)) w1 = (Inr wl, w')"
    unfolding EnsureWorkload_def Let_def bind_attempt_Inr by blast
  show ?thesis
  proof (cases r)
    case (Inl err)
    then obtain r2 w2 where r2: "c \<lparr>kw_meta = objectMeta0\<lparr>m_namespace := ns, m_name := n\<rparr>, kw_queue = q, kw_owner = ow, kw_conditions = []\<rparr> w1 = (r2, w2)"
        "r2 = Inr wl \<or> kw_conditions wl = []"
      using k by (auto simp: bind_attempt_Inr sum_run split: if_splits)
    then show ?thesis by blast
  qed (use r k in auto)
qed

lemma admitClaim_result:
  assumes "admitClaim api vr cl prime w = (Inr x, w')"
  shows "admittedSeen api cl"
proof -
  from assms obtain queue w1 wl w2 where e: "EnsureWorkload (cb_getWorkload api) (cb_createWorkload api) (cb_Namespace api)
      (populateWorkloadName (m_uid (pc_meta cl))) queue (m_uid (pc_meta prime)) w1 = (Inr wl, w2)" and a: "Admitted wl" "\<not> Evicted wl"
    by (auto simp: admitClaim_def bind_attempt_Inr bindM_Inr_iff thenM_def queuedV_fails sum_run split: if_splits)
  have "kw_conditions wl \<noteq> []" using a(1) by (auto simp: Admitted_def isTrue_def)
  with EnsureWorkload_result[OF e] have "workloadSeen api cl wl" unfolding workloadSeen_def by blast
  with a show ?thesis unfolding admittedSeen_def by blast
qed

section \<open>What \<open>Populate\<close> creates\<close>

definition createdJob :: "'w populatorApi \<Rightarrow> volumeRestore \<Rightarrow> claim \<Rightarrow> claim \<Rightarrow> job \<Rightarrow> bool" where
  "createdJob api vr cl prime j =
     (\<not> cb_Paused api \<and>
      (\<exists>e w w'. cb_GetJob api (cb_Namespace api) (populateJobName (m_uid (pc_meta cl))) w = (Inl e, w') \<and> IsNotFound e) \<and>
      admittedSeen api cl \<and>
      (\<exists>snapshotID. snapshotID \<noteq> [] \<and> chosenID api vr cl snapshotID \<and> j = populateJob api vr cl (m_name (pc_meta prime)) snapshotID))"

definition oneJob :: "job list \<Rightarrow> (job \<Rightarrow> bool) \<Rightarrow> popTrace \<Rightarrow> bool" where
  "oneJob before ok t = (pt_jobs t = before \<or> (\<exists>j. ok j \<and> pt_jobs t = before @ [j]))"

lemma preserves_jobs_decide:
  assumes "populatorLaws api v"
  shows "preserves (\<lambda>w. pt_jobs (v w) = js) (decideOrRelease api vr cl)"
  unfolding decideOrRelease_def decideV_def Let_def
  by (intro pres_intros view_preserves[OF keeps_pick[OF assms]] view_preserves[OF keeps_releaseSlot[OF assms]]
      preserves_unreachable[OF assms growing_jobs] preserves_writeVR[OF assms growing_jobs])

lemma startJob_one:
  assumes "populatorLaws api v" "ok (populateJob api vr cl prime snapshotID)"
  shows "hoare (\<lambda>w. pt_jobs (v w) = js) (startJob api vr cl prime snapshotID) (\<lambda>_ w. oneJob js ok (v w)) (\<lambda>w. oneJob js ok (v w))"
proof -
  let ?j = "populateJob api vr cl prime snapshotID" and ?G = "\<lambda>w. oneJob js ok (v w)"
  have c: "hoare (\<lambda>w. pt_jobs (v w) = js) (attempt (cb_CreateJob api ?j)) (\<lambda>_. ?G) ?G"
  proof (rule hoareI)
    fix w x w' assume p: "pt_jobs (v w) = js" and a: "attempt (cb_CreateJob api ?j) w = (Inr x, w')"
    have "v w' = (v w)\<lparr>pt_jobs := pt_jobs (v w) @ [?j]\<rparr> \<or> v w' = v w"
      using recordsD[OF pop_records(2)[OF assms(1)] a[unfolded attempt_Inr]] by blast
    with p assms(2) show "?G w'" by (auto simp: oneJob_def)
  qed (simp add: attempt_def split: prod.splits)
  have k: "hoare (\<lambda>w. pt_jobs (v w) = js) (copySecret api vr cl) (\<lambda>_ w. pt_jobs (v w) = js) ?G"
    by (rule hoare_conseq[OF hoare_preserved[OF view_preserves[OF keeps_copySecret[OF assms(1)], where Q = "\<lambda>t. pt_jobs t = js"]]])
      (auto simp: oneJob_def)
  show ?thesis
    unfolding startJob_def by (rule hoare_thenM[OF k], rule hoare_bindM[OF c]) (intro hoare_sum hoare_if hoare_ret hoare_failM)
qed

text \<open>A step that leaves the Jobs alone, after which the result is known.\<close>

lemma hoare_jobs:
  assumes "preserves (\<lambda>w. pt_jobs (v w) = js) c" "\<And>w x w'. c w = (Inr x, w') \<Longrightarrow> F x"
  shows "hoare (\<lambda>w. pt_jobs (v w) = js) c (\<lambda>x w. F x \<and> pt_jobs (v w) = js) (\<lambda>w. oneJob js ok (v w))"
  by (rule hoareI) (use assms in \<open>auto simp: oneJob_def dest: preservesD\<close>)

lemma hoare_fact: "(F \<Longrightarrow> hoare P c Q E) \<Longrightarrow> hoare (\<lambda>s. F \<and> P s) c Q E"
  by (auto simp: hoare_def)

lemma hoare_oneJob:
  "preserves (\<lambda>w. pt_jobs (v w) = js) c \<Longrightarrow> hoare (\<lambda>w. pt_jobs (v w) = js) c (\<lambda>_ w. oneJob js ok (v w)) (\<lambda>w. oneJob js ok (v w))"
  unfolding preserves_def by (erule hoare_conseq) (simp_all add: oneJob_def)

lemma populateClaim_one:
  assumes laws: "populatorLaws api v"
  shows "hoare (\<lambda>w. pt_jobs (v w) = js) (populateClaim api vr cl prime)
    (\<lambda>_ w. oneJob js (createdJob api vr cl prime) (v w)) (\<lambda>w. oneJob js (createdJob api vr cl prime) (v w))"
proof -
  let ?G = "\<lambda>w. oneJob js (createdJob api vr cl prime) (v w)" and ?name = "populateJobName (m_uid (pc_meta cl))"
  let ?F = "\<lambda>r. \<exists>w w'. cb_GetJob api (cb_Namespace api) ?name w = (r, w')"
  have gj: "hoare (\<lambda>w. pt_jobs (v w) = js) (attempt (cb_GetJob api (cb_Namespace api) ?name)) (\<lambda>r w. ?F r \<and> pt_jobs (v w) = js) ?G"
    by (rule hoare_jobs, rule preserves_attempt[OF view_preserves[OF pop_keeps(1)[OF laws]]]) (auto simp: attempt_Inr)
  have trivial: "hoare (\<lambda>w. pt_jobs (v w) = js) (ret ()) (\<lambda>_. ?G) ?G" by (rule hoare_ret) (simp add: oneJob_def)
  have ad: "hoare (\<lambda>w. pt_jobs (v w) = js) (admitClaim api vr cl prime) (\<lambda>_ w. admittedSeen api cl \<and> pt_jobs (v w) = js) ?G"
    by (rule hoare_jobs, rule preserves_admitClaim[OF laws growing_jobs], rule admitClaim_result)
  have de: "hoare (\<lambda>w. pt_jobs (v w) = js) (decideOrRelease api vr cl)
      (\<lambda>st w. chosenID api vr cl (cs_SnapshotID st) \<and> pt_jobs (v w) = js) ?G"
    by (rule hoare_jobs, rule preserves_jobs_decide[OF laws], rule decideOrRelease_result)
  have go: "hoare (\<lambda>w. pt_jobs (v w) = js) (thenM (admitClaim api vr cl prime)
      (bindM (decideOrRelease api vr cl) (\<lambda>status. if cs_SnapshotID status = [] then ret ()
         else startJob api vr cl (m_name (pc_meta prime)) (cs_SnapshotID status)))) (\<lambda>_. ?G) ?G"
    if nf: "?F (Inl e)" "IsNotFound e" and np: "\<not> cb_Paused api" for e
    unfolding thenM_def
  proof (rule hoare_bindM[OF ad], rule hoare_fact, rule hoare_bindM[OF de], rule hoare_fact, intro hoare_if)
    show "hoare (\<lambda>w. pt_jobs (v w) = js) (ret ()) (\<lambda>_. ?G) ?G" by (rule trivial)
    fix st assume "admittedSeen api cl" "chosenID api vr cl (cs_SnapshotID st)" "cs_SnapshotID st \<noteq> []"
    with nf np have "createdJob api vr cl prime (populateJob api vr cl (m_name (pc_meta prime)) (cs_SnapshotID st))"
      unfolding createdJob_def by blast
    then show "hoare (\<lambda>w. pt_jobs (v w) = js) (startJob api vr cl (m_name (pc_meta prime)) (cs_SnapshotID st)) (\<lambda>_. ?G) ?G"
      by (rule startJob_one[OF laws])
  qed
  show ?thesis
    unfolding populateClaim_def Let_def
  proof (rule hoare_bindM[OF gj], rule hoare_fact)
    fix r assume f: "?F r"
    show "hoare (\<lambda>w. pt_jobs (v w) = js) (case r of Inr _ \<Rightarrow> ret ()
      | Inl err \<Rightarrow> if \<not> IsNotFound err then failM (Wrap (''get restore Job '' @ cb_Namespace api @ ''/'' @ ?name @ '': '') err)
          else if cb_Paused api then waitPaused api vr cl
          else thenM (admitClaim api vr cl prime) (bindM (decideOrRelease api vr cl) (\<lambda>status. if cs_SnapshotID status = [] then ret ()
            else startJob api vr cl (m_name (pc_meta prime)) (cs_SnapshotID status)))) (\<lambda>_. ?G) ?G"
    proof (cases r)
      case (Inl e)
      have wp: "hoare (\<lambda>w. pt_jobs (v w) = js) (waitPaused api vr cl) (\<lambda>_. ?G) ?G"
        by (rule hoare_oneJob) (rule preserves_waits(1)[OF laws growing_jobs])
      show ?thesis
        unfolding Inl sum.simps
        by (intro hoare_if wp go[OF f[unfolded Inl]] hoare_failM) (simp_all add: oneJob_def)
    next
      case (Inr x)
      show ?thesis unfolding Inr sum.simps by (rule trivial)
    qed
  qed
qed

lemma Populate_run:
  assumes "pp_Pvc params = Some cl" "pp_PvcPrime params = Some prime" "pp_Unstructured params = Some (Inr vr)"
  shows "Populate api params = populateClaim api vr cl prime"
proof -
  have "validateParams params = Inr ()" using assms by (simp add: validateParams_def validateCleanupParams_def)
  then show ?thesis
    unfolding Populate_def decode_known[OF assms(3)] bind_liftE_Inr using assms(1,2) by (simp add: thenM_def bind_liftE_Inr)
qed

lemma Populate_one:
  assumes "populatorLaws api v" "pp_Pvc params = Some cl" "pp_PvcPrime params = Some prime"
    and "pp_Unstructured params = Some (Inr vr)" "Populate api params w = (r, w')"
  shows "oneJob (pt_jobs (v w)) (createdJob api vr cl prime) (v w')"
proof -
  have h: "hoare (\<lambda>x. pt_jobs (v x) = pt_jobs (v w)) (Populate api params)
      (\<lambda>_ x. oneJob (pt_jobs (v w)) (createdJob api vr cl prime) (v x)) (\<lambda>x. oneJob (pt_jobs (v w)) (createdJob api vr cl prime) (v x))"
    unfolding Populate_run[OF assms(2-4)] by (rule populateClaim_one[OF assms(1)])
  show ?thesis by (cases r) (use hoareD_Inl[OF h refl] hoareD_Inr[OF h refl] assms(5) in blast)+
qed

text \<open>C35. A call of \<open>Populate\<close> creates one Job at most, whatever it returns, and it creates one only for a
  claim without a Job, on a controller without \<open>--pause\<close>, after Kueue admitted the claim's Workload and did not
  evict it. The Job writes into the prime claim, and the snapshot it restores is the one that the claim's
  Restoring entry records or, for a claim without such an entry, the one that \<open>pick\<close> selects; a claim
  without a snapshot gets no Job.\<close>

theorem populate_starts_admitted:
  assumes "populatorLaws api v" "pp_Pvc params = Some cl" "pp_PvcPrime params = Some prime"
    and "pp_Unstructured params = Some (Inr vr)" "Populate api params w = (r, w')"
  shows "pt_jobs (v w') = pt_jobs (v w) \<or>
    (\<exists>snapshotID. pt_jobs (v w') = pt_jobs (v w) @ [populateJob api vr cl (m_name (pc_meta prime)) snapshotID] \<and>
       snapshotID \<noteq> [] \<and> chosenID api vr cl snapshotID \<and> \<not> cb_Paused api \<and> admittedSeen api cl \<and>
       (\<exists>e w w'. cb_GetJob api (cb_Namespace api) (populateJobName (m_uid (pc_meta cl))) w = (Inl e, w') \<and> IsNotFound e))"
  using Populate_one[OF assms] unfolding oneJob_def createdJob_def by blast

section \<open>All volumes come back from one moment\<close>



end
