(* ===== verification/Populator_Ends.thy ===== *)
theory Populator_Ends
  imports Populator_Starts
begin

text \<open>
  How a claim's restore ends: what \<open>Complete\<close> reports, when \<open>Cleanup\<close> gives the queue slot back, and the
  status that \<open>Cleanup\<close> leaves.
\<close>

section \<open>Complete\<close>

lemma admissionDelete_done:
  assumes "admissionDelete del ns k u w = (Inr x, w')"
  shows "del ns (workloadName k u) w = (Inr (), w') \<or> (\<exists>e. IsNotFound e \<and> del ns (workloadName k u) w = (Inl e, w'))"
  using assms unfolding admissionDelete_def bind_attempt_Inr sum_run by (auto split: if_splits)

text \<open>\<open>Complete\<close> reports a claim as filled only when it read the claim's restore Job with a true Complete
  condition before any Failed one, or when there is no Job and the claim's Restoring entry records that the
  repository held no snapshot. In both cases it has given the queue slot back: the Workload's delete succeeded
  or found none.\<close>

theorem complete_only_when_done:
  assumes "pp_Pvc params = Some cl" "pp_Unstructured params = Some (Inr vr)" "Complete api params w = (Inr True, w')"
  shows "\<exists>r w1. cb_GetJob api (cb_Namespace api) (populateJobName (m_uid (pc_meta cl))) w = (r, w1) \<and>
      (case r of Inr job \<Rightarrow> (''Complete'', CondTrue) \<in> set (jb_conditions job) \<and> Result job = OutSucceeded
       | Inl e \<Rightarrow> IsNotFound e \<and> (\<exists>st. decided vr (m_uid (pc_meta cl)) = Some st \<and> cs_SnapshotID st = [])) \<and>
      (cb_deleteWorkload api (cb_Namespace api) (populateWorkloadName (m_uid (pc_meta cl))) w1 = (Inr (), w') \<or>
       (\<exists>e. IsNotFound e \<and> cb_deleteWorkload api (cb_Namespace api) (populateWorkloadName (m_uid (pc_meta cl))) w1 = (Inl e, w')))"
proof -
  let ?uid = "m_uid (pc_meta cl)"
  from assms(3) have vp: "validateParams params = Inr ()"
    by (cases "validateParams params") (auto simp: Complete_def thenM_def bindM_def liftE_def)
  from assms(3) obtain r w1 where g: "cb_GetJob api (cb_Namespace api) (populateJobName ?uid) w = (r, w1)"
    and k: "(case r of
       Inl err \<Rightarrow>
         if IsNotFound err then
           (case decided vr ?uid of
             Some status \<Rightarrow> if cs_SnapshotID status = [] then thenM (releaseSlot api cl) (ret True) else ret False
           | None \<Rightarrow> ret False)
         else failM (Wrap (''get restore Job '' @ cb_Namespace api @ ''/'' @ populateJobName ?uid @ '': '') err)
     | Inr job \<Rightarrow>
         (case Result job of
            OutSucceeded \<Rightarrow> thenM (releaseSlot api cl) (ret True)
          | OutFailed \<Rightarrow> thenM (releaseSlot api cl) (thenM (failedV api params) (ret False))
          | OutRunning \<Rightarrow> ret False)) w1 = (Inr True, w')"
    unfolding Complete_def thenM_def vp decode_known[OF assms(2)] assms(1) Let_def option.sel bind_liftE_Inr bind_attempt_Inr by blast
  have rel: "releaseSlot api cl w1 = (Inr (), w')" and done1: "case r of Inr job \<Rightarrow> Result job = OutSucceeded
       | Inl e \<Rightarrow> IsNotFound e \<and> (\<exists>st. decided vr ?uid = Some st \<and> cs_SnapshotID st = [])"
    using k by (auto simp: thenM_def bindM_Inr_iff split: sum.splits if_splits option.splits outcome.splits)
  have "case r of Inr job \<Rightarrow> (''Complete'', CondTrue) \<in> set (jb_conditions job) \<and> Result job = OutSucceeded
       | Inl e \<Rightarrow> IsNotFound e \<and> (\<exists>st. decided vr ?uid = Some st \<and> cs_SnapshotID st = [])"
    using done1 by (auto simp: Result_condition split: sum.splits)
  with g admissionDelete_done[OF rel[unfolded releaseSlot_def]] show ?thesis
    unfolding populateWorkloadName_def by blast
qed

section \<open>The queue slot\<close>

text \<open>Two views of the state: whether a pod of the claim's Job has not finished, and whether the claim's
  Workload holds a slot. A listing of the pods is true, no call of \<open>Cleanup\<close> starts a pod of a Job that is
  deleted, and only the delete of the Workload gives the slot back.\<close>

definition calm :: "('w \<Rightarrow> bool) \<Rightarrow> ('w, 'a) call \<Rightarrow> bool" where
  "calm busy c = preserves (\<lambda>w. \<not> busy w) c"

definition slotLaws :: "'w populatorApi \<Rightarrow> string \<Rightarrow> ('w \<Rightarrow> bool) \<Rightarrow> ('w \<Rightarrow> bool) \<Rightarrow> bool" where
  "slotLaws api name busy slot =
     ((\<forall>ns n. keeps slot (cb_DeleteJob api ns n)) \<and> (\<forall>ns n. keeps slot (cb_listJobPods api ns n)) \<and>
      (\<forall>ns n. calm busy (cb_deleteWorkload api ns n)) \<and> (\<forall>ns n. calm busy (cb_DeleteSecret api ns n)) \<and>
      (\<forall>vr. calm busy (cb_SetStatus api vr)) \<and>
      (\<forall>w pods w'. cb_listJobPods api (cb_Namespace api) name w = (Inr pods, w') \<and> busy w' \<longrightarrow>
         (\<exists>p \<in> set pods. po_phase p \<noteq> PodSucceeded \<and> po_phase p \<noteq> PodFailed)))"

lemma slot_laws:
  assumes "slotLaws api name busy slot"
  shows "keeps slot (cb_DeleteJob api ns n)" "keeps slot (cb_listJobPods api ns n)" "calm busy (cb_deleteWorkload api ns n)"
    "calm busy (cb_DeleteSecret api ns n)" "calm busy (cb_SetStatus api vr)"
  using assms by (simp_all add: slotLaws_def)

lemma calm_admissionDelete: "(\<And>ns n. calm busy (del ns n)) \<Longrightarrow> calm busy (admissionDelete del ns k u)"
  unfolding admissionDelete_def calm_def by (intro pres_intros)

lemma calm_deleteGone: "calm busy c \<Longrightarrow> calm busy (deleteGone t c)"
  unfolding deleteGone_def calm_def by (intro pres_intros)

lemma calm_writeVR: "(\<And>vr. calm busy (cb_SetStatus api vr)) \<Longrightarrow> calm busy (writeVR api vr before)"
  unfolding writeVR_def calm_def by (intro pres_intros)

lemma podsStopped_idle:
  assumes "slotLaws api name busy slot"
  shows "hoare slot (podsStopped api name) (\<lambda>_ w. \<not> busy w) slot"
proof -
  have l: "hoare slot (cb_listJobPods api (cb_Namespace api) name)
      (\<lambda>pods w. slot w \<and> (busy w \<longrightarrow> (\<exists>p \<in> set pods. po_phase p \<noteq> PodSucceeded \<and> po_phase p \<noteq> PodFailed))) slot"
  proof (rule hoareI)
    fix s x s' assume "slot s" "cb_listJobPods api (cb_Namespace api) name s = (Inr x, s')"
    then show "slot s' \<and> (busy s' \<longrightarrow> (\<exists>p \<in> set x. po_phase p \<noteq> PodSucceeded \<and> po_phase p \<noteq> PodFailed))"
      using keepsD[OF slot_laws(2)[OF assms]] assms unfolding slotLaws_def by metis
  next
    fix s e s' assume "slot s" "cb_listJobPods api (cb_Namespace api) name s = (Inl e, s')"
    then show "slot s'" using keepsD[OF slot_laws(2)[OF assms]] by metis
  qed
  show ?thesis
    unfolding podsStopped_def
    by (rule hoare_bindM[OF hoare_wrapM[OF l]], intro hoare_option hoare_failM hoare_ret) (auto simp: find_None_iff)
qed

text \<open>C36. \<open>Cleanup\<close> gives a claim's queue slot back only once no pod of the claim's Job runs any more, whatever
  call fails on the way: restic never writes without a slot of the quota.\<close>

theorem cleanup_frees_after_pods:
  assumes laws: "slotLaws api (populateJobName (m_uid (pc_meta cl))) busy slot" and "pp_Pvc params = Some cl"
    and run: "Cleanup api params w = (r, w')" and slot: "slot w" "\<not> slot w'"
  shows "\<not> busy w'"
proof -
  let ?uid = "m_uid (pc_meta cl)" and ?E = "\<lambda>w. slot w \<or> \<not> busy w"
  let ?del = "deleteGone ''delete restore Job: '' (cb_DeleteJob api (cb_Namespace api) (populateJobName ?uid))"
    and ?pods = "podsStopped api (populateJobName ?uid)"
  let ?after = "thenM (releaseSlot api cl) (
     thenM (deleteGone ''delete copied repository Secret: '' (cb_DeleteSecret api (cb_Namespace api) (SecretCopyName ?uid))) (
     bindM (liftE (decodeVolumeRestore params)) (\<lambda>vr.
     writeVR api (settle api (modEntry ?uid (\<lambda>e. e\<lparr>cs_Phase := RestorePhaseRestored\<rparr>) vr)) (vr_status vr))))"
  have after: "calm busy ?after"
    unfolding calm_def
    by (intro pres_intros calm_admissionDelete[unfolded calm_def, folded releaseSlot_def] calm_deleteGone[unfolded calm_def]
        calm_writeVR[unfolded calm_def] slot_laws[OF laws, unfolded calm_def])
      (simp add: releaseSlot_def calm_admissionDelete[unfolded calm_def] slot_laws(3)[OF laws, unfolded calm_def])
  have "hoare slot (Cleanup api params) (\<lambda>_. ?E) ?E"
    unfolding Cleanup_def assms(2) Let_def option.sel
  proof (rule hoare_thenM[where R = slot], rule hoare_liftE)
    show "hoare slot (thenM ?del (thenM ?pods ?after)) (\<lambda>_. ?E) ?E"
    proof (rule hoare_thenM[where R = slot])
      show "hoare slot ?del (\<lambda>_. slot) ?E"
        using keeps_preserves[OF keeps_deleteGone[OF slot_laws(1)[OF laws]], where I = "\<lambda>b. b"] unfolding preserves_def
        by (rule hoare_conseq) simp_all
      show "hoare slot (thenM ?pods ?after) (\<lambda>_. ?E) ?E"
      proof (rule hoare_thenM)
        show "hoare slot ?pods (\<lambda>_ w. \<not> busy w) ?E"
          by (rule hoare_conseq[OF podsStopped_idle[OF laws]]) simp_all
        show "hoare (\<lambda>w. \<not> busy w) ?after (\<lambda>_. ?E) ?E"
          using after unfolding calm_def preserves_def by (rule hoare_conseq) simp_all
      qed
    qed
  qed simp_all
  then have "?E w'" using run slot(1) by (cases r) (auto dest: hoareD_Inl hoareD_Inr)
  with slot(2) show ?thesis by blast
qed

section \<open>The status that \<open>Cleanup\<close> leaves\<close>

definition phaseCount :: "restorePhase \<Rightarrow> volumeRestore \<Rightarrow> int" where
  "phaseCount p vr = int (length (filter (\<lambda>e. cs_Phase e = p) (vt_Claims (vr_status vr))))"

lemma settle_counts:
  "foldl (\<lambda>(restoring, failed) e. case cs_Phase e of
            RestorePhaseRestoring \<Rightarrow> (restoring + 1, failed)
          | RestorePhaseFailed \<Rightarrow> (restoring, failed + 1)
          | _ \<Rightarrow> (restoring, failed)) (r, f) es =
   (r + int (length (filter (\<lambda>e. cs_Phase e = RestorePhaseRestoring) es)),
    f + int (length (filter (\<lambda>e. cs_Phase e = RestorePhaseFailed) es)))"
  by (induction es arbitrary: r f) (auto split: restorePhase.split)

lemma settle_cases:
  "settle api vr =
     (if phaseCount RestorePhaseFailed vr > 0 then vr
      else if phaseCount RestorePhaseRestoring vr > 0
           then setReadyV api vr CondFalse ReasonRestoring (itoa (phaseCount RestorePhaseRestoring vr) @ '' claim(s) still restoring'')
      else setReadyV api vr CondTrue ReasonRestored ''no claim is being restored'')"
  unfolding settle_def settle_counts Let_def phaseCount_def by simp

lemma phaseCount_setReadyV [simp]: "phaseCount p (setReadyV api vr s r m) = phaseCount p vr"
  by (simp add: phaseCount_def setReadyV_def)

lemma phaseCount_settle [simp]: "phaseCount p (settle api vr) = phaseCount p vr"
  by (simp add: settle_cases)

lemma phaseCount_pos: "0 < phaseCount p vr \<longleftrightarrow> (\<exists>e \<in> set (vt_Claims (vr_status vr)). cs_Phase e = p)"
  by (auto simp: phaseCount_def filter_empty_conv)

lemma claims_settle [simp]: "vt_Claims (vr_status (settle api vr)) = vt_Claims (vr_status vr)"
  by (simp add: settle_cases setReadyV_def)

lemma findEntry_settle [simp]: "findEntry uid (settle api vr) = findEntry uid vr"
  by (simp add: findEntry_def)

definition settled :: "'w populatorApi \<Rightarrow> string \<Rightarrow> volumeRestore \<Rightarrow> volumeRestore" where
  "settled api uid vr = settle api (modEntry uid (\<lambda>e. e\<lparr>cs_Phase := RestorePhaseRestored\<rparr>) vr)"

lemma cleanup_writes:
  assumes "pp_Pvc params = Some cl" "pp_Unstructured params = Some (Inr vr)" "Cleanup api params w = (Inr (), w')"
  shows "vr_status (settled api (m_uid (pc_meta cl)) vr) = vr_status vr \<or>
    (\<exists>w1. cb_SetStatus api (settled api (m_uid (pc_meta cl)) vr) w1 = (Inr (), w'))"
  using assms(3) unfolding Cleanup_def thenM_def decode_known[OF assms(2)] assms(1) Let_def option.sel bind_liftE_Inr
    settled_def[symmetric]
  by (auto simp: bindM_Inr_iff writeVR_def split: if_splits)

text \<open>Setting a condition twice is setting it once, and the condition is then found as it was set.\<close>

definition condLaws :: "(condition list \<Rightarrow> condition \<Rightarrow> condition list) \<Rightarrow> bool" where
  "condLaws setCond = (\<forall>cs c. setCond (setCond cs c) c = setCond cs c \<and>
     find (\<lambda>x. c_type x = c_type c) (setCond cs c) = Some c)"

definition readyOf :: "volumeRestore \<Rightarrow> condition option" where
  "readyOf vr = find (\<lambda>x. c_type x = ConditionReady) (vt_Conditions (vr_status vr))"

lemma readyOf_setReadyV:
  assumes "condLaws (cb_setCond api)"
  shows "readyOf (setReadyV api vr s r m) = Some \<lparr>c_type = ConditionReady, c_status = s, c_reason = r, c_message = m,
      c_observedGeneration = m_generation (vr_meta vr)\<rparr>"
proof -
  have "find (\<lambda>x. c_type x = c_type c) (cb_setCond api cs c) = Some c" for cs c
    using assms unfolding condLaws_def by blast
  from this[of "\<lparr>c_type = ConditionReady, c_status = s, c_reason = r, c_message = m, c_observedGeneration = m_generation (vr_meta vr)\<rparr>"]
  show ?thesis by (simp add: readyOf_def setReadyV_def SetReady_def)
qed

text \<open>C37. When \<open>Cleanup\<close> returns, the status it read or the one it wrote says how the claims stand: the claim's
  own entry has the phase Restored and keeps its snapshot, no other entry changed, and Ready is True with
  reason Restored exactly when no entry is left that is Restoring or Failed; while an entry is Restoring and
  none is Failed it is False, and beside a Failed entry it stays as the failure set it.\<close>

theorem cleanup_settles:
  assumes "pp_Pvc params = Some cl" "pp_Unstructured params = Some (Inr vr)" "condLaws (cb_setCond api)"
    and "Cleanup api params w = (Inr (), w')"
  shows "\<exists>vr'. (vr_status vr' = vr_status vr \<or> (\<exists>w1. cb_SetStatus api vr' w1 = (Inr (), w'))) \<and>
    findEntry (m_uid (pc_meta cl)) vr' = map_option (\<lambda>e. e\<lparr>cs_Phase := RestorePhaseRestored\<rparr>) (findEntry (m_uid (pc_meta cl)) vr) \<and>
    (\<forall>uid. uid \<noteq> m_uid (pc_meta cl) \<longrightarrow> findEntry uid vr' = findEntry uid vr) \<and>
    (if \<exists>e \<in> set (vt_Claims (vr_status vr')). cs_Phase e = RestorePhaseFailed
     then vt_Conditions (vr_status vr') = vt_Conditions (vr_status vr)
     else map_option c_status (readyOf vr') =
       Some (if \<exists>e \<in> set (vt_Claims (vr_status vr')). cs_Phase e = RestorePhaseRestoring then CondFalse else CondTrue))"
proof (intro exI conjI)
  let ?uid = "m_uid (pc_meta cl)"
  let ?vr1 = "modEntry ?uid (\<lambda>e. e\<lparr>cs_Phase := RestorePhaseRestored\<rparr>) vr"
  let ?vr' = "settled api ?uid vr"
  show "vr_status ?vr' = vr_status vr \<or> (\<exists>w1. cb_SetStatus api ?vr' w1 = (Inr (), w'))"
    by (rule cleanup_writes[OF assms(1,2,4)])
  show "findEntry ?uid ?vr' = map_option (\<lambda>e. e\<lparr>cs_Phase := RestorePhaseRestored\<rparr>) (findEntry ?uid vr)"
    by (simp add: settled_def findEntry_modEntry)
  show "\<forall>uid. uid \<noteq> ?uid \<longrightarrow> findEntry uid ?vr' = findEntry uid vr"
    by (simp add: settled_def findEntry_modEntry_other)
  have c: "vt_Claims (vr_status ?vr') = vt_Claims (vr_status ?vr1)" by (simp add: settled_def)
  show "if \<exists>e \<in> set (vt_Claims (vr_status ?vr')). cs_Phase e = RestorePhaseFailed
     then vt_Conditions (vr_status ?vr') = vt_Conditions (vr_status vr)
     else map_option c_status (readyOf ?vr') =
       Some (if \<exists>e \<in> set (vt_Claims (vr_status ?vr')). cs_Phase e = RestorePhaseRestoring then CondFalse else CondTrue)"
    unfolding c phaseCount_pos[symmetric]
    by (simp add: settled_def settle_cases readyOf_setReadyV[OF assms(3)]) (simp add: modEntry_def)
qed

lemma modFirst_restored:
  "modFirst uid (\<lambda>e. e\<lparr>cs_Phase := p\<rparr>) (modFirst uid (\<lambda>e. e\<lparr>cs_Phase := p\<rparr>) es) = modFirst uid (\<lambda>e. e\<lparr>cs_Phase := p\<rparr>) es"
  by (induction es) auto

lemma vr_status_update: "vr_status vr = s \<Longrightarrow> vr\<lparr>vr_status := s\<rparr> = vr"
  by auto

lemma modEntry_setReadyV: "modEntry uid f (setReadyV api vr s r m) = setReadyV api (modEntry uid f vr) s r m"
  by (simp add: modEntry_def setReadyV_def)

lemma modEntry_settle: "modEntry uid f (settle api vr) = settle api vr" if "modEntry uid f vr = vr"
  using that by (simp add: settle_cases modEntry_setReadyV)

lemma setReadyV_twice:
  "condLaws (cb_setCond api) \<Longrightarrow> setReadyV api (setReadyV api vr s r m) s r m = setReadyV api vr s r m"
  by (simp add: condLaws_def setReadyV_def SetReady_def)

lemma settled_twice:
  assumes "condLaws (cb_setCond api)"
  shows "settled api uid (settled api uid vr) = settled api uid vr"
proof -
  let ?vr1 = "modEntry uid (\<lambda>e. e\<lparr>cs_Phase := RestorePhaseRestored\<rparr>) vr"
  have m: "modEntry uid (\<lambda>e. e\<lparr>cs_Phase := RestorePhaseRestored\<rparr>) ?vr1 = ?vr1"
    by (simp add: modEntry_def modFirst_restored)
  have "settle api (settle api ?vr1) = settle api ?vr1"
    by (simp add: settle_cases setReadyV_twice[OF assms])
  then show ?thesis by (simp add: settled_def modEntry_settle[OF m])
qed

text \<open>C38. The library calls \<open>Cleanup\<close> on every resync for the life of a claim. A call that finds the status
  an earlier \<open>Cleanup\<close> of the claim left writes no status, whatever it returns.\<close>

theorem cleanup_idempotent:
  assumes "populatorLaws api v" "condLaws (cb_setCond api)" "pp_Pvc params = Some cl"
    and "pp_Unstructured params = Some (Inr (settled api (m_uid (pc_meta cl)) vr))"
    and "Cleanup api params w = (r, w')"
  shows "pt_versions (v w') = pt_versions (v w)"
proof -
  let ?vr = "settled api (m_uid (pc_meta cl)) vr"
  have quiet: "writeVR api (settle api (modEntry (m_uid (pc_meta cl)) (\<lambda>e. e\<lparr>cs_Phase := RestorePhaseRestored\<rparr>) ?vr)) (vr_status ?vr) = ret ()"
    unfolding settled_def[of api _ ?vr, symmetric] settled_twice[OF assms(2)] by (simp add: writeVR_def)
  have "keeps v (Cleanup api params)"
    unfolding Cleanup_def decode_known[OF assms(4)] assms(3) Let_def option.sel bind_liftE_Inr quiet
    by (intro keeps_intros keeps_deleteGone keeps_podsStopped[OF assms(1)] keeps_releaseSlot[OF assms(1)] pop_keeps[OF assms(1)])
  from keepsD[OF this assms(5)] show ?thesis by simp
qed

end
