(* ===== verification/Populator_Example.thy ===== *)
theory Populator_Example
  imports Populator_Ends
begin

text \<open>
  A claim whose VolumeRestore fills it from the namespace's paused moment, for concrete instances of the
  theorems on the volume populator. The world is the versions of the VolumeRestore, the live Jobs and their
  pods, every Job ever made, and the claim's Workload, which is admitted as soon as it exists.
\<close>

record popWorldEx =
  px_versions :: "volumeRestore list"
  px_jobs :: "job list"
  px_pods :: "pod list"
  px_made :: "job list"
  px_workload :: "kueueWorkload option"

definition popViewEx :: "popWorldEx \<Rightarrow> popTrace" where
  "popViewEx w = \<lparr>pt_versions = px_versions w, pt_jobs = px_made w\<rparr>"

definition popClaimEx :: claim where
  "popClaimEx = claim0\<lparr>pc_meta := objectMeta0\<lparr>m_namespace := ''ns'', m_name := ''data'', m_uid := ''u1''\<rparr>\<rparr>"

definition popPrimeEx :: claim where
  "popPrimeEx = claim0\<lparr>pc_meta := objectMeta0\<lparr>m_namespace := ''sys'', m_name := ''prime-u1'', m_uid := ''p1''\<rparr>\<rparr>"

definition popVREx :: volumeRestore where
  "popVREx = \<lparr>vr_meta = objectMeta0\<lparr>m_namespace := ''ns'', m_name := ''data''\<rparr>,
     vr_spec = \<lparr>vs_Repository = ''repo'', vs_RestoreAsOf = None, vs_CacheStorageClassName = None, vs_CacheCapacity = None,
       vs_MoverPodLabels = None, vs_MoverSecurityContext = None\<rparr>,
     vr_status = \<lparr>vt_Conditions = [], vt_Claims = []\<rparr>\<rparr>"

definition popSnapshotsEx :: "snapshot list" where
  "popSnapshotsEx = [snapshot0\<lparr>sn_ID := ''fedcba9876'', sn_Time := 9 * second\<rparr>,
     snapshot0\<lparr>sn_ID := ''0123456789'', sn_Time := 5 * second, sn_Tags := [''paused'']\<rparr>]"

definition popSecretEx :: secret where
  "popSecretEx = \<lparr>se_meta = objectMeta0\<lparr>m_namespace := ''ns'', m_name := ''repo''\<rparr>, se_data = [''key'' \<mapsto> ''k'']\<rparr>"

definition popWorkloadEx :: "kueueWorkload \<Rightarrow> kueueWorkload" where
  "popWorkloadEx x = x\<lparr>kw_conditions := [\<lparr>c_type = ''Admitted'', c_status = CondTrue, c_reason = [], c_message = [], c_observedGeneration = 0\<rparr>]\<rparr>"

definition popPodEx :: "podPhase \<Rightarrow> pod" where
  "popPodEx p = \<lparr>po_meta = objectMeta0\<lparr>m_namespace := ''sys'', m_name := ''restore-u1-x''\<rparr>, po_phase = p, po_claims = [''prime-u1'']\<rparr>"

definition popApiEx :: "popWorldEx populatorApi" where
  "popApiEx = \<lparr>
     cb_GetJob = \<lambda>ns n w. (case find (\<lambda>j. m_name (jb_meta j) = n) (px_jobs w) of Some j \<Rightarrow> Inr j | None \<Rightarrow> Inl (NotFound n), w),
     cb_CreateJob = \<lambda>j w. (Inr (), w\<lparr>px_jobs := j # px_jobs w, px_pods := [popPodEx PodRunning], px_made := px_made w @ [j]\<rparr>),
     cb_DeleteJob = \<lambda>ns n w. (Inr (), w\<lparr>px_jobs := filter (\<lambda>j. m_name (jb_meta j) \<noteq> n) (px_jobs w)\<rparr>),
     cb_GetSecret = \<lambda>ns n. if ns = ''ns'' then ret popSecretEx else failM (NotFound n),
     cb_CreateSecret = \<lambda>s. ret (), cb_DeleteSecret = \<lambda>ns n. ret (),
     cb_SetStatus = \<lambda>vr w. (Inr (), w\<lparr>px_versions := px_versions w @ [vr]\<rparr>),
     cb_listVRs = \<lambda>ns. ret [popVREx], cb_listJobPods = \<lambda>ns n w. (Inr (px_pods w), w),
     cb_listQueues = \<lambda>ns. ret [''backups''],
     cb_getWorkload = \<lambda>ns n w. (case px_workload w of Some x \<Rightarrow> Inr x | None \<Rightarrow> Inl (NotFound n), w),
     cb_createWorkload = \<lambda>x w. (Inr (popWorkloadEx x), w\<lparr>px_workload := Some (popWorkloadEx x)\<rparr>),
     cb_updateWorkload = \<lambda>x. ret (), cb_deleteWorkload = \<lambda>ns n w. (Inr (), w\<lparr>px_workload := None\<rparr>),
     cb_readSecret = \<lambda>ns n. ret popSecretEx, cb_snapshots = \<lambda>s. ret popSnapshotsEx,
     cb_setCond = \<lambda>cs c. filter (\<lambda>x. c_type x \<noteq> c_type c) cs @ [c], cb_Now = \<lambda>_. 100 * second,
     cb_Namespace = ''sys'', cb_Image = ''restic'', cb_Paused = False\<rparr>"

definition popParamsEx :: "volumeRestore \<Rightarrow> populatorParams" where
  "popParamsEx vr = \<lparr>pp_Pvc = Some popClaimEx, pp_PvcPrime = Some popPrimeEx, pp_Unstructured = Some (Inr vr)\<rparr>"

text \<open>Before the restore, after \<open>Populate\<close>, once restic succeeded, and after \<open>Cleanup\<close>.\<close>

definition popWorld0 :: popWorldEx where
  "popWorld0 = \<lparr>px_versions = [popVREx], px_jobs = [], px_pods = [], px_made = [], px_workload = None\<rparr>"

definition popWorld1 :: popWorldEx where
  "popWorld1 = snd (Populate popApiEx (popParamsEx popVREx) popWorld0)"

definition popWorld2 :: popWorldEx where
  "popWorld2 = popWorld1\<lparr>px_pods := [popPodEx PodSucceeded], px_jobs := map (\<lambda>j. j\<lparr>jb_conditions := [(''Complete'', CondTrue)]\<rparr>) (px_jobs popWorld1)\<rparr>"

definition popWorld3 :: popWorldEx where
  "popWorld3 = snd (Cleanup popApiEx (popParamsEx (last (px_versions popWorld2))) popWorld2)"

definition popSummary :: "popWorldEx \<Rightarrow> string list \<times> (restorePhase \<times> string) list \<times> bool \<times> podPhase list" where
  "popSummary w = (map (\<lambda>j. the (argAfter ''restore'' (co_Args (jb_container j)))) (px_made w),
     map (\<lambda>e. (cs_Phase e, cs_SnapshotID e)) (vt_Claims (vr_status (last (px_versions w)))), px_workload w = None, map po_phase (px_pods w))"

lemma popWorld1_summary:
  "popSummary popWorld1 = ([''0123456789''], [(RestorePhaseRestoring, ''0123456789'')], False, [PodRunning])"
  by code_simp

lemma popWorld3_summary:
  "popSummary popWorld3 = ([''0123456789''], [(RestorePhaseRestored, ''0123456789'')], True, [PodSucceeded])"
  by code_simp

lemma popWorld3_returns: "fst (Cleanup popApiEx (popParamsEx (last (px_versions popWorld2))) popWorld2) = Inr ()"
  by code_simp

lemma popLawsEx: "populatorLaws popApiEx popViewEx"
  by (simp add: populatorLaws_def popApiEx_def keeps_def records_def popViewEx_def ret_def failM_def)

lemma popCondEx: "condLaws (cb_setCond popApiEx)"
proof -
  have f: "find P (filter (\<lambda>x. \<not> P x) cs @ [c]) = Some c" if "P c" for P and cs :: "condition list" and c
    using that by (induction cs) auto
  show ?thesis unfolding condLaws_def popApiEx_def populatorApi.simps
    using f[of "\<lambda>x. c_type x = c_type c" c for c] by simp
qed

section \<open>The theorems on that claim\<close>

lemma popWorld1_made: "\<exists>j. px_made popWorld1 = [j]"
proof -
  have "length (px_made popWorld1) = 1"
    using arg_cong[OF popWorld1_summary, of fst] by (simp add: popSummary_def) (metis length_map length_Cons list.size(3) One_nat_def)
  then show ?thesis by (cases "px_made popWorld1") auto
qed

lemma popWorld1_run: "Populate popApiEx (popParamsEx popVREx) popWorld0 = (fst (Populate popApiEx (popParamsEx popVREx) popWorld0), popWorld1)"
  by (simp add: popWorld1_def)

lemma popParamsEx_fields:
  "pp_Pvc (popParamsEx vr) = Some popClaimEx" "pp_PvcPrime (popParamsEx vr) = Some popPrimeEx" "pp_Unstructured (popParamsEx vr) = Some (Inr vr)"
  by (simp_all add: popParamsEx_def)

lemma popWorld1_reachable: "reachable (popStart popViewEx) (popStep popViewEx) popWorld1"
proof (rule reach_step[OF reach_init])
  show "popStart popViewEx popWorld0" by (simp add: popStart_def popViewEx_def popWorld0_def)
  show "popStep popViewEx popWorld0 popWorld1"
    by (rule ps_populate[OF popLawsEx popParamsEx_fields(3) _ popWorld1_run]) (simp add: popViewEx_def popWorld0_def)
qed

theorem populator_job_recorded_witness:
  "\<exists>j. px_made popWorld1 = [j] \<and> jobRecorded (px_versions popWorld1) j"
proof -
  obtain j where j: "px_made popWorld1 = [j]" using popWorld1_made by blast
  from populator_job_recorded[OF popWorld1_reachable] j show ?thesis by (simp add: popViewEx_def)
qed

theorem populate_starts_admitted_witness:
  "\<exists>snapshotID. px_made popWorld1 = [populateJob popApiEx popVREx popClaimEx ''prime-u1'' snapshotID] \<and>
     chosenID popApiEx popVREx popClaimEx snapshotID \<and> admittedSeen popApiEx popClaimEx"
proof -
  obtain j where j: "px_made popWorld1 = [j]" using popWorld1_made by blast
  from populate_starts_admitted[OF popLawsEx popParamsEx_fields popWorld1_run] j show ?thesis
    by (simp add: popViewEx_def popWorld0_def popPrimeEx_def)
      (auto simp: objectMeta0_def claim0_def)
qed




lemma popSlotEx: "slotLaws popApiEx name (\<lambda>w. \<exists>p \<in> set (px_pods w). po_phase p \<noteq> PodSucceeded \<and> po_phase p \<noteq> PodFailed) (\<lambda>w. px_workload w \<noteq> None)"
  by (auto simp: slotLaws_def popApiEx_def keeps_def calm_def ret_def intro!: preservesI)

lemma popWorld3_run: "Cleanup popApiEx (popParamsEx (last (px_versions popWorld2))) popWorld2 = (Inr (), popWorld3)"
  using popWorld3_returns by (simp add: popWorld3_def prod_eq_iff)

theorem cleanup_frees_after_pods_witness:
  "px_workload popWorld2 \<noteq> None \<and> px_workload popWorld3 = None \<and>
   \<not> (\<exists>p \<in> set (px_pods popWorld3). po_phase p \<noteq> PodSucceeded \<and> po_phase p \<noteq> PodFailed)"
proof -
  have s: "px_workload popWorld2 \<noteq> None" "\<not> px_workload popWorld3 \<noteq> None"
    using popWorld1_summary popWorld3_summary by (simp_all add: popSummary_def popWorld2_def)
  from cleanup_frees_after_pods[OF popSlotEx popParamsEx_fields(1) popWorld3_run s] s show ?thesis by simp
qed

theorem cleanup_settles_witness:
  "\<exists>vr'. findEntry ''u1'' vr' = map_option (\<lambda>e. e\<lparr>cs_Phase := RestorePhaseRestored\<rparr>) (findEntry ''u1'' (last (px_versions popWorld2))) \<and>
     (vr_status vr' = vr_status (last (px_versions popWorld2)) \<or> (\<exists>w1. cb_SetStatus popApiEx vr' w1 = (Inr (), popWorld3)))"
proof -
  have u: "m_uid (pc_meta popClaimEx) = ''u1''" by (simp add: popClaimEx_def claim0_def objectMeta0_def)
  from cleanup_settles[OF popParamsEx_fields(1,3) popCondEx popWorld3_run] show ?thesis unfolding u by blast
qed

theorem cleanup_idempotent_witness:
  "px_versions (snd (Cleanup popApiEx (popParamsEx (settled popApiEx ''u1'' (last (px_versions popWorld2)))) popWorld3)) = px_versions popWorld3"
proof -
  have u: "m_uid (pc_meta popClaimEx) = ''u1''" by (simp add: popClaimEx_def claim0_def objectMeta0_def)
  from cleanup_idempotent[OF popLawsEx popCondEx popParamsEx_fields(1), unfolded u, OF popParamsEx_fields(3) surjective_pairing,
      of "last (px_versions popWorld2)" popWorld3]
  show ?thesis by (simp add: popViewEx_def)
qed

end
