(* ===== verification/S3_Store.thy ===== *)
theory S3_Store
  imports Retime_Example Archive
begin

text \<open>
  The repository in an S3 bucket, from \<open>src/internal/restic/s3.go\<close>: reading the location from a VolSync
  Secret, the object keys, the store and the lister that the controllers use.

  The MinIO client library is the parameter \<open>minioClient\<close>: \<open>mc_New\<close> checks the endpoint, and the other
  fields are its calls. A listing gives its entries in order, each an error or a key; reading an object
  that \<open>GetObject\<close> returned is the call that \<open>mc_GetObject\<close> answers. \<open>url.Parse\<close> is the parameter \<open>urlParse\<close>
  of \<open>Archive\<close>. \<open>path.Join\<close> is written out, with its \<open>path.Clean\<close>.
\<close>

section \<open>Locations\<close>

record repoLocation =
  rl_Endpoint :: string
  rl_Secure :: bool
  rl_Bucket :: string
  rl_Prefix :: string
  rl_AccessKey :: string
  rl_SecretKey :: string
  rl_Password :: string

definition repoLocation0 :: repoLocation where
  "repoLocation0 = \<lparr>rl_Endpoint = [], rl_Secure = False, rl_Bucket = [], rl_Prefix = [], rl_AccessKey = [], rl_SecretKey = [], rl_Password = []\<rparr>"

definition KeyRepository :: string where "KeyRepository = ''RESTIC_REPOSITORY''"
definition KeyPassword :: string where "KeyPassword = ''RESTIC_PASSWORD''"
definition KeyAccessKey :: string where "KeyAccessKey = ''AWS_ACCESS_KEY_ID''"
definition KeySecretKey :: string where "KeySecretKey = ''AWS_SECRET_ACCESS_KEY''"

fun containsStr :: "string \<Rightarrow> string \<Rightarrow> bool" where
  "containsStr [] p = (p = [])"
| "containsStr (c # s) p = (hasPrefix (c # s) p \<or> containsStr s p)"

text \<open>The endpoint, the TLS flag and the rest of a repository string after \<open>s3:\<close>.\<close>

definition splitScheme :: "(string \<Rightarrow> gerr + url) \<Rightarrow> string \<Rightarrow> string \<Rightarrow> gerr + string \<times> bool \<times> string" where
  "splitScheme urlParse repository rest =
     (if containsStr rest ''://'' then
        bindE (wrapE (''parse repository '' @ quote repository @ '': '') (urlParse rest)) (\<lambda>parsed.
        if u_Scheme parsed = ''http'' then Inr (u_Host parsed, False, u_Path parsed)
        else if u_Scheme parsed = ''https'' then Inr (u_Host parsed, True, u_Path parsed)
        else Inl (Plain (''repository '' @ quote repository @ '' has scheme '' @ quote (u_Scheme parsed))))
      else (case cutChar (CHR ''/'') rest of (host, remainder, _) \<Rightarrow> Inr (host, True, remainder)))"

definition ParseRepository :: "(string \<Rightarrow> gerr + url) \<Rightarrow> string \<Rightarrow> gerr + repoLocation" where
  "ParseRepository urlParse repository =
     (case cutPrefix repository ''s3:'' of
        None \<Rightarrow> Inl (Plain (''repository '' @ quote repository @ '' is not an s3: repository''))
      | Some rest \<Rightarrow>
          bindE (splitScheme urlParse repository rest) (\<lambda>(endpoint, secure, path).
          case cutChar (CHR ''/'') (trimSlashes path) of (bucket, pre, _) \<Rightarrow>
          if endpoint = [] \<or> bucket = []
          then Inl (Plain (''repository '' @ quote repository @ '' names no endpoint or no bucket''))
          else Inr (repoLocation0\<lparr>rl_Endpoint := endpoint, rl_Secure := secure, rl_Bucket := bucket, rl_Prefix := pre\<rparr>)))"

definition secretValue :: "secret \<Rightarrow> string \<Rightarrow> gerr + string" where
  "secretValue sec key =
     (case se_data sec key of
        Some raw \<Rightarrow> if raw = [] then Inl (Plain (''secret '' @ m_namespace (se_meta sec) @ ''/'' @ m_name (se_meta sec) @ '' has no '' @ key)) else Inr raw
      | None \<Rightarrow> Inl (Plain (''secret '' @ m_namespace (se_meta sec) @ ''/'' @ m_name (se_meta sec) @ '' has no '' @ key)))"

definition FromSecret :: "(string \<Rightarrow> gerr + url) \<Rightarrow> secret \<Rightarrow> gerr + repoLocation" where
  "FromSecret urlParse sec =
     bindE (secretValue sec KeyRepository) (\<lambda>repository.
     bindE (ParseRepository urlParse repository) (\<lambda>at.
     bindE (secretValue sec KeyPassword) (\<lambda>password.
     bindE (secretValue sec KeyAccessKey) (\<lambda>accessKey.
     bindE (secretValue sec KeySecretKey) (\<lambda>secretKey.
     Inr (at\<lparr>rl_Password := password, rl_AccessKey := accessKey, rl_SecretKey := secretKey\<rparr>))))))"

section \<open>Object keys\<close>

definition cleanedParts :: "string \<Rightarrow> string list" where
  "cleanedParts s = cleanParts (hasPrefix s ''/'') [] (splitAll (CHR ''/'') s)"

definition pathClean :: "string \<Rightarrow> string" where
  "pathClean s =
     (let body = joinStr ''/'' (cleanedParts s) in
      if hasPrefix s ''/'' then ''/'' @ body else if body = [] then ''.'' else body)"

definition goPathJoin :: "string \<Rightarrow> string \<Rightarrow> string" where
  "goPathJoin a b = (if a = [] \<and> b = [] then [] else if a = [] then pathClean b else if b = [] then pathClean a else pathClean (a @ ''/'' @ b))"

definition s3Key :: "repoLocation \<Rightarrow> string \<Rightarrow> string" where
  "s3Key at name = trimPrefix (goPathJoin (rl_Prefix at) name) ''/''"

section \<open>The store\<close>

record s3Object =
  ob_Key :: string
  ob_LastModified :: gtime

record 'w minioClient =
  mc_New :: "string \<Rightarrow> bool \<Rightarrow> string \<Rightarrow> string \<Rightarrow> gerr + unit"
  mc_ListObjects :: "string \<Rightarrow> string \<Rightarrow> ('w, (gerr + s3Object) list) call"
  mc_GetObject :: "string \<Rightarrow> string \<Rightarrow> ('w, ('w, string) call) call"
  mc_PutObject :: "string \<Rightarrow> string \<Rightarrow> string \<Rightarrow> ('w, unit) call"
  mc_RemoveObject :: "string \<Rightarrow> string \<Rightarrow> ('w, unit) call"

definition NewS3Store :: "'w minioClient \<Rightarrow> repoLocation \<Rightarrow> gerr + unit" where
  "NewS3Store mc at =
     wrapE ''build the object store client: '' (mc_New mc (rl_Endpoint at) (rl_Secure at) (rl_AccessKey at) (rl_SecretKey at))"

primrec listNames :: "string \<Rightarrow> string \<Rightarrow> (gerr + s3Object) list \<Rightarrow> gerr + string list" where
  "listNames bucket pre [] = Inr []"
| "listNames bucket pre (x # xs) =
     (case x of
        Inl err \<Rightarrow> Inl (Wrap (''list '' @ bucket @ ''/'' @ pre @ '': '') err)
      | Inr object \<Rightarrow>
          let name = trimPrefix (ob_Key object) pre in
          bindE (listNames bucket pre xs) (\<lambda>names.
          Inr (if name \<noteq> [] \<and> CHR ''/'' \<notin> set name then name # names else names)))"

definition s3List :: "'w minioClient \<Rightarrow> repoLocation \<Rightarrow> string \<Rightarrow> ('w, string list) call" where
  "s3List mc at dir =
     (let pre = s3Key at dir @ ''/'' in
      bindM (mc_ListObjects mc (rl_Bucket at) pre) (\<lambda>entries. liftE (listNames (rl_Bucket at) pre entries)))"

definition s3Get :: "'w minioClient \<Rightarrow> repoLocation \<Rightarrow> string \<Rightarrow> ('w, string) call" where
  "s3Get mc at name =
     bindM (wrapM (''get '' @ rl_Bucket at @ ''/'' @ s3Key at name @ '': '') (mc_GetObject mc (rl_Bucket at) (s3Key at name))) (\<lambda>object.
     wrapM (''read '' @ rl_Bucket at @ ''/'' @ s3Key at name @ '': '') object)"

definition s3Put :: "'w minioClient \<Rightarrow> repoLocation \<Rightarrow> string \<Rightarrow> string \<Rightarrow> ('w, unit) call" where
  "s3Put mc at name data =
     wrapM (''put '' @ rl_Bucket at @ ''/'' @ s3Key at name @ '': '') (mc_PutObject mc (rl_Bucket at) (s3Key at name) data)"

definition s3Remove :: "'w minioClient \<Rightarrow> repoLocation \<Rightarrow> string \<Rightarrow> ('w, unit) call" where
  "s3Remove mc at name =
     wrapM (''remove '' @ rl_Bucket at @ ''/'' @ s3Key at name @ '': '') (mc_RemoveObject mc (rl_Bucket at) (s3Key at name))"

text \<open>The environment of a repository whose files are in the bucket.\<close>

definition s3Env :: "'w resticEnv \<Rightarrow> 'w minioClient \<Rightarrow> repoLocation \<Rightarrow> 'w resticEnv" where
  "s3Env env mc at = env\<lparr>re_List := s3List mc at, re_Get := s3Get mc at, re_Put := s3Put mc at, re_Remove := s3Remove mc at\<rparr>"

section \<open>The lister\<close>

fun isNoRepository1 :: "gerr \<Rightarrow> bool" where
  "isNoRepository1 ErrNoRepository = True"
| "isNoRepository1 _ = False"

definition boolText :: "bool \<Rightarrow> string" where
  "boolText b = (if b then ''true'' else ''false'')"

definition locationText :: "repoLocation \<Rightarrow> string" where
  "locationText at = boolText (rl_Secure at) @ '' '' @ rl_Endpoint at @ ''/'' @ rl_Bucket at @ ''/'' @ rl_Prefix at"

definition listerOpen :: "'w resticEnv \<Rightarrow> 'w minioClient \<Rightarrow> (string \<Rightarrow> gerr + url) \<Rightarrow> ('w \<times> keyCache, unit) call \<Rightarrow> secret \<Rightarrow>
    ('w \<times> keyCache, 'w resticEnv \<times> key) call" where
  "listerOpen env mc urlParse takeSlot sec =
     bindM (liftE (FromSecret urlParse sec)) (\<lambda>at.
     bindM (liftE (NewS3Store mc at)) (\<lambda>_.
     bindM (OpenCached (s3Env env mc at) takeSlot (locationText at) (rl_Password at)) (\<lambda>master.
     ret (s3Env env mc at, master))))"

definition listerSnapshots :: "'w resticEnv \<Rightarrow> 'w minioClient \<Rightarrow> (string \<Rightarrow> gerr + url) \<Rightarrow> ('w \<times> keyCache, unit) call \<Rightarrow> secret \<Rightarrow>
    ('w \<times> keyCache, snapshot list) call" where
  "listerSnapshots env mc urlParse takeSlot sec =
     bindM (attempt (listerOpen env mc urlParse takeSlot sec)) (\<lambda>r. case r of
       Inl err \<Rightarrow> if anyErr isNoRepository1 err then ret [] else failM err
     | Inr (repo, master) \<Rightarrow> onStore (SnapshotsOf repo master))"

definition listerRetime :: "'w resticEnv \<Rightarrow> 'w minioClient \<Rightarrow> (string \<Rightarrow> gerr + url) \<Rightarrow> ('w \<times> keyCache, unit) call \<Rightarrow> secret \<Rightarrow>
    string \<Rightarrow> gtime \<Rightarrow> string \<Rightarrow> string list \<Rightarrow> ('w \<times> keyCache, snapshot) call" where
  "listerRetime env mc urlParse takeSlot sec sid at tag extra =
     bindM (listerOpen env mc urlParse takeSlot sec) (\<lambda>(repo, master).
     onStore (RetimeLocked repo master sid at tag extra))"

section \<open>Where the files of a repository are\<close>

lemma splitAll_app: "splitAll c (a @ c # b) = splitAll c a @ splitAll c b"
proof (induction a)
  case (Cons x a)
  show ?case
  proof (cases "x = c")
    case False
    obtain p ps where p: "splitAll c a = p # ps" using splitAll_nonempty[of c a] by (cases "splitAll c a") auto
    with False Cons show ?thesis by simp
  qed (use Cons in simp)
qed simp

lemma splitAll_no_sep: "p \<in> set (splitAll c s) \<Longrightarrow> c \<notin> set p"
proof (induction s arbitrary: p)
  case (Cons x s)
  obtain q qs where q: "splitAll c s = q # qs" using splitAll_nonempty[of c s] by (cases "splitAll c s") auto
  with Cons show ?case by (auto split: if_splits)
qed simp

text \<open>A component of a path that \<open>path.Clean\<close> keeps.\<close>

definition plainPart :: "string \<Rightarrow> bool" where
  "plainPart p = (p \<noteq> [] \<and> p \<noteq> ''.'' \<and> p \<noteq> ''..'' \<and> CHR ''/'' \<notin> set p)"

lemma cleanParts_set: "p \<in> set (cleanParts rooted acc ps) \<Longrightarrow> p \<in> set acc \<or> p \<in> set ps \<and> p \<noteq> []"
  by (induction rooted acc ps rule: cleanParts.induct) (auto split: if_splits list.splits)

lemma cleanParts_append:
  "\<forall>p \<in> set qs. plainPart p \<Longrightarrow> cleanParts rooted acc (ps @ qs) = cleanParts rooted acc ps @ qs"
proof (induction rooted acc ps rule: cleanParts.induct)
  case (1 rooted acc)
  then show ?case by (induction qs arbitrary: acc) (auto simp: plainPart_def)
qed (auto split: list.split)

lemma cleanedParts_no_slash: "p \<in> set (cleanedParts s) \<Longrightarrow> p \<noteq> [] \<and> CHR ''/'' \<notin> set p"
  unfolding cleanedParts_def using cleanParts_set splitAll_no_sep by fastforce

lemma cleanedParts_app:
  assumes "\<forall>p \<in> set (splitAll (CHR ''/'') b). plainPart p"
  shows "cleanedParts (a @ CHR ''/'' # b) = cleanedParts (if a = [] then ''/'' else a) @ splitAll (CHR ''/'') b"
proof -
  have "hasPrefix (a @ CHR ''/'' # b) ''/'' = hasPrefix (if a = [] then ''/'' else a) ''/''"
    by (cases a) (auto simp: hasPrefix_iff)
  then show ?thesis unfolding cleanedParts_def splitAll_app by (simp add: cleanParts_append[OF assms])
qed

lemma cleanedParts_plain: "\<forall>p \<in> set (splitAll (CHR ''/'') b). plainPart p \<Longrightarrow> cleanedParts b = splitAll (CHR ''/'') b"
  using cleanParts_append[of "splitAll (CHR ''/'') b" _ "[]" "[]"] by (simp add: cleanedParts_def)

definition s3Root :: "repoLocation \<Rightarrow> string" where
  "s3Root at = concat (map (\<lambda>p. p @ ''/'') (cleanedParts (rl_Prefix at)))"

lemma joinStr_append: "ys \<noteq> [] \<Longrightarrow> joinStr ''/'' (xs @ ys) = concat (map (\<lambda>p. p @ ''/'') xs) @ joinStr ''/'' ys"
proof (induction xs)
  case (Cons x xs)
  then show ?case by (cases "xs @ ys") auto
qed simp

lemma joinStr_splitAll: "joinStr [c] (splitAll c s) = s"
proof (induction s)
  case (Cons x s)
  obtain q qs where q: "splitAll c s = q # qs" using splitAll_nonempty[of c s] by (cases "splitAll c s") auto
  with Cons show ?case by (cases qs) auto
qed simp

lemma trimPrefix_none: "\<not> hasPrefix s p \<Longrightarrow> trimPrefix s p = s"
  by (cases "cutPrefix s p") (auto simp: trimPrefix_def hasPrefix_def)

lemma trimPrefix_app [simp]: "trimPrefix (p @ s) p = s"
  by (simp add: trimPrefix_def)

text \<open>The key of a plain path is the path under the root: \<open>path.Join\<close> changes nothing in it.\<close>

lemma s3Key_plain:
  assumes "\<forall>p \<in> set (splitAll (CHR ''/'') name). plainPart p"
  shows "s3Key at name = s3Root at @ name"
proof -
  let ?pre = "rl_Prefix at"
  let ?parts = "cleanedParts ?pre"
  have nil: "\<not> plainPart []" by (simp add: plainPart_def)
  have name: "name \<noteq> [] \<and> hd name \<noteq> CHR ''/''"
  proof (cases name)
    case Nil
    then show ?thesis using assms nil by simp
  next
    case (Cons x r)
    have "x \<noteq> CHR ''/''"
    proof
      assume "x = CHR ''/''"
      then have "[] \<in> set (splitAll (CHR ''/'') name)" by (simp add: Cons)
      then show False using assms nil by blast
    qed
    then show ?thesis by (simp add: Cons)
  qed
  have j: "joinStr ''/'' (?parts @ splitAll (CHR ''/'') name) = s3Root at @ name"
    using joinStr_append[OF splitAll_nonempty] by (simp add: joinStr_splitAll s3Root_def)
  have hd: "\<not> hasPrefix (s3Root at @ name) ''/''"
  proof (cases ?parts)
    case Nil
    then show ?thesis using name by (cases name) (auto simp: s3Root_def hasPrefix_iff)
  next
    case (Cons q qs)
    then have "q \<noteq> [] \<and> CHR ''/'' \<notin> set q" using cleanedParts_no_slash[of q ?pre] by simp
    then show ?thesis using Cons by (cases q) (auto simp: s3Root_def hasPrefix_iff)
  qed
  have ne: "s3Root at @ name \<noteq> []" using name by simp
  show ?thesis
  proof (cases "?pre = []")
    case True
    then have r: "s3Root at = []" by (simp add: s3Root_def cleanedParts_def)
    have "cleanedParts name = splitAll (CHR ''/'') name" using assms by (rule cleanedParts_plain)
    then have "pathClean name = name" using hd r name by (simp add: pathClean_def joinStr_splitAll Let_def)
    then show ?thesis using True r name hd by (simp add: s3Key_def goPathJoin_def trimPrefix_none)
  next
    case False
    then have c: "cleanedParts (?pre @ CHR ''/'' # name) = ?parts @ splitAll (CHR ''/'') name"
      using cleanedParts_app[OF assms, of ?pre] by simp
    have "pathClean (?pre @ CHR ''/'' # name) = (if hasPrefix (?pre @ CHR ''/'' # name) ''/'' then ''/'' @ s3Root at @ name else s3Root at @ name)"
      unfolding pathClean_def c j Let_def using name by simp
    then have "trimPrefix (pathClean (?pre @ CHR ''/'' # name)) ''/'' = s3Root at @ name"
      using hd trimPrefix_app[of "''/''" "s3Root at @ name"] by (simp add: trimPrefix_none)
    then show ?thesis using False name by (simp add: s3Key_def goPathJoin_def)
  qed
qed

lemma plainPart_isID: "isID i \<Longrightarrow> plainPart i"
proof -
  assume i: "isID i"
  then have "length i = 64" by (simp add: isID_def)
  then show "plainPart i" using isID_no_slash[OF i] by (auto simp: plainPart_def)
qed

lemma s3Key_repoDir: "d \<in> repoDirs \<Longrightarrow> s3Key at d = s3Root at @ d"
  by (rule s3Key_plain) (auto simp: repoDirs_def plainPart_def)

lemma s3Key_repoFile:
  assumes "repoFile n"
  shows "s3Key at n = s3Root at @ n"
proof (rule s3Key_plain)
  from assms obtain d i where n: "d \<in> repoDirs" "n = d @ CHR ''/'' # i" "isID i" by (auto simp: repoFile_def pathJoin_def)
  have "splitAll (CHR ''/'') n = [d, i]"
    using n(1) splitAll_absent[OF isID_no_slash[OF n(3)]] unfolding n(2) splitAll_app by (auto simp: repoDirs_def)
  then show "\<forall>p \<in> set (splitAll (CHR ''/'') n). plainPart p" using n(1) plainPart_isID[OF n(3)] by (auto simp: repoDirs_def plainPart_def)
qed

section \<open>The bucket keeps the promises of a store\<close>

text \<open>The documented behaviour of the object store through MinIO, on a view of the objects of each bucket:
  reads are consistent, a write or a delete that fails may have been carried out, and a listing that is not
  recursive gives the objects without a further slash and one entry that ends in a slash for each deeper
  directory.\<close>

definition listedKeys :: "smap \<Rightarrow> string \<Rightarrow> string set" where
  "listedKeys objs pre =
     {pre @ r | r. CHR ''/'' \<notin> set r \<and> objs (pre @ r) \<noteq> None} \<union>
     {pre @ s @ ''/'' | s r. CHR ''/'' \<notin> set s \<and> objs (pre @ s @ ''/'' @ r) \<noteq> None}"

definition bucketLaws :: "'w minioClient \<Rightarrow> ('w \<Rightarrow> string \<Rightarrow> smap) \<Rightarrow> bool" where
  "bucketLaws mc objects =
     ((\<forall>b p. keeps objects (mc_ListObjects mc b p)) \<and> (\<forall>b k. keeps objects (mc_GetObject mc b k)) \<and>
      (\<forall>b p w xs w'. mc_ListObjects mc b p w = (Inr (map Inr xs), w') \<longrightarrow> ob_Key ` set xs = listedKeys (objects w b) p) \<and>
      (\<forall>b k w rd w'. mc_GetObject mc b k w = (Inr rd, w') \<longrightarrow>
         keeps objects rd \<and> (\<forall>w1 x w2. rd w1 = (Inr x, w2) \<longrightarrow> objects w1 b k = Some x)) \<and>
      (\<forall>b k x w. changesTo objects w ((objects w)(b := (objects w b)(k \<mapsto> x))) (mc_PutObject mc b k x w)) \<and>
      (\<forall>b k w. changesTo objects w ((objects w)(b := (objects w b)(k := None))) (mc_RemoveObject mc b k w)))"

text \<open>The files of the repository that a bucket holds.\<close>

definition bucketFiles :: "('w \<Rightarrow> string \<Rightarrow> smap) \<Rightarrow> repoLocation \<Rightarrow> 'w \<Rightarrow> smap" where
  "bucketFiles objects at w = (\<lambda>n. objects w (rl_Bucket at) (s3Root at @ n))"

lemma keeps_bucketFiles: "keeps objects c \<Longrightarrow> keeps (bucketFiles objects at) c"
  by (simp add: keeps_def bucketFiles_def)

lemma keeps_read: "(\<And>w rd w'. c w = (Inr rd, w') \<Longrightarrow> keeps v rd) \<Longrightarrow> keeps v c \<Longrightarrow> keeps v (bindM c (wrapM t))"
  unfolding keeps_def bindM_def wrapM_def by (auto split: prod.splits sum.splits) (metis snd_conv)+

lemma listNames_Inr:
  "listNames b pre entries = Inr names \<Longrightarrow>
     \<exists>xs. entries = map Inr xs \<and> names = filter (\<lambda>n. n \<noteq> [] \<and> CHR ''/'' \<notin> set n) (map (\<lambda>x. trimPrefix (ob_Key x) pre) xs)"
proof (induction entries arbitrary: names)
  case (Cons x entries)
  then obtain ob ns where x: "x = Inr ob" "listNames b pre entries = Inr ns"
      "names = (if trimPrefix (ob_Key ob) pre \<noteq> [] \<and> CHR ''/'' \<notin> set (trimPrefix (ob_Key ob) pre) then trimPrefix (ob_Key ob) pre # ns else ns)"
    by (auto simp: Let_def bindE_Inr_iff split: sum.splits)
  from Cons.IH[OF x(2)] obtain xs where "entries = map Inr xs" "ns = filter (\<lambda>n. n \<noteq> [] \<and> CHR ''/'' \<notin> set n) (map (\<lambda>x. trimPrefix (ob_Key x) pre) xs)" by blast
  then show ?case using x by (intro exI[of _ "ob # xs"]) auto
qed simp

lemma listed_names:
  "{n. n \<noteq> [] \<and> CHR ''/'' \<notin> set n \<and> n \<in> (\<lambda>k. trimPrefix k pre) ` listedKeys objs pre} =
   {n. n \<noteq> [] \<and> objs (pre @ n) \<noteq> None \<and> CHR ''/'' \<notin> set n}"
proof (intro set_eqI iffI)
  fix n assume "n \<in> {n. n \<noteq> [] \<and> CHR ''/'' \<notin> set n \<and> n \<in> (\<lambda>k. trimPrefix k pre) ` listedKeys objs pre}"
  then obtain k where k: "n \<noteq> []" "CHR ''/'' \<notin> set n" "k \<in> listedKeys objs pre" "n = trimPrefix k pre" by blast
  from k(3) consider r where "k = pre @ r" "objs (pre @ r) \<noteq> None" | s where "k = pre @ s @ ''/''"
    unfolding listedKeys_def by blast
  then show "n \<in> {n. n \<noteq> [] \<and> objs (pre @ n) \<noteq> None \<and> CHR ''/'' \<notin> set n}"
  proof cases
    case (2 s)
    then have "n = s @ ''/''" using k(4) by simp
    then show ?thesis using k(2) by simp
  qed (use k in simp)
next
  fix n assume n: "n \<in> {n. n \<noteq> [] \<and> objs (pre @ n) \<noteq> None \<and> CHR ''/'' \<notin> set n}"
  then have "pre @ n \<in> listedKeys objs pre" unfolding listedKeys_def by blast
  then have "trimPrefix (pre @ n) pre \<in> (\<lambda>k. trimPrefix k pre) ` listedKeys objs pre" by (rule imageI)
  then show "n \<in> {n. n \<noteq> [] \<and> CHR ''/'' \<notin> set n \<and> n \<in> (\<lambda>k. trimPrefix k pre) ` listedKeys objs pre}" using n by simp
qed

lemma s3List_law:
  assumes "bucketLaws mc objects"
  shows "listLaw (s3List mc at) (bucketFiles objects at)"
  unfolding listLaw_def
proof (intro allI impI)
  fix d w names w' assume d: "d \<in> repoDirs" and l: "s3List mc at d w = (Inr names, w')"
  let ?pre = "s3Root at @ d @ ''/''"
  from l obtain entries w1 where e: "mc_ListObjects mc (rl_Bucket at) ?pre w = (Inr entries, w1)" "listNames (rl_Bucket at) ?pre entries = Inr names"
    unfolding s3List_def Let_def s3Key_repoDir[OF d] by (auto simp: bindM_Inr_iff)
  from listNames_Inr[OF e(2)] obtain xs where xs: "entries = map Inr xs"
      "names = filter (\<lambda>n. n \<noteq> [] \<and> CHR ''/'' \<notin> set n) (map (\<lambda>x. trimPrefix (ob_Key x) ?pre) xs)" by blast
  have "\<forall>b p w xs w'. mc_ListObjects mc b p w = (Inr (map Inr xs), w') \<longrightarrow> ob_Key ` set xs = listedKeys (objects w b) p"
    using assms unfolding bucketLaws_def by (elim conjE)
  then have k: "ob_Key ` set xs = listedKeys (objects w (rl_Bucket at)) ?pre" using e(1) xs(1) by blast
  have "set names = {n. n \<noteq> [] \<and> CHR ''/'' \<notin> set n \<and> n \<in> (\<lambda>k. trimPrefix k ?pre) ` listedKeys (objects w (rl_Bucket at)) ?pre}"
    unfolding xs(2) k[symmetric] by auto
  then show "set names = {n. n \<noteq> [] \<and> bucketFiles objects at w (pathJoin d n) \<noteq> None \<and> CHR ''/'' \<notin> set n}"
    unfolding listed_names by (simp add: bucketFiles_def pathJoin_def)
qed

lemma s3Get_law:
  assumes "bucketLaws mc objects"
  shows "getLaw (s3Get mc at) (bucketFiles objects at)"
  unfolding getLaw_def
proof (intro allI impI)
  fix n w x w' assume n: "repoFile n" and g: "s3Get mc at n w = (Inr x, w')"
  from g obtain rd w1 where r: "mc_GetObject mc (rl_Bucket at) (s3Root at @ n) w = (Inr rd, w1)" "rd w1 = (Inr x, w')"
    unfolding s3Get_def s3Key_repoFile[OF n] by (auto simp: bindM_Inr_iff)
  have "\<forall>b k w rd w'. mc_GetObject mc b k w = (Inr rd, w') \<longrightarrow> keeps objects rd \<and> (\<forall>w1 x w2. rd w1 = (Inr x, w2) \<longrightarrow> objects w1 b k = Some x)"
    and k: "keeps objects (mc_GetObject mc (rl_Bucket at) (s3Root at @ n))"
    using assms by (simp_all add: bucketLaws_def)
  then have "objects w1 (rl_Bucket at) (s3Root at @ n) = Some x" using r by blast
  then show "bucketFiles objects at w n = Some x" using keepsD[OF k r(1)] by (simp add: bucketFiles_def)
qed

lemma changesTo_wrap: "changesTo v w new (c w) \<Longrightarrow> changesTo v w new (wrapM t c w)"
  by (cases "c w") (auto simp: changesTo_def wrapM_def split: sum.splits)

lemma changesTo_files:
  "changesTo objects w ((objects w)(rl_Bucket at := (objects w (rl_Bucket at))(s3Root at @ n := v))) res \<Longrightarrow>
   changesTo (bucketFiles objects at) w ((bucketFiles objects at w)(n := v)) res"
  by (auto simp: changesTo_def bucketFiles_def fun_eq_iff)

text \<open>C22. The S3 store refines the store that the repository code works on. Whatever prefix the repository
  string names, the key that \<open>path.Join\<close> gives a document is the document's path under one root, so the
  objects under that root are a map of files: a listing of a directory gives exactly its files, a read gives
  the stored bytes, and a write or a delete changes that one file or, when it fails, possibly nothing. All
  that is proved of opening a repository and of moving a snapshot therefore holds of a repository in a
  bucket.\<close>

theorem s3_store_refines:
  assumes "bucketLaws mc objects" "\<And>n. keeps objects (re_rand env n)" "keeps objects (re_now env)" "keeps objects (re_wait env)"
  shows "store_laws (s3Env env mc at) (bucketFiles objects at)"
  unfolding store_laws_def
proof (intro conjI allI impI)
  have l: "keeps objects (mc_ListObjects mc b p)" "keeps objects (mc_GetObject mc b k)" for b p k
    using assms(1) by (simp_all add: bucketLaws_def)
  have rd: "keeps objects rd" if "mc_GetObject mc b k w = (Inr rd, w')" for b k w rd w'
    using assms(1) that unfolding bucketLaws_def by (elim conjE) blast
  show "keeps (bucketFiles objects at) (re_List (s3Env env mc at) d)" for d
    unfolding s3Env_def by (simp add: s3List_def Let_def) (intro keeps_bucketFiles keeps_intros l(1))
  show "keeps (bucketFiles objects at) (re_Get (s3Env env mc at) n)" for n
    unfolding s3Env_def
    by (simp add: s3Get_def) (intro keeps_bucketFiles keeps_read keeps_wrapM l(2), simp, erule rd)
  show "keeps (bucketFiles objects at) (re_rand (s3Env env mc at) n)" for n using assms(2) by (simp add: s3Env_def keeps_bucketFiles)
  show "keeps (bucketFiles objects at) (re_now (s3Env env mc at))" using assms(3) by (simp add: s3Env_def keeps_bucketFiles)
  show "keeps (bucketFiles objects at) (re_wait (s3Env env mc at))" using assms(4) by (simp add: s3Env_def keeps_bucketFiles)
  show "listLaw (re_List (s3Env env mc at)) (bucketFiles objects at)" using s3List_law[OF assms(1)] by (simp add: s3Env_def)
  show "getLaw (re_Get (s3Env env mc at)) (bucketFiles objects at)" using s3Get_law[OF assms(1)] by (simp add: s3Env_def)
  fix n x w assume n: "repoFile n"
  have "changesTo objects w ((objects w)(rl_Bucket at := (objects w (rl_Bucket at))(s3Root at @ n \<mapsto> x))) (mc_PutObject mc (rl_Bucket at) (s3Root at @ n) x w)"
    and d: "changesTo objects w ((objects w)(rl_Bucket at := (objects w (rl_Bucket at))(s3Root at @ n := None))) (mc_RemoveObject mc (rl_Bucket at) (s3Root at @ n) w)"
    using assms(1) by (simp_all add: bucketLaws_def)
  then show "changesTo (bucketFiles objects at) w ((bucketFiles objects at w)(n \<mapsto> x)) (re_Put (s3Env env mc at) n x w)"
    unfolding s3Env_def by (simp add: s3Put_def s3Key_repoFile[OF n]) (rule changesTo_files[OF changesTo_wrap])
  show "changesTo (bucketFiles objects at) w ((bucketFiles objects at w)(n := None)) (re_Remove (s3Env env mc at) n w)"
    using d unfolding s3Env_def by (simp add: s3Remove_def s3Key_repoFile[OF n]) (rule changesTo_files[OF changesTo_wrap])
qed

section \<open>Repository strings\<close>

text \<open>The string that names a location, in restic's s3 form.\<close>

definition repositoryPath :: "repoLocation \<Rightarrow> string" where
  "repositoryPath at = rl_Bucket at @ (if rl_Prefix at = [] then [] else ''/'' @ rl_Prefix at)"

definition repositoryText :: "repoLocation \<Rightarrow> string" where
  "repositoryText at = ''s3:'' @ (if rl_Secure at then [] else ''http://'') @ rl_Endpoint at @ ''/'' @ repositoryPath at"

definition wfLocation :: "repoLocation \<Rightarrow> bool" where
  "wfLocation at =
     (rl_Endpoint at \<noteq> [] \<and> CHR ''/'' \<notin> set (rl_Endpoint at) \<and> rl_Bucket at \<noteq> [] \<and> CHR ''/'' \<notin> set (rl_Bucket at) \<and>
      (rl_Prefix at \<noteq> [] \<longrightarrow> last (rl_Prefix at) \<noteq> CHR ''/''))"

lemma trimSlashes_id: "s \<noteq> [] \<Longrightarrow> hd s \<noteq> CHR ''/'' \<Longrightarrow> last s \<noteq> CHR ''/'' \<Longrightarrow> trimSlashes s = s"
proof -
  assume s: "s \<noteq> []" "hd s \<noteq> CHR ''/''" "last s \<noteq> CHR ''/''"
  have "dropWhile (\<lambda>c. c = CHR ''/'') s = s" using s by (cases s) auto
  moreover have "dropWhile (\<lambda>c. c = CHR ''/'') (rev s) = rev s" using s(1,3) by (cases s rule: rev_cases) auto
  ultimately show "trimSlashes s = s" by (simp add: trimSlashes_def trimSet_def)
qed

lemma trimSlashes_slash: "trimSlashes (CHR ''/'' # s) = trimSlashes s"
  by (simp add: trimSlashes_def trimSet_def)

lemma repositoryPath_parse:
  assumes "wfLocation at"
  shows "\<exists>b. cutChar (CHR ''/'') (trimSlashes (repositoryPath at)) = (rl_Bucket at, rl_Prefix at, b)"
proof -
  have w: "rl_Bucket at \<noteq> []" "CHR ''/'' \<notin> set (rl_Bucket at)" "rl_Prefix at \<noteq> [] \<Longrightarrow> last (rl_Prefix at) \<noteq> CHR ''/''"
    using assms by (simp_all add: wfLocation_def)
  have "hd (rl_Bucket at) \<noteq> CHR ''/''" "last (rl_Bucket at) \<noteq> CHR ''/''" using w(1,2) hd_in_set last_in_set by metis+
  then have t: "trimSlashes (repositoryPath at) = repositoryPath at"
    using w by (intro trimSlashes_id) (auto simp: repositoryPath_def)
  show ?thesis
  proof (cases "rl_Prefix at = []")
    case True
    then have "repositoryPath at = rl_Bucket at" by (simp add: repositoryPath_def)
    then show ?thesis unfolding t using cutChar_absent[OF w(2)] True by (intro exI[of _ False]) simp
  next
    case False
    then have "repositoryPath at = rl_Bucket at @ CHR ''/'' # rl_Prefix at" by (simp add: repositoryPath_def)
    then show ?thesis unfolding t using cutChar_found[OF w(2)] by (intro exI[of _ True]) simp
  qed
qed

text \<open>C39. A repository string that names an endpoint, a bucket and a prefix reads back as exactly that
  location, over HTTPS without a scheme and over HTTP with one, so the controller works on the repository that
  restic works on. (\<open>url.Parse\<close> answers the host and the path of a plain http URL.)\<close>

theorem ParseRepository_roundtrip:
  assumes wf: "wfLocation at" and plain: "rl_Secure at \<Longrightarrow> \<not> containsStr (rl_Endpoint at @ ''/'' @ repositoryPath at) ''://''"
    and url: "\<not> rl_Secure at \<Longrightarrow> urlParse (''http://'' @ rl_Endpoint at @ ''/'' @ repositoryPath at) =
      Inr \<lparr>u_Scheme = ''http'', u_Host = rl_Endpoint at, u_Path = ''/'' @ repositoryPath at\<rparr>"
  shows "ParseRepository urlParse (repositoryText at) =
    Inr (repoLocation0\<lparr>rl_Endpoint := rl_Endpoint at, rl_Secure := rl_Secure at, rl_Bucket := rl_Bucket at, rl_Prefix := rl_Prefix at\<rparr>)"
proof -
  have w: "rl_Endpoint at \<noteq> []" "CHR ''/'' \<notin> set (rl_Endpoint at)" "rl_Bucket at \<noteq> []" using wf by (simp_all add: wfLocation_def)
  obtain b where cut: "cutChar (CHR ''/'') (trimSlashes (repositoryPath at)) = (rl_Bucket at, rl_Prefix at, b)"
    using repositoryPath_parse[OF wf] by blast
  show ?thesis
  proof (cases "rl_Secure at")
    case True
    have s: "splitScheme urlParse r (rl_Endpoint at @ ''/'' @ repositoryPath at) = Inr (rl_Endpoint at, True, repositoryPath at)" for r
      using plain[OF True] cutChar_found[OF w(2), of "repositoryPath at"] by (simp add: splitScheme_def)
    have c: "cutPrefix (repositoryText at) ''s3:'' = Some (rl_Endpoint at @ ''/'' @ repositoryPath at)"
      unfolding repositoryText_def using True by (simp add: cutPrefix_Some_iff)
    show ?thesis unfolding ParseRepository_def c option.simps s using w(1,3) True by (simp add: cut)
  next
    case False
    have "containsStr (''http://'' @ x) ''://''" for x by (simp add: hasPrefix_iff)
    then have s: "splitScheme urlParse r (''http://'' @ rl_Endpoint at @ ''/'' @ repositoryPath at) = Inr (rl_Endpoint at, False, ''/'' @ repositoryPath at)" for r
      unfolding splitScheme_def url[OF False] by simp
    have c: "cutPrefix (repositoryText at) ''s3:'' = Some (''http://'' @ rl_Endpoint at @ ''/'' @ repositoryPath at)"
      unfolding repositoryText_def using False by (simp add: cutPrefix_Some_iff)
    show ?thesis unfolding ParseRepository_def c option.simps s using w(1,3) False by (simp add: trimSlashes_slash cut)
  qed
qed

theorem ParseRepository_roundtrip_witness:
  "ParseRepository (\<lambda>_. Inl (Plain [])) ''s3:s3.example.com/bkt/app/data'' =
    Inr (repoLocation0\<lparr>rl_Endpoint := ''s3.example.com'', rl_Secure := True, rl_Bucket := ''bkt'', rl_Prefix := ''app/data''\<rparr>)"
proof -
  let ?at = "repoLocation0\<lparr>rl_Endpoint := ''s3.example.com'', rl_Secure := True, rl_Bucket := ''bkt'', rl_Prefix := ''app/data''\<rparr>"
  have t: "repositoryText ?at = ''s3:s3.example.com/bkt/app/data''" by code_simp
  have w: "wfLocation ?at" by code_simp
  have p: "\<not> containsStr (rl_Endpoint ?at @ ''/'' @ repositoryPath ?at) ''://''" by code_simp
  have s: "rl_Secure ?at" by simp
  from ParseRepository_roundtrip[OF w, of "\<lambda>_. Inl (Plain [])"] p s show ?thesis unfolding t by (simp add: repoLocation0_def)
qed

lemma ParseRepository_Inr:
  assumes "ParseRepository urlParse r = Inr at"
  shows "rl_Endpoint at \<noteq> [] \<and> rl_Bucket at \<noteq> [] \<and> CHR ''/'' \<notin> set (rl_Bucket at)"
proof -
  from assms obtain rest endpoint secure path where
      k: "(case cutChar (CHR ''/'') (trimSlashes path) of (bucket, pre, _) \<Rightarrow>
          if endpoint = [] \<or> bucket = [] then Inl (Plain (''repository '' @ quote r @ '' names no endpoint or no bucket''))
          else Inr (repoLocation0\<lparr>rl_Endpoint := endpoint, rl_Secure := secure, rl_Bucket := bucket, rl_Prefix := pre\<rparr>)) = Inr at"
    unfolding ParseRepository_def by (cases "cutPrefix r ''s3:''") (auto simp: bindE_Inr_iff)
  obtain bucket pre b where cut: "cutChar (CHR ''/'') (trimSlashes path) = (bucket, pre, b)" by (rule prod_cases3)
  from k have c: "cutChar (CHR ''/'') (trimSlashes path) = (bucket, pre, b)" "endpoint \<noteq> []" "bucket \<noteq> []"
      "at = repoLocation0\<lparr>rl_Endpoint := endpoint, rl_Secure := secure, rl_Bucket := bucket, rl_Prefix := pre\<rparr>"
    unfolding cut by (auto split: if_splits)
  have "CHR ''/'' \<notin> set bucket"
  proof (cases "CHR ''/'' \<in> set (trimSlashes path)")
    case True
    then obtain u v where "trimSlashes path = u @ CHR ''/'' # v" "CHR ''/'' \<notin> set u" by (metis split_list_first)
    then show ?thesis using cutChar_found[of "CHR ''/''" u v] c(1) by simp
  next
    case False
    then show ?thesis using cutChar_absent[OF False] c(1) by simp
  qed
  with c show ?thesis by simp
qed

text \<open>Two locations have the same text, and so may share an entry of the key cache, only when they agree.\<close>

lemma locationText_inject:
  assumes "CHR ''/'' \<notin> set (rl_Endpoint a)" "CHR ''/'' \<notin> set (rl_Bucket a)" "CHR ''/'' \<notin> set (rl_Endpoint b)" "CHR ''/'' \<notin> set (rl_Bucket b)"
    and eq: "locationText a = locationText b"
  shows "rl_Secure a = rl_Secure b \<and> rl_Endpoint a = rl_Endpoint b \<and> rl_Bucket a = rl_Bucket b \<and> rl_Prefix a = rl_Prefix b"
proof -
  have s: "rl_Secure a = rl_Secure b" using eq by (cases "rl_Secure a"; cases "rl_Secure b") (simp_all add: locationText_def boolText_def)
  then have "rl_Endpoint a @ CHR ''/'' # rl_Bucket a @ CHR ''/'' # rl_Prefix a = rl_Endpoint b @ CHR ''/'' # rl_Bucket b @ CHR ''/'' # rl_Prefix b"
    using eq by (simp add: locationText_def)
  then have e: "rl_Endpoint a = rl_Endpoint b \<and> rl_Bucket a @ CHR ''/'' # rl_Prefix a = rl_Bucket b @ CHR ''/'' # rl_Prefix b"
    using cutChar_found[OF assms(1)] cutChar_found[OF assms(3)] by (metis Pair_inject)
  then have "rl_Bucket a = rl_Bucket b \<and> rl_Prefix a = rl_Prefix b"
    using cutChar_found[OF assms(2)] cutChar_found[OF assms(4)] by (metis Pair_inject)
  with s e show ?thesis by simp
qed

end
