(* ===== verification/S3_Prober.thy ===== *)
theory S3_Prober
  imports S3_Store
begin

text \<open>
  The probes of a database's archive, from \<open>src/internal/bootstrap/s3.go\<close>: whether anything is archived, and
  whether barman wrote a WAL file after a moment.

  The MinIO client library and the certificate pools of \<open>crypto/x509\<close> are the parameter \<open>proberEnv\<close>, whose
  type of a client and of a pool is left open. A listing gives its entries in order, each an error or an
  object; \<open>MaxKeys\<close> is the size of a page and leaves the listing the same.
\<close>

record listOptions =
  lo_ListPrefix :: string
  lo_Recursive :: bool
  lo_MaxKeys :: nat

text \<open>The options of \<open>minio.New\<close>. The transport is the pool of roots it trusts, with TLS 1.2 at least.\<close>

record 'p minioOptions =
  mo_AccessKey :: string
  mo_SecretKey :: string
  mo_Secure :: bool
  mo_Transport :: "'p option"

record ('w, 'c, 'p) proberEnv =
  pb_SystemCertPool :: "gerr + 'p option"
  pb_NewCertPool :: 'p
  pb_AppendCertsFromPEM :: "'p \<Rightarrow> string \<Rightarrow> 'p \<times> bool"
  pb_New :: "string \<Rightarrow> 'p minioOptions \<Rightarrow> gerr + 'c"
  pb_ListObjects :: "'c \<Rightarrow> string \<Rightarrow> listOptions \<Rightarrow> 'w \<Rightarrow> (gerr + s3Object) list \<times> 'w"

definition tlsTransport :: "('w, 'c, 'p) proberEnv \<Rightarrow> string \<Rightarrow> gerr + 'p" where
  "tlsTransport env bundle =
     (let roots = (case pb_SystemCertPool env of Inr (Some pool) \<Rightarrow> pool | _ \<Rightarrow> pb_NewCertPool env) in
      if bundle = [] then Inr roots
      else case pb_AppendCertsFromPEM env roots bundle of (roots, ok) \<Rightarrow>
        if \<not> ok then Inl (Plain ''the endpointCA bundle holds no PEM certificate'') else Inr roots)"

definition splitEndpoint :: "(string \<Rightarrow> gerr + url) \<Rightarrow> string \<Rightarrow> gerr + string \<times> bool" where
  "splitEndpoint urlParse endpoint =
     (if endpoint = [] then Inl (Plain ''the object store names no endpointURL'')
      else if \<not> containsStr endpoint ''://'' then Inr (endpoint, True)
      else bindE (wrapE (''parse endpointURL '' @ quote endpoint @ '': '') (urlParse endpoint)) (\<lambda>parsed.
        if u_Scheme parsed = [] then Inr (endpoint, True)
        else if u_Scheme parsed = ''https'' then Inr (u_Host parsed, True)
        else if u_Scheme parsed = ''http'' then Inr (u_Host parsed, False)
        else Inl (Plain (''endpointURL '' @ quote endpoint @ '' has scheme '' @ quote (u_Scheme parsed)))))"

definition proberClient :: "('w, 'c, 'p) proberEnv \<Rightarrow> (string \<Rightarrow> gerr + url) \<Rightarrow> location \<Rightarrow> gerr + 'c" where
  "proberClient env urlParse at =
     bindE (splitEndpoint urlParse (lo_Endpoint at)) (\<lambda>(endpoint, secure).
     bindE (if secure then bindE (tlsTransport env (lo_CABundle at)) (\<lambda>roots. Inr (Some roots)) else Inr None) (\<lambda>transport.
     wrapE ''build the object store client: ''
       (pb_New env endpoint \<lparr>mo_AccessKey = lo_AccessKey at, mo_SecretKey = lo_SecretKey at, mo_Secure = secure, mo_Transport = transport\<rparr>)))"

definition archiveEmpty :: "('w, 'c, 'p) proberEnv \<Rightarrow> (string \<Rightarrow> gerr + url) \<Rightarrow> location \<Rightarrow> ('w, bool) call" where
  "archiveEmpty env urlParse at =
     bindM (liftE (proberClient env urlParse at)) (\<lambda>client w.
     case pb_ListObjects env client (lo_Bucket at) \<lparr>lo_ListPrefix = ArchivePrefix at, lo_Recursive = True, lo_MaxKeys = 1\<rparr> w of (listing, w) \<Rightarrow>
     (case listing of
        [] \<Rightarrow> Inr True
      | Inl err # _ \<Rightarrow> Inl (Wrap (''list '' @ lo_Bucket at @ ''/'' @ ArchivePrefix at @ '': '') err)
      | Inr _ # _ \<Rightarrow> Inr False, w))"

text \<open>The first loop of \<open>WALSince\<close>: an error, a file that is new enough (\<open>None\<close>), or the last directory.\<close>

primrec lastDirectory :: "string \<Rightarrow> gtime \<Rightarrow> string \<Rightarrow> (gerr + s3Object) list \<Rightarrow> gerr + string option" where
  "lastDirectory place since dir [] = Inr (Some dir)"
| "lastDirectory place since dir (x # listing) =
     (case x of
        Inl err \<Rightarrow> Inl (Wrap (''list '' @ place @ '': '') err)
      | Inr object \<Rightarrow>
          if hasSuffix (ob_Key object) ''/'' then lastDirectory place since (max dir (ob_Key object)) listing
          else if since < ob_LastModified object then Inr None
          else lastDirectory place since dir listing)"

primrec anyNewer :: "string \<Rightarrow> gtime \<Rightarrow> (gerr + s3Object) list \<Rightarrow> gerr + bool" where
  "anyNewer place since [] = Inr False"
| "anyNewer place since (x # listing) =
     (case x of
        Inl err \<Rightarrow> Inl (Wrap (''list '' @ place @ '': '') err)
      | Inr object \<Rightarrow> if since < ob_LastModified object then Inr True else anyNewer place since listing)"

definition walSince :: "('w, 'c, 'p) proberEnv \<Rightarrow> (string \<Rightarrow> gerr + url) \<Rightarrow> location \<Rightarrow> gtime \<Rightarrow> ('w, bool) call" where
  "walSince env urlParse at since =
     bindM (liftE (proberClient env urlParse at)) (\<lambda>client w.
     case pb_ListObjects env client (lo_Bucket at) \<lparr>lo_ListPrefix = WALPrefix at, lo_Recursive = False, lo_MaxKeys = 0\<rparr> w of (listing, w) \<Rightarrow>
     case lastDirectory (lo_Bucket at @ ''/'' @ WALPrefix at) since [] listing of
       Inl err \<Rightarrow> (Inl err, w)
     | Inr None \<Rightarrow> (Inr True, w)
     | Inr (Some dir) \<Rightarrow>
         if dir = [] then (Inr False, w)
         else (case pb_ListObjects env client (lo_Bucket at) \<lparr>lo_ListPrefix = dir, lo_Recursive = True, lo_MaxKeys = 0\<rparr> w of (listing, w) \<Rightarrow>
           (anyNewer (lo_Bucket at @ ''/'' @ dir) since listing, w)))"

section \<open>What the probes answer\<close>

text \<open>The times of the objects of each bucket, under the documented behaviour of a listing: every object it
  gives is there with its time, an entry that ends in a slash stands for a deeper directory that is not empty,
  and a listing without an error leaves out nothing.\<close>

definition listedObject :: "(string \<Rightarrow> gtime option) \<Rightarrow> listOptions \<Rightarrow> s3Object \<Rightarrow> bool" where
  "listedObject stamps opts object =
     (\<exists>r. ob_Key object = lo_ListPrefix opts @ r \<and> (lo_Recursive opts \<or> CHR ''/'' \<notin> set r) \<and>
          stamps (ob_Key object) = Some (ob_LastModified object))"

definition listedDirectory :: "(string \<Rightarrow> gtime option) \<Rightarrow> listOptions \<Rightarrow> s3Object \<Rightarrow> bool" where
  "listedDirectory stamps opts object =
     (\<exists>s r. \<not> lo_Recursive opts \<and> CHR ''/'' \<notin> set s \<and> ob_Key object = lo_ListPrefix opts @ s @ ''/'' \<and> stamps (ob_Key object @ r) \<noteq> None)"

definition listingTrue :: "(string \<Rightarrow> gtime option) \<Rightarrow> listOptions \<Rightarrow> (gerr + s3Object) list \<Rightarrow> bool" where
  "listingTrue stamps opts listing =
     (\<forall>object. Inr object \<in> set listing \<longrightarrow> listedObject stamps opts object \<or> listedDirectory stamps opts object)"

definition listingWhole :: "(string \<Rightarrow> gtime option) \<Rightarrow> listOptions \<Rightarrow> (gerr + s3Object) list \<Rightarrow> bool" where
  "listingWhole stamps opts listing =
     (\<forall>r. stamps (lo_ListPrefix opts @ r) \<noteq> None \<longrightarrow>
        (if lo_Recursive opts \<or> CHR ''/'' \<notin> set r
         then \<exists>object. Inr object \<in> set listing \<and> ob_Key object = lo_ListPrefix opts @ r
         else \<exists>object. Inr object \<in> set listing \<and> ob_Key object = lo_ListPrefix opts @ takeWhile (\<lambda>c. c \<noteq> CHR ''/'') r @ ''/''))"

definition listingLaws :: "('w, 'c, 'p) proberEnv \<Rightarrow> ('w \<Rightarrow> string \<Rightarrow> string \<Rightarrow> gtime option) \<Rightarrow> bool" where
  "listingLaws env stamps =
     (\<forall>client bucket opts w listing w'. pb_ListObjects env client bucket opts w = (listing, w') \<longrightarrow>
        stamps w' = stamps w \<and> listingTrue (stamps w bucket) opts listing \<and>
        ((\<forall>e. Inl e \<notin> set listing) \<longrightarrow> listingWhole (stamps w bucket) opts listing))"

lemma listingLawsD:
  assumes "listingLaws env stamps" "pb_ListObjects env client bucket opts w = (listing, w')"
  shows "stamps w' = stamps w" "listingTrue (stamps w bucket) opts listing"
    "(\<forall>e. Inl e \<notin> set listing) \<Longrightarrow> listingWhole (stamps w bucket) opts listing"
  using assms unfolding listingLaws_def by blast+

lemma hasSuffix_slash: "hasSuffix s ''/'' \<longleftrightarrow> s \<noteq> [] \<and> last s = CHR ''/''"
  by (cases s rule: rev_cases) (auto simp: hasSuffix_def hasPrefix_iff)

lemma ArchivePrefix_root:
  "ArchivePrefix at = (case lo_Prefix at of [] \<Rightarrow> [] | c # cs \<Rightarrow> (if c = CHR ''/'' then cs else c # cs) @ ''/'')"
  by (cases "lo_Prefix at") (auto simp: ArchivePrefix_def trimPrefix_def)

lemma archiveEmpty_listing:
  assumes laws: "listingLaws env stamps" and run: "archiveEmpty env urlParse at w = (Inr answer, w')"
  shows "answer = (\<forall>k. hasPrefix k (ArchivePrefix at) \<longrightarrow> stamps w (lo_Bucket at) k = None)"
proof -
  let ?opts = "\<lparr>lo_ListPrefix = ArchivePrefix at, lo_Recursive = True, lo_MaxKeys = 1\<rparr>"
  from run obtain client where "(case pb_ListObjects env client (lo_Bucket at) ?opts w of (listing, w) \<Rightarrow>
     (case listing of [] \<Rightarrow> Inr True
      | Inl err # _ \<Rightarrow> Inl (Wrap (''list '' @ lo_Bucket at @ ''/'' @ ArchivePrefix at @ '': '') err)
      | Inr _ # _ \<Rightarrow> Inr False, w)) = (Inr answer, w')"
    unfolding archiveEmpty_def by (auto simp: bindM_Inr_iff)
  then obtain listing where l: "pb_ListObjects env client (lo_Bucket at) ?opts w = (listing, w')"
    and a: "listing = [] \<and> answer \<or> (\<exists>x xs. listing = Inr x # xs) \<and> \<not> answer"
    by (auto split: prod.splits list.splits sum.splits)
  note tr = listingLawsD(2)[OF laws l] and whole = listingLawsD(3)[OF laws l]
  from a show ?thesis
  proof
    assume n: "listing = [] \<and> answer"
    then have "stamps w (lo_Bucket at) (ArchivePrefix at @ r) = None" for r
      using whole by (auto simp: listingWhole_def)
    then show ?thesis using n by (auto simp: hasPrefix_iff)
  next
    assume "(\<exists>x xs. listing = Inr x # xs) \<and> \<not> answer"
    then obtain x xs where "listing = Inr x # xs" and x: "\<not> answer" by blast
    then have "Inr x \<in> set listing" by simp
    note x = this x
    then have "listedObject (stamps w (lo_Bucket at)) ?opts x"
      using tr unfolding listingTrue_def by (auto simp: listedDirectory_def)
    then have "hasPrefix (ob_Key x) (ArchivePrefix at)" "stamps w (lo_Bucket at) (ob_Key x) \<noteq> None"
      by (auto simp: listedObject_def hasPrefix_iff)
    then show ?thesis using x(2) by auto
  qed
qed

text \<open>C40. \<open>ArchiveEmpty\<close> answers that the archive is empty exactly when no object at all is stored in the
  database's directory of the bucket: under its prefix (less one leading slash) and a slash, or anywhere in
  the bucket when the prefix is empty. So the webhook lets a new database start only where it would overwrite
  nothing, and an archive named \<open>db-old\<close> does not count for \<open>db\<close>.\<close>

theorem archiveEmpty_exact:
  assumes "listingLaws env stamps" "archiveEmpty env urlParse at w = (Inr answer, w')"
  shows "answer = (\<forall>r. stamps w (lo_Bucket at)
     ((case lo_Prefix at of [] \<Rightarrow> [] | c # cs \<Rightarrow> (if c = CHR ''/'' then cs else c # cs) @ ''/'') @ r) = None)"
  unfolding ArchivePrefix_root[symmetric] archiveEmpty_listing[OF assms] by (auto simp: hasPrefix_iff)

lemma lastDirectory_None:
  "lastDirectory place since dir listing = Inr None \<Longrightarrow>
     \<exists>object. Inr object \<in> set listing \<and> \<not> hasSuffix (ob_Key object) ''/'' \<and> since < ob_LastModified object"
  by (induction listing arbitrary: dir) (auto split: sum.splits if_splits)

lemma lastDirectory_Some:
  "lastDirectory place since dir listing = Inr (Some d) \<Longrightarrow>
     (\<forall>e. Inl e \<notin> set listing) \<and> dir \<le> d \<and>
     (\<forall>object. Inr object \<in> set listing \<longrightarrow> (if hasSuffix (ob_Key object) ''/'' then ob_Key object \<le> d else ob_LastModified object \<le> since)) \<and>
     (d = dir \<or> (\<exists>object. Inr object \<in> set listing \<and> hasSuffix (ob_Key object) ''/'' \<and> d = ob_Key object))"
proof (induction listing arbitrary: dir)
  case (Cons x listing)
  then obtain object where x: "x = Inr object" by (cases x) auto
  show ?case
  proof (cases "hasSuffix (ob_Key object) ''/''")
    case True
    then have "lastDirectory place since (max dir (ob_Key object)) listing = Inr (Some d)" using Cons.prems x by simp
    from Cons.IH[OF this] True show ?thesis by (auto simp: x max_def split: if_splits)
  next
    case False
    then have "lastDirectory place since dir listing = Inr (Some d)" "ob_LastModified object \<le> since"
      using Cons.prems x by (auto split: if_splits)
    with Cons.IH[OF this(1)] False show ?thesis by (auto simp: x)
  qed
qed simp

lemma anyNewer_Inr:
  "anyNewer place since listing = Inr b \<Longrightarrow>
     (b \<longrightarrow> (\<exists>object. Inr object \<in> set listing \<and> since < ob_LastModified object)) \<and>
     (\<not> b \<longrightarrow> (\<forall>e. Inl e \<notin> set listing) \<and> (\<forall>object. Inr object \<in> set listing \<longrightarrow> ob_LastModified object \<le> since))"
  by (induction listing) (auto split: sum.splits if_splits)

text \<open>Barman's names: a directory that sorts later holds no older file, and nothing is stored at the
  prefix itself.\<close>

definition walNames :: "(string \<Rightarrow> gtime option) \<Rightarrow> string \<Rightarrow> bool" where
  "walNames stamps pre =
     (stamps pre = None \<and>
      (\<forall>s r t s' r' t'. CHR ''/'' \<notin> set s \<longrightarrow> CHR ''/'' \<notin> set s' \<longrightarrow> s @ ''/'' < s' @ ''/'' \<longrightarrow>
         stamps (pre @ s @ ''/'' @ r) = Some t \<longrightarrow> stamps (pre @ s' @ ''/'' @ r') = Some t' \<longrightarrow> t \<le> t'))"

lemma walNamesD:
  "walNames stamps pre \<Longrightarrow> CHR ''/'' \<notin> set s \<Longrightarrow> CHR ''/'' \<notin> set s' \<Longrightarrow> s @ ''/'' < s' @ ''/'' \<Longrightarrow>
     stamps (pre @ s @ ''/'' @ r) = Some t \<Longrightarrow> stamps (pre @ s' @ ''/'' @ r') = Some t' \<Longrightarrow> t \<le> t'"
  unfolding walNames_def by blast

lemma append_le_append: "(pre @ x \<le> pre @ y) = (x \<le> y)" for pre x y :: string
  by (induction pre) auto

lemma wholeD:
  assumes "listingWhole stamps opts listing" "stamps (lo_ListPrefix opts @ r) \<noteq> None"
  shows "lo_Recursive opts \<or> CHR ''/'' \<notin> set r \<Longrightarrow> \<exists>object. Inr object \<in> set listing \<and> ob_Key object = lo_ListPrefix opts @ r"
    and "\<not> lo_Recursive opts \<Longrightarrow> CHR ''/'' \<notin> set s \<Longrightarrow> r = s @ ''/'' @ q \<Longrightarrow>
      \<exists>object. Inr object \<in> set listing \<and> ob_Key object = lo_ListPrefix opts @ s @ ''/''"
proof -
  have w: "if lo_Recursive opts \<or> CHR ''/'' \<notin> set r
         then \<exists>object. Inr object \<in> set listing \<and> ob_Key object = lo_ListPrefix opts @ r
         else \<exists>object. Inr object \<in> set listing \<and> ob_Key object = lo_ListPrefix opts @ takeWhile (\<lambda>c. c \<noteq> CHR ''/'') r @ ''/''"
    using assms unfolding listingWhole_def by blast
  then show "\<exists>object. Inr object \<in> set listing \<and> ob_Key object = lo_ListPrefix opts @ r" if "lo_Recursive opts \<or> CHR ''/'' \<notin> set r"
    using that by (simp only: if_True)
  show "\<exists>object. Inr object \<in> set listing \<and> ob_Key object = lo_ListPrefix opts @ s @ ''/''"
    if s: "\<not> lo_Recursive opts" "CHR ''/'' \<notin> set s" "r = s @ ''/'' @ q"
  proof -
    have "takeWhile (\<lambda>c. c \<noteq> CHR ''/'') (s @ ''/'' @ q) = s" using s(2) by (induction s) auto
    with w s show ?thesis by simp
  qed
qed

lemma trueD: "listingTrue stamps opts listing \<Longrightarrow> Inr object \<in> set listing \<Longrightarrow> listedObject stamps opts object \<or> listedDirectory stamps opts object"
  by (simp add: listingTrue_def)

lemma listedDirectory_slash: "listedDirectory stamps opts object \<Longrightarrow> hasSuffix (ob_Key object) ''/''"
  by (auto simp: listedDirectory_def hasSuffix_slash)

lemma listedDirectory_flat: "lo_Recursive opts \<Longrightarrow> \<not> listedDirectory stamps opts object"
  by (simp add: listedDirectory_def)

lemma listedObject_under:
  "listedObject stamps opts object \<Longrightarrow> hasPrefix (ob_Key object) (lo_ListPrefix opts) \<and> stamps (ob_Key object) = Some (ob_LastModified object)"
  by (auto simp: listedObject_def hasPrefix_iff)

lemma listedObject_newer:
  assumes "listedObject stamps opts x" "since < ob_LastModified x"
  shows "\<exists>r t. stamps (lo_ListPrefix opts @ r) = Some t \<and> since < t"
proof -
  from assms(1) obtain r where "stamps (lo_ListPrefix opts @ r) = Some (ob_LastModified x)" by (auto simp: listedObject_def)
  with assms(2) show ?thesis by blast
qed

text \<open>A first listing that shows no file that is new enough, and its last directory.\<close>

definition oldUntil :: "(string \<Rightarrow> gtime option) \<Rightarrow> listOptions \<Rightarrow> gtime \<Rightarrow> string \<Rightarrow> (gerr + s3Object) list \<Rightarrow> bool" where
  "oldUntil stamps opts since dir listing =
     (\<not> lo_Recursive opts \<and> walNames stamps (lo_ListPrefix opts) \<and> listingTrue stamps opts listing \<and> listingWhole stamps opts listing \<and>
      lastDirectory (lo_ListPrefix opts) since [] listing = Inr (Some dir))"

lemma lastDirectory_place: "lastDirectory place since d listing = Inr r \<longleftrightarrow> lastDirectory place' since d listing = Inr r"
  by (induction listing arbitrary: d) (auto split: sum.splits)

lemma flat_old:
  assumes o: "oldUntil stamps opts since dir listing" and t: "stamps (lo_ListPrefix opts @ r) = Some t" and r: "CHR ''/'' \<notin> set r"
  shows "t \<le> since"
proof -
  have "r \<noteq> []" using o t by (auto simp: oldUntil_def walNames_def)
  then have e: "\<not> hasSuffix (lo_ListPrefix opts @ r) ''/''" using r by (auto simp: hasSuffix_slash dest: last_in_set)
  have "listingWhole stamps opts listing" using o by (simp add: oldUntil_def)
  from wholeD(1)[OF this, of r] t r obtain object where ob: "Inr object \<in> set listing" "ob_Key object = lo_ListPrefix opts @ r" by auto
  have "listedObject stamps opts object" using trueD[OF _ ob(1)] listedDirectory_slash e ob(2) o by (metis oldUntil_def)
  then have "ob_LastModified object = t" using listedObject_under t ob(2) by fastforce
  moreover have "ob_LastModified object \<le> since" using o lastDirectory_Some ob e by (auto simp: oldUntil_def)
  ultimately show ?thesis by simp
qed

lemma entry_le:
  assumes o: "oldUntil stamps opts since dir listing" and t: "stamps (lo_ListPrefix opts @ s @ ''/'' @ r) \<noteq> None" and s: "CHR ''/'' \<notin> set s"
  shows "lo_ListPrefix opts @ s @ ''/'' \<le> dir"
proof -
  have w: "listingWhole stamps opts listing" "\<not> lo_Recursive opts" using o by (simp_all add: oldUntil_def)
  from wholeD(2)[OF w(1) t w(2) s] obtain object where "Inr object \<in> set listing" "ob_Key object = lo_ListPrefix opts @ s @ ''/''" by auto
  then show ?thesis using o lastDirectory_Some by (fastforce simp: oldUntil_def hasSuffix_slash)
qed

lemma lastDirectory_shown:
  assumes o: "oldUntil stamps opts since dir listing" and dir: "dir \<noteq> []"
  obtains s r where "dir = lo_ListPrefix opts @ s @ ''/''" "CHR ''/'' \<notin> set s" "stamps (dir @ r) \<noteq> None"
proof -
  from o dir obtain object where ob: "Inr object \<in> set listing" "hasSuffix (ob_Key object) ''/''" "dir = ob_Key object"
    using lastDirectory_Some[of "lo_ListPrefix opts" since "[]" listing dir] by (auto simp: oldUntil_def)
  have nm: "stamps (lo_ListPrefix opts) = None" and nr: "\<not> lo_Recursive opts" using o by (simp_all add: oldUntil_def walNames_def)
  have "\<not> listedObject stamps opts object"
  proof
    assume "listedObject stamps opts object"
    then obtain r where r: "dir = lo_ListPrefix opts @ r" "CHR ''/'' \<notin> set r" "stamps dir \<noteq> None" using ob(3) nr by (auto simp: listedObject_def)
    then have "r \<noteq> []" using nm by auto
    then show False using r ob(2,3) by (auto simp: hasSuffix_slash dest: last_in_set)
  qed
  then have "listedDirectory stamps opts object" using trueD[OF _ ob(1)] o by (auto simp: oldUntil_def)
  then show thesis using that ob(3) unfolding listedDirectory_def by blast
qed

text \<open>When the last directory holds nothing that is new enough, no directory does.\<close>

lemma under_old:
  assumes o: "oldUntil stamps opts since dir listing"
    and deep: "\<And>r t. dir \<noteq> [] \<Longrightarrow> stamps (dir @ r) = Some t \<Longrightarrow> t \<le> since"
    and t: "stamps (lo_ListPrefix opts @ r) = Some t"
  shows "t \<le> since"
proof (cases "CHR ''/'' \<in> set r")
  case True
  then obtain s q where r: "r = s @ ''/'' @ q" "CHR ''/'' \<notin> set s" by (metis append_Cons append_Nil split_list_first)
  then have le: "lo_ListPrefix opts @ s @ ''/'' \<le> dir" using entry_le[OF o _ r(2), of q] t by simp
  then have dir: "dir \<noteq> []" by (cases dir) (auto simp: append_eq_Cons_conv)
  from lastDirectory_shown[OF o dir] obtain s' r' where d: "dir = lo_ListPrefix opts @ s' @ ''/''" "CHR ''/'' \<notin> set s'" "stamps (dir @ r') \<noteq> None" .
  then have "s @ ''/'' \<le> s' @ ''/''" using le by (simp add: append_le_append)
  then consider "s = s'" | "s @ ''/'' < s' @ ''/''" by (auto simp: less_le)
  then show ?thesis
  proof cases
    case 1
    then show ?thesis using deep[OF dir, of q] t r(1) d(1) by simp
  next
    case 2
    obtain t' where t': "stamps (dir @ r') = Some t'" using d(3) by blast
    have "walNames stamps (lo_ListPrefix opts)" using o by (simp add: oldUntil_def)
    then have "t \<le> t'" using walNamesD[OF _ r(2) d(2) 2, of stamps "lo_ListPrefix opts" q t r' t'] t t' r(1) d(1) by simp
    then show ?thesis using deep[OF dir t'] by simp
  qed
qed (rule flat_old[OF o t])

lemma anyNewer_exact:
  assumes tr: "listingTrue stamps opts listing" and whole: "(\<forall>e. Inl e \<notin> set listing) \<Longrightarrow> listingWhole stamps opts listing"
    and rec: "lo_Recursive opts" and n: "anyNewer place since listing = Inr answer"
  shows "answer = (\<exists>r t. stamps (lo_ListPrefix opts @ r) = Some t \<and> since < t)"
proof (cases answer)
  case True
  then obtain x where x: "Inr x \<in> set listing" "since < ob_LastModified x" using anyNewer_Inr[OF n] by blast
  have "listedObject stamps opts x" using trueD[OF tr x(1)] listedDirectory_flat[OF rec] by blast
  then show ?thesis using True listedObject_newer[OF _ x(2)] by simp
next
  case False
  then have old: "listingWhole stamps opts listing" "\<And>x. Inr x \<in> set listing \<Longrightarrow> ob_LastModified x \<le> since"
    using anyNewer_Inr[OF n] whole by auto
  have "t \<le> since" if t: "stamps (lo_ListPrefix opts @ r) = Some t" for r t
  proof -
    from wholeD(1)[OF old(1), of r] t rec obtain x where x: "Inr x \<in> set listing" "ob_Key x = lo_ListPrefix opts @ r" by auto
    then have "listedObject stamps opts x" using trueD[OF tr x(1)] listedDirectory_flat[OF rec] by blast
    then show ?thesis using old(2)[OF x(1)] x(2) t by (auto simp: listedObject_def)
  qed
  then show ?thesis using False by fastforce
qed

lemma walSince_Inr:
  assumes "walSince env urlParse at since w = (Inr answer, w')"
  obtains client listing w1 where
    "pb_ListObjects env client (lo_Bucket at) \<lparr>lo_ListPrefix = WALPrefix at, lo_Recursive = False, lo_MaxKeys = 0\<rparr> w = (listing, w1)"
    "lastDirectory (WALPrefix at) since [] listing = Inr None \<and> answer \<or>
     lastDirectory (WALPrefix at) since [] listing = Inr (Some []) \<and> \<not> answer \<or>
     (\<exists>dir listing' w2. dir \<noteq> [] \<and> lastDirectory (WALPrefix at) since [] listing = Inr (Some dir) \<and>
        pb_ListObjects env client (lo_Bucket at) \<lparr>lo_ListPrefix = dir, lo_Recursive = True, lo_MaxKeys = 0\<rparr> w1 = (listing', w2) \<and>
        anyNewer (lo_Bucket at @ ''/'' @ dir) since listing' = Inr answer)"
proof -
  from assms obtain client where c: "proberClient env urlParse at = Inr client"
    by (cases "proberClient env urlParse at") (auto simp: walSince_def bindM_Inr_iff)
  obtain listing w1 where l: "pb_ListObjects env client (lo_Bucket at) \<lparr>lo_ListPrefix = WALPrefix at, lo_Recursive = False, lo_MaxKeys = 0\<rparr> w = (listing, w1)"
    by fastforce
  let ?last = "lastDirectory (lo_Bucket at @ ''/'' @ WALPrefix at) since [] listing"
  have a: "(case ?last of Inl err \<Rightarrow> (Inl err, w1) | Inr None \<Rightarrow> (Inr True, w1)
        | Inr (Some dir) \<Rightarrow> if dir = [] then (Inr False, w1)
          else (case pb_ListObjects env client (lo_Bucket at) \<lparr>lo_ListPrefix = dir, lo_Recursive = True, lo_MaxKeys = 0\<rparr> w1 of (listing, w) \<Rightarrow>
             (anyNewer (lo_Bucket at @ ''/'' @ dir) since listing, w))) = (Inr answer, w')"
    using assms by (simp add: walSince_def bindM_def liftE_def c l)
  show thesis
  proof (rule that[OF l])
    show "lastDirectory (WALPrefix at) since [] listing = Inr None \<and> answer \<or>
     lastDirectory (WALPrefix at) since [] listing = Inr (Some []) \<and> \<not> answer \<or>
     (\<exists>dir listing' w2. dir \<noteq> [] \<and> lastDirectory (WALPrefix at) since [] listing = Inr (Some dir) \<and>
        pb_ListObjects env client (lo_Bucket at) \<lparr>lo_ListPrefix = dir, lo_Recursive = True, lo_MaxKeys = 0\<rparr> w1 = (listing', w2) \<and>
        anyNewer (lo_Bucket at @ ''/'' @ dir) since listing' = Inr answer)"
      unfolding lastDirectory_place[where place = "WALPrefix at" and place' = "lo_Bucket at @ ''/'' @ WALPrefix at"]
      using a by (cases ?last) (auto split: option.splits if_splits prod.splits)
  qed
qed

text \<open>C25. \<open>WALSince\<close> answers that the database archived after a moment exactly when some file under its WAL
  prefix is newer than the moment, although it lists only the files at the top and the last directory.\<close>

theorem walSince_exact:
  assumes laws: "listingLaws env stamps" and names: "walNames (stamps w (lo_Bucket at)) (WALPrefix at)"
    and run: "walSince env urlParse at since w = (Inr answer, w')"
  shows "answer = (\<exists>r t. stamps w (lo_Bucket at) (WALPrefix at @ r) = Some t \<and> since < t)"
  using run
proof (rule walSince_Inr)
  let ?st = "stamps w (lo_Bucket at)"
  let ?opts = "\<lparr>lo_ListPrefix = WALPrefix at, lo_Recursive = False, lo_MaxKeys = 0\<rparr>"
  fix client listing w1
  assume l: "pb_ListObjects env client (lo_Bucket at) ?opts w = (listing, w1)"
  note tr = listingLawsD(2)[OF laws l] and whole = listingLawsD(3)[OF laws l] and st1 = listingLawsD(1)[OF laws l]
  have old: "oldUntil ?st ?opts since dir listing" if "lastDirectory (WALPrefix at) since [] listing = Inr (Some dir)" for dir
    using that names tr lastDirectory_Some[OF that] whole by (simp add: oldUntil_def)
  assume "lastDirectory (WALPrefix at) since [] listing = Inr None \<and> answer \<or>
     lastDirectory (WALPrefix at) since [] listing = Inr (Some []) \<and> \<not> answer \<or>
     (\<exists>dir listing' w2. dir \<noteq> [] \<and> lastDirectory (WALPrefix at) since [] listing = Inr (Some dir) \<and>
        pb_ListObjects env client (lo_Bucket at) \<lparr>lo_ListPrefix = dir, lo_Recursive = True, lo_MaxKeys = 0\<rparr> w1 = (listing', w2) \<and>
        anyNewer (lo_Bucket at @ ''/'' @ dir) since listing' = Inr answer)"
  then consider (new) "lastDirectory (WALPrefix at) since [] listing = Inr None" answer
    | (none) "lastDirectory (WALPrefix at) since [] listing = Inr (Some [])" "\<not> answer"
    | (deep) dir listing' w2 where "dir \<noteq> []" "lastDirectory (WALPrefix at) since [] listing = Inr (Some dir)"
        "pb_ListObjects env client (lo_Bucket at) \<lparr>lo_ListPrefix = dir, lo_Recursive = True, lo_MaxKeys = 0\<rparr> w1 = (listing', w2)"
        "anyNewer (lo_Bucket at @ ''/'' @ dir) since listing' = Inr answer" by blast
  then show ?thesis
  proof cases
    case new
    then obtain x where x: "Inr x \<in> set listing" "\<not> hasSuffix (ob_Key x) ''/''" "since < ob_LastModified x" using lastDirectory_None by blast
    then have "listedObject ?st ?opts x" using trueD[OF tr] listedDirectory_slash by blast
    then show ?thesis using new(2) listedObject_newer[OF _ x(3), of ?st ?opts] by simp
  next
    case none
    have "t \<le> since" if "?st (WALPrefix at @ r) = Some t" for r t
      using under_old[OF old[OF none(1)], of r t] that by simp
    then show ?thesis using none(2) by fastforce
  next
    case (deep dir listing' w2)
    from anyNewer_exact[OF listingLawsD(2)[OF laws deep(3)] listingLawsD(3)[OF laws deep(3)] _ deep(4)]
    have a: "answer = (\<exists>r t. ?st (dir @ r) = Some t \<and> since < t)" by (simp add: st1)
    from lastDirectory_shown[OF old[OF deep(2)] deep(1)] obtain s where s: "dir = WALPrefix at @ s @ ''/''" by auto
    have "t \<le> since" if "\<not> answer" "?st (WALPrefix at @ r) = Some t" for r t
      using under_old[OF old[OF deep(2)], of r t] that a by fastforce
    then show ?thesis using a s by (metis append.assoc leD)
  qed
qed

end
