(* ===== verification/S3_Example.thy ===== *)
theory S3_Example
  imports S3_Prober
begin

text \<open>
  An object store in memory that keeps the promises of \<open>bucketLaws\<close>, and a repository under a prefix of one
  of its buckets; another that keeps those of \<open>listingLaws\<close>, with the WAL of a database.
\<close>

type_synonym memBuckets = "((string \<times> string) \<times> string) list"

text \<open>What a listing that is not recursive shows of a key: the key, or the directory it is in.\<close>

definition shownKey :: "string \<Rightarrow> string" where
  "shownKey r = (if CHR ''/'' \<in> set r then takeWhile (\<lambda>c. c \<noteq> CHR ''/'') r @ ''/'' else r)"

primrec memShown :: "string \<Rightarrow> string \<Rightarrow> memBuckets \<Rightarrow> string list" where
  "memShown b p [] = []"
| "memShown b p (x # w) =
     (case cutPrefix (snd (fst x)) p of
        Some r \<Rightarrow> if fst (fst x) = b then (p @ shownKey r) # memShown b p w else memShown b p w
      | None \<Rightarrow> memShown b p w)"

definition memObjects :: "memBuckets \<Rightarrow> string \<Rightarrow> smap" where
  "memObjects w b k = map_of w (b, k)"

definition memClient :: "memBuckets minioClient" where
  "memClient = \<lparr>mc_New = \<lambda>endpoint _ _ _. if endpoint = [] then Inl (Plain ''endpoint'') else Inr (),
     mc_ListObjects = \<lambda>b p w. (Inr (map (\<lambda>k. Inr \<lparr>ob_Key = k, ob_LastModified = 0\<rparr>) (memShown b p w)), w),
     mc_GetObject = \<lambda>b k w. (Inr (\<lambda>w. (case map_of w (b, k) of Some x \<Rightarrow> Inr x | None \<Rightarrow> Inl (NotFound k), w)), w),
     mc_PutObject = \<lambda>b k x w. (Inr (), ((b, k), x) # w),
     mc_RemoveObject = \<lambda>b k w. (Inr (), filter (\<lambda>(p, _). p \<noteq> (b, k)) w)\<rparr>"

lemma memShown_set: "set (memShown b p w) = {p @ shownKey r | r. memObjects w b (p @ r) \<noteq> None}"
proof (induction w)
  case (Cons x w)
  obtain b' k v where x: "x = ((b', k), v)" by (metis prod.exhaust)
  have c: "cutPrefix k p = Some r \<longleftrightarrow> k = p @ r" for r by (simp add: cutPrefix_Some_iff)
  have o: "memObjects (x # w) b (p @ r) \<noteq> None \<longleftrightarrow> (b' = b \<and> k = p @ r) \<or> memObjects w b (p @ r) \<noteq> None" for r
    by (auto simp: memObjects_def x)
  show ?case
  proof (cases "cutPrefix k p")
    case None
    then have "k \<noteq> p @ r" for r using c[of r] by simp
    then show ?thesis unfolding o using Cons None by (simp add: x)
  next
    case (Some r0)
    then have "k = p @ r0" using c by simp
    then show ?thesis unfolding o using Cons Some by (auto simp: x)
  qed
qed (simp add: memObjects_def)

lemma shownKey_directory: "CHR ''/'' \<notin> set s \<Longrightarrow> shownKey (s @ CHR ''/'' # r) = s @ ''/''"
proof -
  assume s: "CHR ''/'' \<notin> set s"
  have "takeWhile (\<lambda>c. c \<noteq> CHR ''/'') (s @ CHR ''/'' # r) = s"
    using s by (induction s) auto
  then show "shownKey (s @ CHR ''/'' # r) = s @ ''/''" by (simp add: shownKey_def)
qed

lemma memShown_listed: "set (memShown b p w) = listedKeys (memObjects w b) p"
proof (intro set_eqI iffI)
  fix k assume "k \<in> set (memShown b p w)"
  then obtain r where r: "k = p @ shownKey r" "memObjects w b (p @ r) \<noteq> None" by (auto simp: memShown_set)
  show "k \<in> listedKeys (memObjects w b) p"
  proof (cases "CHR ''/'' \<in> set r")
    case True
    then obtain s q where "r = s @ CHR ''/'' # q" "CHR ''/'' \<notin> set s" by (metis split_list_first)
    then have "k = p @ s @ ''/''" "memObjects w b (p @ s @ ''/'' @ q) \<noteq> None" "CHR ''/'' \<notin> set s"
      using r by (simp_all add: shownKey_directory)
    then show ?thesis unfolding listedKeys_def by blast
  next
    case False
    then have "k = p @ r" using r by (simp add: shownKey_def)
    then show ?thesis unfolding listedKeys_def using False r by blast
  qed
next
  fix k assume "k \<in> listedKeys (memObjects w b) p"
  then consider r where "k = p @ r" "CHR ''/'' \<notin> set r" "memObjects w b (p @ r) \<noteq> None"
    | s r where "k = p @ s @ ''/''" "CHR ''/'' \<notin> set s" "memObjects w b (p @ s @ ''/'' @ r) \<noteq> None"
    unfolding listedKeys_def by blast
  then show "k \<in> set (memShown b p w)"
  proof cases
    case (1 r)
    then have "k = p @ shownKey r" by (simp add: shownKey_def)
    then show ?thesis unfolding memShown_set using 1(3) by blast
  next
    case (2 s r)
    then have "k = p @ shownKey (s @ CHR ''/'' # r)" "memObjects w b (p @ s @ CHR ''/'' # r) \<noteq> None"
      by (simp_all add: shownKey_directory)
    then show ?thesis unfolding memShown_set by blast
  qed
qed

lemma memObjects_put: "memObjects (((b, k), x) # w) = (memObjects w)(b := (memObjects w b)(k \<mapsto> x))"
  by (auto simp: memObjects_def fun_eq_iff)

lemma memObjects_remove: "memObjects (filter (\<lambda>(p, _). p \<noteq> (b, k)) w) = (memObjects w)(b := (memObjects w b)(k := None))"
  unfolding memObjects_def map_of_filter_key by (auto simp: fun_eq_iff)

lemma memClient_laws: "bucketLaws memClient memObjects"
  unfolding bucketLaws_def
proof (intro conjI allI impI)
  fix b p k x w xs w' rd w1 w2
  show "keeps memObjects (mc_ListObjects memClient b p)" "keeps memObjects (mc_GetObject memClient b k)"
    by (simp_all add: keeps_def memClient_def)
  show "ob_Key ` set xs = listedKeys (memObjects w b) p" if "mc_ListObjects memClient b p w = (Inr (map Inr xs), w')"
  proof -
    have "map Inr xs = map (\<lambda>k. Inr \<lparr>ob_Key = k, ob_LastModified = 0\<rparr> :: gerr + s3Object) (memShown b p w)"
      using that by (auto simp: memClient_def)
    then have "map (Inr :: s3Object \<Rightarrow> gerr + s3Object) xs = map Inr (map (\<lambda>k. \<lparr>ob_Key = k, ob_LastModified = 0\<rparr>) (memShown b p w))"
      by (simp add: comp_def)
    then have "xs = map (\<lambda>k. \<lparr>ob_Key = k, ob_LastModified = 0\<rparr>) (memShown b p w)"
      by (rule map_injective) (simp add: inj_on_def)
    then have "ob_Key ` set xs = set (memShown b p w)" by (simp add: image_image)
    then show ?thesis by (simp add: memShown_listed)
  qed
  show "keeps memObjects rd" if "mc_GetObject memClient b k w = (Inr rd, w')"
    using that by (auto simp: memClient_def keeps_def)
  show "memObjects w1 b k = Some x" if "mc_GetObject memClient b k w = (Inr rd, w')" "rd w1 = (Inr x, w2)"
    using that by (auto simp: memClient_def memObjects_def split: option.splits)
  show "changesTo memObjects w ((memObjects w)(b := (memObjects w b)(k \<mapsto> x))) (mc_PutObject memClient b k x w)"
    by (simp add: changesTo_def memClient_def memObjects_put)
  show "changesTo memObjects w ((memObjects w)(b := (memObjects w b)(k := None))) (mc_RemoveObject memClient b k w)"
    by (simp add: changesTo_def memClient_def memObjects_remove)
qed

text \<open>A repository under a prefix that \<open>path.Join\<close> cleans, with one snapshot and a document of another
  repository beside it.\<close>

definition memPlace :: repoLocation where
  "memPlace = repoLocation0\<lparr>rl_Endpoint := ''s3'', rl_Secure := True, rl_Bucket := ''bkt'', rl_Prefix := ''app//./data''\<rparr>"

definition memBucket :: memBuckets where
  "memBucket = [((''bkt'', ''app/data/snapshots/a''), ''x''), ((''bkt'', ''app/other/snapshots/b''), ''y''), ((''other'', ''app/data/snapshots/c''), ''z'')]"

theorem s3_store_refines_witness:
  "store_laws (s3Env env0 memClient memPlace) (bucketFiles memObjects memPlace) \<and>
   s3Key memPlace ''snapshots/a'' = ''app/data/snapshots/a'' \<and>
   fst (s3List memClient memPlace ''snapshots'' memBucket) = Inr [''a'']"
proof (intro conjI)
  show "store_laws (s3Env env0 memClient memPlace) (bucketFiles memObjects memPlace)"
    by (rule s3_store_refines[OF memClient_laws]) (simp_all add: env0_def keeps_ret)
  show "s3Key memPlace ''snapshots/a'' = ''app/data/snapshots/a''" by code_simp
  show "fst (s3List memClient memPlace ''snapshots'' memBucket) = Inr [''a'']" by code_simp
qed

section \<open>The archive of a database\<close>

type_synonym memTimes = "((string \<times> string) \<times> gtime) list"

definition memStamps :: "memTimes \<Rightarrow> string \<Rightarrow> string \<Rightarrow> gtime option" where
  "memStamps w b k = map_of w (b, k)"

definition memEntry :: "string \<Rightarrow> listOptions \<Rightarrow> memTimes \<Rightarrow> string \<times> string \<Rightarrow> s3Object option" where
  "memEntry b opts w bk =
     (case cutPrefix (snd bk) (lo_ListPrefix opts) of
        Some r \<Rightarrow> if fst bk \<noteq> b then None
          else if lo_Recursive opts \<or> CHR ''/'' \<notin> set r
          then map_option (\<lambda>t. \<lparr>ob_Key = snd bk, ob_LastModified = t\<rparr>) (memStamps w b (snd bk))
          else Some \<lparr>ob_Key = lo_ListPrefix opts @ shownKey r, ob_LastModified = 0\<rparr>
      | None \<Rightarrow> None)"

definition memTimesListing :: "string \<Rightarrow> listOptions \<Rightarrow> memTimes \<Rightarrow> s3Object list" where
  "memTimesListing b opts w = List.map_filter (memEntry b opts w) (map fst w)"

definition memProber :: "(memTimes, unit, unit) proberEnv" where
  "memProber = \<lparr>pb_SystemCertPool = Inr None, pb_NewCertPool = (), pb_AppendCertsFromPEM = \<lambda>_ _. ((), True),
     pb_New = \<lambda>_ _. Inr (), pb_ListObjects = \<lambda>_ b opts w. (map Inr (memTimesListing b opts w), w)\<rparr>"

lemma map_filter_set: "y \<in> set (List.map_filter f xs) \<longleftrightarrow> (\<exists>x \<in> set xs. f x = Some y)"
  by (induction xs) (auto simp: List.map_filter_simps split: option.splits)

lemma memListing_mem:
  "ob \<in> set (memTimesListing b opts w) \<longleftrightarrow> (\<exists>r. memStamps w b (lo_ListPrefix opts @ r) \<noteq> None \<and> memEntry b opts w (b, lo_ListPrefix opts @ r) = Some ob)"
proof -
  have s: "memStamps w b k \<noteq> None \<longleftrightarrow> (b, k) \<in> fst ` set w" for k unfolding memStamps_def map_of_eq_None_iff by simp
  have e: "(\<exists>r. b' = b \<and> k = lo_ListPrefix opts @ r)" if "memEntry b opts w (b', k) = Some ob" for b' k
    using that by (auto simp: memEntry_def cutPrefix_Some_iff split: option.splits if_splits)
  have "ob \<in> set (memTimesListing b opts w) \<longleftrightarrow> (\<exists>bk \<in> fst ` set w. memEntry b opts w bk = Some ob)"
    unfolding memTimesListing_def map_filter_set set_map ..
  then show ?thesis unfolding s using e by (metis prod.exhaust)
qed

lemma memEntry_object:
  "lo_Recursive opts \<or> CHR ''/'' \<notin> set r \<Longrightarrow> memEntry b opts w (b, lo_ListPrefix opts @ r) =
     map_option (\<lambda>t. \<lparr>ob_Key = lo_ListPrefix opts @ r, ob_LastModified = t\<rparr>) (memStamps w b (lo_ListPrefix opts @ r))"
  by (auto simp: memEntry_def)

lemma memEntry_directory:
  "\<not> lo_Recursive opts \<Longrightarrow> CHR ''/'' \<in> set r \<Longrightarrow> memEntry b opts w (b, lo_ListPrefix opts @ r) =
     Some \<lparr>ob_Key = lo_ListPrefix opts @ shownKey r, ob_LastModified = 0\<rparr>"
  by (simp add: memEntry_def)

lemma memProber_true: "listingTrue (memStamps w b) opts (map Inr (memTimesListing b opts w))"
  unfolding listingTrue_def
proof (intro allI impI)
  fix ob assume "Inr ob \<in> set (map Inr (memTimesListing b opts w) :: (gerr + s3Object) list)"
  then have "ob \<in> set (memTimesListing b opts w)" by auto
  then obtain r where r: "memStamps w b (lo_ListPrefix opts @ r) \<noteq> None" "memEntry b opts w (b, lo_ListPrefix opts @ r) = Some ob"
    unfolding memListing_mem by blast
  show "listedObject (memStamps w b) opts ob \<or> listedDirectory (memStamps w b) opts ob"
  proof (cases "lo_Recursive opts \<or> CHR ''/'' \<notin> set r")
    case True
    then show ?thesis using r(2) by (auto simp: memEntry_object listedObject_def)
  next
    case False
    then obtain s q where s: "r = s @ CHR ''/'' # q" "CHR ''/'' \<notin> set s" by (metis split_list_first)
    then have "ob_Key ob = lo_ListPrefix opts @ s @ ''/''" using r(2) False by (auto simp: memEntry_directory shownKey_directory)
    then have "listedDirectory (memStamps w b) opts ob" using False s r(1) unfolding listedDirectory_def by (intro exI[of _ s] exI[of _ q]) simp
    then show ?thesis by simp
  qed
qed

lemma memProber_whole: "listingWhole (memStamps w b) opts (map Inr (memTimesListing b opts w))"
  unfolding listingWhole_def
proof (intro allI impI)
  fix r assume r: "memStamps w b (lo_ListPrefix opts @ r) \<noteq> None"
  then have m: "ob \<in> set (memTimesListing b opts w)" if "memEntry b opts w (b, lo_ListPrefix opts @ r) = Some ob" for ob
    using that unfolding memListing_mem by blast
  show "if lo_Recursive opts \<or> CHR ''/'' \<notin> set r
     then \<exists>ob. Inr ob \<in> set (map Inr (memTimesListing b opts w) :: (gerr + s3Object) list) \<and> ob_Key ob = lo_ListPrefix opts @ r
     else \<exists>ob. Inr ob \<in> set (map Inr (memTimesListing b opts w) :: (gerr + s3Object) list) \<and> ob_Key ob = lo_ListPrefix opts @ takeWhile (\<lambda>c. c \<noteq> CHR ''/'') r @ ''/''"
  proof (cases "lo_Recursive opts \<or> CHR ''/'' \<notin> set r")
    case True
    obtain t where "memStamps w b (lo_ListPrefix opts @ r) = Some t" using r by blast
    then have "\<lparr>ob_Key = lo_ListPrefix opts @ r, ob_LastModified = t\<rparr> \<in> set (memTimesListing b opts w)" using True by (intro m) (simp add: memEntry_object)
    then show ?thesis using True by force
  next
    case False
    then have "\<lparr>ob_Key = lo_ListPrefix opts @ shownKey r, ob_LastModified = 0\<rparr> \<in> set (memTimesListing b opts w)" by (intro m) (simp add: memEntry_directory)
    moreover have "shownKey r = takeWhile (\<lambda>c. c \<noteq> CHR ''/'') r @ ''/''" using False by (simp add: shownKey_def)
    ultimately show ?thesis using False by force
  qed
qed

lemma memProber_laws: "listingLaws memProber memStamps"
  unfolding listingLaws_def by (auto simp: memProber_def memProber_true memProber_whole)

definition memArchive :: location where
  "memArchive = \<lparr>lo_Endpoint = ''s3'', lo_Bucket = ''bkt'', lo_Prefix = ''db'', lo_AccessKey = ''a'', lo_SecretKey = ''s'', lo_CABundle = []\<rparr>"

definition memWAL :: memTimes where
  "memWAL = [((''bkt'', ''db/wals/2.history''), 4), ((''bkt'', ''db/wals/1/a''), 3), ((''bkt'', ''db/wals/2/a''), 9), ((''bkt'', ''db/wals/2/b''), 5)]"

theorem archiveEmpty_exact_witness:
  "fst (archiveEmpty memProber (\<lambda>_. Inl (Plain [])) memArchive memWAL) = Inr False \<and>
   (\<exists>r. memStamps memWAL ''bkt'' (''db/'' @ r) \<noteq> None)"
proof -
  obtain w' where r: "archiveEmpty memProber (\<lambda>_. Inl (Plain [])) memArchive memWAL = (Inr False, w')"
  proof (rule that)
    have "fst (archiveEmpty memProber (\<lambda>_. Inl (Plain [])) memArchive memWAL) = Inr False" by code_simp
    then show "archiveEmpty memProber (\<lambda>_. Inl (Plain [])) memArchive memWAL = (Inr False, snd (archiveEmpty memProber (\<lambda>_. Inl (Plain [])) memArchive memWAL))"
      by (simp add: prod_eq_iff)
  qed
  have b: "lo_Bucket memArchive = ''bkt''" "lo_Prefix memArchive = ''db''" by (simp_all add: memArchive_def)
  from archiveEmpty_exact[OF memProber_laws r] r show ?thesis unfolding b by auto
qed

lemma memWAL_names: "walNames (memStamps memWAL ''bkt'') (WALPrefix memArchive)"
proof -
  have p: "WALPrefix memArchive = ''db/wals/''" by code_simp
  have in1: "(s = ''1'' \<and> t = 3) \<or> (s = ''2'' \<and> 5 \<le> t \<and> t \<le> 9)"
    if "memStamps memWAL ''bkt'' (''db/wals/'' @ s @ ''/'' @ r) = Some t" "CHR ''/'' \<notin> set s" for s r t
    using that by (auto simp: memStamps_def memWAL_def append_eq_Cons_conv split: if_splits)
  show ?thesis unfolding walNames_def p
  proof (intro conjI allI impI)
    show "memStamps memWAL ''bkt'' ''db/wals/'' = None" by (simp add: memStamps_def memWAL_def)
    fix s r t s' r' t'
    assume s: "CHR ''/'' \<notin> set s" "CHR ''/'' \<notin> set s'" and lt: "s @ ''/'' < s' @ ''/''"
      and t: "memStamps memWAL ''bkt'' (''db/wals/'' @ s @ ''/'' @ r) = Some t"
        "memStamps memWAL ''bkt'' (''db/wals/'' @ s' @ ''/'' @ r') = Some t'"
    have "\<not> (''2/'' < (''1/'' :: string))" by code_simp
    then show "t \<le> t'" using in1[OF t(1) s(1)] in1[OF t(2) s(2)] lt by auto
  qed
qed

theorem walSince_exact_witness:
  "fst (walSince memProber (\<lambda>_. Inl (Plain [])) memArchive 8 memWAL) = Inr True \<and>
   (\<exists>r t. memStamps memWAL ''bkt'' (WALPrefix memArchive @ r) = Some t \<and> 8 < t)"
proof -
  have b: "lo_Bucket memArchive = ''bkt''" by (simp add: memArchive_def)
  have f: "fst (walSince memProber (\<lambda>_. Inl (Plain [])) memArchive 8 memWAL) = Inr True" by code_simp
  then have r: "walSince memProber (\<lambda>_. Inl (Plain [])) memArchive 8 memWAL = (Inr True, snd (walSince memProber (\<lambda>_. Inl (Plain [])) memArchive 8 memWAL))"
    by (simp add: prod_eq_iff)
  have n: "walNames (memStamps memWAL (lo_Bucket memArchive)) (WALPrefix memArchive)" unfolding b by (rule memWAL_names)
  from walSince_exact[OF memProber_laws n r] f show ?thesis unfolding b by simp
qed

end
