(* ===== verification/S3_Retime.thy ===== *)
theory S3_Retime
  imports S3_Example
begin

text \<open>
  Moving a snapshot of a repository in a bucket: the rewrite of \<open>Retime\<close> over the store of \<open>S3_Store\<close>.
\<close>

text \<open>The view of a bucket under which the rewrite is followed: the files of the repository, and beside them every
  object outside the repository's root, under a name that no file has.\<close>

definition outsideName :: "string \<Rightarrow> string \<Rightarrow> string" where
  "outsideName b k = CHR '':'' # b @ CHR ''/'' # k"

definition inRoot :: "repoLocation \<Rightarrow> string \<Rightarrow> string \<Rightarrow> bool" where
  "inRoot at b k = (b = rl_Bucket at \<and> hasPrefix k (s3Root at))"

definition outsideObject :: "repoLocation \<Rightarrow> (string \<Rightarrow> smap) \<Rightarrow> smap" where
  "outsideObject at objs n = (case cutChar (CHR ''/'') n of (b, k, _) \<Rightarrow> if inRoot at b k then None else objs b k)"

definition wholeView :: "('w \<Rightarrow> string \<Rightarrow> smap) \<Rightarrow> repoLocation \<Rightarrow> 'w \<Rightarrow> smap" where
  "wholeView objects at w n =
     (if hasPrefix n '':''
      then outsideObject at (objects w) (tl n)
      else bucketFiles objects at w n)"

lemma wholeView_outside: "CHR ''/'' \<notin> set b \<Longrightarrow> \<not> inRoot at b k \<Longrightarrow> wholeView objects at w (outsideName b k) = objects w b k"
  by (simp add: wholeView_def outsideName_def outsideObject_def hasPrefix_iff cutChar_found)

lemma repoPath_plain: "d \<in> repoDirs \<Longrightarrow> \<not> hasPrefix (pathJoin d n) '':''"
  by (auto simp: repoDirs_def pathJoin_def hasPrefix_iff)

lemma wholeView_file: "d \<in> repoDirs \<Longrightarrow> wholeView objects at w (pathJoin d n) = bucketFiles objects at w (pathJoin d n)"
  by (simp add: wholeView_def repoPath_plain)

lemma wholeView_cong: "objects w' = objects w \<Longrightarrow> wholeView objects at w' = wholeView objects at w"
  by (rule ext) (simp add: wholeView_def bucketFiles_def)

lemma keeps_wholeView: "keeps objects c \<Longrightarrow> keeps (wholeView objects at) c"
  unfolding keeps_def by (intro allI wholeView_cong) simp

text \<open>A change of one file changes nothing outside the root.\<close>

lemma wholeView_change:
  assumes "changesTo objects w ((objects w)(rl_Bucket at := (objects w (rl_Bucket at))(s3Root at @ n := v))) res" "\<not> hasPrefix n '':''"
  shows "changesTo (wholeView objects at) w ((wholeView objects at w)(n := v)) res"
proof -
  have "wholeView objects at w' = (wholeView objects at w)(n := v)"
    if o: "objects w' = (objects w)(rl_Bucket at := (objects w (rl_Bucket at))(s3Root at @ n := v))" for w'
  proof (rule ext)
    fix p
    show "wholeView objects at w' p = ((wholeView objects at w)(n := v)) p"
    proof (cases "hasPrefix p '':''")
      case True
      obtain b k e where c: "cutChar (CHR ''/'') (tl p) = (b, k, e)" by (rule prod_cases3)
      have "inRoot at b k \<or> objects w' b k = objects w b k" unfolding o by (auto simp: inRoot_def hasPrefix_iff)
      then have "outsideObject at (objects w') (tl p) = outsideObject at (objects w) (tl p)" by (auto simp: outsideObject_def c)
      moreover have "p \<noteq> n" using True assms(2) by auto
      ultimately show ?thesis using True by (simp add: wholeView_def)
    qed (use assms(2) in \<open>auto simp: wholeView_def bucketFiles_def o\<close>)
  qed
  then show ?thesis using assms(1) wholeView_cong[of objects "snd res" w at] by (auto simp: changesTo_def simp del: fun_upd_apply)
qed

lemma repoFile_plain: "repoFile n \<Longrightarrow> \<not> hasPrefix n '':''"
  by (auto simp: repoFile_def repoPath_plain)

lemma wholeView_laws:
  assumes laws: "bucketLaws mc objects" and "\<And>n. keeps objects (re_rand env n)" "keeps objects (re_now env)" "keeps objects (re_wait env)"
  shows "store_laws (s3Env env mc at) (wholeView objects at)"
  unfolding store_laws_def
proof (intro conjI allI impI)
  have k: "keeps objects (mc_ListObjects mc b p)" "keeps objects (mc_GetObject mc b k)" for b p k
    using laws by (simp_all add: bucketLaws_def)
  have rd: "keeps objects rd" if "mc_GetObject mc b k w = (Inr rd, w')" for b k w rd w'
    using laws that unfolding bucketLaws_def by (elim conjE) blast
  show "keeps (wholeView objects at) (re_List (s3Env env mc at) d)" for d
    unfolding s3Env_def by (simp add: s3List_def Let_def) (intro keeps_wholeView keeps_intros k(1))
  show "keeps (wholeView objects at) (re_Get (s3Env env mc at) n)" for n
    unfolding s3Env_def
    by (simp add: s3Get_def) (intro keeps_wholeView keeps_read keeps_wrapM k(2), simp, erule rd)
  show "keeps (wholeView objects at) (re_rand (s3Env env mc at) n)" for n using assms(2) by (simp add: s3Env_def keeps_wholeView)
  show "keeps (wholeView objects at) (re_now (s3Env env mc at))" using assms(3) by (simp add: s3Env_def keeps_wholeView)
  show "keeps (wholeView objects at) (re_wait (s3Env env mc at))" using assms(4) by (simp add: s3Env_def keeps_wholeView)
  show "listLaw (re_List (s3Env env mc at)) (wholeView objects at)"
    using s3List_law[OF laws, of at] by (simp add: s3Env_def listLaw_def wholeView_file)
  show "getLaw (re_Get (s3Env env mc at)) (wholeView objects at)"
    using s3Get_law[OF laws, of at] by (simp add: s3Env_def getLaw_def wholeView_def repoFile_plain)
  fix n x w assume n: "repoFile n"
  have "changesTo objects w ((objects w)(rl_Bucket at := (objects w (rl_Bucket at))(s3Root at @ n \<mapsto> x))) (mc_PutObject mc (rl_Bucket at) (s3Root at @ n) x w)"
    and d: "changesTo objects w ((objects w)(rl_Bucket at := (objects w (rl_Bucket at))(s3Root at @ n := None))) (mc_RemoveObject mc (rl_Bucket at) (s3Root at @ n) w)"
    using laws by (simp_all add: bucketLaws_def)
  then show "changesTo (wholeView objects at) w ((wholeView objects at w)(n \<mapsto> x)) (re_Put (s3Env env mc at) n x w)"
    unfolding s3Env_def by (simp add: s3Put_def s3Key_repoFile[OF n]) (rule wholeView_change[OF changesTo_wrap repoFile_plain[OF n]])
  show "changesTo (wholeView objects at) w ((wholeView objects at w)(n := None)) (re_Remove (s3Env env mc at) n w)"
    using d unfolding s3Env_def by (simp add: s3Remove_def s3Key_repoFile[OF n]) (rule wholeView_change[OF changesTo_wrap repoFile_plain[OF n]])
qed

text \<open>What a repository over an environment needs beside its store.\<close>

definition bucketEnv :: "'w resticEnv \<Rightarrow> key \<Rightarrow> 'w minioClient \<Rightarrow> ('w \<Rightarrow> string \<Rightarrow> smap) \<Rightarrow> repoLocation \<Rightarrow> codec \<Rightarrow> bool" where
  "bucketEnv env master mc objects at cd =
     (bucketLaws mc objects \<and> (\<forall>n. keeps objects (re_rand env n)) \<and> keeps objects (re_now env) \<and> keeps objects (re_wait env) \<and>
      codec_laws env cd \<and> fresh_ids env master (bucketFiles objects at) \<and> cipher_laws env \<and> wfKey master \<and>
      (\<forall>fs. mset (re_sortFiles env fs) = mset fs))"

lemma keySeal_s3Env: "keySeal (s3Env env mc at) = keySeal env"
  by (simp add: fun_eq_iff keySeal_def keyMac_def s3Env_def)

lemma s3Env_retime_env:
  assumes "bucketEnv env master mc objects at cd"
  shows "retime_env (s3Env env mc at) master (wholeView objects at) cd"
proof -
  have "codec_laws (s3Env env mc at) cd = codec_laws env cd" by (simp add: codec_laws_def s3Env_def)
  moreover have "cipher_laws (s3Env env mc at) = cipher_laws env" by (simp add: cipher_laws_def s3Env_def)
  moreover have s: "re_sha256 (s3Env env mc at) = re_sha256 env" "re_sortFiles (s3Env env mc at) = re_sortFiles env" by (simp_all add: s3Env_def)
  moreover have "wholeView objects at w (pathJoin ''snapshots'' n) = bucketFiles objects at w (pathJoin ''snapshots'' n)" for w n
    by (rule wholeView_file) (simp add: repoDirs_def)
  then have "fresh_ids (s3Env env mc at) master (wholeView objects at) = fresh_ids env master (bucketFiles objects at)"
    unfolding fresh_ids_def keySeal_s3Env s(1) by presburger
  moreover have "store_laws (s3Env env mc at) (wholeView objects at)"
    by (rule wholeView_laws) (use assms in \<open>simp_all add: bucketEnv_def\<close>)
  ultimately show ?thesis using assms by (simp add: retime_env_def bucketEnv_def)
qed

lemma stored_cong: "fm (pathJoin ''snapshots'' (sn_ID (sf_snapshot f))) = fm' (pathJoin ''snapshots'' (sn_ID (sf_snapshot f))) \<Longrightarrow>
    stored env master fm f \<longleftrightarrow> stored env master fm' f"
  by (simp add: stored_def)

text \<open>What the rewrite leaves of the view: everything but the file of the snapshot it moved and of its copy.\<close>

definition sameBut :: "string \<Rightarrow> string \<Rightarrow> smap \<Rightarrow> smap \<Rightarrow> bool" where
  "sameBut old new fm fm' = ((\<forall>p. p \<noteq> old \<longrightarrow> fm p = None \<or> fm' p = fm p) \<and> (\<forall>p. p \<noteq> new \<longrightarrow> fm' p = None \<or> fm' p = fm p))"

lemma sameBut_old: "sameBut old new fm fm' \<Longrightarrow> p \<noteq> old \<Longrightarrow> fm p = None \<or> fm' p = fm p"
  unfolding sameBut_def by blast

lemma sameBut_other:
  assumes "sameBut old new fm fm'" "p \<noteq> old" "p \<noteq> new"
  shows "fm' p = fm p"
proof -
  have "fm p = None \<or> fm' p = fm p" "fm' p = None \<or> fm' p = fm p" using assms unfolding sameBut_def by blast+
  then show ?thesis by auto
qed

lemma retime_view:
  assumes env: "retime_env env master view cd" and rt: "retime env master sid t (tag # extra) w = (r, w')"
  obtains (same) "view w' = view w"
  | (copied) old :: snapshotFile and copy where "isCopy (sf_snapshot old) t tag (sf_snapshot copy)" "stored env master (view w') copy"
      "stored env master (view w) copy \<or> sameContent old copy \<and> set (tag # extra) \<union> set (sn_Tags (sf_snapshot old)) = set (sn_Tags (sf_snapshot copy))"
      "repoCopies env master (view w) \<longrightarrow> sameContent old copy \<and> repoCopies env master (view w')"
      "stored env master (view w) old"
      "sameBut (pathJoin ''snapshots'' (sn_ID (sf_snapshot old))) (pathJoin ''snapshots'' (sn_ID (sf_snapshot copy))) (view w) (view w')"
  using env rt
proof (cases rule: retime_outcome)
  case (3 old f)
  have "isCopy (sf_snapshot old) t tag (sf_snapshot f)"
    using 3(1) unfolding moved_def list.sel by (elim conjE)
  moreover have "stored env master (view w') f" using 3(1) unfolding moved_def by (elim conjE)
  moreover have "stored env master (view w) f \<or> sameContent old f \<and> set (tag # extra) \<union> set (sn_Tags (sf_snapshot old)) = set (sn_Tags (sf_snapshot f))"
    using 3(1) unfolding moved_def by (elim conjE)
  moreover have "repoCopies env master (view w) \<longrightarrow> sameContent old f \<and> repoCopies env master (view w')"
    using moved_copies[OF 3(1)] by blast
  moreover have "stored env master (view w) old" using 3(1) unfolding moved_def by (elim conjE)
  moreover have "sameBut (pathJoin ''snapshots'' (sn_ID (sf_snapshot old))) (pathJoin ''snapshots'' (sn_ID (sf_snapshot f))) (view w) (view w')"
    using 3(1) unfolding moved_def sameBut_def by (elim conjE) (intro conjI; assumption)
  ultimately show ?thesis by (rule copied)
qed (simp_all add: same)

lemma repoCopies_view:
  "repoCopies (s3Env env mc at) master (wholeView objects at w) \<longleftrightarrow> repoCopies (s3Env env mc at) master (bucketFiles objects at w)"
proof -
  have vf: "wholeView objects at w (pathJoin ''snapshots'' n) = bucketFiles objects at w (pathJoin ''snapshots'' n)" for n
    by (rule wholeView_file) (simp add: repoDirs_def)
  show ?thesis
    using repoCopies_unchanged[where fm = "wholeView objects at w" and fm' = "bucketFiles objects at w"]
      repoCopies_unchanged[where fm = "bucketFiles objects at w" and fm' = "wholeView objects at w"] vf by metis
qed

text \<open>C23. Moving a snapshot of a repository in a bucket, whatever call fails, writes and deletes nothing outside the
  repository's prefix: every object of another bucket, and every one of this bucket under another prefix, is
  as before. Inside the prefix it loses nothing: a file is gone only once a copy of its snapshot, with the new time
  and the tag, is stored under another name. A copy the call wrote has every other field of the snapshot's document
  and every tag it had or was to get; one from an earlier call has those fields too when the snapshots of one
  origin in the bucket are copies of each other, which is kept.\<close>

theorem retime_in_bucket:
  assumes env: "bucketEnv env master mc objects at cd" and rt: "retime (s3Env env mc at) master sid t (tag # extra) w = (r, w')"
  shows "(\<forall>b k. CHR ''/'' \<in> set b \<or> inRoot at b k \<or> objects w' b k = objects w b k) \<and>
    (\<forall>d \<in> repoDirs. \<forall>n. bucketFiles objects at w (pathJoin d n) = None \<or>
       bucketFiles objects at w' (pathJoin d n) = bucketFiles objects at w (pathJoin d n) \<or>
       (\<exists>(old :: snapshotFile) copy. d = ''snapshots'' \<and> n = sn_ID (sf_snapshot old) \<and> isCopy (sf_snapshot old) t tag (sf_snapshot copy) \<and>
          stored (s3Env env mc at) master (bucketFiles objects at w) old \<and>
          stored (s3Env env mc at) master (bucketFiles objects at w') copy \<and>
          (stored (s3Env env mc at) master (bucketFiles objects at w) copy \<or>
           sameContent old copy \<and> set (tag # extra) \<union> set (sn_Tags (sf_snapshot old)) = set (sn_Tags (sf_snapshot copy))) \<and>
          (repoCopies (s3Env env mc at) master (bucketFiles objects at w) \<longrightarrow> sameContent old copy))) \<and>
    (repoCopies (s3Env env mc at) master (bucketFiles objects at w) \<longrightarrow> repoCopies (s3Env env mc at) master (bucketFiles objects at w'))"
proof -
  let ?v = "wholeView objects at" and ?e = "s3Env env mc at"
  have vf: "?v w (pathJoin d n) = bucketFiles objects at w (pathJoin d n)" if "d \<in> repoDirs" for d n w
    using that by (rule wholeView_file)
  have sn: "''snapshots'' \<in> repoDirs" by (simp add: repoDirs_def)
  have sv: "stored ?e master (?v w) f \<longleftrightarrow> stored ?e master (bucketFiles objects at w) f" for w and f :: snapshotFile
    by (rule stored_cong) (rule vf[OF sn])
  from s3Env_retime_env[OF env] rt show ?thesis
  proof (cases rule: retime_view)
    case same
    have "objects w' b k = objects w b k" if "CHR ''/'' \<notin> set b" "\<not> inRoot at b k" for b k
      using fun_cong[OF same, of "outsideName b k"] unfolding wholeView_outside[OF that] .
    moreover have "bucketFiles objects at w' (pathJoin d n) = bucketFiles objects at w (pathJoin d n)" if "d \<in> repoDirs" for d n
      using fun_cong[OF same, of "pathJoin d n"] unfolding vf[OF that] .
    moreover have "repoCopies ?e master (bucketFiles objects at w) \<longrightarrow> repoCopies ?e master (bucketFiles objects at w')"
      unfolding repoCopies_view[symmetric] same by simp
    ultimately show ?thesis by blast
  next
    case (copied old copy)
    have ne: "outsideName b k \<noteq> pathJoin ''snapshots'' n" for b k n by (simp add: outsideName_def pathJoin_def)
    have out: "objects w' b k = objects w b k" if "CHR ''/'' \<notin> set b" "\<not> inRoot at b k" for b k
      using sameBut_other[OF copied(6) ne[of b k] ne[of b k]] unfolding wholeView_outside[OF that] .
    note c = copied(2)[unfolded sv] copied(3)[unfolded sv] copied(4)[unfolded repoCopies_view] copied(5)[unfolded sv]
    have "bucketFiles objects at w (pathJoin d n) = None \<or> bucketFiles objects at w' (pathJoin d n) = bucketFiles objects at w (pathJoin d n) \<or>
        d = ''snapshots'' \<and> n = sn_ID (sf_snapshot old)" if d: "d \<in> repoDirs" for d n
    proof (cases "pathJoin d n = pathJoin ''snapshots'' (sn_ID (sf_snapshot old))")
      case True
      then have "d = ''snapshots'' \<and> n = sn_ID (sf_snapshot old)" using d by (auto simp: repoDirs_def pathJoin_def)
      then show ?thesis by blast
    next
      case False
      from sameBut_old[OF copied(6) False] show ?thesis unfolding vf[OF d] by blast
    qed
    then show ?thesis using out copied(1) c by blast
  qed
qed

section \<open>A snapshot moved in a bucket\<close>

definition memBucketIV :: "memBuckets \<Rightarrow> string option" where
  "memBucketIV w = find (\<lambda>iv. bucketFiles memObjects memPlace w (pathJoin ''snapshots'' (hexEncode (memSha iv))) = None)
     [replicate 16 (CHR 0xAA), replicate 16 (CHR 0xBB)]"

definition memBucketEnv :: "memBuckets resticEnv" where
  "memBucketEnv = env0\<lparr>
     re_rand := \<lambda>n w. (case memBucketIV w of Some iv \<Rightarrow> if n = 16 then Inr iv else Inl (Plain []) | None \<Rightarrow> Inl (Plain []), w),
     re_sha256 := memSha, re_decFields := memDecFields, re_decSnapshot := re_decSnapshot memEnv, re_encFields := memEncFields,
     re_encTime := re_encTime memEnv, re_encStrings := re_encStrings memEnv, re_encString := Inr\<rparr>"

lemma memBucketIV_Some:
  "memBucketIV w = Some iv \<Longrightarrow> length iv = 16 \<and> bucketFiles memObjects memPlace w (pathJoin ''snapshots'' (hexEncode (memSha iv))) = None"
  unfolding memBucketIV_def by (auto split: if_splits)

lemma memBucketEnv_fresh: "fresh_ids memBucketEnv key0 (bucketFiles memObjects memPlace)"
proof -
  have sha: "re_sha256 memBucketEnv = memSha" by (simp add: memBucketEnv_def)
  have len: "length (memSha x) = 32" for x by (simp add: memSha_def)
  have "bucketFiles memObjects memPlace w (pathJoin ''snapshots'' (hexEncode (memSha sealed))) = None"
    if "keySeal memBucketEnv key0 doc w = (Inr sealed, w')" for doc sealed w w'
  proof -
    from keySeal_Inr[OF wfKey_key0 that] obtain iv mac where
      iv: "re_rand memBucketEnv ivSize w = (Inr iv, w')" and s: "sealed = iv @ re_ctr memBucketEnv (k_encrypt key0) iv doc @ mac" by blast
    have "re_rand memBucketEnv ivSize w = (case memBucketIV w of Some iv \<Rightarrow> Inr iv | None \<Rightarrow> Inl (Plain []), w)"
      by (simp add: memBucketEnv_def ivSize_def split: option.splits)
    then have m: "memBucketIV w = Some iv" using iv by (simp split: option.splits)
    show ?thesis using memBucketIV_Some[OF m] memSha_append unfolding s by simp
  qed
  then show ?thesis unfolding fresh_ids_def sha using len by (auto split: prod.splits sum.splits)
qed

lemma memBucketEnv_ok: "bucketEnv memBucketEnv key0 memClient memObjects memPlace memCodec"
proof -
  have "codec_laws memBucketEnv memCodec = codec_laws memEnv memCodec"
    by (simp add: codec_laws_def memBucketEnv_def memEnv_fields)
  then have "codec_laws memBucketEnv memCodec" using memEnv_codec by simp
  moreover have "cipher_laws memBucketEnv"
    by (auto simp: cipher_laws_def memBucketEnv_def env0_def macSize_def memBucketIV_Some split: option.splits)
  moreover have "keeps memObjects (re_rand memBucketEnv n)" "keeps memObjects (re_now memBucketEnv)" "keeps memObjects (re_wait memBucketEnv)" for n
    by (simp_all add: memBucketEnv_def env0_def keeps_def ret_def)
  moreover have "re_sortFiles memBucketEnv fs = fs" for fs by (simp add: memBucketEnv_def env0_def)
  ultimately show ?thesis using memClient_laws memBucketEnv_fresh wfKey_key0 by (simp add: bucketEnv_def)
qed

definition memSnapshots :: memBuckets where
  "memSnapshots = ((''bkt'', ''app/data/snapshots/'' @ memID), replicate 16 (CHR ''r'') @ memDoc @ replicate 16 (CHR ''m'')) # memBucket"

theorem retime_in_bucket_witness:
  "\<exists>r w'. retime (s3Env memBucketEnv memClient memPlace) key0 memID 7 [''paused''] memSnapshots = (r, w') \<and>
     memObjects w' ''other'' ''app/data/snapshots/c'' = Some ''z'' \<and> memObjects w' ''bkt'' ''app/other/snapshots/b'' = Some ''y'' \<and>
     (bucketFiles memObjects memPlace w' (pathJoin ''snapshots'' memID) = bucketFiles memObjects memPlace memSnapshots (pathJoin ''snapshots'' memID) \<or>
      (\<exists>copy. stored (s3Env memBucketEnv memClient memPlace) key0 (bucketFiles memObjects memPlace w') copy \<and> sn_Time (sf_snapshot copy) = 7))"
proof -
  obtain r w' where rt: "retime (s3Env memBucketEnv memClient memPlace) key0 memID 7 [''paused''] memSnapshots = (r, w')" by fastforce
  note moves = retime_in_bucket[OF memBucketEnv_ok rt]
  have root: "s3Root memPlace = ''app/data/''" "rl_Bucket memPlace = ''bkt''" by code_simp+
  have "\<not> inRoot memPlace ''other'' k" for k by (simp add: inRoot_def root)
  moreover have "\<not> inRoot memPlace ''bkt'' ''app/other/snapshots/b''" by (simp add: inRoot_def root hasPrefix_iff)
  moreover have "memObjects memSnapshots ''other'' ''app/data/snapshots/c'' = Some ''z''" "memObjects memSnapshots ''bkt'' ''app/other/snapshots/b'' = Some ''y''"
    by (simp_all add: memObjects_def memSnapshots_def memBucket_def)
  moreover have "\<forall>b k. CHR ''/'' \<in> set b \<or> inRoot memPlace b k \<or> memObjects w' b k = memObjects memSnapshots b k"
    using moves by (rule conjunct1)
  then have k: "CHR ''/'' \<in> set b \<or> inRoot memPlace b k \<or> memObjects w' b k = memObjects memSnapshots b k" for b k by blast
  moreover have "bucketFiles memObjects memPlace memSnapshots (pathJoin ''snapshots'' memID) \<noteq> None"
    by code_simp
  with bspec[OF conjunct1[OF conjunct2[OF moves]], of "''snapshots''", THEN spec, of memID]
  have "bucketFiles memObjects memPlace w' (pathJoin ''snapshots'' memID) = bucketFiles memObjects memPlace memSnapshots (pathJoin ''snapshots'' memID) \<or>
      (\<exists>(old :: snapshotFile) copy. isCopy (sf_snapshot old) 7 ''paused'' (sf_snapshot copy) \<and>
         stored (s3Env memBucketEnv memClient memPlace) key0 (bucketFiles memObjects memPlace w') copy)"
    by (simp add: repoDirs_def) blast
  then have "bucketFiles memObjects memPlace w' (pathJoin ''snapshots'' memID) = bucketFiles memObjects memPlace memSnapshots (pathJoin ''snapshots'' memID) \<or>
      (\<exists>copy. stored (s3Env memBucketEnv memClient memPlace) key0 (bucketFiles memObjects memPlace w') copy \<and> sn_Time (sf_snapshot copy) = 7)"
    unfolding isCopy_def by blast
  ultimately show ?thesis using rt k[of "''other''" "''app/data/snapshots/c''"] k[of "''bkt''" "''app/other/snapshots/b''"] by simp
qed

end
