(* ===== verification/Cli.thy ===== *)
theory Cli
  imports Kueue
begin

text \<open>
  The kubectl plugin, from \<open>src/internal/cli/cli.go\<close> and \<open>src/cmd/kubectl-backup/main.go\<close>.

  The parameter \<open>cliEnv\<close> holds what is not in the repository: \<open>pflag\<close>'s parser, which answers for a list of
  registered flags and an argument list the value of each flag, whether it was given, and the remaining
  arguments; the kubeconfig loader; the API client; YAML; \<open>resource.ParseQuantity\<close>; and the two output
  streams. On \<open>-h\<close> or \<open>--help\<close> \<open>pflag\<close> calls the \<open>Usage\<close> function of the flag set and returns \<open>ErrHelp\<close>. The
  client hands back the object as the API server answered it, and the plugin prints that. \<open>strings.ToLower\<close> is
  \<open>toLowerChar\<close>: no letter outside ASCII has one of the compared letters as its lower case.
\<close>

section \<open>Flags\<close>

datatype flagValue = FlagString string | FlagBool bool | FlagDuration duration | FlagInt32 int | FlagStringArray "string list"

record flag =
  fl_Name :: string
  fl_Shorthand :: string
  fl_Default :: flagValue
  fl_Usage :: string

record parsedFlags =
  pf_String :: "string \<Rightarrow> string"
  pf_Bool :: "string \<Rightarrow> bool"
  pf_Duration :: "string \<Rightarrow> duration"
  pf_Int32 :: "string \<Rightarrow> int"
  pf_StringArray :: "string \<Rightarrow> string list"
  pf_Changed :: "string \<Rightarrow> bool"
  pf_Args :: "string list"

datatype parseError = ErrHelp | ParseError gerr

record connection =
  cn_namespace :: string
  cn_kubeconfig :: string
  cn_context :: string
  cn_dryRun :: bool

definition stringFlag :: "string \<Rightarrow> string \<Rightarrow> flag" where
  "stringFlag name use = \<lparr>fl_Name = name, fl_Shorthand = [], fl_Default = FlagString [], fl_Usage = use\<rparr>"

definition boolFlag :: "string \<Rightarrow> string \<Rightarrow> flag" where
  "boolFlag name use = \<lparr>fl_Name = name, fl_Shorthand = [], fl_Default = FlagBool False, fl_Usage = use\<rparr>"

definition int32Flag :: "string \<Rightarrow> string \<Rightarrow> flag" where
  "int32Flag name use = \<lparr>fl_Name = name, fl_Shorthand = [], fl_Default = FlagInt32 0, fl_Usage = use\<rparr>"

definition connectionFlags :: "flag list" where
  "connectionFlags =
     [(stringFlag ''namespace'' ''namespace to create the run in; the kubeconfig context's namespace when omitted'')\<lparr>fl_Shorthand := ''n''\<rparr>,
      stringFlag ''kubeconfig'' ''path to a kubeconfig; KUBECONFIG or ~/.kube/config when omitted'',
      stringFlag ''context'' ''kubeconfig context to use; the current context when omitted'',
      boolFlag ''dry-run'' ''send the run to the API server as a dry run and print it as YAML; nothing is created'']"

definition connectionOf :: "parsedFlags \<Rightarrow> connection" where
  "connectionOf fs = \<lparr>cn_namespace = pf_String fs ''namespace'', cn_kubeconfig = pf_String fs ''kubeconfig'',
     cn_context = pf_String fs ''context'', cn_dryRun = pf_Bool fs ''dry-run''\<rparr>"

definition commonFlags :: "flag list" where
  "commonFlags =
     [\<lparr>fl_Name = ''timeout'', fl_Shorthand = [], fl_Default = FlagDuration 0,
       fl_Usage = ''how long the run may work once admitted, such as 2h; the run's default when omitted''\<rparr>,
      int32Flag ''ttl'' ''seconds after the run finishes until the controller deletes it; kept when omitted'']"

definition commonApply :: "parsedFlags \<Rightarrow> duration option \<times> int option" where
  "commonApply fs =
     (if pf_Changed fs ''timeout'' then Some (pf_Duration fs ''timeout'') else None,
      if pf_Changed fs ''ttl'' then Some (pf_Int32 fs ''ttl'') else None)"

section \<open>The object to create\<close>

datatype runBody = BackupBody backupRun | RestoreBody restoreRun

record runObject =
  ro_APIVersion :: string
  ro_Kind :: string
  ro_ManagedFields :: "string list"
  ro_Body :: runBody

definition Group :: string where "Group = ''backup.wlz.li''"
definition GroupVersion :: string where "GroupVersion = Group @ ''/v1alpha1''"

fun bodyMeta :: "runBody \<Rightarrow> objectMeta" where
  "bodyMeta (BackupBody run) = br_meta run"
| "bodyMeta (RestoreBody run) = rr_meta run"

fun withNamespace :: "string \<Rightarrow> runBody \<Rightarrow> runBody" where
  "withNamespace ns (BackupBody run) = BackupBody (run\<lparr>br_meta := (br_meta run)\<lparr>m_namespace := ns\<rparr>\<rparr>)"
| "withNamespace ns (RestoreBody run) = RestoreBody (run\<lparr>rr_meta := (rr_meta run)\<lparr>m_namespace := ns\<rparr>\<rparr>)"

definition GetNamespace :: "runObject \<Rightarrow> string" where
  "GetNamespace obj = m_namespace (bodyMeta (ro_Body obj))"

definition SetNamespace :: "string \<Rightarrow> runObject \<Rightarrow> runObject" where
  "SetNamespace ns obj = obj\<lparr>ro_Body := withNamespace ns (ro_Body obj)\<rparr>"

definition GetName :: "runObject \<Rightarrow> string" where
  "GetName obj = m_name (bodyMeta (ro_Body obj))"

definition workloadRefOf :: "string \<Rightarrow> gerr + workloadRef" where
  "workloadRefOf s =
     (case cutChar (CHR ''/'') s of (kind, name, ok) \<Rightarrow>
      if \<not> ok \<or> name = [] then Inl (Plain (''--pause '' @ quote s @ '' is not KIND/NAME, such as deployment/tracearr''))
      else let low = map toLowerChar kind in
        if low \<in> {''deployment'', ''deployments'', ''deploy''} then Inr \<lparr>wr_Kind = ''Deployment'', wr_Name = name\<rparr>
        else if low \<in> {''statefulset'', ''statefulsets'', ''sts''} then Inr \<lparr>wr_Kind = ''StatefulSet'', wr_Name = name\<rparr>
        else Inl (Plain (''--pause '' @ quote s @ '' names kind '' @ quote kind @ ''; use deployment/NAME or statefulset/NAME'')))"

primrec workloadRefs :: "string list \<Rightarrow> gerr + workloadRef list" where
  "workloadRefs [] = Inr []"
| "workloadRefs (p # ps) = bindE (workloadRefOf p) (\<lambda>ref. bindE (workloadRefs ps) (\<lambda>refs. Inr (ref # refs)))"

definition backupFlags :: "flag list" where
  "backupFlags =
     [boolFlag ''all'' ''back up every claim and Cluster in the namespace marked backup.wlz.li/enabled'',
      stringFlag ''source'' ''name of the one claim to back up'',
      stringFlag ''database'' ''name of the one CloudNativePG Cluster to take a base backup of''] @ commonFlags"

definition backupBuild :: "string \<Rightarrow> parsedFlags \<Rightarrow> gerr + runObject" where
  "backupBuild name fs =
     (case commonApply fs of (timeout, ttl) \<Rightarrow>
      Inr \<lparr>ro_APIVersion = GroupVersion, ro_Kind = ''BackupRun'', ro_ManagedFields = [],
        ro_Body = BackupBody \<lparr>br_meta = objectMeta0\<lparr>m_name := name\<rparr>,
          br_spec = \<lparr>bs_Source = pf_String fs ''source'', bs_Database = pf_String fs ''database'', bs_All = pf_Bool fs ''all'',
            bs_Timeout = timeout, bs_TTLSecondsAfterFinished = ttl\<rparr>,
          br_status = backupRunStatus0\<rparr>\<rparr>)"

definition restoreFlags :: "flag list" where
  "restoreFlags =
     [boolFlag ''all'' ''restore every claim and Cluster in the namespace marked backup.wlz.li/enabled'',
      stringFlag ''claim'' ''name of the one claim to restore, in place unless --into is set'',
      stringFlag ''repository'' ''name of a restic repository Secret to restore from; needs --into'',
      stringFlag ''database'' ''name of the one CloudNativePG Cluster to restore'',
      stringFlag ''into'' ''name of a new claim to create and fill; the source claim stays untouched'',
      stringFlag ''into-size'' ''storage request of the claim --into creates, such as 10Gi; the source claim's size when omitted'',
      stringFlag ''as-of'' ''moment to restore to, as an RFC 3339 time such as 2026-10-11T04:00:00Z; the newest backup when omitted'',
      int32Flag ''previous'' ''number of snapshots to step back from the one otherwise selected; one claim only'',
      boolFlag ''sync-database-to-volume'' ''restore volumes and databases to one paused moment; needs --all'',
      \<lparr>fl_Name = ''pause'', fl_Shorthand = [], fl_Default = FlagStringArray [],
       fl_Usage = ''workload to stop before the restore, as deployment/NAME or statefulset/NAME; repeat for more''\<rparr>] @ commonFlags"

definition restoreBuild :: "(string \<Rightarrow> gerr + quantity) \<Rightarrow> string \<Rightarrow> parsedFlags \<Rightarrow> gerr + runObject" where
  "restoreBuild parseQuantity name fs =
     bindE (if pf_Changed fs ''into-size''
            then bindE (wrapE (''--into-size '' @ quote (pf_String fs ''into-size'') @ '' is not a quantity such as 10Gi: '')
                          (parseQuantity (pf_String fs ''into-size''))) (\<lambda>q. Inr (Some q))
            else Inr None) (\<lambda>intoSize.
     bindE (workloadRefs (pf_StringArray fs ''pause'')) (\<lambda>pause.
     case commonApply fs of (timeout, ttl) \<Rightarrow>
     Inr \<lparr>ro_APIVersion = GroupVersion, ro_Kind = ''RestoreRun'', ro_ManagedFields = [],
       ro_Body = RestoreBody \<lparr>rr_meta = objectMeta0\<lparr>m_name := name\<rparr>,
         rr_spec = restoreRunSpec0\<lparr>rs_All := pf_Bool fs ''all'', rs_Claim := pf_String fs ''claim'',
           rs_Repository := pf_String fs ''repository'', rs_Database := pf_String fs ''database'', rs_Into := pf_String fs ''into'',
           rs_SyncDatabaseToVolume := pf_Bool fs ''sync-database-to-volume'', rs_IntoSize := intoSize,
           rs_RestoreAsOf := (if pf_Changed fs ''as-of'' then Some (pf_String fs ''as-of'') else None),
           rs_Previous := (if pf_Changed fs ''previous'' then Some (pf_Int32 fs ''previous'') else None),
           rs_PauseDuringRestore := pause, rs_Timeout := timeout, rs_TTLSecondsAfterFinished := ttl\<rparr>,
         rr_status = restoreRunStatus0\<rparr>\<rparr>))"

section \<open>A command\<close>

record ('w, 'g, 'c) cliEnv =
  ce_Parse :: "flag list \<Rightarrow> string list \<Rightarrow> parseError + parsedFlags"
  ce_FlagUsages :: "flag list \<Rightarrow> string"
  ce_ParseQuantity :: "string \<Rightarrow> gerr + quantity"
  ce_Namespace :: "string \<Rightarrow> string \<Rightarrow> ('w, string) call"
  ce_ClientConfig :: "string \<Rightarrow> string \<Rightarrow> ('w, 'g) call"
  ce_AddToScheme :: "gerr + unit"
  ce_NewClient :: "'g \<Rightarrow> gerr + 'c"
  ce_Create :: "'c \<Rightarrow> bool \<Rightarrow> runObject \<Rightarrow> ('w, runObject) call"
  ce_Marshal :: "runObject \<Rightarrow> gerr + string"
  ce_stdout :: "string \<Rightarrow> ('w, unit) call"
  ce_stderr :: "string \<Rightarrow> ('w, unit) call"

definition newline :: string where "newline = [CHR 0x0A]"

text \<open>Output whose error is ignored.\<close>

definition say :: "(string \<Rightarrow> ('w, unit) call) \<Rightarrow> string \<Rightarrow> ('w, unit) call" where
  "say out t = bindM (attempt (out t)) (\<lambda>_. ret ())"

definition usage :: string where
  "usage = ''kubectl backup creates BackupRuns and RestoreRuns.'' @ newline @ newline @
     ''Usage:'' @ newline @
     ''  kubectl backup run NAME [flags]       create a BackupRun'' @ newline @
     ''  kubectl backup restore NAME [flags]   create a RestoreRun'' @ newline @
     ''  kubectl backup version                print the plugin's version'' @ newline @ newline @
     ''Run '' @ quote ''kubectl backup run --help'' @ '' or '' @ quote ''kubectl backup restore --help'' @ '' for the'' @ newline @
     ''flags of each.'' @ newline"

datatype parseEnd = Help | Usage | Fails gerr | Parsed runObject connection

definition commandUsage :: "('w, 'g, 'c) cliEnv \<Rightarrow> string \<Rightarrow> flag list \<Rightarrow> ('w, unit) call" where
  "commandUsage env command flags =
     say (ce_stderr env) (''Usage: kubectl backup '' @ command @ '' NAME [flags]'' @ newline @ newline @ ''Flags:'' @ newline @ ce_FlagUsages env flags)"

definition cliParse :: "('w, 'g, 'c) cliEnv \<Rightarrow> string list \<Rightarrow> string \<Rightarrow> flag list \<Rightarrow> (string \<Rightarrow> parsedFlags \<Rightarrow> gerr + runObject) \<Rightarrow>
    ('w, parseEnd) call" where
  "cliParse env args command flags build =
     (let fs = connectionFlags @ flags in
      case ce_Parse env fs args of
        Inl ErrHelp \<Rightarrow> thenM (commandUsage env command fs) (ret Help)
      | Inl (ParseError err) \<Rightarrow>
          thenM (say (ce_stderr env) (errText err @ newline)) (
          thenM (commandUsage env command fs) (ret Usage))
      | Inr parsed \<Rightarrow>
          (case pf_Args parsed of
             [name] \<Rightarrow>
               (case build name parsed of
                  Inl err \<Rightarrow> ret (Fails err)
                | Inr obj \<Rightarrow> ret (Parsed (SetNamespace (cn_namespace (connectionOf parsed)) obj) (connectionOf parsed)))
           | names \<Rightarrow>
               thenM (say (ce_stderr env) (''kubectl backup '' @ command @ '' needs exactly one NAME, got '' @ natStr (length names) @ newline)) (
               thenM (commandUsage env command fs) (ret Usage))))"

definition createObject :: "('w, 'g, 'c) cliEnv \<Rightarrow> runObject \<Rightarrow> connection \<Rightarrow> ('w, unit) call" where
  "createObject env obj conn =
     bindM (if GetNamespace obj = []
            then bindM (wrapM ''read the namespace from the kubeconfig: '' (ce_Namespace env (cn_kubeconfig conn) (cn_context conn))) (\<lambda>ns.
              ret (SetNamespace ns obj))
            else ret obj) (\<lambda>obj.
     bindM (wrapM ''load the kubeconfig: '' (ce_ClientConfig env (cn_kubeconfig conn) (cn_context conn))) (\<lambda>cfg.
     thenM (wrapM ''register the backup.wlz.li types: '' (liftE (ce_AddToScheme env))) (
     bindM (wrapM ''build the client: '' (liftE (ce_NewClient env cfg))) (\<lambda>c.
     bindM (ce_Create env c (cn_dryRun conn) obj) (\<lambda>obj.
     if cn_dryRun conn
     then bindM (wrapM ''print the run: '' (liftE (ce_Marshal env (obj\<lparr>ro_ManagedFields := []\<rparr>)))) (ce_stdout env)
     else ce_stdout env (map toLowerChar (ro_Kind obj) @ ''.'' @ Group @ ''/'' @ GetName obj @ '' created'' @ newline))))))"

definition cliCreate :: "('w, 'g, 'c) cliEnv \<Rightarrow> string list \<Rightarrow> string \<Rightarrow> flag list \<Rightarrow> (string \<Rightarrow> parsedFlags \<Rightarrow> gerr + runObject) \<Rightarrow>
    ('w, parseEnd) call" where
  "cliCreate env args command flags build =
     bindM (cliParse env args command flags build) (\<lambda>finish. case finish of
       Parsed obj conn \<Rightarrow>
         bindM (attempt (createObject env obj conn)) (\<lambda>r. case r of
           Inl err \<Rightarrow> ret (Fails err)
         | Inr _ \<Rightarrow> ret finish)
     | _ \<Rightarrow> ret finish)"

definition exitCode :: "('w, 'g, 'c) cliEnv \<Rightarrow> parseEnd \<Rightarrow> ('w, int) call" where
  "exitCode env finish = (case finish of
     Help \<Rightarrow> ret 0
   | Usage \<Rightarrow> ret 2
   | Fails err \<Rightarrow> thenM (say (ce_stderr env) (''error: '' @ errText err @ newline)) (ret 1)
   | Parsed _ _ \<Rightarrow> ret 0)"

definition cliMain :: "('w, 'g, 'c) cliEnv \<Rightarrow> string list \<Rightarrow> string \<Rightarrow> ('w, int) call" where
  "cliMain env args version =
     (case args of
        [] \<Rightarrow> thenM (say (ce_stderr env) usage) (ret 2)
      | command # rest \<Rightarrow>
          if command = ''run'' then bindM (cliCreate env rest ''run'' backupFlags backupBuild) (exitCode env)
          else if command = ''restore'' then bindM (cliCreate env rest ''restore'' restoreFlags (restoreBuild (ce_ParseQuantity env))) (exitCode env)
          else if command = ''version'' then thenM (say (ce_stdout env) (version @ newline)) (ret 0)
          else if command \<in> {''-h'', ''--help'', ''help''} then thenM (say (ce_stdout env) usage) (ret 0)
          else thenM (say (ce_stderr env) (''unknown command '' @ quote command @ newline @ newline @ usage)) (ret 2))"

text \<open>\<open>main\<close>: the arguments after the program's name.\<close>

definition kubectlBackup :: "('w, 'g, 'c) cliEnv \<Rightarrow> string list \<Rightarrow> string \<Rightarrow> ('w, int) call" where
  "kubectlBackup env argv version = cliMain env (tl argv) version"

section \<open>What a command line asks of the API server\<close>

text \<open>The view \<open>asked\<close> is the list of the objects that were handed to \<open>Create\<close>, with the dry-run option. The
  kubeconfig and the output streams leave it alone.\<close>

definition cliLaws :: "('w, 'g, 'c) cliEnv \<Rightarrow> ('w \<Rightarrow> (bool \<times> runObject) list) \<Rightarrow> bool" where
  "cliLaws env asked =
     ((\<forall>k x. keeps asked (ce_Namespace env k x)) \<and> (\<forall>k x. keeps asked (ce_ClientConfig env k x)) \<and>
      (\<forall>t. keeps asked (ce_stdout env t)) \<and> (\<forall>t. keeps asked (ce_stderr env t)) \<and>
      (\<forall>c dry obj w. asked (snd (ce_Create env c dry obj w)) = asked w @ [(dry, obj)]))"

definition commandOf :: "('w, 'g, 'c) cliEnv \<Rightarrow> string \<Rightarrow> (flag list \<times> (string \<Rightarrow> parsedFlags \<Rightarrow> gerr + runObject)) option" where
  "commandOf env command =
     (if command = ''run'' then Some (backupFlags, backupBuild)
      else if command = ''restore'' then Some (restoreFlags, restoreBuild (ce_ParseQuantity env)) else None)"

text \<open>What a parsed command line asks for: the object its flags build, in the namespace of the flag or of the
  kubeconfig.\<close>

definition asksFor :: "parsedFlags \<Rightarrow> (string \<Rightarrow> parsedFlags \<Rightarrow> gerr + runObject) \<Rightarrow> bool \<times> runObject \<Rightarrow> bool" where
  "asksFor fs build request =
     (\<exists>name obj ns. pf_Args fs = [name] \<and> build name fs = Inr obj \<and> request = (pf_Bool fs ''dry-run'', SetNamespace ns obj) \<and>
        (pf_String fs ''namespace'' = [] \<or> ns = pf_String fs ''namespace''))"

lemma SetNamespace_simps [simp]:
  "GetNamespace (SetNamespace ns obj) = ns" "SetNamespace ns (SetNamespace ns' obj) = SetNamespace ns obj"
proof -
  show "GetNamespace (SetNamespace ns obj) = ns" by (cases "ro_Body obj") (simp_all add: GetNamespace_def SetNamespace_def)
  show "SetNamespace ns (SetNamespace ns' obj) = SetNamespace ns obj" by (cases "ro_Body obj") (simp_all add: SetNamespace_def)
qed

lemma SetNamespace_same: "SetNamespace (GetNamespace obj) obj = obj"
  by (cases "ro_Body obj") (simp_all add: GetNamespace_def SetNamespace_def)

lemma say_run:
  assumes "cliLaws env asked" "out = ce_stdout env \<or> out = ce_stderr env"
  shows "\<exists>w'. say out t w = (Inr (), w') \<and> asked w' = asked w"
proof -
  have "keeps asked (out t)" using assms by (auto simp: cliLaws_def)
  then have "keeps asked (say out t)" unfolding say_def by (intro keeps_intros)
  then have "asked (snd (say out t w)) = asked w" by (metis keepsD surjective_pairing)
  moreover have "fst (say out t w) = Inr ()" by (simp add: say_def bindM_def attempt_def ret_def split: prod.splits)
  ultimately show ?thesis by (metis surjective_pairing)
qed

lemma then_say: "\<exists>w1. c w = (Inr (), w1) \<and> v w1 = v w \<Longrightarrow> \<exists>w2. d (snd (c w)) = (Inr r, w2) \<and> v w2 = v (snd (c w)) \<Longrightarrow>
    \<exists>w2. thenM c d w = (Inr r, w2) \<and> v w2 = v w"
  by (auto simp: thenM_def bindM_def)

lemma say_ret:
  assumes "cliLaws env asked" "out = ce_stdout env \<or> out = ce_stderr env"
  shows "\<exists>w'. thenM (say out t) (ret r) w = (Inr r, w') \<and> asked w' = asked w"
  by (rule then_say[OF say_run[OF assms]]) (simp add: ret_def)

lemma usage_ret:
  assumes "cliLaws env asked"
  shows "\<exists>w'. thenM (commandUsage env command fs) (ret r) w = (Inr r, w') \<and> asked w' = asked w"
  unfolding commandUsage_def by (rule say_ret[OF assms]) simp

lemma say_usage_ret:
  assumes "cliLaws env asked" "out = ce_stdout env \<or> out = ce_stderr env"
  shows "\<exists>w'. thenM (say out t) (thenM (commandUsage env command fs) (ret r)) w = (Inr r, w') \<and> asked w' = asked w"
  by (rule then_say[OF say_run[OF assms]]) (rule usage_ret[OF assms(1)])

lemma cliParse_run:
  assumes laws: "cliLaws env asked"
  shows "\<exists>r w'. cliParse env args command flags build w = (Inr r, w') \<and> asked w' = asked w \<and>
    (case r of Help \<Rightarrow> ce_Parse env (connectionFlags @ flags) args = Inl ErrHelp
     | Parsed obj conn \<Rightarrow> (\<exists>fs name obj0. ce_Parse env (connectionFlags @ flags) args = Inr fs \<and> pf_Args fs = [name] \<and>
         build name fs = Inr obj0 \<and> obj = SetNamespace (pf_String fs ''namespace'') obj0 \<and> conn = connectionOf fs)
     | _ \<Rightarrow> True)"
proof -
  note say2 = say_usage_ret[OF laws, of "ce_stderr env"]
  show ?thesis
  proof (cases "ce_Parse env (connectionFlags @ flags) args")
    case (Inl e)
    show ?thesis
    proof (cases e)
      case ErrHelp
      then show ?thesis unfolding cliParse_def Let_def Inl using usage_ret[OF laws, of command "connectionFlags @ flags" Help w] Inl
        by (intro exI[of _ Help]) auto
    next
      case (ParseError err)
      then show ?thesis unfolding cliParse_def Let_def Inl
        using say2[of "errText err @ newline" command "connectionFlags @ flags" Usage w]
        by (intro exI[of _ Usage]) auto
    qed
  next
    case (Inr fs)
    show ?thesis
    proof (cases "\<exists>name. pf_Args fs = [name]")
      case True
      then obtain name where "pf_Args fs = [name]" ..
      then show ?thesis by (cases "build name fs") (auto simp: cliParse_def Inr ret_def connectionOf_def)
    next
      case False
      then have "cliParse env args command flags build =
          thenM (say (ce_stderr env) (''kubectl backup '' @ command @ '' needs exactly one NAME, got '' @ natStr (length (pf_Args fs)) @ newline)) (
          thenM (commandUsage env command (connectionFlags @ flags)) (ret Usage))"
        unfolding cliParse_def Let_def Inr sum.case using False by (auto split: list.split simp del: append_Cons)
      then show ?thesis
        using say2[of "''kubectl backup '' @ command @ '' needs exactly one NAME, got '' @ natStr (length (pf_Args fs)) @ newline"
            command "connectionFlags @ flags" Usage w]
        by (intro exI[of _ Usage]) auto
    qed
  qed
qed

lemma bindM_cases:
  assumes "bindM c f w = (r, w')"
  obtains e where "c w = (Inl e, w')" "r = Inl e" | x w1 where "c w = (Inr x, w1)" "f x w1 = (r, w')"
  using assms by (auto simp: bindM_def split: prod.splits sum.splits)

lemma createObject_asks:
  assumes laws: "cliLaws env asked" and run: "createObject env obj conn w = (r, w')"
  shows "asked w' = asked w \<and> r \<noteq> Inr () \<or>
    (\<exists>ns. asked w' = asked w @ [(cn_dryRun conn, SetNamespace ns obj)] \<and> (GetNamespace obj = [] \<or> ns = GetNamespace obj))"
proof -
  let ?named = "if GetNamespace obj = []
     then bindM (wrapM ''read the namespace from the kubeconfig: '' (ce_Namespace env (cn_kubeconfig conn) (cn_context conn))) (\<lambda>ns. ret (SetNamespace ns obj))
     else ret obj"
  let ?print = "\<lambda>obj. if cn_dryRun conn
     then bindM (wrapM ''print the run: '' (liftE (ce_Marshal env (obj\<lparr>ro_ManagedFields := []\<rparr>)))) (ce_stdout env)
     else ce_stdout env (map toLowerChar (ro_Kind obj) @ ''.'' @ Group @ ''/'' @ GetName obj @ '' created'' @ newline)"
  let ?client = "bindM (wrapM ''load the kubeconfig: '' (ce_ClientConfig env (cn_kubeconfig conn) (cn_context conn))) (\<lambda>cfg.
     thenM (wrapM ''register the backup.wlz.li types: '' (liftE (ce_AddToScheme env)))
       (wrapM ''build the client: '' (liftE (ce_NewClient env cfg))))"
  have k: "keeps asked ?named" "keeps asked ?client" "keeps asked (?print obj')" for obj'
    using laws unfolding cliLaws_def by (intro keeps_intros; simp)+
  have split: "createObject env obj conn = bindM ?named (\<lambda>obj. bindM ?client (\<lambda>c. bindM (ce_Create env c (cn_dryRun conn) obj) ?print))"
    by (simp add: createObject_def thenM_def bindM_assoc)
  have named: "\<exists>ns. obj1 = SetNamespace ns obj \<and> (GetNamespace obj = [] \<or> ns = GetNamespace obj)" if "?named w = (Inr obj1, w1)" for obj1 w1
  proof (cases "GetNamespace obj = []")
    case True
    then show ?thesis using that by (auto simp: bindM_Inr_iff ret_def)
  next
    case False
    then show ?thesis using that by (intro exI[of _ "GetNamespace obj"]) (simp add: ret_def SetNamespace_same)
  qed
  from run[unfolded split] show ?thesis
  proof (rule bindM_cases)
    show ?thesis if "?named w = (Inl e, w')" "r = Inl e" for e using keepsD[OF k(1) that(1)] that(2) by simp
    fix obj1 w1 assume n: "?named w = (Inr obj1, w1)" and "bindM ?client (\<lambda>c. bindM (ce_Create env c (cn_dryRun conn) obj1) ?print) w1 = (r, w')"
    from this(2) show ?thesis
    proof (rule bindM_cases)
      show ?thesis if "?client w1 = (Inl e, w')" "r = Inl e" for e using keepsD[OF k(1) n] keepsD[OF k(2) that(1)] that(2) by simp
      fix c w2 assume c: "?client w1 = (Inr c, w2)" and "bindM (ce_Create env c (cn_dryRun conn) obj1) ?print w2 = (r, w')"
      from this(2) have "asked w' = asked (snd (ce_Create env c (cn_dryRun conn) obj1 w2))"
        by (rule bindM_cases) (use keepsD[OF k(3)] in auto)
      then have "asked w' = asked w2 @ [(cn_dryRun conn, obj1)]" using laws by (simp add: cliLaws_def)
      then show ?thesis using named[OF n] keepsD[OF k(1) n] keepsD[OF k(2) c] by auto
    qed
  qed
qed

lemma cliCreate_asks:
  assumes laws: "cliLaws env asked"
  shows "\<exists>r w'. cliCreate env args command flags build w = (Inr r, w') \<and>
    (asked w' = asked w \<and> (case r of Help \<Rightarrow> ce_Parse env (connectionFlags @ flags) args = Inl ErrHelp | Parsed _ _ \<Rightarrow> False | _ \<Rightarrow> True) \<or>
     r \<noteq> Help \<and> r \<noteq> Usage \<and>
     (\<exists>fs request. ce_Parse env (connectionFlags @ flags) args = Inr fs \<and> asksFor fs build request \<and> asked w' = asked w @ [request]))"
proof -
  from cliParse_run[OF laws, of args command flags build w] obtain p w1 where
    p: "cliParse env args command flags build w = (Inr p, w1)" "asked w1 = asked w" and
    c: "case p of Help \<Rightarrow> ce_Parse env (connectionFlags @ flags) args = Inl ErrHelp
     | Parsed obj conn \<Rightarrow> (\<exists>fs name obj0. ce_Parse env (connectionFlags @ flags) args = Inr fs \<and> pf_Args fs = [name] \<and>
         build name fs = Inr obj0 \<and> obj = SetNamespace (pf_String fs ''namespace'') obj0 \<and> conn = connectionOf fs)
     | _ \<Rightarrow> True" by blast
  show ?thesis
  proof (cases p)
    case (Parsed obj conn)
    from c[unfolded Parsed parseEnd.case] obtain fs name obj0 where
      fs: "ce_Parse env (connectionFlags @ flags) args = Inr fs" "pf_Args fs = [name]" "build name fs = Inr obj0"
        "obj = SetNamespace (pf_String fs ''namespace'') obj0" "conn = connectionOf fs" by blast
    obtain res w2 where run: "createObject env obj conn w1 = (res, w2)" by fastforce
    let ?outcome = "case res of Inl err \<Rightarrow> Fails err | Inr _ \<Rightarrow> p"
    have e: "cliCreate env args command flags build w = (Inr ?outcome, w2)"
      by (simp add: cliCreate_def bindM_def p(1) Parsed attempt_def run ret_def split: sum.split)
    have dry: "cn_dryRun conn = pf_Bool fs ''dry-run''" by (simp add: fs(5) connectionOf_def)
    from createObject_asks[OF laws run] consider "asked w2 = asked w1" "res \<noteq> Inr ()"
      | ns where "asked w2 = asked w1 @ [(cn_dryRun conn, SetNamespace ns obj)]" "GetNamespace obj = [] \<or> ns = GetNamespace obj" by blast
    then show ?thesis
    proof cases
      case 1
      then show ?thesis using e p(2) by (cases res) auto
    next
      case a: (2 ns)
      have "(cn_dryRun conn, SetNamespace ns obj) = (pf_Bool fs ''dry-run'', SetNamespace ns obj0)" "pf_String fs ''namespace'' = [] \<or> ns = pf_String fs ''namespace''"
        using a(2) fs(4) by (simp_all add: dry)
      then have "asksFor fs build (cn_dryRun conn, SetNamespace ns obj)" unfolding asksFor_def using fs(2,3) by blast
      moreover have "?outcome \<noteq> Help" "?outcome \<noteq> Usage" by (simp_all add: Parsed split: sum.split)
      ultimately show ?thesis using e a(1) p(2) fs(1) by auto
    qed
  qed (use p c in \<open>auto simp: cliCreate_def bindM_def ret_def\<close>)
qed

fun codeOf :: "parseEnd \<Rightarrow> int" where
  "codeOf Help = 0"
| "codeOf Usage = 2"
| "codeOf (Fails _) = 1"
| "codeOf (Parsed _ _) = 0"

lemma exitCode_run:
  assumes "cliLaws env asked"
  shows "\<exists>w'. exitCode env r w = (Inr (codeOf r), w') \<and> asked w' = asked w"
  using say_ret[OF assms, of "ce_stderr env"] by (cases r) (auto simp: exitCode_def ret_def)

lemma command_asks:
  assumes laws: "cliLaws env asked"
  shows "\<exists>code w'. bindM (cliCreate env args command flags build) (exitCode env) w = (Inr code, w') \<and> code \<in> {0, 1, 2} \<and>
    (asked w' = asked w \<and> (code = 0 \<longrightarrow> ce_Parse env (connectionFlags @ flags) args = Inl ErrHelp) \<or>
     code \<noteq> 2 \<and>
     (\<exists>fs request. ce_Parse env (connectionFlags @ flags) args = Inr fs \<and> asksFor fs build request \<and> asked w' = asked w @ [request]))"
proof -
  from cliCreate_asks[OF laws, of args command flags build w] obtain r w1 where c: "cliCreate env args command flags build w = (Inr r, w1)"
    and a: "asked w1 = asked w \<and> (case r of Help \<Rightarrow> ce_Parse env (connectionFlags @ flags) args = Inl ErrHelp | Parsed _ _ \<Rightarrow> False | _ \<Rightarrow> True) \<or>
       r \<noteq> Help \<and> r \<noteq> Usage \<and>
       (\<exists>fs request. ce_Parse env (connectionFlags @ flags) args = Inr fs \<and> asksFor fs build request \<and> asked w1 = asked w @ [request])" by blast
  from exitCode_run[OF laws, of r w1] obtain w' where e: "exitCode env r w1 = (Inr (codeOf r), w')" "asked w' = asked w1" by blast
  have run: "bindM (cliCreate env args command flags build) (exitCode env) w = (Inr (codeOf r), w')" by (simp add: bindM_def c e(1))
  have "codeOf r \<in> {0, 1, 2}" by (cases r) simp_all
  then show ?thesis using a run e(2) by (intro exI[of _ "codeOf r"] exI[of _ w']) (cases r; simp)
qed

lemma cliMain_other:
  assumes "commandOf env command = None"
  obtains out t and code :: int where "out = ce_stdout env \<or> out = ce_stderr env" "code \<in> {0, 1, 2}"
    "cliMain env (command # rest) version = thenM (say out t) (ret code)"
proof -
  have c: "command \<noteq> ''run''" "command \<noteq> ''restore''" using assms by (auto simp: commandOf_def)
  consider "command = ''version''" | "command \<noteq> ''version''" "command \<in> {''-h'', ''--help'', ''help''}"
    | "command \<noteq> ''version''" "command \<notin> {''-h'', ''--help'', ''help''}" by blast
  then show thesis
  proof cases
    case 1
    then have "cliMain env (command # rest) version = thenM (say (ce_stdout env) (version @ newline)) (ret 0)" by (simp add: cliMain_def)
    then show thesis by (rule that[rotated 2]) simp_all
  next
    case 2
    then have "cliMain env (command # rest) version = thenM (say (ce_stdout env) usage) (ret 0)"
      unfolding cliMain_def list.case using c by (simp only: if_True if_False)
    then show thesis by (rule that[rotated 2]) simp_all
  next
    case 3
    then have "cliMain env (command # rest) version =
        thenM (say (ce_stderr env) (''unknown command '' @ quote command @ newline @ newline @ usage)) (ret 2)"
      unfolding cliMain_def list.case using c by (simp only: if_True if_False)
    then show thesis by (rule that[rotated 2]) simp_all
  qed
qed

text \<open>C26. The plugin always returns an exit code, and asks the API server for at most one object. That object
  is the run that the flags of the command line build, in the namespace of \<open>--namespace\<close> when it is given, as a
  dry run exactly when \<open>--dry-run\<close> is. A command line that does not parse exits with 2 and asks for nothing, and
  exit code 0 of \<open>run\<close> or \<open>restore\<close> without \<open>--help\<close> means that the object was asked for.\<close>

theorem cliMain_asks:
  assumes laws: "cliLaws env asked"
  shows "\<exists>code w'. cliMain env args version w = (Inr code, w') \<and> code \<in> {0, 1, 2} \<and>
    (asked w' = asked w \<and>
       (\<forall>command rest flags build. args = command # rest \<and> commandOf env command = Some (flags, build) \<and> code = 0 \<longrightarrow>
          ce_Parse env (connectionFlags @ flags) rest = Inl ErrHelp) \<or>
     code \<noteq> 2 \<and>
     (\<exists>command rest flags build fs request. args = command # rest \<and> commandOf env command = Some (flags, build) \<and>
        ce_Parse env (connectionFlags @ flags) rest = Inr fs \<and> asksFor fs build request \<and> asked w' = asked w @ [request]))"
proof (cases args)
  case Nil
  from say_ret[OF laws, of "ce_stderr env" usage "2 :: int" w] obtain w' where
    "cliMain env args version w = (Inr 2, w')" "asked w' = asked w" by (auto simp: cliMain_def Nil)
  then show ?thesis using Nil by (intro exI[of _ 2] exI[of _ w']) simp
next
  case (Cons command rest)
  show ?thesis
  proof (cases "commandOf env command")
    case None
    obtain out t and code :: int where o: "out = ce_stdout env \<or> out = ce_stderr env" "code \<in> {0, 1, 2}"
        "cliMain env args version = thenM (say out t) (ret code)" using None unfolding Cons by (rule cliMain_other)
    from say_ret[OF laws o(1), of t code w] obtain w' where "cliMain env args version w = (Inr code, w')" "asked w' = asked w"
      unfolding o(3) by blast
    then show ?thesis using o(2) None Cons by (intro exI[of _ code] exI[of _ w']) simp
  next
    case (Some fb)
    obtain flags build where fb: "fb = (flags, build)" by fastforce
    then have m: "cliMain env args version = bindM (cliCreate env rest command flags build) (exitCode env)"
      using Some by (auto simp: cliMain_def Cons commandOf_def split: if_splits)
    from command_asks[OF laws, of rest command flags build w] obtain code w' where run: "cliMain env args version w = (Inr code, w')" "code \<in> {0, 1, 2}"
      and a: "asked w' = asked w \<and> (code = 0 \<longrightarrow> ce_Parse env (connectionFlags @ flags) rest = Inl ErrHelp) \<or>
         code \<noteq> 2 \<and> (\<exists>fs request. ce_Parse env (connectionFlags @ flags) rest = Inr fs \<and> asksFor fs build request \<and> asked w' = asked w @ [request])"
      unfolding m by blast
    have c: "args = command # rest" "commandOf env command = Some (flags, build)" using Cons Some fb by simp_all
    show ?thesis using run a unfolding c(1) by (intro exI[of _ code] exI[of _ w']) (simp add: c(2))
  qed
qed

section \<open>A command line\<close>

text \<open>\<open>kubectl backup restore back -n app --claim data --pause sts/web --dry-run\<close>, with a parser that knows only
  this line and a world that is what was asked for.\<close>

definition parsedEx :: parsedFlags where
  "parsedEx = \<lparr>pf_String = (\<lambda>f. if f = ''namespace'' then ''app'' else if f = ''claim'' then ''data'' else []),
     pf_Bool = (\<lambda>f. f = ''dry-run''), pf_Duration = (\<lambda>_. 0), pf_Int32 = (\<lambda>_. 0),
     pf_StringArray = (\<lambda>f. if f = ''pause'' then [''sts/web''] else []),
     pf_Changed = (\<lambda>f. f \<in> {''namespace'', ''claim'', ''pause'', ''dry-run''}), pf_Args = [''back'']\<rparr>"

definition cliEx :: "((bool \<times> runObject) list, unit, unit) cliEnv" where
  "cliEx = \<lparr>ce_Parse = \<lambda>_ _. Inr parsedEx, ce_FlagUsages = \<lambda>_. [], ce_ParseQuantity = Inr,
     ce_Namespace = \<lambda>_ _. ret ''default'', ce_ClientConfig = \<lambda>_ _. ret (), ce_AddToScheme = Inr (), ce_NewClient = \<lambda>_. Inr (),
     ce_Create = \<lambda>_ dry obj w. (Inr obj, w @ [(dry, obj)]), ce_Marshal = \<lambda>_. Inr ''kind: RestoreRun'', ce_stdout = \<lambda>_. ret (), ce_stderr = \<lambda>_. ret ()\<rparr>"

lemma cliEx_laws: "cliLaws cliEx (\<lambda>w. w)"
  by (simp add: cliLaws_def cliEx_def keeps_ret)

theorem cliMain_asks_witness:
  "\<exists>w' request. cliMain cliEx [''restore'', ''back'', ''-n'', ''app'', ''--claim'', ''data'', ''--pause'', ''sts/web'', ''--dry-run''] ''dev'' [] = (Inr 0, w') \<and>
     asksFor parsedEx (restoreBuild Inr) request \<and> w' = [request] \<and> fst request"
proof -
  let ?args = "[''restore'', ''back'', ''-n'', ''app'', ''--claim'', ''data'', ''--pause'', ''sts/web'', ''--dry-run'']"
  have f: "fst (cliMain cliEx ?args ''dev'' []) = Inr 0" by code_simp
  have c: "commandOf cliEx ''restore'' = Some (restoreFlags, restoreBuild Inr)" by (simp add: commandOf_def cliEx_def)
  have p: "ce_Parse cliEx fs a = Inr parsedEx" for fs a by (simp add: cliEx_def)
  from cliMain_asks[OF cliEx_laws, of ?args "''dev''" "[]"] f obtain w' request where
    "cliMain cliEx ?args ''dev'' [] = (Inr 0, w')" "asksFor parsedEx (restoreBuild Inr) request" "w' = [request]"
    by (auto simp: c p)
  moreover from this(2) have "fst request" by (auto simp: asksFor_def parsedEx_def)
  ultimately show ?thesis by blast
qed

lemma choose_ref:
  "\<not> (d \<and> t) \<Longrightarrow>
   (if \<not> True \<or> name = [] then Inl e else if d then Inr \<lparr>wr_Kind = a, wr_Name = name\<rparr> else if t then Inr \<lparr>wr_Kind = b, wr_Name = name\<rparr> else Inl e') = Inr ref \<longleftrightarrow>
     wr_Name ref = name \<and> wr_Name ref \<noteq> [] \<and> (d \<and> wr_Kind ref = a \<or> t \<and> wr_Kind ref = b)"
  by (cases ref) auto

lemma cutChar_ex:
  assumes "CHR ''/'' \<notin> set kind"
  shows "(\<exists>k. kind @ CHR ''/'' # name = k @ CHR ''/'' # n \<and> CHR ''/'' \<notin> set k \<and> P k) \<longleftrightarrow> n = name \<and> P kind"
proof
  assume "\<exists>k. kind @ CHR ''/'' # name = k @ CHR ''/'' # n \<and> CHR ''/'' \<notin> set k \<and> P k"
  then obtain k where k: "kind @ CHR ''/'' # name = k @ CHR ''/'' # n" "CHR ''/'' \<notin> set k" "P k" by blast
  have "(kind, name, True) = (k, n, True)" using cutChar_found[OF assms, of name] cutChar_found[OF k(2), of n] unfolding k(1) by (rule trans[OF sym])
  then show "n = name \<and> P kind" using k(3) by simp
qed (intro exI[of _ kind]; simp add: assms)

text \<open>\<open>--pause\<close> takes exactly the documented spellings, and the name is all that follows the first slash.\<close>

lemma workloadRefOf_iff:
  "workloadRefOf s = Inr ref \<longleftrightarrow>
     (\<exists>kind. s = kind @ CHR ''/'' # wr_Name ref \<and> CHR ''/'' \<notin> set kind \<and> wr_Name ref \<noteq> [] \<and>
        (map toLowerChar kind \<in> {''deployment'', ''deployments'', ''deploy''} \<and> wr_Kind ref = ''Deployment'' \<or>
         map toLowerChar kind \<in> {''statefulset'', ''statefulsets'', ''sts''} \<and> wr_Kind ref = ''StatefulSet''))"
proof (cases "CHR ''/'' \<in> set s")
  case False
  then have "s \<noteq> kind @ CHR ''/'' # n" for kind n by auto
  then show ?thesis using False by (simp add: workloadRefOf_def cutChar_absent)
next
  case True
  then obtain kind name where s: "s = kind @ CHR ''/'' # name" "CHR ''/'' \<notin> set kind" by (metis split_list_first)
  have low: "\<not> (low \<in> {''deployment'', ''deployments'', ''deploy''} \<and> low \<in> {''statefulset'', ''statefulsets'', ''sts''})" for low :: string
    by (rule notI) (elim conjE insertE emptyE; simp)
  show ?thesis unfolding workloadRefOf_def s(1) cutChar_found[OF s(2)] prod.case Let_def choose_ref[OF low] cutChar_ex[OF s(2)] ..
qed

end
