(* ===== verification/Process.thy ===== *)
theory Process
  imports Populator Cli
begin

text \<open>
  The controller's process, from \<open>src/cmd/backup-controller\<close>: \<open>operations.go\<close>, \<open>flags.go\<close>, the start-up in \<open>main.go\<close> and
  \<open>runs.go\<close>, and the threads that run afterwards. The parameters are the Kubernetes client, the scheme, the
  manager of controller-runtime and the populator library; what the reconcilers do is in their own theories.

  \<open>main\<close> waits for the manager to be elected, runs the populator library until it returns, cancels the manager
  and waits for it. A goroutine runs the manager. These two threads of every replica, its manager, the Lease of
  the leader election and the death of a process are the step relation \<open>procStep\<close>. The manager is a parameter
  of it. What the theorem takes from controller-runtime is the hypothesis \<open>managerLaws\<close>: with leader election in its
  options, a manager starts its controllers and closes \<open>Elected\<close> only when it takes the free Lease that the options
  name; a cancelled manager returns no error and releases the Lease when its options say so; a manager that
  fails returns an error and may or may not have released the Lease. Nothing is assumed of the Lease's expiry:
  the Lease of a replica may expire at any moment, also under a live leader, and then another may take it.
\<close>

section \<open>The operations of the populator\<close>

datatype propagation = DeleteDefault | DeletePropagationBackground

datatype kubeObject = JobObject job | SecretObject secret

datatype kubeKind = KindJob | KindSecret

record 'w kubeClient =
  kc_GetJob :: "string \<Rightarrow> string \<Rightarrow> ('w, job) call"
  kc_GetSecret :: "string \<Rightarrow> string \<Rightarrow> ('w, secret) call"
  kc_Create :: "kubeObject \<Rightarrow> ('w, unit) call"
  kc_Delete :: "kubeKind \<Rightarrow> objectMeta \<Rightarrow> propagation \<Rightarrow> ('w, unit) call"
  kc_StatusUpdate :: "volumeRestore \<Rightarrow> ('w, unit) call"

definition objectMetaOf :: "string \<Rightarrow> string \<Rightarrow> objectMeta" where
  "objectMetaOf namespace name = objectMeta0\<lparr>m_namespace := namespace, m_name := name\<rparr>"

definition GetJob :: "'w kubeClient \<Rightarrow> string \<Rightarrow> string \<Rightarrow> ('w, job) call" where
  "GetJob c namespace name = kc_GetJob c namespace name"

definition CreateJob :: "'w kubeClient \<Rightarrow> job \<Rightarrow> ('w, unit) call" where
  "CreateJob c job = kc_Create c (JobObject job)"

definition DeleteJob :: "'w kubeClient \<Rightarrow> string \<Rightarrow> string \<Rightarrow> ('w, unit) call" where
  "DeleteJob c namespace name = kc_Delete c KindJob (objectMetaOf namespace name) DeletePropagationBackground"

definition GetSecret :: "'w kubeClient \<Rightarrow> string \<Rightarrow> string \<Rightarrow> ('w, secret) call" where
  "GetSecret c namespace name = kc_GetSecret c namespace name"

definition CreateSecret :: "'w kubeClient \<Rightarrow> secret \<Rightarrow> ('w, unit) call" where
  "CreateSecret c secret = kc_Create c (SecretObject secret)"

definition DeleteSecret :: "'w kubeClient \<Rightarrow> string \<Rightarrow> string \<Rightarrow> ('w, unit) call" where
  "DeleteSecret c namespace name = kc_Delete c KindSecret (objectMetaOf namespace name) DeleteDefault"

definition SetStatus :: "'w kubeClient \<Rightarrow> volumeRestore \<Rightarrow> ('w, unit) call" where
  "SetStatus c vr = kc_StatusUpdate c vr"

text \<open>The callbacks with these operations, and with the settings of the process.\<close>

definition clientOperations :: "'w kubeClient \<Rightarrow> 'w populatorApi \<Rightarrow> 'w populatorApi" where
  "clientOperations c api = api\<lparr>cb_GetJob := GetJob c, cb_CreateJob := CreateJob c, cb_DeleteJob := DeleteJob c,
     cb_GetSecret := GetSecret c, cb_CreateSecret := CreateSecret c, cb_DeleteSecret := DeleteSecret c, cb_SetStatus := SetStatus c\<rparr>"

section \<open>Flags\<close>

text \<open>A flag set as the names it has. Registering a name twice panics (\<open>None\<close>).\<close>

definition registerFlag :: "string \<Rightarrow> string list \<Rightarrow> string list option" where
  "registerFlag name fs = (if name \<in> set fs then None else Some (fs @ [name]))"

definition kubeconfigFlag :: "string list \<Rightarrow> string list option" where
  "kubeconfigFlag fs = (if ''kubeconfig'' \<in> set fs then Some fs else registerFlag ''kubeconfig'' fs)"

lemma kubeconfigFlag_registers: "\<exists>fs'. kubeconfigFlag fs = Some fs' \<and> ''kubeconfig'' \<in> set fs' \<and> (distinct fs \<longrightarrow> distinct fs')"
  by (auto simp: kubeconfigFlag_def registerFlag_def)

record processFlags =
  mf_kubeconfig :: string
  mf_namespace :: string
  mf_metricsAddr :: string
  mf_metricsPath :: string
  mf_runsMetrics :: string
  mf_webhookCert :: string
  mf_webhookPort :: int
  mf_printVer :: bool
  mf_pause :: bool
  mf_restoreImg :: string
  mf_leaderElect :: bool

definition processFlags0 :: processFlags where
  "processFlags0 = \<lparr>mf_kubeconfig = [], mf_namespace = ''backup-system'', mf_metricsAddr = '':8080'', mf_metricsPath = ''/metrics'',
     mf_runsMetrics = '':8081'', mf_webhookCert = [], mf_webhookPort = 9443, mf_printVer = False, mf_pause = False,
     mf_restoreImg = [], mf_leaderElect = False\<rparr>"

section \<open>Start-up\<close>

record election =
  el_Enabled :: bool
  el_Namespace :: string

record bootstrapWebhook =
  bw_CertDir :: string
  bw_Port :: int

definition portText :: "int \<Rightarrow> string" where
  "portText n = (if n < 0 then ''-'' @ natStr (nat (- n)) else natStr (nat n))"

definition leaderElectionID :: string where "leaderElectionID = ''backup-controller''"

definition WebhookPath :: string where "WebhookPath = ''/mutate-postgresql-cnpg-io-v1-cluster''"

record 's managerOptions =
  mo_Scheme :: 's
  mo_BindAddress :: string
  mo_LeaderElection :: bool
  mo_LeaderElectionID :: string
  mo_LeaderElectionNamespace :: string
  mo_LeaderElectionReleaseOnCancel :: bool
  mo_WebhookServer :: "(string \<times> int) option"

definition managerOptionsFor :: "'s \<Rightarrow> string \<Rightarrow> election \<Rightarrow> 's managerOptions" where
  "managerOptionsFor scheme metricsAddr el =
     \<lparr>mo_Scheme = scheme, mo_BindAddress = metricsAddr, mo_LeaderElection = el_Enabled el, mo_LeaderElectionID = leaderElectionID,
      mo_LeaderElectionNamespace = el_Namespace el, mo_LeaderElectionReleaseOnCancel = True, mo_WebhookServer = None\<rparr>"

record ('w, 'g, 's, 'c, 'm) processEnv =
  pe_BuildConfig :: "string \<Rightarrow> ('w, 'g) call"
  pe_NewScheme :: 's
  pe_AddToScheme :: "string \<Rightarrow> 's \<Rightarrow> gerr + 's"
  pe_mapOrder :: "string list \<Rightarrow> string list"
  pe_NewClient :: "'g \<Rightarrow> 's \<Rightarrow> ('w, 'c) call"
  pe_NewManager :: "'g \<Rightarrow> 's managerOptions \<Rightarrow> ('w, 'm) call"
  pe_RegisterWebhook :: "'m \<Rightarrow> string \<Rightarrow> ('w, unit) call"
  pe_SetupBackupRun :: "'m \<Rightarrow> bool \<Rightarrow> ('w, unit) call"
  pe_SetupRestoreRun :: "'m \<Rightarrow> string \<Rightarrow> bool \<Rightarrow> ('w, unit) call"
  pe_SetupScheduler :: "'m \<Rightarrow> bool \<Rightarrow> ('w, unit) call"
  pe_print :: "string \<Rightarrow> ('w, unit) call"
  pe_klog :: "string \<Rightarrow> ('w, unit) call"

primrec addTypes :: "('w, 'g, 's, 'c, 'm) processEnv \<Rightarrow> string list \<Rightarrow> 's \<Rightarrow> gerr + 's" where
  "addTypes env [] scheme = Inr scheme"
| "addTypes env (name # names) scheme =
     bindE (wrapE (''register the '' @ name @ '' types: '') (pe_AddToScheme env name scheme)) (addTypes env names)"

definition newClientOperations :: "('w, 'g, 's, 'c, 'm) processEnv \<Rightarrow> string \<Rightarrow> ('w, 'c) call" where
  "newClientOperations env kubeconfig =
     bindM (wrapM ''build client configuration: '' (pe_BuildConfig env kubeconfig)) (\<lambda>restConfig.
     bindM (liftE (addTypes env (pe_mapOrder env [''core'', ''batch'', ''backup.wlz.li'', ''kueue'']) (pe_NewScheme env))) (\<lambda>scheme.
     bindM (wrapM ''create client: '' (pe_NewClient env restConfig scheme)) (\<lambda>c.
     thenM (say (pe_klog env) (''starting backup-controller: watching '' @ GroupVersion @ '' VolumeRestore'')) (ret c))))"

definition startRunControllers :: "('w, 'g, 's, 'c, 'm) processEnv \<Rightarrow> string \<Rightarrow> string \<Rightarrow> bootstrapWebhook \<Rightarrow> election \<Rightarrow> bool \<Rightarrow> string \<Rightarrow> ('w, 'm) call" where
  "startRunControllers env kubeconfig metricsAddr hook el paused restoreImage =
     bindM (wrapM ''build client configuration: '' (pe_BuildConfig env kubeconfig)) (\<lambda>restConfig.
     bindM (liftE (addTypes env (pe_mapOrder env [''core'', ''coordination'', ''batch'', ''apps'', ''volsync'', ''backup.wlz.li'', ''kueue'']) (pe_NewScheme env))) (\<lambda>scheme.
     let options = managerOptionsFor scheme metricsAddr el;
         options = (if bw_CertDir hook \<noteq> [] then options\<lparr>mo_WebhookServer := Some (bw_CertDir hook, bw_Port hook)\<rparr> else options) in
     bindM (wrapM ''create the manager: '' (pe_NewManager env restConfig options)) (\<lambda>manager.
     thenM (if bw_CertDir hook \<noteq> []
            then thenM (pe_RegisterWebhook env manager WebhookPath)
                   (say (pe_klog env) (''serving the bootstrap webhook on :'' @ portText (bw_Port hook) @ WebhookPath))
            else ret ()) (
     thenM (if paused then say (pe_klog env) ''paused: new runs wait, runs in progress finish'' else ret ()) (
     thenM (wrapM ''register the BackupRun controller: '' (pe_SetupBackupRun env manager paused)) (
     thenM (wrapM ''register the RestoreRun controller: '' (pe_SetupRestoreRun env manager restoreImage paused)) (
     thenM (wrapM ''register the scheduler: '' (pe_SetupScheduler env manager paused)) (
     thenM (if el_Enabled el
            then say (pe_klog env) (''waiting for the Lease '' @ el_Namespace el @ ''/'' @ leaderElectionID @ '' before starting the controllers'')
            else ret ()) (
     thenM (say (pe_klog env) (''starting backup-controller: reconciling '' @ GroupVersion @ '' BackupRun and RestoreRun, scheduling namespaces''))
       (ret manager))))))))))"

text \<open>What \<open>main\<close> comes to before it waits to be elected: an exit code, or a client and a manager whose
  goroutine runs.\<close>

datatype ('c, 'm) startup = ProcessExit int | Started 'c 'm

definition mainStart :: "('w, 'g, 's, 'c, 'm) processEnv \<Rightarrow> string \<Rightarrow> processFlags \<Rightarrow> ('w, ('c, 'm) startup) call" where
  "mainStart env version f =
     (if mf_printVer f then thenM (say (pe_print env) (version @ newline)) (ret (ProcessExit 0))
      else if mf_restoreImg f = [] then
        thenM (say (pe_klog env) ''--restore-image is required: pass VolSync's mover image, which holds the restic that wrote the repositories'') (ret (ProcessExit 2))
      else bindM (attempt (newClientOperations env (mf_kubeconfig f))) (\<lambda>r. case r of
        Inl err \<Rightarrow> thenM (say (pe_klog env) (''failed to build the Kubernetes client: '' @ errText err)) (ret (ProcessExit 1))
      | Inr c \<Rightarrow>
        bindM (attempt (startRunControllers env (mf_kubeconfig f) (mf_runsMetrics f)
            \<lparr>bw_CertDir = mf_webhookCert f, bw_Port = mf_webhookPort f\<rparr>
            \<lparr>el_Enabled = mf_leaderElect f, el_Namespace = mf_namespace f\<rparr> (mf_pause f) (mf_restoreImg f))) (\<lambda>r. case r of
          Inl err \<Rightarrow> thenM (say (pe_klog env) (''failed to start the run controllers: '' @ errText err)) (ret (ProcessExit 1))
        | Inr manager \<Rightarrow> ret (Started c manager))))"

text \<open>What the populator library is given.\<close>

record libraryConfig =
  lc_Kubeconfig :: string
  lc_HttpEndpoint :: string
  lc_MetricsPath :: string
  lc_Namespace :: string
  lc_Prefix :: string
  lc_Kind :: string
  lc_Resource :: string

definition libraryConfigOf :: "processFlags \<Rightarrow> libraryConfig" where
  "libraryConfigOf f = \<lparr>lc_Kubeconfig = mf_kubeconfig f, lc_HttpEndpoint = mf_metricsAddr f, lc_MetricsPath = mf_metricsPath f,
     lc_Namespace = mf_namespace f, lc_Prefix = ''backup.wlz.li'', lc_Kind = ''VolumeRestore'', lc_Resource = ''volumerestores''\<rparr>"

definition populatorConfig :: "processFlags \<Rightarrow> 'w kubeClient \<Rightarrow> 'w populatorApi \<Rightarrow> 'w populatorApi" where
  "populatorConfig f c api = (clientOperations c api)\<lparr>cb_Namespace := mf_namespace f, cb_Image := mf_restoreImg f, cb_Paused := mf_pause f\<rparr>"

section \<open>The threads of the replicas\<close>

text \<open>Where \<open>main\<close> is, and where the goroutine of the manager is; \<open>ManagerReturned True\<close> is a \<open>Start\<close> that returned an error.
  After \<open>ProcessDead\<close> nothing of the process runs.\<close>

datatype mainAt = AwaitElected | Populating | AwaitStopped | ProcessDead

datatype managerAt = ManagerStarting | ManagerLeading | ManagerReturned bool | ManagerDone

record replica =
  rp_main :: mainAt
  rp_manager :: managerAt
  rp_elected :: bool
  rp_canceled :: bool

definition replica0 :: replica where
  "replica0 = \<lparr>rp_main = AwaitElected, rp_manager = ManagerStarting, rp_elected = False, rp_canceled = False\<rparr>"

text \<open>The steps of \<open>main\<close> from the wait on \<open>elected\<close>: it runs the populator library, cancels the manager once the
  library returned, and returns once the goroutine is done.\<close>

inductive mainStep :: "replica \<Rightarrow> replica \<Rightarrow> bool" where
  populate: "rp_main r = AwaitElected \<Longrightarrow> rp_elected r \<Longrightarrow> mainStep r (r\<lparr>rp_main := Populating\<rparr>)"
| library_returns: "rp_main r = Populating \<Longrightarrow> mainStep r (r\<lparr>rp_main := AwaitStopped, rp_canceled := True\<rparr>)"
| finish: "rp_main r = AwaitStopped \<Longrightarrow> rp_manager r = ManagerDone \<Longrightarrow> mainStep r (r\<lparr>rp_main := ProcessDead\<rparr>)"

text \<open>What the goroutine does once \<open>Start\<close> has returned: with election, an error ends the process.\<close>

inductive goroutineStep :: "bool \<Rightarrow> replica \<Rightarrow> replica \<Rightarrow> bool" for enabled where
  stopped: "rp_manager r = ManagerReturned False \<Longrightarrow> goroutineStep enabled r (r\<lparr>rp_manager := ManagerDone\<rparr>)"
| exits: "rp_manager r = ManagerReturned True \<Longrightarrow> enabled \<Longrightarrow> goroutineStep enabled r (r\<lparr>rp_main := ProcessDead\<rparr>)"
| logged: "rp_manager r = ManagerReturned True \<Longrightarrow> \<not> enabled \<Longrightarrow> goroutineStep enabled r (r\<lparr>rp_manager := ManagerDone\<rparr>)"

inductive_cases mainStepE: "mainStep r r'"
inductive_cases goroutineStepE: "goroutineStep b r r'"

text \<open>All replicas, the holders of the Leases by namespace and name, and, for the proofs, the replicas whose
  Lease has expired since they took it.\<close>

record replicaSet =
  cs_replicas :: "nat \<Rightarrow> replica"
  cs_leases :: "string \<times> string \<Rightarrow> nat option"
  cs_lapsed :: "nat set"

definition upd :: "nat \<Rightarrow> (replica \<Rightarrow> replica) \<Rightarrow> replicaSet \<Rightarrow> replicaSet" where
  "upd i f s = s\<lparr>cs_replicas := (cs_replicas s)(i := f (cs_replicas s i))\<rparr>"

definition lockOf :: "'s managerOptions \<Rightarrow> string \<times> string" where
  "lockOf opts = (mo_LeaderElectionNamespace opts, mo_LeaderElectionID opts)"

text \<open>The Lease after a manager gave it back.\<close>

definition released :: "'s managerOptions \<Rightarrow> nat \<Rightarrow> replicaSet \<Rightarrow> replicaSet" where
  "released opts i s = (if cs_leases s (lockOf opts) = Some i then s\<lparr>cs_leases := (cs_leases s)(lockOf opts := None)\<rparr> else s)"

text \<open>What a manager with these options may do, by the documentation of controller-runtime.\<close>

inductive managerMay :: "'s managerOptions \<Rightarrow> nat \<Rightarrow> replicaSet \<Rightarrow> replicaSet \<Rightarrow> bool" for opts i where
  wins: "rp_manager (cs_replicas s i) = ManagerStarting \<Longrightarrow> mo_LeaderElection opts \<Longrightarrow> cs_leases s (lockOf opts) = None \<Longrightarrow>
    managerMay opts i s ((upd i (\<lambda>r. r\<lparr>rp_manager := ManagerLeading, rp_elected := True\<rparr>) s)
      \<lparr>cs_leases := (cs_leases s)(lockOf opts \<mapsto> i), cs_lapsed := cs_lapsed s - {i}\<rparr>)"
| leads: "rp_manager (cs_replicas s i) = ManagerStarting \<Longrightarrow> \<not> mo_LeaderElection opts \<Longrightarrow>
    managerMay opts i s (upd i (\<lambda>r. r\<lparr>rp_manager := ManagerLeading, rp_elected := True\<rparr>) s)"
| at_once: "\<not> mo_LeaderElection opts \<Longrightarrow> managerMay opts i s (upd i (\<lambda>r. r\<lparr>rp_elected := True\<rparr>) s)"
| fails: "rp_manager (cs_replicas s i) \<in> {ManagerStarting, ManagerLeading} \<Longrightarrow> s' = s \<or> s' = released opts i s \<Longrightarrow>
    managerMay opts i s (upd i (\<lambda>r. r\<lparr>rp_manager := ManagerReturned True\<rparr>) s')"
| stops: "rp_manager (cs_replicas s i) \<in> {ManagerStarting, ManagerLeading} \<Longrightarrow> rp_canceled (cs_replicas s i) \<Longrightarrow>
    s' = (if mo_LeaderElectionReleaseOnCancel opts then released opts i s else s) \<Longrightarrow>
    managerMay opts i s (upd i (\<lambda>r. r\<lparr>rp_manager := ManagerReturned False\<rparr>) s')"

text \<open>The managers as parameter: \<open>run m i\<close> are the moves of the manager \<open>m\<close> in the process of replica \<open>i\<close>. A manager
  does what its documentation allows one with the options it was made with.\<close>

definition managerLaws :: "('w, 'g, 's, 'c, 'm) processEnv \<Rightarrow> ('m \<Rightarrow> nat \<Rightarrow> replicaSet \<Rightarrow> replicaSet \<Rightarrow> bool) \<Rightarrow> bool" where
  "managerLaws env run =
     (\<forall>cfg opts w m w' i s s'. pe_NewManager env cfg opts w = (Inr m, w') \<longrightarrow> run m i s s' \<longrightarrow> managerMay opts i s s')"

text \<open>The steps of the replicas, each with its flags and its manager. A process may also be killed at any moment and
  started again, and a Lease may expire at any moment.\<close>

inductive procStep :: "('m \<Rightarrow> nat \<Rightarrow> replicaSet \<Rightarrow> replicaSet \<Rightarrow> bool) \<Rightarrow> (nat \<Rightarrow> processFlags) \<Rightarrow> (nat \<Rightarrow> 'm) \<Rightarrow> replicaSet \<Rightarrow> replicaSet \<Rightarrow> bool"
  for run flags managers where
  in_main: "rp_main (cs_replicas s i) \<noteq> ProcessDead \<Longrightarrow> mainStep (cs_replicas s i) r \<Longrightarrow> procStep run flags managers s (upd i (\<lambda>_. r) s)"
| in_goroutine: "rp_main (cs_replicas s i) \<noteq> ProcessDead \<Longrightarrow> goroutineStep (mf_leaderElect (flags i)) (cs_replicas s i) r \<Longrightarrow>
    procStep run flags managers s (upd i (\<lambda>_. r) s)"
| in_manager: "rp_main (cs_replicas s i) \<noteq> ProcessDead \<Longrightarrow> run (managers i) i s s' \<Longrightarrow> procStep run flags managers s s'"
| kill: "procStep run flags managers s (upd i (\<lambda>r. r\<lparr>rp_main := ProcessDead\<rparr>) s)"
| restart: "rp_main (cs_replicas s i) = ProcessDead \<Longrightarrow> procStep run flags managers s (upd i (\<lambda>_. replica0) s)"
| expire: "cs_leases s l = Some i \<Longrightarrow>
    procStep run flags managers s (s\<lparr>cs_leases := (cs_leases s)(l := None), cs_lapsed := insert i (cs_lapsed s)\<rparr>)"

definition procStart :: "replicaSet \<Rightarrow> bool" where
  "procStart s = (s = \<lparr>cs_replicas = \<lambda>_. replica0, cs_leases = Map.empty, cs_lapsed = {}\<rparr>)"

section \<open>Leader election\<close>

text \<open>What holds of each living replica, when \<open>l\<close> is the holder of the Lease.\<close>

definition replicaInv :: "nat option \<Rightarrow> nat set \<Rightarrow> nat \<Rightarrow> replica \<Rightarrow> bool" where
  "replicaInv l lapsed i r =
     (rp_main r \<noteq> ProcessDead \<longrightarrow>
        (rp_manager r = ManagerLeading \<longrightarrow> l = Some i \<or> i \<in> lapsed) \<and>
        (rp_elected r \<longrightarrow> rp_manager r \<noteq> ManagerStarting) \<and>
        (rp_main r = Populating \<longrightarrow> rp_elected r \<and> \<not> rp_canceled r) \<and>
        (rp_main r = AwaitElected \<longrightarrow> \<not> rp_canceled r) \<and>
        (rp_manager r \<in> {ManagerReturned False, ManagerDone} \<longrightarrow> rp_canceled r))"

definition electionInv :: "string \<times> string \<Rightarrow> replicaSet \<Rightarrow> bool" where
  "electionInv l s = (\<forall>i. replicaInv (cs_leases s l) (cs_lapsed s) i (cs_replicas s i))"

lemma upd_simps [simp]:
  "cs_replicas (upd i f s) j = (if j = i then f (cs_replicas s i) else cs_replicas s j)" "cs_leases (upd i f s) = cs_leases s"
  "cs_lapsed (upd i f s) = cs_lapsed s"
  by (simp_all add: upd_def)

lemma released_simps [simp]:
  "cs_replicas (released opts i s) = cs_replicas s" "cs_lapsed (released opts i s) = cs_lapsed s"
  "cs_leases (released opts i s) (lockOf opts) = (if cs_leases s (lockOf opts) = Some i then None else cs_leases s (lockOf opts))"
  by (simp_all add: released_def)

lemma electionInv_upd:
  assumes "electionInv l s" "replicaInv (cs_leases s l) (cs_lapsed s) i (cs_replicas s i) \<Longrightarrow> replicaInv (cs_leases s l) (cs_lapsed s) i (f (cs_replicas s i))"
  shows "electionInv l (upd i f s)"
  using assms by (simp add: electionInv_def)

lemma managerMay_electionInv:
  assumes "electionInv (lockOf opts) s" "managerMay opts i s s'" "mo_LeaderElection opts"
  shows "electionInv (lockOf opts) s'"
  using assms(2)
proof cases
  case wins
  have "replicaInv (Some i) (cs_lapsed s - {i}) j (cs_replicas s j)" if "j \<noteq> i" for j
    using assms(1)[unfolded electionInv_def, rule_format, of j] that wins(4) by (auto simp: replicaInv_def)
  moreover have "replicaInv (cs_leases s (lockOf opts)) (cs_lapsed s) i (cs_replicas s i)" using assms(1) by (simp add: electionInv_def)
  then have "replicaInv (Some i) (cs_lapsed s - {i}) i ((cs_replicas s i)\<lparr>rp_manager := ManagerLeading, rp_elected := True\<rparr>)"
    using wins(2) by (auto simp: replicaInv_def)
  ultimately show ?thesis unfolding wins(1) by (simp add: electionInv_def)
next
  case (fails t)
  have r: "electionInv (lockOf opts) (upd i (\<lambda>r. r\<lparr>rp_manager := ManagerReturned True\<rparr>) (released opts i s))"
    unfolding electionInv_def
  proof
    fix j
    from assms(1) have "replicaInv (cs_leases s (lockOf opts)) (cs_lapsed s) j (cs_replicas s j)" by (simp add: electionInv_def)
    then show "replicaInv (cs_leases (upd i (\<lambda>r. r\<lparr>rp_manager := ManagerReturned True\<rparr>) (released opts i s)) (lockOf opts))
        (cs_lapsed (upd i (\<lambda>r. r\<lparr>rp_manager := ManagerReturned True\<rparr>) (released opts i s))) j
        (cs_replicas (upd i (\<lambda>r. r\<lparr>rp_manager := ManagerReturned True\<rparr>) (released opts i s)) j)"
      by (auto simp: replicaInv_def)
  qed
  have "electionInv (lockOf opts) (upd i (\<lambda>r. r\<lparr>rp_manager := ManagerReturned True\<rparr>) s)"
    by (rule electionInv_upd[OF assms(1)]) (auto simp: replicaInv_def)
  with r fails show ?thesis by auto
next
  case (stops t)
  have "replicaInv (cs_leases t (lockOf opts)) (cs_lapsed t) j (cs_replicas (upd i (\<lambda>r. r\<lparr>rp_manager := ManagerReturned False\<rparr>) t) j)" for j
    using assms(1)[unfolded electionInv_def, rule_format, of j] stops(3) unfolding stops(4) by (auto simp: replicaInv_def)
  then show ?thesis unfolding stops(1) by (simp add: electionInv_def)
qed (use assms(3) in simp_all)

lemma procStep_electionInv:
  assumes "electionInv l s" "procStep run flags managers s s'"
    and may: "\<And>i s s'. run (managers i) i s s' \<Longrightarrow> \<exists>opts :: 's managerOptions. lockOf opts = l \<and> mo_LeaderElection opts \<and> managerMay opts i s s'"
    and elect: "\<And>i. mf_leaderElect (flags i)"
  shows "electionInv l s'"
  using assms(2)
proof cases
  case (in_main i r)
  from in_main(3) show ?thesis unfolding in_main(1)
    by (intro electionInv_upd[OF assms(1)]) (auto elim!: mainStepE simp: replicaInv_def)
next
  case (in_goroutine i r)
  from in_goroutine(3) show ?thesis unfolding in_goroutine(1)
    by (intro electionInv_upd[OF assms(1)]) (auto elim!: goroutineStepE simp: replicaInv_def elect)
next
  case (in_manager i)
  from may[OF in_manager(2)] obtain opts :: "'s managerOptions" where "lockOf opts = l" "mo_LeaderElection opts" "managerMay opts i s s'" by blast
  then show ?thesis using managerMay_electionInv[of opts s i s'] assms(1) by simp
next
  case (kill i)
  show ?thesis unfolding kill by (rule electionInv_upd[OF assms(1)]) (auto simp: replicaInv_def)
next
  case (restart i)
  show ?thesis unfolding restart(1) by (rule electionInv_upd[OF assms(1)]) (auto simp: replicaInv_def replica0_def)
next
  case (expire k i)
  have "replicaInv (cs_leases s' l) (cs_lapsed s') j (cs_replicas s' j)" for j
    using assms(1)[unfolded electionInv_def, rule_format, of j] expire(2) unfolding expire(1) by (auto simp: replicaInv_def)
  then show ?thesis by (simp add: electionInv_def)
qed

text \<open>The manager that \<open>main\<close> goes on with was made with election on, for the Lease that the docs name.\<close>

lemma startRunControllers_manager:
  assumes "startRunControllers env kubeconfig metricsAddr hook el paused restoreImage w = (Inr m, w')"
  shows "\<exists>cfg opts v v'. pe_NewManager env cfg opts v = (Inr m, v') \<and> mo_LeaderElection opts = el_Enabled el \<and>
     lockOf opts = (el_Namespace el, ''backup-controller'')"
proof -
  from assms obtain cfg scheme v v' where
    "pe_NewManager env cfg (let options = managerOptionsFor scheme metricsAddr el in
        if bw_CertDir hook \<noteq> [] then options\<lparr>mo_WebhookServer := Some (bw_CertDir hook, bw_Port hook)\<rparr> else options) v = (Inr m, v')"
    unfolding startRunControllers_def Let_def bindM_Inr_iff thenM_def by (auto simp: ret_def)
  then show ?thesis
    by (intro exI conjI, assumption) (simp_all add: managerOptionsFor_def lockOf_def leaderElectionID_def Let_def)
qed

lemma mainStart_manager:
  assumes "mainStart env version f w = (Inr (Started c m), w')"
  shows "\<exists>cfg opts v v'. pe_NewManager env cfg opts v = (Inr m, v') \<and> mo_LeaderElection opts = mf_leaderElect f \<and>
     lockOf opts = (mf_namespace f, ''backup-controller'')"
proof -
  from assms obtain v1 v2 where "startRunControllers env (mf_kubeconfig f) (mf_runsMetrics f) \<lparr>bw_CertDir = mf_webhookCert f, bw_Port = mf_webhookPort f\<rparr>
      \<lparr>el_Enabled = mf_leaderElect f, el_Namespace = mf_namespace f\<rparr> (mf_pause f) (mf_restoreImg f) v1 = (Inr m, v2)"
    by (auto simp: mainStart_def call_simps split: if_splits sum.splits prod.splits)
  from startRunControllers_manager[OF this] show ?thesis by simp
qed

text \<open>Whether anything of a replica works on the cluster: the populator library or a controller.\<close>

definition working :: "replica \<Rightarrow> bool" where
  "working r = (rp_main r \<noteq> ProcessDead \<and> (rp_main r = Populating \<or> rp_manager r = ManagerLeading))"

text \<open>C24. Replicas that \<open>main\<close> started with \<open>--leader-elect\<close> and one \<open>--namespace\<close> do not work beside each other. In every
  interleaving of their threads, with failing managers, killed processes and restarts, a replica that works on the
  cluster holds the Lease \<open>backup-controller\<close> of that namespace, or its manager has returned an error and the next
  thing of that goroutine is to end the process, or its Lease has expired since it took it and its manager has not
  yet noticed. No fencing is assumed: the Lease may expire under a live leader at any moment.\<close>

theorem one_replica_works:
  fixes env :: "('w, 'g, 's, 'c, 'm) processEnv"
  assumes "managerLaws env run" "\<And>i. mainStart env version (flags i) (w i) = (Inr (Started (c i) (managers i)), w' i)"
    and "\<And>i. mf_leaderElect (flags i)" "\<And>i. mf_namespace (flags i) = ns"
    and "reachable procStart (procStep run flags managers) s" "working (cs_replicas s i)"
  shows "cs_leases s (ns, ''backup-controller'') = Some i \<or> rp_manager (cs_replicas s i) = ManagerReturned True \<or> i \<in> cs_lapsed s"
proof -
  let ?l = "(ns, ''backup-controller'')"
  have may: "\<exists>opts :: 's managerOptions. lockOf opts = ?l \<and> mo_LeaderElection opts \<and> managerMay opts i s s'" if "run (managers i) i s s'" for i s s'
  proof -
    obtain cfg v v' and opts :: "'s managerOptions" where m: "pe_NewManager env cfg opts v = (Inr (managers i), v')" and o: "mo_LeaderElection opts" "lockOf opts = ?l"
      using mainStart_manager[OF assms(2)[of i]] assms(3)[of i] assms(4)[of i] by auto
    from m that have "managerMay opts i s s'" using assms(1) unfolding managerLaws_def by blast
    with o show ?thesis by blast
  qed
  have "inductive_invariant procStart (procStep run flags managers) (electionInv ?l)"
    by unfold_locales
      (simp add: procStart_def electionInv_def replicaInv_def replica0_def, rule procStep_electionInv[OF _ _ may assms(3)])
  from inductive_invariant.reachable_inv[OF this assms(5)]
  have "replicaInv (cs_leases s ?l) (cs_lapsed s) i (cs_replicas s i)" by (simp add: electionInv_def)
  then show ?thesis using assms(6) unfolding replicaInv_def working_def
    by (cases "rp_manager (cs_replicas s i)") auto
qed

section \<open>An example\<close>

text \<open>A process whose manager is its options, which does all that its documentation allows.\<close>

definition processEnvEx :: "(unit, unit, unit, unit, unit managerOptions) processEnv" where
  "processEnvEx = \<lparr>pe_BuildConfig = \<lambda>k. ret (), pe_NewScheme = (), pe_AddToScheme = \<lambda>n s. Inr s, pe_mapOrder = \<lambda>ns. ns,
     pe_NewClient = \<lambda>g s. ret (), pe_NewManager = \<lambda>g opts. ret opts, pe_RegisterWebhook = \<lambda>m p. ret (),
     pe_SetupBackupRun = \<lambda>m p. ret (), pe_SetupRestoreRun = \<lambda>m i p. ret (), pe_SetupScheduler = \<lambda>m p. ret (),
     pe_print = \<lambda>t. ret (), pe_klog = \<lambda>t. ret ()\<rparr>"

definition flagsEx :: processFlags where
  "flagsEx = processFlags0\<lparr>mf_restoreImg := ''restic'', mf_leaderElect := True\<rparr>"

definition optionsEx :: "unit managerOptions" where
  "optionsEx = managerOptionsFor () '':8081'' \<lparr>el_Enabled = True, el_Namespace = ''backup-system''\<rparr>"

lemma processEx:
  "managerLaws processEnvEx managerMay" "mainStart processEnvEx ''v'' flagsEx () = (Inr (Started () optionsEx), ())"
  "mf_leaderElect flagsEx" "mf_namespace flagsEx = ''backup-system''"
proof -
  show "managerLaws processEnvEx managerMay" by (auto simp: managerLaws_def processEnvEx_def ret_def)
qed (code_simp | simp add: flagsEx_def processFlags0_def)+

theorem one_replica_works_witness:
  "\<exists>s. reachable procStart (procStep managerMay (\<lambda>_. flagsEx) (\<lambda>_. optionsEx)) s \<and> working (cs_replicas s 0) \<and>
     rp_main (cs_replicas s 0) = Populating \<and> cs_leases s (''backup-system'', ''backup-controller'') = Some 0"
proof -
  let ?step = "procStep managerMay (\<lambda>_ :: nat. flagsEx) (\<lambda>_ :: nat. optionsEx)"
  let ?s0 = "\<lparr>cs_replicas = \<lambda>_. replica0, cs_leases = Map.empty, cs_lapsed = {}\<rparr>"
  let ?s1 = "(upd 0 (\<lambda>r. r\<lparr>rp_manager := ManagerLeading, rp_elected := True\<rparr>) ?s0)\<lparr>cs_leases := (cs_leases ?s0)(lockOf optionsEx \<mapsto> 0), cs_lapsed := cs_lapsed ?s0 - {0}\<rparr>"
  let ?s2 = "upd 0 (\<lambda>_. (cs_replicas ?s1 0)\<lparr>rp_main := Populating\<rparr>) ?s1"
  have o: "mo_LeaderElection optionsEx" by (simp add: optionsEx_def managerOptionsFor_def)
  have "reachable procStart ?step ?s0" by (rule reach_init) (simp add: procStart_def)
  moreover have "?step ?s0 ?s1" by (rule in_manager[where i = 0], simp add: replica0_def, rule wins) (simp_all add: replica0_def o)
  moreover have "?step ?s1 ?s2" by (rule in_main, simp add: replica0_def, rule populate) (simp_all add: replica0_def)
  ultimately have r: "reachable procStart ?step ?s2" by (blast intro: reach_step)
  have w: "working (cs_replicas ?s2 0)" by (simp add: working_def)
  have "cs_leases ?s2 (''backup-system'', ''backup-controller'') = Some 0 \<or> rp_manager (cs_replicas ?s2 0) = ManagerReturned True \<or> 0 \<in> cs_lapsed ?s2"
    by (rule one_replica_works[OF processEx r w])
  then have "cs_leases ?s2 (''backup-system'', ''backup-controller'') = Some 0" by simp
  with r w show ?thesis by (intro exI[of _ ?s2]) simp
qed

end
