(* ===== verification/Spec2Isabelle.thy ===== *)
theory Spec2Isabelle
  imports Choose Lease_System Retime_Example Webhook_Example Pause Sources Cnpg Kueue Backup_Run_Example Schedule Events Restore_Example Populator_Example S3_Retime Process
begin

text \<open>
  A verification development of backup-controller, a Kubernetes controller in Go that backs up and
  restores the volumes and the databases of a namespace.

  \<^bold>\<open>The program.\<close> A BackupRun backs up what its spec names. It waits for Kueue to admit it, takes
  Leases on what it works on, pauses the app, has VolSync snapshot each claim into the claim's restic
  repository and CloudNativePG write a base backup of each Cluster, resumes the app, and then moves
  every snapshot to the moment of the resume and tags it \<open>paused\<close>, so that one moment names a
  consistent state of all volumes. The Scheduler creates BackupRuns on a cron schedule. Three parts
  restore: the volume populator fills a new claim from its repository, the bootstrap webhook turns a
  new Cluster beside an archive into a recovery, and a RestoreRun restores in place.

  \<^bold>\<open>How the code is modelled.\<close> A Go struct is a record, an enumeration a datatype, an error a value of
  \<open>gerr\<close>. A function that talks to the API server, to a repository or to the clock is a \<open>call\<close>: a
  function from the state of the world to a result or an error and a new world. Those outside
  services are parameters, records of calls whose type of the world is left open, and a theorem names
  what it needs of them as hypotheses. Times and durations are integers of nanoseconds, with Go's wrap-around
  left out where the code compares times; integers that are parsed keep the bounds of their width. All
  loops of the modelled code recurse on a list, and so need no fuel, with one exception: the loop over
  the ticks of a schedule is a \<open>partial_function\<close> in the option type, since it does not end for a
  schedule that never fires.

  \<^bold>\<open>The theories and the code under \<open>src/internal\<close>.\<close>
  \<^item> \<open>Prelude\<close>, \<open>Go_Time\<close>: errors, calls, Go's string functions and times (\<open>time.Parse\<close> and \<open>Format\<close> for
    RFC 3339, durations); the locale \<open>newest_pick\<close> of every choice of a newest element.
  \<^item> \<open>Hoare_Calls\<close>, \<open>Run_Monad\<close>: triples and invariants of calls, and the calls of a reconciler, which also change
    a run in memory; the comparison of one reconciler over two API servers.
  \<^item> \<open>Api_Types\<close>, \<open>Kube_Objects\<close>: \<open>api/v1alpha1\<close>, and the fields of Kubernetes objects that are read.
  \<^item> \<open>Crypto\<close>, \<open>Repository\<close>, \<open>Retime\<close>, \<open>Snapshots\<close>: \<open>restic\<close>. Sealing and opening are inverse and authentic; a
    snapshot is moved without ever losing it or a field of its document but the three the move sets, whatever
    call fails, and moving it twice is moving it once.
  \<^item> \<open>Synced_Moment\<close>, \<open>Choose\<close>: \<open>synced/synced.go\<close> and \<open>populator/choose.go\<close>. The moment is the newest paused
    time that every repository holds, and all unpinned claims of a namespace are filled from it.
  \<^item> \<open>Lease\<close>, \<open>Lease_System\<close>: \<open>lease/lease.go\<close> and \<open>runs/leases.go\<close>. Any number of controllers interleave their
    API calls and crash; no two live runs hold the same Lease.
  \<^item> \<open>Archive\<close>, \<open>Base_Backups\<close>, \<open>Webhook\<close>, \<open>Webhook_Recovery\<close>: \<open>bootstrap\<close>. No Cluster starts empty beside an
    archive that holds data, no two share an archive, and where an automatic recovery stops is stated exactly: at
    the moment of the volumes when they all come back from it, and at the end of the archive otherwise.
  \<^item> \<open>Pause\<close>: \<open>runs/pause.go\<close>. Resuming undoes pausing and leaves alone what its owner changed.
  \<^item> \<open>Run_Settings\<close>, \<open>Sources\<close>, \<open>Cnpg\<close>, \<open>Kueue\<close>: the settings of a namespace, \<open>runs/sources.go\<close>, \<open>runs/cnpg.go\<close>
    and \<open>admission\<close>. Settings stay in their bounds, a retention is valid or refused, and no foreign
    ReplicationSource is overwritten. The check of \<open>retain-within\<close> accepts the language of the source's regular
    expression.
  \<^item> \<open>Backup_Run\<close>: \<open>runs/backuprun.go\<close>, a definition for every stage of a pass. \<open>Backup_Run_Inv\<close> and
    \<open>Backup_Run_Pass\<close> hold the invariant of a stored run and the symbolic execution of a pass,
    \<open>Backup_Run_Safe\<close> the theorems: the invariant holds of every status a history of passes, edits and
    crashes stores; no item starts before the pause was recorded; no snapshot moves before the
    moment it moves to was recorded; no pass follows a nil pointer; a run past its deadline, by its own
    timeout, the one of its namespace or the default, ends Failed in the stored status.
  \<^item> \<open>Schedule\<close>, \<open>Events\<close>: \<open>runs/schedule.go\<close>, \<open>runs/metrics.go\<close> and \<open>runs/events.go\<close>. The tick that is due is the newest
    one, a tick gives one run at most, and a note fits its limit in whole characters.
  \<^item> \<open>Restore_Job\<close>, \<open>Restore_Select\<close>, \<open>Restore_Items\<close>, \<open>Restore_Run\<close>: \<open>restorejob/job.go\<close> and
    \<open>runs/restore_select.go\<close>, \<open>restore_items.go\<close> and \<open>restorerun.go\<close>, a definition for every stage of a pass, every
    step of an item and the selection. Selecting is all or nothing: each volume gets the reference choice of its
    repository and each database the base backup that the stop rule names in its own Cluster's archive.
  \<^item> \<open>Restore_Protocol\<close>: the abstract specification of a RestoreRun: what its stored status says of its items, and
    the traces it may leave in the cluster (deleted Clusters, created Jobs, a woken app), as a step relation.
    \<open>Run_Safe\<close> executes a call of a reconciler on an invariant of the run in memory and the world;
    \<open>Restore_Laws\<close> says what the proofs use of the API server; \<open>Restore_Moves\<close>, \<open>Restore_Safe\<close>, \<open>Restore_Ends\<close>,
    \<open>Restore_Starts\<close> and \<open>Restore_Works\<close> show each operation safe. \<open>Restore_Refines\<close>: a pass refines the protocol,
    whatever call of it fails, so over the life of a run nothing is deleted, created or woken that the
    stored status does not account for, and a run that ends has settled every item. The stored status is
    what these theorems speak of: a volume recorded as Failed because its Job was deleted may still be written
    by a pod of that Job when the app is woken, which \<open>Restore_Example\<close> shows on a concrete run.
  \<^item> \<open>Populator\<close>: \<open>populator/populator.go\<close>, \<open>populator/status.go\<close> and \<open>volsync/secret.go\<close>, the callbacks that fill
    a new claim from its VolumeRestore. \<open>Populator_Safe\<close> follows the versions of the VolumeRestore and the Jobs
    over its life, with stale copies and lost replies: each Job restores what a stored entry records.
    \<open>Populator_Starts\<close> says when a Job is created and that all volumes come back from the paused moment,
    \<open>Populator_Ends\<close> what \<open>Complete\<close> and \<open>Cleanup\<close> leave: the slot goes back after the pods, and a second
    \<open>Cleanup\<close> writes nothing.
  \<^item> \<open>S3_Store\<close>, \<open>S3_Prober\<close>: \<open>restic/s3.go\<close> and \<open>bootstrap/s3.go\<close>. A bucket under a prefix keeps the promises of
    the store that \<open>Repository\<close> and \<open>Retime\<close> are proved on, so what they show holds of a repository in S3, and
    \<open>S3_Retime\<close> shows that moving a snapshot there touches no object outside the repository's prefix. The two
    listings of \<open>WALSince\<close> and the one of \<open>ArchiveEmpty\<close> answer exactly what the archive holds.
  \<^item> \<open>Cli\<close>: the kubectl plugin, \<open>cli/cli.go\<close>, from its flags to its exit code. A command line asks the API server for
    the one run its flags describe or for nothing.
  \<^item> \<open>Process\<close>: \<open>src/cmd/backup-controller\<close>, the start-up and the threads of the replicas under leader election. A
    replica that \<open>main\<close> started with \<open>--leader-elect\<close> works only while it holds the Lease of its namespace, up to the
    moment in which its failed manager ends the process. The manager is a parameter that does what is
    documented for the options it was made with. The Lease may expire at any moment, also under a live
    leader, and the theorem excepts a replica whose Lease has.
  \<^item> \<open>S3_Example\<close>, \<open>Retime_Example\<close>, \<open>Webhook_Example\<close>, \<open>Backup_Run_Example\<close>, \<open>Restore_Example\<close>, \<open>Populator_Example\<close>: concrete stores, clusters and runs on which the
    theorems with hypotheses are applied.

  \<^bold>\<open>Interfaces.\<close> Each locale is an interface between components and is interpreted on the model's own
  definitions: \<open>newest_pick\<close> on the choices of snapshots and base backups, \<open>inductive_invariant\<close> on the
  histories of a stored BackupRun, on the protocol of a RestoreRun and on the life of a VolumeRestore, and
  \<open>safe_pass\<close> on the pass of the RestoreRun reconciler. The replicas under leader election satisfy
  \<open>inductive_invariant\<close> too, under the hypotheses on their managers, inside the proof of their theorem.

  \<^bold>\<open>Not modelled.\<close> The MinIO client, the Kubernetes client and controller-runtime's manager, Kueue, VolSync and
  CloudNativePG themselves, the volume populator library with its work queue, the cron library, pflag, YAML and
  the cryptographic primitives are not in the repository and are parameters. Log lines of the reconcilers, the
  generated deep copies, which a model of values has no counterpart of, the registration of the types with
  a scheme, and the DirStore of the tests are left out.
\<close>

end
